(* ===== verification/Prelude.thy ===== *)
theory Prelude
  imports Main "HOL-Library.Word" "HOL-Library.Monad_Syntax"
begin

text \<open>
  Shared vocabulary of the development: the machine-integer types of the C sources
  (\<^verbatim>\<open>uint8_t\<close> to \<^verbatim>\<open>uint64_t\<close>; \<^verbatim>\<open>uintptr_t\<close>, \<^verbatim>\<open>size_t\<close> and
  pointers are 64-bit, the target is rv64), C truth values, little-endian byte lists, and the
  lemma collections the component theories add to.
\<close>

unbundle bit_operations_syntax

type_synonym u8 = "8 word"
type_synonym u16 = "16 word"
type_synonym u32 = "32 word"
type_synonym u64 = "64 word"

named_theorems bytes_simps "reading and writing little-endian byte lists"
named_theorems mem_simps "loads after stores"
named_theorems world_simps "frame facts of the machine state"
named_theorems io_simps "the accesses a driver makes"

section \<open>C expressions\<close>

text \<open>A comparison or a negation in C yields the \<^verbatim>\<open>int\<close> 1 or 0.\<close>

definition c_bool :: "bool \<Rightarrow> u32" where
  "c_bool b = (if b then 1 else 0)"

lemma c_bool_eq_0 [simp]: "c_bool b = 0 \<longleftrightarrow> \<not> b"
  by (simp add: c_bool_def)

lemma c_bool_eq_1 [simp]: "c_bool b = 1 \<longleftrightarrow> b"
  by (simp add: c_bool_def)

text \<open>The characters of a C string literal as bytes.\<close>

definition bytes_of :: "string \<Rightarrow> u8 list" where
  "bytes_of cs = map of_char cs"

section \<open>Words as little-endian byte lists\<close>

primrec le_word :: "u8 list \<Rightarrow> 'a::len word" where
  "le_word [] = 0"
| "le_word (b # bs) = ucast b OR push_bit 8 (le_word bs)"

definition le_bytes :: "nat \<Rightarrow> 'a::len word \<Rightarrow> u8 list" where
  "le_bytes n w = map (\<lambda>i. ucast (drop_bit (8 * i) w)) [0..<n]"

lemma length_le_bytes [simp]: "length (le_bytes n w) = n"
  by (simp add: le_bytes_def)

lemma bit_le_word:
  "bit (le_word bs :: 'a::len word) k \<longleftrightarrow>
     k < LENGTH('a) \<and> k div 8 < length bs \<and> bit (bs ! (k div 8)) (k mod 8)"
proof (induction bs arbitrary: k)
  case Nil
  then show ?case by simp
next
  case (Cons b bs)
  show ?case
  proof (cases "k < 8")
    case True
    then show ?thesis by (auto simp: bit_simps)
  next
    case False
    then obtain j where k: "k = j + 8" by (metis add.commute le_Suc_ex not_less)
    have "bit b (j + 8) = False"
      using bit_imp_le_length [of b "j + 8"] by auto
    moreover have "(j + 8) div 8 = Suc (j div 8)" "(j + 8) mod 8 = j mod 8"
      by simp_all
    ultimately show ?thesis
      using Cons.IH [of j] by (auto simp: k bit_simps)
  qed
qed

lemma pos_mod_bound8: "k mod 8 < (8 :: nat)"
  by simp

lemma le_word_le_bytes [bytes_simps]:
  assumes "LENGTH('a) \<le> 8 * n"
  shows "le_word (le_bytes n w) = (w :: 'a::len word)"
proof (rule bit_word_eqI)
  fix k assume k: "k < LENGTH('a)"
  with assms have "k div 8 < n" by linarith
  then show "bit (le_word (le_bytes n w) :: 'a word) k = bit w k"
    using k pos_mod_bound8 [of k]
    by (auto simp: bit_le_word le_bytes_def bit_simps add.commute)
qed

lemma le_bytes_le_word [bytes_simps]:
  assumes "length bs = n" "8 * n \<le> LENGTH('a)"
  shows "le_bytes n (le_word bs :: 'a::len word) = bs"
proof (rule nth_equalityI)
  show "length (le_bytes n (le_word bs :: 'a word)) = length bs" using assms by simp
next
  fix i assume "i < length (le_bytes n (le_word bs :: 'a word))"
  then have i: "i < n" by simp
  show "le_bytes n (le_word bs :: 'a word) ! i = bs ! i"
  proof (rule bit_word_eqI)
    fix k assume k: "k < LENGTH(8)"
    have "(k + 8 * i) div 8 = i" "(k + 8 * i) mod 8 = k" using k by auto
    moreover have "k + 8 * i < LENGTH('a)" using k i assms by simp
    ultimately show "bit (le_bytes n (le_word bs :: 'a word) ! i) k = bit (bs ! i) k"
      using k i assms by (simp add: le_bytes_def bit_simps bit_le_word add.commute)
  qed
qed

section \<open>Pointer arithmetic without wrap-around\<close>

lemma unat_add_no_wrap:
  "unat d + unat k < 2 ^ 64 \<Longrightarrow> unat ((d :: u64) + k) = unat d + unat k"
  by (simp add: unat_word_ariths)

lemma unat_u64_less: "unat (w :: u64) < 2 ^ 64"
  using unsigned_less [of w] by simp

lemma unat_u32_less: "unat (w :: u32) < 2 ^ 32"
  using unsigned_less [of w] by simp

lemma unat_of_nat_u64: "n < 2 ^ 64 \<Longrightarrow> unat (of_nat n :: u64) = n"
  by (simp add: unat_of_nat)

lemma unat_Suc_less: "(d :: 'a::len word) < e \<Longrightarrow> unat (d + 1) = Suc (unat d)"
proof -
  assume "d < e"
  then have "unat d < unat e" by (simp add: word_less_nat_alt)
  moreover have "unat e < 2 ^ LENGTH('a)" by simp
  ultimately have "Suc (unat d) < 2 ^ LENGTH('a)" by linarith
  then show ?thesis by (simp add: unat_word_ariths)
qed

text \<open>A counter that has not reached its bound: what the termination of the counting loops needs.\<close>

lemma count_up_decreases: "(i :: 'a::len word) < n \<Longrightarrow> unat n - unat (i + 1) < unat n - unat i"
  by (simp add: unat_Suc_less word_less_nat_alt)

lemma ucast_u8_u32_inject [simp]: "(ucast (b :: u8) :: u32) = ucast c \<longleftrightarrow> b = c"
proof
  assume eq: "(ucast b :: u32) = ucast c"
  show "b = c"
  proof (rule bit_word_eqI)
    fix n assume "n < LENGTH(8)"
    then show "bit b n = bit c n"
      using arg_cong [OF eq, of "\<lambda>w. bit w n"] by (simp add: bit_simps)
  qed
qed simp

lemma ucast_u32_u64_u32 [simp]: "(ucast (ucast (w :: u32) :: u64) :: u32) = w"
  by (rule bit_word_eqI) (simp add: bit_simps)

lemma unat_ucast_u32_u64 [simp]: "unat (ucast (w :: u32) :: u64) = unat w"
  using unat_u32_less [of w] by (simp add: unsigned_ucast_eq take_bit_nat_eq_self)

lemma ucast_u8_u64_u8 [simp]: "(ucast (ucast (w :: u8) :: u64) :: u8) = w"
  by (rule bit_word_eqI) (simp add: bit_simps)

lemma and_7_eq_0_iff: "(w :: u64) AND 7 = 0 \<longleftrightarrow> 8 dvd unat w"
proof -
  have "w AND 7 = take_bit 3 w" by (simp add: take_bit_eq_mask mask_eq_exp_minus_1)
  then have "unat (w AND 7) = unat w mod 8" by (simp add: take_bit_eq_mod unat_mod_distrib)
  then show ?thesis by (metis dvd_eq_mod_eq_0 unat_eq_zero unsigned_0)
qed

lemma or_and_7_eq_0: "((v :: u64) OR w) AND 7 = 0 \<longleftrightarrow> v AND 7 = 0 \<and> w AND 7 = 0"
  by (simp add: bit.conj_disj_distrib2 or_eq_0_iff)

section \<open>Addresses\<close>

text \<open>
  Two byte ranges of the 64-bit address space that share no address. Addresses wrap around,
  so this is stated on the addresses themselves.
\<close>

definition apart :: "u64 \<Rightarrow> nat \<Rightarrow> u64 \<Rightarrow> nat \<Rightarrow> bool" where
  "apart a n b k \<longleftrightarrow> (\<forall>i<n. \<forall>j<k. a + of_nat i \<noteq> b + of_nat j)"

lemma apart_sym: "apart a n b k \<Longrightarrow> apart b k a n"
  unfolding apart_def by metis

lemma of_nat_u64_inject:
  assumes "i < 2 ^ 64" "j < 2 ^ 64"
  shows "(of_nat i :: u64) = of_nat j \<longleftrightarrow> i = j"
  using assms by (simp add: word_of_nat_eq_iff take_bit_nat_eq_self)

lemma apartI:
  assumes "unat a + n \<le> unat b" "unat b + k \<le> 2 ^ 64"
  shows "apart a n b k"
  unfolding apart_def
proof (intro allI impI)
  fix i j assume ij: "i < n" "j < k"
  have "unat (a + of_nat i) = unat a + i"
    using assms ij by (subst unat_word_ariths) (simp add: unat_of_nat)
  moreover have "unat (b + of_nat j) = unat b + j"
    using assms ij by (subst unat_word_ariths) (simp add: unat_of_nat)
  ultimately show "a + of_nat i \<noteq> b + of_nat j"
    using assms ij by auto
qed

lemma apart_offset:
  assumes "apart a n b k" "i + n' \<le> n" "j + k' \<le> k"
  shows "apart (a + of_nat i) n' (b + of_nat j) k'"
  unfolding apart_def
proof (intro allI impI)
  fix x y assume "x < n'" "y < k'"
  then have "i + x < n" "j + y < k" using assms by auto
  then have "a + of_nat (i + x) \<noteq> b + of_nat (j + y)"
    using assms(1) unfolding apart_def by blast
  then show "a + of_nat i + of_nat x \<noteq> b + of_nat j + of_nat y"
    by (simp add: add.assoc)
qed

lemma apart_mono: "apart a n b k \<Longrightarrow> n' \<le> n \<Longrightarrow> k' \<le> k \<Longrightarrow> apart a n' b k'"
  unfolding apart_def by auto

end
