(* ===== verification/Memory.thy ===== *)
theory Memory
  imports Prelude
begin

text \<open>
  Byte-addressed memory and the interface every component uses it through. The locale
  \<open>byte_store\<close> states the two laws of a byte store (a load after a store to the same address
  gives the stored byte, a store changes no other address) and derives the facts about
  little-endian accesses of any width and about arrays; it is interpreted here on the RAM of
  the model and in \<open>Machine\<close> on the machine state.
\<close>

type_synonym ram = "u64 \<Rightarrow> u8"

section \<open>Byte lists in a store\<close>

primrec put_bytes :: "('m \<Rightarrow> u64 \<Rightarrow> u8 \<Rightarrow> 'm) \<Rightarrow> 'm \<Rightarrow> u64 \<Rightarrow> u8 list \<Rightarrow> 'm" where
  "put_bytes wr m a [] = m"
| "put_bytes wr m a (b # bs) = put_bytes wr (wr m a b) (a + 1) bs"

primrec get_bytes :: "('m \<Rightarrow> u64 \<Rightarrow> u8) \<Rightarrow> 'm \<Rightarrow> u64 \<Rightarrow> nat \<Rightarrow> u8 list" where
  "get_bytes rd m a 0 = []"
| "get_bytes rd m a (Suc n) = rd m a # get_bytes rd m (a + 1) n"

lemma length_get_bytes [simp]: "length (get_bytes rd m a n) = n"
  by (induction n arbitrary: a) auto

lemma nth_get_bytes: "i < n \<Longrightarrow> get_bytes rd m a n ! i = rd m (a + of_nat i)"
proof (induction n arbitrary: a i)
  case 0
  then show ?case by simp
next
  case (Suc n)
  then show ?case by (cases i) (auto simp: add.assoc)
qed

lemma get_bytes_append:
  "get_bytes rd m a (n + k) = get_bytes rd m a n @ get_bytes rd m (a + of_nat n) k"
  by (induction n arbitrary: a) (auto simp: add.assoc)

lemma put_bytes_append:
  "put_bytes wr m a (xs @ ys) = put_bytes wr (put_bytes wr m a xs) (a + of_nat (length xs)) ys"
  by (induction xs arbitrary: a m) (auto simp: add.assoc)

lemma get_bytes_cong:
  "(\<And>i. i < n \<Longrightarrow> rd m (a + of_nat i) = rd' m' (a + of_nat i)) \<Longrightarrow>
     get_bytes rd m a n = get_bytes rd' m' a n"
  by (rule nth_equalityI) (auto simp: nth_get_bytes)

section \<open>The interface of a byte store\<close>

locale byte_store =
  fixes rd :: "'m \<Rightarrow> u64 \<Rightarrow> u8"
    and wr :: "'m \<Rightarrow> u64 \<Rightarrow> u8 \<Rightarrow> 'm"
  assumes rd_wr_same: "rd (wr m a v) a = v"
    and rd_wr_other: "b \<noteq> a \<Longrightarrow> rd (wr m a v) b = rd m b"
begin

lemma rd_put_outside:
  "(\<And>i. i < length bs \<Longrightarrow> b \<noteq> a + of_nat i) \<Longrightarrow> rd (put_bytes wr m a bs) b = rd m b"
proof (induction bs arbitrary: a m)
  case Nil
  then show ?case by simp
next
  case (Cons x xs)
  have "b \<noteq> a" using Cons.prems [of 0] by simp
  moreover have "b \<noteq> a + 1 + of_nat i" if "i < length xs" for i
    using Cons.prems [of "Suc i"] that by (simp add: add.assoc)
  ultimately show ?case using Cons.IH by (simp add: rd_wr_other)
qed

lemma rd_put_inside:
  assumes "length bs \<le> 2 ^ 64" "i < length bs"
  shows "rd (put_bytes wr m a bs) (a + of_nat i) = bs ! i"
  using assms
proof (induction bs arbitrary: a m i)
  case Nil
  then show ?case by simp
next
  case (Cons x xs)
  show ?case
  proof (cases i)
    case 0
    have "a \<noteq> a + 1 + of_nat j" if "j < length xs" for j
    proof -
      have "(of_nat (Suc j) :: u64) \<noteq> of_nat 0"
        using Cons.prems that of_nat_u64_inject [of "Suc j" 0] by simp
      then show ?thesis by (simp add: add.assoc)
    qed
    then show ?thesis using 0 by (simp add: rd_put_outside rd_wr_same)
  next
    case (Suc j)
    then have "rd (put_bytes wr (wr m a x) (a + 1) xs) (a + 1 + of_nat j) = xs ! j"
      using Cons.prems by (intro Cons.IH) auto
    then show ?thesis using Suc by (simp add: add.assoc)
  qed
qed

lemma get_put_same:
  "length bs \<le> 2 ^ 64 \<Longrightarrow> n = length bs \<Longrightarrow> get_bytes rd (put_bytes wr m a bs) a n = bs"
  by (rule nth_equalityI) (auto simp: nth_get_bytes rd_put_inside)

lemma get_put_apart:
  assumes "apart a (length bs) b n"
  shows "get_bytes rd (put_bytes wr m a bs) b n = get_bytes rd m b n"
proof (rule get_bytes_cong, rule rd_put_outside)
  fix i j assume "i < n" "j < length bs"
  then show "b + of_nat i \<noteq> a + of_nat j"
    using assms unfolding apart_def by metis
qed

lemma get_put_within:
  assumes "length bs \<le> 2 ^ 64" "k + n \<le> length bs"
  shows "get_bytes rd (put_bytes wr m a bs) (a + of_nat k) n = take n (drop k bs)"
proof (rule nth_equalityI)
  show "length (get_bytes rd (put_bytes wr m a bs) (a + of_nat k) n) = length (take n (drop k bs))"
    using assms by simp
next
  fix i assume "i < length (get_bytes rd (put_bytes wr m a bs) (a + of_nat k) n)"
  then have i: "i < n" by simp
  then have "rd (put_bytes wr m a bs) (a + of_nat (k + i)) = bs ! (k + i)"
    using assms by (intro rd_put_inside) auto
  then show "get_bytes rd (put_bytes wr m a bs) (a + of_nat k) n ! i = take n (drop k bs) ! i"
    using i assms by (simp add: nth_get_bytes add.assoc)
qed

end

section \<open>The RAM of the model\<close>

definition ld8 :: "ram \<Rightarrow> u64 \<Rightarrow> u8" where
  "ld8 m a = m a"

definition st8 :: "ram \<Rightarrow> u64 \<Rightarrow> u8 \<Rightarrow> ram" where
  "st8 m a v = m(a := v)"

definition ld16 :: "ram \<Rightarrow> u64 \<Rightarrow> u16" where
  "ld16 m a = ucast (m (a + 1)) * 256 + ucast (m a)"

definition ld32 :: "ram \<Rightarrow> u64 \<Rightarrow> u32" where
  "ld32 m a = le_word (get_bytes ld8 m a 4)"

definition st32 :: "ram \<Rightarrow> u64 \<Rightarrow> u32 \<Rightarrow> ram" where
  "st32 m a v = put_bytes st8 m a (le_bytes 4 v)"

definition ld64 :: "ram \<Rightarrow> u64 \<Rightarrow> u64" where
  "ld64 m a = le_word (get_bytes ld8 m a 8)"

definition st64 :: "ram \<Rightarrow> u64 \<Rightarrow> u64 \<Rightarrow> ram" where
  "st64 m a v = put_bytes st8 m a (le_bytes 8 v)"

interpretation ram_store: byte_store ld8 st8
  by unfold_locales (auto simp: ld8_def st8_def)

lemma ld32_st32_same [mem_simps]: "ld32 (st32 m a v) a = v"
  by (simp add: ld32_def st32_def ram_store.get_put_same bytes_simps)

lemma ld64_st64_same [mem_simps]: "ld64 (st64 m a v) a = v"
  by (simp add: ld64_def st64_def ram_store.get_put_same bytes_simps)

lemma ld32_st32_apart [mem_simps]: "apart a 4 b 4 \<Longrightarrow> ld32 (st32 m a v) b = ld32 m b"
  by (simp add: ld32_def st32_def ram_store.get_put_apart)

lemma ld8_st32_apart [mem_simps]: "apart a 4 b 1 \<Longrightarrow> ld8 (st32 m a v) b = ld8 m b"
  using ram_store.get_put_apart [of a "le_bytes 4 v" b 1 m] by (simp add: st32_def)

text \<open>The RAM after a block store, pointwise; stores to disjoint blocks commute.\<close>

lemma put_bytes_ram:
  assumes "length bs \<le> 2 ^ 64"
  shows "put_bytes st8 m a bs x = (if unat (x - a) < length bs then bs ! unat (x - a) else m x)"
proof (cases "unat (x - a) < length bs")
  case True
  then have "ld8 (put_bytes st8 m a bs) (a + of_nat (unat (x - a))) = bs ! unat (x - a)"
    using assms by (intro ram_store.rd_put_inside)
  then show ?thesis using True by (simp add: ld8_def)
next
  case False
  have "x \<noteq> a + of_nat i" if "i < length bs" for i
    using False that assms by (auto simp: unat_of_nat_u64)
  then have "ld8 (put_bytes st8 m a bs) x = ld8 m x" by (rule ram_store.rd_put_outside)
  then show ?thesis using False by (simp add: ld8_def)
qed

lemma put_bytes_commute:
  assumes "apart a (length xs) b (length ys)" "length xs \<le> 2 ^ 64" "length ys \<le> 2 ^ 64"
  shows "put_bytes st8 (put_bytes st8 m a xs) b ys = put_bytes st8 (put_bytes st8 m b ys) a xs"
proof
  fix x
  have "\<not> (unat (x - a) < length xs \<and> unat (x - b) < length ys)"
  proof
    assume "unat (x - a) < length xs \<and> unat (x - b) < length ys"
    then have "a + of_nat (unat (x - a)) \<noteq> b + of_nat (unat (x - b))"
      using assms(1) unfolding apart_def by blast
    then show False by simp
  qed
  then show "put_bytes st8 (put_bytes st8 m a xs) b ys x = put_bytes st8 (put_bytes st8 m b ys) a xs x"
    using assms(2,3) by (simp add: put_bytes_ram)
qed

section \<open>Arrays of 32-bit words\<close>

primrec ld_words :: "ram \<Rightarrow> u64 \<Rightarrow> nat \<Rightarrow> u32 list" where
  "ld_words m a 0 = []"
| "ld_words m a (Suc n) = ld32 m a # ld_words m (a + 4) n"

primrec st_words :: "ram \<Rightarrow> u64 \<Rightarrow> u32 list \<Rightarrow> ram" where
  "st_words m a [] = m"
| "st_words m a (w # ws) = st_words (st32 m a w) (a + 4) ws"

lemma length_ld_words [simp]: "length (ld_words m a n) = n"
  by (induction n arbitrary: a) auto

lemma nth_ld_words: "i < n \<Longrightarrow> ld_words m a n ! i = ld32 m (a + 4 * of_nat i)"
proof (induction n arbitrary: a i)
  case 0
  then show ?case by simp
next
  case (Suc n)
  then show ?case by (cases i) (auto simp: algebra_simps)
qed

text \<open>An array store is one store of the concatenated bytes of its words.\<close>

lemma st_words_bytes: "st_words m a ws = put_bytes st8 m a (concat (map (le_bytes 4) ws))"
  by (induction ws arbitrary: m a) (auto simp: st32_def put_bytes_append)

lemma length_concat_le_bytes [simp]:
  "length (concat (map (le_bytes n) (ws :: 'a::len word list))) = n * length ws"
  by (induction ws) auto

lemma drop_concat_le_bytes:
  "k \<le> length ws \<Longrightarrow>
     drop (4 * k) (concat (map (le_bytes 4) (ws :: u32 list))) = concat (map (le_bytes 4) (drop k ws))"
proof (induction ws arbitrary: k)
  case Nil
  then show ?case by simp
next
  case (Cons w ws)
  then show ?case by (cases k) auto
qed

lemma ld32_st_words_within [mem_simps]:
  assumes "length ws < 2 ^ 62" "i < length ws"
  shows "ld32 (st_words m a ws) (a + 4 * of_nat i) = ws ! i"
proof -
  let ?bs = "concat (map (le_bytes 4) ws)"
  have "get_bytes ld8 (put_bytes st8 m a ?bs) (a + of_nat (4 * i)) 4 = take 4 (drop (4 * i) ?bs)"
    using assms by (intro ram_store.get_put_within) auto
  also have "drop (4 * i) ?bs = concat (map (le_bytes 4) (drop i ws))"
    using assms by (intro drop_concat_le_bytes) simp
  also have "drop i ws = ws ! i # drop (Suc i) ws"
    using assms by (simp add: Cons_nth_drop_Suc)
  finally show ?thesis
    by (simp add: ld32_def st_words_bytes bytes_simps)
qed

lemma ld_st_words_same [mem_simps]:
  "length ws < 2 ^ 62 \<Longrightarrow> n = length ws \<Longrightarrow> ld_words (st_words m a ws) a n = ws"
  by (rule nth_equalityI) (auto simp: nth_ld_words ld32_st_words_within)

lemma ld32_st_words_apart [mem_simps]:
  "apart a (4 * length ws) b 4 \<Longrightarrow> ld32 (st_words m a ws) b = ld32 m b"
  by (simp add: ld32_def st_words_bytes ram_store.get_put_apart)

lemma ld8_st_words_apart [mem_simps]:
  "apart a (4 * length ws) b 1 \<Longrightarrow> ld8 (st_words m a ws) b = ld8 m b"
  using ram_store.get_put_apart [of a "concat (map (le_bytes 4) ws)" b 1 m]
  by (simp add: st_words_bytes)

lemma ld_st_words_apart [mem_simps]:
  assumes "apart a (4 * length ws) b (4 * n)"
  shows "ld_words (st_words m a ws) b n = ld_words m b n"
proof (rule nth_equalityI)
  fix i assume i: "i < length (ld_words (st_words m a ws) b n)"
  have "apart (a + of_nat 0) (4 * length ws) (b + of_nat (4 * i)) 4"
    using assms i by (intro apart_offset) auto
  then show "ld_words (st_words m a ws) b n ! i = ld_words m b n ! i"
    using i by (simp add: nth_ld_words ld32_st_words_apart)
qed simp

lemma st_words_append:
  "st_words m a (xs @ ys) = st_words (st_words m a xs) (a + 4 * of_nat (length xs)) ys"
  by (induction xs arbitrary: m a) (auto simp: algebra_simps)

lemma st32_st_words_commute:
  assumes "apart a (4 * length ws) b 4" "length ws < 2 ^ 62"
  shows "st32 (st_words m a ws) b v = st_words (st32 m b v) a ws"
  unfolding st32_def st_words_bytes
  using assms by (intro put_bytes_commute) auto

text \<open>The arrays are also what the bytes say: the little-endian view of a byte buffer.\<close>

lemma ld_words_put_bytes:
  assumes "length bs = 4 * n" "n < 2 ^ 62" "i < n"
  shows "ld_words (put_bytes st8 m a bs) a n ! i = le_word (take 4 (drop (4 * i) bs))"
proof -
  have "get_bytes ld8 (put_bytes st8 m a bs) (a + of_nat (4 * i)) 4 = take 4 (drop (4 * i) bs)"
    using assms by (intro ram_store.get_put_within) auto
  then show ?thesis using assms by (simp add: nth_ld_words ld32_def)
qed

end
