(* ===== verification/CString.thy ===== *)
theory CString
  imports Memory
begin

text \<open>
  \<^verbatim>\<open>src/pk/util/string.c\<close>: the C library routines the kernel carries, over the byte memory.
  A loop that runs until it meets a byte (a terminating zero, an end pointer that a step of
  eight can jump over) may not end, so it is a partial function: \<open>None\<close> is "does not
  return". \<^verbatim>\<open>char\<close> is unsigned on this target.
\<close>

section \<open>The routines\<close>

subsection \<open>memcpy\<close>

partial_function (option) memcpy_words :: "ram \<Rightarrow> u64 \<Rightarrow> u64 \<Rightarrow> u64 \<Rightarrow> (ram \<times> u64 \<times> u64) option" where
  "memcpy_words m d s e =
     (if d < e then memcpy_words (st64 m d (ld64 m s)) (d + 8) (s + 8) e else Some (m, d, s))"

function memcpy_bytes :: "ram \<Rightarrow> u64 \<Rightarrow> u64 \<Rightarrow> u64 \<Rightarrow> ram" where
  "memcpy_bytes m d s e =
     (if d < e then memcpy_bytes (st8 m d (ld8 m s)) (d + 1) (s + 1) e else m)"
  by pat_completeness auto
termination
proof (relation "measure (\<lambda>(m, d, s, e). unat e - unat d)")
  fix m :: ram and d s e :: u64
  assume "d < e"
  then have "unat (d + 1) = Suc (unat d)" "unat d < unat e"
    by (auto simp: unat_Suc_less word_less_nat_alt)
  then show "((st8 m d (ld8 m s), d + 1, s + 1, e), m, d, s, e)
      \<in> measure (\<lambda>(m, d, s, e). unat e - unat d)"
    by simp
qed simp

declare memcpy_bytes.simps [simp del]

definition memcpy :: "ram \<Rightarrow> u64 \<Rightarrow> u64 \<Rightarrow> u64 \<Rightarrow> ram option" where
  "memcpy m dest src len =
     do { (m, d, s) \<leftarrow> (if (dest OR src) AND 7 = 0
                      then memcpy_words m dest src (dest + len - 7)
                      else Some (m, dest, src));
          Some (memcpy_bytes m d s (dest + len)) }"

subsection \<open>memset\<close>

partial_function (option) memset_words :: "ram \<Rightarrow> u64 \<Rightarrow> u64 \<Rightarrow> u64 \<Rightarrow> ram option" where
  "memset_words m d word e = (if d < e then memset_words (st64 m d word) (d + 8) word e else Some m)"

partial_function (option) memset_bytes :: "ram \<Rightarrow> u64 \<Rightarrow> u8 \<Rightarrow> u64 \<Rightarrow> ram option" where
  "memset_bytes m d byte e = (if d < e then memset_bytes (st8 m d byte) (d + 1) byte e else Some m)"

definition memset_splat :: "u32 \<Rightarrow> u64" where
  "memset_splat byte =
     (let word = ucast (byte AND 0xFF) :: u64;
          word = word OR push_bit 8 word;
          word = word OR push_bit 16 word
      in word OR push_bit 16 (push_bit 16 word))"

definition memset :: "ram \<Rightarrow> u64 \<Rightarrow> u32 \<Rightarrow> u64 \<Rightarrow> ram option" where
  "memset m dest byte len =
     (if (dest OR len) AND 7 = 0
      then memset_words m dest (memset_splat byte) (dest + len)
      else memset_bytes m dest (ucast byte) (dest + len))"

subsection \<open>Strings\<close>

partial_function (option) strlen_end :: "ram \<Rightarrow> u64 \<Rightarrow> u64 option" where
  "strlen_end m p = (if ld8 m p \<noteq> 0 then strlen_end m (p + 1) else Some p)"

definition strlen :: "ram \<Rightarrow> u64 \<Rightarrow> u64 option" where
  "strlen m s = do { p \<leftarrow> strlen_end m s; Some (p - s) }"

partial_function (option) strcmp :: "ram \<Rightarrow> u64 \<Rightarrow> u64 \<Rightarrow> u32 option" where
  "strcmp m s1 s2 =
     (let c1 = ld8 m s1; c2 = ld8 m s2
      in if c1 \<noteq> 0 \<and> c1 = c2 then strcmp m (s1 + 1) (s2 + 1) else Some (ucast c1 - ucast c2))"

partial_function (option) strcpy :: "ram \<Rightarrow> u64 \<Rightarrow> u64 \<Rightarrow> ram option" where
  "strcpy m d s =
     (let c = ld8 m s; m' = st8 m d c
      in if c \<noteq> 0 then strcpy m' (d + 1) (s + 1) else Some m')"

partial_function (option) atol_spaces :: "ram \<Rightarrow> u64 \<Rightarrow> u64 option" where
  "atol_spaces m str = (if ld8 m str = 32 then atol_spaces m (str + 1) else Some str)"

partial_function (option) atol_digits :: "ram \<Rightarrow> u64 \<Rightarrow> u64 \<Rightarrow> u64 option" where
  "atol_digits m str res =
     (if ld8 m str \<noteq> 0 then atol_digits m (str + 1) (res * 10 + (ucast (ld8 m str) - 48))
      else Some res)"

definition atol :: "ram \<Rightarrow> u64 \<Rightarrow> u64 option" where
  "atol m str =
     do { str \<leftarrow> atol_spaces m str;
          let signed = (ld8 m str = 45 \<or> ld8 m str = 43);
          let sign = (ld8 m str = 45);
          res \<leftarrow> atol_digits m (if signed then str + 1 else str) 0;
          Some (if sign then - res else res) }"

section \<open>Strings in memory\<close>

text \<open>The bytes \<open>bs\<close>, none of them zero, stand at \<open>a\<close> and a zero byte follows them.\<close>

primrec cstr :: "ram \<Rightarrow> u64 \<Rightarrow> u8 list \<Rightarrow> bool" where
  "cstr m a [] = (ld8 m a = 0)"
| "cstr m a (b # bs) = (b \<noteq> 0 \<and> ld8 m a = b \<and> cstr m (a + 1) bs)"

lemma cstr_unique: "cstr m a bs \<Longrightarrow> cstr m a cs \<Longrightarrow> bs = cs"
proof (induction bs arbitrary: a cs)
  case Nil
  then show ?case by (cases cs) auto
next
  case (Cons b bs)
  then show ?case by (cases cs) auto
qed

lemma cstr_get_bytes: "cstr m a bs \<Longrightarrow> get_bytes ld8 m a (length bs) = bs"
  by (induction bs arbitrary: a) auto

lemma cstr_nonzero: "cstr m a bs \<Longrightarrow> 0 \<notin> set bs"
  by (induction bs arbitrary: a) auto

lemma cstr_cong:
  "(\<And>i. i \<le> length bs \<Longrightarrow> ld8 m' (a + of_nat i) = ld8 m (a + of_nat i)) \<Longrightarrow>
     cstr m' a bs \<longleftrightarrow> cstr m a bs"
proof (induction bs arbitrary: a)
  case Nil
  from Nil [of 0] show ?case by simp
next
  case (Cons b bs)
  have "ld8 m' (a + 1 + of_nat i) = ld8 m (a + 1 + of_nat i)" if "i \<le> length bs" for i
    using Cons.prems [of "Suc i"] that by (simp add: add.assoc)
  with Cons.IH Cons.prems [of 0] show ?case by simp
qed

lemma cstr_put_bytes:
  assumes "0 \<notin> set bs" "length bs < 2 ^ 64"
  shows "cstr (put_bytes st8 m a (bs @ [0])) a bs"
proof -
  have "cstr m' a cs"
    if "\<And>i. i \<le> length cs \<Longrightarrow> ld8 m' (a + of_nat i) = (cs @ [0]) ! i" "0 \<notin> set cs" for m' a cs
    using that
  proof (induction cs arbitrary: a)
    case Nil
    from Nil(1) [of 0] show ?case by simp
  next
    case (Cons c cs)
    have "ld8 m' (a + 1 + of_nat i) = (cs @ [0]) ! i" if "i \<le> length cs" for i
      using Cons.prems(1) [of "Suc i"] that by (simp add: add.assoc)
    with Cons.IH Cons.prems(1) [of 0] Cons.prems(2) show ?case by auto
  qed
  then show ?thesis using assms by (auto simp: ram_store.rd_put_inside)
qed

section \<open>What the routines compute\<close>

lemma strlen_end_cstr: "cstr m a bs \<Longrightarrow> strlen_end m a = Some (a + of_nat (length bs))"
proof (induction bs arbitrary: a)
  case Nil
  then show ?case by (subst strlen_end.simps) simp
next
  case (Cons b bs)
  then show ?case by (subst strlen_end.simps) (simp add: add.assoc)
qed

lemma strlen_cstr: "cstr m a bs \<Longrightarrow> strlen m a = Some (of_nat (length bs))"
  by (simp add: strlen_def strlen_end_cstr)

text \<open>The value of \<open>strcmp\<close> on the strings it finds: the first differing bytes, or 0.\<close>

fun strcmp_val :: "u8 list \<Rightarrow> u8 list \<Rightarrow> u32" where
  "strcmp_val [] [] = 0"
| "strcmp_val [] (c # cs) = - ucast c"
| "strcmp_val (b # bs) [] = ucast b"
| "strcmp_val (b # bs) (c # cs) = (if b = c then strcmp_val bs cs else ucast b - ucast c)"

lemma strcmp_cstr: "cstr m a bs \<Longrightarrow> cstr m b cs \<Longrightarrow> strcmp m a b = Some (strcmp_val bs cs)"
proof (induction bs cs arbitrary: a b rule: strcmp_val.induct)
  case 1
  then show ?case by (subst strcmp.simps) simp
next
  case (2 c cs)
  then show ?case by (subst strcmp.simps) (simp add: Let_def)
next
  case (3 b bs)
  then show ?case by (subst strcmp.simps) (simp add: Let_def)
next
  case (4 b bs c cs)
  then show ?case by (subst strcmp.simps) (auto simp: Let_def)
qed

subsection \<open>The copies\<close>

lemma st64_ld64: "st64 m d (ld64 m' s) = put_bytes st8 m d (get_bytes ld8 m' s 8)"
  by (simp add: st64_def ld64_def bytes_simps)

lemma memcpy_bytes_run:
  "unat d + n = unat e \<Longrightarrow> apart d n s n \<Longrightarrow>
     memcpy_bytes m d s e = put_bytes st8 m d (get_bytes ld8 m s n)"
proof (induction n arbitrary: m d s)
  case 0
  then show ?case by (subst memcpy_bytes.simps) (simp add: word_less_nat_alt)
next
  case (Suc n)
  let ?m = "st8 m d (ld8 m s)"
  have less: "d < e" using Suc.prems by (simp add: word_less_nat_alt)
  have ap: "apart (d + of_nat 1) n (s + of_nat 1) n"
    by (rule apart_offset [OF Suc.prems(2)]) auto
  have "apart (d + of_nat 0) (length [ld8 m s]) (s + of_nat 1) n"
    by (rule apart_offset [OF Suc.prems(2)]) auto
  from ram_store.get_put_apart [OF this, of m]
  have "get_bytes ld8 ?m (s + 1) n = get_bytes ld8 m (s + 1) n" by simp
  moreover have "memcpy_bytes ?m (d + 1) (s + 1) e
      = put_bytes st8 ?m (d + 1) (get_bytes ld8 ?m (s + 1) n)"
    using ap Suc.prems(1) less by (intro Suc.IH) (auto simp: unat_Suc_less)
  ultimately show ?case using less by (subst memcpy_bytes.simps) simp
qed

lemma memcpy_words_run:
  "unat e \<le> unat d + 8 * n \<Longrightarrow> (n > 0 \<Longrightarrow> unat d + 8 * n < unat e + 8) \<Longrightarrow>
   unat d + 8 * n < 2 ^ 64 \<Longrightarrow> apart d (8 * n) s (8 * n) \<Longrightarrow>
     memcpy_words m d s e =
       Some (put_bytes st8 m d (get_bytes ld8 m s (8 * n)), d + 8 * of_nat n, s + 8 * of_nat n)"
proof (induction n arbitrary: m d s)
  case 0
  then show ?case by (subst memcpy_words.simps) (simp add: word_less_nat_alt)
next
  case (Suc n)
  let ?m = "st64 m d (ld64 m s)"
  have less: "d < e" using Suc.prems by (simp add: word_less_nat_alt)
  have d8: "unat (d + 8) = unat d + 8" using Suc.prems by (subst unat_add_no_wrap) auto
  have "apart (d + of_nat 8) (8 * n) (s + of_nat 8) (8 * n)"
    by (rule apart_offset [OF Suc.prems(4)]) auto
  then have run: "memcpy_words ?m (d + 8) (s + 8) e =
      Some (put_bytes st8 ?m (d + 8) (get_bytes ld8 ?m (s + 8) (8 * n)),
            d + 8 + 8 * of_nat n, s + 8 + 8 * of_nat n)"
    using Suc.prems d8 by (intro Suc.IH) auto
  have "apart (d + of_nat 0) (length (get_bytes ld8 m s 8)) (s + of_nat 8) (8 * n)"
    by (rule apart_offset [OF Suc.prems(4)]) auto
  from ram_store.get_put_apart [OF this, of m]
  have tail: "get_bytes ld8 ?m (s + 8) (8 * n) = get_bytes ld8 m (s + 8) (8 * n)"
    by (simp add: st64_ld64)
  have "get_bytes ld8 m s (8 * Suc n) = get_bytes ld8 m s 8 @ get_bytes ld8 m (s + 8) (8 * n)"
    using get_bytes_append [of ld8 m s 8 "8 * n"] by simp
  then have "put_bytes st8 m d (get_bytes ld8 m s (8 * Suc n))
      = put_bytes st8 ?m (d + 8) (get_bytes ld8 m (s + 8) (8 * n))"
    using put_bytes_append [of st8 m d "get_bytes ld8 m s 8"] by (simp add: st64_ld64)
  with less run tail show ?case by (subst memcpy_words.simps) (simp add: algebra_simps)
qed

theorem memcpy_copies:
  assumes "dest \<noteq> 0" "unat dest + unat len < 2 ^ 64" "apart dest (unat len) src (unat len)"
  shows "memcpy m dest src len = Some (put_bytes st8 m dest (get_bytes ld8 m src (unat len)))"
proof (cases "(dest OR src) AND 7 = 0")
  case False
  have "unat (dest + len) = unat dest + unat len" using assms by (simp add: unat_add_no_wrap)
  with False assms show ?thesis by (simp add: memcpy_def memcpy_bytes_run)
next
  case True
  let ?n = "unat len div 8" and ?k = "unat len mod 8"
  have al: "8 dvd unat dest" using True or_and_7_eq_0 and_7_eq_0_iff by metis
  have "unat dest \<noteq> 0" using assms(1) by (simp add: unat_eq_zero)
  with al have ge: "8 \<le> unat dest" by (metis dvd_imp_le neq0_conv)
  have end_len: "unat (dest + len) = unat dest + unat len" using assms by (simp add: unat_add_no_wrap)
  have end_words: "unat (dest + len - 7) = unat dest + unat len - 7"
    using ge end_len by (subst unat_sub) (auto simp: word_le_nat_alt)
  have split: "unat len = 8 * ?n + ?k" by simp
  have wrd: "memcpy_words m dest src (dest + len - 7) =
      Some (put_bytes st8 m dest (get_bytes ld8 m src (8 * ?n)), dest + 8 * of_nat ?n, src + 8 * of_nat ?n)"
  proof (rule memcpy_words_run)
    show "apart dest (8 * ?n) src (8 * ?n)"
      by (rule apart_mono [OF assms(3)]) auto
  qed (use end_words ge assms in auto)
  have d_end: "unat (dest + 8 * of_nat ?n) = unat dest + 8 * ?n"
  proof -
    have "8 * ?n < 2 ^ 64" using unat_u64_less [of len] by linarith
    then have "unat (of_nat (8 * ?n) :: u64) = 8 * ?n" by (rule unat_of_nat_u64)
    then have "unat (8 * of_nat ?n :: u64) = 8 * ?n" by simp
    then show ?thesis using assms by (subst unat_add_no_wrap) auto
  qed
  have ap: "apart (dest + of_nat (8 * ?n)) ?k (src + of_nat (8 * ?n)) ?k"
    by (rule apart_offset [OF assms(3)]) auto
  have "apart (dest + of_nat 0) (length (get_bytes ld8 m src (8 * ?n))) (src + of_nat (8 * ?n)) ?k"
    by (rule apart_offset [OF assms(3)]) auto
  from ram_store.get_put_apart [OF this, of m]
  have tail: "get_bytes ld8 (put_bytes st8 m dest (get_bytes ld8 m src (8 * ?n))) (src + 8 * of_nat ?n) ?k
      = get_bytes ld8 m (src + 8 * of_nat ?n) ?k" by simp
  have bytes: "memcpy_bytes m' (dest + 8 * of_nat ?n) (src + 8 * of_nat ?n) (dest + len)
      = put_bytes st8 m' (dest + 8 * of_nat ?n) (get_bytes ld8 m' (src + 8 * of_nat ?n) ?k)" for m'
    using d_end end_len ap split by (intro memcpy_bytes_run) simp_all
  have "memcpy m dest src len = Some (put_bytes st8 (put_bytes st8 m dest (get_bytes ld8 m src (8 * ?n)))
      (dest + 8 * of_nat ?n) (get_bytes ld8 m (src + 8 * of_nat ?n) ?k))"
    using True wrd bytes tail by (simp add: memcpy_def)
  also have "\<dots> = Some (put_bytes st8 m dest (get_bytes ld8 m src (unat len)))"
    using get_bytes_append [of ld8 m src "8 * ?n" ?k]
      put_bytes_append [of st8 m dest "get_bytes ld8 m src (8 * ?n)"] by simp
  finally show ?thesis .
qed

text \<open>The word that \<^verbatim>\<open>memset\<close> stores is the byte eight times over.\<close>

lemma splat_step:
  fixes w :: u64 and b :: u32
  assumes "\<And>k. bit w k \<longleftrightarrow> k < n \<and> bit b (k mod 8)" "8 dvd n" "2 * n \<le> 64"
  shows "bit (w OR push_bit n w) k \<longleftrightarrow> k < 2 * n \<and> bit b (k mod 8)"
proof -
  have "(k - n) mod 8 = k mod 8" if "n \<le> k"
  proof -
    from that obtain j where "k = n + j" using le_Suc_ex by blast
    moreover from assms(2) obtain c where "n = 8 * c" ..
    ultimately show ?thesis by simp
  qed
  then show ?thesis
    using assms(3) by (cases "n \<le> k") (auto simp: bit_or_iff bit_push_bit_iff assms(1))
qed

lemma bit_splat: "bit (memset_splat b) k \<longleftrightarrow> k < 64 \<and> bit b (k mod 8)"
proof -
  define w0 where "w0 = (ucast (b AND 0xFF) :: u64)"
  define w1 where "w1 = w0 OR push_bit 8 w0"
  define w2 where "w2 = w1 OR push_bit 16 w1"
  have "b AND 0xFF = take_bit 8 b" by (simp add: take_bit_eq_mask mask_eq_exp_minus_1)
  then have "bit w0 k \<longleftrightarrow> k < 8 \<and> bit b (k mod 8)" for k
    by (auto simp: w0_def bit_simps)
  then have "bit w1 k \<longleftrightarrow> k < 2 * 8 \<and> bit b (k mod 8)" for k
    unfolding w1_def by (rule splat_step) auto
  then have "bit w1 k \<longleftrightarrow> k < 16 \<and> bit b (k mod 8)" for k by simp
  then have "bit w2 k \<longleftrightarrow> k < 2 * 16 \<and> bit b (k mod 8)" for k
    unfolding w2_def by (rule splat_step) auto
  then have "bit w2 k \<longleftrightarrow> k < 32 \<and> bit b (k mod 8)" for k by simp
  then have "bit (w2 OR push_bit 32 w2) k \<longleftrightarrow> k < 2 * 32 \<and> bit b (k mod 8)"
    by (rule splat_step) auto
  moreover have "memset_splat b = w2 OR push_bit 32 w2"
    by (simp add: memset_splat_def Let_def w0_def w1_def w2_def)
  ultimately show ?thesis by simp
qed

lemma le_bytes_splat: "le_bytes 8 (memset_splat b) = replicate 8 (ucast b)"
proof (rule nth_equalityI)
  fix i assume "i < length (le_bytes 8 (memset_splat b))"
  then have i: "i < 8" by simp
  show "le_bytes 8 (memset_splat b) ! i = replicate 8 (ucast b) ! i"
  proof (rule bit_word_eqI)
    fix k assume k: "k < LENGTH(8)"
    then have "k + 8 * i < 64" "(k + 8 * i) mod 8 = k" using i by auto
    then show "bit (le_bytes 8 (memset_splat b) ! i) k = bit (replicate 8 (ucast b :: u8) ! i) k"
      using i k by (simp add: le_bytes_def bit_simps bit_splat add.commute)
  qed
qed simp

lemma memset_words_run:
  "unat d + 8 * n = unat e \<Longrightarrow>
     memset_words m d (memset_splat b) e = Some (put_bytes st8 m d (replicate (8 * n) (ucast b)))"
proof (induction n arbitrary: m d)
  case 0
  then show ?case by (subst memset_words.simps) (simp add: word_less_nat_alt)
next
  case (Suc n)
  have "unat d + 8 < 2 ^ 64" using Suc.prems unat_u64_less [of e] by simp
  then have "unat (d + 8) = unat d + 8" by (subst unat_add_no_wrap) auto
  then have "memset_words m' (d + 8) (memset_splat b) e =
      Some (put_bytes st8 m' (d + 8) (replicate (8 * n) (ucast b)))" for m'
    using Suc.prems by (intro Suc.IH) simp
  moreover have "d < e" using Suc.prems by (simp add: word_less_nat_alt)
  moreover have "replicate (8 * Suc n) (ucast b :: u8) = replicate 8 (ucast b) @ replicate (8 * n) (ucast b)"
    by (simp add: replicate_add [symmetric])
  ultimately show ?case
    by (subst memset_words.simps) (simp add: st64_def le_bytes_splat put_bytes_append)
qed

lemma memset_bytes_run:
  "unat d + n = unat e \<Longrightarrow> memset_bytes m d b e = Some (put_bytes st8 m d (replicate n b))"
proof (induction n arbitrary: m d)
  case 0
  then show ?case by (subst memset_bytes.simps) (simp add: word_less_nat_alt)
next
  case (Suc n)
  then have less: "d < e" by (simp add: word_less_nat_alt)
  with Suc show ?case by (subst memset_bytes.simps) (simp add: unat_Suc_less)
qed

lemma memset_fills_runs:
  assumes "unat dest + unat len < 2 ^ 64"
  shows "memset m dest b len = Some (put_bytes st8 m dest (replicate (unat len) (ucast b)))"
proof (cases "(dest OR len) AND 7 = 0")
  case True
  then obtain n where n: "unat len = 8 * n"
    by (metis or_and_7_eq_0 and_7_eq_0_iff dvd_def)
  have "memset_words m dest (memset_splat b) (dest + len) = Some (put_bytes st8 m dest (replicate (8 * n) (ucast b)))"
    using assms n by (intro memset_words_run) (simp add: unat_add_no_wrap)
  with True n show ?thesis by (simp add: memset_def)
next
  case False
  then show ?thesis using assms by (simp add: memset_def memset_bytes_run unat_add_no_wrap)
qed

theorem memset_fills:
  assumes "unat dest + unat len < 2 ^ 64"
  shows "memset m dest b len = Some (put_bytes st8 m dest (replicate (unat len) (ucast b)))"
  using assms by (rule memset_fills_runs)

subsection \<open>Comparing, copying and parsing strings\<close>

lemma strcmp_val_eq_0: "0 \<notin> set bs \<Longrightarrow> 0 \<notin> set cs \<Longrightarrow> strcmp_val bs cs = 0 \<longleftrightarrow> bs = cs"
proof (induction bs cs rule: strcmp_val.induct)
  case (2 c cs)
  then show ?case using ucast_u8_u32_inject [of c 0] by auto
next
  case (3 b bs)
  then show ?case using ucast_u8_u32_inject [of b 0] by auto
qed auto

theorem strcmp_zero_iff:
  assumes "cstr m a bs" "cstr m b cs"
  shows "strcmp m a b = Some 0 \<longleftrightarrow> bs = cs"
  using assms by (simp add: strcmp_cstr strcmp_val_eq_0 cstr_nonzero)

theorem strcpy_copies:
  assumes "cstr m s bs" "apart d (Suc (length bs)) s (Suc (length bs))"
  shows "strcpy m d s = Some (put_bytes st8 m d (bs @ [0]))"
  using assms
proof (induction bs arbitrary: m d s)
  case Nil
  then show ?case by (subst strcpy.simps) (simp add: Let_def)
next
  case (Cons b bs)
  let ?m = "st8 m d b"
  have ap: "apart (d + of_nat 1) (Suc (length bs)) (s + of_nat 1) (Suc (length bs))"
    by (rule apart_offset [OF Cons.prems(2)]) auto
  have "ld8 ?m (s + 1 + of_nat i) = ld8 m (s + 1 + of_nat i)" if "i \<le> length bs" for i
  proof (rule ram_store.rd_wr_other)
    have "d + of_nat 0 \<noteq> s + of_nat (Suc i)"
      using Cons.prems(2) that unfolding apart_def by (metis Suc_le_mono le_imp_less_Suc length_Cons zero_less_Suc)
    then show "s + 1 + of_nat i \<noteq> d" by (simp add: add.assoc)
  qed
  then have "cstr ?m (s + 1) bs \<longleftrightarrow> cstr m (s + 1) bs" by (rule cstr_cong)
  then have "strcpy ?m (d + 1) (s + 1) = Some (put_bytes st8 ?m (d + 1) (bs @ [0]))"
    using Cons.prems(1) ap by (intro Cons.IH) auto
  then show ?case using Cons.prems(1) by (subst strcpy.simps) (simp add: Let_def)
qed

text \<open>The number a digit string denotes, in 64-bit arithmetic.\<close>

definition digits_val :: "u8 list \<Rightarrow> u64 \<Rightarrow> u64" where
  "digits_val bs res = foldl (\<lambda>r b. r * 10 + (ucast b - 48)) res bs"

lemma atol_spaces_run: "cstr m a (replicate n 32 @ bs) \<Longrightarrow> bs = [] \<or> hd bs \<noteq> 32 \<Longrightarrow>
    atol_spaces m a = Some (a + of_nat n) \<and> cstr m (a + of_nat n) bs"
proof (induction n arbitrary: a)
  case 0
  then show ?case by (cases bs) (auto simp: atol_spaces.simps [of m a])
next
  case (Suc n)
  with Suc.IH [of "a + 1"] show ?case by (auto simp: atol_spaces.simps [of m a] add.assoc)
qed

lemma atol_digits_run: "cstr m a bs \<Longrightarrow> atol_digits m a res = Some (digits_val bs res)"
proof (induction bs arbitrary: a res)
  case Nil
  then show ?case by (simp add: atol_digits.simps [of m a] digits_val_def)
next
  case (Cons b bs)
  then show ?case by (simp add: atol_digits.simps [of m a] digits_val_def)
qed

theorem atol_parses:
  assumes "cstr m a (replicate n 32 @ sign @ ds)" "sign \<in> {[], [45], [43]}"
    and "ds = [] \<or> hd ds \<notin> {32, 43, 45}"
  shows "atol m a = Some (if sign = [45] then - digits_val ds 0 else digits_val ds 0)"
proof -
  have "sign @ ds = [] \<or> hd (sign @ ds) \<noteq> 32" using assms(2,3) by auto
  with assms(1) have sp: "atol_spaces m a = Some (a + of_nat n)" "cstr m (a + of_nat n) (sign @ ds)"
    using atol_spaces_run by blast+
  show ?thesis
  proof (cases "sign = []")
    case True
    then have "ld8 m (a + of_nat n) \<notin> {45, 43}"
      using sp(2) assms(3) by (cases ds) auto
    with True sp show ?thesis by (simp add: atol_def atol_digits_run)
  next
    case False
    with sp assms(2) show ?thesis by (auto simp: atol_def atol_digits_run)
  qed
qed

end
