(* ===== verification/Machine.thy ===== *)
theory Machine
  imports CString
begin

text \<open>
  The machine the drivers and trap handlers run on. Device registers sit behind a bus: what a
  device answers and how it reacts to a write is hardware, so the bus is a parameter of every
  definition that touches a device (\<open>'d bus\<close>, over an arbitrary device state \<open>'d\<close>). Every
  volatile access is also recorded in \<open>trace\<close>, oldest first, which no operation reads: it is
  what the properties about the order of device accesses talk about.

  RAM and devices are disjoint: the code reaches devices only through volatile pointers and
  ordinary objects only through ordinary ones. A loop of accesses that waits for a device may
  not end; its result is then \<open>None\<close>.
\<close>

section \<open>State\<close>

text \<open>A volatile access: its width in bytes, the address and the value.\<close>

datatype io = MRead nat u64 u64 | MWrite nat u64 u64

record 'd bus =
  bus_rd :: "nat \<Rightarrow> u64 \<Rightarrow> 'd \<Rightarrow> u64 \<times> 'd"
  bus_wr :: "nat \<Rightarrow> u64 \<Rightarrow> u64 \<Rightarrow> 'd \<Rightarrow> 'd"

text \<open>The control and status registers that the modelled code names.\<close>

datatype csr = MSTATUS | MCAUSE | MEPC | MBADADDR | MIP | MIE | MSCRATCH | MIDELEG | MEDELEG
  | SCOUNTEREN | MCOUNTEREN | SATP | STVEC | SEPC | SCAUSE | SBADADDR | SSTATUS | SIE | SSCRATCH | SIP
  | MCYCLE | MINSTRET | MHPMCOUNTER3 | MHPMCOUNTER4 | MHPMEVENT3 | MHPMEVENT4 | MISA | MHARTID
  | PMPADDR0 | PMPADDR1 | PMPADDR2 | PMPADDR3 | PMPCFG0 | PMPCFG2 | MTVEC | FCSR | TIME

text \<open>
  The hart-local storage of \<^verbatim>\<open>mtrap.h\<close>: the device pointers are addresses.
\<close>

record hls =
  ipi :: u64
  mipi_pending :: u32
  timecmp :: u64
  plic_m_thresh :: u64
  plic_m_ie :: u64
  plic_s_thresh :: u64
  plic_s_ie :: u64

definition MAX_HARTS :: nat where
  "MAX_HARTS = 1"

text \<open>
  The variables of the proxy kernel (\<^verbatim>\<open>src/pk/pk\<close>): the fields of \<^verbatim>\<open>current\<close> that the
  memory management uses, the tables of \<^verbatim>\<open>mmap.c\<close> and those of \<^verbatim>\<open>file.c\<close>. A
  \<^verbatim>\<open>file_t*\<close> is an index into \<^verbatim>\<open>files\<close>, \<^verbatim>\<open>NULL\<close> is \<open>None\<close>. \<open>vmrs\<close> is the pointer, \<open>vmr_table\<close> what
  it points to; \<open>magic_mem\<close> is the address of the buffer shared with the host.
\<close>

record file_t =
  kfd :: u32
  refcnt :: u32

record vmr_t =
  vmr_addr :: u64
  vmr_length :: u64
  vmr_file :: "nat option"
  vmr_offset :: u64
  vmr_refcnt :: u32
  vmr_prot :: u32

record pk_vars =
  brk :: u64
  brk_min :: u64
  brk_max :: u64
  stack_top :: u64
  vm_lock :: u32
  vmrs :: u64
  vmr_table :: "vmr_t list"
  first_free_paddr :: u64
  first_free_page :: u64
  next_free_page :: u64
  free_pages :: u64
  demand_paging :: u32
  root_page_table :: u64
  fds :: "nat option list"
  files :: "file_t list"
  magic_mem :: u64
  phent :: u32
  phnum :: u32
  phdr :: u64
  phdr_size :: u64
  entry_point :: u64
  time0 :: u64
  cycle0 :: u64
  instret0 :: u64

text \<open>
  The global state: memory, devices, the registers of the hart, the device pointers the
  \<^verbatim>\<open>query_\<close> functions fill in (0 is \<^verbatim>\<open>NULL\<close>), \<^verbatim>\<open>current.mmap_max\<close>, the
  hart-local storage by hart number and what the device tree says about the platform.
  \<open>tohost\<close> and \<open>fromhost\<close> are the addresses of the two words shared with the host,
  \<open>printm_buf\<close> that of the local buffer of \<^verbatim>\<open>vprintm\<close>, \<open>fregs\<close> the floating-point registers,
  \<open>tp\<close> the register that holds the rounding mode and the flags while floating point is emulated,
  \<open>bbl_entry\<close> the entry point that the boot loader publishes. \<open>nops\<close> counts the instructions spent in delay loops.
\<close>

record 'd world =
  ram :: ram
  dev :: 'd
  trace :: "io list"
  nops :: nat
  csrs :: "csr \<Rightarrow> u64"
  aes0 :: u64
  aes1 :: u64
  aes2 :: u64
  aes3 :: u64
  sha256 :: u64
  sha2562 :: u64
  hmac :: u64
  pkt :: u64
  dma :: u64
  reglk :: u64
  rng :: u64
  rsa :: u64
  rst :: u64
  finisher :: u64
  uart :: u64
  uart16550 :: u64
  uart16550_reg_shift :: u32
  uart16550_clock :: u32
  htif :: u64
  htif_console_buf :: u32
  tohost :: u64
  fromhost :: u64
  printm_buf :: u64
  mmap_max :: u64
  hls_of :: "nat \<Rightarrow> hls"
  hart_mask :: u64
  disabled_hart_mask :: u64
  hart_phandles :: "u32 list"
  mem_size :: u64
  mtime :: u64
  plic_priorities :: u64
  plic_ndevs :: u64
  kernel_start :: u64
  kernel_end :: u64
  fregs :: "nat \<Rightarrow> u64"
  tp :: u32
  bbl_entry :: u64
  pkv :: pk_vars

definition read_csr :: "csr \<Rightarrow> 'd world \<Rightarrow> u64" where
  "read_csr r s = csrs s r"

definition write_csr :: "csr \<Rightarrow> u64 \<Rightarrow> 'd world \<Rightarrow> 'd world" where
  "write_csr r v s = s\<lparr>csrs := (csrs s)(r := v)\<rparr>"

text \<open>\<^verbatim>\<open>set_csr\<close> and \<^verbatim>\<open>clear_csr\<close> are the atomic read-and-modify instructions; their value is the old one.\<close>

definition set_csr :: "csr \<Rightarrow> u64 \<Rightarrow> 'd world \<Rightarrow> u64 \<times> 'd world" where
  "set_csr r bits s = (read_csr r s, write_csr r (read_csr r s OR bits) s)"

definition clear_csr :: "csr \<Rightarrow> u64 \<Rightarrow> 'd world \<Rightarrow> u64 \<times> 'd world" where
  "clear_csr r bits s = (read_csr r s, write_csr r (read_csr r s AND NOT bits) s)"

text \<open>The length of an instruction, in bytes.\<close>

definition insn_len :: "u64 \<Rightarrow> nat" where
  "insn_len i = (if i AND 3 < 3 then 2 else 4)"

section \<open>Volatile accesses\<close>

definition mmio_rd :: "'d bus \<Rightarrow> nat \<Rightarrow> u64 \<Rightarrow> 'd world \<Rightarrow> u64 \<times> 'd world" where
  "mmio_rd B w a s =
     (let (v, d) = bus_rd B w a (dev s) in (v, s\<lparr>dev := d, trace := trace s @ [MRead w a v]\<rparr>))"

definition mmio_wr :: "'d bus \<Rightarrow> nat \<Rightarrow> u64 \<Rightarrow> u64 \<Rightarrow> 'd world \<Rightarrow> 'd world" where
  "mmio_wr B w a v s = s\<lparr>dev := bus_wr B w a v (dev s), trace := trace s @ [MWrite w a v]\<rparr>"

lemma mmio_rd_world [world_simps]:
  "ram (snd (mmio_rd B w a s)) = ram s" "csrs (snd (mmio_rd B w a s)) = csrs s"
  "mmap_max (snd (mmio_rd B w a s)) = mmap_max s" "nops (snd (mmio_rd B w a s)) = nops s"
  by (simp_all add: mmio_rd_def split: prod.split)

lemma mmio_wr_world [world_simps]:
  "ram (mmio_wr B w a v s) = ram s" "csrs (mmio_wr B w a v s) = csrs s"
  "mmap_max (mmio_wr B w a v s) = mmap_max s" "nops (mmio_wr B w a v s) = nops s"
  by (simp_all add: mmio_wr_def)

lemma trace_mmio_wr [io_simps]: "trace (mmio_wr B w a v s) = trace s @ [MWrite w a v]"
  by (simp add: mmio_wr_def)

lemma trace_mmio_rd [io_simps]:
  "trace (snd (mmio_rd B w a s)) = trace s @ [MRead w a (fst (mmio_rd B w a s))]"
  by (simp add: mmio_rd_def split: prod.split)

section \<open>Ordinary memory of the machine state\<close>

definition wld8 :: "'d world \<Rightarrow> u64 \<Rightarrow> u8" where
  "wld8 s a = ld8 (ram s) a"

definition wst8 :: "'d world \<Rightarrow> u64 \<Rightarrow> u8 \<Rightarrow> 'd world" where
  "wst8 s a v = s\<lparr>ram := st8 (ram s) a v\<rparr>"

definition wst32 :: "'d world \<Rightarrow> u64 \<Rightarrow> u32 \<Rightarrow> 'd world" where
  "wst32 s a v = s\<lparr>ram := st32 (ram s) a v\<rparr>"

definition wst_words :: "'d world \<Rightarrow> u64 \<Rightarrow> u32 list \<Rightarrow> 'd world" where
  "wst_words s a ws = s\<lparr>ram := st_words (ram s) a ws\<rparr>"

interpretation world_store: byte_store wld8 wst8
  by unfold_locales (auto simp: wld8_def wst8_def ram_store.rd_wr_same ram_store.rd_wr_other)

lemma put_bytes_world: "put_bytes wst8 s a bs = s\<lparr>ram := put_bytes st8 (ram s) a bs\<rparr>"
  by (induction bs arbitrary: s a) (auto simp: wst8_def)

lemma get_bytes_world: "get_bytes wld8 s a n = get_bytes ld8 (ram s) a n"
  by (induction n arbitrary: a) (auto simp: wld8_def)

section \<open>Waiting for a device\<close>

text \<open>\<^verbatim>\<open>do_delay\<close> spends its cycles in \<^verbatim>\<open>nop\<close>s; a negative count is no loop at all.\<close>

definition do_delay :: "u32 \<Rightarrow> 'd world \<Rightarrow> 'd world" where
  "do_delay wait_cycles s = s\<lparr>nops := nops s + nat (sint wait_cycles)\<rparr>"

lemma do_delay_world [world_simps]:
  "ram (do_delay n s) = ram s" "dev (do_delay n s) = dev s" "trace (do_delay n s) = trace s"
  "csrs (do_delay n s) = csrs s" "mmap_max (do_delay n s) = mmap_max s"
  by (simp_all add: do_delay_def)

section \<open>What an operation may change\<close>

text \<open>
  The writes of an access history, in order: what a driver sends, whatever it reads in between.
\<close>

fun mwrites :: "io list \<Rightarrow> (u64 \<times> u64) list" where
  "mwrites [] = []"
| "mwrites (MWrite w a v # tr) = (a, v) # mwrites tr"
| "mwrites (MRead w a v # tr) = mwrites tr"

lemma mwrites_append [simp]: "mwrites (tr @ tr') = mwrites tr @ mwrites tr'"
  by (induction tr rule: mwrites.induct) auto

definition sent :: "'d world \<Rightarrow> (u64 \<times> u64) list" where
  "sent s = mwrites (trace s)"

lemma sent_mmio_wr [io_simps]: "sent (mmio_wr B w a v s) = sent s @ [(a, v)]"
  by (simp add: sent_def io_simps)

lemma sent_mmio_rd [io_simps]: "sent (snd (mmio_rd B w a s)) = sent s"
  by (simp add: sent_def io_simps)

lemma sent_ram [io_simps]: "sent (s\<lparr>ram := m\<rparr>) = sent s"
  by (simp add: sent_def)

lemma sent_wst [io_simps]:
  "sent (wst8 s a b) = sent s" "sent (wst32 s a w) = sent s" "sent (wst_words s a ws) = sent s"
  by (simp_all add: wst8_def wst32_def wst_words_def io_simps)

lemma sent_do_delay [io_simps]: "sent (do_delay n s) = sent s"
  by (simp add: do_delay_def sent_def)

text \<open>
  \<open>io_step s s'\<close>: only memory, the devices, the access history and the delay count differ.
  Every driver operation is such a step, so the device pointers, the CSRs and
  \<^verbatim>\<open>current.mmap_max\<close> survive it.
\<close>

definition io_step :: "'d world \<Rightarrow> 'd world \<Rightarrow> bool" where
  "io_step s s' \<longleftrightarrow> s' = s\<lparr>ram := ram s', dev := dev s', trace := trace s', nops := nops s'\<rparr>"

lemma io_step_refl [simp]: "io_step s s"
  by (simp add: io_step_def)

lemma io_step_trans [trans]:
  assumes "io_step s s'" "io_step s' s''"
  shows "io_step s s''"
proof -
  have "s'' = s'\<lparr>ram := ram s'', dev := dev s'', trace := trace s'', nops := nops s''\<rparr>"
    using assms(2) by (simp only: io_step_def)
  also have "\<dots> = s\<lparr>ram := ram s'', dev := dev s'', trace := trace s'', nops := nops s''\<rparr>"
    by (subst assms(1) [unfolded io_step_def]) simp
  finally show ?thesis by (simp only: io_step_def)
qed

lemma io_step_fields:
  assumes "io_step s s'"
  shows "csrs s' = csrs s" "mmap_max s' = mmap_max s"
    "aes0 s' = aes0 s" "aes1 s' = aes1 s" "aes2 s' = aes2 s" "aes3 s' = aes3 s"
    "sha256 s' = sha256 s" "sha2562 s' = sha2562 s" "hmac s' = hmac s" "pkt s' = pkt s"
    "dma s' = dma s" "reglk s' = reglk s" "rng s' = rng s" "rsa s' = rsa s" "rst s' = rst s"
    "finisher s' = finisher s" "uart s' = uart s" "uart16550 s' = uart16550 s"
    "uart16550_reg_shift s' = uart16550_reg_shift s" "uart16550_clock s' = uart16550_clock s"
    "htif s' = htif s" "htif_console_buf s' = htif_console_buf s" "tohost s' = tohost s"
    "fromhost s' = fromhost s" "printm_buf s' = printm_buf s" "hls_of s' = hls_of s"
    "hart_mask s' = hart_mask s" "disabled_hart_mask s' = disabled_hart_mask s"
    "pkv s' = pkv s"
  by (subst assms [unfolded io_step_def], simp)+

lemma io_step_intros [intro, simp]:
  "io_step s (s\<lparr>ram := m\<rparr>)" "io_step s (mmio_wr B w a v s)" "io_step s (snd (mmio_rd B w a s))"
  "io_step s (do_delay n s)" "io_step s (wst8 s a b)" "io_step s (wst32 s a x)"
  "io_step s (wst_words s a ws)"
  by (simp_all add: io_step_def mmio_wr_def mmio_rd_def do_delay_def wst8_def wst32_def wst_words_def
      split: prod.split)

end
