(* ===== verification/DriverCommon.thy ===== *)
theory DriverCommon
  imports Machine "HOL-Library.Signed_Division"
begin

text \<open>
  \<^verbatim>\<open>src/pk/machine/common_driver_fn.c\<close>: the accesses every peripheral driver is written with.
  A register number is an index into an array of 64-bit slots (the base pointer is a
  \<^verbatim>\<open>uint64_t*\<close>), of which the low 32 bits are the register. The production build is modelled
  (\<^verbatim>\<open>TESTING\<close> not defined).
\<close>

section \<open>Register accesses\<close>

definition reg_addr :: "u64 \<Rightarrow> u32 \<Rightarrow> u64" where
  "reg_addr base_addr offset = base_addr + 8 * ucast offset"

definition readFromAddress :: "'d bus \<Rightarrow> u64 \<Rightarrow> u32 \<Rightarrow> 'd world \<Rightarrow> u32 \<times> 'd world" where
  "readFromAddress B base_addr offset s =
     (let (v, s) = mmio_rd B 4 (reg_addr base_addr offset) s in (ucast v, s))"

definition writeToAddress :: "'d bus \<Rightarrow> u64 \<Rightarrow> u32 \<Rightarrow> u32 \<Rightarrow> 'd world \<Rightarrow> 'd world" where
  "writeToAddress B base_addr offset pData s = mmio_wr B 4 (reg_addr base_addr offset) (ucast pData) s"

function readMulti_loop :: "'d bus \<Rightarrow> u64 \<Rightarrow> u64 \<Rightarrow> u32 \<Rightarrow> u32 \<Rightarrow> 'd world \<Rightarrow> 'd world" where
  "readMulti_loop B pAddress pData block_size i s =
     (if i < block_size
      then (let (v, s) = readFromAddress B pAddress i s;
                s = wst32 s (pData + 4 * ucast ((block_size - 1) - i)) v
            in readMulti_loop B pAddress pData block_size (i + 1) s)
      else s)"
  by pat_completeness auto
termination
  by (relation "measure (\<lambda>(B, pAddress, pData, block_size, i, s). unat block_size - unat i)")
     (simp_all add: count_up_decreases)

definition readMultiFromAddress ::
    "'d bus \<Rightarrow> u64 \<Rightarrow> u32 \<Rightarrow> u64 \<Rightarrow> u32 \<Rightarrow> 'd world \<Rightarrow> 'd world" where
  "readMultiFromAddress B base_addr offset pData block_size s =
     readMulti_loop B (reg_addr base_addr offset) pData block_size 0 s"

function writeMulti_loop :: "'d bus \<Rightarrow> u64 \<Rightarrow> u64 \<Rightarrow> u32 \<Rightarrow> u32 \<Rightarrow> 'd world \<Rightarrow> 'd world" where
  "writeMulti_loop B pAddress pData block_size i s =
     (if i < block_size
      then writeMulti_loop B pAddress pData block_size (i + 1)
             (writeToAddress B pAddress ((block_size - 1) - i) (ld32 (ram s) (pData + 4 * ucast i)) s)
      else s)"
  by pat_completeness auto
termination
  by (relation "measure (\<lambda>(B, pAddress, pData, block_size, i, s). unat block_size - unat i)")
     (simp_all add: count_up_decreases)

declare readMulti_loop.simps [simp del] writeMulti_loop.simps [simp del]

definition writeMultiToAddress ::
    "'d bus \<Rightarrow> u64 \<Rightarrow> u32 \<Rightarrow> u64 \<Rightarrow> u32 \<Rightarrow> 'd world \<Rightarrow> 'd world" where
  "writeMultiToAddress B base_addr offset pData block_size s =
     writeMulti_loop B (reg_addr base_addr offset) pData block_size 0 s"

text \<open>
  The byte-wise writer: the loop variable counts down, so the recursion is on the number of
  bytes still to send, \<^verbatim>\<open>i + 1\<close>. A word goes out whenever \<^verbatim>\<open>i\<close> is a multiple of four.
\<close>

primrec writeMultichar_loop ::
    "nat \<Rightarrow> 'd bus \<Rightarrow> u64 \<Rightarrow> u64 \<Rightarrow> u32 \<Rightarrow> u32 \<Rightarrow> u32 \<Rightarrow> 'd world \<Rightarrow> 'd world" where
  "writeMultichar_loop 0 B pAddress pData block_size block_ptr wdata s = s"
| "writeMultichar_loop (Suc i) B pAddress pData block_size block_ptr wdata s =
     (let wdata = push_bit 8 wdata OR (ucast (ld8 (ram s) pData) AND 0xFF);
          (block_ptr, s) =
            (if i mod 4 = 0
             then (block_ptr + 1, writeToAddress B pAddress ((block_size - 1) - block_ptr) wdata s)
             else (block_ptr, s))
      in writeMultichar_loop i B pAddress (pData + 1) block_size block_ptr wdata s)"

definition writeMulticharToAddress ::
    "'d bus \<Rightarrow> u64 \<Rightarrow> u32 \<Rightarrow> u64 \<Rightarrow> u32 \<Rightarrow> 'd world \<Rightarrow> 'd world" where
  "writeMulticharToAddress B base_addr offset pData block_byte_size s =
     writeMultichar_loop (nat (sint block_byte_size)) B (reg_addr base_addr offset) pData
       (word_of_int (sint block_byte_size sdiv 4)) 0 0 s"

text \<open>Comparing two arrays; the first test of either pointer is the overflow check of the code.\<close>

primrec verify_loop :: "nat \<Rightarrow> ram \<Rightarrow> u64 \<Rightarrow> u64 \<Rightarrow> u32" where
  "verify_loop 0 m expectedData receivedData = 1"
| "verify_loop (Suc k) m expectedData receivedData =
     (if ld32 m expectedData \<noteq> ld32 m receivedData then 0
      else verify_loop k m (expectedData + 4) (receivedData + 4))"

definition verifyMulti :: "ram \<Rightarrow> u64 \<Rightarrow> u64 \<Rightarrow> u32 \<Rightarrow> u32" where
  "verifyMulti m expectedData receivedData block_size =
     (if expectedData + 4 * scast block_size < expectedData then 0
      else if receivedData + 4 * scast block_size < receivedData then 0
      else verify_loop (nat (sint block_size)) m expectedData receivedData)"

section \<open>Waiting\<close>

text \<open>\<^verbatim>\<open>while (readFromAddress(base, off) == 0) do_delay(delay);\<close>\<close>

partial_function (option) wait_nonzero ::
    "'d bus \<Rightarrow> u64 \<Rightarrow> u32 \<Rightarrow> u32 \<Rightarrow> 'd world \<Rightarrow> 'd world option" where
  "wait_nonzero B base off delay s =
     (let (v, s) = readFromAddress B base off s
      in if v = 0 then wait_nonzero B base off delay (do_delay delay s) else Some s)"

text \<open>The device answers such a wait when some read of the register is not zero.\<close>

inductive answers :: "'d bus \<Rightarrow> u64 \<Rightarrow> u32 \<Rightarrow> u32 \<Rightarrow> 'd world \<Rightarrow> bool" where
  now: "fst (readFromAddress B base off s) \<noteq> 0 \<Longrightarrow> answers B base off delay s"
| later: "fst (readFromAddress B base off s) = 0 \<Longrightarrow>
     answers B base off delay (do_delay delay (snd (readFromAddress B base off s))) \<Longrightarrow>
     answers B base off delay s"

inductive_cases answersE: "answers B base off delay s"

lemma wait_nonzero_Some: "answers B base off delay s \<Longrightarrow> \<exists>s'. wait_nonzero B base off delay s = Some s'"
proof (induction rule: answers.induct)
  case (now B base off s delay)
  then show ?case by (subst wait_nonzero.simps) (auto split: prod.splits)
next
  case (later B base off s delay)
  then show ?case by (subst wait_nonzero.simps) (auto split: prod.splits)
qed

lemma wait_nonzero_answers:
  assumes "wait_nonzero B base off delay s = Some s'"
  shows "answers B base off delay s"
  using assms
proof (rule wait_nonzero.raw_induct [where P = "\<lambda>B base off delay s s'. answers B base off delay s", rotated])
  fix f and B :: "'a bus" and base off delay s s'
  assume IH: "\<And>B base off delay s s'. f B base off delay s = Some s' \<Longrightarrow> answers B base off delay s"
    and eq: "(let (v, s) = readFromAddress B base off s
      in if v = 0 then f B base off delay (do_delay delay s) else Some s) = Some s'"
  show "answers B base off delay s"
  proof (cases "fst (readFromAddress B base off s) = 0")
    case True
    then show ?thesis using eq by (auto simp: split_beta intro: answers.later IH)
  next
    case False
    then show ?thesis by (rule answers.now)
  qed
qed


section \<open>What the accesses do\<close>

lemma readFromAddress_world [world_simps]:
  "ram (snd (readFromAddress B base off s)) = ram s"
  by (simp add: readFromAddress_def split_beta world_simps)

lemma writeToAddress_world [world_simps]:
  "ram (writeToAddress B base off v s) = ram s"
  by (simp add: writeToAddress_def world_simps)

lemma sent_readFromAddress [io_simps]: "sent (snd (readFromAddress B base off s)) = sent s"
  by (simp add: readFromAddress_def split_beta io_simps)

lemma sent_writeToAddress [io_simps]:
  "sent (writeToAddress B base off v s) = sent s @ [(reg_addr base off, ucast v)]"
  by (simp add: writeToAddress_def io_simps)

lemma io_step_access [intro, simp]:
  "io_step s (snd (readFromAddress B base off s))" "io_step s (writeToAddress B base off v s)"
  by (simp_all add: readFromAddress_def writeToAddress_def split_beta)

text \<open>A wait sends nothing and ends with a read that was not zero.\<close>

lemma wait_nonzero_io:
  "wait_nonzero B base off delay s = Some s' \<Longrightarrow>
     io_step s s' \<and> ram s' = ram s \<and> sent s' = sent s \<and>
     (\<exists>s0. io_step s s0 \<and> ram s0 = ram s \<and> fst (readFromAddress B base off s0) \<noteq> 0 \<and>
       s' = snd (readFromAddress B base off s0))"
  (is "_ \<Longrightarrow> ?P B base off delay s s'")
proof (rule wait_nonzero.raw_induct [where P = ?P, rotated])
  fix f and B :: "'a bus" and base off delay s s'
  assume IH: "\<And>B base off delay s s'. f B base off delay s = Some s' \<Longrightarrow> ?P B base off delay s s'"
    and eq: "(let (v, s) = readFromAddress B base off s
      in if v = 0 then f B base off delay (do_delay delay s) else Some s) = Some s'"
  let ?r = "readFromAddress B base off s"
  show "?P B base off delay s s'"
  proof (cases "fst ?r = 0")
    case True
    then have "f B base off delay (do_delay delay (snd ?r)) = Some s'" using eq by (simp add: split_beta)
    note IH [OF this]
    moreover have "io_step s (do_delay delay (snd ?r))"
      by (rule io_step_trans [OF io_step_access(1) io_step_intros(4)])
    ultimately show ?thesis
      using io_step_trans [of s "do_delay delay (snd ?r)"] by (simp add: world_simps io_simps) blast
  next
    case False
    then have "s' = snd ?r" using eq by (simp add: split_beta)
    then show ?thesis using False by (auto simp: world_simps io_simps)
  qed
qed

text \<open>
  The writes of a block: the first word goes to the highest register of the block, the last
  one to register 0.
\<close>

primrec block_writes :: "u64 \<Rightarrow> u32 list \<Rightarrow> (u64 \<times> u64) list" where
  "block_writes a [] = []"
| "block_writes a (w # ws) = (a + 8 * of_nat (length ws), ucast w) # block_writes a ws"

lemma ucast_u32_of_nat: "(ucast (w :: u32) :: u64) = of_nat (unat w)"
  by simp

lemma unat_count_down:
  assumes "(i :: u32) < n"
  shows "unat ((n - 1) - i) = unat n - Suc (unat i)"
proof -
  have "i \<le> n - 1" "1 \<le> n" using assms by (auto simp: word_le_nat_alt word_less_nat_alt unat_sub)
  then show ?thesis by (simp add: unat_sub)
qed

lemma writeMulti_loop_stop: "\<not> i < n \<Longrightarrow> writeMulti_loop B a p n i s = s"
  by (subst writeMulti_loop.simps) simp

lemma readMulti_loop_stop: "\<not> i < n \<Longrightarrow> readMulti_loop B a p n i s = s"
  by (subst readMulti_loop.simps) simp

lemma writeMulti_loop_step:
  assumes "i < n"
  shows "writeMulti_loop B a p n i s =
     writeMulti_loop B a p n (i + 1) (mmio_wr B 4 (a + 8 * of_nat (unat n - Suc (unat i)))
       (ucast (ld32 (ram s) (p + 4 * of_nat (unat i)))) s)"
  by (subst writeMulti_loop.simps)
     (simp only: assms if_True writeToAddress_def reg_addr_def ucast_u32_of_nat unat_count_down [OF assms])

text \<open>A block write is the sequence of its register writes.\<close>

primrec write_regs :: "'d bus \<Rightarrow> u64 \<Rightarrow> u32 list \<Rightarrow> 'd world \<Rightarrow> 'd world" where
  "write_regs B a [] s = s"
| "write_regs B a (w # ws) s = write_regs B a ws (mmio_wr B 4 (a + 8 * of_nat (length ws)) (ucast w) s)"

lemma word_ptr_Suc: "(p :: u64) + 4 * of_nat (Suc k) = p + 4 * of_nat k + 4"
  by (simp add: distrib_left add.assoc add.commute)

lemma slot_ptr_Suc: "(p :: u64) + 8 * of_nat (Suc k) = p + 8 * of_nat k + 8"
  by (simp add: distrib_left add.assoc add.commute)

lemma writeMulti_loop_regs:
  "unat i + k = unat n \<Longrightarrow>
     writeMulti_loop B a p n i s = write_regs B a (ld_words (ram s) (p + 4 * of_nat (unat i)) k) s"
proof (induction k arbitrary: i s)
  case 0
  then show ?case by (simp add: writeMulti_loop_stop word_less_nat_alt)
next
  case (Suc k)
  then have less: "i < n" by (simp add: word_less_nat_alt)
  then have i1: "unat (i + 1) = Suc (unat i)" by (rule unat_Suc_less)
  have k: "unat n - Suc (unat i) = k" "Suc (unat i) + k = unat n" using Suc.prems by simp_all
  let ?s = "mmio_wr B 4 (a + 8 * of_nat k) (ucast (ld32 (ram s) (p + 4 * of_nat (unat i)))) s"
  have "writeMulti_loop B a p n i s = writeMulti_loop B a p n (i + 1) ?s"
    by (simp only: writeMulti_loop_step [OF less] k)
  also have "\<dots> = write_regs B a (ld_words (ram s) (p + 4 * of_nat (unat i) + 4) k) ?s"
    using Suc.IH [of "i + 1" ?s] by (simp only: i1 k word_ptr_Suc world_simps)
  finally show ?case
    by (simp only: ld_words.simps write_regs.simps length_ld_words)
qed

lemma writeMulti_regs:
  "writeMultiToAddress B base off p n s = write_regs B (reg_addr base off) (ld_words (ram s) p (unat n)) s"
  unfolding writeMultiToAddress_def
  by (subst writeMulti_loop_regs [where k = "unat n"]) simp_all

lemma write_regs_world [world_simps]: "ram (write_regs B a ws s) = ram s"
  by (induction ws arbitrary: s) (auto simp: world_simps)

lemma sent_write_regs [io_simps]: "sent (write_regs B a ws s) = sent s @ block_writes a ws"
  by (induction ws arbitrary: s) (auto simp: io_simps)

lemma io_step_write_regs [intro, simp]: "io_step s (write_regs B a ws s)"
proof (induction ws arbitrary: s)
  case (Cons w ws)
  then show ?case using io_step_trans [OF io_step_intros(2)] by fastforce
qed simp

lemma writeMulti_sends:
  "sent (writeMultiToAddress B base off p n s)
     = sent s @ block_writes (reg_addr base off) (ld_words (ram s) p (unat n))"
  by (simp add: writeMulti_regs io_simps)

lemma writeMulti_world [world_simps]: "ram (writeMultiToAddress B base off p n s) = ram s"
  by (simp add: writeMulti_regs world_simps)

lemma io_step_writeMulti [intro, simp]: "io_step s (writeMultiToAddress B base off p n s)"
  by (simp add: writeMulti_regs)

text \<open>Reading a block: the registers are read upwards and stored downwards.\<close>

primrec read_regs :: "'d bus \<Rightarrow> u64 \<Rightarrow> nat \<Rightarrow> 'd world \<Rightarrow> u32 list \<times> 'd world" where
  "read_regs B a 0 s = ([], s)"
| "read_regs B a (Suc n) s =
     (let (v, s) = mmio_rd B 4 a s; (vs, s) = read_regs B (a + 8) n s in (ucast v # vs, s))"

lemma length_read_regs [simp]: "length (fst (read_regs B a n s)) = n"
  by (induction n arbitrary: a s) (auto simp: split_beta)

lemma read_regs_world [world_simps]: "ram (snd (read_regs B a n s)) = ram s"
  by (induction n arbitrary: a s) (auto simp: split_beta world_simps)

lemma sent_read_regs [io_simps]: "sent (snd (read_regs B a n s)) = sent s"
  by (induction n arbitrary: a s) (auto simp: split_beta io_simps)

lemma io_step_read_regs [intro, simp]: "io_step s (snd (read_regs B a n s))"
proof (induction n arbitrary: a s)
  case (Suc n)
  then show ?case
    using io_step_trans [of s "snd (mmio_rd B 4 a s)"] by (simp add: split_beta)
qed simp

lemma mmio_rd_ram: "mmio_rd B w a (s\<lparr>ram := m\<rparr>) =
    (fst (mmio_rd B w a s), (snd (mmio_rd B w a s))\<lparr>ram := m\<rparr>)"
  by (simp add: mmio_rd_def split: prod.split)

lemma read_regs_ram:
  "read_regs B a n (s\<lparr>ram := m\<rparr>) = (fst (read_regs B a n s), (snd (read_regs B a n s))\<lparr>ram := m\<rparr>)"
  by (induction n arbitrary: a s) (auto simp: split_beta mmio_rd_ram)

lemma readMulti_loop_step:
  assumes "i < n"
  shows "readMulti_loop B a p n i s =
     readMulti_loop B a p n (i + 1)
       (wst32 (snd (mmio_rd B 4 (a + 8 * of_nat (unat i)) s)) (p + 4 * of_nat (unat n - Suc (unat i)))
          (ucast (fst (mmio_rd B 4 (a + 8 * of_nat (unat i)) s))))"
  by (subst readMulti_loop.simps)
     (simp only: assms if_True readFromAddress_def reg_addr_def ucast_u32_of_nat
        unat_count_down [OF assms] Let_def split_beta fst_conv snd_conv)

lemma apart_word_below:
  assumes "k < 2 ^ 61"
  shows "apart p (4 * k) (p + 4 * of_nat k) 4"
  unfolding apart_def
proof (intro allI impI)
  fix i j :: nat
  assume ij: "i < 4 * k" "j < 4"
  then have "(of_nat i :: u64) \<noteq> of_nat (4 * k + j)"
    using assms of_nat_u64_inject [of i "4 * k + j"] by simp
  moreover have "(of_nat (4 * k + j) :: u64) = 4 * of_nat k + of_nat j"
    by (simp only: of_nat_add of_nat_mult of_nat_numeral)
  ultimately show "p + of_nat i \<noteq> p + 4 * of_nat k + of_nat j"
    by (simp only: add.assoc add_left_cancel not_False_eq_True)
qed

lemma readMulti_loop_regs:
  "unat i + k = unat n \<Longrightarrow>
     readMulti_loop B a p n i s =
       (let (vs, s') = read_regs B (a + 8 * of_nat (unat i)) k s
        in wst_words s' p (rev vs))"
proof (induction k arbitrary: i s)
  case 0
  then show ?case by (simp add: readMulti_loop_stop word_less_nat_alt wst_words_def)
next
  case (Suc k)
  then have less: "i < n" by (simp add: word_less_nat_alt)
  then have i1: "unat (i + 1) = Suc (unat i)" by (rule unat_Suc_less)
  have k: "unat n - Suc (unat i) = k" "Suc (unat i) + k = unat n" using Suc.prems by simp_all
  let ?a = "a + 8 * of_nat (unat i)"
  obtain v s1 where v: "mmio_rd B 4 ?a s = (v, s1)" by fastforce
  obtain vs s2 where vs: "read_regs B (?a + 8) k s1 = (vs, s2)" by fastforce
  have len: "length vs = k" using length_read_regs [of B "?a + 8" k s1] by (simp only: vs fst_conv)
  have ram_s2: "ram s2 = ram s1"
    using read_regs_world [of B "?a + 8" k s1] by (simp only: vs snd_conv)
  have "k < 2 ^ 61" using unat_u32_less [of n] k by simp
  then have commute: "st_words (st32 m (p + 4 * of_nat k) w) p (rev vs)
      = st_words m p (rev vs @ [w])" for m w
    using st32_st_words_commute [of p "rev vs" "p + 4 * of_nat k"] apart_word_below [of k p] len
    by (simp add: st_words_append)
  have "readMulti_loop B a p n i s = readMulti_loop B a p n (i + 1) (wst32 s1 (p + 4 * of_nat k) (ucast v))"
    by (simp only: readMulti_loop_step [OF less] k v fst_conv snd_conv)
  also have "\<dots> = (let (vs, s') = read_regs B (?a + 8) k (wst32 s1 (p + 4 * of_nat k) (ucast v))
        in wst_words s' p (rev vs))"
    using Suc.IH [of "i + 1"] by (simp only: i1 k slot_ptr_Suc)
  also have "\<dots> = wst_words s2 p (rev vs @ [ucast v])"
    by (simp only: wst32_def read_regs_ram vs fst_conv snd_conv Let_def split_beta)
       (simp add: wst_words_def commute ram_s2)
  finally show ?case by (simp only: read_regs.simps v vs Let_def split_beta fst_conv snd_conv rev.simps)
qed

lemma readMulti_reads:
  "readMultiFromAddress B base off p n s =
     (let (vs, s') = read_regs B (reg_addr base off) (unat n) s in wst_words s' p (rev vs))"
  unfolding readMultiFromAddress_def
  by (subst readMulti_loop_regs [where k = "unat n"]) simp_all

lemma readMulti_world [world_simps]:
  "ram (readMultiFromAddress B base off p n s)
     = st_words (ram s) p (rev (fst (read_regs B (reg_addr base off) (unat n) s)))"
  by (simp add: readMulti_reads split_beta wst_words_def world_simps)

lemma sent_readMulti [io_simps]: "sent (readMultiFromAddress B base off p n s) = sent s"
  by (simp add: readMulti_reads split_beta io_simps)

lemma io_step_readMulti [intro, simp]: "io_step s (readMultiFromAddress B base off p n s)"
  using io_step_trans [OF io_step_read_regs io_step_intros(7)]
  by (simp add: readMulti_reads split_beta)

section \<open>A block written to plain registers is read back\<close>

text \<open>The plainest device: registers that hold what was written to them.\<close>

definition register_file :: "(u64 \<Rightarrow> u64) bus" where
  "register_file = \<lparr>bus_rd = \<lambda>w a d. (d a, d), bus_wr = \<lambda>w a v d. d(a := v)\<rparr>"

lemma register_file_rd: "mmio_rd register_file w a s = (dev s a, s\<lparr>trace := trace s @ [MRead w a (dev s a)]\<rparr>)"
  by (simp add: mmio_rd_def register_file_def)

lemma register_file_wr: "mmio_wr register_file w a v s = s\<lparr>dev := (dev s)(a := v), trace := trace s @ [MWrite w a v]\<rparr>"
  by (simp add: mmio_wr_def register_file_def)

lemma slot_inject:
  assumes "i < 2 ^ 32" "j < 2 ^ 32"
  shows "(a :: u64) + 8 * of_nat i = a + 8 * of_nat j \<longleftrightarrow> i = j"
proof -
  have "(of_nat (8 * i) :: u64) = of_nat (8 * j) \<longleftrightarrow> 8 * i = 8 * j"
    using assms by (intro of_nat_u64_inject) simp_all
  then show ?thesis by (simp only: of_nat_mult of_nat_numeral add_left_cancel) simp
qed

lemma read_regs_file:
  "i < n \<Longrightarrow> fst (read_regs register_file a n s) ! i = ucast (dev s (a + 8 * of_nat i))"
proof (induction n arbitrary: a s i)
  case (Suc n)
  show ?case
  proof (cases i)
    case (Suc j)
    with Suc.prems Suc.IH [of j "a + 8"] show ?thesis
      by (simp add: register_file_rd split_beta distrib_left add.assoc)
  qed (simp add: register_file_rd split_beta)
qed simp

lemma write_regs_file_other:
  "(\<And>i. i < length ws \<Longrightarrow> x \<noteq> a + 8 * of_nat i) \<Longrightarrow> dev (write_regs register_file a ws s) x = dev s x"
  by (induction ws arbitrary: s) (auto simp: register_file_wr less_Suc_eq)

lemma write_regs_file:
  "length ws < 2 ^ 32 \<Longrightarrow> i < length ws \<Longrightarrow>
     dev (write_regs register_file a ws s) (a + 8 * of_nat i) = ucast (rev ws ! i)"
proof (induction ws arbitrary: s i)
  case (Cons w ws)
  show ?case
  proof (cases "i = length ws")
    case True
    have "a + 8 * of_nat (length ws) \<noteq> a + 8 * of_nat j" if "j < length ws" for j
      using that Cons.prems slot_inject [of "length ws" j a] by (simp del: add_left_cancel)
    then show ?thesis
      using True by (simp add: write_regs_file_other register_file_wr nth_append)
  next
    case False
    then show ?thesis using Cons by (simp add: nth_append)
  qed
qed simp

lemma write_read_regs_file:
  "length ws < 2 ^ 32 \<Longrightarrow> fst (read_regs register_file a (length ws) (write_regs register_file a ws s)) = rev ws"
  by (rule nth_equalityI) (simp_all add: read_regs_file write_regs_file)

text \<open>
  \<^bold>\<open>C40\<close>: A block written to plain registers with writeMultiToAddress is read
  back unchanged by readMultiFromAddress.
\<close>

theorem write_read_block:
  "ram (readMultiFromAddress register_file base off q n (writeMultiToAddress register_file base off p n s))
     = st_words (ram s) q (ld_words (ram s) p (unat n))"
  using write_read_regs_file [of "ld_words (ram s) p (unat n)" "reg_addr base off" s] unat_u32_less [of n]
  by (simp add: world_simps writeMulti_regs)

section \<open>The byte-wise writer packs big-endian words\<close>

definition be_word :: "u8 list \<Rightarrow> u32" where
  "be_word = foldl (\<lambda>w b. push_bit 8 w OR ucast b) 0"

fun be_words :: "u8 list \<Rightarrow> u32 list" where
  "be_words (b0 # b1 # b2 # b3 # bs) = be_word [b0, b1, b2, b3] # be_words bs"
| "be_words bs = []"

lemma length_be_words [simp]: "length (be_words bs) = length bs div 4"
  by (induction bs rule: be_words.induct) auto

lemma shift_word_out:
  "push_bit 8 (push_bit 8 (push_bit 8 (push_bit 8 (w :: u32) OR a) OR b) OR c) OR d =
   push_bit 8 (push_bit 8 (push_bit 8 (push_bit 8 0 OR a) OR b) OR c) OR d"
  by (rule bit_word_eqI) (auto simp: bit_simps)

lemma ucast_u8_and_FF [simp]: "(ucast (b :: u8) :: u32) AND 0xFF = ucast b"
proof -
  have "(ucast b :: u32) AND 0xFF = take_bit 8 (ucast b)"
    by (simp add: take_bit_eq_mask mask_eq_exp_minus_1)
  also have "\<dots> = ucast b"
    by (rule bit_word_eqI) (auto simp: bit_simps dest: bit_imp_le_length)
  finally show ?thesis .
qed

lemma writeMultichar_loop_word:
  assumes "W = be_word [ld8 (ram s) p, ld8 (ram s) (p + 1), ld8 (ram s) (p + 2), ld8 (ram s) (p + 3)]"
  shows "writeMultichar_loop (Suc (Suc (Suc (Suc (4 * k))))) B a p bs bp w s =
    writeMultichar_loop (4 * k) B a (p + 4) bs (bp + 1) W
      (writeToAddress B a ((bs - 1) - bp) W s)"
proof -
  have "Suc (4 * k) mod 4 \<noteq> 0" "Suc (Suc (4 * k)) mod 4 \<noteq> 0" "Suc (Suc (Suc (4 * k))) mod 4 \<noteq> 0"
    by presburger+
  then show ?thesis
    by (simp add: assms be_word_def Let_def add.assoc shift_word_out [of w])
qed

text \<open>
  With a multiple of four bytes the words go out from the highest register down, the bytes of
  each word first byte first. The counters of the code are 32-bit.
\<close>

lemma writeMultichar_loop_sends:
  "j + k = unat bs \<Longrightarrow>
     sent (writeMultichar_loop (4 * k) B a p bs (of_nat j) w s)
       = sent s @ block_writes a (be_words (get_bytes ld8 (ram s) p (4 * k)))"
proof (induction k arbitrary: j p w s)
  case (Suc k)
  define W where "W = be_word [ld8 (ram s) p, ld8 (ram s) (p + 1), ld8 (ram s) (p + 2), ld8 (ram s) (p + 3)]"
  let ?s = "writeToAddress B a ((bs - 1) - of_nat j) W s"
  have "j < unat bs" using Suc.prems by simp
  then have "unat (of_nat j :: u32) = j" using unat_u32_less [of bs] by (simp add: unat_of_nat)
  then have "unat ((bs - 1) - of_nat j) = k"
    using Suc.prems unat_count_down [of "of_nat j" bs] by (simp add: word_less_nat_alt)
  then have addr: "reg_addr a ((bs - 1) - of_nat j) = a + 8 * of_nat k"
    by (simp only: reg_addr_def ucast_u32_of_nat)
  have n: "4 * Suc k = Suc (Suc (Suc (Suc (4 * k))))" by simp
  have "writeMultichar_loop (4 * Suc k) B a p bs (of_nat j) w s
      = writeMultichar_loop (4 * k) B a (p + 4) bs (of_nat (Suc j)) W ?s"
    unfolding n by (subst writeMultichar_loop_word [OF W_def]) (simp add: add.commute)
  moreover have "sent (writeMultichar_loop (4 * k) B a (p + 4) bs (of_nat (Suc j)) W ?s)
      = sent ?s @ block_writes a (be_words (get_bytes ld8 (ram s) (p + 4) (4 * k)))"
    using Suc.IH [of "Suc j"] Suc.prems by (simp add: world_simps)
  ultimately show ?case
    unfolding n by (simp add: io_simps addr W_def [symmetric] add.assoc)
qed simp

lemma writeMultichar_sends_runs:
  assumes "n < 2 ^ 29"
  shows "sent (writeMulticharToAddress B base off p (of_nat (4 * n)) s)
     = sent s @ block_writes (reg_addr base off) (be_words (get_bytes ld8 (ram s) p (4 * n)))"
proof -
  have sint: "sint (of_nat (4 * n) :: u32) = int (4 * n)"
    using assms by (simp only: signed_of_nat) (simp add: signed_take_bit_int_eq_self)
  have "int (4 * n) sdiv 4 = int n" by (simp add: signed_divide_int_def sgn_if)
  moreover have "unat (word_of_int (int n) :: u32) = n"
    using assms by (simp add: unat_of_nat)
  ultimately show ?thesis
    using writeMultichar_loop_sends [of 0 n "word_of_int (int n)" B "reg_addr base off" p 0 s]
    unfolding writeMulticharToAddress_def sint nat_int by simp
qed

theorem writeMultichar_sends:
  assumes "n < 2 ^ 29"
  shows "sent (writeMulticharToAddress B base off p (of_nat (4 * n)) s)
     = sent s @ block_writes (reg_addr base off) (be_words (get_bytes ld8 (ram s) p (4 * n)))"
  using assms by (rule writeMultichar_sends_runs)

lemma writeMultichar_loop_frame [world_simps]:
  "ram (writeMultichar_loop k B a p bs bp w s) = ram s"
  by (induction k arbitrary: p bp w s) (auto simp: world_simps Let_def)

lemma writeMultichar_world [world_simps]: "ram (writeMulticharToAddress B base off p n s) = ram s"
  by (simp add: writeMulticharToAddress_def world_simps)

lemma io_step_writeMultichar_loop: "io_step s (writeMultichar_loop k B a p bs bp w s)"
proof (induction k arbitrary: p bp w s)
  case (Suc k)
  then show ?case by (auto simp: Let_def intro: io_step_trans [OF io_step_access(2) Suc.IH])
qed simp

lemma io_step_writeMultichar [intro, simp]: "io_step s (writeMulticharToAddress B base off p n s)"
  by (simp add: writeMulticharToAddress_def io_step_writeMultichar_loop)

section \<open>Comparing two blocks\<close>

lemma verify_loop_eq: "verify_loop k m e r = c_bool (ld_words m e k = ld_words m r k)"
  by (induction k arbitrary: e r) (auto simp: c_bool_def)

theorem verifyMulti_compares:
  "verifyMulti m e r n = c_bool
     (\<not> e + 4 * scast n < e \<and> \<not> r + 4 * scast n < r \<and>
      ld_words m e (nat (sint n)) = ld_words m r (nat (sint n)))"
  by (simp add: verifyMulti_def verify_loop_eq c_bool_def)

section \<open>What every driver proof uses\<close>

text \<open>The accesses keep the device pointers and the other fields \<open>io_step\<close> keeps.\<close>

lemmas driver_fields [simp] =
  io_step_fields [OF io_step_access(1)] io_step_fields [OF io_step_access(2)]
  io_step_fields [OF io_step_writeMulti] io_step_fields [OF io_step_readMulti]
  io_step_fields [OF io_step_writeMultichar]
  io_step_fields [OF io_step_intros(1)] io_step_fields [OF io_step_intros(2)]
  io_step_fields [OF io_step_intros(3)] io_step_fields [OF io_step_intros(4)]
  io_step_fields [OF io_step_intros(5)] io_step_fields [OF io_step_intros(6)]
  io_step_fields [OF io_step_intros(7)]

text \<open>Steps that extend a step.\<close>

lemmas io_step_extend [intro] =
  io_step_trans [OF _ io_step_access(1)] io_step_trans [OF _ io_step_access(2)]
  io_step_trans [OF _ io_step_writeMulti] io_step_trans [OF _ io_step_readMulti]
  io_step_trans [OF _ io_step_writeMultichar]
  io_step_trans [OF _ io_step_intros(1)] io_step_trans [OF _ io_step_intros(4)]
  io_step_trans [OF _ io_step_intros(5)] io_step_trans [OF _ io_step_intros(6)]
  io_step_trans [OF _ io_step_intros(7)]

lemma wait_nonzero_frame:
  assumes "wait_nonzero B base off delay s = Some s'"
  shows "io_step s s'" "ram s' = ram s" "sent s' = sent s"
  using wait_nonzero_io [OF assms] by simp_all

end
