(* ===== verification/Fdt.thy ===== *)
theory Fdt
  imports DriverCommon
begin

text \<open>
  \<^verbatim>\<open>src/pk/machine/fdt.c\<close>: the scanner of the flattened device tree and the callbacks that
  read devices out of it. The tree lives in RAM; a callback gets the node or property and the
  scan record behind \<^verbatim>\<open>void *extra\<close>, paired with the machine state.

  A node pointer is modelled as the list of the node and its ancestors (\<open>[]\<close> is
  \<^verbatim>\<open>NULL\<close>). The C nodes are locals of the scanner's activations, one per depth, reused for
  every sibling: the address of a node is therefore its depth, the length of the list.

  \<open>None\<close> is a scan that does not come back: an \<^verbatim>\<open>assert\<close> that fails (it never returns), a
  \<^verbatim>\<open>NULL\<close> node dereferenced, or a tree that never ends.
\<close>

section \<open>Data\<close>

definition FDT_MAGIC :: u32 where "FDT_MAGIC = 0xd00dfeed"
definition FDT_VERSION :: u32 where "FDT_VERSION = 17"
definition FDT_BEGIN_NODE :: u32 where "FDT_BEGIN_NODE = 1"
definition FDT_END_NODE :: u32 where "FDT_END_NODE = 2"
definition FDT_PROP :: u32 where "FDT_PROP = 3"
definition FDT_NOP :: u32 where "FDT_NOP = 4"

lemmas fdt_tokens = FDT_BEGIN_NODE_def FDT_END_NODE_def FDT_PROP_def FDT_NOP_def

lemma token_neq:
  "FDT_PROP \<noteq> FDT_NOP" "FDT_BEGIN_NODE \<noteq> FDT_NOP" "FDT_BEGIN_NODE \<noteq> FDT_PROP"
  "FDT_END_NODE \<noteq> FDT_NOP" "FDT_END_NODE \<noteq> FDT_PROP" "FDT_END_NODE \<noteq> FDT_BEGIN_NODE"
  by (simp_all add: fdt_tokens)

record fdt_node =
  node_name :: u64
  address_cells :: u32
  size_cells :: u32

type_synonym node_path = "fdt_node list"

record fdt_prop =
  prop_node :: node_path
  prop_name :: u64
  prop_value :: u64
  prop_len :: u32

type_synonym ('e, 'd) node_cb = "node_path \<Rightarrow> 'e \<times> 'd world \<Rightarrow> ('e \<times> 'd world) option"

text \<open>The callback table; only \<^verbatim>\<open>prop\<close> is called without a test for \<^verbatim>\<open>NULL\<close>.\<close>

record ('e, 'd) fdt_cb =
  cb_open :: "('e, 'd) node_cb option"
  cb_prop :: "fdt_prop \<Rightarrow> 'e \<times> 'd world \<Rightarrow> ('e \<times> 'd world) option"
  cb_done :: "('e, 'd) node_cb option"
  cb_close :: "(node_path \<Rightarrow> 'e \<times> 'd world \<Rightarrow> (u32 \<times> 'e \<times> 'd world) option) option"

definition bswap :: "u32 \<Rightarrow> u32" where
  "bswap x = (let y = push_bit 8 (x AND 0x00FF00FF) OR drop_bit 8 (x AND 0xFF00FF00);
                  z = push_bit 16 (y AND 0x0000FFFF) OR drop_bit 16 (y AND 0xFFFF0000)
              in z)"

definition isstring :: "u8 \<Rightarrow> bool" where
  "isstring c \<longleftrightarrow> (c \<ge> 65 \<and> c \<le> 90) \<or> (c \<ge> 97 \<and> c \<le> 122) \<or> (c \<ge> 48 \<and> c \<le> 57)
     \<or> c = 0 \<or> c = 32 \<or> c = 44 \<or> c = 45"

text \<open>\<^verbatim>\<open>strcmp\<close> against a string literal.\<close>

primrec strcmp_lit :: "ram \<Rightarrow> u64 \<Rightarrow> string \<Rightarrow> u32" where
  "strcmp_lit m a [] = ucast (ld8 m a)"
| "strcmp_lit m a (c # cs) =
     (if ld8 m a = of_char c then strcmp_lit m (a + 1) cs
      else ucast (ld8 m a) - ucast (of_char c :: u8))"

declare strcmp_lit.simps [simp del]

section \<open>The scanner\<close>

definition call_node_cb :: "('e, 'd) node_cb option \<Rightarrow> ('e, 'd) node_cb" where
  "call_node_cb cb node st = (case cb of None \<Rightarrow> Some st | Some f \<Rightarrow> f node st)"

definition call_close_cb where
  "call_close_cb cb node st = (case cb of None \<Rightarrow> Some (0 :: u32, st) | Some f \<Rightarrow> f node st)"

text \<open>\<^verbatim>\<open>while (lexp != lex_next) *lexp++ = bswap(FDT_NOP);\<close>\<close>

partial_function (option) fill_nops :: "u64 \<Rightarrow> u64 \<Rightarrow> 'd world \<Rightarrow> 'd world option" where
  "fill_nops lexp lex_next s =
     (if lexp \<noteq> lex_next then fill_nops (lexp + 4) lex_next (wst32 s lexp (bswap FDT_NOP)) else Some s)"

text \<open>A property that sets the cell counts of its node.\<close>

definition note_cells :: "ram \<Rightarrow> node_path \<Rightarrow> u64 \<Rightarrow> u64 \<Rightarrow> node_path" where
  "note_cells m node name val =
     (let node = (if node \<noteq> [] \<and> strcmp_lit m name ''#address-cells'' = 0
                  then (hd node)\<lparr>address_cells := bswap (ld32 m val)\<rparr> # tl node else node)
      in if node \<noteq> [] \<and> strcmp_lit m name ''#size-cells'' = 0
         then (hd node)\<lparr>size_cells := bswap (ld32 m val)\<rparr> # tl node else node)"

definition prop_words :: "u32 \<Rightarrow> u32" where
  "prop_words len = 3 + word_of_int (sint (len + 3) sdiv 4)"

text \<open>\<^verbatim>\<open>if (!last && node && cb->done) cb->done(node, cb->extra);\<close>\<close>

definition last_prop_seen :: "('e, 'd) fdt_cb \<Rightarrow> bool \<Rightarrow> ('e, 'd) node_cb" where
  "last_prop_seen cb seen node st = (if \<not> seen \<and> node \<noteq> [] then call_node_cb (cb_done cb) node st else Some st)"

text \<open>
  One activation of \<^verbatim>\<open>fdt_scan_helper\<close>: \<open>child\<close> holds the cell counts of the local child
  node, \<open>seen\<close> (\<^verbatim>\<open>last\<close>) whether a child was scanned. The result carries the node back, for
  its cell counts are set through the pointer.
\<close>

partial_function (option) fdt_scan_helper ::
    "('e, 'd) fdt_cb \<Rightarrow> u64 \<Rightarrow> u64 \<Rightarrow> node_path \<Rightarrow> u32 \<times> u32 \<Rightarrow> bool \<Rightarrow> 'e \<times> 'd world
       \<Rightarrow> (u64 \<times> node_path \<times> 'e \<times> 'd world) option" where
  "fdt_scan_helper cb strings lexp node child seen st =
     (let m = ram (snd st); token = bswap (ld32 m lexp) in
      if token = FDT_NOP then fdt_scan_helper cb strings (lexp + 4) node child seen st
      else if token = FDT_PROP then
        (if seen then None else
         let name = strings + ucast (bswap (ld32 m (lexp + 8)));
             len = bswap (ld32 m (lexp + 4));
             val = lexp + 12;
             node = note_cells m node name val;
             lexp = lexp + 4 * scast (prop_words len)
         in do { st \<leftarrow> cb_prop cb \<lparr>prop_node = node, prop_name = name, prop_value = val, prop_len = len\<rparr> st;
                 fdt_scan_helper cb strings lexp node child seen st })
      else if token = FDT_BEGIN_NODE then
        do { st \<leftarrow> last_prop_seen cb seen node st;
             let path = \<lparr>node_name = lexp + 4, address_cells = fst child, size_cells = snd child\<rparr> # node;
             st \<leftarrow> call_node_cb (cb_open cb) path st;
             len \<leftarrow> strlen (ram (snd st)) (lexp + 4);
             (lex_next, path, st) \<leftarrow>
               fdt_scan_helper cb strings (lexp + 8 + 4 * (len div 4)) path (2, 1) False st;
             (r, st) \<leftarrow> call_close_cb (cb_close cb) path st;
             st \<leftarrow> (if cb_close cb \<noteq> None \<and> r = -1
                    then do { s \<leftarrow> fill_nops lexp lex_next (snd st); Some (fst st, s) } else Some st);
             fdt_scan_helper cb strings lex_next node (address_cells (hd path), size_cells (hd path)) True st }
      else
        do { st \<leftarrow> last_prop_seen cb seen node st;
             Some (if token = FDT_END_NODE then lexp + 4 else lexp, node, st) })"

lemma scan_nop:
  "bswap (ld32 (ram (snd st)) lexp) = FDT_NOP \<Longrightarrow>
     fdt_scan_helper cb strings lexp node child seen st = fdt_scan_helper cb strings (lexp + 4) node child seen st"
  by (subst fdt_scan_helper.simps) (simp add: Let_def)

lemma scan_prop:
  "bswap (ld32 (ram (snd st)) lexp) = FDT_PROP \<Longrightarrow>
     fdt_scan_helper cb strings lexp node child seen st =
      (if seen then None else
       let m = ram (snd st);
           name = strings + ucast (bswap (ld32 m (lexp + 8)));
           len = bswap (ld32 m (lexp + 4));
           node = note_cells m node name (lexp + 12)
       in do { st \<leftarrow> cb_prop cb \<lparr>prop_node = node, prop_name = name, prop_value = lexp + 12, prop_len = len\<rparr> st;
               fdt_scan_helper cb strings (lexp + 4 * scast (prop_words len)) node child False st })"
  by (subst fdt_scan_helper.simps) (simp add: Let_def token_neq)

lemma scan_node:
  "bswap (ld32 (ram (snd st)) lexp) = FDT_BEGIN_NODE \<Longrightarrow>
     fdt_scan_helper cb strings lexp node child seen st =
        do { st \<leftarrow> last_prop_seen cb seen node st;
             let path = \<lparr>node_name = lexp + 4, address_cells = fst child, size_cells = snd child\<rparr> # node;
             st \<leftarrow> call_node_cb (cb_open cb) path st;
             len \<leftarrow> strlen (ram (snd st)) (lexp + 4);
             (lex_next, path, st) \<leftarrow>
               fdt_scan_helper cb strings (lexp + 8 + 4 * (len div 4)) path (2, 1) False st;
             (r, st) \<leftarrow> call_close_cb (cb_close cb) path st;
             st \<leftarrow> (if cb_close cb \<noteq> None \<and> r = -1
                    then do { s \<leftarrow> fill_nops lexp lex_next (snd st); Some (fst st, s) } else Some st);
             fdt_scan_helper cb strings lex_next node (address_cells (hd path), size_cells (hd path)) True st }"
  by (subst fdt_scan_helper.simps) (simp add: Let_def token_neq)

lemma scan_end:
  "bswap (ld32 (ram (snd st)) lexp) \<notin> {FDT_NOP, FDT_PROP, FDT_BEGIN_NODE} \<Longrightarrow>
     fdt_scan_helper cb strings lexp node child seen st =
        do { st' \<leftarrow> last_prop_seen cb seen node st;
             Some (if bswap (ld32 (ram (snd st)) lexp) = FDT_END_NODE then lexp + 4 else lexp, node, st') }"
  by (subst fdt_scan_helper.simps) (simp add: Let_def)

definition fdt_understood :: "ram \<Rightarrow> u64 \<Rightarrow> bool" where
  "fdt_understood m fdt \<longleftrightarrow>
     \<not> (bswap (ld32 m fdt) \<noteq> FDT_MAGIC \<or> bswap (ld32 m (fdt + 24)) > FDT_VERSION)"

definition fdt_scan :: "u64 \<Rightarrow> ('e, 'd) fdt_cb \<Rightarrow> 'e \<times> 'd world \<Rightarrow> ('e \<times> 'd world) option" where
  "fdt_scan fdt cb st =
     (let m = ram (snd st) in
      if \<not> fdt_understood m fdt then Some st
      else let strings = fdt + ucast (bswap (ld32 m (fdt + 12)));
               lexp = fdt + ucast (bswap (ld32 m (fdt + 8)))
           in do { (lexp, node, st) \<leftarrow> fdt_scan_helper cb strings lexp [] (2, 1) False st; Some st })"

definition fdt_size :: "ram \<Rightarrow> u64 \<Rightarrow> u32" where
  "fdt_size m fdt = (if \<not> fdt_understood m fdt then 0 else bswap (ld32 m (fdt + 4)))"

section \<open>Reading values\<close>

primrec fdt_get_cells :: "nat \<Rightarrow> ram \<Rightarrow> u64 \<Rightarrow> u64 \<Rightarrow> u64 \<times> u64" where
  "fdt_get_cells 0 m val result = (result, val)"
| "fdt_get_cells (Suc cells) m val result =
     fdt_get_cells cells m (val + 4) (push_bit 32 result + ucast (bswap (ld32 m val)))"

text \<open>The value and the pointer behind it; \<open>None\<close> is the access through a \<^verbatim>\<open>NULL\<close> node.\<close>

definition fdt_get_address :: "node_path \<Rightarrow> ram \<Rightarrow> u64 \<Rightarrow> (u64 \<times> u64) option" where
  "fdt_get_address node m val =
     (if node = [] then None else Some (fdt_get_cells (nat (sint (address_cells (hd node)))) m val 0))"

definition fdt_get_size :: "node_path \<Rightarrow> ram \<Rightarrow> u64 \<Rightarrow> (u64 \<times> u64) option" where
  "fdt_get_size node m val =
     (if node = [] then None else Some (fdt_get_cells (nat (sint (size_cells (hd node)))) m val 0))"

definition fdt_get_value :: "ram \<Rightarrow> fdt_prop \<Rightarrow> u32 \<Rightarrow> u32" where
  "fdt_get_value m prop index = bswap (ld32 m (prop_value prop + 4 * ucast index))"

partial_function (option) string_list_loop :: "ram \<Rightarrow> u64 \<Rightarrow> u64 \<Rightarrow> u32 \<Rightarrow> string \<Rightarrow> u32 option" where
  "string_list_loop m list end index str =
     (if sint (end - list) > 0
      then (if strcmp_lit m list str = 0 then Some index
            else do { len \<leftarrow> strlen m list; string_list_loop m (list + (len + 1)) end (index + 1) str })
      else Some (-1))"

definition fdt_string_list_index :: "ram \<Rightarrow> fdt_prop \<Rightarrow> string \<Rightarrow> u32 option" where
  "fdt_string_list_index m prop str =
     string_list_loop m (prop_value prop) (prop_value prop + scast (prop_len prop)) 0 str"


section \<open>What a well-formed tree is, and what a scan of it does\<close>

text \<open>
  The structure block as a tree: the name and value of a property are pointers into it. The
  specification of a scan walks that tree: a node is opened, its properties are reported in
  order, then \<^verbatim>\<open>done\<close> is called once, before the first child, the children follow and the
  node is closed.
\<close>

datatype dt_item = DNop | DProp (dt_name: u64) (dt_len: u32) (dt_value: u64) | DNode u64 "dt_item list"

fun dt_visit :: "('e, 'd) fdt_cb \<Rightarrow> ram \<Rightarrow> node_path \<Rightarrow> u32 \<times> u32 \<Rightarrow> bool \<Rightarrow> dt_item list \<Rightarrow> 'e \<times> 'd world
    \<Rightarrow> (node_path \<times> bool \<times> 'e \<times> 'd world) option" where
  "dt_visit cb m node child seen [] st = Some (node, seen, st)"
| "dt_visit cb m node child seen (DNop # is) st = dt_visit cb m node child seen is st"
| "dt_visit cb m node child seen (DProp name len val # is) st =
     (if seen then None else
      let node = note_cells m node name val
      in do { st \<leftarrow> cb_prop cb \<lparr>prop_node = node, prop_name = name, prop_value = val, prop_len = len\<rparr> st;
              dt_visit cb m node child seen is st })"
| "dt_visit cb m node child seen (DNode name body # is) st =
     do { st \<leftarrow> last_prop_seen cb seen node st;
          let path = \<lparr>node_name = name, address_cells = fst child, size_cells = snd child\<rparr> # node;
          st \<leftarrow> call_node_cb (cb_open cb) path st;
          (path, seen', st) \<leftarrow> dt_visit cb m path (2, 1) False body st;
          st \<leftarrow> last_prop_seen cb seen' path st;
          (r, st) \<leftarrow> call_close_cb (cb_close cb) path st;
          dt_visit cb m node (address_cells (hd path), size_cells (hd path)) True is st }"

inductive dt_at :: "ram \<Rightarrow> u64 \<Rightarrow> u64 \<Rightarrow> dt_item list \<Rightarrow> u64 \<Rightarrow> bool"
  for m :: ram and strings :: u64 where
  Nil: "dt_at m strings a [] a"
| Nop: "bswap (ld32 m a) = FDT_NOP \<Longrightarrow> dt_at m strings (a + 4) is e \<Longrightarrow> dt_at m strings a (DNop # is) e"
| Prop: "bswap (ld32 m a) = FDT_PROP \<Longrightarrow>
     dt_at m strings (a + 4 * scast (prop_words (bswap (ld32 m (a + 4))))) is e \<Longrightarrow>
     dt_at m strings a
       (DProp (strings + ucast (bswap (ld32 m (a + 8)))) (bswap (ld32 m (a + 4))) (a + 12) # is) e"
| Node: "bswap (ld32 m a) = FDT_BEGIN_NODE \<Longrightarrow> strlen m (a + 4) = Some len \<Longrightarrow>
     dt_at m strings (a + 8 + 4 * (len div 4)) body e \<Longrightarrow> bswap (ld32 m e) = FDT_END_NODE \<Longrightarrow>
     dt_at m strings (e + 4) is e' \<Longrightarrow> dt_at m strings a (DNode (a + 4) body # is) e'"

lemma dt_items_induct [case_names Nil Nop Prop Node]:
  assumes "P []" "\<And>is. P is \<Longrightarrow> P (DNop # is)"
    "\<And>name len val is. P is \<Longrightarrow> P (DProp name len val # is)"
    "\<And>name body is. P body \<Longrightarrow> P is \<Longrightarrow> P (DNode name body # is)"
  shows "P is"
  using assms by induction_schema (pat_completeness, lexicographic_order)

text \<open>Callbacks that only look: they leave RAM alone and delete nothing.\<close>

locale fdt_observer =
  fixes cb :: "('e, 'd) fdt_cb"
  assumes open_keeps: "cb_open cb = Some f \<Longrightarrow> f node st = Some st' \<Longrightarrow> ram (snd st') = ram (snd st)"
    and prop_keeps: "cb_prop cb prop st = Some st' \<Longrightarrow> ram (snd st') = ram (snd st)"
    and done_keeps: "cb_done cb = Some f \<Longrightarrow> f node st = Some st' \<Longrightarrow> ram (snd st') = ram (snd st)"
    and close_keeps: "cb_close cb = Some g \<Longrightarrow> g node st = Some (r, st') \<Longrightarrow> ram (snd st') = ram (snd st)"
    and close_keeps_node: "cb_close cb = Some g \<Longrightarrow> g node st = Some (r, st') \<Longrightarrow> r \<noteq> -1"
begin

lemma call_open_keeps: "call_node_cb (cb_open cb) node st = Some st' \<Longrightarrow> ram (snd st') = ram (snd st)"
  using open_keeps by (auto simp: call_node_cb_def split: option.splits)

lemma last_prop_keeps: "last_prop_seen cb seen node st = Some st' \<Longrightarrow> ram (snd st') = ram (snd st)"
  using done_keeps by (auto simp: last_prop_seen_def call_node_cb_def split: option.splits if_splits)

lemma call_close_keeps: "call_close_cb (cb_close cb) node st = Some (r, st') \<Longrightarrow> ram (snd st') = ram (snd st)"
  using close_keeps by (auto simp: call_close_cb_def split: option.splits)

lemma call_close_keeps_node:
  "call_close_cb (cb_close cb) node st = Some (r, st') \<Longrightarrow> cb_close cb \<noteq> None \<Longrightarrow> r \<noteq> -1"
  by (cases "cb_close cb") (simp_all add: call_close_cb_def close_keeps_node)

lemma dt_visit_keeps:
  "dt_visit cb m node child seen is st = Some (node', seen', st') \<Longrightarrow> ram (snd st') = ram (snd st)"
proof (induction "is" arbitrary: node child seen st node' seen' st' rule: dt_items_induct)
  case (Node name body "is")
  from Node.prems show ?case
    by (simp add: Let_def bind_eq_Some_conv split_beta)
       (metis Node.IH call_open_keeps last_prop_keeps call_close_keeps prod.collapse)
qed (auto simp: Let_def bind_eq_Some_conv dest: prop_keeps split: if_splits)

lemma close_deletes_nothing:
  "call_close_cb (cb_close cb) node st = Some x \<Longrightarrow> \<not> (cb_close cb \<noteq> None \<and> fst x = -1)"
  using call_close_keeps_node [of node st "fst x" "snd x"] by auto

text \<open>On a well-formed tree the scanner is the walk, and comes back whenever the callbacks do.\<close>

lemma scan_helper_visits:
  assumes "dt_at m strings a is e" "ram (snd st) = m"
    and "bswap (ld32 m e) \<notin> {FDT_NOP, FDT_PROP, FDT_BEGIN_NODE}"
  shows "fdt_scan_helper cb strings a node child seen st =
    do { (node, seen, st) \<leftarrow> dt_visit cb m node child seen is st;
         st \<leftarrow> last_prop_seen cb seen node st;
         Some (if bswap (ld32 m e) = FDT_END_NODE then e + 4 else e, node, st) }"
  using assms
proof (induction arbitrary: node child seen st rule: dt_at.induct)
  case (Nil a)
  then show ?case by (simp add: scan_end)
next
  case (Nop a "is" e)
  then show ?case by (simp add: scan_nop)
next
  case (Prop a "is" e)
  have tok: "bswap (ld32 (ram (snd st)) a) = FDT_PROP" using Prop by simp
  show ?case
  proof (cases seen)
    case False
    show ?thesis
      unfolding scan_prop [OF tok] dt_visit.simps Let_def Prop.prems(1) if_not_P [OF False] Option.bind_assoc
      by (rule Option.bind_cong [OF refl], simp only: False, rule Prop.IH)
         (use Prop.prems prop_keeps in auto)
  qed (simp add: scan_prop [OF tok])
next
  case (Node a len body e "is" e')
  define fin where "fin = (if bswap (ld32 m e') = FDT_END_NODE then e' + 4 else e')"
  have len: "ram (snd st') = m \<Longrightarrow> strlen (ram (snd st')) (a + 4) = Some len" for st' :: "'a \<times> 'b world"
    using Node.hyps by simp
  have body: "ram (snd st') = m \<Longrightarrow> fdt_scan_helper cb strings (a + 8 + 4 * (len div 4)) path (2, 1) False st' =
      do { (path, seen, st) \<leftarrow> dt_visit cb m path (2, 1) False body st';
           st \<leftarrow> last_prop_seen cb seen path st; Some (e + 4, path, st) }" for path st'
    using Node.IH(1) Node.hyps by (simp add: token_neq)
  note rest = Node.IH(2) [OF _ Node.prems(2), folded fin_def]
  have tok: "bswap (ld32 (ram (snd st)) a) = FDT_BEGIN_NODE" using Node by simp
  show ?case
    unfolding scan_node [OF tok] dt_visit.simps Let_def Option.bind_assoc fin_def [symmetric]
  proof (rule Option.bind_cong [OF refl], rule Option.bind_cong [OF refl])
    fix st1 st2
    let ?path = "\<lparr>node_name = a + 4, address_cells = fst child, size_cells = snd child\<rparr> # node"
    assume "last_prop_seen cb seen node st = Some st1" "call_node_cb (cb_open cb) ?path st1 = Some st2"
    then have m: "ram (snd st2) = m" using last_prop_keeps call_open_keeps Node.prems(1) by metis
    show "do { len \<leftarrow> strlen (ram (snd st2)) (a + 4);
            (lex_next, path, st) \<leftarrow> fdt_scan_helper cb strings (a + 8 + 4 * (len div 4)) ?path (2, 1) False st2;
            (r, st) \<leftarrow> call_close_cb (cb_close cb) path st;
            st \<leftarrow> (if cb_close cb \<noteq> None \<and> r = -1
                   then do { s \<leftarrow> fill_nops a lex_next (snd st); Some (fst st, s) } else Some st);
            fdt_scan_helper cb strings lex_next node (address_cells (hd path), size_cells (hd path)) True st } =
          do { x \<leftarrow> dt_visit cb m ?path (2, 1) False body st2;
            (node, seen, st) \<leftarrow> (case x of (path, seen', st) \<Rightarrow>
              do { st \<leftarrow> last_prop_seen cb seen' path st;
                   (r, st) \<leftarrow> call_close_cb (cb_close cb) path st;
                   dt_visit cb m node (address_cells (hd path), size_cells (hd path)) True is st });
            st \<leftarrow> last_prop_seen cb seen node st;
            Some (fin, node, st) }"
      unfolding len [OF m] body [OF m] Option.bind_assoc bind.bind_lunit split_beta
    proof (rule Option.bind_cong [OF refl], unfold bind.bind_lunit fst_conv snd_conv,
        rule Option.bind_cong [OF refl], rule Option.bind_cong [OF refl])
      fix v3 st4 v5
      assume v3: "dt_visit cb m ?path (2, 1) False body st2 = Some v3"
        and st4: "last_prop_seen cb (fst (snd v3)) (fst v3) (snd (snd v3)) = Some st4"
        and v5: "call_close_cb (cb_close cb) (fst v3) st4 = Some v5"
      have m5: "ram (snd (snd v5)) = m"
        using dt_visit_keeps [of m ?path "(2, 1)" False body st2 "fst v3" "fst (snd v3)" "snd (snd v3)"]
          last_prop_keeps [OF st4] call_close_keeps [of "fst v3" st4 "fst v5" "snd v5"] v3 v5 m
        by simp
      let ?child = "(address_cells (hd (fst v3)), size_cells (hd (fst v3)))"
      show "(if cb_close cb \<noteq> None \<and> fst v5 = - 1
          then do { s \<leftarrow> fill_nops a (e + 4) (snd (snd v5)); Some (fst (snd v5), s) } else Some (snd v5))
          \<bind> fdt_scan_helper cb strings (e + 4) node ?child True =
        do { v \<leftarrow> dt_visit cb m node ?child True is (snd v5);
             st \<leftarrow> last_prop_seen cb (fst (snd v)) (fst v) (snd (snd v)); Some (fin, fst v, st) }"
        unfolding if_not_P [OF close_deletes_nothing [OF v5]] bind.bind_lunit
        using rest [OF m5] by (simp only: split_beta)
    qed
  qed
qed

end

lemma less_32_cases:
  assumes "n < 32" "\<And>k. k \<in> set [0..<32] \<Longrightarrow> P k"
  shows "P (n :: nat)"
  using assms by simp

lemma bit_bswap:
  assumes "n < 32"
  shows "bit (bswap x) n \<longleftrightarrow>
    (if n < 8 then bit x (n + 24) else if n < 16 then bit x (n + 8)
     else if n < 24 then bit x (n - 8) else bit x (n - 24))"
  using assms
proof (rule less_32_cases)
  fix k assume "k \<in> set [0..<32]"
  then have "k \<in> {..<32}" by simp
  then have "k \<in> {0,1,2,3,4,5,6,7,8,9,10,11,12,13,14,15,16,17,18,19,20,21,22,23,24,25,26,27,28,29,30,31}"
    by (auto simp: lessThan_nat_numeral lessThan_Suc)
  then show "bit (bswap x) k \<longleftrightarrow>
    (if k < 8 then bit x (k + 24) else if k < 16 then bit x (k + 8)
     else if k < 24 then bit x (k - 8) else bit x (k - 24))"
    unfolding bswap_def Let_def
    by (elim insertE emptyE; simp add: bit_simps)
qed

lemma bswap_bswap [simp]: "bswap (bswap w) = w"
  by (rule bit_word_eqI) (auto simp: bit_bswap)

lemma bswap_big_endian:
  assumes "length bs = 4"
  shows "bswap (le_word bs) = be_word bs"
proof -
  obtain b0 b1 b2 b3 where bs: "bs = [b0, b1, b2, b3]"
    using assms by (auto simp: numeral_eq_Suc length_Suc_conv)
  show ?thesis
    by (rule bit_word_eqI)
       (auto simp: bs bit_bswap be_word_def bit_simps dest: bit_imp_le_length)
qed

section \<open>The walk of the whole tree\<close>

lemma note_cells_length [simp]: "length (note_cells m node name val) = length node"
  by (simp add: note_cells_def Let_def)

lemma dt_visit_length:
  "dt_visit cb m node child seen is st = Some (node', seen', st') \<Longrightarrow> length node' = length node"
proof (induction "is" arbitrary: node child seen st node' seen' st' rule: dt_items_induct)
  case (Node name body "is")
  from Node.prems show ?case
    by (simp add: Let_def bind_eq_Some_conv split_beta) (metis Node.IH(2) prod.collapse)
next
  case (Prop name len val "is")
  from Prop.prems show ?case
    by (auto simp: Let_def bind_eq_Some_conv split: if_splits dest!: Prop.IH)
qed auto

lemma fdt_scan_visits_runs:
  assumes "fdt_observer cb" "fdt_understood (ram s) fdt"
    and "dt_at (ram s) (fdt + ucast (bswap (ld32 (ram s) (fdt + 12))))
           (fdt + ucast (bswap (ld32 (ram s) (fdt + 8)))) is e"
    and "bswap (ld32 (ram s) e) \<notin> {FDT_NOP, FDT_PROP, FDT_BEGIN_NODE}"
  shows "fdt_scan fdt cb (x, s) = map_option (snd \<circ> snd) (dt_visit cb (ram s) [] (2, 1) False is (x, s))"
proof (cases "dt_visit cb (ram s) [] (2, 1) False is (x, s)")
  case None
  then show ?thesis
    using fdt_observer.scan_helper_visits [OF assms(1) assms(3), of "(x, s)" "[]" "(2, 1)" False] assms
    by (simp add: fdt_scan_def Let_def)
next
  case (Some v)
  obtain node seen st where v: "v = (node, seen, st)" by (cases v)
  then have "node = []" using dt_visit_length Some by fastforce
  then show ?thesis
    using fdt_observer.scan_helper_visits [OF assms(1) assms(3), of "(x, s)" "[]" "(2, 1)" False] assms Some v
    by (simp add: fdt_scan_def Let_def last_prop_seen_def)
qed


theorem fdt_scan_foreign:
  "\<not> fdt_understood (ram (snd st)) fdt \<Longrightarrow> fdt_scan fdt cb st = Some st \<and> fdt_size (ram (snd st)) fdt = 0"
  by (simp add: fdt_scan_def fdt_size_def Let_def)

section \<open>Values and strings\<close>

text \<open>A value of \<open>n\<close> cells is the big-endian number its bytes spell, modulo 64 bits.\<close>

lemma fdt_get_cells_ptr: "snd (fdt_get_cells n m val r) = val + 4 * of_nat n"
  by (induction n arbitrary: val r) (auto simp: algebra_simps)

lemma fdt_get_cells_val:
  "fst (fdt_get_cells n m val r) =
     foldl (\<lambda>r w. push_bit 32 r + ucast (bswap w)) r (ld_words m val n)"
  by (induction n arbitrary: val r) auto

lemma strcmp_lit_zero_iff: "0 \<notin> set (bytes_of lit) \<Longrightarrow> strcmp_lit m a lit = 0 \<longleftrightarrow> cstr m a (bytes_of lit)"
proof (induction lit arbitrary: a)
  case Nil
  then show ?case using ucast_u8_u32_inject [of _ 0] by (simp add: bytes_of_def strcmp_lit.simps)
next
  case (Cons c cs)
  have "(ucast (ld8 m a) :: u32) - ucast (of_char c :: u8) = 0 \<longleftrightarrow> ld8 m a = of_char c"
    by (metis eq_iff_diff_eq_0 ucast_u8_u32_inject)
  then show ?case using Cons by (auto simp: bytes_of_def strcmp_lit.simps)
qed

text \<open>The literal comparison is \<^verbatim>\<open>strcmp\<close> with the literal anywhere in memory.\<close>

lemma strcmp_is_lit:
  "0 \<notin> set (bytes_of lit) \<Longrightarrow> cstr m b (bytes_of lit) \<Longrightarrow> strcmp m a b = Some (strcmp_lit m a lit)"
proof (induction lit arbitrary: a b)
  case Nil
  then show ?case by (subst strcmp.simps) (simp add: bytes_of_def Let_def strcmp_lit.simps)
next
  case (Cons c cs)
  then have "of_char c \<noteq> (0 :: u8)" "ld8 m b = of_char c" by (auto simp: bytes_of_def)
  then show ?case
    using Cons by (subst strcmp.simps) (auto simp: bytes_of_def Let_def strcmp_lit.simps)
qed

section \<open>Finding one device\<close>

text \<open>
  The callbacks every peripheral driver has a copy of: the scan record is cleared when a node
  opens, \<^verbatim>\<open>compatible\<close> and \<^verbatim>\<open>reg\<close> fill it, and the end of the properties claims the device if
  none was claimed before. A driver instantiates its name and its pointer.
\<close>

record reg_scan =
  rs_compat :: u32
  rs_reg :: u64

definition reg_open :: "(reg_scan, 'd) node_cb" where
  "reg_open node st = Some (\<lparr>rs_compat = 0, rs_reg = 0\<rparr>, snd st)"

definition reg_prop :: "string \<Rightarrow> fdt_prop \<Rightarrow> reg_scan \<times> 'd world \<Rightarrow> (reg_scan \<times> 'd world) option" where
  "reg_prop compatible prop st =
     (let (scan, s) = st; m = ram s in
      if strcmp_lit m (prop_name prop) ''compatible'' = 0 then
        Some (if strcmp_lit m (prop_value prop) compatible = 0 then scan\<lparr>rs_compat := 1\<rparr> else scan, s)
      else if strcmp_lit m (prop_name prop) ''reg'' = 0 then
        (if prop_node prop = [] then None
         else do { (reg, val) \<leftarrow> fdt_get_address (tl (prop_node prop)) m (prop_value prop);
                   Some (scan\<lparr>rs_reg := reg\<rparr>, s) })
      else Some (scan, s))"

definition reg_done :: "('d world \<Rightarrow> u64) \<Rightarrow> (u64 \<Rightarrow> 'd world \<Rightarrow> 'd world) \<Rightarrow> (reg_scan, 'd) node_cb" where
  "reg_done ptr set_ptr node st =
     (let (scan, s) = st in
      if rs_compat scan = 0 \<or> rs_reg scan = 0 \<or> ptr s \<noteq> 0 then Some st
      else Some (scan, set_ptr (rs_reg scan) s))"

definition reg_cb :: "string \<Rightarrow> ('d world \<Rightarrow> u64) \<Rightarrow> (u64 \<Rightarrow> 'd world \<Rightarrow> 'd world) \<Rightarrow> (reg_scan, 'd) fdt_cb" where
  "reg_cb compatible ptr set_ptr =
     \<lparr>cb_open = Some reg_open, cb_prop = reg_prop compatible, cb_done = Some (reg_done ptr set_ptr), cb_close = None\<rparr>"

lemma reg_cb_observer:
  assumes "\<And>v s. ram (set_ptr v s) = ram s"
  shows "fdt_observer (reg_cb compatible ptr set_ptr)"
  by unfold_locales
    (auto simp: reg_cb_def reg_open_def reg_prop_def reg_done_def Let_def assms bind_eq_Some_conv
      split: if_splits prod.splits)

end
