(* ===== verification/Snprintf.thy ===== *)
theory Snprintf
  imports DriverCommon
begin

text \<open>
  \<^verbatim>\<open>src/pk/util/snprintf.c\<close>. The format is its list of characters (a C string without its
  terminating null), \<^verbatim>\<open>va_list\<close> the list of the 64-bit argument slots of the rv64 calling
  convention: an \<^verbatim>\<open>int\<close> is the low half of its slot, a \<^verbatim>\<open>char *\<close> the address of a string in
  memory. \<open>None\<close> is a call outside C: a missing argument or a string without an end.

  The specification \<open>format_text\<close> is the text a format stands for; the theorem is that
  \<^verbatim>\<open>vsnprintf\<close> returns its length and leaves its first \<^verbatim>\<open>n - 1\<close> characters and a null in
  the buffer, whatever fits.
\<close>

section \<open>The code\<close>

text \<open>\<^verbatim>\<open>if (++pos < n) out[pos-1] = c;\<close> for the store; the callers count.\<close>

definition put_at :: "u64 \<Rightarrow> u64 \<Rightarrow> u64 \<Rightarrow> u8 \<Rightarrow> ram \<Rightarrow> ram" where
  "put_at out n pos c m = (if pos + 1 < n then st8 m (out + pos) c else m)"

definition hex_digit :: "u64 \<Rightarrow> nat \<Rightarrow> u8" where
  "hex_digit num i = (let d = drop_bit (4 * i) num AND 0xF in ucast (if d < 10 then 48 + d else 97 + d - 10))"

primrec put_hex :: "nat \<Rightarrow> u64 \<Rightarrow> u64 \<Rightarrow> u64 \<Rightarrow> u64 \<Rightarrow> ram \<Rightarrow> u64 \<times> ram" where
  "put_hex 0 out n num pos m = (pos, m)"
| "put_hex (Suc i) out n num pos m = put_hex i out n num (pos + 1) (put_at out n pos (hex_digit num i) m)"

definition sdiv10 :: "u64 \<Rightarrow> u64" where
  "sdiv10 num = word_of_int (sint num sdiv 10)"

definition smod10 :: "u64 \<Rightarrow> u64" where
  "smod10 num = word_of_int (sint num smod 10)"

text \<open>\<^verbatim>\<open>for (nn = num; nn /= 10; digits++);\<close>\<close>

function count_digits :: "u64 \<Rightarrow> nat" where
  "count_digits nn = (if sdiv10 nn \<noteq> 0 then Suc (count_digits (sdiv10 nn)) else 1)"
  by pat_completeness auto

primrec put_digits :: "nat \<Rightarrow> u64 \<Rightarrow> u64 \<Rightarrow> u64 \<Rightarrow> u64 \<Rightarrow> ram \<Rightarrow> ram" where
  "put_digits 0 out n num pos m = m"
| "put_digits (Suc i) out n num pos m =
     put_digits i out n (sdiv10 num) pos (put_at out n (pos + of_nat i) (48 + ucast (smod10 num)) m)"

partial_function (option) put_str :: "u64 \<Rightarrow> u64 \<Rightarrow> u64 \<Rightarrow> u64 \<Rightarrow> ram \<Rightarrow> (u64 \<times> ram) option" where
  "put_str out n s2 pos m =
     (if ld8 m s2 \<noteq> 0 then put_str out n (s2 + 1) (pos + 1) (put_at out n pos (ld8 m s2) m) else Some (pos, m))"

text \<open>\<^verbatim>\<open>va_arg(vl, int)\<close> and \<^verbatim>\<open>va_arg(vl, long)\<close>.\<close>

definition va_num :: "bool \<Rightarrow> u64 \<Rightarrow> u64" where
  "va_num long a = (if long then a else scast (ucast a :: u32))"

lemma sint_sdiv10: "sint (sdiv10 num) = sint num sdiv 10"
proof -
  have "\<bar>sint num sdiv 10\<bar> \<le> \<bar>sint num\<bar>"
    by (simp add: signed_divide_int_def abs_mult sgn_if) linarith
  moreover have "- (2 ^ 63) \<le> sint num" "sint num < 2 ^ 63"
    using sint_ge [of num] sint_lt [of num] by simp_all
  moreover have "sint num = - (2 ^ 63) \<Longrightarrow> sint num sdiv 10 < 2 ^ 63"
    by (simp add: signed_divide_int_def)
  ultimately have "- (2 ^ 63) \<le> sint num sdiv 10" "sint num sdiv 10 < 2 ^ 63"
    by linarith+
  then have "signed_take_bit 63 (sint num sdiv 10) = sint num sdiv 10"
    by (intro signed_take_bit_int_eq_self) simp_all
  then show ?thesis by (simp add: sdiv10_def signed_of_int)
qed

termination count_digits
proof (relation "measure (\<lambda>nn. nat \<bar>sint nn\<bar>)")
  fix nn :: u64
  assume "sdiv10 nn \<noteq> 0"
  then have "sint nn sdiv 10 \<noteq> 0" by (auto simp: sdiv10_def)
  then have "\<bar>sint nn sdiv 10\<bar> < \<bar>sint nn\<bar>"
    by (simp add: signed_divide_int_def abs_mult sgn_if split: if_splits)
  then show "(sdiv10 nn, nn) \<in> measure (\<lambda>nn. nat \<bar>sint nn\<bar>)"
    by (simp add: sint_sdiv10)
qed simp

declare count_digits.simps [simp del]

text \<open>
  The loop over the format. \<^verbatim>\<open>if (++pos < n) out[pos-1] = (char)va_arg(vl,int);\<close> takes its
  argument only when the character fits: in a full buffer the arguments after a \<^verbatim>\<open>%c\<close> shift.
\<close>

fun vsnprintf_loop ::
    "u64 \<Rightarrow> u64 \<Rightarrow> u8 list \<Rightarrow> u64 list \<Rightarrow> bool \<Rightarrow> bool \<Rightarrow> bool \<Rightarrow> u64 \<Rightarrow> ram \<Rightarrow> (u64 \<times> ram) option" where
  "vsnprintf_loop out n [] vl format longarg longlongarg pos m = Some (pos, m)"
| "vsnprintf_loop out n (c # s) vl format longarg longlongarg pos m =
     (if format then
        (if c = 108 then
           (if s \<noteq> [] \<and> hd s = 108 then vsnprintf_loop out n (tl s) vl True longarg True pos m
            else vsnprintf_loop out n s vl True True longlongarg pos m)
         else if c = 112 \<or> c = 120 then
           (let (longarg, pos, m) =
              (if c = 112 then (True, pos + 2, put_at out n (pos + 1) 120 (put_at out n pos 48 m))
               else (longarg, pos, m))
            in case vl of [] \<Rightarrow> None | a # vl \<Rightarrow>
              (let (pos, m) = put_hex (if longarg then 16 else 8) out n (va_num longarg a) pos m
               in vsnprintf_loop out n s vl False False longlongarg pos m))
         else if c = 100 then
           (case vl of [] \<Rightarrow> None | a # vl \<Rightarrow>
              (let num = va_num (longarg \<or> longlongarg) a;
                   (num, pos, m) = (if sint num < 0 then (- num, pos + 1, put_at out n pos 45 m) else (num, pos, m));
                   digits = count_digits num;
                   m = put_digits digits out n num pos m
               in vsnprintf_loop out n s vl False False False (pos + of_nat digits) m))
         else if c = 115 then
           (case vl of [] \<Rightarrow> None | a # vl \<Rightarrow>
              do { (pos, m) \<leftarrow> put_str out n a pos m;
                   vsnprintf_loop out n s vl False False longlongarg pos m })
         else if c = 99 then
           (if pos + 1 < n then
              (case vl of [] \<Rightarrow> None | a # vl \<Rightarrow>
                 vsnprintf_loop out n s vl False False longlongarg (pos + 1) (put_at out n pos (ucast a) m))
            else vsnprintf_loop out n s vl False False longlongarg (pos + 1) m)
         else vsnprintf_loop out n s vl True longarg longlongarg pos m)
      else if c = 37 then vsnprintf_loop out n s vl True longarg longlongarg pos m
      else vsnprintf_loop out n s vl False longarg longlongarg (pos + 1) (put_at out n pos c m))"

definition vsnprintf :: "u64 \<Rightarrow> u64 \<Rightarrow> u8 list \<Rightarrow> u64 list \<Rightarrow> ram \<Rightarrow> (u32 \<times> ram) option" where
  "vsnprintf out n s vl m =
     do { (pos, m) \<leftarrow> vsnprintf_loop out n s vl False False False 0 m;
          Some (ucast pos,
            if pos < n then st8 m (out + pos) 0
            else if n \<noteq> 0 then st8 m (out + (n - 1)) 0 else m) }"

section \<open>The text a format stands for\<close>

fun dec_text :: "nat \<Rightarrow> u8 list" where
  "dec_text k = (if k < 10 then [48 + of_nat k] else dec_text (k div 10) @ [48 + of_nat (k mod 10)])"

declare dec_text.simps [simp del]

definition signed_text :: "int \<Rightarrow> u8 list" where
  "signed_text i = (if i < 0 then 45 # dec_text (nat (- i)) else dec_text (nat i))"

definition hex_text :: "nat \<Rightarrow> u64 \<Rightarrow> u8 list" where
  "hex_text k num = map (hex_digit num) (rev [0..<k])"

text \<open>A string argument must end and must not lie in the buffer.\<close>

definition str_arg :: "ram \<Rightarrow> u64 \<Rightarrow> u64 \<Rightarrow> u64 \<Rightarrow> u8 list option" where
  "str_arg m out n a =
     (case strlen m a of None \<Rightarrow> None
      | Some k \<Rightarrow> if \<forall>i\<le>unat k. n \<le> (a + of_nat i) - out
                then Some (get_bytes ld8 m a (unat k)) else None)"

text \<open>The conversions of the contract: \<^verbatim>\<open>%x %lx %p %d %ld %lld %s\<close>.\<close>

definition conversion :: "u8 list \<Rightarrow> (nat \<times> u8 \<times> u8 list) option" where
  "conversion s = (case s of [] \<Rightarrow> None
     | c # s1 \<Rightarrow> if c \<noteq> 108 then Some (0, c, s1) else
       (case s1 of [] \<Rightarrow> None
        | c # s2 \<Rightarrow> if c \<noteq> 108 then Some (1, c, s2) else
          (case s2 of [] \<Rightarrow> None | c # s3 \<Rightarrow> if c = 100 then Some (2, c, s3) else None)))"

definition conversion_text :: "ram \<Rightarrow> u64 \<Rightarrow> u64 \<Rightarrow> nat \<Rightarrow> u8 \<Rightarrow> u64 \<Rightarrow> u8 list option" where
  "conversion_text m out n width c a =
     (if c = 120 then Some (hex_text (if width = 0 then 8 else 16) (va_num (width \<noteq> 0) a))
      else if c = 112 then Some ([48, 120] @ hex_text 16 a)
      else if c = 100 then
        (let i = sint (va_num (width \<noteq> 0) a) in if i = - (2 ^ 63) then None else Some (signed_text i))
      else if c = 115 then str_arg m out n a
      else None)"

lemma conversion_shorter: "conversion s = Some (w, c, s') \<Longrightarrow> length s' < length s"
  by (auto simp: conversion_def split: list.splits if_splits)

function format_text :: "ram \<Rightarrow> u64 \<Rightarrow> u64 \<Rightarrow> u8 list \<Rightarrow> u64 list \<Rightarrow> u8 list option" where
  "format_text m out n [] vl = Some []"
| "format_text m out n (c # s) vl =
     (if c \<noteq> 37 then map_option (Cons c) (format_text m out n s vl)
      else case conversion s of None \<Rightarrow> None
      | Some (w, c, s) \<Rightarrow>
        (case vl of [] \<Rightarrow> None
         | a # vl \<Rightarrow> do { t \<leftarrow> conversion_text m out n w c a; map_option (append t) (format_text m out n s vl) }))"
  by pat_completeness auto
termination
  by (relation "measure (\<lambda>(m, out, n, s, vl). length s)") (auto dest: conversion_shorter)

section \<open>The buffer\<close>

definition emitted :: "ram \<Rightarrow> u64 \<Rightarrow> u64 \<Rightarrow> u8 list \<Rightarrow> ram" where
  "emitted m out n tx = put_bytes st8 m out (take (unat n - 1) tx)"

lemma fits_iff:
  "Suc k < 2 ^ 64 \<Longrightarrow> of_nat k + 1 < (n :: u64) \<longleftrightarrow> k < unat n - 1"
proof -
  assume k: "Suc k < 2 ^ 64"
  have "of_nat k + 1 = (of_nat (Suc k) :: u64)" by simp
  then show ?thesis using k unat_of_nat_u64 [of "Suc k"] by (simp only: word_less_nat_alt) linarith
qed

lemma put_at_emitted:
  assumes "Suc (length tx) < 2 ^ 64"
  shows "put_at out n (of_nat (length tx)) c (emitted m out n tx) = emitted m out n (tx @ [c])"
  using fits_iff [OF assms, of n]
  by (auto simp: put_at_def emitted_def put_bytes_append)

lemma put_hex_emitted:
  "length tx + k < 2 ^ 64 \<Longrightarrow>
     put_hex k out n num (of_nat (length tx)) (emitted m out n tx)
       = (of_nat (length (tx @ hex_text k num)), emitted m out n (tx @ hex_text k num))"
proof (induction k arbitrary: tx)
  case (Suc k)
  then show ?case
    using Suc.IH [of "tx @ [hex_digit num k]"]
    by (simp add: put_at_emitted hex_text_def add.commute)
qed (simp add: hex_text_def)

lemma ucast_u64_u8_of_nat: "(ucast (of_nat k :: u64) :: u8) = of_nat k"
  by (simp add: unsigned_of_nat word_of_nat_eq_iff)

lemma put_digits_text:
  "sint num = int k \<Longrightarrow> pos + length (dec_text k) < 2 ^ 64 \<Longrightarrow>
     put_digits (length (dec_text k)) out n num (of_nat pos) m =
       put_bytes st8 m (out + of_nat pos) (take (unat n - 1 - pos) (dec_text k))"
proof (induction k arbitrary: num m rule: dec_text.induct)
  case (1 k)
  have "sint num smod 10 = int (k mod 10)"
    using 1 by (simp add: smod_int_alt_def sgn_if zmod_int)
  then have rem: "smod10 num = of_nat (k mod 10)" by (simp only: smod10_def of_int_of_nat_eq)
  show ?case
  proof (cases "k < 10")
    case True
    then have d: "dec_text k = [48 + of_nat k]" by (simp add: dec_text.simps)
    have "ucast (of_nat k :: u64) = (of_nat k :: u8)" by (rule ucast_u64_u8_of_nat)
    then show ?thesis
      using True rem fits_iff [of pos n] "1.prems" by (auto simp: d put_at_def)
  next
    case False
    let ?d = "dec_text (k div 10)" let ?c = "48 + of_nat (k mod 10) :: u8"
    have d: "dec_text k = ?d @ [?c]" using False by (subst dec_text.simps) simp
    have s10: "sint (sdiv10 num) = int (k div 10)"
      using "1.prems" by (simp add: sint_sdiv10 signed_divide_int_def sgn_if zdiv_int)
    let ?m = "put_at out n (of_nat pos + of_nat (length ?d)) ?c m"
    have "put_digits (length (dec_text k)) out n num (of_nat pos) m
        = put_digits (length ?d) out n (sdiv10 num) (of_nat pos) ?m"
      by (simp add: d rem ucast_u64_u8_of_nat)
    also have "\<dots> = put_bytes st8 ?m (out + of_nat pos) (take (unat n - 1 - pos) ?d)"
      using "1.IH" False s10 "1.prems" by (simp add: d)
    also have "\<dots> = put_bytes st8 m (out + of_nat pos) (take (unat n - 1 - pos) (dec_text k))"
    proof (cases "pos + length ?d < unat n - 1")
      case True
      have fit: "of_nat pos + of_nat (length ?d) + 1 < n"
        using fits_iff [of "pos + length ?d" n] True "1.prems" d by simp
      have "put_bytes st8 (put_bytes st8 m (out + of_nat pos + of_nat (length ?d)) [?c]) (out + of_nat pos) ?d
          = put_bytes st8 (put_bytes st8 m (out + of_nat pos) ?d) (out + of_nat pos + of_nat (length ?d)) [?c]"
      proof (rule put_bytes_commute)
        show "apart (out + of_nat pos + of_nat (length ?d)) (length [?c]) (out + of_nat pos) (length ?d)"
          unfolding apart_def using "1.prems" d of_nat_u64_inject [of "length ?d"]
          by (auto simp: add.assoc)
      qed (use "1.prems" d in auto)
      then show ?thesis
        using fit True by (simp add: d put_at_def put_bytes_append add.assoc)
    next
      case False
      then show ?thesis
        using fits_iff [of "pos + length ?d" n] "1.prems" by (simp add: d put_at_def)
    qed
    finally show ?thesis .
  qed
qed

lemma put_digits_emitted:
  assumes "sint num = int k" "length tx + length (dec_text k) < 2 ^ 64"
  shows "put_digits (length (dec_text k)) out n num (of_nat (length tx)) (emitted m out n tx)
     = emitted m out n (tx @ dec_text k)"
proof (cases "length tx \<le> unat n - 1")
  case True
  then show ?thesis using assms by (simp add: put_digits_text emitted_def put_bytes_append)
next
  case False
  then show ?thesis using assms by (simp add: put_digits_text emitted_def)
qed

lemma count_digits_text: "sint num = int k \<Longrightarrow> count_digits num = length (dec_text k)"
proof (induction k arbitrary: num rule: dec_text.induct)
  case (1 k)
  have s10: "sint (sdiv10 num) = int (k div 10)"
    using "1.prems" by (simp add: sint_sdiv10 signed_divide_int_def sgn_if zdiv_int)
  show ?case
  proof (cases "k < 10")
    case True
    then have "sint (sdiv10 num) = 0" using s10 by simp
    then have "sdiv10 num = 0" by (metis signed_0 signed_word_eqI)
    then show ?thesis using True by (simp add: count_digits.simps [of num] dec_text.simps)
  next
    case False
    then have "sdiv10 num \<noteq> 0" using s10 by auto
    then show ?thesis
      using False "1.IH" [OF False s10] by (simp add: count_digits.simps [of num] dec_text.simps [of k])
  qed
qed

text \<open>A string outside the buffer is what it was before the buffer was written.\<close>

lemma emitted_outside:
  assumes "n \<noteq> 0" "n \<le> a - out"
  shows "ld8 (emitted m out n tx) a = ld8 m a"
proof -
  have "length (take (unat n - 1) tx) \<le> 2 ^ 64"
    using unat_u64_less [of n] by simp
  note put_bytes_ram [OF this, of m out a]
  moreover have "\<not> unat (a - out) < length (take (unat n - 1) tx)"
    using assms by (simp add: word_le_nat_alt) linarith
  ultimately show ?thesis by (simp only: ld8_def emitted_def if_False)
qed

lemma cstr_bytes: "cstr m a bs \<longleftrightarrow> bs = get_bytes ld8 m a (length bs) \<and> 0 \<notin> set bs \<and> ld8 m (a + of_nat (length bs)) = 0"
  by (induction bs arbitrary: a) (auto simp: add.assoc)

lemma cstr_short:
  assumes "cstr m a bs"
  shows "length bs < 2 ^ 64"
proof (rule ccontr)
  assume long: "\<not> length bs < 2 ^ 64"
  define i where "i = length bs - 2 ^ 64"
  then have i: "i < length bs" "length bs = i + 2 ^ 64" using long by auto
  have "ld8 m (a + of_nat i) = bs ! i"
    using assms i(1) nth_get_bytes [of i "length bs" ld8 m a] by (simp add: cstr_bytes)
  moreover have "(of_nat (length bs) :: u64) = of_nat i"
    by (simp add: i(2) word_of_nat_eq_iff take_bit_eq_mod)
  ultimately show False using assms i(1) nth_mem [of i bs] by (simp add: cstr_bytes)
qed

lemma strlen_end_Some: "strlen_end m a = Some p \<Longrightarrow> \<exists>bs. cstr m a bs \<and> p = a + of_nat (length bs)"
proof (rule strlen_end.raw_induct [where P = "\<lambda>m a p. \<exists>bs. cstr m a bs \<and> p = a + of_nat (length bs)", rotated])
  fix f and m :: ram and a p
  assume IH: "\<And>m a p. f m a = Some p \<Longrightarrow> \<exists>bs. cstr m a bs \<and> p = a + of_nat (length bs)"
    and eq: "(if ld8 m a \<noteq> 0 then f m (a + 1) else Some a) = Some p"
  show "\<exists>bs. cstr m a bs \<and> p = a + of_nat (length bs)"
  proof (cases "ld8 m a = 0")
    case True
    then have "cstr m a []" "p = a + of_nat (length ([] :: u8 list))" using eq by simp_all
    then show ?thesis by blast
  next
    case False
    then obtain bs where "cstr m (a + 1) bs" "p = a + 1 + of_nat (length bs)"
      using IH [of m "a + 1" p] eq by auto
    then have "cstr m a (ld8 m a # bs)" "p = a + of_nat (length (ld8 m a # bs))"
      using False by simp_all
    then show ?thesis by blast
  qed
qed

lemma strlen_Some: "strlen m a = Some k \<Longrightarrow> cstr m a (get_bytes ld8 m a (unat k))"
proof -
  assume "strlen m a = Some k"
  then obtain bs where bs: "cstr m a bs" "k = of_nat (length bs)"
    using strlen_end_Some [of m a "a + k"] by (auto simp: strlen_def bind_eq_Some_conv)
  then have "unat k = length bs" using cstr_short by (simp add: unat_of_nat_u64)
  then show ?thesis using bs(1) by (simp add: cstr_bytes)
qed

lemma put_str_emitted:
  "cstr m a bs \<Longrightarrow> n \<noteq> 0 \<Longrightarrow> (\<forall>i\<le>length bs. n \<le> (a + of_nat i) - out) \<Longrightarrow>
     length tx + length bs < 2 ^ 64 \<Longrightarrow>
     put_str out n a (of_nat (length tx)) (emitted m out n tx)
       = Some (of_nat (length (tx @ bs)), emitted m out n (tx @ bs))"
proof (induction bs arbitrary: a tx)
  case Nil
  then have "ld8 (emitted m out n tx) a = 0" using emitted_outside [of n a out m tx] by fastforce
  then show ?case by (subst put_str.simps) simp
next
  case (Cons b bs)
  have "n \<le> (a + of_nat 0) - out" using Cons.prems(3) by blast
  then have "ld8 (emitted m out n tx) a = b" using Cons.prems emitted_outside [of n a out m tx] by simp
  moreover have "n \<le> (a + 1 + of_nat i) - out" if "i \<le> length bs" for i
    using Cons.prems(3) [rule_format, of "Suc i"] that by (simp add: add.assoc)
  ultimately show ?case
    using Cons.IH [of "a + 1" "tx @ [b]"] Cons.prems
    by (subst put_str.simps) (simp add: put_at_emitted add.commute)
qed

section \<open>The loop follows the specification\<close>

lemma str_arg_put:
  assumes "str_arg m out n a = Some bs" "n \<noteq> 0" "length tx + length bs < 2 ^ 64"
  shows "put_str out n a (of_nat (length tx)) (emitted m out n tx)
       = Some (of_nat (length (tx @ bs)), emitted m out n (tx @ bs))"
proof -
  obtain k where k: "strlen m a = Some k" "bs = get_bytes ld8 m a (unat k)"
      "\<forall>i\<le>unat k. n \<le> (a + of_nat i) - out"
    using assms(1) unfolding str_arg_def by (auto split: option.splits if_splits)
  then show ?thesis
    using assms strlen_Some [OF k(1)] by (intro put_str_emitted) auto
qed

lemma signed_text_put:
  assumes "sint num \<noteq> - (2 ^ 63)" "length tx + length (signed_text (sint num)) < 2 ^ 64"
    and "r = (if sint num < 0 then (- num, of_nat (length tx) + 1, put_at out n (of_nat (length tx)) 45 (emitted m out n tx))
              else (num, of_nat (length tx), emitted m out n tx))"
  shows "fst (snd r) + of_nat (count_digits (fst r)) = of_nat (length (tx @ signed_text (sint num)))"
    and "put_digits (count_digits (fst r)) out n (fst r) (fst (snd r)) (snd (snd r))
       = emitted m out n (tx @ signed_text (sint num))"
proof -
  let ?k = "nat \<bar>sint num\<bar>" let ?t = "if sint num < 0 then tx @ [45] else tx"
  have "sint (- num) = - sint num" if "sint num < 0"
  proof -
    have "- (2 ^ 63) < sint num" using assms(1) sint_ge [of num] by simp
    then have "signed_take_bit 63 (- sint num) = - sint num"
      using that by (intro signed_take_bit_int_eq_self) simp_all
    moreover have "- num = word_of_int (- sint num)" by simp
    ultimately show ?thesis by (simp only: signed_of_int) simp
  qed
  then have num: "sint (fst r) = int ?k" using assms(3) by auto
  have t: "tx @ signed_text (sint num) = ?t @ dec_text ?k"
    by (simp add: signed_text_def abs_if)
  have len: "length ?t + length (dec_text ?k) < 2 ^ 64" using assms(2) t by (metis length_append)
  have r: "fst (snd r) = of_nat (length ?t)" "snd (snd r) = emitted m out n ?t"
    using assms len by (auto simp: put_at_emitted)
  show "fst (snd r) + of_nat (count_digits (fst r)) = of_nat (length (tx @ signed_text (sint num)))"
    unfolding t by (simp add: r count_digits_text [OF num])
  show "put_digits (count_digits (fst r)) out n (fst r) (fst (snd r)) (snd (snd r))
       = emitted m out n (tx @ signed_text (sint num))"
    unfolding t r count_digits_text [OF num] by (rule put_digits_emitted [OF num len])
qed

lemma loop_x:
  "vsnprintf_loop out n (120 # s) (a # vl) True longarg ll pos m =
     (let (pos, m) = put_hex (if longarg then 16 else 8) out n (va_num longarg a) pos m
      in vsnprintf_loop out n s vl False False ll pos m)"
  by simp

lemma loop_p:
  "vsnprintf_loop out n (112 # s) (a # vl) True longarg ll pos m =
     (let (pos, m) = put_hex 16 out n a (pos + 2) (put_at out n (pos + 1) 120 (put_at out n pos 48 m))
      in vsnprintf_loop out n s vl False False ll pos m)"
  by (simp add: va_num_def)

lemma loop_d:
  "vsnprintf_loop out n (100 # s) (a # vl) True longarg ll pos m =
     (let num = va_num (longarg \<or> ll) a;
          r = (if sint num < 0 then (- num, pos + 1, put_at out n pos 45 m) else (num, pos, m));
          digits = count_digits (fst r)
      in vsnprintf_loop out n s vl False False False (fst (snd r) + of_nat digits)
           (put_digits digits out n (fst r) (fst (snd r)) (snd (snd r))))"
  by (simp add: Let_def split_beta)

lemma loop_s:
  "vsnprintf_loop out n (115 # s) (a # vl) True longarg ll pos m =
     do { (pos, m) \<leftarrow> put_str out n a pos m; vsnprintf_loop out n s vl False False ll pos m }"
  by simp

lemma conversion_cases:
  assumes "conversion s = Some (w, c, s')"
  obtains "s = c # s'" "c \<noteq> 108" "w = 0" | "s = 108 # c # s'" "c \<noteq> 108" "w = 1"
    | "s = 108 # 108 # 100 # s'" "c = 100" "w = 2"
  using assms by (auto simp: conversion_def split: list.splits if_splits)

text \<open>One conversion: the flags it leaves are the ones it started with.\<close>

lemma conversion_char:
  assumes "conversion_text m out n w c a = Some t" "w \<le> 1 \<or> c = 100" "w \<le> 2"
    and "n \<noteq> 0" "length tx + length t < 2 ^ 64"
  shows "vsnprintf_loop out n (c # s') (a # vl) True (w = 1) (w = 2) (of_nat (length tx)) (emitted m out n tx) =
     vsnprintf_loop out n s' vl False False False (of_nat (length (tx @ t))) (emitted m out n (tx @ t))"
proof -
  consider "c = 120" | "c = 112" | "c = 100" | "c = 115"
    using assms(1) by (auto simp: conversion_text_def split: if_splits)
  then show ?thesis
  proof cases
    case 1
    then have "t = hex_text (if w = 0 then 8 else 16) (va_num (w \<noteq> 0) a)" "w = 0 \<or> w = 1"
      using assms(1,2) by (auto simp: conversion_text_def)
    then show ?thesis
      using assms(5) by (auto simp: 1 loop_x put_hex_emitted hex_text_def simp del: vsnprintf_loop.simps)
  next
    case 2
    then have t: "t = [48, 120] @ hex_text 16 a" "w = 0 \<or> w = 1"
      using assms(1,2) by (auto simp: conversion_text_def)
    have "put_at out n (of_nat (length (tx @ [48]))) 120 (put_at out n (of_nat (length tx)) 48 (emitted m out n tx))
        = emitted m out n (tx @ [48, 120])"
      using assms(5) t put_at_emitted [of tx out n 48 m] put_at_emitted [of "tx @ [48]" out n 120 m] by simp
    moreover have "put_hex 16 out n a (of_nat (length (tx @ [48, 120]))) (emitted m out n (tx @ [48, 120]))
        = (of_nat (length (tx @ t)), emitted m out n (tx @ t))"
      using assms(5) t put_hex_emitted [of "tx @ [48, 120]" 16 out n a m] by (simp add: hex_text_def)
    ultimately show ?thesis
      using t(2) by (auto simp: 2 loop_p add.commute simp del: vsnprintf_loop.simps)
  next
    case 3
    define num where "num = va_num (w \<noteq> 0) a"
    have t: "t = signed_text (sint num)" "sint num \<noteq> - (2 ^ 63)"
      using assms(1) 3 by (auto simp: conversion_text_def num_def Let_def split: if_splits)
    have num': "va_num (w = 1 \<or> w = 2) a = num" using assms(3) by (auto simp: num_def le_Suc_eq numeral_2_eq_2)
    note put = signed_text_put [OF t(2) assms(5) [unfolded t(1)] refl, of out n m]
    show ?thesis
      unfolding 3 loop_d num' Let_def put t(1) by (rule refl)
  next
    case 4
    then have "str_arg m out n a = Some t" "w = 0 \<or> w = 1"
      using assms(1,2) by (auto simp: conversion_text_def)
    then show ?thesis
      using str_arg_put [of m out n a t tx] assms(4,5)
      by (auto simp: 4 loop_s simp del: vsnprintf_loop.simps)
  qed
qed

lemma conversion_skip:
  assumes "conversion s = Some (w, c, s')"
  shows "w \<le> 2" "w \<le> 1 \<or> c = 100"
    "vsnprintf_loop out n s vl True False False pos m
       = vsnprintf_loop out n (c # s') vl True (w = 1) (w = 2) pos m"
  using assms by (cases rule: conversion_cases; simp)+

lemma loop_text:
  "format_text m out n s vl = Some t \<Longrightarrow> n \<noteq> 0 \<Longrightarrow> length tx + length t < 2 ^ 64 \<Longrightarrow>
     vsnprintf_loop out n s vl False False False (of_nat (length tx)) (emitted m out n tx)
       = Some (of_nat (length (tx @ t)), emitted m out n (tx @ t))"
proof (induction m out n s vl arbitrary: tx t rule: format_text.induct)
  case (1 m out n vl)
  then show ?case by simp
next
  case (2 m out n c s vl)
  show ?case
  proof (cases "c = 37")
    case False
    then obtain t' where t': "format_text m out n s vl = Some t'" "t = c # t'" using "2.prems"(1) by auto
    then have "Suc (length tx) < 2 ^ 64" using "2.prems"(3) by simp
    moreover have "vsnprintf_loop out n s vl False False False (of_nat (length (tx @ [c]))) (emitted m out n (tx @ [c]))
        = Some (of_nat (length ((tx @ [c]) @ t')), emitted m out n ((tx @ [c]) @ t'))"
      using "2.IH"(1) [OF _ t'(1), of "tx @ [c]"] "2.prems" False t'(2) by simp
    ultimately show ?thesis
      using False t'(2) by (simp add: put_at_emitted add.commute)
  next
    case True
    then obtain w c' s' a vl' u t' where p: "conversion s = Some (w, c', s')" "vl = a # vl'"
        "conversion_text m out n w c' a = Some u" "format_text m out n s' vl' = Some t'" "t = u @ t'"
      using "2.prems"(1) by (auto split: option.splits list.splits simp: bind_eq_Some_conv)
    have "vsnprintf_loop out n s' vl' False False False (of_nat (length (tx @ u))) (emitted m out n (tx @ u))
        = Some (of_nat (length (tx @ t)), emitted m out n (tx @ t))"
      using "2.IH"(2) [of "(w, c', s')" w "(c', s')" c' s' a vl' u t' "tx @ u"] True p "2.prems" by simp
    moreover have "vsnprintf_loop out n s vl True False False (of_nat (length tx)) (emitted m out n tx)
        = vsnprintf_loop out n s' vl' False False False (of_nat (length (tx @ u))) (emitted m out n (tx @ u))"
      using conversion_char [OF p(3), of tx s' vl'] p "2.prems" conversion_skip [OF p(1)] by simp
    ultimately show ?thesis using True by simp
  qed
qed

lemma vsnprintf_formats_runs:
  assumes "format_text m out n s vl = Some t" "n \<noteq> 0" "length t < 2 ^ 64"
  shows "vsnprintf out n s vl m =
     Some (of_nat (length t), put_bytes st8 m out (take (unat n - 1) t @ [0]))"
proof -
  have "vsnprintf_loop out n s vl False False False 0 m = Some (of_nat (length t), emitted m out n t)"
    using loop_text [OF assms(1,2), of "[]"] assms(3) by (simp add: emitted_def)
  moreover have "ucast (of_nat (length t) :: u64) = (of_nat (length t) :: u32)"
    by (simp add: unsigned_of_nat word_of_nat_eq_iff)
  moreover have "of_nat (length t) < n \<longleftrightarrow> length t < unat n"
    using assms(3) by (simp add: word_less_nat_alt unat_of_nat_u64)
  moreover have "unat n \<noteq> 0" using assms(2) by (simp add: unat_eq_0)
  moreover from this have "of_nat (unat n - Suc 0) = n - 1" by (simp add: of_nat_diff)
  ultimately show ?thesis
    using assms(2) by (auto simp: vsnprintf_def emitted_def put_bytes_append min_def)
qed


end
