(* ===== verification/Console.thy ===== *)
theory Console
  imports Fdt Snprintf
begin

text \<open>
  The console: \<^verbatim>\<open>uart.c\<close>, \<^verbatim>\<open>uart16550.c\<close>, \<^verbatim>\<open>htif.c\<close> and \<^verbatim>\<open>finisher.c\<close> of
  \<^verbatim>\<open>src/pk/machine\<close>, and the printing functions at the head of \<^verbatim>\<open>mtrap.c\<close>. The build is
  rv64 with the A extension. A function that waits for a device gives \<open>None\<close> when it waits
  for ever; so does a failing \<^verbatim>\<open>assert\<close>. The spin lock of \<^verbatim>\<open>htif.c\<close> is free whenever its
  functions are entered (there is one hart and they do not call each other), so taking it
  changes nothing.
\<close>

section \<open>SiFive UART\<close>

definition UART_REG_TXFIFO :: u64 where "UART_REG_TXFIFO = 0"
definition UART_REG_RXFIFO :: u64 where "UART_REG_RXFIFO = 1"
definition UART_REG_TXCTRL :: u64 where "UART_REG_TXCTRL = 2"
definition UART_REG_RXCTRL :: u64 where "UART_REG_RXCTRL = 3"

text \<open>\<^verbatim>\<open>amoor.w\<close>: the old word, and the word with the bits set stored in its place.\<close>

definition amoor_w :: "'d bus \<Rightarrow> u64 \<Rightarrow> u32 \<Rightarrow> 'd world \<Rightarrow> u32 \<times> 'd world" where
  "amoor_w B a v s = (let (r, s) = mmio_rd B 4 a s; r = ucast r :: u32
                      in (r, mmio_wr B 4 a (ucast (r OR v)) s))"

partial_function (option) uart_putchar :: "'d bus \<Rightarrow> u8 \<Rightarrow> 'd world \<Rightarrow> 'd world option" where
  "uart_putchar B ch s =
     (let (r, s) = amoor_w B (uart s + 4 * UART_REG_TXFIFO) (ucast ch) s
      in if sint r < 0 then uart_putchar B ch s else Some s)"

definition uart_getchar :: "'d bus \<Rightarrow> 'd world \<Rightarrow> u32 \<times> 'd world" where
  "uart_getchar B s =
     (let (v, s) = mmio_rd B 4 (uart s + 4 * UART_REG_RXFIFO) s; ch = ucast v :: u32
      in if sint ch < 0 then (-1, s) else (ch, s))"

definition uart_open :: "(reg_scan, 'd) node_cb" where "uart_open = reg_open"

text \<open>
  \<^verbatim>\<open>compatible\<close> and the name are tested in one condition here, so a \<^verbatim>\<open>compatible\<close> property of
  another device falls through to the test for \<^verbatim>\<open>reg\<close>, which it fails.
\<close>

definition uart_prop :: "fdt_prop \<Rightarrow> reg_scan \<times> 'd world \<Rightarrow> (reg_scan \<times> 'd world) option" where
  "uart_prop prop st =
     (let (scan, s) = st; m = ram s in
      if strcmp_lit m (prop_name prop) ''compatible'' = 0 \<and> strcmp_lit m (prop_value prop) ''sifive,uart0'' = 0
      then Some (scan\<lparr>rs_compat := 1\<rparr>, s)
      else if strcmp_lit m (prop_name prop) ''reg'' = 0 then
        (if prop_node prop = [] then None
         else do { (reg, val) \<leftarrow> fdt_get_address (tl (prop_node prop)) m (prop_value prop);
                   Some (scan\<lparr>rs_reg := reg\<rparr>, s) })
      else Some (scan, s))"

definition uart_done :: "'d bus \<Rightarrow> (reg_scan, 'd) node_cb" where
  "uart_done B node st =
     (let (scan, s) = st in
      if rs_compat scan = 0 \<or> rs_reg scan = 0 \<or> uart s \<noteq> 0 then Some st
      else let s = s\<lparr>uart := rs_reg scan\<rparr>;
               s = mmio_wr B 4 (uart s + 4 * UART_REG_TXCTRL) 1 s;
               s = mmio_wr B 4 (uart s + 4 * UART_REG_RXCTRL) 1 s
           in Some (scan, s))"

text \<open>The scan record is not initialised before the scan: its fields are arguments.\<close>

definition query_uart :: "'d bus \<Rightarrow> u64 \<Rightarrow> reg_scan \<Rightarrow> 'd world \<Rightarrow> 'd world option" where
  "query_uart B fdt scan s =
     map_option snd (fdt_scan fdt
       \<lparr>cb_open = Some uart_open, cb_prop = uart_prop, cb_done = Some (uart_done B), cb_close = None\<rparr> (scan, s))"

section \<open>16550 UART\<close>

definition UART_REG_QUEUE :: u32 where "UART_REG_QUEUE = 0"
definition UART_REG_DLL :: u32 where "UART_REG_DLL = 0"
definition UART_REG_IER :: u32 where "UART_REG_IER = 1"
definition UART_REG_DLM :: u32 where "UART_REG_DLM = 1"
definition UART_REG_FCR :: u32 where "UART_REG_FCR = 2"
definition UART_REG_LCR :: u32 where "UART_REG_LCR = 3"
definition UART_REG_LSR :: u32 where "UART_REG_LSR = 5"
definition UART_REG_STATUS_RX :: u32 where "UART_REG_STATUS_RX = 1"
definition UART_REG_STATUS_TX :: u32 where "UART_REG_STATUS_TX = 0x20"
definition UART_DEFAULT_BAUD :: u32 where "UART_DEFAULT_BAUD = 38400"

definition uart16550_reg :: "u32 \<Rightarrow> 'd world \<Rightarrow> u64" where
  "uart16550_reg r s = uart16550 s + scast (push_bit (unat (uart16550_reg_shift s)) r)"

partial_function (option) uart16550_wait :: "'d bus \<Rightarrow> 'd world \<Rightarrow> 'd world option" where
  "uart16550_wait B s =
     (let (v, s) = mmio_rd B 1 (uart16550_reg UART_REG_LSR s) s
      in if ucast (ucast v :: u8) AND UART_REG_STATUS_TX = 0 then uart16550_wait B s else Some s)"

definition uart16550_putchar :: "'d bus \<Rightarrow> u8 \<Rightarrow> 'd world \<Rightarrow> 'd world option" where
  "uart16550_putchar B ch s =
     do { s \<leftarrow> uart16550_wait B s; Some (mmio_wr B 1 (uart16550_reg UART_REG_QUEUE s) (ucast ch) s) }"

definition uart16550_getchar :: "'d bus \<Rightarrow> 'd world \<Rightarrow> u32 \<times> 'd world" where
  "uart16550_getchar B s =
     (let (v, s) = mmio_rd B 1 (uart16550_reg UART_REG_LSR s) s
      in if ucast (ucast v :: u8) AND UART_REG_STATUS_RX \<noteq> 0
         then (let (v, s) = mmio_rd B 1 (uart16550_reg UART_REG_QUEUE s) s in (ucast (ucast v :: u8), s))
         else (-1, s))"

record uart16550_scan =
  us_compat :: u32
  us_reg :: u64
  us_reg_offset :: u32
  us_reg_shift :: u32
  us_clock_freq :: u32
  us_baud :: u32

definition uart16550_open :: "(uart16550_scan, 'd) node_cb" where
  "uart16550_open node st =
     Some (\<lparr>us_compat = 0, us_reg = 0, us_reg_offset = 0, us_reg_shift = 0, us_clock_freq = 0,
            us_baud = UART_DEFAULT_BAUD\<rparr>, snd st)"

definition uart16550_prop :: "fdt_prop \<Rightarrow> uart16550_scan \<times> 'd world \<Rightarrow> (uart16550_scan \<times> 'd world) option" where
  "uart16550_prop prop st =
     (let (scan, s) = st; m = ram s in
      do { compat \<leftarrow> (if strcmp_lit m (prop_name prop) ''compatible'' = 0
             then do { i \<leftarrow> fdt_string_list_index m prop ''ns16550'';
                       if i \<noteq> -1 then Some True
                       else do { j \<leftarrow> fdt_string_list_index m prop ''ns16750''; Some (j \<noteq> -1) } }
             else Some False);
           if compat then Some (scan\<lparr>us_compat := 1\<rparr>, s)
           else if strcmp_lit m (prop_name prop) ''reg'' = 0 then
             (if prop_node prop = [] then None
              else do { (reg, val) \<leftarrow> fdt_get_address (tl (prop_node prop)) m (prop_value prop);
                        Some (scan\<lparr>us_reg := reg\<rparr>, s) })
           else if strcmp_lit m (prop_name prop) ''reg-shift'' = 0
             then Some (scan\<lparr>us_reg_shift := fdt_get_value m prop 0\<rparr>, s)
           else if strcmp_lit m (prop_name prop) ''reg-offset'' = 0
             then Some (scan\<lparr>us_reg_offset := fdt_get_value m prop 0\<rparr>, s)
           else if strcmp_lit m (prop_name prop) ''current-speed'' = 0
             then Some (scan\<lparr>us_baud := fdt_get_value m prop 0\<rparr>, s)
           else if strcmp_lit m (prop_name prop) ''clock-frequency'' = 0
             then Some (scan\<lparr>us_clock_freq := fdt_get_value m prop 0\<rparr>, s)
           else Some (scan, s) })"

text \<open>
  The divisor computation. The product is 32-bit; when it wraps to 0 the division by zero is
  what the RISC-V \<^verbatim>\<open>divu\<close> gives, all ones.
\<close>

definition divu32 :: "u32 \<Rightarrow> u32 \<Rightarrow> u32" where
  "divu32 a b = (if b = 0 then -1 else a div b)"

definition uart16550_divisor :: "u32 \<Rightarrow> u32 \<Rightarrow> u32" where
  "uart16550_divisor clock baud =
     (let divisor = divu32 clock (16 * (if baud \<noteq> 0 then baud else UART_DEFAULT_BAUD))
      in if divisor \<ge> 0x10000 then divu32 clock (16 * UART_DEFAULT_BAUD) else divisor)"

definition uart16550_done :: "'d bus \<Rightarrow> (uart16550_scan, 'd) node_cb" where
  "uart16550_done B node st =
     (let (scan, s) = st in
      if us_compat scan = 0 \<or> us_reg scan = 0 \<or> uart16550 s \<noteq> 0 then Some st
      else let s = (if us_clock_freq scan \<noteq> 0 then s\<lparr>uart16550_clock := us_clock_freq scan\<rparr> else s);
               divisor = uart16550_divisor (uart16550_clock s) (us_baud scan);
               s = s\<lparr>uart16550 := us_reg scan + ucast (us_reg_offset scan),
                     uart16550_reg_shift := us_reg_shift scan\<rparr>;
               s = mmio_wr B 1 (uart16550_reg UART_REG_IER s) 0x00 s;
               s = mmio_wr B 1 (uart16550_reg UART_REG_LCR s) 0x80 s;
               s = mmio_wr B 1 (uart16550_reg UART_REG_DLL s) (ucast (ucast divisor :: u8)) s;
               s = mmio_wr B 1 (uart16550_reg UART_REG_DLM s) (ucast (ucast (drop_bit 8 divisor) :: u8)) s;
               s = mmio_wr B 1 (uart16550_reg UART_REG_LCR s) 0x03 s;
               s = mmio_wr B 1 (uart16550_reg UART_REG_FCR s) 0xC7 s
           in Some (scan, s))"

definition query_uart16550 :: "'d bus \<Rightarrow> 'd world \<Rightarrow> 'd world" where
  "query_uart16550 B s =
     (case uart16550_done B [] (\<lparr>us_compat = 1, us_reg = 0xfff0c2c000, us_reg_offset = 0, us_reg_shift = 0,
        us_clock_freq = 0x03b9aca0, us_baud = 0x0001c200\<rparr>, s) of
        Some (scan, s) \<Rightarrow> s | None \<Rightarrow> s)"

section \<open>Finisher\<close>

definition FINISHER_FAIL :: u32 where "FINISHER_FAIL = 0x3333"
definition FINISHER_PASS :: u32 where "FINISHER_PASS = 0x5555"

definition finisher_exit :: "'d bus \<Rightarrow> u16 \<Rightarrow> 'd world \<Rightarrow> 'd world" where
  "finisher_exit B code s =
     (if finisher s = 0 then s
      else if code = 0 then mmio_wr B 4 (finisher s) (ucast FINISHER_PASS) s
      else mmio_wr B 4 (finisher s) (ucast (push_bit 16 (ucast code) OR FINISHER_FAIL)) s)"

definition finisher_open :: "(reg_scan, 'd) node_cb" where "finisher_open = reg_open"

definition finisher_prop :: "fdt_prop \<Rightarrow> reg_scan \<times> 'd world \<Rightarrow> (reg_scan \<times> 'd world) option" where
  "finisher_prop prop st =
     (let (scan, s) = st; m = ram s in
      if strcmp_lit m (prop_name prop) ''compatible'' = 0 \<and> strcmp_lit m (prop_value prop) ''sifive,test0'' = 0
      then Some (scan\<lparr>rs_compat := 1\<rparr>, s)
      else if strcmp_lit m (prop_name prop) ''reg'' = 0 then
        (if prop_node prop = [] then None
         else do { (reg, val) \<leftarrow> fdt_get_address (tl (prop_node prop)) m (prop_value prop);
                   Some (scan\<lparr>rs_reg := reg\<rparr>, s) })
      else Some (scan, s))"

definition finisher_done :: "(reg_scan, 'd) node_cb" where
  "finisher_done = reg_done finisher (\<lambda>v s. s\<lparr>finisher := v\<rparr>)"

definition query_finisher :: "u64 \<Rightarrow> reg_scan \<Rightarrow> 'd world \<Rightarrow> 'd world option" where
  "query_finisher fdt scan s =
     map_option snd (fdt_scan fdt
       \<lparr>cb_open = Some finisher_open, cb_prop = finisher_prop, cb_done = Some finisher_done, cb_close = None\<rparr> (scan, s))"

section \<open>Host interface\<close>

text \<open>The two words are shared with the host, so they are device accesses.\<close>

definition TOHOST_CMD :: "u64 \<Rightarrow> u64 \<Rightarrow> u64 \<Rightarrow> u64" where
  "TOHOST_CMD dv cmd payload = push_bit 56 dv OR push_bit 48 cmd OR payload"

definition FROMHOST_DEV :: "u64 \<Rightarrow> u64" where "FROMHOST_DEV v = drop_bit 56 v"
definition FROMHOST_CMD :: "u64 \<Rightarrow> u64" where "FROMHOST_CMD v = drop_bit 56 (push_bit 8 v)"
definition FROMHOST_DATA :: "u64 \<Rightarrow> u64" where "FROMHOST_DATA v = drop_bit 16 (push_bit 16 v)"

definition check_fromhost :: "'d bus \<Rightarrow> 'd world \<Rightarrow> 'd world option" where
  "check_fromhost B s =
     (let (fh, s) = mmio_rd B 8 (fromhost s) s in
      if fh = 0 then Some s
      else let s = mmio_wr B 8 (fromhost s) 0 s in
        if FROMHOST_DEV fh \<noteq> 1 then None
        else if FROMHOST_CMD fh = 0
          then Some (s\<lparr>htif_console_buf := 1 + ucast (ucast (FROMHOST_DATA fh) :: u8)\<rparr>)
        else if FROMHOST_CMD fh = 1 then Some s
        else None)"

partial_function (option) set_tohost_wait :: "'d bus \<Rightarrow> 'd world \<Rightarrow> 'd world option" where
  "set_tohost_wait B s =
     (let (v, s) = mmio_rd B 8 (tohost s) s
      in if v \<noteq> 0 then do { s \<leftarrow> check_fromhost B s; set_tohost_wait B s } else Some s)"

definition set_tohost :: "'d bus \<Rightarrow> u64 \<Rightarrow> u64 \<Rightarrow> u64 \<Rightarrow> 'd world \<Rightarrow> 'd world option" where
  "set_tohost B dv cmd data s =
     do { s \<leftarrow> set_tohost_wait B s; Some (mmio_wr B 8 (tohost s) (TOHOST_CMD dv cmd data) s) }"

definition htif_console_getchar :: "'d bus \<Rightarrow> 'd world \<Rightarrow> (u32 \<times> 'd world) option" where
  "htif_console_getchar B s =
     do { s \<leftarrow> check_fromhost B s;
          let ch = htif_console_buf s;
          s \<leftarrow> (if sint ch \<ge> 0 then set_tohost B 1 0 0 (s\<lparr>htif_console_buf := -1\<rparr>) else Some s);
          Some (ch - 1, s) }"

partial_function (option) fromhost_wait :: "'d bus \<Rightarrow> u64 \<Rightarrow> u64 \<Rightarrow> 'd world \<Rightarrow> 'd world option" where
  "fromhost_wait B dv cmd s =
     (let (fh, s) = mmio_rd B 8 (fromhost s) s in
      if fh \<noteq> 0 then
        (if FROMHOST_DEV fh = dv \<and> FROMHOST_CMD fh = cmd then Some (mmio_wr B 8 (fromhost s) 0 s)
         else do { s \<leftarrow> check_fromhost B s; fromhost_wait B dv cmd s })
      else fromhost_wait B dv cmd s)"

definition do_tohost_fromhost :: "'d bus \<Rightarrow> u64 \<Rightarrow> u64 \<Rightarrow> u64 \<Rightarrow> 'd world \<Rightarrow> 'd world option" where
  "do_tohost_fromhost B dv cmd data s = do { s \<leftarrow> set_tohost B dv cmd data s; fromhost_wait B dv cmd s }"

definition htif_syscall :: "'d bus \<Rightarrow> u64 \<Rightarrow> 'd world \<Rightarrow> 'd world option" where
  "htif_syscall B arg s = do_tohost_fromhost B 0 0 arg s"

definition htif_console_putchar :: "'d bus \<Rightarrow> u8 \<Rightarrow> 'd world \<Rightarrow> 'd world option" where
  "htif_console_putchar B ch s = set_tohost B 1 1 (ucast ch) s"

text \<open>The end of the machine: the host is told until it stops it.\<close>

partial_function (option) htif_poweroff :: "'d bus \<Rightarrow> 'd world \<Rightarrow> 'd world option" where
  "htif_poweroff B s = htif_poweroff B (mmio_wr B 8 (tohost s) 1 (mmio_wr B 8 (fromhost s) 0 s))"

record htif_scan =
  hs_compat :: u32

definition htif_open :: "(htif_scan, 'd) node_cb" where
  "htif_open node st = Some (\<lparr>hs_compat = 0\<rparr>, snd st)"

definition htif_prop :: "fdt_prop \<Rightarrow> htif_scan \<times> 'd world \<Rightarrow> (htif_scan \<times> 'd world) option" where
  "htif_prop prop st =
     (let (scan, s) = st; m = ram s in
      if strcmp_lit m (prop_name prop) ''compatible'' = 0 \<and> strcmp_lit m (prop_value prop) ''ucb,htif0'' = 0
      then Some (scan\<lparr>hs_compat := 1\<rparr>, s) else Some st)"

definition htif_done :: "(htif_scan, 'd) node_cb" where
  "htif_done node st = (let (scan, s) = st in if hs_compat scan = 0 then Some st else Some (scan, s\<lparr>htif := 1\<rparr>))"

definition htif_cb :: "(htif_scan, 'd) fdt_cb" where
  "htif_cb = \<lparr>cb_open = Some htif_open, cb_prop = htif_prop, cb_done = Some htif_done, cb_close = None\<rparr>"

definition query_htif :: "u64 \<Rightarrow> htif_scan \<Rightarrow> 'd world \<Rightarrow> 'd world option" where
  "query_htif fdt scan s = map_option snd (fdt_scan fdt htif_cb (scan, s))"

section \<open>Printing\<close>

definition mcall_console_putchar :: "'d bus \<Rightarrow> u8 \<Rightarrow> 'd world \<Rightarrow> (u64 \<times> 'd world) option" where
  "mcall_console_putchar B ch s =
     do { s \<leftarrow> (if uart s \<noteq> 0 then uart_putchar B ch s
               else if uart16550 s \<noteq> 0 then uart16550_putchar B ch s
               else if htif s \<noteq> 0 then htif_console_putchar B ch s
               else Some s);
          Some (0, s) }"

definition mcall_console_getchar :: "'d bus \<Rightarrow> 'd world \<Rightarrow> (u64 \<times> 'd world) option" where
  "mcall_console_getchar B s =
     (if uart s \<noteq> 0 then (let (c, s) = uart_getchar B s in Some (scast c, s))
      else if uart16550 s \<noteq> 0 then (let (c, s) = uart16550_getchar B s in Some (scast c, s))
      else if htif s \<noteq> 0 then map_option (\<lambda>(c, s). (scast c, s)) (htif_console_getchar B s)
      else Some (0, s))"

partial_function (option) putstring :: "'d bus \<Rightarrow> u64 \<Rightarrow> 'd world \<Rightarrow> 'd world option" where
  "putstring B p s =
     (if ld8 (ram s) p \<noteq> 0
      then do { (r, s) \<leftarrow> mcall_console_putchar B (ld8 (ram s) p) s; putstring B (p + 1) s }
      else Some s)"

definition vprintm :: "'d bus \<Rightarrow> string \<Rightarrow> u64 list \<Rightarrow> 'd world \<Rightarrow> 'd world option" where
  "vprintm B fmt vl s =
     do { (n, m) \<leftarrow> vsnprintf (printm_buf s) 256 (bytes_of fmt) vl (ram s);
          putstring B (printm_buf s) (s\<lparr>ram := m\<rparr>) }"

definition printm :: "'d bus \<Rightarrow> string \<Rightarrow> u64 list \<Rightarrow> 'd world \<Rightarrow> 'd world option" where
  "printm B fmt vl s = vprintm B fmt vl s"

section \<open>The console interface\<close>

text \<open>
  What a console driver promises the printing code: a character put is shown after what was
  shown before, and memory stays. It is interpreted on the 16550 driver and on the host
  interface; the text shown is read off the writes the device received.
\<close>

primrec put_all :: "(u8 \<Rightarrow> 's \<Rightarrow> 's option) \<Rightarrow> u8 list \<Rightarrow> 's \<Rightarrow> 's option" where
  "put_all putc [] s = Some s"
| "put_all putc (c # cs) s = do { s \<leftarrow> putc c s; put_all putc cs s }"

locale console =
  fixes putc :: "u8 \<Rightarrow> 's \<Rightarrow> 's option" and shown :: "'s \<Rightarrow> u8 list" and mem :: "'s \<Rightarrow> ram"
  assumes putc_shows: "putc c s = Some s' \<Longrightarrow> shown s' = shown s @ [c]"
    and putc_mem: "putc c s = Some s' \<Longrightarrow> mem s' = mem s"
begin

lemma put_all_shows: "put_all putc cs s = Some s' \<Longrightarrow> shown s' = shown s @ cs"
  by (induction cs arbitrary: s) (auto simp: bind_eq_Some_conv putc_shows)

lemma put_all_mem: "put_all putc cs s = Some s' \<Longrightarrow> mem s' = mem s"
  by (induction cs arbitrary: s) (auto simp: bind_eq_Some_conv putc_mem)

end

lemma uart16550_wait_io:
  "uart16550_wait B s = Some s' \<Longrightarrow> io_step s s' \<and> ram s' = ram s \<and> sent s' = sent s"
proof (rule uart16550_wait.raw_induct
    [where P = "\<lambda>B s s'. io_step s s' \<and> ram s' = ram s \<and> sent s' = sent s", rotated])
  fix f and B :: "'a bus" and s s'
  assume IH: "\<And>B s s'. f B s = Some s' \<Longrightarrow> io_step s s' \<and> ram s' = ram s \<and> sent s' = sent s"
    and eq: "(let (v, s) = mmio_rd B 1 (uart16550_reg UART_REG_LSR s) s
      in if ucast (ucast v :: u8) AND UART_REG_STATUS_TX = 0 then f B s else Some s) = Some s'"
  let ?r = "mmio_rd B 1 (uart16550_reg UART_REG_LSR s) s"
  have "s' = snd ?r \<or> f B (snd ?r) = Some s'"
    using eq by (auto simp: Let_def split: prod.splits if_splits)
  then show "io_step s s' \<and> ram s' = ram s \<and> sent s' = sent s"
  proof
    assume "f B (snd ?r) = Some s'"
    from IH [OF this] show ?thesis
      using io_step_trans [OF io_step_intros(3)] by (auto simp: world_simps io_simps)
  qed (simp add: world_simps io_simps)
qed

lemma uart16550_putchar_io:
  assumes "uart16550_putchar B ch s = Some s'"
  shows "io_step s s'" "ram s' = ram s" "sent s' = sent s @ [(uart16550_reg UART_REG_QUEUE s, ucast ch)]"
proof -
  obtain s1 where s1: "uart16550_wait B s = Some s1"
      "s' = mmio_wr B 1 (uart16550_reg UART_REG_QUEUE s1) (ucast ch) s1"
    using assms by (auto simp: uart16550_putchar_def bind_eq_Some_conv)
  note io = uart16550_wait_io [OF s1(1)]
  then have "uart16550_reg UART_REG_QUEUE s1 = uart16550_reg UART_REG_QUEUE s"
    using io_step_fields [of s s1] by (simp add: uart16550_reg_def)
  then show "io_step s s'" "ram s' = ram s"
      "sent s' = sent s @ [(uart16550_reg UART_REG_QUEUE s, ucast ch)]"
    using io s1(2) io_step_trans [of s s1] by (simp_all add: world_simps io_simps)
qed

lemma uart16550_reg_io: "io_step s s' \<Longrightarrow> uart16550_reg r s' = uart16550_reg r s"
  by (simp add: uart16550_reg_def io_step_fields)

definition shown_16550 :: "'d world \<Rightarrow> u8 list" where
  "shown_16550 s = map (\<lambda>(a, v). ucast v) (filter (\<lambda>(a, v). a = uart16550_reg UART_REG_QUEUE s) (sent s))"

interpretation uart16550_console: console "uart16550_putchar B" shown_16550 ram for B
proof unfold_locales
  fix c and s s' :: "'a world"
  assume put: "uart16550_putchar B c s = Some s'"
  note io = uart16550_putchar_io [OF put]
  show "shown_16550 s' = shown_16550 s @ [c]"
    by (simp add: shown_16550_def io uart16550_reg_io [OF io(1)])
  show "ram s' = ram s" by (rule io)
qed

text \<open>The host interface shows the commands for device 1, command 1.\<close>

definition shown_htif :: "'d world \<Rightarrow> u8 list" where
  "shown_htif s = map (\<lambda>(a, v). ucast v) (filter (\<lambda>(a, v). a = tohost s \<and> drop_bit 48 v = 0x101) (sent s))"

lemma check_fromhost_io:
  assumes "check_fromhost B s = Some s'"
  shows "ram s' = ram s" "tohost s' = tohost s" "shown_htif s' = shown_htif s"
proof -
  have fields: "tohost (mmio_wr B w a v s) = tohost s" "tohost (snd (mmio_rd B w a s)) = tohost s" for w a v s
    by (simp_all add: mmio_wr_def mmio_rd_def split: prod.split)
  have buf: "sent (s\<lparr>htif_console_buf := x\<rparr>) = sent s" for s :: "'a world" and x by (simp add: sent_def)
  show "ram s' = ram s" "tohost s' = tohost s" "shown_htif s' = shown_htif s"
    using assms
    by (auto simp: check_fromhost_def Let_def split_beta shown_htif_def fields buf world_simps io_simps
        split: if_splits)
qed

lemma set_tohost_wait_io:
  "set_tohost_wait B s = Some s' \<Longrightarrow> ram s' = ram s \<and> tohost s' = tohost s \<and> shown_htif s' = shown_htif s"
proof (rule set_tohost_wait.raw_induct
    [where P = "\<lambda>B s s'. ram s' = ram s \<and> tohost s' = tohost s \<and> shown_htif s' = shown_htif s", rotated])
  fix f and B :: "'a bus" and s s'
  assume IH: "\<And>B s s'. f B s = Some s' \<Longrightarrow> ram s' = ram s \<and> tohost s' = tohost s \<and> shown_htif s' = shown_htif s"
    and eq: "(let (v, s) = mmio_rd B 8 (tohost s) s
      in if v \<noteq> 0 then do { s \<leftarrow> check_fromhost B s; f B s } else Some s) = Some s'"
  let ?s = "snd (mmio_rd B 8 (tohost s) s)"
  have r: "ram ?s = ram s \<and> tohost ?s = tohost s \<and> shown_htif ?s = shown_htif s"
    by (simp add: mmio_rd_def shown_htif_def sent_def split: prod.split)
  from eq consider "s' = ?s" | s1 where "check_fromhost B ?s = Some s1" "f B s1 = Some s'"
    by (auto simp: Let_def bind_eq_Some_conv split: prod.splits if_splits)
  then show "ram s' = ram s \<and> tohost s' = tohost s \<and> shown_htif s' = shown_htif s"
    by cases (use r check_fromhost_io IH in metis)+
qed

interpretation htif_console: console "htif_console_putchar B" shown_htif ram for B
proof unfold_locales
  fix c and s s' :: "'a world"
  assume "htif_console_putchar B c s = Some s'"
  then obtain s1 where s1: "set_tohost_wait B s = Some s1"
      "s' = mmio_wr B 8 (tohost s1) (TOHOST_CMD 1 1 (ucast c)) s1"
    by (auto simp: htif_console_putchar_def set_tohost_def bind_eq_Some_conv)
  note io = set_tohost_wait_io [OF s1(1)]
  have "drop_bit 48 (ucast c :: u64) = 0"
    by (rule bit_word_eqI, auto simp: bit_simps dest: bit_imp_le_length)
  then have "drop_bit 48 (TOHOST_CMD 1 1 (ucast c)) = 0x101"
    by (simp add: TOHOST_CMD_def drop_bit_or)
  moreover have "ucast (TOHOST_CMD 1 1 (ucast c)) = c"
    unfolding TOHOST_CMD_def by (rule bit_word_eqI, simp only: bit_simps) auto
  ultimately have cmd: "drop_bit 48 (TOHOST_CMD 1 1 (ucast c)) = 0x101" "ucast (TOHOST_CMD 1 1 (ucast c)) = c"
    by blast+
  have "tohost s' = tohost s1" by (simp add: s1(2) mmio_wr_def)
  then have "shown_htif s' = shown_htif s1 @ [c]"
    using cmd by (simp add: s1(2) shown_htif_def io_simps)
  then show "shown_htif s' = shown_htif s @ [c]" using io by simp
  show "ram s' = ram s" using io s1(2) by (simp add: world_simps)
qed

section \<open>What \<^verbatim>\<open>printm\<close> prints\<close>

lemma mcall_putchar_16550:
  "uart s = 0 \<Longrightarrow> uart16550 s \<noteq> 0 \<Longrightarrow>
     mcall_console_putchar B c s = map_option (Pair 0) (uart16550_putchar B c s)"
  by (cases "uart16550_putchar B c s") (simp_all add: mcall_console_putchar_def)

lemma putstring_16550:
  "cstr (ram s) p cs \<Longrightarrow> uart s = 0 \<Longrightarrow> uart16550 s \<noteq> 0 \<Longrightarrow>
     putstring B p s = put_all (uart16550_putchar B) cs s"
proof (induction cs arbitrary: p s)
  case Nil
  then show ?case by (subst putstring.simps) simp
next
  case (Cons c cs)
  show ?case
  proof (cases "uart16550_putchar B c s")
    case None
    then show ?thesis using Cons.prems
      by (subst putstring.simps) (simp add: mcall_putchar_16550)
  next
    case (Some s1)
    note io = uart16550_putchar_io [OF Some]
    have "putstring B (p + 1) s1 = put_all (uart16550_putchar B) cs s1"
      using Cons.prems io(2) io_step_fields [OF io(1)] by (intro Cons.IH) simp_all
    then show ?thesis using Cons.prems Some
      by (subst putstring.simps) (simp add: mcall_putchar_16550)
  qed
qed

text \<open>A 16550 whose transmitter is always ready.\<close>

definition tx_ready :: "'d bus \<Rightarrow> u64 \<Rightarrow> bool" where
  "tx_ready B a \<longleftrightarrow> (\<forall>d. ucast (ucast (fst (bus_rd B 1 a d)) :: u8) AND UART_REG_STATUS_TX \<noteq> 0)"

lemma uart16550_putchar_ready:
  assumes "tx_ready B (uart16550_reg UART_REG_LSR s)"
  shows "\<exists>s'. uart16550_putchar B c s = Some s'"
proof -
  have "ucast (ucast (fst (mmio_rd B 1 (uart16550_reg UART_REG_LSR s) s)) :: u8) AND UART_REG_STATUS_TX \<noteq> 0"
    using assms by (auto simp: tx_ready_def mmio_rd_def split: prod.split) (metis fst_conv)
  then have "uart16550_wait B s = Some (snd (mmio_rd B 1 (uart16550_reg UART_REG_LSR s) s))"
    by (subst uart16550_wait.simps) (auto split: prod.split)
  then show ?thesis by (simp add: uart16550_putchar_def)
qed

lemma put_all_16550:
  "tx_ready B (uart16550_reg UART_REG_LSR s) \<Longrightarrow>
     \<exists>s'. put_all (uart16550_putchar B) cs s = Some s' \<and> io_step s s' \<and> ram s' = ram s \<and>
       sent s' = sent s @ map (\<lambda>c. (uart16550_reg UART_REG_QUEUE s, ucast c)) cs"
proof (induction cs arbitrary: s)
  case (Cons c cs)
  obtain s1 where s1: "uart16550_putchar B c s = Some s1"
    using uart16550_putchar_ready [OF Cons.prems] by blast
  note io = uart16550_putchar_io [OF s1]
  have "tx_ready B (uart16550_reg UART_REG_LSR s1)"
    using Cons.prems by (simp add: uart16550_reg_io [OF io(1)])
  from Cons.IH [OF this] s1 io show ?case
    using io_step_trans [OF io(1)] by (auto simp: uart16550_reg_io [OF io(1)])
qed simp

lemma printm_prints_runs:
  assumes "format_text (ram s) (printm_buf s) 256 (bytes_of fmt) vl = Some t" "length t < 2 ^ 64"
    and "0 \<notin> set t" "uart s = 0" "uart16550 s \<noteq> 0" "tx_ready B (uart16550_reg UART_REG_LSR s)"
  shows "\<exists>s'. printm B fmt vl s = Some s' \<and> io_step s s' \<and>
     sent s' = sent s @ map (\<lambda>c. (uart16550_reg UART_REG_QUEUE s, ucast c)) (take 255 t)"
proof -
  define m where "m = put_bytes st8 (ram s) (printm_buf s) (take 255 t @ [0])"
  have "vsnprintf (printm_buf s) 256 (bytes_of fmt) vl (ram s) = Some (of_nat (length t), m)"
    using vsnprintf_formats_runs [OF assms(1)] assms(2) by (simp add: m_def)
  moreover have "putstring B (printm_buf s) (s\<lparr>ram := m\<rparr>)
      = put_all (uart16550_putchar B) (take 255 t) (s\<lparr>ram := m\<rparr>)"
  proof -
    have "get_bytes ld8 m (printm_buf s) (length (take 255 t @ [0])) = take 255 t @ [0]"
      unfolding m_def by (rule ram_store.get_put_same) simp_all
    moreover have "0 \<notin> set (take 255 t)" using assms(3) by (meson in_set_takeD)
    ultimately have "cstr m (printm_buf s) (take 255 t)"
      using get_bytes_append [of ld8 m "printm_buf s" "length (take 255 t)" 1]
      by (auto simp: cstr_bytes)
    then show ?thesis
      using assms(4,5) by (intro putstring_16550) simp_all
  qed
  moreover have reg: "uart16550_reg r (s\<lparr>ram := m\<rparr>) = uart16550_reg r s" for r
    by (rule uart16550_reg_io) simp
  moreover obtain s' where "put_all (uart16550_putchar B) (take 255 t) (s\<lparr>ram := m\<rparr>) = Some s'"
      "io_step (s\<lparr>ram := m\<rparr>) s'"
      "sent s' = sent (s\<lparr>ram := m\<rparr>) @ map (\<lambda>c. (uart16550_reg UART_REG_QUEUE s, ucast c)) (take 255 t)"
    using put_all_16550 [of B "s\<lparr>ram := m\<rparr>" "take 255 t"] assms(6) reg by auto
  ultimately show ?thesis
    using io_step_trans [of s "s\<lparr>ram := m\<rparr>"] by (simp add: printm_def vprintm_def io_simps)
qed

theorem printm_prints:
  assumes "format_text (ram s) (printm_buf s) 256 (bytes_of fmt) vl = Some t" "length t < 2 ^ 64"
    and "0 \<notin> set t" "uart s = 0" "uart16550 s \<noteq> 0" "tx_ready B (uart16550_reg UART_REG_LSR s)"
  shows "\<exists>s'. printm B fmt vl s = Some s' \<and> io_step s s' \<and>
     sent s' = sent s @ map (\<lambda>c. (uart16550_reg UART_REG_QUEUE s, ucast c)) (take 255 t)"
  using assms by (rule printm_prints_runs)

text \<open>Powering off through the host does not return.\<close>

theorem htif_poweroff_never_returns: "htif_poweroff B s = None"
proof -
  have "False" if "htif_poweroff B s = Some s'" for s'
    using that
    by (rule htif_poweroff.raw_induct [where P = "\<lambda>B s s'. False", rotated])
  then show ?thesis by (cases "htif_poweroff B s") auto
qed

end
