(* ===== verification/Dma.thy ===== *)
theory Dma
  imports Console
begin

text \<open>
  The DMA driver \<^verbatim>\<open>src/pk/machine/dma.c\<close>: the transfer is refused when an address range wraps
  around, then the lock of the device is taken, the transfer is programmed and started, and
  the caller may wait for its end.
\<close>

definition DMA_START :: u32 where "DMA_START = 0"
definition DMA_LENGTH :: u32 where "DMA_LENGTH = 1"
definition DMA_SRC_ADDR_LSB :: u32 where "DMA_SRC_ADDR_LSB = 2"
definition DMA_SRC_ADDR_MSB :: u32 where "DMA_SRC_ADDR_MSB = 3"
definition DMA_DST_ADDR_LSB :: u32 where "DMA_DST_ADDR_LSB = 4"
definition DMA_DST_ADDR_MSB :: u32 where "DMA_DST_ADDR_MSB = 5"
definition DMA_DONE :: u32 where "DMA_DONE = 6"
definition DMA_LOCK :: u32 where "DMA_LOCK = 7"
definition DMA_END :: u32 where "DMA_END = 8"

text \<open>\<^verbatim>\<open>while (readFromAddress(dma, DMA_LOCK) != 2) { do_delay(..); writeToAddress(dma, DMA_LOCK, 2); }\<close>\<close>

partial_function (option) dma_lock_wait :: "'d bus \<Rightarrow> u64 \<Rightarrow> 'd world \<Rightarrow> 'd world option" where
  "dma_lock_wait B b s =
     (let (v, s) = readFromAddress B b DMA_LOCK s
      in if v \<noteq> 2 then dma_lock_wait B b (writeToAddress B b DMA_LOCK 2 (do_delay 100 s)) else Some s)"

partial_function (option) dma_done_wait :: "'d bus \<Rightarrow> u64 \<Rightarrow> 'd world \<Rightarrow> 'd world option" where
  "dma_done_wait B b s =
     (let (v, s) = readFromAddress B b DMA_DONE s
      in if v \<noteq> 1 then dma_done_wait B b (do_delay 100 s) else Some s)"

definition dma_transfer :: "'d bus \<Rightarrow> u64 \<Rightarrow> u64 \<Rightarrow> u32 \<Rightarrow> u32 \<Rightarrow> 'd world \<Rightarrow> (u32 \<times> 'd world) option" where
  "dma_transfer B sAddress dAddress len wait s =
     (let sAddress_lsb = ucast sAddress;
          sAddress_msb = ucast (drop_bit 32 sAddress);
          dAddress_lsb = ucast dAddress;
          dAddress_msb = ucast (drop_bit 32 dAddress)
      in if sAddress + ucast len < sAddress then Some (0, s)
         else if dAddress + ucast len < dAddress then Some (0, s)
         else do {
           let s = writeToAddress B (dma s) DMA_LOCK 2 s;
           s \<leftarrow> dma_lock_wait B (dma s) s;
           let s = writeToAddress B (dma s) DMA_DONE 0 s;
           let s = writeToAddress B (dma s) DMA_SRC_ADDR_LSB sAddress_lsb s;
           let s = writeToAddress B (dma s) DMA_SRC_ADDR_MSB sAddress_msb s;
           let s = writeToAddress B (dma s) DMA_DST_ADDR_LSB dAddress_lsb s;
           let s = writeToAddress B (dma s) DMA_DST_ADDR_MSB dAddress_msb s;
           let s = writeToAddress B (dma s) DMA_LENGTH len s;
           let s = writeToAddress B (dma s) DMA_START 0x01 s;
           let s = writeToAddress B (dma s) DMA_LOCK 0 s;
           s \<leftarrow> (if wait \<noteq> 0 then dma_done_wait B (dma s) s else Some s);
           Some (0, s) })"

definition dma_end :: "'d bus \<Rightarrow> 'd world \<Rightarrow> 'd world" where
  "dma_end B s = writeToAddress B (dma s) DMA_END 1 s"

definition dma_open :: "(reg_scan, 'd) node_cb" where "dma_open = reg_open"

definition dma_prop :: "fdt_prop \<Rightarrow> reg_scan \<times> 'd world \<Rightarrow> (reg_scan \<times> 'd world) option" where
  "dma_prop = reg_prop ''hd20,dma''"

definition dma_done :: "(reg_scan, 'd) node_cb" where
  "dma_done = reg_done dma (\<lambda>v s. s\<lparr>dma := v\<rparr>)"

definition query_dma :: "'d world \<Rightarrow> 'd world option" where
  "query_dma s = map_option snd (dma_done [] (\<lparr>rs_compat = 1, rs_reg = 0xfff5207000\<rparr>, s))"

section \<open>What a transfer does\<close>

lemma dma_done_wait_io:
  "dma_done_wait B b s = Some s' \<Longrightarrow> io_step s s' \<and> ram s' = ram s \<and> sent s' = sent s"
  (is "_ \<Longrightarrow> ?P B b s s'")
proof (rule dma_done_wait.raw_induct [where P = ?P, rotated])
  fix f and B :: "'a bus" and b s s'
  assume IH: "\<And>B b s s'. f B b s = Some s' \<Longrightarrow> ?P B b s s'"
    and eq: "(let (v, s) = readFromAddress B b DMA_DONE s
      in if v \<noteq> 1 then f B b (do_delay 100 s) else Some s) = Some s'"
  let ?r = "readFromAddress B b DMA_DONE s"
  show "?P B b s s'"
  proof (cases "fst ?r = 1")
    case False
    then have "f B b (do_delay 100 (snd ?r)) = Some s'" using eq by (simp add: split_beta)
    note IH [OF this]
    moreover have "io_step s (do_delay 100 (snd ?r))"
      by (rule io_step_trans [OF io_step_access(1) io_step_intros(4)])
    ultimately show ?thesis
      using io_step_trans [of s "do_delay 100 (snd ?r)"] by (simp add: world_simps io_simps)
  next
    case True
    then have "s' = snd ?r" using eq by (simp add: split_beta)
    then show ?thesis by (simp add: world_simps io_simps)
  qed
qed

text \<open>Taking the lock repeats the request until the device confirms it.\<close>

lemma dma_lock_wait_io:
  "dma_lock_wait B b s = Some s' \<Longrightarrow>
     io_step s s' \<and> ram s' = ram s \<and> (\<exists>n. sent s' = sent s @ replicate n (reg_addr b DMA_LOCK, 2))"
  (is "_ \<Longrightarrow> ?P B b s s'")
proof (rule dma_lock_wait.raw_induct [where P = ?P, rotated])
  fix f and B :: "'a bus" and b s s'
  assume IH: "\<And>B b s s'. f B b s = Some s' \<Longrightarrow> ?P B b s s'"
    and eq: "(let (v, s) = readFromAddress B b DMA_LOCK s
      in if v \<noteq> 2 then f B b (writeToAddress B b DMA_LOCK 2 (do_delay 100 s)) else Some s) = Some s'"
  let ?r = "readFromAddress B b DMA_LOCK s"
  let ?s = "writeToAddress B b DMA_LOCK 2 (do_delay 100 (snd ?r))"
  show "?P B b s s'"
  proof (cases "fst ?r = 2")
    case False
    then have "f B b ?s = Some s'" using eq by (simp add: split_beta)
    note P = IH [OF this]
    then obtain n where n: "sent s' = sent ?s @ replicate n (reg_addr b DMA_LOCK, 2)" by blast
    have "io_step s ?s"
      by (rule io_step_trans [OF io_step_trans [OF io_step_access(1) io_step_intros(4)] io_step_access(2)])
    then have "io_step s s'" using P io_step_trans by blast
    moreover have "ram s' = ram s" using P by (simp add: world_simps)
    moreover have "sent s' = sent s @ replicate (Suc n) (reg_addr b DMA_LOCK, 2)"
      using n by (simp add: io_simps)
    ultimately show ?thesis by blast
  next
    case True
    then have "s' = snd ?r" using eq by (simp add: split_beta)
    then have "sent s' = sent s @ replicate 0 (reg_addr b DMA_LOCK, 2)" by (simp add: io_simps)
    then show ?thesis using \<open>s' = snd ?r\<close> by (simp add: world_simps)
  qed
qed

text \<open>The programming of a transfer, after the lock.\<close>

definition dma_program :: "u64 \<Rightarrow> u64 \<Rightarrow> u64 \<Rightarrow> u32 \<Rightarrow> (u64 \<times> u64) list" where
  "dma_program b src dst len =
     [(reg_addr b DMA_DONE, 0),
      (reg_addr b DMA_SRC_ADDR_LSB, take_bit 32 src), (reg_addr b DMA_SRC_ADDR_MSB, drop_bit 32 src),
      (reg_addr b DMA_DST_ADDR_LSB, take_bit 32 dst), (reg_addr b DMA_DST_ADDR_MSB, drop_bit 32 dst),
      (reg_addr b DMA_LENGTH, ucast len), (reg_addr b DMA_START, 1), (reg_addr b DMA_LOCK, 0)]"

definition dma_wraps :: "u64 \<Rightarrow> u32 \<Rightarrow> bool" where
  "dma_wraps a len \<longleftrightarrow> 2 ^ 64 \<le> unat a + unat len"

lemma wraps_iff: "a + ucast (len :: u32) < (a :: u64) \<longleftrightarrow> dma_wraps a len"
proof -
  have len: "unat (ucast len :: u64) = unat len" "unat len < 2 ^ 32"
    using unat_u32_less [of len] by simp_all
  show ?thesis
  proof (cases "unat a + unat len < 2 ^ 64")
    case True
    then show ?thesis using len by (simp add: word_less_nat_alt unat_add_no_wrap dma_wraps_def)
  next
    case False
    then have "unat (a + ucast len) = unat a + unat len - 2 ^ 64"
      using len unat_u64_less [of a] by (simp add: unat_word_ariths le_mod_geq)
    then show ?thesis
      using False len unat_u64_less [of a] by (simp add: word_less_nat_alt dma_wraps_def)
  qed
qed

lemma ucast_halves: "(ucast (ucast (a :: u64) :: u32) :: u64) = take_bit 32 a"
    "take_bit 32 (drop_bit 32 a) = drop_bit 32 a"
  by (rule bit_word_eqI, auto simp: bit_simps dest: bit_imp_le_length)+

lemma dma_transfer_wraps:
  assumes "dma_wraps src len \<or> dma_wraps dst len"
  shows "dma_transfer B src dst len wait s = Some (0, s)"
  using assms by (auto simp: dma_transfer_def wraps_iff)

lemma dma_transfer_runs:
  assumes "dma_transfer B src dst len wait s = Some (r, s')" "\<not> dma_wraps src len" "\<not> dma_wraps dst len"
  shows "\<exists>n. sent s' = sent s @ replicate (Suc n) (reg_addr (dma s) DMA_LOCK, 2) @ dma_program (dma s) src dst len
     \<and> ram s' = ram s \<and> io_step s s' \<and> r = 0"
proof -
  let ?s0 = "writeToAddress B (dma s) DMA_LOCK 2 s"
  let ?prog = "\<lambda>s1. writeToAddress B (dma s) DMA_LOCK 0 (writeToAddress B (dma s) DMA_START 1
      (writeToAddress B (dma s) DMA_LENGTH len
      (writeToAddress B (dma s) DMA_DST_ADDR_MSB (ucast (drop_bit 32 dst)) (writeToAddress B (dma s) DMA_DST_ADDR_LSB (ucast dst)
      (writeToAddress B (dma s) DMA_SRC_ADDR_MSB (ucast (drop_bit 32 src)) (writeToAddress B (dma s) DMA_SRC_ADDR_LSB (ucast src)
      (writeToAddress B (dma s) DMA_DONE 0 s1)))))))"
  obtain s1 where s1: "dma_lock_wait B (dma s) ?s0 = Some s1"
    using assms by (cases "dma_lock_wait B (dma s) ?s0") (auto simp: dma_transfer_def wraps_iff Let_def)
  have io1: "io_step s s1" using dma_lock_wait_io [OF s1] io_step_trans [OF io_step_access(2)] by blast
  have base: "dma s1 = dma s" using io_step_fields [OF io1] by simp
  obtain n where n: "sent s1 = sent s @ replicate (Suc n) (reg_addr (dma s) DMA_LOCK, 2)"
    using dma_lock_wait_io [OF s1] by (auto simp: io_simps)
  have s': "r = 0" "(if wait \<noteq> 0 then dma_done_wait B (dma s) (?prog s1) else Some (?prog s1)) = Some s'"
    using assms s1 base
    by (auto simp: dma_transfer_def wraps_iff Let_def bind_eq_Some_conv split: if_splits)
  have io2: "io_step s (?prog s1)" using io1 by (intro io_step_trans [OF _ io_step_access(2)])
  have prog: "sent (?prog s1) = sent s1 @ dma_program (dma s) src dst len" "ram (?prog s1) = ram s"
    using dma_lock_wait_io [OF s1] by (simp_all add: io_simps world_simps dma_program_def ucast_halves)
  have "sent s' = sent (?prog s1) \<and> ram s' = ram (?prog s1) \<and> io_step (?prog s1) s'"
    using s'(2) dma_done_wait_io by (cases "wait = 0") auto
  then show ?thesis using n prog s'(1) io_step_trans [OF io2] by auto
qed

theorem dma_transfer_refuses_wrap:
  assumes "dma_wraps src len \<or> dma_wraps dst len"
  shows "dma_transfer B src dst len wait s = Some (0, s)"
  using assms by (rule dma_transfer_wraps)

theorem dma_transfer_programs:
  assumes "dma_transfer B src dst len wait s = Some (r, s')" "\<not> dma_wraps src len" "\<not> dma_wraps dst len"
  shows "\<exists>n. sent s' = sent s @ replicate (Suc n) (reg_addr (dma s) DMA_LOCK, 2) @ dma_program (dma s) src dst len
     \<and> ram s' = ram s \<and> io_step s s' \<and> r = 0"
  using assms by (rule dma_transfer_runs)

lemma query_dma_claims:
  "query_dma s = Some (if dma s = 0 then s\<lparr>dma := 0xfff5207000\<rparr> else s)"
  by (simp add: query_dma_def dma_done_def reg_done_def)

end
