(* ===== verification/Hash.thy ===== *)
theory Hash
  imports Console
begin

text \<open>
  The hash drivers \<^verbatim>\<open>src/pk/machine/sha256.c\<close>, \<^verbatim>\<open>sha2562.c\<close> and \<^verbatim>\<open>hmac.c\<close>. The local buffer
  of the SHA-256 driver is at the address \<open>message\<close>; it is overwritten on every turn and dead
  afterwards.
\<close>

section \<open>SHA-256\<close>

text \<open>
  The two SHA-256 drivers are the same code on two engines, so they share the definitions,
  over the device pointer \<open>ptr\<close> that the code reads before every access.
\<close>

definition SHA256_READY :: u32 where "SHA256_READY = 0"
definition SHA256_NEXT_INIT :: u32 where "SHA256_NEXT_INIT = 0"
definition SHA256_TEXT_BASE :: u32 where "SHA256_TEXT_BASE = 1"
definition SHA256_VALID :: u32 where "SHA256_VALID = 17"
definition SHA256_HASH_BASE :: u32 where "SHA256_HASH_BASE = 18"

text \<open>
  \<^verbatim>\<open>sha256_addPadding\<close>: the loop of the code from \<open>i\<close> up to the end of the size field, and the
  number of bytes it adds.
\<close>

function sha_pad_loop :: "u64 \<Rightarrow> u64 \<Rightarrow> nat \<Rightarrow> nat \<Rightarrow> nat \<Rightarrow> ram \<Rightarrow> ram" where
  "sha_pad_loop bits buffer startByte sizeStartByte i m =
     (if i < sizeStartByte + 8 then
        sha_pad_loop bits buffer startByte sizeStartByte (Suc i)
          (st8 m (buffer + of_nat i)
            (if i = startByte then 0x80
             else if i \<ge> sizeStartByte then
               (let offset = i - sizeStartByte; shftAmnt = 56 - 8 * offset in ucast (drop_bit shftAmnt bits AND 0xFF))
             else 0))
      else m)"
  by pat_completeness auto
termination
  by (relation "measure (\<lambda>(bits, buffer, startByte, sizeStartByte, i, m). sizeStartByte + 8 - i)") auto

declare sha_pad_loop.simps [simp del]

definition sha256_addPadding :: "u64 \<Rightarrow> u64 \<Rightarrow> ram \<Rightarrow> nat \<times> ram" where
  "sha256_addPadding bits buffer m =
     (let extraBits = unat (bits mod 512);
          paddingBits = (if extraBits > 448 then 2 * 512 - extraBits else 512 - extraBits);
          startByte = extraBits div 8;
          sizeStartByte = startByte + (paddingBits div 8 - 8)
      in (paddingBits div 8, sha_pad_loop bits buffer startByte sizeStartByte startByte m))"

definition sha2562_addPadding :: "u64 \<Rightarrow> u64 \<Rightarrow> ram \<Rightarrow> nat \<times> ram" where
  "sha2562_addPadding = sha256_addPadding"

text \<open>\<^verbatim>\<open>while(length < SHA256_TEXT_BYTES) ...\<close>: the bytes left to take are counted down.\<close>

primrec sha_copy_loop :: "nat \<Rightarrow> ram \<Rightarrow> u64 \<Rightarrow> u64 \<Rightarrow> u32 \<Rightarrow> bool \<times> u64 \<times> u32 \<times> ram" where
  "sha_copy_loop 0 m pString msg_ptr totalBytes = (False, pString, totalBytes, m)"
| "sha_copy_loop (Suc k) m pString msg_ptr totalBytes =
     (if ld8 m pString = 0 then (True, pString, totalBytes, m)
      else sha_copy_loop k (st8 m msg_ptr (ld8 m pString)) (pString + 1) (msg_ptr + 1) (totalBytes + 1))"

text \<open>Sending one block that \<open>send\<close> loads: ready, load, strobe, delay, valid.\<close>

definition sha_block ::
    "('d world \<Rightarrow> u64) \<Rightarrow> 'd bus \<Rightarrow> (u64 \<Rightarrow> 'd world \<Rightarrow> 'd world) \<Rightarrow> u32 \<Rightarrow> 'd world \<Rightarrow> 'd world option" where
  "sha_block ptr B send strobe s =
     do { s \<leftarrow> wait_nonzero B (ptr s) SHA256_READY 1 s;
          let s = send (ptr s) s;
          let s = writeToAddress B (ptr s) SHA256_NEXT_INIT strobe s;
          let s = writeToAddress B (ptr s) SHA256_NEXT_INIT 0 s;
          let s = do_delay 20 s;
          wait_nonzero B (ptr s) SHA256_VALID 4 s }"

text \<open>One turn of \<^verbatim>\<open>while(!done)\<close>; \<open>message\<close> is the address of the local buffer.\<close>

definition sha_turn ::
    "('d world \<Rightarrow> u64) \<Rightarrow> 'd bus \<Rightarrow> u64 \<Rightarrow> u64 \<Rightarrow> bool \<Rightarrow> u32 \<Rightarrow> 'd world \<Rightarrow> (bool \<times> u64 \<times> u32 \<times> 'd world) option" where
  "sha_turn ptr B message pString firstTime totalBytes s =
     (let m = put_bytes st8 (ram s) message (replicate 128 0);
          (finished, pString, totalBytes, m) = sha_copy_loop 64 m pString message totalBytes;
          (addedBytes, m) = (if finished then sha256_addPadding (scast (totalBytes * 8)) message m else (0, m));
          s = s\<lparr>ram := m\<rparr>
      in do { s \<leftarrow> sha_block ptr B (\<lambda>b. writeMulticharToAddress B b SHA256_TEXT_BASE message 64)
                   (if firstTime then 1 else 2) s;
              s \<leftarrow> (if addedBytes > 64
                   then sha_block ptr B (\<lambda>b. writeMultiToAddress B b SHA256_TEXT_BASE (message + 64) 16) 2 s
                   else Some s);
              Some (finished, pString, totalBytes, s) })"

partial_function (option) sha_turns ::
    "('d world \<Rightarrow> u64) \<Rightarrow> 'd bus \<Rightarrow> u64 \<Rightarrow> u64 \<Rightarrow> bool \<Rightarrow> u32 \<Rightarrow> 'd world \<Rightarrow> 'd world option" where
  "sha_turns ptr B message pString firstTime totalBytes s =
     do { (finished, pString, totalBytes, s) \<leftarrow> sha_turn ptr B message pString firstTime totalBytes s;
          if finished then Some s else sha_turns ptr B message pString False totalBytes s }"

definition sha_hashString ::
    "('d world \<Rightarrow> u64) \<Rightarrow> 'd bus \<Rightarrow> u64 \<Rightarrow> u64 \<Rightarrow> u64 \<Rightarrow> 'd world \<Rightarrow> (u32 \<times> 'd world) option" where
  "sha_hashString ptr B message pString hash s =
     do { s \<leftarrow> sha_turns ptr B message pString True 0 s;
          Some (0, readMultiFromAddress B (ptr s) SHA256_HASH_BASE hash 8 s) }"

definition sha256_hashString :: "'d bus \<Rightarrow> u64 \<Rightarrow> u64 \<Rightarrow> u64 \<Rightarrow> 'd world \<Rightarrow> (u32 \<times> 'd world) option" where
  "sha256_hashString = sha_hashString sha256"

definition sha2562_hashString :: "'d bus \<Rightarrow> u64 \<Rightarrow> u64 \<Rightarrow> u64 \<Rightarrow> 'd world \<Rightarrow> (u32 \<times> 'd world) option" where
  "sha2562_hashString = sha_hashString sha2562"

definition sha256_open :: "(reg_scan, 'd) node_cb" where "sha256_open = reg_open"

definition sha256_prop :: "fdt_prop \<Rightarrow> reg_scan \<times> 'd world \<Rightarrow> (reg_scan \<times> 'd world) option" where
  "sha256_prop = reg_prop ''hd20,sha2560''"

definition sha256_done :: "(reg_scan, 'd) node_cb" where
  "sha256_done = reg_done sha256 (\<lambda>v s. s\<lparr>sha256 := v\<rparr>)"

definition query_sha256 :: "'d world \<Rightarrow> 'd world option" where
  "query_sha256 s = map_option snd (sha256_done [] (\<lparr>rs_compat = 1, rs_reg = 0xfff5202000\<rparr>, s))"

definition sha2562_open :: "(reg_scan, 'd) node_cb" where "sha2562_open = reg_open"

definition sha2562_prop :: "fdt_prop \<Rightarrow> reg_scan \<times> 'd world \<Rightarrow> (reg_scan \<times> 'd world) option" where
  "sha2562_prop = reg_prop ''hd20,sha2562''"

definition sha2562_done :: "(reg_scan, 'd) node_cb" where
  "sha2562_done = reg_done sha2562 (\<lambda>v s. s\<lparr>sha2562 := v\<rparr>)"

definition sha2562_cb :: "(reg_scan, 'd) fdt_cb" where
  "sha2562_cb = \<lparr>cb_open = Some sha2562_open, cb_prop = sha2562_prop, cb_done = Some sha2562_done, cb_close = None\<rparr>"

text \<open>The scan record is not initialised before the scan: its fields are arguments.\<close>

definition query_sha2562 :: "u64 \<Rightarrow> reg_scan \<Rightarrow> 'd world \<Rightarrow> 'd world option" where
  "query_sha2562 fdt scan s = map_option snd (fdt_scan fdt sha2562_cb (scan, s))"

section \<open>HMAC\<close>

definition HMAC_READY :: u32 where "HMAC_READY = 0"
definition HMAC_NEXT_INIT :: u32 where "HMAC_NEXT_INIT = 0"
definition HMAC_TEXT_BASE :: u32 where "HMAC_TEXT_BASE = 1"
definition HMAC_VALID :: u32 where "HMAC_VALID = 17"
definition HMAC_HASH_BASE :: u32 where "HMAC_HASH_BASE = 18"
definition HMAC_KEY_BASE :: u32 where "HMAC_KEY_BASE = 26"

definition hmac_hashString :: "'d bus \<Rightarrow> u64 \<Rightarrow> u64 \<Rightarrow> u32 \<Rightarrow> 'd world \<Rightarrow> (u32 \<times> 'd world) option" where
  "hmac_hashString B pString hash use_key_hash s =
     do { s \<leftarrow> wait_nonzero B (hmac s) HMAC_READY 1 s;
          let s = writeMulticharToAddress B (hmac s) HMAC_TEXT_BASE pString 64 s;
          let s = (if use_key_hash \<noteq> 0
                   then writeToAddress B (hmac s) HMAC_NEXT_INIT 4 (writeToAddress B (hmac s) HMAC_NEXT_INIT 5 s)
                   else writeToAddress B (hmac s) HMAC_NEXT_INIT 0 (writeToAddress B (hmac s) HMAC_NEXT_INIT 1 s));
          let s = do_delay 20 s;
          s \<leftarrow> wait_nonzero B (hmac s) HMAC_VALID 4 s;
          Some (0, readMultiFromAddress B (hmac s) HMAC_HASH_BASE hash 8 s) }"

definition hmac_open :: "(reg_scan, 'd) node_cb" where "hmac_open = reg_open"

definition hmac_prop :: "fdt_prop \<Rightarrow> reg_scan \<times> 'd world \<Rightarrow> (reg_scan \<times> 'd world) option" where
  "hmac_prop = reg_prop ''hd20,hmac''"

definition hmac_done :: "(reg_scan, 'd) node_cb" where
  "hmac_done = reg_done hmac (\<lambda>v s. s\<lparr>hmac := v\<rparr>)"

definition query_hmac :: "'d world \<Rightarrow> 'd world option" where
  "query_hmac s = map_option snd (hmac_done [] (\<lparr>rs_compat = 1, rs_reg = 0xfff5203000\<rparr>, s))"
section \<open>Padding\<close>

text \<open>
  The padding of FIPS 180-4 for a message of \<open>len\<close> bytes: a one bit, zeros up to 56 bytes of
  the last block, the length in bits as a 64-bit big-endian number.
\<close>

definition be64 :: "u64 \<Rightarrow> u8 list" where
  "be64 w = map (\<lambda>j. ucast (drop_bit (56 - 8 * j) w)) [0..<8]"

definition fips_pad :: "nat \<Rightarrow> u8 list" where
  "fips_pad len = 0x80 # replicate ((119 - len mod 64) mod 64) 0 @ be64 (of_nat (8 * len))"

lemma length_be64 [simp]: "length (be64 w) = 8"
  by (simp add: be64_def)

lemma fips_zeros:
  "l < 64 \<Longrightarrow> (119 - l) mod 64 = (if l \<le> 55 then 55 - l else 119 - l :: nat)"
proof -
  assume "l < 64"
  show ?thesis
  proof (cases "l \<le> 55")
    case True
    then have "119 - l = 55 - l + 64" by simp
    then show ?thesis using True by (simp only: mod_add_self2) simp
  qed (use \<open>l < 64\<close> in simp)
qed

lemma length_fips_pad: "length (fips_pad len) = (if len mod 64 \<le> 55 then 64 - len mod 64 else 128 - len mod 64)"
  by (simp add: fips_pad_def fips_zeros)

lemma ucast_and_FF: "(ucast ((w :: u64) AND 0xFF) :: u8) = ucast w"
proof -
  have "w AND 0xFF = take_bit 8 w" by (simp add: take_bit_eq_mask mask_eq_exp_minus_1)
  then show ?thesis by (simp only:) (rule bit_word_eqI, simp add: bit_simps)
qed

definition pad_byte :: "u64 \<Rightarrow> nat \<Rightarrow> nat \<Rightarrow> nat \<Rightarrow> u8" where
  "pad_byte bits st sz i = (if i = st then 0x80 else if i \<ge> sz then ucast (drop_bit (56 - 8 * (i - sz)) bits) else 0)"

lemma sha_pad_loop_bytes:
  "sha_pad_loop bits buf st sz i m = put_bytes st8 m (buf + of_nat i) (map (pad_byte bits st sz) [i..<sz + 8])"
proof (induction bits buf st sz i m rule: sha_pad_loop.induct)
  case (1 bits buf st sz i m)
  show ?case
  proof (cases "i < sz + 8")
    case True
    have b: "(if i = st then 0x80 else if i \<ge> sz then
        (let offset = i - sz; shftAmnt = 56 - 8 * offset in ucast (drop_bit shftAmnt bits AND 0xFF)) else 0)
        = pad_byte bits st sz i"
      by (simp add: pad_byte_def Let_def ucast_and_FF)
    have "sha_pad_loop bits buf st sz i m
        = sha_pad_loop bits buf st sz (Suc i) (st8 m (buf + of_nat i) (pad_byte bits st sz i))"
      by (subst sha_pad_loop.simps) (simp only: True if_True b)
    also have "\<dots> = put_bytes st8 (st8 m (buf + of_nat i) (pad_byte bits st sz i)) (buf + of_nat (Suc i))
        (map (pad_byte bits st sz) [Suc i..<sz + 8])"
      using 1 [OF True] unfolding b .
    finally show ?thesis
      by (simp only: upt_conv_Cons [OF True] list.map put_bytes.simps) (simp add: ac_simps)
  qed (simp add: sha_pad_loop.simps [of bits buf st sz i])
qed

lemma pad_bytes_list:
  assumes "st < sz"
  shows "map (pad_byte bits st sz) [st..<sz + 8] = 0x80 # replicate (sz - st - 1) 0 @ be64 bits"
proof (rule nth_equalityI)
  fix k assume "k < length (map (pad_byte bits st sz) [st..<sz + 8])"
  then have k: "k < sz + 8 - st" by simp
  then show "map (pad_byte bits st sz) [st..<sz + 8] ! k = (0x80 # replicate (sz - st - 1) 0 @ be64 bits) ! k"
    using assms by (auto simp: pad_byte_def nth_Cons' nth_append be64_def Let_def add.commute)
qed (use assms in simp)

text \<open>The code pads as the standard says, except when the last block holds exactly 56 bytes.\<close>

lemma addPadding_parts:
  assumes "len < 2 ^ 60"
  shows "sha256_addPadding (of_nat (8 * len)) buf m =
    (let l = len mod 64; n = (if l > 56 then 128 - l else 64 - l) in
     (n, put_bytes st8 m (buf + of_nat l) (map (pad_byte (of_nat (8 * len)) l (l + (n - 8))) [l..<l + n])))"
proof -
  have "unat (of_nat (8 * len) mod 512 :: u64) = 8 * len mod 512"
    using assms unat_of_nat_u64 [of "8 * len"] by (simp only: unat_mod_distrib) simp
  also have "\<dots> = 8 * (len mod 64)" by (simp add: mult_mod_right)
  finally have "unat (of_nat (8 * len) mod 512 :: u64) = 8 * (len mod 64)" .
  then have st: "unat (of_nat (8 * len) mod 512 :: u64) div 8 = len mod 64"
    and ex: "unat (of_nat (8 * len) mod 512 :: u64) = 8 * (len mod 64)" by simp_all
  have "2 * 512 - 8 * (len mod 64) = 8 * (128 - len mod 64)" "512 - 8 * (len mod 64) = 8 * (64 - len mod 64)"
    by simp_all
  then have pad: "(if 8 * (len mod 64) > 448 then 2 * 512 - 8 * (len mod 64) else 512 - 8 * (len mod 64)) div 8
      = (if len mod 64 > 56 then 128 - len mod 64 else 64 - len mod 64)"
    by simp
  have "len mod 64 < 64" by simp
  then show ?thesis
    unfolding sha256_addPadding_def Let_def sha_pad_loop_bytes st ex pad by simp
qed

lemma sha256_padding_fips_runs:
  assumes "len < 2 ^ 60" "len mod 64 \<noteq> 56"
  shows "sha256_addPadding (of_nat (8 * len)) buf m =
     (length (fips_pad len), put_bytes st8 m (buf + of_nat (len mod 64)) (fips_pad len))"
proof -
  define l where "l = len mod 64"
  have l: "l < 64" "l \<noteq> 56" using assms by (simp_all add: l_def)
  let ?n = "if l > 56 then 128 - l else 64 - l"
  have "map (pad_byte (of_nat (8 * len)) l (l + (?n - 8))) [l..<(l + (?n - 8)) + 8] = fips_pad len"
    using l by (subst pad_bytes_list) (auto simp: fips_pad_def fips_zeros l_def [symmetric])
  moreover have "(l + (?n - 8)) + 8 = l + ?n" using l by auto
  ultimately have "map (pad_byte (of_nat (8 * len)) l (l + (?n - 8))) [l..<l + ?n] = fips_pad len"
    by metis
  moreover have "?n = length (fips_pad len)" using l by (auto simp: length_fips_pad l_def)
  ultimately show ?thesis
    unfolding addPadding_parts [OF assms(1)] Let_def l_def [symmetric] by simp
qed

theorem sha256_padding_fips:
  assumes "len < 2 ^ 60" "len mod 64 \<noteq> 56"
  shows "sha256_addPadding (of_nat (8 * len)) buf m =
     (length (fips_pad len), put_bytes st8 m (buf + of_nat (len mod 64)) (fips_pad len))"
  using assms by (rule sha256_padding_fips_runs)

text \<open>
  With exactly 56 bytes in the last block (\<^verbatim>\<open>extraBits > 448\<close> where the standard needs
  \<^verbatim>\<open>>=\<close>) the code adds 8 bytes, not 72: the marker lands on the first byte of the length and
  no second block is made.
\<close>

theorem sha256_padding_56:
  assumes "len < 2 ^ 60" "len mod 64 = 56"
  shows "sha256_addPadding (of_nat (8 * len)) buf m =
     (8, put_bytes st8 m (buf + 56) (0x80 # tl (be64 (of_nat (8 * len))))) \<and> length (fips_pad len) = 72"
proof -
  have "map (pad_byte (of_nat (8 * len)) 56 56) [56..<64] = 0x80 # tl (be64 (of_nat (8 * len)))"
    by (simp add: pad_byte_def be64_def upt_rec)
  then show ?thesis
    unfolding addPadding_parts [OF assms(1)] Let_def assms(2) by (simp add: length_fips_pad assms(2))
qed

section \<open>What the engine is sent\<close>

lemma cstr_transfer:
  assumes "cstr m a bs" "\<And>i. i \<le> length bs \<Longrightarrow> ld8 m' (a + of_nat i) = ld8 m (a + of_nat i)"
  shows "cstr m' a bs"
proof -
  have "get_bytes ld8 m' a (length bs) = get_bytes ld8 m a (length bs)"
    using assms(2) by (intro get_bytes_cong) simp
  then show ?thesis using assms by (simp add: cstr_bytes)
qed

lemma cstr_put:
  assumes "cstr m a bs" "apart d (length xs) a (Suc (length bs))"
  shows "cstr (put_bytes st8 m d xs) a bs"
proof (rule cstr_transfer [OF assms(1)])
  fix i assume "i \<le> length bs"
  then show "ld8 (put_bytes st8 m d xs) (a + of_nat i) = ld8 m (a + of_nat i)"
    using assms(2) by (intro ram_store.rd_put_outside) (metis apart_def less_Suc_eq_le)
qed

lemma sha_copy_loop_takes:
  "cstr m p cs \<Longrightarrow> apart d k p (Suc (length cs)) \<Longrightarrow>
     sha_copy_loop k m p d tot =
       (length cs < k, p + of_nat (min k (length cs)), tot + of_nat (min k (length cs)), put_bytes st8 m d (take k cs))"
proof (induction k arbitrary: m p d tot cs)
  case (Suc k)
  show ?case
  proof (cases cs)
    case Nil
    then show ?thesis using Suc.prems by simp
  next
    case (Cons c cs')
    have ap: "apart (d + of_nat 1) k (p + of_nat 1) (Suc (length cs'))"
      using Suc.prems(2) Cons by (intro apart_offset) auto
    have "apart (d + of_nat 0) 1 (p + of_nat 1) (Suc (length cs'))"
      using Suc.prems(2) Cons by (intro apart_offset) auto
    then have "cstr (st8 m d c) (p + 1) cs'"
      using Suc.prems Cons cstr_put [of m "p + 1" cs' d "[c]"] by simp
    from Suc.IH [OF this] ap show ?thesis
      using Suc.prems Cons by (simp add: add.assoc)
  qed
qed simp

text \<open>A native word is the byte-swapped big-endian word.\<close>

lemma ld_words_be: "ld_words m a n = map bswap (be_words (get_bytes ld8 m a (4 * n)))"
proof (induction n arbitrary: a)
  case (Suc n)
  have "4 * Suc n = Suc (Suc (Suc (Suc (4 * n))))" by simp
  moreover have "ld32 m a = bswap (be_word (get_bytes ld8 m a 4))"
    by (simp add: ld32_def bswap_big_endian [symmetric])
  ultimately show ?case using Suc [of "a + 4"] by (simp add: numeral_eq_Suc add.assoc)
qed simp

definition block_cmds :: "u64 \<Rightarrow> bool \<Rightarrow> u32 list \<Rightarrow> (u64 \<times> u64) list" where
  "block_cmds b first ws = block_writes (reg_addr b SHA256_TEXT_BASE) ws @
     [(reg_addr b SHA256_NEXT_INIT, if first then 1 else 2), (reg_addr b SHA256_NEXT_INIT, 0)]"

lemma sha_block_sends:
  assumes "sha_block ptr B send (if first then 1 else 2) s = Some s'"
    and "\<And>s s'. io_step s s' \<Longrightarrow> ptr s' = ptr s"
    and "\<And>s. io_step s (send b s) \<and> ram (send b s) = ram s
           \<and> sent (send b s) = sent s @ block_writes (reg_addr b SHA256_TEXT_BASE) (ws (ram s))"
    and "ptr s = b"
  shows "io_step s s'" "ram s' = ram s" "sent s' = sent s @ block_cmds b first (ws (ram s))"
proof -
  let ?st = "if first then 1 else 2 :: u32"
  obtain s1 where s1: "wait_nonzero B b SHA256_READY 1 s = Some s1"
    using assms by (cases "wait_nonzero B b SHA256_READY 1 s") (auto simp: sha_block_def)
  note w1 = wait_nonzero_frame [OF s1]
  have ptr: "ptr s' = b" if "io_step s1 s'" for s'
    using assms(2) [OF that] assms(2) [OF w1(1)] assms(4) by simp
  let ?s2 = "writeToAddress B b SHA256_NEXT_INIT 0 (writeToAddress B b SHA256_NEXT_INIT ?st (send b s1))"
  let ?s3 = "do_delay 20 ?s2"
  have io: "io_step s1 (send b s1)" using assms(3) by blast
  have io2: "io_step s1 (writeToAddress B b SHA256_NEXT_INIT ?st (send b s1))" "io_step s1 ?s2" "io_step s1 ?s3"
    using io by (blast intro: io_step_extend)+
  have "wait_nonzero B b SHA256_VALID 4 ?s3 = Some s'"
    using assms(1) s1 ptr [OF io_step_refl] ptr [OF io] ptr [OF io2(1)] ptr [OF io2(2)] ptr [OF io2(3)]
    by (simp add: sha_block_def Let_def assms(4))
  note w2 = wait_nonzero_frame [OF this]
  show "io_step s s'" using w1(1) io2(3) w2(1) io_step_trans by blast
  show "ram s' = ram s" using w1 w2 assms(3) by (simp add: world_simps)
  show "sent s' = sent s @ block_cmds b first (ws (ram s))"
    using w1 w2 assms(3) by (simp add: io_simps block_cmds_def)
qed

lemma multichar_block:
  "io_step s (writeMulticharToAddress B b SHA256_TEXT_BASE message 64 s) \<and>
   ram (writeMulticharToAddress B b SHA256_TEXT_BASE message 64 s) = ram s \<and>
   sent (writeMulticharToAddress B b SHA256_TEXT_BASE message 64 s) = sent s @
     block_writes (reg_addr b SHA256_TEXT_BASE) (be_words (get_bytes ld8 (ram s) message 64))"
  using writeMultichar_sends_runs [of 16 B b SHA256_TEXT_BASE message s] by (simp add: world_simps)

lemma multi_block:
  "io_step s (writeMultiToAddress B b SHA256_TEXT_BASE p 16 s) \<and>
   ram (writeMultiToAddress B b SHA256_TEXT_BASE p 16 s) = ram s \<and>
   sent (writeMultiToAddress B b SHA256_TEXT_BASE p 16 s) = sent s @
     block_writes (reg_addr b SHA256_TEXT_BASE) (map bswap (be_words (get_bytes ld8 (ram s) p 64)))"
  using ld_words_be [of "ram s" p 16] by (simp add: world_simps writeMulti_sends)

text \<open>
  The commands for the rest \<open>cs\<close> of a message of which \<open>tot\<close> bytes are already sent. A second
  padding block goes out in native words, byte-swapped with respect to the standard.
\<close>

function sha_cmds :: "u64 \<Rightarrow> bool \<Rightarrow> nat \<Rightarrow> u8 list \<Rightarrow> (u64 \<times> u64) list" where
  "sha_cmds b first tot cs =
     (if length cs < 64 then
        (let p = cs @ fips_pad (tot + length cs)
         in block_cmds b first (be_words (take 64 p)) @
            (if length p > 64 then block_cmds b False (map bswap (be_words (drop 64 p))) else []))
      else block_cmds b first (be_words (take 64 cs)) @ sha_cmds b False (tot + 64) (drop 64 cs))"
  by pat_completeness auto
termination by (relation "measure (\<lambda>(b, first, tot, cs). length cs)") auto

declare sha_cmds.simps [simp del]

lemma turn_zeroed:
  assumes "apart message 128 p (Suc (length cs))" "cstr m p cs"
  shows "cstr (put_bytes st8 m message (replicate 128 0)) p cs"
  using assms by (intro cstr_put) auto

lemma scast_u32_of_nat:
  assumes "n < 2 ^ 31"
  shows "(scast (of_nat n :: u32) :: u64) = of_nat n"
proof -
  have "sint (of_nat n :: u32) = int n"
    using assms by (simp only: signed_of_nat) (simp add: signed_take_bit_int_eq_self)
  then have "(scast (of_nat n :: u32) :: u64) = word_of_int (int n)"
    by (metis signed_of_int word_of_int_uint scast_eq)
  then show ?thesis by simp
qed

lemma cstr_drop: "cstr m a bs \<Longrightarrow> k \<le> length bs \<Longrightarrow> cstr m (a + of_nat k) (drop k bs)"
proof (induction k arbitrary: a bs)
  case (Suc k)
  then obtain b bs' where bs: "bs = b # bs'" by (cases bs) auto
  with Suc show ?case using Suc.IH [of "a + 1" bs'] by (simp add: add.assoc)
qed simp

lemma get_bytes_split:
  assumes "get_bytes rd m a (length xs) = xs" "k \<le> length xs"
  shows "get_bytes rd m a k = take k xs \<and> get_bytes rd m (a + of_nat k) (length xs - k) = drop k xs"
proof -
  have "get_bytes rd m a k @ get_bytes rd m (a + of_nat k) (length xs - k) = xs"
    using assms get_bytes_append [of rd m a k "length xs - k"] by simp
  then show ?thesis using append_eq_conv_conj [of "get_bytes rd m a k"] by (metis length_get_bytes)
qed

text \<open>
  What the driver needs of its device pointer: no access moves it. Both engines give it.
\<close>

locale device_ptr =
  fixes ptr :: "'d world \<Rightarrow> u64"
  assumes ptr_stable: "io_step s s' \<Longrightarrow> ptr s' = ptr s"
begin

lemmas block_multichar = sha_block_sends
  [where ptr = ptr and send = "\<lambda>b. writeMulticharToAddress B b SHA256_TEXT_BASE message 64"
    and ws = "\<lambda>m. be_words (get_bytes ld8 m message 64)" for B message, OF _ ptr_stable multichar_block refl]

lemmas block_multi = sha_block_sends
  [where ptr = ptr and send = "\<lambda>b. writeMultiToAddress B b SHA256_TEXT_BASE p 16"
    and ws = "\<lambda>m. map bswap (be_words (get_bytes ld8 m p 64))" for B p, OF _ ptr_stable multi_block refl]

text \<open>Whatever the message, a computation stays within a driver step.\<close>

lemma sha_turn_io:
  assumes "sha_turn ptr B message p first tot s = Some y"
  shows "io_step s (snd (snd (snd y)))"
proof -
  obtain m s1 where s1: "sha_block ptr B (\<lambda>b. writeMulticharToAddress B b SHA256_TEXT_BASE message 64)
        (if first then 1 else 2) (s\<lparr>ram := m\<rparr>) = Some s1"
      "snd (snd (snd y)) = s1 \<or> sha_block ptr B (\<lambda>b. writeMultiToAddress B b SHA256_TEXT_BASE (message + 64) 16)
        (if False then 1 else 2) s1 = Some (snd (snd (snd y)))"
    using assms by (auto simp: sha_turn_def Let_def split_beta bind_eq_Some_conv split: if_splits)
  have step: "io_step s s1" by (rule io_step_trans [OF io_step_intros(1) block_multichar(1) [OF s1(1)]])
  from s1(2) show ?thesis
  proof
    assume "snd (snd (snd y)) = s1"
    with step show ?thesis by simp
  next
    assume "sha_block ptr B (\<lambda>b. writeMultiToAddress B b SHA256_TEXT_BASE (message + 64) 16)
        (if False then 1 else 2) s1 = Some (snd (snd (snd y)))"
    from io_step_trans [OF step block_multi(1) [OF this]] show ?thesis .
  qed
qed

lemma sha_turns_io:
  assumes "sha_turns ptr B message p first tot s = Some s'"
  shows "io_step s s'"
proof -
  have "ptr = ptr \<longrightarrow> io_step s s'"
    using assms
  proof (rule sha_turns.raw_induct
      [where P = "\<lambda>q B message p first tot s s'. q = ptr \<longrightarrow> io_step s s'", rotated], intro impI)
    fix f q and B :: "'d bus" and message p first tot s s'
    assume IH: "\<And>q B message p first tot s s'. f q B message p first tot s = Some s' \<Longrightarrow> q = ptr \<longrightarrow> io_step s s'"
      and eq: "do { (finished, pString, totalBytes, s) \<leftarrow> sha_turn q B message p first tot s;
          if finished then Some s else f q B message pString False totalBytes s } = Some s'"
      and q: "q = ptr"
    from eq [unfolded q] obtain fin p1 tot1 s1 where turn: "sha_turn ptr B message p first tot s = Some (fin, p1, tot1, s1)"
        "s' = s1 \<or> f ptr B message p1 False tot1 s1 = Some s'"
      by (auto simp: bind_eq_Some_conv split: if_splits)
    have "io_step s s1" using sha_turn_io [OF turn(1)] by simp
    then show "io_step s s'" using turn(2) IH [of ptr] io_step_trans by blast
  qed
  then show ?thesis by simp
qed

lemma sha_hashString_io: "sha_hashString ptr B message p hash s = Some (r, s') \<Longrightarrow> io_step s s'"
  by (auto simp: sha_hashString_def bind_eq_Some_conv
      intro: io_step_trans [OF sha_turns_io io_step_readMulti])

lemma sha_turn_more:
  assumes "sha_turn ptr B message p first tot s = Some (f, p', tot', s')"
    and "cstr (ram s) p cs" "apart message 128 p (Suc (length cs))" "64 \<le> length cs"
  shows "\<not> f" "p' = p + 64" "tot' = tot + 64" "io_step s s'" "cstr (ram s') (p + 64) (drop 64 cs)"
    "sent s' = sent s @ block_cmds (ptr s) first (be_words (take 64 cs))"
proof -
  let ?z = "put_bytes st8 (ram s) message (replicate 128 0)"
  let ?m = "put_bytes st8 ?z message (take 64 cs)"
  have ap: "apart message 64 p (Suc (length cs))" using assms(3) by (rule apart_mono) simp_all
  then have copy: "sha_copy_loop 64 ?z p message tot = (False, p + 64, tot + 64, ?m)"
    using sha_copy_loop_takes [OF turn_zeroed [OF assms(3,2)] ap, of tot] assms(4) by simp
  then have res: "\<not> f" "p' = p + 64" "tot' = tot + 64"
    and blk: "sha_block ptr B (\<lambda>b. writeMulticharToAddress B b SHA256_TEXT_BASE message 64)
      (if first then 1 else 2) (s\<lparr>ram := ?m\<rparr>) = Some s'"
    using assms(1) by (auto simp: sha_turn_def Let_def bind_eq_Some_conv)
  show "\<not> f" "p' = p + 64" "tot' = tot + 64" by (rule res)+
  note io = block_multichar [OF blk]
  show "io_step s s'" using io(1) io_step_trans [OF io_step_intros(1)] by blast
  have "cstr ?m p cs" by (rule cstr_put [OF turn_zeroed [OF assms(3,2)]]) (use ap assms(4) in simp)
  then show "cstr (ram s') (p + 64) (drop 64 cs)"
    using io(2) cstr_drop [of ?m p cs 64] assms(4) by simp
  have "get_bytes ld8 ?m message 64 = take 64 cs"
    using assms(4) by (intro ram_store.get_put_same) auto
  then show "sent s' = sent s @ block_cmds (ptr s) first (be_words (take 64 cs))"
    using io(3) ptr_stable [of s "s\<lparr>ram := ?m\<rparr>"] by (simp add: io_simps)
qed

lemma sha_turn_last:
  assumes "sha_turn ptr B message p first (of_nat tot) s = Some (f, p', tot', s')"
    and "cstr (ram s) p cs" "apart message 128 p (Suc (length cs))" "length cs < 64"
    and "tot mod 64 = 0" "tot + length cs < 2 ^ 28" "(tot + length cs) mod 64 \<noteq> 56"
  shows "f" "io_step s s'" "sent s' = sent s @ sha_cmds (ptr s) first tot cs"
proof -
  let ?pad = "fips_pad (tot + length cs)"
  let ?z = "put_bytes st8 (ram s) message (replicate 128 0)"
  let ?m = "put_bytes st8 ?z message (cs @ ?pad)"
  have ap: "apart message 64 p (Suc (length cs))" using assms(3) by (rule apart_mono) simp_all
  then have copy: "sha_copy_loop 64 ?z p message (of_nat tot)
      = (True, p + of_nat (length cs), of_nat tot + of_nat (length cs), put_bytes st8 ?z message cs)"
    using sha_copy_loop_takes [OF turn_zeroed [OF assms(3,2)] ap, of "of_nat tot"] assms(4) by simp
  have "(of_nat tot + of_nat (length cs)) * 8 = (of_nat (8 * (tot + length cs)) :: u32)" by simp
  then have "scast ((of_nat tot + of_nat (length cs)) * 8 :: u32) = (of_nat (8 * (tot + length cs)) :: u64)"
    using assms(6) scast_u32_of_nat [of "8 * (tot + length cs)"] by (simp only:) simp
  moreover have l: "(tot + length cs) mod 64 = length cs" using assms(4,5) by (simp add: mod_add_left_eq [symmetric])
  ultimately have pad: "sha256_addPadding (scast ((of_nat tot + of_nat (length cs)) * 8 :: u32)) message
      (put_bytes st8 ?z message cs) = (length ?pad, ?m)"
    using sha256_padding_fips_runs [of "tot + length cs" message "put_bytes st8 ?z message cs"] assms(6,7)
    by (simp add: put_bytes_append)
  have n: "length ?pad = (if length cs \<le> 55 then 64 - length cs else 128 - length cs)" "length cs \<noteq> 56"
    using l assms(7) by (simp_all add: length_fips_pad)
  have pad_reach: "64 \<le> length (cs @ ?pad)" using n(1) assms(4) by auto
  have bytes: "get_bytes ld8 ?m message (length (cs @ ?pad)) = cs @ ?pad"
    using n(1) assms(4) by (intro ram_store.get_put_same) auto
  obtain s1 where s1: "sha_block ptr B (\<lambda>b. writeMulticharToAddress B b SHA256_TEXT_BASE message 64)
        (if first then 1 else 2) (s\<lparr>ram := ?m\<rparr>) = Some s1"
      "(if length ?pad > 64 then sha_block ptr B (\<lambda>b. writeMultiToAddress B b SHA256_TEXT_BASE (message + 64) 16) 2 s1
        else Some s1) = Some s'" and f: f
    using assms(1) unfolding sha_turn_def Let_def copy split_beta fst_conv snd_conv pad
    by (auto simp: bind_eq_Some_conv pad split del: if_split)
  note io1 = block_multichar [OF s1(1)]
  show f by (rule f)
  have ptr1: "ptr (s\<lparr>ram := ?m\<rparr>) = ptr s" by (rule ptr_stable) simp
  have step1: "io_step s s1" using io1(1) io_step_trans [OF io_step_intros(1)] by blast
  have sent1: "sent s1 = sent s @ block_cmds (ptr s) first (be_words (take 64 (cs @ ?pad)))"
  proof -
    have "get_bytes ld8 ?m message 64 = take 64 (cs @ ?pad)"
      using get_bytes_split [OF bytes pad_reach] by blast
    then show ?thesis using io1(3) ptr1 by (simp add: io_simps)
  qed
  have "io_step s s' \<and> sent s' = sent s @ sha_cmds (ptr s) first tot cs"
  proof (cases "length ?pad > 64")
    case True
    then have "length (cs @ ?pad) = 128" using n assms(4) by (auto split: if_splits)
    then have "get_bytes ld8 ?m (message + 64) 64 = drop 64 (cs @ ?pad)"
      using get_bytes_split [OF bytes pad_reach] by simp
    moreover have "sha_block ptr B (\<lambda>b. writeMultiToAddress B b SHA256_TEXT_BASE (message + 64) 16)
        (if False then 1 else 2) s1 = Some s'" using s1(2) True by simp
    note io2 = block_multi [OF this]
    ultimately show ?thesis
      using io2 sent1 step1 io_step_trans io1(2) ptr_stable [OF step1] \<open>length (cs @ ?pad) = 128\<close> assms(4)
      by (auto simp: sha_cmds.simps [of _ _ _ cs] Let_def)
  next
    case False
    then have "length (cs @ ?pad) = 64" using n assms(4) by (auto split: if_splits)
    then show ?thesis
      using s1(2) False sent1 step1 assms(4) by (simp add: sha_cmds.simps [of _ _ _ cs] Let_def)
  qed
  then show "io_step s s'" "sent s' = sent s @ sha_cmds (ptr s) first tot cs" by blast+
qed

lemma sha_turns_sends:
  "sha_turns ptr B message p first (of_nat tot) s = Some s' \<Longrightarrow> cstr (ram s) p cs \<Longrightarrow>
     apart message 128 p (Suc (length cs)) \<Longrightarrow> tot mod 64 = 0 \<Longrightarrow> tot + length cs < 2 ^ 28 \<Longrightarrow>
     (tot + length cs) mod 64 \<noteq> 56 \<Longrightarrow>
     io_step s s' \<and> sent s' = sent s @ sha_cmds (ptr s) first tot cs"
proof (induction cs arbitrary: p first tot s rule: measure_induct_rule [of length])
  case (less cs)
  obtain f p' tot' s1 where turn: "sha_turn ptr B message p first (of_nat tot) s = Some (f, p', tot', s1)"
      "(if f then Some s1 else sha_turns ptr B message p' False tot' s1) = Some s'"
    using less.prems(1) by (subst (asm) sha_turns.simps) (auto simp: bind_eq_Some_conv)
  show ?case
  proof (cases "length cs < 64")
    case True
    from sha_turn_last [OF turn(1) less.prems(2,3) True less.prems(4-6)] turn(2)
    show ?thesis by simp
  next
    case False
    then have len: "64 \<le> length cs" by simp
    note more = sha_turn_more [OF turn(1) less.prems(2,3) len]
    have "of_nat tot + 64 = (of_nat (tot + 64) :: u32)" by simp
    then have rest: "sha_turns ptr B message (p + 64) False (of_nat (tot + 64)) s1 = Some s'"
      using turn(2) more(1-3) by (simp only: if_False)
    have ap: "apart message 128 (p + 64) (Suc (length (drop 64 cs)))"
      using apart_offset [OF less.prems(3), of 0 128 64 "Suc (length cs - 64)"] len by simp
    have eq: "tot + 64 + length (drop 64 cs) = tot + length cs" using len by simp
    have "io_step s1 s' \<and> sent s' = sent s1 @ sha_cmds (ptr s1) False (tot + 64) (drop 64 cs)"
    proof (rule less.IH [OF _ rest more(5) ap])
      show "length (drop 64 cs) < length cs" using len by simp
    qed (use less.prems(4-6) in \<open>simp_all add: eq del: length_drop\<close>)
    then show ?thesis
      using more(4,6) io_step_trans [OF more(4)] ptr_stable [OF more(4)] False
      by (simp add: sha_cmds.simps [of _ _ _ cs])
  qed
qed

lemma sha_hashString_sends:
  assumes "sha_hashString ptr B message p hash s = Some (r, s')" "cstr (ram s) p cs"
    and "apart message 128 p (Suc (length cs))" "length cs < 2 ^ 28" "length cs mod 64 \<noteq> 56"
  shows "r = 0 \<and> io_step s s' \<and> sent s' = sent s @ sha_cmds (ptr s) True 0 cs"
proof -
  obtain s1 where s1: "sha_turns ptr B message p True (of_nat 0) s = Some s1" "r = 0"
      "s' = readMultiFromAddress B (ptr s1) SHA256_HASH_BASE hash 8 s1"
    using assms(1) by (auto simp: sha_hashString_def bind_eq_Some_conv)
  from sha_turns_sends [OF s1(1) assms(2,3)] assms(4,5) s1
  show ?thesis by (auto simp: io_simps)
qed

end

interpretation sha256_ptr: device_ptr sha256
  by unfold_locales (simp add: io_step_fields)

interpretation sha2562_ptr: device_ptr sha2562
  by unfold_locales (simp add: io_step_fields)

theorem sha256_hashString_sends:
  assumes "sha256_hashString B message p hash s = Some (r, s')" "cstr (ram s) p cs"
    and "apart message 128 p (Suc (length cs))" "length cs < 2 ^ 28" "length cs mod 64 \<noteq> 56"
  shows "r = 0 \<and> io_step s s' \<and> sent s' = sent s @ sha_cmds (sha256 s) True 0 cs"
  using sha256_ptr.sha_hashString_sends [OF _ assms(2-5)] assms(1) by (simp add: sha256_hashString_def)

theorem sha2562_hashString_sends:
  assumes "sha2562_hashString B message p hash s = Some (r, s')" "cstr (ram s) p cs"
    and "apart message 128 p (Suc (length cs))" "length cs < 2 ^ 28" "length cs mod 64 \<noteq> 56"
  shows "r = 0 \<and> io_step s s' \<and> sent s' = sent s @ sha_cmds (sha2562 s) True 0 cs"
  using sha2562_ptr.sha_hashString_sends [OF _ assms(2-5)] assms(1) by (simp add: sha2562_hashString_def)

text \<open>For a message whose padding fits its last block, these are the blocks of the standard.\<close>

fun fips_blocks :: "u8 list \<Rightarrow> u32 list list" where
  "fips_blocks bs = (if length bs < 64 then [] else be_words (take 64 bs) # fips_blocks (drop 64 bs))"

declare fips_blocks.simps [simp del]

lemma sha_cmds_fips:
  "tot mod 64 = 0 \<Longrightarrow> (tot + length cs) mod 64 < 56 \<Longrightarrow> fips_blocks (cs @ fips_pad (tot + length cs)) = w # ws \<Longrightarrow>
     sha_cmds b first tot cs = block_cmds b first w @ concat (map (block_cmds b False) ws)"
proof (induction b first tot cs arbitrary: w ws rule: sha_cmds.induct)
  case (1 b first tot cs)
  let ?pad = "fips_pad (tot + length cs)"
  show ?case
  proof (cases "length cs < 64")
    case True
    have "(tot + length cs) mod 64 = length cs" using True "1.prems"(1) by (simp add: mod_add_left_eq [symmetric])
    then have "length (cs @ ?pad) = 64" using True "1.prems"(2) by (simp add: length_fips_pad)
    then show ?thesis
      using "1.prems"(3) True
      by (simp add: sha_cmds.simps [of _ _ _ cs] Let_def fips_blocks.simps [of "cs @ ?pad"] fips_blocks.simps [of "[]"])
  next
    case False
    have eq: "tot + 64 + length (drop 64 cs) = tot + length cs" using False by simp
    have ws: "w = be_words (take 64 cs)" "ws = fips_blocks (drop 64 cs @ ?pad)"
      using "1.prems"(3) False by (simp_all add: fips_blocks.simps [of "cs @ ?pad"])
    have "(tot + length cs) mod 64 = (length cs - 64) mod 64"
      using False "1.prems"(1) by (metis eq length_drop mod_add_self2 mod_add_left_eq add_0)
    then have "(tot + length cs) mod 64 \<le> length cs - 64" by simp
    then have "64 \<le> length (drop 64 cs @ ?pad)" using "1.prems"(2) by (simp add: length_fips_pad)
    then have "ws \<noteq> []" using ws(2) by (simp add: fips_blocks.simps)
    then obtain w' ws' where "ws = w' # ws'" by (cases ws) auto
    then show ?thesis
      using "1.IH" [OF False, of w' ws'] "1.prems"(1,2) ws False
      by (simp add: sha_cmds.simps [of _ _ _ cs] eq del: length_drop)
  qed
qed

section \<open>HMAC\<close>

lemma hmac_hashString_runs:
  assumes "hmac_hashString B p hash use_key_hash s = Some (r, s')"
  shows "r = 0 \<and> io_step s s' \<and>
    sent s' = sent s @ block_writes (reg_addr (hmac s) HMAC_TEXT_BASE) (be_words (get_bytes ld8 (ram s) p 64)) @
      (if use_key_hash \<noteq> 0 then [(reg_addr (hmac s) HMAC_NEXT_INIT, 5), (reg_addr (hmac s) HMAC_NEXT_INIT, 4)]
       else [(reg_addr (hmac s) HMAC_NEXT_INIT, 1), (reg_addr (hmac s) HMAC_NEXT_INIT, 0)])"
proof -
  let ?b = "hmac s"
  obtain s1 where s1: "wait_nonzero B ?b HMAC_READY 1 s = Some s1"
    using assms by (cases "wait_nonzero B ?b HMAC_READY 1 s") (auto simp: hmac_hashString_def)
  note w1 = wait_nonzero_frame [OF s1] and b1 = io_step_fields [OF wait_nonzero_frame(1) [OF s1]]
  let ?x = "writeMulticharToAddress B ?b HMAC_TEXT_BASE p 64 s1"
  let ?y = "if use_key_hash \<noteq> 0
    then writeToAddress B ?b HMAC_NEXT_INIT 4 (writeToAddress B ?b HMAC_NEXT_INIT 5 ?x)
    else writeToAddress B ?b HMAC_NEXT_INIT 0 (writeToAddress B ?b HMAC_NEXT_INIT 1 ?x)"
  have y: "io_step s ?y" using w1(1) by auto
  then have b: "hmac ?y = ?b" "hmac (do_delay 20 ?y) = ?b" using io_step_fields [OF y] by simp_all
  obtain s2 where s2: "wait_nonzero B ?b HMAC_VALID 4 (do_delay 20 ?y) = Some s2" "r = 0"
      "s' = readMultiFromAddress B (hmac s2) HMAC_HASH_BASE hash 8 s2"
    using assms s1 b1 b by (auto simp: hmac_hashString_def Let_def bind_eq_Some_conv split: if_splits)
  note w2 = wait_nonzero_frame [OF s2(1)]
  have "io_step s (do_delay 20 ?y)" by (rule io_step_trans [OF y io_step_intros(4)])
  then have "io_step s s2" using w2(1) by (rule io_step_trans)
  then have "io_step s s'" unfolding s2(3) by (rule io_step_trans [OF _ io_step_readMulti])
  moreover have "sent ?x = sent s1 @ block_writes (reg_addr ?b HMAC_TEXT_BASE) (be_words (get_bytes ld8 (ram s) p 64))"
    using writeMultichar_sends_runs [of 16 B ?b HMAC_TEXT_BASE p s1] w1(2) by simp
  ultimately show ?thesis
    using w1(3) w2(3) s2(2) by (simp add: s2(3) io_simps split: if_splits)
qed

theorem hmac_hashString_sends:
  assumes "hmac_hashString B p hash use_key_hash s = Some (r, s')"
  shows "r = 0 \<and> io_step s s' \<and>
    sent s' = sent s @ block_writes (reg_addr (hmac s) HMAC_TEXT_BASE) (be_words (get_bytes ld8 (ram s) p 64)) @
      (if use_key_hash \<noteq> 0 then [(reg_addr (hmac s) HMAC_NEXT_INIT, 5), (reg_addr (hmac s) HMAC_NEXT_INIT, 4)]
       else [(reg_addr (hmac s) HMAC_NEXT_INIT, 1), (reg_addr (hmac s) HMAC_NEXT_INIT, 0)])"
  using assms by (rule hmac_hashString_runs)

section \<open>SHA-256 against the standard\<close>

text \<open>
  \<^bold>\<open>C31\<close>: For a message whose padding fits its last block the driver sends
  exactly the blocks of the FIPS 180-4 padding, the first with the init strobe and the rest with the
  next strobe.
\<close>

theorem sha256_sends_fips_blocks:
  assumes "sha256_hashString B message p hash s = Some (r, s')" "cstr (ram s) p cs"
    and "apart message 128 p (Suc (length cs))" "length cs < 2 ^ 28" "length cs mod 64 < 56"
    and "fips_blocks (cs @ fips_pad (length cs)) = w # ws"
  shows "sent s' = sent s @ block_cmds (sha256 s) True w @ concat (map (block_cmds (sha256 s) False) ws)"
proof -
  have "sent s' = sent s @ sha_cmds (sha256 s) True 0 cs"
    using sha256_ptr.sha_hashString_sends [OF assms(1) [unfolded sha256_hashString_def] assms(2-4)] assms(5) by simp
  then show ?thesis using sha_cmds_fips [of 0 cs w ws] assms(5,6) by simp
qed

text \<open>
  A message of 57 to 63 bytes needs a second padding block. It is sent through
  \<^verbatim>\<open>writeMultiToAddress\<close>, in native words: every word is the byte-swapped word of the standard,
  while the first block is sent as the standard says.
\<close>

theorem sha256_second_block_swapped:
  assumes "sha256_hashString B message p hash s = Some (r, s')" "cstr (ram s) p cs"
    and "apart message 128 p (Suc (length cs))" "56 < length cs" "length cs < 64"
  shows "sent s' = sent s @ block_cmds (sha256 s) True (be_words (take 64 (cs @ fips_pad (length cs)))) @
     block_cmds (sha256 s) False (map bswap (be_words (drop 64 (cs @ fips_pad (length cs)))))"
proof -
  have "sent s' = sent s @ sha_cmds (sha256 s) True 0 cs"
    using sha256_ptr.sha_hashString_sends [OF assms(1) [unfolded sha256_hashString_def] assms(2,3)] assms(4,5) by simp
  moreover have "length (fips_pad (length cs)) = 128 - length cs"
    using assms(4,5) by (simp add: length_fips_pad)
  ultimately show ?thesis using assms(4,5) by (simp add: sha_cmds.simps [of _ _ _ cs] Let_def)
qed

end
