(* ===== verification/RngRsa.thy ===== *)
theory RngRsa
  imports Console
begin

text \<open>
  The drivers of the random number generator (\<^verbatim>\<open>src/pk/machine/rng.c\<close>), the RSA engine
  (\<^verbatim>\<open>rsa.c\<close>) and the reset controller (\<^verbatim>\<open>rst.c\<close>).
\<close>

section \<open>Random number generator\<close>

definition RNG_SEED_BASE :: u32 where "RNG_SEED_BASE = 0"
definition RNG_POLY128_BASE :: u32 where "RNG_POLY128_BASE = 4"
definition RNG_POLY64_BASE :: u32 where "RNG_POLY64_BASE = 8"
definition RNG_POLY32_BASE :: u32 where "RNG_POLY32_BASE = 10"
definition RNG_POLY16_BASE :: u32 where "RNG_POLY16_BASE = 11"
definition RNG_RNUM_BASE :: u32 where "RNG_RNUM_BASE = 12"
definition RNG_VALID :: u32 where "RNG_VALID = 14"
definition RNG_SEED_OUT128_BASE :: u32 where "RNG_SEED_OUT128_BASE = 15"
definition RNG_SEED_OUT64_BASE :: u32 where "RNG_SEED_OUT64_BASE = 19"
definition RNG_SEED_OUT32_BASE :: u32 where "RNG_SEED_OUT32_BASE = 21"
definition RNG_SEED_OUT16_BASE :: u32 where "RNG_SEED_OUT16_BASE = 22"
definition RNG_SEG_OUT_BASE :: u32 where "RNG_SEG_OUT_BASE = 23"
definition RNG_STATE :: u32 where "RNG_STATE = 25"

definition rng_wait :: "'d bus \<Rightarrow> 'd world \<Rightarrow> (u32 \<times> 'd world) option" where
  "rng_wait B s = do { s \<leftarrow> wait_nonzero B (rng s) RNG_VALID 1 s; Some (0, s) }"

definition rng_read_data :: "'d bus \<Rightarrow> u64 \<Rightarrow> 'd world \<Rightarrow> u32 \<times> 'd world" where
  "rng_read_data B randnum s = (0, readMultiFromAddress B (rng s) RNG_RNUM_BASE randnum 2 s)"

definition rng_read_poly :: "'d bus \<Rightarrow> u64 \<Rightarrow> u64 \<Rightarrow> u64 \<Rightarrow> u64 \<Rightarrow> 'd world \<Rightarrow> u32 \<times> 'd world" where
  "rng_read_poly B poly128 poly64 poly32 poly16 s =
     (let s = readMultiFromAddress B (rng s) RNG_POLY128_BASE poly128 4 s;
          s = readMultiFromAddress B (rng s) RNG_POLY64_BASE poly64 2 s;
          s = readMultiFromAddress B (rng s) RNG_POLY32_BASE poly32 1 s;
          s = readMultiFromAddress B (rng s) RNG_POLY16_BASE poly16 1 s
      in (0, s))"

definition rng_write_poly :: "'d bus \<Rightarrow> u64 \<Rightarrow> u64 \<Rightarrow> u64 \<Rightarrow> u64 \<Rightarrow> 'd world \<Rightarrow> u32 \<times> 'd world" where
  "rng_write_poly B poly128 poly64 poly32 poly16 s =
     (let s = writeMultiToAddress B (rng s) RNG_POLY128_BASE poly128 4 s;
          s = writeMultiToAddress B (rng s) RNG_POLY64_BASE poly64 2 s;
          s = writeMultiToAddress B (rng s) RNG_POLY32_BASE poly32 1 s;
          s = writeMultiToAddress B (rng s) RNG_POLY16_BASE poly16 1 s
      in (0, s))"

definition rng_read_seed :: "'d bus \<Rightarrow> u64 \<Rightarrow> u64 \<Rightarrow> u64 \<Rightarrow> u64 \<Rightarrow> 'd world \<Rightarrow> u32 \<times> 'd world" where
  "rng_read_seed B seed128 seed64 seed32 seed16 s =
     (let s = readMultiFromAddress B (rng s) RNG_SEED_OUT128_BASE seed128 4 s;
          s = readMultiFromAddress B (rng s) RNG_SEED_OUT64_BASE seed64 2 s;
          s = readMultiFromAddress B (rng s) RNG_SEED_OUT32_BASE seed32 1 s;
          s = readMultiFromAddress B (rng s) RNG_SEED_OUT16_BASE seed16 1 s
      in (0, s))"

definition rng_write_seed :: "'d bus \<Rightarrow> u64 \<Rightarrow> 'd world \<Rightarrow> u32 \<times> 'd world" where
  "rng_write_seed B seed128 s = (0, writeMultiToAddress B (rng s) RNG_SEED_BASE seed128 4 s)"

definition rng_read_rand_seg :: "'d bus \<Rightarrow> u64 \<Rightarrow> 'd world \<Rightarrow> u32 \<times> 'd world" where
  "rng_read_rand_seg B rand_seg s = (0, readMultiFromAddress B (rng s) RNG_SEG_OUT_BASE rand_seg 2 s)"

definition rng_read_state_counter :: "'d bus \<Rightarrow> u64 \<Rightarrow> 'd world \<Rightarrow> u32 \<times> 'd world" where
  "rng_read_state_counter B st_cnt s = (0, readMultiFromAddress B (rng s) RNG_STATE st_cnt 1 s)"

definition rng_open :: "(reg_scan, 'd) node_cb" where "rng_open = reg_open"

definition rng_prop :: "fdt_prop \<Rightarrow> reg_scan \<times> 'd world \<Rightarrow> (reg_scan \<times> 'd world) option" where
  "rng_prop = reg_prop ''hd20,rng''"

definition rng_done :: "(reg_scan, 'd) node_cb" where
  "rng_done = reg_done rng (\<lambda>v s. s\<lparr>rng := v\<rparr>)"

definition query_rng :: "'d world \<Rightarrow> 'd world option" where
  "query_rng s = map_option snd (rng_done [] (\<lparr>rs_compat = 1, rs_reg = 0xfff5208000\<rparr>, s))"

section \<open>RSA engine\<close>

definition RSA_RST_KEY_BASE :: u32 where "RSA_RST_KEY_BASE = 0"
definition RSA_RST_MSG_BASE :: u32 where "RSA_RST_MSG_BASE = 1"
definition RSA_ENCRY_DECRY_BASE :: u32 where "RSA_ENCRY_DECRY_BASE = 2"
definition RSA_PRIME_BASE :: u32 where "RSA_PRIME_BASE = 3"
definition RSA_MSG_IN_BASE :: u32 where "RSA_MSG_IN_BASE = 67"
definition RSA_MSG_OUT_BASE :: u32 where "RSA_MSG_OUT_BASE = 131"
definition RSA_VALID :: u32 where "RSA_VALID = 195"

lemmas rsa_regs = RSA_RST_KEY_BASE_def RSA_RST_MSG_BASE_def RSA_ENCRY_DECRY_BASE_def RSA_PRIME_BASE_def
  RSA_MSG_IN_BASE_def RSA_MSG_OUT_BASE_def RSA_VALID_def

definition rsa_wait :: "'d bus \<Rightarrow> 'd world \<Rightarrow> (u32 \<times> 'd world) option" where
  "rsa_wait B s = do { s \<leftarrow> wait_nonzero B (rsa s) RSA_VALID 1 s; Some (0, s) }"

definition rsa_write_prime_num :: "'d bus \<Rightarrow> u64 \<Rightarrow> 'd world \<Rightarrow> u32 \<times> 'd world" where
  "rsa_write_prime_num B p_num s =
     (let s = writeMultiToAddress B (rsa s) RSA_PRIME_BASE p_num 64 s;
          s = do_delay 1 s;
          s = writeToAddress B (rsa s) RSA_RST_KEY_BASE 0 s;
          s = writeToAddress B (rsa s) RSA_RST_KEY_BASE 1 s
      in (0, s))"

definition rsa_write_msg_in :: "'d bus \<Rightarrow> u64 \<Rightarrow> u32 \<Rightarrow> 'd world \<Rightarrow> u32 \<times> 'd world" where
  "rsa_write_msg_in B msg_in encry_decry s =
     (let s = writeMultiToAddress B (rsa s) RSA_MSG_IN_BASE msg_in 64 s;
          s = writeToAddress B (rsa s) RSA_ENCRY_DECRY_BASE encry_decry s;
          s = do_delay 1 s;
          s = writeToAddress B (rsa s) RSA_RST_MSG_BASE 0 s;
          s = writeToAddress B (rsa s) RSA_RST_MSG_BASE 1 s
      in (0, s))"

definition rsa_read_msg_out :: "'d bus \<Rightarrow> u64 \<Rightarrow> 'd world \<Rightarrow> u32 \<times> 'd world" where
  "rsa_read_msg_out B msg_out s = (0, readMultiFromAddress B (rsa s) RSA_MSG_OUT_BASE msg_out 64 s)"

definition rsa_open :: "(reg_scan, 'd) node_cb" where "rsa_open = reg_open"

definition rsa_prop :: "fdt_prop \<Rightarrow> reg_scan \<times> 'd world \<Rightarrow> (reg_scan \<times> 'd world) option" where
  "rsa_prop = reg_prop ''hd20,rsa''"

definition rsa_done :: "(reg_scan, 'd) node_cb" where
  "rsa_done = reg_done rsa (\<lambda>v s. s\<lparr>rsa := v\<rparr>)"

definition query_rsa :: "'d world \<Rightarrow> 'd world option" where
  "query_rsa s = map_option snd (rsa_done [] (\<lparr>rs_compat = 1, rs_reg = 0xfff5211000\<rparr>, s))"

section \<open>Reset controller\<close>

definition RST_START :: u32 where "RST_START = 0"
definition RST_ID_BASE :: u32 where "RST_ID_BASE = 1"

definition newline :: string where "newline = [CHR 0x0A]"

definition rst_id :: "'d bus \<Rightarrow> u32 \<Rightarrow> 'd world \<Rightarrow> (u32 \<times> 'd world) option" where
  "rst_id B n s =
     (if n > 13 then
        do { s \<leftarrow> printm B (''error: cannot have ID larger than 13'' @ newline) [] s; Some (0, s) }
      else
        (let s = writeToAddress B (rst s) RST_ID_BASE n s;
             s = writeToAddress B (rst s) RST_START 0 s;
             s = writeToAddress B (rst s) RST_START 1 s
         in do { s \<leftarrow> wait_nonzero B (rst s) RST_START 1 s;
                 let s = writeToAddress B (rst s) RST_START 0 s;
                 Some (0, s) }))"

definition rst_open :: "(reg_scan, 'd) node_cb" where "rst_open = reg_open"

definition rst_prop :: "fdt_prop \<Rightarrow> reg_scan \<times> 'd world \<Rightarrow> (reg_scan \<times> 'd world) option" where
  "rst_prop = reg_prop ''hd20,rst''"

definition rst_done :: "(reg_scan, 'd) node_cb" where
  "rst_done = reg_done rst (\<lambda>v s. s\<lparr>rst := v\<rparr>)"

definition query_rst :: "'d world \<Rightarrow> 'd world option" where
  "query_rst s = map_option snd (rst_done [] (\<lparr>rs_compat = 1, rs_reg = 0xfff520A000\<rparr>, s))"

section \<open>What the drivers send\<close>

theorem rng_write_poly_sends:
  "sent (snd (rng_write_poly B p128 p64 p32 p16 s)) = sent s @
     block_writes (reg_addr (rng s) RNG_POLY128_BASE) (ld_words (ram s) p128 4) @
     block_writes (reg_addr (rng s) RNG_POLY64_BASE) (ld_words (ram s) p64 2) @
     block_writes (reg_addr (rng s) RNG_POLY32_BASE) (ld_words (ram s) p32 1) @
     block_writes (reg_addr (rng s) RNG_POLY16_BASE) (ld_words (ram s) p16 1)"
  by (simp add: rng_write_poly_def Let_def writeMulti_sends world_simps)

theorem rsa_write_prime_num_sends:
  "sent (snd (rsa_write_prime_num B p s)) = sent s @
     block_writes (reg_addr (rsa s) RSA_PRIME_BASE) (ld_words (ram s) p 64) @
     [(reg_addr (rsa s) RSA_RST_KEY_BASE, 0), (reg_addr (rsa s) RSA_RST_KEY_BASE, 1)]"
  by (simp add: rsa_write_prime_num_def Let_def writeMulti_sends io_simps)

theorem rsa_write_msg_in_sends:
  "sent (snd (rsa_write_msg_in B p encry_decry s)) = sent s @
     block_writes (reg_addr (rsa s) RSA_MSG_IN_BASE) (ld_words (ram s) p 64) @
     [(reg_addr (rsa s) RSA_ENCRY_DECRY_BASE, ucast encry_decry),
      (reg_addr (rsa s) RSA_RST_MSG_BASE, 0), (reg_addr (rsa s) RSA_RST_MSG_BASE, 1)]"
  by (simp add: rsa_write_msg_in_def Let_def writeMulti_sends io_simps)

text \<open>A reset of a peripheral that exists pulses the controller; any other number touches no register of it.\<close>

lemma rst_id_runs:
  assumes "rst_id B n s = Some (r, s')" "n \<le> 13"
  shows "r = 0 \<and> io_step s s' \<and> sent s' = sent s @
     [(reg_addr (rst s) RST_ID_BASE, ucast n), (reg_addr (rst s) RST_START, 0),
      (reg_addr (rst s) RST_START, 1), (reg_addr (rst s) RST_START, 0)]"
proof -
  let ?s = "writeToAddress B (rst s) RST_START 1 (writeToAddress B (rst s) RST_START 0
    (writeToAddress B (rst s) RST_ID_BASE n s))"
  have "\<not> n > 13" using assms(2) by simp
  then obtain s1 where s1: "wait_nonzero B (rst s) RST_START 1 ?s = Some s1" "r = 0"
      "s' = writeToAddress B (rst s1) RST_START 0 s1"
    using assms(1) by (auto simp: rst_id_def Let_def bind_eq_Some_conv)
  note w = wait_nonzero_frame [OF s1(1)]
  have "io_step s ?s" by (auto intro: io_step_refl)
  then have step: "io_step s s1" using w(1) by (rule io_step_trans)
  then have "rst s1 = rst s" by (simp add: io_step_fields)
  then show ?thesis using s1(2,3) w(3) io_step_trans [OF step io_step_access(2)] by (simp add: io_simps)
qed

theorem rst_id_sends:
  assumes "rst_id B n s = Some (r, s')" "n \<le> 13"
  shows "r = 0 \<and> io_step s s' \<and> sent s' = sent s @
     [(reg_addr (rst s) RST_ID_BASE, ucast n), (reg_addr (rst s) RST_START, 0),
      (reg_addr (rst s) RST_START, 1), (reg_addr (rst s) RST_START, 0)]"
  using assms by (rule rst_id_runs)

end
