(* ===== verification/Aes.thy ===== *)
theory Aes
  imports Console
begin

text \<open>
  The AES drivers \<^verbatim>\<open>src/pk/machine/aes0.c\<close> to \<^verbatim>\<open>aes3.c\<close>. Engines 0, 2 and 3 run the same
  start/wait/read protocol on different register maps; engine 1 is a block interface with a
  configuration register. A start that the engine never acknowledges does not return.
\<close>

section \<open>AES0\<close>

definition AES0_START :: u32 where "AES0_START = 0"
definition AES0_PT_BASE :: u32 where "AES0_PT_BASE = 1"
definition AES0_DONE :: u32 where "AES0_DONE = 11"
definition AES0_CT_BASE :: u32 where "AES0_CT_BASE = 12"
definition AES0_ST_BASE :: u32 where "AES0_ST_BASE = 16"
definition AES0_KEY_SEL :: u32 where "AES0_KEY_SEL = 32"

lemmas aes0_regs = AES0_START_def AES0_PT_BASE_def AES0_DONE_def AES0_CT_BASE_def AES0_ST_BASE_def AES0_KEY_SEL_def

definition aes0_start_encrypt :: "'d bus \<Rightarrow> u64 \<Rightarrow> u64 \<Rightarrow> u32 \<Rightarrow> 'd world \<Rightarrow> (u32 \<times> 'd world) option" where
  "aes0_start_encrypt B pt st key_sel s =
     (let s = writeToAddress B (aes0 s) AES0_KEY_SEL key_sel s;
          s = writeMultiToAddress B (aes0 s) AES0_PT_BASE pt 4 s;
          s = writeMultiToAddress B (aes0 s) AES0_ST_BASE st 4 s;
          s = writeToAddress B (aes0 s) AES0_START 0 s;
          s = writeToAddress B (aes0 s) AES0_START 1 s
      in do { s \<leftarrow> wait_nonzero B (aes0 s) AES0_START 1 s;
              let s = writeToAddress B (aes0 s) AES0_START 0 s;
              Some (0, s) })"

definition aes0_wait :: "'d bus \<Rightarrow> 'd world \<Rightarrow> (u32 \<times> 'd world) option" where
  "aes0_wait B s = do { s \<leftarrow> wait_nonzero B (aes0 s) AES0_DONE 4 s; Some (0, s) }"

definition aes0_data_out :: "'d bus \<Rightarrow> u64 \<Rightarrow> 'd world \<Rightarrow> (u32 \<times> 'd world) option" where
  "aes0_data_out B ct s = Some (0, readMultiFromAddress B (aes0 s) AES0_CT_BASE ct 4 s)"

definition aes0_encrypt :: "'d bus \<Rightarrow> u64 \<Rightarrow> u64 \<Rightarrow> u64 \<Rightarrow> u32 \<Rightarrow> 'd world \<Rightarrow> (u32 \<times> 'd world) option" where
  "aes0_encrypt B pt st ct key_sel s =
     do { (r, s) \<leftarrow> aes0_start_encrypt B pt st key_sel s;
          (r, s) \<leftarrow> aes0_wait B s;
          (r, s) \<leftarrow> aes0_data_out B ct s;
          Some (0, s) }"

definition aes0_open :: "(reg_scan, 'd) node_cb" where "aes0_open = reg_open"

definition aes0_prop :: "fdt_prop \<Rightarrow> reg_scan \<times> 'd world \<Rightarrow> (reg_scan \<times> 'd world) option" where
  "aes0_prop = reg_prop ''hd20,aes0''"

definition aes0_done :: "(reg_scan, 'd) node_cb" where
  "aes0_done = reg_done aes0 (\<lambda>v s. s\<lparr>aes0 := v\<rparr>)"

definition query_aes0 :: "'d world \<Rightarrow> 'd world option" where
  "query_aes0 s = map_option snd (aes0_done [] (\<lparr>rs_compat = 1, rs_reg = 0xfff5200000\<rparr>, s))"

section \<open>AES2\<close>

definition AES2_START :: u32 where "AES2_START = 0"
definition AES2_PT_BASE :: u32 where "AES2_PT_BASE = 1"
definition AES2_DONE :: u32 where "AES2_DONE = 9"
definition AES2_CT_BASE :: u32 where "AES2_CT_BASE = 10"
definition AES2_ST_BASE :: u32 where "AES2_ST_BASE = 14"
definition AES2_KEY_SEL :: u32 where "AES2_KEY_SEL = 26"

lemmas aes2_regs = AES2_START_def AES2_PT_BASE_def AES2_DONE_def AES2_CT_BASE_def AES2_ST_BASE_def AES2_KEY_SEL_def

definition aes2_start_encrypt :: "'d bus \<Rightarrow> u64 \<Rightarrow> u64 \<Rightarrow> u32 \<Rightarrow> 'd world \<Rightarrow> (u32 \<times> 'd world) option" where
  "aes2_start_encrypt B pt st key_sel s =
     (let s = writeToAddress B (aes2 s) AES2_KEY_SEL key_sel s;
          s = writeMultiToAddress B (aes2 s) AES2_PT_BASE pt 4 s;
          s = writeMultiToAddress B (aes2 s) AES2_ST_BASE st 4 s;
          s = writeToAddress B (aes2 s) AES2_START 0 s;
          s = writeToAddress B (aes2 s) AES2_START 1 s
      in do { s \<leftarrow> wait_nonzero B (aes2 s) AES2_START 1 s;
              let s = writeToAddress B (aes2 s) AES2_START 0 s;
              Some (0, s) })"

definition aes2_wait :: "'d bus \<Rightarrow> 'd world \<Rightarrow> (u32 \<times> 'd world) option" where
  "aes2_wait B s = do { s \<leftarrow> wait_nonzero B (aes2 s) AES2_DONE 4 s; Some (0, s) }"

definition aes2_data_out :: "'d bus \<Rightarrow> u64 \<Rightarrow> 'd world \<Rightarrow> (u32 \<times> 'd world) option" where
  "aes2_data_out B ct s = Some (0, readMultiFromAddress B (aes2 s) AES2_CT_BASE ct 4 s)"

definition aes2_encrypt :: "'d bus \<Rightarrow> u64 \<Rightarrow> u64 \<Rightarrow> u64 \<Rightarrow> u32 \<Rightarrow> 'd world \<Rightarrow> (u32 \<times> 'd world) option" where
  "aes2_encrypt B pt st ct key_sel s =
     do { (r, s) \<leftarrow> aes2_start_encrypt B pt st key_sel s;
          (r, s) \<leftarrow> aes2_wait B s;
          (r, s) \<leftarrow> aes2_data_out B ct s;
          Some (0, s) }"

definition aes2_open :: "(reg_scan, 'd) node_cb" where "aes2_open = reg_open"

definition aes2_prop :: "fdt_prop \<Rightarrow> reg_scan \<times> 'd world \<Rightarrow> (reg_scan \<times> 'd world) option" where
  "aes2_prop = reg_prop ''hd20,aes2''"

definition aes2_done :: "(reg_scan, 'd) node_cb" where
  "aes2_done = reg_done aes2 (\<lambda>v s. s\<lparr>aes2 := v\<rparr>)"

definition query_aes2 :: "'d world \<Rightarrow> 'd world option" where
  "query_aes2 s = map_option snd (aes2_done [] (\<lparr>rs_compat = 1, rs_reg = 0xfff5209000\<rparr>, s))"

section \<open>AES3\<close>

definition AES3_START :: u32 where "AES3_START = 0"
definition AES3_PT_BASE :: u32 where "AES3_PT_BASE = 1"
definition AES3_DONE :: u32 where "AES3_DONE = 11"
definition AES3_CT_BASE :: u32 where "AES3_CT_BASE = 12"
definition AES3_ST_BASE :: u32 where "AES3_ST_BASE = 16"
definition AES3_KEY_SEL :: u32 where "AES3_KEY_SEL = 32"

lemmas aes3_regs = AES3_START_def AES3_PT_BASE_def AES3_DONE_def AES3_CT_BASE_def AES3_ST_BASE_def AES3_KEY_SEL_def

definition aes3_start_encrypt :: "'d bus \<Rightarrow> u64 \<Rightarrow> u64 \<Rightarrow> u32 \<Rightarrow> 'd world \<Rightarrow> (u32 \<times> 'd world) option" where
  "aes3_start_encrypt B pt st key_sel s =
     (let s = writeToAddress B (aes3 s) AES3_KEY_SEL key_sel s;
          s = writeMultiToAddress B (aes3 s) AES3_PT_BASE pt 4 s;
          s = writeMultiToAddress B (aes3 s) AES3_ST_BASE st 4 s;
          s = writeToAddress B (aes3 s) AES3_START 0 s;
          s = writeToAddress B (aes3 s) AES3_START 1 s
      in do { s \<leftarrow> wait_nonzero B (aes3 s) AES3_START 1 s;
              let s = writeToAddress B (aes3 s) AES3_START 0 s;
              Some (0, s) })"

definition aes3_wait :: "'d bus \<Rightarrow> 'd world \<Rightarrow> (u32 \<times> 'd world) option" where
  "aes3_wait B s = do { s \<leftarrow> wait_nonzero B (aes3 s) AES3_DONE 4 s; Some (0, s) }"

definition aes3_data_out :: "'d bus \<Rightarrow> u64 \<Rightarrow> 'd world \<Rightarrow> (u32 \<times> 'd world) option" where
  "aes3_data_out B ct s = Some (0, readMultiFromAddress B (aes3 s) AES3_CT_BASE ct 4 s)"

definition aes3_encrypt :: "'d bus \<Rightarrow> u64 \<Rightarrow> u64 \<Rightarrow> u64 \<Rightarrow> u32 \<Rightarrow> 'd world \<Rightarrow> (u32 \<times> 'd world) option" where
  "aes3_encrypt B pt st ct key_sel s =
     do { (r, s) \<leftarrow> aes3_start_encrypt B pt st key_sel s;
          (r, s) \<leftarrow> aes3_wait B s;
          (r, s) \<leftarrow> aes3_data_out B ct s;
          Some (0, s) }"

definition aes3_open :: "(reg_scan, 'd) node_cb" where "aes3_open = reg_open"

definition aes3_prop :: "fdt_prop \<Rightarrow> reg_scan \<times> 'd world \<Rightarrow> (reg_scan \<times> 'd world) option" where
  "aes3_prop = reg_prop ''hd20,aes3''"

definition aes3_done :: "(reg_scan, 'd) node_cb" where
  "aes3_done = reg_done aes3 (\<lambda>v s. s\<lparr>aes3 := v\<rparr>)"

definition aes3_cb :: "(reg_scan, 'd) fdt_cb" where
  "aes3_cb = \<lparr>cb_open = Some aes3_open, cb_prop = aes3_prop, cb_done = Some aes3_done, cb_close = None\<rparr>"

text \<open>The scan record is not initialised before the scan: its fields are arguments.\<close>

definition query_aes3 :: "u64 \<Rightarrow> reg_scan \<Rightarrow> 'd world \<Rightarrow> 'd world option" where
  "query_aes3 fdt scan s = map_option snd (fdt_scan fdt aes3_cb (scan, s))"

section \<open>AES1\<close>

definition AES1_CTRL_BASE :: u32 where "AES1_CTRL_BASE = 8"
definition AES1_STATUS_BASE :: u32 where "AES1_STATUS_BASE = 9"
definition AES1_ENC_DEC :: u32 where "AES1_ENC_DEC = 10"
definition AES1_KEY0_LEN :: u32 where "AES1_KEY0_LEN = 11"
definition AES1_KEY1_LEN :: u32 where "AES1_KEY1_LEN = 12"
definition AES1_KEY2_LEN :: u32 where "AES1_KEY2_LEN = 13"
definition AES1_KEY_SEL :: u32 where "AES1_KEY_SEL = 14"
definition AES1_BLK_BASE :: u32 where "AES1_BLK_BASE = 64"
definition AES1_RES_BASE :: u32 where "AES1_RES_BASE = 80"

lemmas aes1_regs = AES1_CTRL_BASE_def AES1_STATUS_BASE_def AES1_ENC_DEC_def AES1_KEY0_LEN_def
  AES1_KEY1_LEN_def AES1_KEY2_LEN_def AES1_KEY_SEL_def AES1_BLK_BASE_def AES1_RES_BASE_def

definition aes1_read_data :: "'d bus \<Rightarrow> u64 \<Rightarrow> 'd world \<Rightarrow> u32 \<times> 'd world" where
  "aes1_read_data B result s = (0, readMultiFromAddress B (aes1 s) AES1_RES_BASE result 4 s)"

definition aes1_write_data :: "'d bus \<Rightarrow> u64 \<Rightarrow> u32 \<Rightarrow> 'd world \<Rightarrow> u32 \<times> 'd world" where
  "aes1_write_data B blk key_sel s =
     (let s = writeMultiToAddress B (aes1 s) AES1_BLK_BASE blk 4 s;
          s = writeToAddress B (aes1 s) AES1_KEY_SEL key_sel s
      in (0, s))"

definition aes1_read_config :: "'d bus \<Rightarrow> u64 \<Rightarrow> 'd world \<Rightarrow> u32 \<times> 'd world" where
  "aes1_read_config B config_o s =
     (let (v, s) = readFromAddress B (aes1 s) AES1_STATUS_BASE s in (0, wst32 s config_o v))"

definition aes1_write_config :: "'d bus \<Rightarrow> u32 \<Rightarrow> 'd world \<Rightarrow> u32 \<times> 'd world" where
  "aes1_write_config B config_i s =
     (let s = writeToAddress B (aes1 s) AES1_ENC_DEC (config_i mod 2) s;
          s = writeToAddress B (aes1 s) AES1_CTRL_BASE (config_i div 2 mod 4) s
      in (0, s))"

definition aes1_open :: "(reg_scan, 'd) node_cb" where "aes1_open = reg_open"

definition aes1_prop :: "fdt_prop \<Rightarrow> reg_scan \<times> 'd world \<Rightarrow> (reg_scan \<times> 'd world) option" where
  "aes1_prop = reg_prop ''hd20,aes1''"

definition aes1_done :: "(reg_scan, 'd) node_cb" where
  "aes1_done = reg_done aes1 (\<lambda>v s. s\<lparr>aes1 := v\<rparr>)"

definition query_aes1 :: "'d world \<Rightarrow> 'd world option" where
  "query_aes1 s = map_option snd (aes1_done [] (\<lparr>rs_compat = 1, rs_reg = 0xfff5201000\<rparr>, s))"

section \<open>What a session sends and stores\<close>

text \<open>
  The writes that start an engine with base \<open>b\<close>: the key is selected and both blocks are loaded,
  first word to the highest register, before \<^verbatim>\<open>START\<close> is pulsed; it is lowered again once the
  engine has acknowledged it.
\<close>

definition aes_start_writes :: "u64 \<Rightarrow> u32 \<Rightarrow> u32 \<Rightarrow> u32 \<Rightarrow> u32 \<Rightarrow> u32 list \<Rightarrow> u32 list \<Rightarrow> u32 \<Rightarrow> (u64 \<times> u64) list" where
  "aes_start_writes b key_sel_reg pt_reg st_reg start_reg pt st key_sel =
     [(reg_addr b key_sel_reg, ucast key_sel)] @
     block_writes (reg_addr b pt_reg) pt @ block_writes (reg_addr b st_reg) st @
     [(reg_addr b start_reg, 0), (reg_addr b start_reg, 1), (reg_addr b start_reg, 0)]"

text \<open>The three engines run one protocol, with the base pointer fixed during a start.\<close>

definition engine_start ::
    "'d bus \<Rightarrow> u64 \<Rightarrow> u32 \<Rightarrow> u32 \<Rightarrow> u32 \<Rightarrow> u32 \<Rightarrow> u64 \<Rightarrow> u64 \<Rightarrow> u32 \<Rightarrow> 'd world \<Rightarrow> (u32 \<times> 'd world) option" where
  "engine_start B b key_sel_reg pt_reg st_reg start_reg pt st key_sel s =
     map_option (\<lambda>s. (0, writeToAddress B b start_reg 0 s))
       (wait_nonzero B b start_reg 1
         (writeToAddress B b start_reg 1 (writeToAddress B b start_reg 0
           (writeMultiToAddress B b st_reg st 4 (writeMultiToAddress B b pt_reg pt 4
             (writeToAddress B b key_sel_reg key_sel s))))))"

lemma map_option_wait:
  "(\<And>s'. io_step s s' \<Longrightarrow> f s' = g s') \<Longrightarrow>
     map_option f (wait_nonzero B b off n s) = map_option g (wait_nonzero B b off n s)"
  by (cases "wait_nonzero B b off n s") (auto dest: wait_nonzero_frame)

lemma bind_Some_map: "x \<bind> (\<lambda>s. Some (f s)) = map_option f x"
  by (cases x) simp_all

lemma start_is_engine_start:
  "aes0_start_encrypt B pt st key_sel s =
     engine_start B (aes0 s) AES0_KEY_SEL AES0_PT_BASE AES0_ST_BASE AES0_START pt st key_sel s"
  "aes2_start_encrypt B pt st key_sel s =
     engine_start B (aes2 s) AES2_KEY_SEL AES2_PT_BASE AES2_ST_BASE AES2_START pt st key_sel s"
  "aes3_start_encrypt B pt st key_sel s =
     engine_start B (aes3 s) AES3_KEY_SEL AES3_PT_BASE AES3_ST_BASE AES3_START pt st key_sel s"
  unfolding aes0_start_encrypt_def aes2_start_encrypt_def aes3_start_encrypt_def engine_start_def
    Let_def bind_Some_map driver_fields
  by (rule map_option_wait; simp add: io_step_fields)+

lemma engine_start_sends:
  assumes "engine_start B b ks pr sr go pt st key_sel s = Some (r, s')"
  shows "io_step s s'" "ram s' = ram s" "r = 0"
    "sent s' = sent s @ aes_start_writes b ks pr sr go (ld_words (ram s) pt 4) (ld_words (ram s) st 4) key_sel"
proof -
  let ?s1 = "writeToAddress B b go 1 (writeToAddress B b go 0
           (writeMultiToAddress B b sr st 4 (writeMultiToAddress B b pr pt 4
             (writeToAddress B b ks key_sel s))))"
  obtain s2 where s2: "wait_nonzero B b go 1 ?s1 = Some s2" "r = 0" "s' = writeToAddress B b go 0 s2"
    using assms by (auto simp: engine_start_def)
  have "io_step s ?s1" by (blast intro: io_step_refl)
  then show "io_step s s'"
    using wait_nonzero_frame(1) [OF s2(1)] io_step_trans s2(3) by blast
  show "ram s' = ram s" "r = 0" using wait_nonzero_frame(2) [OF s2(1)] s2 by (simp_all add: world_simps)
  show "sent s' = sent s @ aes_start_writes b ks pr sr go (ld_words (ram s) pt 4) (ld_words (ram s) st 4) key_sel"
    using wait_nonzero_frame(3) [OF s2(1)]
    by (simp add: s2(3) io_simps world_simps writeMulti_sends aes_start_writes_def)
qed

text \<open>A whole encryption: the result is read right after \<^verbatim>\<open>DONE\<close> was seen.\<close>

definition engine_encrypt where
  "engine_encrypt B b ks pr sr go dn cr pt st ct key_sel s =
     do { (r, s) \<leftarrow> engine_start B b ks pr sr go pt st key_sel s;
          s \<leftarrow> wait_nonzero B b dn 4 s;
          Some (0 :: u32, readMultiFromAddress B b cr ct 4 s) }"

lemma encrypt_is_engine_encrypt:
  "aes0_encrypt B pt st ct key_sel s = engine_encrypt B (aes0 s) AES0_KEY_SEL AES0_PT_BASE AES0_ST_BASE
     AES0_START AES0_DONE AES0_CT_BASE pt st ct key_sel s"
  "aes2_encrypt B pt st ct key_sel s = engine_encrypt B (aes2 s) AES2_KEY_SEL AES2_PT_BASE AES2_ST_BASE
     AES2_START AES2_DONE AES2_CT_BASE pt st ct key_sel s"
  "aes3_encrypt B pt st ct key_sel s = engine_encrypt B (aes3 s) AES3_KEY_SEL AES3_PT_BASE AES3_ST_BASE
     AES3_START AES3_DONE AES3_CT_BASE pt st ct key_sel s"
  unfolding aes0_encrypt_def aes2_encrypt_def aes3_encrypt_def engine_encrypt_def start_is_engine_start
    aes0_wait_def aes2_wait_def aes3_wait_def aes0_data_out_def aes2_data_out_def aes3_data_out_def
  by (rule Option.bind_cong [OF refl],
      auto simp: io_step_fields dest!: engine_start_sends(1) wait_nonzero_frame(1)
        intro!: Option.bind_cong)+

definition engine_result :: "'d bus \<Rightarrow> u64 \<Rightarrow> u32 \<Rightarrow> u32 \<Rightarrow> 'd world \<Rightarrow> u32 list \<Rightarrow> bool" where
  "engine_result B b dn cr s ws \<longleftrightarrow>
     (\<exists>s0. io_step s s0 \<and> fst (readFromAddress B b dn s0) \<noteq> 0 \<and>
       ws = rev (fst (read_regs B (reg_addr b cr) 4 (snd (readFromAddress B b dn s0)))))"

lemma engine_encrypt_result:
  assumes "engine_encrypt B b ks pr sr go dn cr pt st ct key_sel s = Some (r, s')"
  shows "r = 0" "io_step s s'"
    "sent s' = sent s @ aes_start_writes b ks pr sr go (ld_words (ram s) pt 4) (ld_words (ram s) st 4) key_sel"
    "\<exists>ws. length ws = 4 \<and> engine_result B b dn cr s ws \<and> ram s' = st_words (ram s) ct ws"
proof -
  obtain s1 s2 where s: "engine_start B b ks pr sr go pt st key_sel s = Some (0, s1)"
      "wait_nonzero B b dn 4 s1 = Some s2" "r = 0" "s' = readMultiFromAddress B b cr ct 4 s2"
    using assms engine_start_sends(3) by (fastforce simp: engine_encrypt_def bind_eq_Some_conv)
  note start = engine_start_sends [OF s(1)] and wait = wait_nonzero_frame [OF s(2)]
  show "r = 0" by (rule s)
  show "io_step s s'" unfolding s(4) using start(1) wait(1) io_step_trans by blast
  show "sent s' = sent s @ aes_start_writes b ks pr sr go (ld_words (ram s) pt 4) (ld_words (ram s) st 4) key_sel"
    by (simp add: s(4) io_simps wait start)
  obtain s0 where s0: "io_step s1 s0" "fst (readFromAddress B b dn s0) \<noteq> 0" "s2 = snd (readFromAddress B b dn s0)"
    using wait_nonzero_io [OF s(2)] by blast
  define ws where "ws = rev (fst (read_regs B (reg_addr b cr) 4 s2))"
  have "length ws = 4" by (simp add: ws_def)
  moreover have "engine_result B b dn cr s ws"
    unfolding engine_result_def ws_def s0(3) using s0(1,2) start(1) io_step_trans by blast
  moreover have "ram s' = st_words (ram s) ct ws"
    by (simp add: s(4) world_simps ws_def wait start)
  ultimately show "\<exists>ws. length ws = 4 \<and> engine_result B b dn cr s ws \<and> ram s' = st_words (ram s) ct ws"
    by blast
qed

theorem aes0_encrypt_result:
  assumes "aes0_encrypt B pt st ct key_sel s = Some (r, s')"
  shows "r = 0 \<and> io_step s s' \<and>
    sent s' = sent s @ aes_start_writes (aes0 s) AES0_KEY_SEL AES0_PT_BASE AES0_ST_BASE AES0_START
       (ld_words (ram s) pt 4) (ld_words (ram s) st 4) key_sel \<and>
    (\<exists>ws. length ws = 4 \<and> engine_result B (aes0 s) AES0_DONE AES0_CT_BASE s ws \<and>
       ram s' = st_words (ram s) ct ws)"
  using engine_encrypt_result [OF assms [unfolded encrypt_is_engine_encrypt]] by simp

section \<open>Safety of the key registers\<close>

lemma block_writes_regs:
  "(a, v) \<in> set (block_writes b ws) \<Longrightarrow> \<exists>j<length ws. a = b + 8 * of_nat j"
  by (induction ws) (auto, metis less_Suc_eq)

lemma reg_addr_slot: "reg_addr b r + 8 * of_nat j = b + 8 * of_nat (unat r + j)"
  by (simp add: reg_addr_def ucast_u32_of_nat distrib_left del: of_nat_unat)

text \<open>
  The keys sit in registers 5 to 10, 20 to 25 and 26 to 31 of engine 0, where only the boot
  code writes them. A start writes none of them, whatever its arguments.
\<close>

definition aes0_key_reg :: "nat \<Rightarrow> bool" where
  "aes0_key_reg k \<longleftrightarrow> 5 \<le> k \<and> k \<le> 10 \<or> 20 \<le> k \<and> k \<le> 31"

lemma reg_addr_slot0: "reg_addr b r = b + 8 * of_nat (unat r)"
  using reg_addr_slot [of b r 0] by simp

lemma aes_start_regs:
  assumes "(x, v) \<in> set (aes_start_writes b ks pr sr go pt st key)"
  shows "\<exists>i. x = b + 8 * of_nat i \<and> (i = unat ks \<or> i = unat go \<or>
     unat pr \<le> i \<and> i < unat pr + length pt \<or> unat sr \<le> i \<and> i < unat sr + length st)"
proof -
  consider "x = reg_addr b ks" | "x = reg_addr b go"
    | j where "j < length pt" "x = reg_addr b pr + 8 * of_nat j"
    | j where "j < length st" "x = reg_addr b sr + 8 * of_nat j"
  proof -
    have "x = reg_addr b ks \<or> x = reg_addr b go \<or> (x, v) \<in> set (block_writes (reg_addr b pr) pt) \<or>
        (x, v) \<in> set (block_writes (reg_addr b sr) st)"
      using assms by (auto simp: aes_start_writes_def)
    then show thesis using that block_writes_regs by metis
  qed
  then show ?thesis
  proof cases
    case (3 j)
    then have "x = b + 8 * of_nat (unat pr + j)" by (simp only: reg_addr_slot)
    then show ?thesis using 3(1) by (intro exI [of _ "unat pr + j"]) simp
  next
    case (4 j)
    then have "x = b + 8 * of_nat (unat sr + j)" by (simp only: reg_addr_slot)
    then show ?thesis using 4(1) by (intro exI [of _ "unat sr + j"]) simp
  qed (use reg_addr_slot0 in blast)+
qed

theorem aes0_start_keeps_keys:
  assumes "aes0_start_encrypt B pt st key_sel s = Some (r, s')" "aes0_key_reg k"
  shows "\<exists>ws. sent s' = sent s @ ws \<and> aes0 s + 8 * of_nat k \<notin> fst ` set ws"
proof -
  let ?ws = "aes_start_writes (aes0 s) AES0_KEY_SEL AES0_PT_BASE AES0_ST_BASE AES0_START
       (ld_words (ram s) pt 4) (ld_words (ram s) st 4) key_sel"
  have "aes0 s + 8 * of_nat k \<notin> fst ` set ?ws"
  proof
    assume "aes0 s + 8 * of_nat k \<in> fst ` set ?ws"
    then obtain v where "(aes0 s + 8 * of_nat k, v) \<in> set ?ws" by auto
    from aes_start_regs [OF this] obtain i where i: "aes0 s + 8 * of_nat k = aes0 s + 8 * of_nat i"
        "i = 32 \<or> i = 0 \<or> 1 \<le> i \<and> i < 5 \<or> 16 \<le> i \<and> i < 20"
      by (auto simp: aes0_regs simp del: add_left_cancel)
    moreover have "k < 2 ^ 32" using assms(2) by (auto simp: aes0_key_reg_def)
    moreover have "i < 2 ^ 32" using i(2) by auto
    ultimately have "k = i" using slot_inject [of k i "aes0 s"] by blast
    then show False using i(2) assms(2) by (auto simp: aes0_key_reg_def)
  qed
  then show ?thesis
    using engine_start_sends(4) [OF assms(1) [unfolded start_is_engine_start]] by blast
qed

section \<open>AES1\<close>

theorem aes1_write_config_fields:
  "sent (snd (aes1_write_config B config s)) = sent s @
     [(reg_addr (aes1 s) AES1_ENC_DEC, ucast (config mod 2)),
      (reg_addr (aes1 s) AES1_CTRL_BASE, ucast (config div 2 mod 4))] \<and>
   ram (snd (aes1_write_config B config s)) = ram s"
  by (simp add: aes1_write_config_def Let_def io_simps world_simps)

lemma aes1_write_data_sends:
  "sent (snd (aes1_write_data B blk key_sel s)) = sent s @
     block_writes (reg_addr (aes1 s) AES1_BLK_BASE) (ld_words (ram s) blk 4) @
     [(reg_addr (aes1 s) AES1_KEY_SEL, ucast key_sel)]"
  by (simp add: aes1_write_data_def Let_def io_simps writeMulti_sends)

section \<open>Finding the engines\<close>

interpretation aes3_observer: fdt_observer aes3_cb
  unfolding aes3_cb_def aes3_open_def aes3_prop_def aes3_done_def
  by (rule reg_cb_observer [unfolded reg_cb_def]) simp

theorem query_aes3_visits:
  assumes "fdt_understood (ram s) fdt"
    and "dt_at (ram s) (fdt + ucast (bswap (ld32 (ram s) (fdt + 12))))
           (fdt + ucast (bswap (ld32 (ram s) (fdt + 8)))) is e"
    and "bswap (ld32 (ram s) e) \<notin> {FDT_NOP, FDT_PROP, FDT_BEGIN_NODE}"
  shows "query_aes3 fdt scan s = map_option (snd \<circ> snd \<circ> snd) (dt_visit aes3_cb (ram s) [] (2, 1) False is (scan, s))"
  using fdt_scan_visits_runs [OF aes3_observer.fdt_observer_axioms assms]
  by (simp add: query_aes3_def option.map_comp comp_def)

text \<open>A pointer, once set, is never moved; an engine that was not found before is at its fixed address.\<close>

lemma query_aes_engines:
  "query_aes0 s = Some (if aes0 s = 0 then s\<lparr>aes0 := 0xfff5200000\<rparr> else s)"
  "query_aes1 s = Some (if aes1 s = 0 then s\<lparr>aes1 := 0xfff5201000\<rparr> else s)"
  "query_aes2 s = Some (if aes2 s = 0 then s\<lparr>aes2 := 0xfff5209000\<rparr> else s)"
  by (simp_all add: query_aes0_def query_aes1_def query_aes2_def aes0_done_def aes1_done_def aes2_done_def
      reg_done_def)

end
