(* ===== verification/Pkt.thy ===== *)
theory Pkt
  imports Aes
begin

text \<open>
  The fuse controller driver \<^verbatim>\<open>src/pk/machine/pkt.c\<close> and the register locks
  \<^verbatim>\<open>reglk.c\<close>: at boot the access-control words and the keys of the working engines are
  copied from the fuses to the places the fuse memory names, then the locks of all peripherals
  are written.
\<close>

definition PKT_FUSE_REQ :: u32 where "PKT_FUSE_REQ = 0"
definition PKT_FUSE_RADDR :: u32 where "PKT_FUSE_RADDR = 1"
definition PKT_WADDR_MSB :: u32 where "PKT_WADDR_MSB = 2"
definition PKT_WADDR_LSB :: u32 where "PKT_WADDR_LSB = 3"
definition PKT_FUSE_RDATA :: u32 where "PKT_FUSE_RDATA = 4"

text \<open>Where the words of each peripheral lie in the fuse memory: first index and number of words.\<close>

definition PKT_AES0 :: "u32 \<times> nat" where "PKT_AES0 = (0, 18)"
definition PKT_AES1 :: "u32 \<times> nat" where "PKT_AES1 = (18, 24)"
definition PKT_AES2 :: "u32 \<times> nat" where "PKT_AES2 = (42, 12)"
definition PKT_ACCT :: "u32 \<times> nat" where "PKT_ACCT = (60, 9)"
definition PKT_HMAC_KEY :: "u32 \<times> nat" where "PKT_HMAC_KEY = (69, 8)"
definition PKT_HMAC_iKEY :: "u32 \<times> nat" where "PKT_HMAC_iKEY = (77, 8)"
definition PKT_HMAC_oKEY :: "u32 \<times> nat" where "PKT_HMAC_oKEY = (85, 8)"
definition PKT_RNG :: "u32 \<times> nat" where "PKT_RNG = (93, 8)"

definition AES0_ID :: nat where "AES0_ID = 1"
definition AES1_ID :: nat where "AES1_ID = 2"
definition SHA256_ID :: nat where "SHA256_ID = 3"
definition HMAC_ID :: nat where "HMAC_ID = 4"
definition PKT_ID :: nat where "PKT_ID = 5"
definition ACCT_ID :: nat where "ACCT_ID = 6"
definition DMA_ID :: nat where "DMA_ID = 8"
definition REGLK_ID :: nat where "REGLK_ID = 9"
definition RNG_ID :: nat where "RNG_ID = 10"
definition AES2_ID :: nat where "AES2_ID = 11"
definition RST_ID :: nat where "RST_ID = 12"

definition REGLK_WORDS :: nat where "REGLK_WORDS = 10"
definition REGLK_BYTES :: nat where "REGLK_BYTES = 40"
definition REGLK_HMAC :: u8 where "REGLK_HMAC = 0x00"
definition REGLK_REGLK :: u8 where "REGLK_REGLK = 0xf7"
definition REGLK_ACCT :: u8 where "REGLK_ACCT = 0xec"
definition REGLK_PKT :: u8 where "REGLK_PKT = 0xcf"
definition REGLK_SHA256 :: u8 where "REGLK_SHA256 = 0x00"
definition REGLK_AES1 :: u8 where "REGLK_AES1 = 0x08"
definition REGLK_AES0 :: u8 where "REGLK_AES0 = 0xa0"
definition REGLK_AES2 :: u8 where "REGLK_AES2 = 0x20"
definition REGLK_DMA :: u8 where "REGLK_DMA = 0x00"
definition REGLK_RNG :: u8 where "REGLK_RNG = 0xa8"
definition REGLK_RST :: u8 where "REGLK_RST = 0x00"

section \<open>Copying the fuses\<close>

text \<open>The seven flags that \<^verbatim>\<open>pkt_copy_fuse_data\<close> takes.\<close>

record working =
  aes0_working :: u32
  aes1_working :: u32
  aes2_working :: u32
  sha256_working :: u32
  hmac_working :: u32
  rng_working :: u32
  rst_working :: u32

text \<open>One word: its index is requested, and after one idle cycle the device tells address and data.\<close>

definition copy_fuse_word :: "'d bus \<Rightarrow> u32 \<Rightarrow> 'd world \<Rightarrow> 'd world" where
  "copy_fuse_word B w s =
     (let s = writeToAddress B (pkt s) PKT_FUSE_RADDR w s;
          s = do_delay 1 s;
          (msb, s) = readFromAddress B (pkt s) PKT_WADDR_MSB s;
          (lsb, s) = readFromAddress B (pkt s) PKT_WADDR_LSB s;
          (wdata, s) = readFromAddress B (pkt s) PKT_FUSE_RDATA s
      in writeToAddress B (push_bit 32 (ucast msb) OR ucast lsb) 0 wdata s)"

primrec copy_fuse_loop :: "'d bus \<Rightarrow> u32 \<Rightarrow> nat \<Rightarrow> 'd world \<Rightarrow> 'd world" where
  "copy_fuse_loop B w 0 s = s"
| "copy_fuse_loop B w (Suc n) s = copy_fuse_loop B (w + 1) n (copy_fuse_word B w s)"

definition copy_fuse_range :: "'d bus \<Rightarrow> u32 \<times> nat \<Rightarrow> 'd world \<Rightarrow> 'd world" where
  "copy_fuse_range B r s = copy_fuse_loop B (fst r) (snd r) s"

definition pkt_fuse_phase :: "'d bus \<Rightarrow> working \<Rightarrow> 'd world \<Rightarrow> 'd world" where
  "pkt_fuse_phase B k s =
     (let s = writeToAddress B (pkt s) PKT_FUSE_REQ 1 s;
          s = copy_fuse_range B PKT_ACCT s;
          s = (if aes0_working k \<noteq> 0 then copy_fuse_range B PKT_AES0 s else s);
          s = (if aes1_working k \<noteq> 0 then
                 (let s = copy_fuse_range B PKT_AES1 s;
                      s = writeToAddress B (aes1 s) AES1_KEY0_LEN 0 s;
                      s = writeToAddress B (aes1 s) AES1_KEY1_LEN 1 s
                  in writeToAddress B (aes1 s) AES1_KEY2_LEN 1 s)
               else s);
          s = (if aes2_working k \<noteq> 0 then copy_fuse_range B PKT_AES2 s else s);
          s = (if hmac_working k \<noteq> 0 then
                 (let s = copy_fuse_range B PKT_HMAC_KEY s;
                      s = copy_fuse_range B PKT_HMAC_iKEY s
                  in copy_fuse_range B PKT_HMAC_oKEY s)
               else s);
          s = (if rng_working k \<noteq> 0 then copy_fuse_range B PKT_RNG s else s)
      in writeToAddress B (pkt s) PKT_FUSE_REQ 0 s)"

text \<open>
  The lock bytes. The bytes of an engine that does not work are set first, on the
  uninitialised array, and once more after the array has been cleared.
\<close>

definition reglk_first :: "working \<Rightarrow> u8 list \<Rightarrow> u8 list" where
  "reglk_first k bs =
     (let bs = (if aes0_working k = 0 then bs[AES0_ID := 0xff] else bs);
          bs = (if aes1_working k = 0 then bs[AES1_ID := 0xff] else bs);
          bs = (if aes2_working k = 0 then bs[AES2_ID := 0xff] else bs);
          bs = (if sha256_working k = 0 then bs[SHA256_ID := 0xff] else bs);
          bs = (if hmac_working k = 0 then bs[HMAC_ID := 0xff] else bs);
          bs = (if rng_working k = 0 then bs[RNG_ID := 0xff] else bs)
      in if rst_working k = 0 then bs[RST_ID := 0xff] else bs)"

primrec reglk_clear :: "nat \<Rightarrow> u8 list \<Rightarrow> u8 list" where
  "reglk_clear 0 bs = bs"
| "reglk_clear (Suc n) bs = (reglk_clear n bs)[n := 0]"

definition reglk_set :: "working \<Rightarrow> u8 list \<Rightarrow> u8 list" where
  "reglk_set k bs =
     (let bs = reglk_clear REGLK_BYTES bs;
          bs = bs[RNG_ID := if rng_working k \<noteq> 0 then REGLK_RNG else 0xff];
          bs = bs[HMAC_ID := if hmac_working k \<noteq> 0 then REGLK_HMAC else 0xff];
          bs = bs[REGLK_ID := REGLK_REGLK];
          bs = bs[ACCT_ID := REGLK_ACCT];
          bs = bs[PKT_ID := REGLK_PKT];
          bs = bs[SHA256_ID := if sha256_working k \<noteq> 0 then REGLK_SHA256 else 0xff];
          bs = bs[AES1_ID := if aes1_working k \<noteq> 0 then REGLK_AES1 else 0xff];
          bs = bs[AES0_ID := if aes0_working k \<noteq> 0 then REGLK_AES0 else 0xff];
          bs = bs[AES2_ID := if aes2_working k \<noteq> 0 then REGLK_AES2 else 0xff];
          bs = bs[DMA_ID := REGLK_DMA]
      in bs[RST_ID := if rst_working k \<noteq> 0 then REGLK_RST else 0xff])"

text \<open>The union \<^verbatim>\<open>reglk_blk\<close> of \<^verbatim>\<open>common_driver_fn.h\<close>: byte \<^verbatim>\<open>s0\<close> is the lowest.\<close>

definition reglk_blk :: "u8 \<Rightarrow> u8 \<Rightarrow> u8 \<Rightarrow> u8 \<Rightarrow> u32" where
  "reglk_blk s0 s1 s2 s3 = le_word [s0, s1, s2, s3]"

primrec reglk_write :: "'d bus \<Rightarrow> u8 list \<Rightarrow> nat \<Rightarrow> 'd world \<Rightarrow> 'd world" where
  "reglk_write B bs 0 s = s"
| "reglk_write B bs (Suc n) s =
     (let s = reglk_write B bs n s
      in writeToAddress B (reglk s) (of_nat n)
           (reglk_blk (bs ! (n * 4)) (bs ! (n * 4 + 1)) (bs ! (n * 4 + 2)) (bs ! (n * 4 + 3))) s)"

definition crlf :: string where "crlf = [CHR 0x0D, CHR 0x0A]"

definition pkt_copy_fuse_data :: "'d bus \<Rightarrow> u8 list \<Rightarrow> working \<Rightarrow> 'd world \<Rightarrow> (u32 \<times> 'd world) option" where
  "pkt_copy_fuse_data B reglk_bytes k s =
     (let reglk_bytes = reglk_first k reglk_bytes
      in do { s \<leftarrow> printm B (''    Setting the FUSE data'' @ crlf) [] s;
              let s = pkt_fuse_phase B k s;
              s \<leftarrow> printm B (''    Setting the register locks'' @ crlf) [] s;
              let reglk_bytes = reglk_set k reglk_bytes;
              Some (0, reglk_write B reglk_bytes REGLK_WORDS s) })"

definition pkt_open :: "(reg_scan, 'd) node_cb" where "pkt_open = reg_open"

definition pkt_prop :: "fdt_prop \<Rightarrow> reg_scan \<times> 'd world \<Rightarrow> (reg_scan \<times> 'd world) option" where
  "pkt_prop = reg_prop ''hd20,pkt''"

definition pkt_done :: "(reg_scan, 'd) node_cb" where
  "pkt_done = reg_done pkt (\<lambda>v s. s\<lparr>pkt := v\<rparr>)"

definition query_pkt :: "'d world \<Rightarrow> 'd world option" where
  "query_pkt s = map_option snd (pkt_done [] (\<lparr>rs_compat = 1, rs_reg = 0xfff5204000\<rparr>, s))"

definition reglk_open :: "(reg_scan, 'd) node_cb" where "reglk_open = reg_open"

definition reglk_prop :: "fdt_prop \<Rightarrow> reg_scan \<times> 'd world \<Rightarrow> (reg_scan \<times> 'd world) option" where
  "reglk_prop = reg_prop ''hd20,reglk''"

definition reglk_done :: "(reg_scan, 'd) node_cb" where
  "reglk_done = reg_done reglk (\<lambda>v s. s\<lparr>reglk := v\<rparr>)"

definition query_reglk :: "'d world \<Rightarrow> 'd world option" where
  "query_reglk s = map_option snd (reglk_done [] (\<lparr>rs_compat = 1, rs_reg = 0xfff5206000\<rparr>, s))"

section \<open>The lock bytes\<close>

text \<open>
  What each peripheral's byte is meant to be: its constant when it works or needs no working
  engine, all locks when its engine does not work, none for the other peripherals.
\<close>

definition lock_byte :: "working \<Rightarrow> nat \<Rightarrow> u8" where
  "lock_byte k i =
     (if i = AES0_ID then (if aes0_working k \<noteq> 0 then 0xa0 else 0xff)
      else if i = AES1_ID then (if aes1_working k \<noteq> 0 then 0x08 else 0xff)
      else if i = SHA256_ID then (if sha256_working k \<noteq> 0 then 0 else 0xff)
      else if i = HMAC_ID then (if hmac_working k \<noteq> 0 then 0 else 0xff)
      else if i = PKT_ID then 0xcf
      else if i = ACCT_ID then 0xec
      else if i = REGLK_ID then 0xf7
      else if i = RNG_ID then (if rng_working k \<noteq> 0 then 0xa8 else 0xff)
      else if i = AES2_ID then (if aes2_working k \<noteq> 0 then 0x20 else 0xff)
      else if i = RST_ID then (if rst_working k \<noteq> 0 then 0 else 0xff)
      else 0)"

lemmas lock_ids = AES0_ID_def AES1_ID_def SHA256_ID_def HMAC_ID_def PKT_ID_def ACCT_ID_def
  DMA_ID_def REGLK_ID_def RNG_ID_def AES2_ID_def RST_ID_def

lemmas lock_values = REGLK_HMAC_def REGLK_REGLK_def REGLK_ACCT_def REGLK_PKT_def REGLK_SHA256_def
  REGLK_AES1_def REGLK_AES0_def REGLK_AES2_def REGLK_DMA_def REGLK_RNG_def REGLK_RST_def

lemma length_reglk_clear [simp]: "length (reglk_clear n bs) = length bs"
  by (induction n) auto

lemma reglk_clear_nth: "i < n \<Longrightarrow> n \<le> length bs \<Longrightarrow> reglk_clear n bs ! i = 0"
proof (induction n)
  case (Suc n)
  then show ?case by (cases "i = n") (simp_all add: nth_list_update)
qed simp

lemma length_reglk_first [simp]: "length (reglk_first k bs) = length bs"
  by (simp add: reglk_first_def Let_def)

lemma reglk_set_nth:
  assumes "length bs = REGLK_BYTES" "i < REGLK_BYTES"
  shows "reglk_set k bs ! i = lock_byte k i"
proof -
  have "reglk_clear REGLK_BYTES bs ! i = 0"
    using assms by (intro reglk_clear_nth) simp_all
  then show ?thesis
    using assms unfolding reglk_set_def Let_def
    by (simp add: nth_list_update lock_byte_def lock_values lock_ids REGLK_BYTES_def del: One_nat_def)
qed

text \<open>
  So the bytes set before the clearing are lost, and with them the garbage of the
  uninitialised array: the locks depend on the flags alone.
\<close>

lemma reglk_bytes_final_runs:
  assumes "length bs = REGLK_BYTES"
  shows "reglk_set k (reglk_first k bs) = map (lock_byte k) [0..<REGLK_BYTES]"
proof (rule nth_equalityI)
  show "length (reglk_set k (reglk_first k bs)) = length (map (lock_byte k) [0..<REGLK_BYTES])"
    using assms by (simp add: reglk_set_def Let_def)
next
  fix i assume "i < length (reglk_set k (reglk_first k bs))"
  then have "i < REGLK_BYTES" using assms by (simp add: reglk_set_def Let_def)
  then show "reglk_set k (reglk_first k bs) ! i = map (lock_byte k) [0..<REGLK_BYTES] ! i"
    using assms by (simp add: reglk_set_nth)
qed

theorem reglk_bytes_final:
  assumes "length bs = REGLK_BYTES"
  shows "reglk_set k (reglk_first k bs) = map (lock_byte k) [0..<REGLK_BYTES]"
  using assms by (rule reglk_bytes_final_runs)

section \<open>The boot sequence seen by the devices\<close>

text \<open>
  A fuse controller with the addresses \<open>fa\<close> and the contents \<open>fd\<close>: it keeps the last index
  written and answers the three reads from it.
\<close>

definition fuse_device :: "'d bus \<Rightarrow> u64 \<Rightarrow> ('d \<Rightarrow> u32) \<Rightarrow> (u32 \<Rightarrow> u64) \<Rightarrow> (u32 \<Rightarrow> u32) \<Rightarrow> bool" where
  "fuse_device B b idx fa fd \<longleftrightarrow>
     (\<forall>d w. idx (bus_wr B 4 (reg_addr b PKT_FUSE_RADDR) (ucast w) d) = w) \<and>
     (\<forall>d r. idx (snd (bus_rd B 4 (reg_addr b r) d)) = idx d) \<and>
     (\<forall>d. fst (bus_rd B 4 (reg_addr b PKT_WADDR_MSB) d) = drop_bit 32 (fa (idx d))) \<and>
     (\<forall>d. fst (bus_rd B 4 (reg_addr b PKT_WADDR_LSB) d) = take_bit 32 (fa (idx d))) \<and>
     (\<forall>d. fst (bus_rd B 4 (reg_addr b PKT_FUSE_RDATA) d) = ucast (fd (idx d)))"

definition word_sends :: "u64 \<Rightarrow> (u32 \<Rightarrow> u64) \<Rightarrow> (u32 \<Rightarrow> u32) \<Rightarrow> u32 \<Rightarrow> (u64 \<times> u64) list" where
  "word_sends b fa fd w = [(reg_addr b PKT_FUSE_RADDR, ucast w), (fa w, ucast (fd w))]"

definition range_sends :: "u64 \<Rightarrow> (u32 \<Rightarrow> u64) \<Rightarrow> (u32 \<Rightarrow> u32) \<Rightarrow> u32 \<times> nat \<Rightarrow> (u64 \<times> u64) list" where
  "range_sends b fa fd r = concat (map (\<lambda>i. word_sends b fa fd (fst r + of_nat i)) [0..<snd r])"

definition fuse_sends :: "u64 \<Rightarrow> u64 \<Rightarrow> (u32 \<Rightarrow> u64) \<Rightarrow> (u32 \<Rightarrow> u32) \<Rightarrow> working \<Rightarrow> (u64 \<times> u64) list" where
  "fuse_sends b a1 fa fd k =
     [(reg_addr b PKT_FUSE_REQ, 1)] @ range_sends b fa fd PKT_ACCT @
     (if aes0_working k = 0 then [] else range_sends b fa fd PKT_AES0) @
     (if aes1_working k = 0 then [] else range_sends b fa fd PKT_AES1 @
        [(reg_addr a1 AES1_KEY0_LEN, 0), (reg_addr a1 AES1_KEY1_LEN, 1), (reg_addr a1 AES1_KEY2_LEN, 1)]) @
     (if aes2_working k = 0 then [] else range_sends b fa fd PKT_AES2) @
     (if hmac_working k = 0 then [] else range_sends b fa fd PKT_HMAC_KEY @
        range_sends b fa fd PKT_HMAC_iKEY @ range_sends b fa fd PKT_HMAC_oKEY) @
     (if rng_working k = 0 then [] else range_sends b fa fd PKT_RNG) @
     [(reg_addr b PKT_FUSE_REQ, 0)]"

definition lock_word :: "working \<Rightarrow> nat \<Rightarrow> u32" where
  "lock_word k n = reglk_blk (lock_byte k (4 * n)) (lock_byte k (4 * n + 1))
     (lock_byte k (4 * n + 2)) (lock_byte k (4 * n + 3))"

definition lock_sends :: "u64 \<Rightarrow> working \<Rightarrow> nat \<Rightarrow> (u64 \<times> u64) list" where
  "lock_sends b k n = map (\<lambda>i. (reg_addr b (of_nat i), ucast (lock_word k i))) [0..<n]"

lemma join_halves: "push_bit 32 (ucast (ucast (drop_bit 32 a) :: u32)) OR ucast (ucast (take_bit 32 a) :: u32) = (a :: u64)"
  by (rule bit_word_eqI) (auto simp: bit_simps dest: bit_imp_le_length)

lemma fuse_rd:
  assumes "fuse_device B b idx fa fd"
  shows "fst (readFromAddress B b PKT_WADDR_MSB s) = ucast (drop_bit 32 (fa (idx (dev s))))"
    "fst (readFromAddress B b PKT_WADDR_LSB s) = ucast (take_bit 32 (fa (idx (dev s))))"
    "fst (readFromAddress B b PKT_FUSE_RDATA s) = fd (idx (dev s))"
    "idx (dev (snd (readFromAddress B b r s))) = idx (dev s)"
    "idx (dev (writeToAddress B b PKT_FUSE_RADDR w s)) = w"
  using assms
  by (auto simp: fuse_device_def readFromAddress_def writeToAddress_def mmio_rd_def mmio_wr_def split: prod.split)
    (metis fst_conv snd_conv ucast_u32_u64_u32)+

lemma copy_fuse_word_io: "io_step s (copy_fuse_word B w s)"
  unfolding copy_fuse_word_def Let_def split_beta
  by (rule io_step_trans [OF _ io_step_access(2)], rule io_step_trans [OF _ io_step_access(1)],
      rule io_step_trans [OF _ io_step_access(1)], rule io_step_trans [OF _ io_step_access(1)],
      rule io_step_trans [OF _ io_step_intros(4)], rule io_step_access(2))

lemma copy_fuse_word_sends:
  assumes "fuse_device B (pkt s) idx fa fd"
  shows "sent (copy_fuse_word B w s) = sent s @ word_sends (pkt s) fa fd w"
proof -
  have z: "reg_addr a 0 = a" for a by (simp add: reg_addr_def)
  show ?thesis
    using fuse_rd [OF assms]
    by (simp add: copy_fuse_word_def Let_def split_beta io_simps word_sends_def world_simps z join_halves)
qed

lemma copy_fuse_loop_io: "io_step s (copy_fuse_loop B w n s)"
proof (induction n arbitrary: w s)
  case (Suc n)
  show ?case using io_step_trans [OF copy_fuse_word_io Suc.IH] by simp
qed simp

lemma copy_fuse_loop_sends:
  "fuse_device B (pkt s) idx fa fd \<Longrightarrow>
     sent (copy_fuse_loop B w n s) = sent s @ range_sends (pkt s) fa fd (w, n)"
proof (induction n arbitrary: w s)
  case (Suc n)
  have p: "pkt (copy_fuse_word B w s) = pkt s" by (rule io_step_fields [OF copy_fuse_word_io])
  then show ?case
    using Suc.IH [of "copy_fuse_word B w s" "w + 1"] Suc.prems copy_fuse_word_sends [OF Suc.prems]
    by (simp add: range_sends_def upt_conv_Cons comp_def map_Suc_upt [symmetric] add.assoc del: upt_Suc)
qed (simp add: range_sends_def)

lemma copy_fuse_range_io: "io_step s (copy_fuse_range B r s)"
  by (simp add: copy_fuse_range_def copy_fuse_loop_io)

lemmas copy_fuse_fields [simp] = io_step_fields [OF copy_fuse_range_io]

lemma copy_fuse_range_sends:
  "fuse_device B (pkt s) idx fa fd \<Longrightarrow>
     sent (copy_fuse_range B r s) = sent s @ range_sends (pkt s) fa fd r"
  by (simp add: copy_fuse_range_def copy_fuse_loop_sends)

lemma pkt_fuse_phase_io: "io_step s (pkt_fuse_phase B k s)"
proof -
  have if_io: "io_step s t \<Longrightarrow> io_step t t' \<Longrightarrow> io_step s (if c then t' else t)" for t t' :: "'a world" and c
    using io_step_trans [of s t t'] by simp
  note steps = io_step_trans [OF _ io_step_access(2)] io_step_trans [OF _ copy_fuse_range_io]
    copy_fuse_range_io io_step_access(2) io_step_refl
  show ?thesis
    unfolding pkt_fuse_phase_def Let_def by (intro steps(1) if_io; (intro steps)?)
qed

lemma pkt_fuse_phase_sends:
  assumes "fuse_device B (pkt s) idx fa fd"
  shows "sent (pkt_fuse_phase B k s) = sent s @ fuse_sends (pkt s) (aes1 s) fa fd k"
  using assms
  by (simp add: pkt_fuse_phase_def Let_def io_simps copy_fuse_range_sends [where fa = fa and fd = fd and idx = idx]
      fuse_sends_def)

lemma reglk_write_io: "io_step s (reglk_write B bs n s)"
proof (induction n)
  case (Suc n)
  show ?case using io_step_trans [OF Suc.IH io_step_access(2)] by (simp add: Let_def)
qed simp

lemma reglk_write_sends:
  assumes "n \<le> REGLK_WORDS"
  shows "sent (reglk_write B (map (lock_byte k) [0..<REGLK_BYTES]) n s) = sent s @ lock_sends (reglk s) k n"
  using assms
proof (induction n)
  case (Suc n)
  then have n: "n * 4 < REGLK_BYTES" "n * 4 + 1 < REGLK_BYTES" "n * 4 + 2 < REGLK_BYTES" "n * 4 + 3 < REGLK_BYTES"
    by (simp_all add: REGLK_WORDS_def REGLK_BYTES_def)
  have nth: "i < REGLK_BYTES \<Longrightarrow> map (lock_byte k) [0..<REGLK_BYTES] ! i = lock_byte k i" for i by simp
  from Suc show ?case
    by (simp add: Let_def io_simps lock_sends_def lock_word_def mult.commute [of 4] nth [OF n(1)]
        nth [OF n(2)] nth [OF n(3)] nth [OF n(4)] io_step_fields(12) [OF reglk_write_io] del: One_nat_def add_2_eq_Suc')
qed (simp add: lock_sends_def)

text \<open>A text without conversions prints as itself.\<close>

lemma format_text_plain: "37 \<notin> set t \<Longrightarrow> format_text m out n t vl = Some t"
  by (induction t arbitrary: vl) auto

lemma printm_text:
  assumes "37 \<notin> set (bytes_of t)" "0 \<notin> set (bytes_of t)" "length t < 255"
    and "uart s = 0" "uart16550 s \<noteq> 0" "tx_ready B (uart16550_reg UART_REG_LSR s)"
  shows "\<exists>s'. printm B t [] s = Some s' \<and> io_step s s' \<and>
     sent s' = sent s @ map (\<lambda>c. (uart16550_reg UART_REG_QUEUE s, ucast c)) (bytes_of t)"
proof -
  have len: "length (bytes_of t) < 255" using assms(3) by (simp add: bytes_of_def)
  show ?thesis
    using printm_prints_runs [OF format_text_plain [OF assms(1)] _ assms(2,4-6), of "[]"] len by simp
qed

definition says :: "'d world \<Rightarrow> string \<Rightarrow> (u64 \<times> u64) list" where
  "says s t = map (\<lambda>c. (uart16550_reg UART_REG_QUEUE s, ucast c)) (bytes_of t)"

text \<open>
  The whole boot step with the 16550 console: it returns, and the devices see the message, the
  fuse request, the words of exactly the working engines, the end of the request, the second
  message and then the ten lock words, in this order.
\<close>

text \<open>
  \<^bold>\<open>C37\<close>: The fuse distribution at boot sends the words of exactly the working
  engines to the places the fuse memory names and then the lock words, in this order.
\<close>

theorem pkt_copy_fuse_data_sends:
  assumes "length bs = REGLK_BYTES" "fuse_device B (pkt s) idx fa fd"
    and "uart s = 0" "uart16550 s \<noteq> 0" "tx_ready B (uart16550_reg UART_REG_LSR s)"
  shows "\<exists>s'. pkt_copy_fuse_data B bs k s = Some (0, s') \<and> io_step s s' \<and>
     sent s' = sent s @ says s (''    Setting the FUSE data'' @ crlf) @ fuse_sends (pkt s) (aes1 s) fa fd k @
       says s (''    Setting the register locks'' @ crlf) @ lock_sends (reglk s) k REGLK_WORDS"
proof -
  define t1 t2 where "t1 = ''    Setting the FUSE data'' @ crlf" and "t2 = ''    Setting the register locks'' @ crlf"
  have t: "37 \<notin> set (bytes_of t1)" "0 \<notin> set (bytes_of t1)" "length t1 < 255"
      "37 \<notin> set (bytes_of t2)" "0 \<notin> set (bytes_of t2)" "length t2 < 255"
    by (simp_all add: bytes_of_def crlf_def t1_def t2_def)
  obtain s1 where s1: "printm B t1 [] s = Some s1" "io_step s s1" "sent s1 = sent s @ says s t1"
    using printm_text [OF t(1-3) assms(3-5)] by (auto simp: says_def)
  define s2 where "s2 = pkt_fuse_phase B k s1"
  have "fuse_device B (pkt s1) idx fa fd" using assms(2) by (simp add: io_step_fields [OF s1(2)])
  then have sent2: "sent s2 = sent s1 @ fuse_sends (pkt s) (aes1 s) fa fd k"
    by (simp add: s2_def pkt_fuse_phase_sends io_step_fields [OF s1(2)])
  have io2: "io_step s s2" unfolding s2_def using s1(2) pkt_fuse_phase_io by (rule io_step_trans)
  note f2 = io_step_fields [OF io2]
  have con: "uart s2 = 0" "uart16550 s2 \<noteq> 0" and reg: "uart16550_reg r s2 = uart16550_reg r s" for r
    using assms(3,4) by (simp_all add: f2 uart16550_reg_io [OF io2])
  have "tx_ready B (uart16550_reg UART_REG_LSR s2)" using assms(5) by (simp only: reg)
  from printm_text [OF t(4-6) con this]
  obtain s3 where s3: "printm B t2 [] s2 = Some s3" "io_step s2 s3" "sent s3 = sent s2 @ says s t2"
    by (auto simp: says_def reg)
  have io3: "io_step s s3" using io2 s3(2) by (rule io_step_trans)
  let ?s' = "reglk_write B (map (lock_byte k) [0..<REGLK_BYTES]) REGLK_WORDS s3"
  have "pkt_copy_fuse_data B bs k s = Some (0, ?s')"
    using s1(1) s3(1) reglk_bytes_final_runs [OF assms(1)]
    unfolding pkt_copy_fuse_data_def Let_def t1_def [symmetric] t2_def [symmetric] s2_def by simp
  moreover have "sent ?s' = sent s3 @ lock_sends (reglk s) k REGLK_WORDS"
    by (simp add: reglk_write_sends io_step_fields [OF io3])
  moreover have "io_step s ?s'" using io3 reglk_write_io by (rule io_step_trans)
  ultimately show ?thesis using s1(3) sent2 s3(3) unfolding t1_def [symmetric] t2_def [symmetric] by simp
qed

lemma query_fuse_devices:
  "query_pkt s = Some (if pkt s = 0 then s\<lparr>pkt := 0xfff5204000\<rparr> else s)"
  "query_reglk s = Some (if reglk s = 0 then s\<lparr>reglk := 0xfff5206000\<rparr> else s)"
  by (simp_all add: query_pkt_def pkt_done_def query_reglk_def reglk_done_def reg_done_def)

end
