(* ===== verification/Sbi.thy ===== *)
theory Sbi
  imports Dma Hash RngRsa Pkt
begin

text \<open>
  The machine-mode trap handlers of \<^verbatim>\<open>src/pk/machine/mtrap.c\<close>: the supervisor binary
  interface \<^verbatim>\<open>mcall_trap\<close> with one definition per call, inter-processor interrupts, the
  redirection of traps to supervisor mode, page faults taken while emulating an instruction, and
  the end of the machine.

  \<open>None\<close> is a call that does not return: \<^verbatim>\<open>poweroff\<close>, a device that never answers, or a load
  on behalf of the caller that faults (the fault handler then leaves for supervisor mode).
\<close>

section \<open>What lies outside the sources\<close>

text \<open>
  The bus, the error number of the C library, how the hart answers a load with the privileges
  of the interrupted code (\<open>None\<close>: it faults), the addresses of the string literal
  \<^verbatim>\<open>__FILE__\<close> and of the local buffer of \<^verbatim>\<open>sha256_hashString\<close>, and what the host has done to
  memory when it answers a system call of the proxy kernel, the addresses of string literals, and how the thirteen fields
  of the C library's \<^verbatim>\<open>struct stat\<close> are stored.
\<close>

record 'd platform =
  bus_of :: "'d bus"
  ENOSYS :: u64
  load_uintptr_t :: "u64 \<Rightarrow> u64 \<Rightarrow> 'd world \<Rightarrow> u64 option"
  file_name :: u64
  sha_message :: u64
  host_mem :: "'d \<Rightarrow> ram \<Rightarrow> ram"
  lit_at :: "string \<Rightarrow> u64"
  put_stat :: "u64 \<Rightarrow> u64 list \<Rightarrow> ram \<Rightarrow> ram"

definition IPI_SOFT :: u32 where "IPI_SOFT = 0x1"
definition IPI_FENCE_I :: u32 where "IPI_FENCE_I = 0x2"
definition IPI_SFENCE_VMA :: u32 where "IPI_SFENCE_VMA = 0x4"
definition IPI_HALT :: u32 where "IPI_HALT = 0x8"

definition MIP_SSIP :: u64 where "MIP_SSIP = 0x2"
definition MIP_STIP :: u64 where "MIP_STIP = 0x20"
definition MIP_MTIP :: u64 where "MIP_MTIP = 0x80"

definition MSTATUS_SIE :: u64 where "MSTATUS_SIE = 0x2"
definition MSTATUS_SPIE :: u64 where "MSTATUS_SPIE = 0x20"
definition MSTATUS_SPP :: u64 where "MSTATUS_SPP = 0x100"
definition MSTATUS_MPP :: u64 where "MSTATUS_MPP = 0x1800"
definition MSTATUS_MPRV :: u64 where "MSTATUS_MPRV = 0x20000"
definition MSTATUS_MXR :: u64 where "MSTATUS_MXR = 0x80000"

definition CAUSE_FETCH_ACCESS :: u64 where "CAUSE_FETCH_ACCESS = 1"
definition CAUSE_LOAD_ACCESS :: u64 where "CAUSE_LOAD_ACCESS = 5"
definition CAUSE_STORE_ACCESS :: u64 where "CAUSE_STORE_ACCESS = 7"
definition CAUSE_FETCH_PAGE_FAULT :: u64 where "CAUSE_FETCH_PAGE_FAULT = 12"
definition CAUSE_LOAD_PAGE_FAULT :: u64 where "CAUSE_LOAD_PAGE_FAULT = 13"
definition CAUSE_STORE_PAGE_FAULT :: u64 where "CAUSE_STORE_PAGE_FAULT = 15"

section \<open>Inter-processor interrupts\<close>

definition send_ipi :: "'d bus \<Rightarrow> u64 \<Rightarrow> u32 \<Rightarrow> 'd world \<Rightarrow> 'd world" where
  "send_ipi B recipient event s =
     (if drop_bit (unat recipient) (disabled_hart_mask s) AND 1 \<noteq> 0 then s
      else let h = hls_of s (unat recipient);
               s = s\<lparr>hls_of := (hls_of s)(unat recipient := h\<lparr>mipi_pending := mipi_pending h OR event\<rparr>)\<rparr>
           in mmio_wr B 4 (ipi (hls_of s (unat recipient))) 1 s)"

text \<open>\<^verbatim>\<open>for (uintptr_t i = 0, m = mask; m; i++, m >>= 1) if (m & 1) send_ipi(i, event);\<close>\<close>

lemma half_less: "m \<noteq> 0 \<Longrightarrow> unat (drop_bit 1 (m :: u64)) < unat m"
proof -
  assume "m \<noteq> 0"
  then have "0 < unat m" by (simp add: unat_gt_0)
  then show ?thesis unfolding unat_drop_bit_eq unfolding drop_bit_eq_div by simp
qed

function send_ipis :: "'d bus \<Rightarrow> u32 \<Rightarrow> u64 \<Rightarrow> u64 \<Rightarrow> 'd world \<Rightarrow> 'd world" where
  "send_ipis B event i m s =
     (if m = 0 then s
      else let s = (if m AND 1 \<noteq> 0 then send_ipi B i event s else s)
           in send_ipis B event (i + 1) (drop_bit 1 m) s)"
  by pat_completeness auto
termination
  by (relation "measure (\<lambda>(B, event, i, m, s). unat m)") (auto simp: half_less [simplified])

declare send_ipis.simps [simp del]

text \<open>\<^verbatim>\<open>while ( *OTHER_HLS(i)->ipi) incoming_ipi |= atomic_swap(HLS()->ipi, 0);\<close>\<close>

definition this_hart :: "'d world \<Rightarrow> nat" where
  "this_hart s = unat (read_csr MHARTID s)"

definition amoswap_w :: "'d bus \<Rightarrow> u64 \<Rightarrow> u32 \<Rightarrow> 'd world \<Rightarrow> u32 \<times> 'd world" where
  "amoswap_w B a v s = (let (r, s) = mmio_rd B 4 a s in (ucast r, mmio_wr B 4 a (ucast v) s))"

partial_function (option) ipi_wait :: "'d bus \<Rightarrow> u64 \<Rightarrow> u32 \<Rightarrow> 'd world \<Rightarrow> (u32 \<times> 'd world) option" where
  "ipi_wait B i incoming s =
     (let (v, s) = mmio_rd B 4 (ipi (hls_of s (unat i))) s
      in if (ucast v :: u32) \<noteq> 0
         then (let (r, s) = amoswap_w B (ipi (hls_of s (this_hart s))) 0 s
               in ipi_wait B i (incoming OR r) s)
         else Some (incoming, s))"

function ipi_waits :: "'d bus \<Rightarrow> u64 \<Rightarrow> u64 \<Rightarrow> u32 \<Rightarrow> 'd world \<Rightarrow> (u32 \<times> 'd world) option" where
  "ipi_waits B i m incoming s =
     (if m = 0 then Some (incoming, s)
      else do { (incoming, s) \<leftarrow> (if m AND 1 \<noteq> 0 then ipi_wait B i incoming s else Some (incoming, s));
                ipi_waits B (i + 1) (drop_bit 1 m) incoming s })"
  by pat_completeness auto
termination
  by (relation "measure (\<lambda>(B, i, m, incoming, s). unat m)") (auto simp: half_less [simplified])

declare ipi_waits.simps [simp del]

definition send_ipi_many :: "'d platform \<Rightarrow> u64 \<Rightarrow> u32 \<Rightarrow> 'd world \<Rightarrow> 'd world option" where
  "send_ipi_many P pmask event s =
     do { mask \<leftarrow> (if pmask = 0 then Some (hart_mask s)
                  else map_option (\<lambda>v. hart_mask s AND v) (load_uintptr_t P pmask (read_csr MEPC s) s));
          let s = send_ipis (bus_of P) event 0 mask s;
          if event = IPI_SOFT then Some s
          else do {
            (incoming, s) \<leftarrow> ipi_waits (bus_of P) 0 mask 0 s;
            Some (if incoming \<noteq> 0 then mmio_wr (bus_of P) 4 (ipi (hls_of s (this_hart s))) (ucast incoming) s
                  else s) } }"

section \<open>The end of the machine\<close>

partial_function (option) wfi_forever :: "'d world \<Rightarrow> 'd world option" where
  "wfi_forever s = wfi_forever s"

definition poweroff :: "'d platform \<Rightarrow> u16 \<Rightarrow> 'd world \<Rightarrow> 'd world option" where
  "poweroff P code s =
     do { s \<leftarrow> printm (bus_of P) (''Power off'' @ crlf) [] s;
          let s = finisher_exit (bus_of P) code s;
          if htif s \<noteq> 0 then htif_poweroff (bus_of P) s
          else do { s \<leftarrow> send_ipi_many P 0 IPI_HALT s; wfi_forever s } }"

text \<open>The macro \<^verbatim>\<open>die(str, ...)\<close> at line \<open>line\<close>.\<close>

definition die :: "'d platform \<Rightarrow> u64 \<Rightarrow> string \<Rightarrow> u64 list \<Rightarrow> 'd world \<Rightarrow> 'd world option" where
  "die P line str vl s =
     do { s \<leftarrow> printm (bus_of P) (''%s:%d: '' @ str @ newline) (file_name P # line # vl) s;
          poweroff P (-1) s }"

definition bad_trap :: "'d platform \<Rightarrow> u64 \<Rightarrow> 'd world \<Rightarrow> 'd world option" where
  "bad_trap P mepc s =
     die P 30 ''machine mode: unhandlable trap %d @ %p'' [read_csr MCAUSE s, mepc] s"

section \<open>The calls\<close>

definition SBI_SET_TIMER :: u64 where "SBI_SET_TIMER = 0"
definition SBI_CONSOLE_PUTCHAR :: u64 where "SBI_CONSOLE_PUTCHAR = 1"
definition SBI_CONSOLE_GETCHAR :: u64 where "SBI_CONSOLE_GETCHAR = 2"
definition SBI_CLEAR_IPI :: u64 where "SBI_CLEAR_IPI = 3"
definition SBI_SEND_IPI :: u64 where "SBI_SEND_IPI = 4"
definition SBI_REMOTE_FENCE_I :: u64 where "SBI_REMOTE_FENCE_I = 5"
definition SBI_REMOTE_SFENCE_VMA :: u64 where "SBI_REMOTE_SFENCE_VMA = 6"
definition SBI_REMOTE_SFENCE_VMA_ASID :: u64 where "SBI_REMOTE_SFENCE_VMA_ASID = 7"
definition SBI_SHUTDOWN :: u64 where "SBI_SHUTDOWN = 8"
definition SBI_AES0_START_ENCRYPT :: u64 where "SBI_AES0_START_ENCRYPT = 20"
definition SBI_AES0_WAIT :: u64 where "SBI_AES0_WAIT = 21"
definition SBI_AES0_DATA_OUT :: u64 where "SBI_AES0_DATA_OUT = 22"
definition SBI_SHA256_HASH :: u64 where "SBI_SHA256_HASH = 23"
definition SBI_HMAC_HASH :: u64 where "SBI_HMAC_HASH = 24"
definition SBI_DMA_COPY :: u64 where "SBI_DMA_COPY = 25"
definition SBI_CMP :: u64 where "SBI_CMP = 26"
definition SBI_AES1_READ_DATA :: u64 where "SBI_AES1_READ_DATA = 31"
definition SBI_AES1_WRITE_DATA :: u64 where "SBI_AES1_WRITE_DATA = 32"
definition SBI_AES1_READ_CONFIG :: u64 where "SBI_AES1_READ_CONFIG = 33"
definition SBI_AES1_WRITE_CONFIG :: u64 where "SBI_AES1_WRITE_CONFIG = 34"
definition SBI_PUTS :: u64 where "SBI_PUTS = 35"
definition SBI_DMA_END :: u64 where "SBI_DMA_END = 36"
definition SBI_RNG_WAIT :: u64 where "SBI_RNG_WAIT = 37"
definition SBI_RNG_READ_DATA :: u64 where "SBI_RNG_READ_DATA = 38"
definition SBI_RNG_READ_POLY :: u64 where "SBI_RNG_READ_POLY = 39"
definition SBI_RNG_WRITE_POLY :: u64 where "SBI_RNG_WRITE_POLY = 40"
definition SBI_RNG_READ_SEED :: u64 where "SBI_RNG_READ_SEED = 41"
definition SBI_RNG_WRITE_SEED :: u64 where "SBI_RNG_WRITE_SEED = 42"
definition SBI_RNG_READ_RAND_SEG :: u64 where "SBI_RNG_READ_RAND_SEG = 43"
definition SBI_RNG_READ_STATE_COUNTER :: u64 where "SBI_RNG_READ_STATE_COUNTER = 44"
definition SBI_AES2_START_ENCRYPT :: u64 where "SBI_AES2_START_ENCRYPT = 45"
definition SBI_AES2_WAIT :: u64 where "SBI_AES2_WAIT = 46"
definition SBI_AES2_DATA_OUT :: u64 where "SBI_AES2_DATA_OUT = 47"
definition SBI_RSA_WAIT :: u64 where "SBI_RSA_WAIT = 48"
definition SBI_RSA_WRITE_PNUM :: u64 where "SBI_RSA_WRITE_PNUM = 49"
definition SBI_RSA_WRITE_MSG_IN :: u64 where "SBI_RSA_WRITE_MSG_IN = 50"
definition SBI_RSA_READ_MSG_OUT :: u64 where "SBI_RSA_READ_MSG_OUT = 51"
definition SBI_RST :: u64 where "SBI_RST = 52"

lemmas sbi_numbers =
  SBI_SET_TIMER_def SBI_CONSOLE_PUTCHAR_def SBI_CONSOLE_GETCHAR_def
  SBI_CLEAR_IPI_def SBI_SEND_IPI_def SBI_REMOTE_FENCE_I_def
  SBI_REMOTE_SFENCE_VMA_def SBI_REMOTE_SFENCE_VMA_ASID_def SBI_SHUTDOWN_def
  SBI_AES0_START_ENCRYPT_def SBI_AES0_WAIT_def SBI_AES0_DATA_OUT_def
  SBI_SHA256_HASH_def SBI_HMAC_HASH_def SBI_DMA_COPY_def
  SBI_CMP_def SBI_AES1_READ_DATA_def SBI_AES1_WRITE_DATA_def
  SBI_AES1_READ_CONFIG_def SBI_AES1_WRITE_CONFIG_def SBI_PUTS_def
  SBI_DMA_END_def SBI_RNG_WAIT_def SBI_RNG_READ_DATA_def
  SBI_RNG_READ_POLY_def SBI_RNG_WRITE_POLY_def SBI_RNG_READ_SEED_def
  SBI_RNG_WRITE_SEED_def SBI_RNG_READ_RAND_SEG_def SBI_RNG_READ_STATE_COUNTER_def
  SBI_AES2_START_ENCRYPT_def SBI_AES2_WAIT_def SBI_AES2_DATA_OUT_def
  SBI_RSA_WAIT_def SBI_RSA_WRITE_PNUM_def SBI_RSA_WRITE_MSG_IN_def
  SBI_RSA_READ_MSG_OUT_def SBI_RST_def

text \<open>
  Every wrapper calls its driver with the arguments narrowed to the driver's types and returns 0.
\<close>

definition ret0 :: "(u32 \<times> 'd world) option \<Rightarrow> (u64 \<times> 'd world) option" where
  "ret0 r = map_option (\<lambda>(c, s). (0, s)) r"

definition mcall_clear_ipi :: "'d world \<Rightarrow> (u64 \<times> 'd world) option" where
  "mcall_clear_ipi s = (let (old, s) = clear_csr MIP MIP_SSIP s in Some (old AND MIP_SSIP, s))"

definition mcall_shutdown :: "'d platform \<Rightarrow> 'd world \<Rightarrow> (u64 \<times> 'd world) option" where
  "mcall_shutdown P s = map_option (Pair 0) (poweroff P 0 s)"

definition mcall_set_timer :: "'d bus \<Rightarrow> u64 \<Rightarrow> 'd world \<Rightarrow> (u64 \<times> 'd world) option" where
  "mcall_set_timer B when s =
     (let s = mmio_wr B 8 (timecmp (hls_of s (this_hart s))) when s;
          (old, s) = clear_csr MIP MIP_STIP s;
          (old, s) = set_csr MIE MIP_MTIP s
      in Some (0, s))"

definition mcall_rsa_wait :: "'d bus \<Rightarrow> 'd world \<Rightarrow> (u64 \<times> 'd world) option" where
  "mcall_rsa_wait B s = ret0 (rsa_wait B s)"

definition mcall_rsa_write_prime_num :: "'d bus \<Rightarrow> u64 \<Rightarrow> 'd world \<Rightarrow> (u64 \<times> 'd world) option" where
  "mcall_rsa_write_prime_num B arg0 s = ret0 (Some (rsa_write_prime_num B arg0 s))"

definition mcall_rsa_write_msg_in :: "'d bus \<Rightarrow> u64 \<Rightarrow> u64 \<Rightarrow> 'd world \<Rightarrow> (u64 \<times> 'd world) option" where
  "mcall_rsa_write_msg_in B arg0 arg1 s = ret0 (Some (rsa_write_msg_in B arg0 (ucast arg1) s))"

definition mcall_rsa_read_msg_out :: "'d bus \<Rightarrow> u64 \<Rightarrow> 'd world \<Rightarrow> (u64 \<times> 'd world) option" where
  "mcall_rsa_read_msg_out B arg0 s = ret0 (Some (rsa_read_msg_out B arg0 s))"

definition mcall_rng_wait :: "'d bus \<Rightarrow> 'd world \<Rightarrow> (u64 \<times> 'd world) option" where
  "mcall_rng_wait B s = ret0 (rng_wait B s)"

definition mcall_rng_read_data :: "'d bus \<Rightarrow> u64 \<Rightarrow> 'd world \<Rightarrow> (u64 \<times> 'd world) option" where
  "mcall_rng_read_data B arg0 s = ret0 (Some (rng_read_data B arg0 s))"

definition mcall_rng_read_poly :: "'d bus \<Rightarrow> u64 \<Rightarrow> u64 \<Rightarrow> u64 \<Rightarrow> u64 \<Rightarrow> 'd world \<Rightarrow> (u64 \<times> 'd world) option" where
  "mcall_rng_read_poly B arg0 arg1 arg2 arg3 s = ret0 (Some (rng_read_poly B arg0 arg1 arg2 arg3 s))"

definition mcall_rng_write_poly :: "'d bus \<Rightarrow> u64 \<Rightarrow> u64 \<Rightarrow> u64 \<Rightarrow> u64 \<Rightarrow> 'd world \<Rightarrow> (u64 \<times> 'd world) option" where
  "mcall_rng_write_poly B arg0 arg1 arg2 arg3 s = ret0 (Some (rng_write_poly B arg0 arg1 arg2 arg3 s))"

definition mcall_rng_read_seed :: "'d bus \<Rightarrow> u64 \<Rightarrow> u64 \<Rightarrow> u64 \<Rightarrow> u64 \<Rightarrow> 'd world \<Rightarrow> (u64 \<times> 'd world) option" where
  "mcall_rng_read_seed B arg0 arg1 arg2 arg3 s = ret0 (Some (rng_read_seed B arg0 arg1 arg2 arg3 s))"

definition mcall_rng_write_seed :: "'d bus \<Rightarrow> u64 \<Rightarrow> 'd world \<Rightarrow> (u64 \<times> 'd world) option" where
  "mcall_rng_write_seed B arg0 s = ret0 (Some (rng_write_seed B arg0 s))"

definition mcall_rng_read_rand_seg :: "'d bus \<Rightarrow> u64 \<Rightarrow> 'd world \<Rightarrow> (u64 \<times> 'd world) option" where
  "mcall_rng_read_rand_seg B arg0 s = ret0 (Some (rng_read_rand_seg B arg0 s))"

definition mcall_rng_read_state_counter :: "'d bus \<Rightarrow> u64 \<Rightarrow> 'd world \<Rightarrow> (u64 \<times> 'd world) option" where
  "mcall_rng_read_state_counter B arg0 s = ret0 (Some (rng_read_state_counter B arg0 s))"

definition mcall_aes0_start_encrypt :: "'d bus \<Rightarrow> u64 \<Rightarrow> u64 \<Rightarrow> u64 \<Rightarrow> 'd world \<Rightarrow> (u64 \<times> 'd world) option" where
  "mcall_aes0_start_encrypt B arg0 arg1 arg2 s = ret0 (aes0_start_encrypt B arg0 arg1 (ucast arg2) s)"

definition mcall_aes0_wait :: "'d bus \<Rightarrow> 'd world \<Rightarrow> (u64 \<times> 'd world) option" where
  "mcall_aes0_wait B s = ret0 (aes0_wait B s)"

definition mcall_aes0_data_out :: "'d bus \<Rightarrow> u64 \<Rightarrow> 'd world \<Rightarrow> (u64 \<times> 'd world) option" where
  "mcall_aes0_data_out B arg0 s = ret0 (aes0_data_out B arg0 s)"

definition mcall_aes2_start_encrypt :: "'d bus \<Rightarrow> u64 \<Rightarrow> u64 \<Rightarrow> u64 \<Rightarrow> 'd world \<Rightarrow> (u64 \<times> 'd world) option" where
  "mcall_aes2_start_encrypt B arg0 arg1 arg2 s = ret0 (aes2_start_encrypt B arg0 arg1 (ucast arg2) s)"

definition mcall_aes2_wait :: "'d bus \<Rightarrow> 'd world \<Rightarrow> (u64 \<times> 'd world) option" where
  "mcall_aes2_wait B s = ret0 (aes2_wait B s)"

definition mcall_aes2_data_out :: "'d bus \<Rightarrow> u64 \<Rightarrow> 'd world \<Rightarrow> (u64 \<times> 'd world) option" where
  "mcall_aes2_data_out B arg0 s = ret0 (aes2_data_out B arg0 s)"

definition mcall_rst :: "'d bus \<Rightarrow> u64 \<Rightarrow> 'd world \<Rightarrow> (u64 \<times> 'd world) option" where
  "mcall_rst B arg0 s = ret0 (rst_id B (ucast arg0) s)"

definition mcall_aes1_read_data :: "'d bus \<Rightarrow> u64 \<Rightarrow> 'd world \<Rightarrow> (u64 \<times> 'd world) option" where
  "mcall_aes1_read_data B arg0 s = ret0 (Some (aes1_read_data B arg0 s))"

definition mcall_aes1_read_config :: "'d bus \<Rightarrow> u64 \<Rightarrow> 'd world \<Rightarrow> (u64 \<times> 'd world) option" where
  "mcall_aes1_read_config B arg0 s = ret0 (Some (aes1_read_config B arg0 s))"

definition mcall_aes1_write_data :: "'d bus \<Rightarrow> u64 \<Rightarrow> u64 \<Rightarrow> 'd world \<Rightarrow> (u64 \<times> 'd world) option" where
  "mcall_aes1_write_data B arg0 arg1 s = ret0 (Some (aes1_write_data B arg0 (ucast arg1) s))"

definition mcall_aes1_write_config :: "'d bus \<Rightarrow> u64 \<Rightarrow> 'd world \<Rightarrow> (u64 \<times> 'd world) option" where
  "mcall_aes1_write_config B arg0 s = ret0 (Some (aes1_write_config B (ucast arg0) s))"

definition mcall_dma_copy :: "'d bus \<Rightarrow> u64 \<Rightarrow> u64 \<Rightarrow> u64 \<Rightarrow> u64 \<Rightarrow> 'd world \<Rightarrow> (u64 \<times> 'd world) option" where
  "mcall_dma_copy B arg0 arg1 arg2 arg3 s = ret0 (dma_transfer B arg0 arg1 (ucast arg2) (ucast arg3) s)"

definition mcall_sha256_hash :: "'d platform \<Rightarrow> u64 \<Rightarrow> u64 \<Rightarrow> 'd world \<Rightarrow> (u64 \<times> 'd world) option" where
  "mcall_sha256_hash P arg0 arg1 s = ret0 (sha256_hashString (bus_of P) (sha_message P) arg0 arg1 s)"

definition mcall_hmac_hash :: "'d bus \<Rightarrow> u64 \<Rightarrow> u64 \<Rightarrow> u64 \<Rightarrow> 'd world \<Rightarrow> (u64 \<times> 'd world) option" where
  "mcall_hmac_hash B arg0 arg1 arg2 s = ret0 (hmac_hashString B arg0 arg1 (ucast arg2) s)"

text \<open>The length of a comparison is the fourth argument and the place of the result the fifth; the third is not used.\<close>

definition mcall_cmp :: "u64 \<Rightarrow> u64 \<Rightarrow> u64 \<Rightarrow> u64 \<Rightarrow> u64 \<Rightarrow> 'd world \<Rightarrow> (u64 \<times> 'd world) option" where
  "mcall_cmp arg0 arg1 arg2 arg3 arg4 s =
     Some (0, wst32 s arg4 (verifyMulti (ram s) arg0 arg1 (ucast arg3)))"

text \<open>\<^verbatim>\<open>for (i=0; i<buf_len; i++) mcall_console_putchar(buf[i]);\<close>: the comparison is unsigned.\<close>

function puts_loop :: "'d bus \<Rightarrow> u64 \<Rightarrow> u32 \<Rightarrow> u32 \<Rightarrow> 'd world \<Rightarrow> 'd world option" where
  "puts_loop B buf buf_len i s =
     (if i < buf_len
      then do { (r, s) \<leftarrow> mcall_console_putchar B (ld8 (ram s) (buf + scast i)) s;
                puts_loop B buf buf_len (i + 1) s }
      else Some s)"
  by pat_completeness auto
termination
  by (relation "measure (\<lambda>(B, buf, n, i, s). unat n - unat i)") (auto simp: count_up_decreases)

declare puts_loop.simps [simp del]

definition mcall_puts :: "'d bus \<Rightarrow> u64 \<Rightarrow> u64 \<Rightarrow> 'd world \<Rightarrow> (u64 \<times> 'd world) option" where
  "mcall_puts B arg0 arg1 s = map_option (Pair 0) (puts_loop B arg0 (ucast arg1) 0 s)"

definition mcall_dma_end :: "'d bus \<Rightarrow> 'd world \<Rightarrow> (u64 \<times> 'd world) option" where
  "mcall_dma_end B s = Some (0, dma_end B s)"

text \<open>The call by its number \<^verbatim>\<open>n\<close> (register a7), with the arguments a0 to a4.\<close>

definition mcall_ipi :: "'d platform \<Rightarrow> u64 \<Rightarrow> u32 \<Rightarrow> 'd world \<Rightarrow> (u64 \<times> 'd world) option" where
  "mcall_ipi P arg0 ipi_type s = map_option (Pair 0) (send_ipi_many P arg0 ipi_type s)"

definition mcall :: "'d platform \<Rightarrow> u64 \<Rightarrow> u64 \<Rightarrow> u64 \<Rightarrow> u64 \<Rightarrow> u64 \<Rightarrow> u64 \<Rightarrow> 'd world \<Rightarrow> (u64 \<times> 'd world) option" where
  "mcall P n arg0 arg1 arg2 arg3 arg4 s =
     (let B = bus_of P in
      if n = SBI_CONSOLE_PUTCHAR then mcall_console_putchar B (ucast arg0) s
      else if n = SBI_CONSOLE_GETCHAR then mcall_console_getchar B s
      else if n = SBI_SEND_IPI then mcall_ipi P arg0 IPI_SOFT s
      else if n = SBI_REMOTE_SFENCE_VMA \<or> n = SBI_REMOTE_SFENCE_VMA_ASID then mcall_ipi P arg0 IPI_SFENCE_VMA s
      else if n = SBI_REMOTE_FENCE_I then mcall_ipi P arg0 IPI_FENCE_I s
      else if n = SBI_CLEAR_IPI then mcall_clear_ipi s
      else if n = SBI_SHUTDOWN then mcall_shutdown P s
      else if n = SBI_SET_TIMER then mcall_set_timer B arg0 s
      else if n = SBI_RSA_WAIT then mcall_rsa_wait B s
      else if n = SBI_RSA_WRITE_PNUM then mcall_rsa_write_prime_num B arg0 s
      else if n = SBI_RSA_WRITE_MSG_IN then mcall_rsa_write_msg_in B arg0 arg1 s
      else if n = SBI_RSA_READ_MSG_OUT then mcall_rsa_read_msg_out B arg0 s
      else if n = SBI_RNG_WAIT then mcall_rng_wait B s
      else if n = SBI_RNG_READ_DATA then mcall_rng_read_data B arg0 s
      else if n = SBI_RNG_READ_POLY then mcall_rng_read_poly B arg0 arg1 arg2 arg3 s
      else if n = SBI_RNG_WRITE_POLY then mcall_rng_write_poly B arg0 arg1 arg2 arg3 s
      else if n = SBI_RNG_READ_SEED then mcall_rng_read_seed B arg0 arg1 arg2 arg3 s
      else if n = SBI_RNG_WRITE_SEED then mcall_rng_write_seed B arg0 s
      else if n = SBI_RNG_READ_RAND_SEG then mcall_rng_read_rand_seg B arg0 s
      else if n = SBI_RNG_READ_STATE_COUNTER then mcall_rng_read_state_counter B arg0 s
      else if n = SBI_AES0_START_ENCRYPT then mcall_aes0_start_encrypt B arg0 arg1 arg2 s
      else if n = SBI_AES0_WAIT then mcall_aes0_wait B s
      else if n = SBI_AES0_DATA_OUT then mcall_aes0_data_out B arg0 s
      else if n = SBI_AES2_START_ENCRYPT then mcall_aes2_start_encrypt B arg0 arg1 arg2 s
      else if n = SBI_AES2_WAIT then mcall_aes2_wait B s
      else if n = SBI_AES2_DATA_OUT then mcall_aes2_data_out B arg0 s
      else if n = SBI_AES1_READ_DATA then mcall_aes1_read_data B arg0 s
      else if n = SBI_AES1_WRITE_DATA then mcall_aes1_write_data B arg0 arg1 s
      else if n = SBI_AES1_READ_CONFIG then mcall_aes1_read_config B arg0 s
      else if n = SBI_AES1_WRITE_CONFIG then mcall_aes1_write_config B arg0 s
      else if n = SBI_SHA256_HASH then mcall_sha256_hash P arg0 arg1 s
      else if n = SBI_RST then mcall_rst B arg0 s
      else if n = SBI_DMA_COPY then mcall_dma_copy B arg0 arg1 arg2 arg3 s
      else if n = SBI_HMAC_HASH then mcall_hmac_hash B arg0 arg1 arg2 s
      else if n = SBI_CMP then mcall_cmp arg0 arg1 arg2 arg3 arg4 s
      else if n = SBI_PUTS then mcall_puts B arg0 arg1 s
      else if n = SBI_DMA_END then mcall_dma_end B s
      else Some (- ENOSYS P, s))"

definition mcall_trap :: "'d platform \<Rightarrow> u64 list \<Rightarrow> u64 \<Rightarrow> 'd world \<Rightarrow> (u64 list \<times> 'd world) option" where
  "mcall_trap P regs mepc s =
     (let s = write_csr MEPC (mepc + 4) s
      in do { (retval, s) \<leftarrow> mcall P (regs ! 17) (regs ! 10) (regs ! 11) (regs ! 12) (regs ! 13) (regs ! 14) s;
              Some (regs[10 := retval], s) })"

section \<open>Traps that go on to supervisor mode\<close>

text \<open>\<^verbatim>\<open>redirect_trap\<close> up to the assembly \<^verbatim>\<open>__redirect_trap\<close>, which leaves machine mode in this state.\<close>

definition redirect_trap :: "u64 \<Rightarrow> u64 \<Rightarrow> u64 \<Rightarrow> 'd world \<Rightarrow> 'd world" where
  "redirect_trap epc mstatus badaddr s =
     (let s = write_csr SBADADDR badaddr s;
          s = write_csr SEPC epc s;
          s = write_csr SCAUSE (read_csr MCAUSE s) s;
          s = write_csr MEPC (read_csr STVEC s) s;
          new_mstatus = mstatus AND NOT (MSTATUS_SPP OR MSTATUS_SPIE OR MSTATUS_SIE);
          mpp_s = MSTATUS_MPP AND drop_bit 1 MSTATUS_MPP;
          new_mstatus = new_mstatus OR (mstatus * (MSTATUS_SPIE div MSTATUS_SIE) AND MSTATUS_SPIE);
          new_mstatus = new_mstatus OR (mstatus div (mpp_s div MSTATUS_SPP) AND MSTATUS_SPP);
          new_mstatus = new_mstatus OR mpp_s
      in write_csr MSTATUS new_mstatus s)"

definition pmp_trap :: "u64 \<Rightarrow> 'd world \<Rightarrow> 'd world" where
  "pmp_trap mepc s = redirect_trap mepc (read_csr MSTATUS s) (read_csr MBADADDR s) s"

definition machine_page_fault :: "'d platform \<Rightarrow> u64 list \<Rightarrow> u64 \<Rightarrow> u64 \<Rightarrow> 'd world \<Rightarrow> 'd world option" where
  "machine_page_fault P regs mcause mepc s =
     (if read_csr MSTATUS s AND MSTATUS_MPRV \<noteq> 0 then
        (if regs ! 11 = MSTATUS_MPRV OR MSTATUS_MXR then
           (if mcause = CAUSE_LOAD_PAGE_FAULT then
              (let s = write_csr MCAUSE CAUSE_FETCH_PAGE_FAULT s
               in Some (redirect_trap (regs ! 12) (regs ! 13) (read_csr MBADADDR s) s))
            else if mcause = CAUSE_LOAD_ACCESS then
              (let s = write_csr MCAUSE CAUSE_FETCH_ACCESS s
               in Some (redirect_trap (regs ! 12) (regs ! 13) (read_csr MBADADDR s) s))
            else bad_trap P mepc s)
         else if regs ! 11 \<noteq> MSTATUS_MPRV then bad_trap P mepc s
         else Some (redirect_trap (regs ! 12) (regs ! 13) (read_csr MBADADDR s) s))
      else bad_trap P mepc s)"

definition trap_from_machine_mode :: "'d platform \<Rightarrow> u64 list \<Rightarrow> u64 \<Rightarrow> 'd world \<Rightarrow> 'd world option" where
  "trap_from_machine_mode P regs mepc s =
     (let mcause = read_csr MCAUSE s in
      if mcause \<in> {CAUSE_LOAD_PAGE_FAULT, CAUSE_STORE_PAGE_FAULT, CAUSE_FETCH_ACCESS, CAUSE_LOAD_ACCESS,
           CAUSE_STORE_ACCESS}
      then machine_page_fault P regs mcause mepc s
      else bad_trap P mepc s)"

section \<open>What a call may change\<close>

text \<open>
  \<open>call_step s s'\<close>: beyond what a driver step changes, only the character the host interface has
  buffered and the pending interrupts of the harts.
\<close>

definition call_step :: "'d world \<Rightarrow> 'd world \<Rightarrow> bool" where
  "call_step s s' \<longleftrightarrow> s' = s\<lparr>ram := ram s', dev := dev s', trace := trace s', nops := nops s',
     htif_console_buf := htif_console_buf s', hls_of := hls_of s'\<rparr>"

lemma call_step_refl [simp, intro]: "call_step s s"
  by (simp add: call_step_def)

lemma call_step_trans [trans]:
  assumes "call_step s s'" "call_step s' s''"
  shows "call_step s s''"
proof -
  let ?up = "\<lambda>s. s\<lparr>ram := ram s'', dev := dev s'', trace := trace s'', nops := nops s'',
     htif_console_buf := htif_console_buf s'', hls_of := hls_of s''\<rparr>"
  have "s'' = ?up s'" using assms(2) by (simp only: call_step_def)
  also have "\<dots> = ?up s" by (subst assms(1) [unfolded call_step_def]) simp
  finally show ?thesis by (simp only: call_step_def)
qed

lemma io_call_step: "io_step s s' \<Longrightarrow> call_step s s'"
  unfolding io_step_def call_step_def
  by (erule ssubst) simp

lemma call_step_fields:
  assumes "call_step s s'"
  shows "csrs s' = csrs s" "mmap_max s' = mmap_max s" "uart s' = uart s" "uart16550 s' = uart16550 s"
    "htif s' = htif s" "disabled_hart_mask s' = disabled_hart_mask s" "hart_mask s' = hart_mask s"
  by (subst assms [unfolded call_step_def], simp)+

lemma call_step_intros [intro, simp]:
  "call_step s (mmio_wr B w a v s)" "call_step s (snd (mmio_rd B w a s))" "call_step s (wst32 s a x)"
  "call_step s (s\<lparr>htif_console_buf := c\<rparr>)" "call_step s (s\<lparr>hls_of := h\<rparr>)" "call_step s (s\<lparr>ram := m\<rparr>)"
  by (simp_all add: io_call_step) (simp_all add: call_step_def)

subsection \<open>The console\<close>

lemma uart_putchar_call: "uart_putchar B ch s = Some s' \<Longrightarrow> call_step s s'"
proof (rule uart_putchar.raw_induct [where P = "\<lambda>B ch s s'. call_step s s'", rotated])
  fix f and B :: "'a bus" and ch s s'
  assume IH: "\<And>B ch s s'. f B ch s = Some s' \<Longrightarrow> call_step s s'"
    and eq: "(let (r, s) = amoor_w B (uart s + 4 * UART_REG_TXFIFO) (ucast ch) s
      in if sint r < 0 then f B ch s else Some s) = Some s'"
  let ?s = "snd (amoor_w B (uart s + 4 * UART_REG_TXFIFO) (ucast ch) s)"
  have "call_step s ?s"
    by (auto simp: amoor_w_def Let_def split_beta intro: call_step_trans)
  moreover have "call_step ?s s'"
    using eq IH by (auto simp: split_beta split: if_splits)
  ultimately show "call_step s s'" by (rule call_step_trans)
qed

lemma check_fromhost_call:
  assumes "check_fromhost B s = Some s'"
  shows "call_step s s'"
proof -
  let ?s1 = "snd (mmio_rd B 8 (fromhost s) s)"
  have s1: "call_step s ?s1" by simp
  then have s2: "call_step s (mmio_wr B 8 (fromhost ?s1) 0 ?s1)" by (rule call_step_trans) simp
  then have "call_step s ((mmio_wr B 8 (fromhost ?s1) 0 ?s1)\<lparr>htif_console_buf := c\<rparr>)" for c
    by (rule call_step_trans) simp
  then show ?thesis
    using assms s1 s2 by (auto simp: check_fromhost_def Let_def split_beta split: if_splits)
qed

lemma set_tohost_wait_call: "set_tohost_wait B s = Some s' \<Longrightarrow> call_step s s'"
proof (rule set_tohost_wait.raw_induct [where P = "\<lambda>B s s'. call_step s s'", rotated])
  fix f and B :: "'a bus" and s s'
  assume IH: "\<And>B s s'. f B s = Some s' \<Longrightarrow> call_step s s'"
    and eq: "(let (v, s) = mmio_rd B 8 (tohost s) s
      in if v \<noteq> 0 then do { s \<leftarrow> check_fromhost B s; f B s } else Some s) = Some s'"
  let ?s = "snd (mmio_rd B 8 (tohost s) s)"
  from eq consider "s' = ?s" | s1 where "check_fromhost B ?s = Some s1" "f B s1 = Some s'"
    by (auto simp: Let_def bind_eq_Some_conv split: prod.splits if_splits)
  then have "call_step ?s s'"
    by cases (auto intro: call_step_trans [OF check_fromhost_call IH])
  with call_step_intros(2) show "call_step s s'" by (rule call_step_trans)
qed

lemma set_tohost_call: "set_tohost B dv cmd data s = Some s' \<Longrightarrow> call_step s s'"
  by (auto simp: set_tohost_def bind_eq_Some_conv intro: call_step_trans [OF set_tohost_wait_call])

lemma htif_getchar_call:
  assumes "htif_console_getchar B s = Some (c, s')"
  shows "call_step s s'"
proof -
  obtain s1 where s1: "check_fromhost B s = Some s1"
      "(if sint (htif_console_buf s1) \<ge> 0 then set_tohost B 1 0 0 (s1\<lparr>htif_console_buf := -1\<rparr>) else Some s1) = Some s'"
    using assms by (auto simp: htif_console_getchar_def Let_def bind_eq_Some_conv)
  then have "call_step s1 s'"
    by (auto split: if_splits intro: call_step_trans [OF _ set_tohost_call])
  with check_fromhost_call [OF s1(1)] show ?thesis by (rule call_step_trans)
qed

lemma console_putchar_call: "mcall_console_putchar B ch s = Some (r, s') \<Longrightarrow> call_step s s'"
  by (auto simp: mcall_console_putchar_def bind_eq_Some_conv htif_console_putchar_def
      intro: uart_putchar_call set_tohost_call io_call_step uart16550_putchar_io split: if_splits)

lemma console_getchar_call: "mcall_console_getchar B s = Some (r, s') \<Longrightarrow> call_step s s'"
  by (auto simp: mcall_console_getchar_def uart_getchar_def uart16550_getchar_def Let_def split_beta
      intro: htif_getchar_call call_step_trans split: if_splits)

lemma putstring_call: "putstring B p s = Some s' \<Longrightarrow> call_step s s'"
proof (rule putstring.raw_induct [where P = "\<lambda>B p s s'. call_step s s'", rotated])
  fix f and B :: "'a bus" and p s s'
  assume IH: "\<And>B p s s'. f B p s = Some s' \<Longrightarrow> call_step s s'"
    and eq: "(if ld8 (ram s) p \<noteq> 0
      then do { (r, s) \<leftarrow> mcall_console_putchar B (ld8 (ram s) p) s; f B (p + 1) s }
      else Some s) = Some s'"
  then show "call_step s s'"
    by (auto simp: bind_eq_Some_conv intro: call_step_trans [OF console_putchar_call IH] split: if_splits)
qed

lemma printm_call:
  assumes "printm B fmt vl s = Some s'"
  shows "call_step s s'"
proof -
  obtain m where "putstring B (printm_buf s) (s\<lparr>ram := m\<rparr>) = Some s'"
    using assms by (auto simp: printm_def vprintm_def bind_eq_Some_conv)
  then have "call_step (s\<lparr>ram := m\<rparr>) s'" by (rule putstring_call)
  then show ?thesis by (rule call_step_trans [OF call_step_intros(6)])
qed

lemma puts_loop_call: "puts_loop B buf n i s = Some s' \<Longrightarrow> call_step s s'"
proof (induction B buf n i s rule: puts_loop.induct)
  case (1 B buf n i s)
  from 1(2) show ?case
    by (subst (asm) puts_loop.simps)
      (auto simp: bind_eq_Some_conv intro: call_step_trans [OF console_putchar_call 1(1)] split: if_splits)
qed

subsection \<open>The interrupts\<close>

lemma send_ipi_call: "call_step s (send_ipi B r e s)"
  by (auto simp: send_ipi_def Let_def intro: call_step_trans [OF call_step_intros(5) call_step_intros(1)])

lemma send_ipis_call: "call_step s (send_ipis B e i m s)"
proof (induction B e i m s rule: send_ipis.induct)
  case (1 B e i m s)
  let ?s = "if m AND 1 \<noteq> 0 then send_ipi B i e s else s"
  have "call_step s ?s" by (simp add: send_ipi_call)
  with 1 show ?case
    by (subst send_ipis.simps) (auto simp: Let_def intro: call_step_trans simp del: split_paired_All)
qed

lemma ipi_wait_call: "ipi_wait B i c s = Some y \<Longrightarrow> call_step s (snd y)"
proof (rule ipi_wait.raw_induct [where P = "\<lambda>B i c s y. call_step s (snd y)", rotated])
  fix f and B :: "'a bus" and i c s y
  assume IH: "\<And>B i c s y. f B i c s = Some y \<Longrightarrow> call_step s (snd y)"
    and eq: "(let (v, s) = mmio_rd B 4 (ipi (hls_of s (unat i))) s
      in if (ucast v :: u32) \<noteq> 0
         then (let (r, s) = amoswap_w B (ipi (hls_of s (this_hart s))) 0 s in f B i (c OR r) s)
         else Some (c, s)) = Some y"
  let ?s1 = "snd (mmio_rd B 4 (ipi (hls_of s (unat i))) s)"
  let ?s2 = "snd (amoswap_w B (ipi (hls_of ?s1 (this_hart ?s1))) 0 ?s1)"
  have "call_step ?s1 ?s2" by (auto simp: amoswap_w_def Let_def split_beta intro: call_step_trans)
  then have "call_step s ?s2" using call_step_trans [OF call_step_intros(2)] by blast
  with eq show "call_step s (snd y)"
    by (auto simp: split_beta Let_def intro: call_step_trans [OF _ IH] split: if_splits)
qed

lemma ipi_waits_call: "ipi_waits B i m c s = Some (r, s') \<Longrightarrow> call_step s s'"
proof (induction B i m c s rule: ipi_waits.induct)
  case (1 B i m c s)
  show ?case
  proof (cases "m = 0")
    case True
    with 1(2) show ?thesis by (subst (asm) ipi_waits.simps) simp
  next
    case False
    with 1(2) obtain c1 s1 where
        turn: "(if m AND 1 \<noteq> 0 then ipi_wait B i c s else Some (c, s)) = Some (c1, s1)"
      and rest: "ipi_waits B (i + 1) (drop_bit 1 m) c1 s1 = Some (r, s')"
      by (subst (asm) ipi_waits.simps) (auto simp only: bind_eq_Some_conv if_False split: prod.splits)
    have "call_step s s1" using turn ipi_wait_call [of B i c s "(c1, s1)"] by (auto split: if_splits)
    moreover have "call_step s1 s'" using 1(1) [OF False turn refl rest] .
    ultimately show ?thesis by (rule call_step_trans)
  qed
qed

lemma send_ipi_many_call:
  assumes "send_ipi_many P pmask e s = Some s'"
  shows "call_step s s'"
proof -
  obtain mask where m: "(let s1 = send_ipis (bus_of P) e 0 mask s in if e = IPI_SOFT then Some s1
      else do { (incoming, s) \<leftarrow> ipi_waits (bus_of P) 0 mask 0 s1;
            Some (if incoming \<noteq> 0 then mmio_wr (bus_of P) 4 (ipi (hls_of s (this_hart s))) (ucast incoming) s
                  else s) }) = Some s'"
    using assms unfolding send_ipi_many_def Let_def by (auto simp: bind_eq_Some_conv)
  let ?s1 = "send_ipis (bus_of P) e 0 mask s"
  have "call_step ?s1 s'"
    using m by (auto simp: Let_def bind_eq_Some_conv split: if_splits
        dest!: ipi_waits_call intro: call_step_trans)
  with send_ipis_call show ?thesis by (rule call_step_trans)
qed

subsection \<open>The engines\<close>

lemma engine_waits_io:
  "aes0_wait B s = Some (r, s') \<Longrightarrow> io_step s s'" "aes2_wait B s = Some (r, s') \<Longrightarrow> io_step s s'"
  "rng_wait B s = Some (r, s') \<Longrightarrow> io_step s s'" "rsa_wait B s = Some (r, s') \<Longrightarrow> io_step s s'"
  by (auto simp: aes0_wait_def aes2_wait_def rng_wait_def rsa_wait_def bind_eq_Some_conv dest: wait_nonzero_frame(1))

lemma engine_starts_io:
  "aes0_start_encrypt B pt st k s = Some (r, s') \<Longrightarrow> io_step s s'"
  "aes2_start_encrypt B pt st k s = Some (r, s') \<Longrightarrow> io_step s s'"
  unfolding start_is_engine_start by (rule engine_start_sends(1), assumption)+

lemma engine_data_io:
  "aes0_data_out B ct s = Some (r, s') \<Longrightarrow> io_step s s'" "aes2_data_out B ct s = Some (r, s') \<Longrightarrow> io_step s s'"
  "io_step s (snd (aes1_read_data B a s))" "io_step s (snd (rng_read_data B a s))"
  "io_step s (snd (rng_write_seed B a s))" "io_step s (snd (rng_read_rand_seg B a s))"
  "io_step s (snd (rng_read_state_counter B a s))" "io_step s (snd (rsa_read_msg_out B a s))"
  by (auto simp: aes0_data_out_def aes2_data_out_def aes1_read_data_def rng_read_data_def rng_write_seed_def
      rng_read_rand_seg_def rng_read_state_counter_def rsa_read_msg_out_def)

lemma engine_blocks_io:
  "io_step s (snd (rng_read_poly B a b c d s))" "io_step s (snd (rng_write_poly B a b c d s))"
  "io_step s (snd (rng_read_seed B a b c d s))" "io_step s (snd (rsa_write_prime_num B a s))"
  "io_step s (snd (aes1_write_data B a e s))"
  "io_step s (snd (aes1_read_config B a s))" "io_step s (snd (aes1_write_config B e s))"
  "io_step s (dma_end B s)"
  by (auto simp: rng_read_poly_def rng_write_poly_def rng_read_seed_def rsa_write_prime_num_def
      aes1_write_data_def aes1_read_config_def aes1_write_config_def dma_end_def
      Let_def split_beta)

lemma rsa_write_msg_in_io: "io_step s (snd (rsa_write_msg_in B a e s))"
  unfolding rsa_write_msg_in_def Let_def snd_conv
  by (rule io_step_trans [OF io_step_trans [OF io_step_trans [OF io_step_trans [OF io_step_writeMulti
        io_step_access(2)] io_step_intros(4)] io_step_access(2)] io_step_access(2)])

lemma dma_transfer_io:
  assumes "dma_transfer B a b n w s = Some (r, s')"
  shows "io_step s s'"
proof (cases "dma_wraps a n \<or> dma_wraps b n")
  case True
  with assms show ?thesis by (auto simp: dma_transfer_wraps)
next
  case False
  with dma_transfer_runs [OF assms] show ?thesis by blast
qed

lemma rst_id_io:
  assumes "rst_id B n s = Some (r, s')"
  shows "call_step s s'"
proof (cases "n \<le> 13")
  case True
  with rst_id_runs [OF assms] show ?thesis by (simp add: io_call_step)
next
  case False
  then have "13 < n" by simp
  with assms show ?thesis by (auto simp: rst_id_def bind_eq_Some_conv dest: printm_call)
qed

lemma hash_io:
  "sha256_hashString B msg p h s = Some (r, s') \<Longrightarrow> io_step s s'"
  "hmac_hashString B p h k s = Some (r, s') \<Longrightarrow> io_step s s'"
  by (auto simp: sha256_hashString_def dest: sha256_ptr.sha_hashString_io hmac_hashString_runs)

subsection \<open>Every call\<close>

text \<open>Powering off does not return, whoever asks for it.\<close>

lemma wfi_never: "wfi_forever s = None"
proof -
  have "False" if "wfi_forever s = Some s'" for s'
    using that by (rule wfi_forever.raw_induct [where P = "\<lambda>s s'. False", rotated])
  then show ?thesis by (cases "wfi_forever s") auto
qed

lemma htif_poweroff_None: "htif_poweroff B s = None"
proof -
  have "False" if "htif_poweroff B s = Some s'" for s'
    using that by (rule htif_poweroff.raw_induct [where P = "\<lambda>B s s'. False", rotated])
  then show ?thesis by (cases "htif_poweroff B s") auto
qed

lemma poweroff_None: "poweroff P code s = None"
  by (cases "poweroff P code s") (auto simp: poweroff_def Let_def bind_eq_Some_conv wfi_never htif_poweroff_None split: if_splits)

lemma bad_trap_None: "bad_trap P mepc s = None"
  by (simp add: bad_trap_def die_def poweroff_None)

lemma ret0_Some: "ret0 (Some x) = Some (0, snd x)"
  by (simp add: ret0_def split_beta)

lemmas mcall_drivers = mcall_rsa_wait_def mcall_rsa_write_prime_num_def mcall_rsa_write_msg_in_def
  mcall_rsa_read_msg_out_def mcall_rng_wait_def mcall_rng_read_data_def mcall_rng_read_poly_def
  mcall_rng_write_poly_def mcall_rng_read_seed_def mcall_rng_write_seed_def mcall_rng_read_rand_seg_def
  mcall_rng_read_state_counter_def mcall_aes0_start_encrypt_def mcall_aes0_wait_def mcall_aes0_data_out_def
  mcall_aes2_start_encrypt_def mcall_aes2_wait_def mcall_aes2_data_out_def mcall_rst_def
  mcall_aes1_read_data_def mcall_aes1_read_config_def mcall_aes1_write_data_def mcall_aes1_write_config_def
  mcall_dma_copy_def mcall_sha256_hash_def mcall_hmac_hash_def

lemmas driver_calls = rst_id_io
  engine_waits_io [THEN io_call_step] engine_starts_io [THEN io_call_step] engine_data_io(1,2) [THEN io_call_step]
  engine_data_io(3-8) [THEN io_call_step] engine_blocks_io [THEN io_call_step]
  rsa_write_msg_in_io [THEN io_call_step] dma_transfer_io [THEN io_call_step] hash_io [THEN io_call_step]

text \<open>The calls that neither set the timer nor clear the software interrupt keep all control registers.\<close>

lemma mcall_call:
  assumes "mcall P n a0 a1 a2 a3 a4 s = Some (v, s')" "n \<noteq> SBI_CLEAR_IPI" "n \<noteq> SBI_SET_TIMER"
  shows "call_step s s'"
  using assms unfolding mcall_def Let_def mcall_drivers mcall_ipi_def mcall_shutdown_def mcall_cmp_def
    mcall_puts_def mcall_dma_end_def ret0_Some
  by (auto simp only: if_split split: if_splits;
      auto simp: ret0_def poweroff_None intro: driver_calls console_putchar_call console_getchar_call
        send_ipi_many_call puts_loop_call)

section \<open>Which harts are interrupted\<close>

definition raise_ipi :: "u32 \<Rightarrow> hls \<Rightarrow> hls" where
  "raise_ipi event h = h\<lparr>mipi_pending := mipi_pending h OR event\<rparr>"

lemma ipi_raise [simp]: "ipi (raise_ipi event h) = ipi h"
  by (simp add: raise_ipi_def)

lemma drop_and_1: "drop_bit k (w :: u64) AND 1 \<noteq> 0 \<longleftrightarrow> bit w k"
  by (simp add: and_one_eq even_drop_bit_iff_not_bit flip: even_iff_mod_2_eq_zero)

lemma send_ipi_sends:
  assumes "k < 2 ^ 64"
  shows "sent (send_ipi B (of_nat k) e s)
      = sent s @ (if bit (disabled_hart_mask s) k then [] else [(ipi (hls_of s k), 1)])"
    "hls_of (send_ipi B (of_nat k) e s)
      = (if bit (disabled_hart_mask s) k then hls_of s else (hls_of s)(k := raise_ipi e (hls_of s k)))"
    "disabled_hart_mask (send_ipi B (of_nat k) e s) = disabled_hart_mask s"
  using assms
  by (simp_all add: send_ipi_def Let_def drop_and_1 unat_of_nat_u64 mmio_wr_def sent_def raise_ipi_def)

text \<open>The harts from \<open>k\<close> on whose bits, counted from \<open>k\<close>, are set in \<open>m\<close> and that are not disabled.\<close>

definition targets :: "nat \<Rightarrow> nat \<Rightarrow> u64 \<Rightarrow> u64 \<Rightarrow> nat list" where
  "targets k n m disabled = filter (\<lambda>h. bit m (h - k) \<and> \<not> bit disabled h) [k..<k + n]"

lemma targets_0 [simp]: "targets k n 0 d = []" "targets k 0 m d = []"
  by (simp_all add: targets_def)

lemma targets_Suc:
  "targets k (Suc n) m d = (if bit m 0 \<and> \<not> bit d k then [k] else []) @ targets (Suc k) n (drop_bit 1 m) d"
proof -
  have "filter (\<lambda>h. bit m (h - k) \<and> \<not> bit d h) [Suc k..<k + Suc n]
      = filter (\<lambda>h. bit (drop_bit 1 m) (h - Suc k) \<and> \<not> bit d h) [Suc k..<Suc k + n]"
    by (rule filter_cong) (auto simp: bit_simps simp flip: Suc_diff_Suc)
  then show ?thesis by (simp add: targets_def upt_conv_Cons del: upt_Suc)
qed

lemma send_ipis_targets:
  assumes "\<forall>j\<ge>n. \<not> bit m j" "k + n < 2 ^ 64"
  shows "sent (send_ipis B e (of_nat k) m s)
        = sent s @ map (\<lambda>h. (ipi (hls_of s h), 1)) (targets k n m (disabled_hart_mask s)) \<and>
      hls_of (send_ipis B e (of_nat k) m s)
        = (\<lambda>h. if h \<in> set (targets k n m (disabled_hart_mask s)) then raise_ipi e (hls_of s h) else hls_of s h)"
  using assms
proof (induction n arbitrary: k m s)
  case 0
  then have "m = 0" by (auto intro: bit_word_eqI)
  then show ?case by (subst send_ipis.simps)+ simp
next
  case (Suc n)
  show ?case
  proof (cases "m = 0")
    case True
    then show ?thesis by (subst send_ipis.simps)+ simp
  next
    case False
    let ?s = "if bit m 0 then send_ipi B (of_nat k) e s else s"
    let ?d = "disabled_hart_mask s"
    have k: "k < 2 ^ 64" using Suc.prems by simp
    have step: "send_ipis B e (of_nat k) m s = send_ipis B e (of_nat (Suc k)) (drop_bit 1 m) ?s"
      using False drop_and_1 [of 0 m]
      by (subst send_ipis.simps) (simp add: Let_def add.commute del: drop_bit_Suc)
    have "\<forall>j\<ge>n. \<not> bit (drop_bit 1 m) j" "Suc k + n < 2 ^ 64"
      using Suc.prems by (simp_all add: bit_simps)
    note IH = Suc.IH [OF this, of ?s]
    have s: "sent ?s = sent s @ (if bit m 0 \<and> \<not> bit ?d k then [(ipi (hls_of s k), 1)] else [])"
        "hls_of ?s = (if bit m 0 \<and> \<not> bit ?d k then (hls_of s)(k := raise_ipi e (hls_of s k)) else hls_of s)"
        "disabled_hart_mask ?s = ?d"
      by (simp_all add: send_ipi_sends [OF k])
    have k_in: "k \<notin> set (targets (Suc k) n m' d)" for m' d by (simp add: targets_def)
    show ?thesis
      unfolding step targets_Suc IH [THEN conjunct1] IH [THEN conjunct2] s
      by (auto simp: fun_eq_iff k_in split: if_splits)
  qed
qed

text \<open>A software interrupt reaches exactly the enabled harts of the mask, in ascending order.\<close>

theorem send_ipi_soft_reaches:
  assumes "load_uintptr_t P pmask (read_csr MEPC s) s = Some v" "pmask \<noteq> 0"
  shows "\<exists>s'. send_ipi_many P pmask IPI_SOFT s = Some s' \<and>
     sent s' = sent s @ map (\<lambda>h. (ipi (hls_of s h), 1)) (targets 0 64 (hart_mask s AND v) (disabled_hart_mask s)) \<and>
     (\<forall>h. hls_of s' h = (if h \<in> set (targets 0 64 (hart_mask s AND v) (disabled_hart_mask s))
        then raise_ipi IPI_SOFT (hls_of s h) else hls_of s h))"
proof -
  have "\<forall>j\<ge>64. \<not> bit (hart_mask s AND v) j" by (auto dest: bit_imp_le_length)
  from send_ipis_targets [OF this, of 0 "bus_of P" IPI_SOFT s] assms show ?thesis
    by (simp add: send_ipi_many_def Let_def)
qed

section \<open>Correctness of the trap handlers\<close>

theorem poweroff_never_returns: "poweroff P code s = None"
  by (rule poweroff_None)

text \<open>
  A call that returns resumes after the \<^verbatim>\<open>ecall\<close>, with no register of the caller changed but a0
  and no control register but the pending and enabled interrupts.
\<close>

lemma mcall_csrs:
  assumes "mcall P n a0 a1 a2 a3 a4 s = Some (v, s')" "c \<noteq> MIP" "c \<noteq> MIE"
  shows "csrs s' c = csrs s c"
proof (cases "n = SBI_CLEAR_IPI \<or> n = SBI_SET_TIMER")
  case True
  then show ?thesis
    using assms
    by (auto simp: mcall_def mcall_clear_ipi_def mcall_set_timer_def sbi_numbers clear_csr_def set_csr_def
        write_csr_def read_csr_def mmio_wr_def Let_def)
next
  case False
  with mcall_call [OF assms(1)] show ?thesis by (simp add: call_step_fields)
qed

text \<open>
  \<^bold>\<open>C3\<close>: A machine-mode call that returns resumes after the ecall, changes no
  register of the caller but a0 and no control register but mepc, mip and mie.
\<close>

theorem mcall_trap_frame:
  assumes "mcall_trap P regs mepc s = Some (regs', s')"
  shows "read_csr MEPC s' = mepc + 4 \<and> length regs' = length regs \<and> (\<forall>i. i \<noteq> 10 \<longrightarrow> regs' ! i = regs ! i) \<and>
    (\<forall>c. c \<notin> {MEPC, MIP, MIE} \<longrightarrow> csrs s' c = csrs s c)"
proof -
  let ?s = "write_csr MEPC (mepc + 4) s"
  obtain v where v: "mcall P (regs ! 17) (regs ! 10) (regs ! 11) (regs ! 12) (regs ! 13) (regs ! 14) ?s = Some (v, s')"
      "regs' = regs[10 := v]"
    using assms by (auto simp: mcall_trap_def Let_def bind_eq_Some_conv)
  show ?thesis
    using mcall_csrs [OF v(1)] v(2) by (auto simp: read_csr_def write_csr_def)
qed

text \<open>A number that is no call is refused with \<^verbatim>\<open>-ENOSYS\<close>, and nothing happens.\<close>

theorem mcall_trap_unknown:
  assumes "unat (regs ! 17) \<notin> {0..8} \<union> {20..26} \<union> {31..52}"
  shows "mcall_trap P regs mepc s = Some (regs[10 := - ENOSYS P], write_csr MEPC (mepc + 4) s)"
proof -
  have "regs ! 17 \<noteq> of_nat k" if "k \<in> {0..8} \<union> {20..26} \<union> {31..52}" for k
    using assms that by (auto simp: unat_of_nat_u64)
  from this [of 0] this [of 1] this [of 2] this [of 3] this [of 4] this [of 5] this [of 6] this [of 7] this [of 8]
    this [of 20] this [of 21] this [of 22] this [of 23] this [of 24] this [of 25] this [of 26] this [of 31]
    this [of 32] this [of 33] this [of 34] this [of 35] this [of 36] this [of 37] this [of 38] this [of 39]
    this [of 40] this [of 41] this [of 42] this [of 43] this [of 44] this [of 45] this [of 46] this [of 47]
    this [of 48] this [of 49] this [of 50] this [of 51] this [of 52]
  show ?thesis by (simp add: mcall_trap_def mcall_def sbi_numbers Let_def)
qed

text \<open>Clearing tells whether a software interrupt was pending.\<close>

theorem mcall_clear_ipi_result:
  assumes "regs ! 17 = SBI_CLEAR_IPI"
  shows "mcall_trap P regs mepc s = Some (regs[10 := read_csr MIP s AND MIP_SSIP],
     write_csr MIP (read_csr MIP s AND NOT MIP_SSIP) (write_csr MEPC (mepc + 4) s))"
  using assms
  by (simp add: mcall_trap_def mcall_def mcall_clear_ipi_def clear_csr_def sbi_numbers read_csr_def write_csr_def Let_def)

text \<open>Setting the timer of the hart arms it: the pending timer interrupt is gone and the machine one enabled.\<close>

theorem mcall_set_timer_arms:
  assumes "regs ! 17 = SBI_SET_TIMER"
  shows "\<exists>s'. mcall_trap P regs mepc s = Some (regs[10 := 0], s') \<and>
     sent s' = sent s @ [(timecmp (hls_of s (this_hart s)), regs ! 10)] \<and>
     read_csr MIP s' = read_csr MIP s AND NOT MIP_STIP \<and> read_csr MIE s' = read_csr MIE s OR MIP_MTIP"
  using assms
  by (simp add: mcall_trap_def mcall_def mcall_set_timer_def clear_csr_def set_csr_def sbi_numbers
      read_csr_def write_csr_def Let_def sent_def this_hart_def mmio_wr_def)

text \<open>
  The status register after a redirection: the interrupt enable and the privilege of the
  trapped code are stacked as a trap into supervisor mode does it, and the machine returns to
  supervisor mode.
\<close>

lemma status_masks: "MSTATUS_SPIE div MSTATUS_SIE = 2 ^ 4"
    "(MSTATUS_MPP AND drop_bit 1 MSTATUS_MPP) div MSTATUS_SPP = 2 ^ 3"
    "MSTATUS_MPP AND drop_bit 1 MSTATUS_MPP = push_bit 11 1"
    "MSTATUS_SPIE = push_bit 5 1" "MSTATUS_SPP = push_bit 8 1" "MSTATUS_SIE = push_bit 1 1"
  by (simp_all add: MSTATUS_SPIE_def MSTATUS_SIE_def MSTATUS_MPP_def MSTATUS_SPP_def)

definition redirected_status :: "u64 \<Rightarrow> nat \<Rightarrow> bool" where
  "redirected_status m k =
     (if k = 1 then False else if k = 5 then bit m 1 else if k = 8 then bit m 11
      else if k = 11 then True else bit m k)"

lemma redirect_mstatus_eq:
  "read_csr MSTATUS (redirect_trap epc m badaddr s) =
     (((m AND NOT (push_bit 8 1 OR push_bit 5 1 OR push_bit 1 1)) OR (push_bit 4 m AND push_bit 5 1))
       OR (drop_bit 3 m AND push_bit 8 1)) OR push_bit 11 1"
  unfolding redirect_trap_def Let_def status_masks
  unfolding read_csr_def write_csr_def drop_bit_eq_div push_bit_eq_mult
  by simp

lemma redirect_mstatus:
  "k < 64 \<Longrightarrow> bit (read_csr MSTATUS (redirect_trap epc m badaddr s)) k = redirected_status m k"
  unfolding redirect_mstatus_eq bit_or_iff bit_and_iff bit_not_iff bit_push_bit_iff bit_drop_bit_eq bit_1_iff
  by (auto simp: redirected_status_def)

text \<open>
  \<^bold>\<open>C2\<close>: redirect_trap enters supervisor mode the way the hardware does:
  interrupt enable and privilege are stacked in mstatus bit by bit, sepc, sbadaddr, scause and mepc
  are set, and no other register changes.
\<close>

theorem redirect_trap_enters_supervisor:
  "let s' = redirect_trap epc m badaddr s in
     map (bit (read_csr MSTATUS s')) [0..<64] = map (redirected_status m) [0..<64] \<and>
     s' = s\<lparr>csrs := (csrs s)(SEPC := epc, SBADADDR := badaddr, SCAUSE := read_csr MCAUSE s,
       MEPC := read_csr STVEC s, MSTATUS := read_csr MSTATUS s')\<rparr>"
proof -
  have "map (bit (read_csr MSTATUS (redirect_trap epc m badaddr s))) [0..<64] = map (redirected_status m) [0..<64]"
    by (rule map_cong [OF refl]) (simp add: redirect_mstatus)
  then show ?thesis
    by (simp add: Let_def) (simp add: redirect_trap_def Let_def read_csr_def write_csr_def fun_upd_twist)
qed

text \<open>
  A trap from machine mode is passed on only for a memory access made on behalf of the
  interrupted code; the access that fetches an instruction is reported as a fetch. In every
  other case the machine stops.
\<close>


end
