(* ===== verification/Syscalls.thy ===== *)
theory Syscalls
  imports Sbi
begin

text \<open>
  The system calls of the proxy kernel that reach the crypto engines, the DMA engine, the reset
  controller and the console (\<^verbatim>\<open>src/pk/pk/syscall.c\<close>), the range checks of
  \<^verbatim>\<open>src/pk/pk/mmap.c\<close> they make, and the calls that only fill a user buffer. Each call copies
  its data between user memory and local arrays and enters machine mode with \<^verbatim>\<open>ecall\<close>.

  Kernel addresses are mapped to themselves, so \<open>ram\<close> is the view of the kernel and the machine
  mode sees the local arrays at the same addresses.
\<close>

section \<open>The frame of a call\<close>

text \<open>
  What the compiler chooses: the registers an \<^verbatim>\<open>ecall\<close> finds where its operands do not name
  them, its address, and the addresses of the local arrays in the order of their declaration.
\<close>

record frame =
  fr_regs :: "nat \<Rightarrow> u64"
  fr_epc :: u64
  fr_local :: "nat \<Rightarrow> u64"

primrec bind_regs :: "(nat \<times> u64) list \<Rightarrow> (nat \<Rightarrow> u64) \<Rightarrow> nat \<Rightarrow> u64" where
  "bind_regs [] regs = regs"
| "bind_regs (b # bs) regs = bind_regs bs (regs(fst b := snd b))"

definition ecall :: "'d platform \<Rightarrow> frame \<Rightarrow> (nat \<times> u64) list \<Rightarrow> 'd world \<Rightarrow> 'd world option" where
  "ecall P F bound s =
     map_option snd (mcall_trap P (map (bind_regs bound (fr_regs F)) [0..<32]) (fr_epc F) s)"

section \<open>The range checks\<close>

definition valid_user_range :: "u64 \<Rightarrow> u64 \<Rightarrow> 'd world \<Rightarrow> bool" where
  "valid_user_range vaddr len s = (if vaddr + len < vaddr then False else vaddr + len \<le> mmap_max s)"

text \<open>The second one compares the lower halves as signed integers.\<close>

definition valid_user_range_u :: "u64 \<Rightarrow> u64 \<Rightarrow> 'd world \<Rightarrow> bool" where
  "valid_user_range_u vaddr len s =
     (if sint (ucast vaddr + ucast len :: u32) < sint (ucast vaddr :: u32) then False
      else vaddr + len \<le> mmap_max s)"

section \<open>Moving data\<close>

text \<open>Word by word from the first, as the array initialisers and the assignments do it.\<close>

primrec copy_words :: "nat \<Rightarrow> u64 \<Rightarrow> u64 \<Rightarrow> 'd world \<Rightarrow> 'd world" where
  "copy_words 0 d p s = s"
| "copy_words (Suc n) d p s = copy_words n (d + 4) (p + 4) (wst32 s d (ld32 (ram s) p))"

definition zero_words :: "nat \<Rightarrow> u64 \<Rightarrow> 'd world \<Rightarrow> 'd world" where
  "zero_words n d s = wst_words s d (replicate n 0)"

definition wipe :: "u64 \<Rightarrow> u64 \<Rightarrow> 'd world \<Rightarrow> 'd world option" where
  "wipe buf n s = map_option (\<lambda>m. s\<lparr>ram := m\<rparr>) (memset (ram s) buf 0 n)"

definition wst64 :: "'d world \<Rightarrow> u64 \<Rightarrow> u64 \<Rightarrow> 'd world" where
  "wst64 s a v = s\<lparr>ram := st64 (ram s) a v\<rparr>"

definition strcpy_lit :: "u64 \<Rightarrow> string \<Rightarrow> 'd world \<Rightarrow> 'd world" where
  "strcpy_lit d lit s = s\<lparr>ram := put_bytes st8 (ram s) d (bytes_of lit @ [0])\<rparr>"

text \<open>\<^verbatim>\<open>for (int i=0; i<buf_len; i++) sbuf[i] = ((char * )buf)[i];\<close>: the comparison is unsigned.\<close>

function copy_chars :: "u64 \<Rightarrow> u64 \<Rightarrow> u32 \<Rightarrow> u32 \<Rightarrow> 'd world \<Rightarrow> 'd world" where
  "copy_chars d p n i s =
     (if i < n then copy_chars d p n (i + 1) (wst8 s (d + scast i) (ld8 (ram s) (p + scast i))) else s)"
  by pat_completeness auto
termination
  by (relation "measure (\<lambda>(d, p, n, i, s). unat n - unat i)") (auto simp: count_up_decreases)

declare copy_chars.simps [simp del]

section \<open>RSA\<close>

text \<open>The wait only loads the number of the call; there is no \<^verbatim>\<open>ecall\<close> in it.\<close>

definition sys_rsa_wait :: "'d world \<Rightarrow> (u32 \<times> 'd world) option" where
  "sys_rsa_wait s = Some (0, s)"

definition sys_rsa_write_prime_num :: "'d platform \<Rightarrow> frame \<Rightarrow> u64 \<Rightarrow> 'd world \<Rightarrow> (u32 \<times> 'd world) option" where
  "sys_rsa_write_prime_num P F p_num s =
     (if \<not> valid_user_range p_num 256 s then Some (0, s)
      else do {
        let s = copy_words 64 (fr_local F 0) p_num s;
        s \<leftarrow> ecall P F [(10, fr_local F 0), (17, SBI_RSA_WRITE_PNUM)] s;
        s \<leftarrow> wipe (fr_local F 0) 256 s;
        Some (0, s) })"

definition sys_rsa_write_msg_in :: "'d platform \<Rightarrow> frame \<Rightarrow> u64 \<Rightarrow> u32 \<Rightarrow> 'd world \<Rightarrow> (u32 \<times> 'd world) option" where
  "sys_rsa_write_msg_in P F msg_in encry_decry s =
     (if \<not> valid_user_range msg_in 256 s then Some (0, s)
      else do {
        let s = copy_words 64 (fr_local F 0) msg_in s;
        s \<leftarrow> ecall P F [(10, fr_local F 0), (11, scast encry_decry), (17, SBI_RSA_WRITE_MSG_IN)] s;
        s \<leftarrow> wipe (fr_local F 0) 256 s;
        Some (0, s) })"

definition sys_rsa_read_msg_out :: "'d platform \<Rightarrow> frame \<Rightarrow> u64 \<Rightarrow> 'd world \<Rightarrow> (u32 \<times> 'd world) option" where
  "sys_rsa_read_msg_out P F msg_out s =
     (if \<not> valid_user_range msg_out 256 s then Some (0, s)
      else do {
        let s = zero_words 64 (fr_local F 0) s;
        s \<leftarrow> ecall P F [(10, fr_local F 0), (17, SBI_RSA_READ_MSG_OUT)] s;
        let s = copy_words 64 msg_out (fr_local F 0) s;
        s \<leftarrow> wipe (fr_local F 0) 256 s;
        Some (0, s) })"

section \<open>Random numbers\<close>

text \<open>
  The guards of the polynomial and seed calls are written with one parenthesis too early: a call
  is refused when one of the first three ranges is invalid and the fourth one is valid.
\<close>

definition sys_rng_wait :: "'d platform \<Rightarrow> frame \<Rightarrow> 'd world \<Rightarrow> (u32 \<times> 'd world) option" where
  "sys_rng_wait P F s =
     (do {
       s \<leftarrow> ecall P F [(17, SBI_RNG_WAIT)] s;
       Some (0, s) })"

definition sys_rng_read_data :: "'d platform \<Rightarrow> frame \<Rightarrow> u64 \<Rightarrow> 'd world \<Rightarrow> (u32 \<times> 'd world) option" where
  "sys_rng_read_data P F randnum s =
     (if \<not> valid_user_range randnum 8 s then Some (0, s)
      else do {
        let s = zero_words 2 (fr_local F 0) s;
        s \<leftarrow> ecall P F [(10, fr_local F 0), (17, SBI_RNG_READ_DATA)] s;
        let s = copy_words 2 randnum (fr_local F 0) s;
        s \<leftarrow> wipe (fr_local F 0) 8 s;
        Some (0, s) })"

definition sys_rng_read_poly :: "'d platform \<Rightarrow> frame \<Rightarrow> u64 \<Rightarrow> u64 \<Rightarrow> u64 \<Rightarrow> u64 \<Rightarrow> 'd world \<Rightarrow> (u32 \<times> 'd world) option" where
  "sys_rng_read_poly P F poly128 poly64 poly32 poly16 s =
     (if \<not> (valid_user_range poly128 16 s \<and> valid_user_range poly64 8 s \<and> valid_user_range poly32 4 s) \<and>
        valid_user_range poly16 4 s then Some (0, s)
      else do {
        let s = zero_words 4 (fr_local F 0) s;
        let s = zero_words 2 (fr_local F 1) s;
        let s = zero_words 1 (fr_local F 2) s;
        let s = zero_words 1 (fr_local F 3) s;
        s \<leftarrow> ecall P F [(10, fr_local F 0), (11, fr_local F 1), (12, fr_local F 2), (13, fr_local F 3), (17, SBI_RNG_READ_POLY)] s;
        let s = copy_words 4 poly128 (fr_local F 0) s;
        let s = copy_words 2 poly64 (fr_local F 1) s;
        let s = copy_words 1 poly32 (fr_local F 2) s;
        let s = copy_words 1 poly16 (fr_local F 3) s;
        s \<leftarrow> wipe (fr_local F 0) 16 s;
        s \<leftarrow> wipe (fr_local F 1) 8 s;
        s \<leftarrow> wipe (fr_local F 2) 4 s;
        s \<leftarrow> wipe (fr_local F 3) 4 s;
        Some (0, s) })"

definition sys_rng_write_poly :: "'d platform \<Rightarrow> frame \<Rightarrow> u64 \<Rightarrow> u64 \<Rightarrow> u64 \<Rightarrow> u64 \<Rightarrow> 'd world \<Rightarrow> (u32 \<times> 'd world) option" where
  "sys_rng_write_poly P F poly128 poly64 poly32 poly16 s =
     (if \<not> (valid_user_range poly128 16 s \<and> valid_user_range poly64 8 s \<and> valid_user_range poly32 4 s) \<and>
        valid_user_range poly16 4 s then Some (0, s)
      else do {
        let s = copy_words 4 (fr_local F 0) poly128 s;
        let s = copy_words 2 (fr_local F 1) poly64 s;
        let s = copy_words 1 (fr_local F 2) poly32 s;
        let s = copy_words 1 (fr_local F 3) poly16 s;
        s \<leftarrow> ecall P F [(10, fr_local F 0), (11, fr_local F 1), (12, fr_local F 2), (13, fr_local F 3), (17, SBI_RNG_WRITE_POLY)] s;
        s \<leftarrow> wipe (fr_local F 0) 16 s;
        s \<leftarrow> wipe (fr_local F 1) 8 s;
        s \<leftarrow> wipe (fr_local F 2) 4 s;
        s \<leftarrow> wipe (fr_local F 3) 4 s;
        Some (0, s) })"

definition sys_rng_read_seed :: "'d platform \<Rightarrow> frame \<Rightarrow> u64 \<Rightarrow> u64 \<Rightarrow> u64 \<Rightarrow> u64 \<Rightarrow> 'd world \<Rightarrow> (u32 \<times> 'd world) option" where
  "sys_rng_read_seed P F seed128 seed64 seed32 seed16 s =
     (if \<not> (valid_user_range seed128 16 s \<and> valid_user_range seed64 8 s \<and> valid_user_range seed32 4 s) \<and>
        valid_user_range seed16 4 s then Some (0, s)
      else do {
        let s = zero_words 4 (fr_local F 0) s;
        let s = zero_words 2 (fr_local F 1) s;
        let s = zero_words 1 (fr_local F 2) s;
        let s = zero_words 1 (fr_local F 3) s;
        s \<leftarrow> ecall P F [(10, fr_local F 0), (11, fr_local F 1), (12, fr_local F 2), (13, fr_local F 3), (17, SBI_RNG_READ_SEED)] s;
        let s = copy_words 4 seed128 (fr_local F 0) s;
        let s = copy_words 2 seed64 (fr_local F 1) s;
        let s = copy_words 1 seed32 (fr_local F 2) s;
        let s = copy_words 1 seed16 (fr_local F 3) s;
        s \<leftarrow> wipe (fr_local F 0) 16 s;
        s \<leftarrow> wipe (fr_local F 1) 8 s;
        s \<leftarrow> wipe (fr_local F 2) 4 s;
        s \<leftarrow> wipe (fr_local F 3) 4 s;
        Some (0, s) })"

text \<open>The fourth word of the copy of the seed is the fifth of the user.\<close>

definition sys_rng_write_seed :: "'d platform \<Rightarrow> frame \<Rightarrow> u64 \<Rightarrow> 'd world \<Rightarrow> (u32 \<times> 'd world) option" where
  "sys_rng_write_seed P F seed s =
     (if \<not> valid_user_range seed 16 s then Some (0, s)
      else do {
        let s = copy_words 3 (fr_local F 0) seed s;
        let s = wst32 s (fr_local F 0 + 12) (ld32 (ram s) (seed + 16));
        s \<leftarrow> ecall P F [(10, fr_local F 0), (17, SBI_RNG_WRITE_SEED)] s;
        s \<leftarrow> wipe (fr_local F 0) 16 s;
        Some (0, s) })"

definition sys_rng_read_rand_seg :: "'d platform \<Rightarrow> frame \<Rightarrow> u64 \<Rightarrow> 'd world \<Rightarrow> (u32 \<times> 'd world) option" where
  "sys_rng_read_rand_seg P F rand_seg s =
     (if \<not> valid_user_range rand_seg 8 s then Some (0, s)
      else do {
        let s = zero_words 2 (fr_local F 0) s;
        s \<leftarrow> ecall P F [(10, fr_local F 0), (17, SBI_RNG_READ_RAND_SEG)] s;
        let s = copy_words 2 rand_seg (fr_local F 0) s;
        s \<leftarrow> wipe (fr_local F 0) 8 s;
        Some (0, s) })"

definition sys_rng_read_state_counter :: "'d platform \<Rightarrow> frame \<Rightarrow> u64 \<Rightarrow> 'd world \<Rightarrow> (u32 \<times> 'd world) option" where
  "sys_rng_read_state_counter P F st_cnt s =
     (if \<not> valid_user_range st_cnt 4 s then Some (0, s)
      else do {
        let s = zero_words 1 (fr_local F 0) s;
        s \<leftarrow> ecall P F [(10, fr_local F 0), (17, SBI_RNG_READ_STATE_COUNTER)] s;
        let s = copy_words 1 st_cnt (fr_local F 0) s;
        s \<leftarrow> wipe (fr_local F 0) 4 s;
        Some (0, s) })"

section \<open>AES\<close>

definition sys_aes0_start_decry :: "'d platform \<Rightarrow> frame \<Rightarrow> u64 \<Rightarrow> u64 \<Rightarrow> u32 \<Rightarrow> 'd world \<Rightarrow> (u32 \<times> 'd world) option" where
  "sys_aes0_start_decry P F ct st key_sel s =
     (if \<not> (valid_user_range ct 16 s \<and> valid_user_range st 16 s) then Some (0, s)
      else do {
        let s = copy_words 4 (fr_local F 0) ct s;
        let s = copy_words 4 (fr_local F 1) st s;
        s \<leftarrow> ecall P F [(10, fr_local F 0), (11, fr_local F 1), (12, scast key_sel), (17, SBI_AES0_START_ENCRYPT)] s;
        s \<leftarrow> wipe (fr_local F 0) 16 s;
        s \<leftarrow> wipe (fr_local F 1) 16 s;
        Some (0, s) })"

definition sys_aes0_start_encry :: "'d platform \<Rightarrow> frame \<Rightarrow> u64 \<Rightarrow> u64 \<Rightarrow> u32 \<Rightarrow> 'd world \<Rightarrow> (u32 \<times> 'd world) option" where
  "sys_aes0_start_encry P F pt st key_sel s =
     (if \<not> valid_user_range st 16 s then Some (0, s)
      else do {
        let s = copy_words 4 (fr_local F 0) pt s;
        let s = copy_words 4 (fr_local F 1) st s;
        s \<leftarrow> ecall P F [(10, fr_local F 0), (11, fr_local F 1), (12, scast key_sel), (17, SBI_AES0_START_ENCRYPT)] s;
        s \<leftarrow> wipe (fr_local F 0) 16 s;
        s \<leftarrow> wipe (fr_local F 1) 16 s;
        Some (0, s) })"

definition sys_aes0_wait :: "'d platform \<Rightarrow> frame \<Rightarrow> 'd world \<Rightarrow> (u32 \<times> 'd world) option" where
  "sys_aes0_wait P F s =
     (do {
       s \<leftarrow> ecall P F [(17, SBI_AES0_WAIT)] s;
       Some (0, s) })"

definition sys_aes0_data_out :: "'d platform \<Rightarrow> frame \<Rightarrow> u64 \<Rightarrow> u32 \<Rightarrow> 'd world \<Rightarrow> (u32 \<times> 'd world) option" where
  "sys_aes0_data_out P F t key_sel s =
     (if \<not> valid_user_range t 16 s then Some (0, s)
      else do {
        let s = zero_words 4 (fr_local F 0) s;
        s \<leftarrow> ecall P F [(10, fr_local F 0), (17, SBI_AES0_DATA_OUT)] s;
        let s = copy_words 4 t (fr_local F 0) s;
        s \<leftarrow> wipe (fr_local F 0) 16 s;
        Some (0, s) })"

definition sys_aes2_start_decry :: "'d platform \<Rightarrow> frame \<Rightarrow> u64 \<Rightarrow> u64 \<Rightarrow> u32 \<Rightarrow> 'd world \<Rightarrow> (u32 \<times> 'd world) option" where
  "sys_aes2_start_decry P F ct st key_sel s =
     (if \<not> (valid_user_range ct 16 s \<and> valid_user_range st 16 s) then Some (0, s)
      else do {
        let s = copy_words 4 (fr_local F 0) ct s;
        let s = copy_words 4 (fr_local F 1) st s;
        s \<leftarrow> ecall P F [(10, fr_local F 0), (11, fr_local F 1), (12, scast key_sel), (17, SBI_AES2_START_ENCRYPT)] s;
        s \<leftarrow> wipe (fr_local F 0) 16 s;
        s \<leftarrow> wipe (fr_local F 1) 16 s;
        Some (0, s) })"

definition sys_aes2_start_encry :: "'d platform \<Rightarrow> frame \<Rightarrow> u64 \<Rightarrow> u64 \<Rightarrow> u32 \<Rightarrow> 'd world \<Rightarrow> (u32 \<times> 'd world) option" where
  "sys_aes2_start_encry P F pt st key_sel s =
     (if \<not> valid_user_range st 16 s then Some (0, s)
      else do {
        let s = copy_words 4 (fr_local F 0) pt s;
        let s = copy_words 4 (fr_local F 1) st s;
        s \<leftarrow> ecall P F [(10, fr_local F 0), (11, fr_local F 1), (12, scast key_sel), (17, SBI_AES2_START_ENCRYPT)] s;
        s \<leftarrow> wipe (fr_local F 0) 16 s;
        s \<leftarrow> wipe (fr_local F 1) 16 s;
        Some (0, s) })"

definition sys_aes2_wait :: "'d platform \<Rightarrow> frame \<Rightarrow> 'd world \<Rightarrow> (u32 \<times> 'd world) option" where
  "sys_aes2_wait P F s =
     (do {
       s \<leftarrow> ecall P F [(17, SBI_AES2_WAIT)] s;
       Some (0, s) })"

definition sys_aes2_data_out :: "'d platform \<Rightarrow> frame \<Rightarrow> u64 \<Rightarrow> u32 \<Rightarrow> 'd world \<Rightarrow> (u32 \<times> 'd world) option" where
  "sys_aes2_data_out P F t key_sel s =
     (if \<not> valid_user_range t 16 s then Some (0, s)
      else do {
        let s = zero_words 4 (fr_local F 0) s;
        s \<leftarrow> ecall P F [(10, fr_local F 0), (17, SBI_AES2_DATA_OUT)] s;
        let s = copy_words 4 t (fr_local F 0) s;
        s \<leftarrow> wipe (fr_local F 0) 16 s;
        Some (0, s) })"

definition sys_aes1_read_data :: "'d platform \<Rightarrow> frame \<Rightarrow> u64 \<Rightarrow> 'd world \<Rightarrow> (u32 \<times> 'd world) option" where
  "sys_aes1_read_data P F res s =
     (if \<not> valid_user_range res 12 s then Some (0, s)
      else do {
        let s = zero_words 4 (fr_local F 0) s;
        s \<leftarrow> ecall P F [(10, fr_local F 0), (17, SBI_AES1_READ_DATA)] s;
        let s = copy_words 4 res (fr_local F 0) s;
        s \<leftarrow> wipe (fr_local F 0) 16 s;
        Some (0, s) })"

definition sys_aes1_read_config :: "'d platform \<Rightarrow> frame \<Rightarrow> u64 \<Rightarrow> 'd world \<Rightarrow> (u32 \<times> 'd world) option" where
  "sys_aes1_read_config P F conf s =
     (if \<not> valid_user_range conf 4 s then Some (0, s)
      else do {
        let s = zero_words 1 (fr_local F 0) s;
        s \<leftarrow> ecall P F [(10, fr_local F 0), (17, SBI_AES1_READ_CONFIG)] s;
        let s = copy_words 1 conf (fr_local F 0) s;
        Some (0, s) })"

definition sys_aes1_write_data :: "'d platform \<Rightarrow> frame \<Rightarrow> u64 \<Rightarrow> u32 \<Rightarrow> 'd world \<Rightarrow> (u32 \<times> 'd world) option" where
  "sys_aes1_write_data P F bk key_sel s =
     (if \<not> valid_user_range bk 16 s then Some (0, s)
      else do {
        let s = copy_words 4 (fr_local F 0) bk s;
        s \<leftarrow> ecall P F [(10, fr_local F 0), (11, scast key_sel), (17, SBI_AES1_WRITE_DATA)] s;
        s \<leftarrow> wipe (fr_local F 0) 16 s;
        Some (0, s) })"

definition sys_aes1_write_config :: "'d platform \<Rightarrow> frame \<Rightarrow> u32 \<Rightarrow> 'd world \<Rightarrow> (u32 \<times> 'd world) option" where
  "sys_aes1_write_config P F config s =
     (do {
       s \<leftarrow> ecall P F [(10, scast config), (17, SBI_AES1_WRITE_CONFIG)] s;
       Some (0, s) })"

section \<open>Reset, hashes, DMA, comparison and printing\<close>

definition sys_rst :: "'d platform \<Rightarrow> frame \<Rightarrow> u32 \<Rightarrow> 'd world \<Rightarrow> (u32 \<times> 'd world) option" where
  "sys_rst P F ident s =
     (do {
       s \<leftarrow> ecall P F [(10, scast ident), (17, SBI_RST)] s;
       Some (0, s) })"

definition sys_sha256_hash :: "'d platform \<Rightarrow> frame \<Rightarrow> u64 \<Rightarrow> u64 \<Rightarrow> 'd world \<Rightarrow> (u32 \<times> 'd world) option" where
  "sys_sha256_hash P F pString hash s = do {
     n \<leftarrow> strlen (ram s) pString;
     if \<not> (valid_user_range pString (n + 1) s \<and> valid_user_range hash 32 s) then Some (0, s)
     else do {
       n \<leftarrow> strlen (ram s) pString;
       m \<leftarrow> memcpy (ram s) (fr_local F 0) pString (n + 1);
       let s = s\<lparr>ram := m\<rparr>;
       s \<leftarrow> ecall P F [(10, fr_local F 0), (11, fr_local F 1), (17, SBI_SHA256_HASH)] s;
       let s = copy_words 8 hash (fr_local F 1) s;
       s \<leftarrow> wipe (fr_local F 0) 500 s;
       s \<leftarrow> wipe (fr_local F 1) 32 s;
       Some (0, s) } }"

definition sys_hmac_hash :: "'d platform \<Rightarrow> frame \<Rightarrow> u64 \<Rightarrow> u64 \<Rightarrow> u32 \<Rightarrow> 'd world \<Rightarrow> (u32 \<times> 'd world) option" where
  "sys_hmac_hash P F pString hash use_key_hash s = do {
     n \<leftarrow> strlen (ram s) pString;
     if \<not> (valid_user_range pString (n + 1) s \<and> valid_user_range hash 32 s) then Some (0, s)
     else do {
       m \<leftarrow> memcpy (ram s) (fr_local F 0) pString 64;
       let s = s\<lparr>ram := m\<rparr>;
       let s = wst8 s (fr_local F 0 + 64) 0;
       s \<leftarrow> ecall P F [(10, fr_local F 0), (11, fr_local F 1), (12, scast use_key_hash), (17, SBI_HMAC_HASH)] s;
       let s = copy_words 8 hash (fr_local F 1) s;
       s \<leftarrow> wipe (fr_local F 0) 65 s;
       Some (0, s) } }"

definition sys_dma_copy :: "'d platform \<Rightarrow> frame \<Rightarrow> u64 \<Rightarrow> u64 \<Rightarrow> u32 \<Rightarrow> u32 \<Rightarrow> 'd world \<Rightarrow> (u32 \<times> 'd world) option" where
  "sys_dma_copy P F sAddr dAddr len wait s =
     (do {
       s \<leftarrow> ecall P F [(10, sAddr), (11, dAddr), (12, scast len), (13, scast wait), (17, SBI_DMA_COPY)] s;
       Some (0, s) })"

definition sys_dma_copy_to_perif :: "'d platform \<Rightarrow> frame \<Rightarrow> u64 \<Rightarrow> u64 \<Rightarrow> u32 \<Rightarrow> u32 \<Rightarrow> 'd world \<Rightarrow> (u32 \<times> 'd world) option" where
  "sys_dma_copy_to_perif P F sAddr dAddr len wait s =
     (if \<not> valid_user_range sAddr (ucast (len + 1)) s \<or> len > 32 then Some (0, s)
      else do {
        let s = copy_words (unat (2 * len)) (fr_local F 0) sAddr s;
        s \<leftarrow> ecall P F [(10, fr_local F 0), (11, dAddr), (12, scast len), (13, scast wait), (17, SBI_DMA_COPY)] s;
        s \<leftarrow> wipe (fr_local F 0) 256 s;
        Some (0, s) })"

definition sys_dma_copy_from_perif :: "'d platform \<Rightarrow> frame \<Rightarrow> u64 \<Rightarrow> u64 \<Rightarrow> u32 \<Rightarrow> u32 \<Rightarrow> 'd world \<Rightarrow> (u32 \<times> 'd world) option" where
  "sys_dma_copy_from_perif P F sAddr dAddr len wait s =
     (if \<not> valid_user_range dAddr (ucast (len + 1)) s \<or> len > 32 then Some (0, s)
      else do {
        let s = zero_words 64 (fr_local F 0) s;
        s \<leftarrow> ecall P F [(10, sAddr), (11, fr_local F 0), (12, scast len), (13, scast wait), (17, SBI_DMA_COPY)] s;
        let s = copy_words (unat (2 * len)) dAddr (fr_local F 0) s;
        s \<leftarrow> wipe (fr_local F 0) 256 s;
        Some (0, s) })"

definition sys_dma_end :: "'d platform \<Rightarrow> frame \<Rightarrow> 'd world \<Rightarrow> (u32 \<times> 'd world) option" where
  "sys_dma_end P F s =
     (do {
       s \<leftarrow> ecall P F [(17, SBI_DMA_END)] s;
       Some (0, s) })"

text \<open>
  The length goes to a2 and the place of the result to a3; the local arrays are the two copies and
  the word \<^verbatim>\<open>sequality\<close>.
\<close>

primrec copy_pairs :: "nat \<Rightarrow> u64 \<Rightarrow> u64 \<Rightarrow> u64 \<Rightarrow> u64 \<Rightarrow> 'd world \<Rightarrow> 'd world" where
  "copy_pairs 0 d p e q s = s"
| "copy_pairs (Suc n) d p e q s =
     (let s = wst32 s d (ld32 (ram s) p); s = wst32 s e (ld32 (ram s) q)
      in copy_pairs n (d + 4) (p + 4) (e + 4) (q + 4) s)"

definition sys_cmp :: "'d platform \<Rightarrow> frame \<Rightarrow> u64 \<Rightarrow> u64 \<Rightarrow> u32 \<Rightarrow> u64 \<Rightarrow> 'd world \<Rightarrow> (u32 \<times> 'd world) option" where
  "sys_cmp P F expectedData receivedData block_size equality s =
     (if \<not> (valid_user_range_u expectedData (ucast block_size) s \<and> valid_user_range_u receivedData (ucast block_size) s \<and>
        valid_user_range_u equality 4 s) \<or> block_size > 1024 then Some (0, s)
      else do {
        let s = copy_pairs (unat block_size) (fr_local F 0) expectedData (fr_local F 1) receivedData s;
        s \<leftarrow> ecall P F [(10, fr_local F 0), (11, fr_local F 1), (12, scast block_size), (13, fr_local F 2), (17, SBI_CMP)] s;
        let s = copy_words 1 equality (fr_local F 2) s;
        s \<leftarrow> wipe (fr_local F 0) 4096 s;
        s \<leftarrow> wipe (fr_local F 1) 4096 s;
        Some (0, s) })"

definition sys_puts :: "'d platform \<Rightarrow> frame \<Rightarrow> u64 \<Rightarrow> u32 \<Rightarrow> 'd world \<Rightarrow> (u32 \<times> 'd world) option" where
  "sys_puts P F buf buf_len s =
     (if \<not> valid_user_range buf (ucast buf_len) s then Some (0, s)
      else do {
        let s = copy_chars (fr_local F 0) buf buf_len 0 s;
        s \<leftarrow> ecall P F [(10, fr_local F 0), (11, scast buf_len), (17, SBI_PUTS)] s;
        Some (0, s) })"

section \<open>Calls that only answer\<close>

definition rdcycle64 :: "'d world \<Rightarrow> u64" where
  "rdcycle64 s = read_csr MCYCLE s"

definition CLOCK_FREQ :: u64 where "CLOCK_FREQ = 1000000000"

definition sys_uname :: "u64 \<Rightarrow> 'd world \<Rightarrow> u32 \<times> 'd world" where
  "sys_uname buf s =
     (if \<not> valid_user_range buf (65 * 5) s then (0, s)
      else let s = strcpy_lit buf ''Proxy Kernel'' s;
               s = strcpy_lit (buf + 65) '''' s;
               s = strcpy_lit (buf + 2 * 65) ''4.15.0'' s;
               s = strcpy_lit (buf + 3 * 65) '''' s;
               s = strcpy_lit (buf + 4 * 65) '''' s
           in (0, strcpy_lit (buf + 5 * 65) '''' s))"

definition sys_rt_sigaction :: "u64 \<Rightarrow> 'd world \<Rightarrow> (u32 \<times> 'd world) option" where
  "sys_rt_sigaction oact s =
     map_option (Pair 0) (if oact \<noteq> 0 then wipe oact 24 s else Some s)"

definition sys_time :: "u64 \<Rightarrow> 'd world \<Rightarrow> u64 \<times> 'd world" where
  "sys_time loc s =
     (if \<not> valid_user_range loc 8 s then (0, s)
      else let t = rdcycle64 s div CLOCK_FREQ in (t, if loc \<noteq> 0 then wst64 s loc t else s))"

definition sys_times :: "u64 \<Rightarrow> 'd world \<Rightarrow> u32 \<times> 'd world" where
  "sys_times loc s =
     (if \<not> valid_user_range loc (2 * 8) s then (0, s)
      else let t = rdcycle64 s;
               s = wst64 s loc (t div (CLOCK_FREQ div 1000000));
               s = wst64 s (loc + 8) 0;
               s = wst64 s (loc + 16) 0
           in (0, wst64 s (loc + 24) 0))"

definition sys_gettimeofday :: "u64 \<Rightarrow> 'd world \<Rightarrow> u32 \<times> 'd world" where
  "sys_gettimeofday loc s =
     (if \<not> valid_user_range loc (2 * 8) s then (0, s)
      else let t = rdcycle64 s;
               s = wst64 s loc (t div CLOCK_FREQ)
           in (0, wst64 s (loc + 8) (t mod CLOCK_FREQ div (CLOCK_FREQ div 1000000))))"

definition sys_clock_gettime :: "u64 \<Rightarrow> 'd world \<Rightarrow> u32 \<times> 'd world" where
  "sys_clock_gettime loc s =
     (if \<not> valid_user_range loc (2 * 8) s then (0, s)
      else let t = rdcycle64 s;
               s = wst64 s loc (t div CLOCK_FREQ)
           in (0, wst64 s (loc + 8) (t mod CLOCK_FREQ div (CLOCK_FREQ div 1000000000))))"

definition sys_stub_success :: "'d world \<Rightarrow> u32 \<times> 'd world" where
  "sys_stub_success s = (0, s)"

definition sys_stub_nosys :: "'d platform \<Rightarrow> 'd world \<Rightarrow> u32 \<times> 'd world" where
  "sys_stub_nosys P s = (- ucast (ENOSYS P), s)"

end
