(* ===== verification/SyscallProps.thy ===== *)
theory SyscallProps
  imports Syscalls
begin

text \<open>
  What the system calls do to user memory and to the engines. The calls follow two patterns,
  each stated once as a contract of the machine-mode call and interpreted on the calls that
  follow it: a call that reads a block from an engine into a buffer, and one that sends a buffer
  to an engine.
\<close>

section \<open>Entering machine mode\<close>

lemma ecall_mcall:
  "ecall P F bound s =
     (let R = bind_regs bound (fr_regs F)
      in map_option snd (mcall P (R 17) (R 10) (R 11) (R 12) (R 13) (R 14) (write_csr MEPC (fr_epc F + 4) s)))"
  by (cases "mcall P (bind_regs bound (fr_regs F) 17) (bind_regs bound (fr_regs F) 10)
      (bind_regs bound (fr_regs F) 11) (bind_regs bound (fr_regs F) 12) (bind_regs bound (fr_regs F) 13)
      (bind_regs bound (fr_regs F) 14) (write_csr MEPC (fr_epc F + 4) s)")
    (simp_all add: ecall_def mcall_trap_def Let_def split_beta)

lemma snd_ret0: "map_option snd (ret0 x) = map_option snd x"
  by (cases x) (simp_all add: ret0_def split_beta)

lemma write_csr_world [simp]:
  "ram (write_csr r v s) = ram s" "sent (write_csr r v s) = sent s" "mmap_max (write_csr r v s) = mmap_max s"
  "aes0 (write_csr r v s) = aes0 s" "aes1 (write_csr r v s) = aes1 s" "aes2 (write_csr r v s) = aes2 s"
  "rng (write_csr r v s) = rng s" "rsa (write_csr r v s) = rsa s" "dev (write_csr r v s) = dev s"
  by (simp_all add: write_csr_def sent_def)

lemma scast_ucast_u32 [simp]: "ucast (scast (w :: u32) :: u64) = w"
proof (rule bit_word_eqI)
  fix n assume "n < LENGTH(32)"
  then consider "n < 31" | "n = 31" by fastforce
  then show "bit (ucast (scast w :: u64) :: u32) n = bit w n" by cases (auto simp: bit_simps)
qed

lemma mmio_rd_csrs: "fst (mmio_rd B w a (write_csr r v s)) = fst (mmio_rd B w a s)"
    "snd (mmio_rd B w a (write_csr r v s)) = write_csr r v (snd (mmio_rd B w a s))"
  by (simp_all add: mmio_rd_def write_csr_def split: prod.split)

lemma read_regs_csrs: "fst (read_regs B a n (write_csr r v s)) = fst (read_regs B a n s)"
  by (induction n arbitrary: a s) (auto simp: split_beta mmio_rd_csrs)

section \<open>Data movement\<close>

lemma ram_wst32: "ram (wst32 s a v) = st32 (ram s) a v"
  by (simp add: wst32_def)

lemma copy_words_block:
  assumes "apart d (4 * n) p (4 * n)"
  shows "copy_words n d p s = wst_words s d (ld_words (ram s) p n)"
  using assms
proof (induction n arbitrary: d p s)
  case 0
  then show ?case by (simp add: wst_words_def)
next
  case (Suc n)
  have ap: "apart (d + of_nat 4) (4 * n) (p + of_nat 4) (4 * n)"
    by (rule apart_offset [OF Suc.prems]) simp_all
  have "apart (d + of_nat 0) 4 (p + of_nat 4) (4 * n)"
    by (rule apart_offset [OF Suc.prems]) simp_all
  then have "ld_words (st_words (ram s) d [ld32 (ram s) p]) (p + 4) n = ld_words (ram s) (p + 4) n"
    by (intro ld_st_words_apart) simp
  then show ?case
    using Suc.IH [of "d + 4" "p + 4" "wst32 s d (ld32 (ram s) p)"] ap
    by (simp add: wst_words_def wst32_def)
qed

lemma wipe_fills:
  assumes "unat buf + unat n < 2 ^ 64"
  shows "wipe buf n s = Some (s\<lparr>ram := put_bytes st8 (ram s) buf (replicate (unat n) 0)\<rparr>)"
  using memset_fills_runs [OF assms, of "ram s" 0] by (simp add: wipe_def)

text \<open>A local array that is filled, filled again, copied out and wiped leaves only the copy.\<close>

lemma put_cover:
  assumes "length xs = length zs" "length ys = length zs" "length zs < 2 ^ 64" "length us < 2 ^ 64"
  shows "put_bytes st8 (put_bytes st8 (put_bytes st8 (put_bytes st8 m l xs) l ys) t us) l zs
       = put_bytes st8 (put_bytes st8 m t us) l zs"
proof
  fix x
  show "put_bytes st8 (put_bytes st8 (put_bytes st8 (put_bytes st8 m l xs) l ys) t us) l zs x
      = put_bytes st8 (put_bytes st8 m t us) l zs x"
    using assms by (simp add: put_bytes_ram)
qed

lemma put_cover1:
  assumes "length xs = length zs" "length zs < 2 ^ 64"
  shows "put_bytes st8 (put_bytes st8 m l xs) l zs = put_bytes st8 m l zs"
  using assms by (auto simp: put_bytes_ram)

section \<open>Calls that read a block\<close>

definition read_call ::
    "(u64 \<Rightarrow> 'd world \<Rightarrow> 'd world option) \<Rightarrow> nat \<Rightarrow> u64 \<Rightarrow> u64 \<Rightarrow> 'd world \<Rightarrow> (u32 \<times> 'd world) option" where
  "read_call enter k l t s = do {
     s \<leftarrow> enter l (zero_words k l s);
     s \<leftarrow> wipe l (of_nat (4 * k)) (copy_words k t l s);
     Some (0, s) }"

locale engine_read =
  fixes enter :: "u64 \<Rightarrow> 'd world \<Rightarrow> 'd world option"
    and got :: "'d world \<Rightarrow> u32 list"
    and k :: nat
  assumes enter_reads: "\<exists>s'. enter a s = Some s' \<and> ram s' = st_words (ram s) a (got s) \<and> sent s' = sent s"
    and got_length: "length (got s) = k"
    and got_ram: "got (s\<lparr>ram := m\<rparr>) = got s"
begin

lemma read_call_result:
  assumes "apart t (4 * k) l (4 * k)" "unat l + 4 * k < 2 ^ 64"
  shows "\<exists>s'. read_call enter k l t s = Some (0, s') \<and>
    ram s' = put_bytes st8 (st_words (ram s) t (got s)) l (replicate (4 * k) 0) \<and> sent s' = sent s"
proof -
  let ?z = "zero_words k l s"
  obtain s1 where s1: "enter l ?z = Some s1" "ram s1 = st_words (ram ?z) l (got ?z)" "sent s1 = sent ?z"
    using enter_reads by blast
  have k: "4 * k < 2 ^ 64" "k < 2 ^ 62" using assms(2) by simp_all
  have n: "unat (of_nat (4 * k) :: u64) = 4 * k" by (rule unat_of_nat_u64 [OF k(1)])
  have got: "got ?z = got s" by (simp add: zero_words_def wst_words_def got_ram)
  have ram1: "ram s1 = st_words (st_words (ram s) l (replicate k 0)) l (got s)"
    using s1(2) got by (simp add: zero_words_def wst_words_def)
  have sent1: "sent s1 = sent s" using s1(3) by (simp add: zero_words_def io_simps)
  have "ld_words (ram s1) l k = got s"
    unfolding ram1 by (rule ld_st_words_same) (use k got_length in simp_all)
  then have copy: "copy_words k t l s1 = wst_words s1 t (got s)"
    by (simp add: copy_words_block [OF assms(1)])
  let ?s' = " (wst_words s1 t (got s))\<lparr>ram := put_bytes st8 (st_words (ram s1) t (got s)) l (replicate (4 * k) 0)\<rparr>"
  have s': "read_call enter k l t s = Some (0, ?s')"
    using s1(1) assms(2) n by (simp add: read_call_def copy wipe_fills wst_words_def del: of_nat_mult)
  have len: "length (concat (map (le_bytes 4) (ws :: u32 list))) = 4 * length ws" for ws
    by (induction ws) auto
  have "ram ?s' = put_bytes st8 (st_words (ram s) t (got s)) l (replicate (4 * k) 0)"
    unfolding ram1 st_words_bytes world.select_convs world.simps
    by (subst put_cover) (use k got_length len len [of "replicate k 0"] in simp_all)
  then show ?thesis using s' sent1 by (intro exI [of _ ?s']) (simp add: io_simps)
qed

end

subsection \<open>The calls that follow the pattern\<close>

definition block_got :: "'d bus \<Rightarrow> u64 \<Rightarrow> u32 \<Rightarrow> nat \<Rightarrow> 'd world \<Rightarrow> u32 list" where
  "block_got B p off n s = rev (fst (read_regs B (reg_addr p off) n s))"

lemma length_block_got [simp]: "length (block_got B p off n s) = n"
  by (simp add: block_got_def)

lemma block_got_ram: "block_got B p off n (s\<lparr>ram := m\<rparr>) = block_got B p off n s"
  by (simp add: block_got_def read_regs_ram)

text \<open>What machine mode makes of each of these calls.\<close>

lemma ecall_reads:
  "ecall P F [(10, a), (17, SBI_AES0_DATA_OUT)] s =
     Some (readMultiFromAddress (bus_of P) (aes0 s) AES0_CT_BASE a 4 (write_csr MEPC (fr_epc F + 4) s))"
  "ecall P F [(10, a), (17, SBI_AES2_DATA_OUT)] s =
     Some (readMultiFromAddress (bus_of P) (aes2 s) AES2_CT_BASE a 4 (write_csr MEPC (fr_epc F + 4) s))"
  "ecall P F [(10, a), (17, SBI_AES1_READ_DATA)] s =
     Some (readMultiFromAddress (bus_of P) (aes1 s) AES1_RES_BASE a 4 (write_csr MEPC (fr_epc F + 4) s))"
  "ecall P F [(10, a), (17, SBI_RNG_READ_DATA)] s =
     Some (readMultiFromAddress (bus_of P) (rng s) RNG_RNUM_BASE a 2 (write_csr MEPC (fr_epc F + 4) s))"
  "ecall P F [(10, a), (17, SBI_RNG_READ_RAND_SEG)] s =
     Some (readMultiFromAddress (bus_of P) (rng s) RNG_SEG_OUT_BASE a 2 (write_csr MEPC (fr_epc F + 4) s))"
  "ecall P F [(10, a), (17, SBI_RNG_READ_STATE_COUNTER)] s =
     Some (readMultiFromAddress (bus_of P) (rng s) RNG_STATE a 1 (write_csr MEPC (fr_epc F + 4) s))"
  "ecall P F [(10, a), (17, SBI_RSA_READ_MSG_OUT)] s =
     Some (readMultiFromAddress (bus_of P) (rsa s) RSA_MSG_OUT_BASE a 64 (write_csr MEPC (fr_epc F + 4) s))"
  by (simp_all add: ecall_mcall mcall_def sbi_numbers snd_ret0 mcall_drivers aes0_data_out_def aes2_data_out_def
      aes1_read_data_def rng_read_data_def rng_read_rand_seg_def rng_read_state_counter_def rsa_read_msg_out_def)

lemma read_law:
  "ram (readMultiFromAddress B p off a n (write_csr r v s)) = st_words (ram s) a (block_got B p off (unat n) s)"
  "sent (readMultiFromAddress B p off a n (write_csr r v s)) = sent s"
  by (simp_all add: block_got_def world_simps io_simps read_regs_csrs)

interpretation aes0_out: engine_read "\<lambda>a. ecall P F [(10, a), (17, SBI_AES0_DATA_OUT)]"
    "\<lambda>s. block_got (bus_of P) (aes0 s) AES0_CT_BASE 4 s" 4 for P F
  by unfold_locales (simp_all add: ecall_reads read_law block_got_ram)

interpretation aes2_out: engine_read "\<lambda>a. ecall P F [(10, a), (17, SBI_AES2_DATA_OUT)]"
    "\<lambda>s. block_got (bus_of P) (aes2 s) AES2_CT_BASE 4 s" 4 for P F
  by unfold_locales (simp_all add: ecall_reads read_law block_got_ram)

interpretation aes1_out: engine_read "\<lambda>a. ecall P F [(10, a), (17, SBI_AES1_READ_DATA)]"
    "\<lambda>s. block_got (bus_of P) (aes1 s) AES1_RES_BASE 4 s" 4 for P F
  by unfold_locales (simp_all add: ecall_reads read_law block_got_ram)

interpretation rng_data: engine_read "\<lambda>a. ecall P F [(10, a), (17, SBI_RNG_READ_DATA)]"
    "\<lambda>s. block_got (bus_of P) (rng s) RNG_RNUM_BASE 2 s" 2 for P F
  by unfold_locales (simp_all add: ecall_reads read_law block_got_ram)

interpretation rng_seg: engine_read "\<lambda>a. ecall P F [(10, a), (17, SBI_RNG_READ_RAND_SEG)]"
    "\<lambda>s. block_got (bus_of P) (rng s) RNG_SEG_OUT_BASE 2 s" 2 for P F
  by unfold_locales (simp_all add: ecall_reads read_law block_got_ram)

interpretation rng_counter: engine_read "\<lambda>a. ecall P F [(10, a), (17, SBI_RNG_READ_STATE_COUNTER)]"
    "\<lambda>s. block_got (bus_of P) (rng s) RNG_STATE 1 s" 1 for P F
  by unfold_locales (simp_all add: ecall_reads read_law block_got_ram)

interpretation rsa_out: engine_read "\<lambda>a. ecall P F [(10, a), (17, SBI_RSA_READ_MSG_OUT)]"
    "\<lambda>s. block_got (bus_of P) (rsa s) RSA_MSG_OUT_BASE 64 s" 64 for P F
  by unfold_locales (simp_all add: ecall_reads read_law block_got_ram)

text \<open>The system calls are instances of the pattern once their range check has passed.\<close>

lemma sys_reads:
  "sys_aes0_data_out P F t key_sel s = (if \<not> valid_user_range t 16 s then Some (0, s)
     else read_call (\<lambda>a. ecall P F [(10, a), (17, SBI_AES0_DATA_OUT)]) 4 (fr_local F 0) t s)"
  "sys_aes2_data_out P F t key_sel s = (if \<not> valid_user_range t 16 s then Some (0, s)
     else read_call (\<lambda>a. ecall P F [(10, a), (17, SBI_AES2_DATA_OUT)]) 4 (fr_local F 0) t s)"
  "sys_aes1_read_data P F t s = (if \<not> valid_user_range t 12 s then Some (0, s)
     else read_call (\<lambda>a. ecall P F [(10, a), (17, SBI_AES1_READ_DATA)]) 4 (fr_local F 0) t s)"
  "sys_rng_read_data P F t s = (if \<not> valid_user_range t 8 s then Some (0, s)
     else read_call (\<lambda>a. ecall P F [(10, a), (17, SBI_RNG_READ_DATA)]) 2 (fr_local F 0) t s)"
  "sys_rng_read_rand_seg P F t s = (if \<not> valid_user_range t 8 s then Some (0, s)
     else read_call (\<lambda>a. ecall P F [(10, a), (17, SBI_RNG_READ_RAND_SEG)]) 2 (fr_local F 0) t s)"
  "sys_rng_read_state_counter P F t s = (if \<not> valid_user_range t 4 s then Some (0, s)
     else read_call (\<lambda>a. ecall P F [(10, a), (17, SBI_RNG_READ_STATE_COUNTER)]) 1 (fr_local F 0) t s)"
  "sys_rsa_read_msg_out P F t s = (if \<not> valid_user_range t 256 s then Some (0, s)
     else read_call (\<lambda>a. ecall P F [(10, a), (17, SBI_RSA_READ_MSG_OUT)]) 64 (fr_local F 0) t s)"
  by (simp_all only: read_call_def sys_aes0_data_out_def sys_aes2_data_out_def sys_aes1_read_data_def
      sys_rng_read_data_def sys_rng_read_rand_seg_def sys_rng_read_state_counter_def sys_rsa_read_msg_out_def Let_def)
    simp_all

section \<open>User and kernel memory\<close>

text \<open>A checked range lies below \<^verbatim>\<open>current.mmap_max\<close> and does not wrap around.\<close>

lemma u64_add_wraps: "a + n < (a :: u64) \<longleftrightarrow> 2 ^ 64 \<le> unat a + unat n"
proof (cases "unat a + unat n < 2 ^ 64")
  case True
  then show ?thesis by (simp add: word_less_nat_alt unat_add_no_wrap)
next
  case False
  then have "unat (a + n) = unat a + unat n - 2 ^ 64"
    using unat_u64_less [of a] unat_u64_less [of n] by (simp add: unat_word_ariths le_mod_geq)
  then show ?thesis
    using False unat_u64_less [of a] unat_u64_less [of n] by (simp add: word_less_nat_alt)
qed

lemma valid_user_range_iff_runs:
  "valid_user_range a n s \<longleftrightarrow> unat a + unat n \<le> unat (mmap_max s)"
proof (cases "unat a + unat n < 2 ^ 64")
  case True
  then show ?thesis
    using u64_add_wraps [of a n] by (simp add: valid_user_range_def word_le_nat_alt unat_add_no_wrap)
next
  case False
  then show ?thesis
    using u64_add_wraps [of a n] unat_u64_less [of "mmap_max s"] by (auto simp: valid_user_range_def)
qed

text \<open>A local array of the kernel: above the user addresses and within the address space.\<close>

definition kernel_local :: "frame \<Rightarrow> nat \<Rightarrow> nat \<Rightarrow> 'd world \<Rightarrow> bool" where
  "kernel_local F i n s \<longleftrightarrow> unat (mmap_max s) \<le> unat (fr_local F i) \<and> unat (fr_local F i) + n < 2 ^ 64"

lemma user_kernel_apart:
  assumes "valid_user_range t k s" "kernel_local F i n s" "m \<le> unat k"
  shows "apart t m (fr_local F i) n"
  using assms by (intro apartI) (auto simp: valid_user_range_iff_runs kernel_local_def)

text \<open>
  The effect of reading a block: the user's range holds what the engine had, the local array is
  wiped, no other byte changes and nothing is sent to a device.
\<close>

definition delivers :: "'d world \<Rightarrow> u64 \<Rightarrow> u32 list \<Rightarrow> u64 \<Rightarrow> 'd world \<Rightarrow> bool" where
  "delivers s t ws l s' \<longleftrightarrow>
     ram s' = put_bytes st8 (st_words (ram s) t ws) l (replicate (4 * length ws) 0) \<and> sent s' = sent s"

lemma sys_aes0_data_out_runs:
  assumes "valid_user_range t 16 s" "kernel_local F 0 16 s"
  shows "\<exists>s'. sys_aes0_data_out P F t key_sel s = Some (0, s') \<and>
    delivers s t (block_got (bus_of P) (aes0 s) AES0_CT_BASE 4 s) (fr_local F 0) s'"
  using aes0_out.read_call_result [of t "fr_local F 0" P F s] assms
    user_kernel_apart [OF assms, of 16]
  by (simp add: sys_reads delivers_def kernel_local_def)

theorem sys_aes0_data_out_delivers:
  assumes "valid_user_range t 16 s" "kernel_local F 0 16 s"
  shows "\<exists>s'. sys_aes0_data_out P F t key_sel s = Some (0, s') \<and>
    delivers s t (block_got (bus_of P) (aes0 s) AES0_CT_BASE 4 s) (fr_local F 0) s'"
  using assms by (rule sys_aes0_data_out_runs)

theorem sys_rsa_read_msg_out_delivers:
  assumes "valid_user_range t 256 s" "kernel_local F 0 256 s"
  shows "\<exists>s'. sys_rsa_read_msg_out P F t s = Some (0, s') \<and>
    delivers s t (block_got (bus_of P) (rsa s) RSA_MSG_OUT_BASE 64 s) (fr_local F 0) s'"
  using rsa_out.read_call_result [of t "fr_local F 0" P F s] assms
    user_kernel_apart [OF assms, of 256]
  by (simp add: sys_reads delivers_def kernel_local_def)

text \<open>
  The result of AES1 has 16 bytes but only 12 of them are checked, so the last word is also
  written where the user may not write.
\<close>

theorem sys_aes1_read_data_overruns:
  assumes "unat t + 12 = unat (mmap_max s)" "apart t 16 (fr_local F 0) 16" "kernel_local F 0 16 s"
  shows "\<exists>s'. sys_aes1_read_data P F t s = Some (0, s') \<and>
    ld32 (ram s') (mmap_max s) = block_got (bus_of P) (aes1 s) AES1_RES_BASE 4 s ! 3"
proof -
  let ?ws = "block_got (bus_of P) (aes1 s) AES1_RES_BASE 4 s"
  have t: "mmap_max s = t + 4 * of_nat 3"
    using assms(1) unat_u64_less [of "mmap_max s"] by (intro word_unat_eq_iff [THEN iffD2]) (simp add: unat_add_no_wrap)
  have "valid_user_range t 12 s" using assms(1) by (simp add: valid_user_range_iff_runs)
  then obtain s' where s': "sys_aes1_read_data P F t s = Some (0, s')"
      and ram: "ram s' = put_bytes st8 (st_words (ram s) t ?ws) (fr_local F 0) (replicate 16 0)"
    using aes1_out.read_call_result [of t "fr_local F 0" P F s] assms(2,3)
    by (auto simp: sys_reads kernel_local_def)
  have "apart (fr_local F 0) 16 (t + of_nat 12) 4"
    using apart_sym [OF apart_offset [OF assms(2), of 12 4 0 16]] by simp
  then have "ld32 (ram s') (t + 4 * of_nat 3) = ld32 (st_words (ram s) t ?ws) (t + 4 * of_nat 3)"
    unfolding ram by (simp add: ld32_def ram_store.get_put_apart)
  also have "\<dots> = ?ws ! 3" by (rule ld32_st_words_within) simp_all
  finally show ?thesis using s' by (simp only: t) blast
qed

section \<open>Calls that send a block\<close>

definition write_call ::
    "(u64 \<Rightarrow> 'd world \<Rightarrow> 'd world option) \<Rightarrow> nat \<Rightarrow> u64 \<Rightarrow> u64 \<Rightarrow> 'd world \<Rightarrow> (u32 \<times> 'd world) option" where
  "write_call enter k l p s = do {
     s \<leftarrow> enter l (copy_words k l p s);
     s \<leftarrow> wipe l (of_nat (4 * k)) s;
     Some (0, s) }"

locale engine_write =
  fixes enter :: "u64 \<Rightarrow> 'd world \<Rightarrow> 'd world option"
    and cmds :: "'d world \<Rightarrow> u32 list \<Rightarrow> (u64 \<times> u64) list"
    and k :: nat
  assumes enter_sends: "\<exists>s'. enter a s = Some s' \<and>
      ram s' = ram s \<and> sent s' = sent s @ cmds s (ld_words (ram s) a k)"
    and cmds_ram: "cmds (s\<lparr>ram := m\<rparr>) = cmds s"
begin

lemma write_call_result:
  assumes "apart l (4 * k) p (4 * k)" "unat l + 4 * k < 2 ^ 64"
  shows "\<exists>s'. write_call enter k l p s = Some (0, s') \<and> sent s' = sent s @ cmds s (ld_words (ram s) p k) \<and>
    ram s' = put_bytes st8 (ram s) l (replicate (4 * k) 0)"
proof -
  have k: "4 * k < 2 ^ 64" "k < 2 ^ 62" using assms(2) by simp_all
  have n: "unat (of_nat (4 * k) :: u64) = 4 * k" by (rule unat_of_nat_u64 [OF k(1)])
  let ?c = "wst_words s l (ld_words (ram s) p k)"
  obtain s1 where s1: "enter l ?c = Some s1" "ram s1 = ram ?c" "sent s1 = sent ?c @ cmds ?c (ld_words (ram ?c) l k)"
    using enter_sends by blast
  have "ld_words (ram ?c) l k = ld_words (ram s) p k"
    unfolding wst_words_def by simp (rule ld_st_words_same, use k in simp_all)
  then have sent: "sent s1 = sent s @ cmds s (ld_words (ram s) p k)"
    using s1(3) by (simp add: wst_words_def cmds_ram io_simps)
  have ram: "ram s1 = st_words (ram s) l (ld_words (ram s) p k)"
    using s1(2) by (simp add: wst_words_def)
  let ?s' = "s1\<lparr>ram := put_bytes st8 (ram s1) l (replicate (4 * k) 0)\<rparr>"
  have s': "write_call enter k l p s = Some (0, ?s')"
    using s1(1) assms(2) n by (simp add: write_call_def copy_words_block [OF assms(1)] wipe_fills del: of_nat_mult)
  have len: "length (concat (map (le_bytes 4) (ws :: u32 list))) = 4 * length ws" for ws
    by (induction ws) auto
  have "ram ?s' = put_bytes st8 (ram s) l (replicate (4 * k) 0)"
    unfolding ram st_words_bytes
    by simp (rule put_cover1, use k len in simp_all)
  then show ?thesis using s' sent by (intro exI [of _ ?s']) (simp add: io_simps)
qed

end

lemma ecall_writes:
  "ecall P F [(10, a), (17, SBI_RSA_WRITE_PNUM)] s =
     Some (snd (rsa_write_prime_num (bus_of P) a (write_csr MEPC (fr_epc F + 4) s)))"
  "ecall P F [(10, a), (11, scast e), (17, SBI_RSA_WRITE_MSG_IN)] s =
     Some (snd (rsa_write_msg_in (bus_of P) a e (write_csr MEPC (fr_epc F + 4) s)))"
  "ecall P F [(10, a), (11, scast e), (17, SBI_AES1_WRITE_DATA)] s =
     Some (snd (aes1_write_data (bus_of P) a e (write_csr MEPC (fr_epc F + 4) s)))"
  by (simp_all add: ecall_mcall mcall_def sbi_numbers snd_ret0 mcall_drivers)

definition rsa_prime_cmds :: "u64 \<Rightarrow> u32 list \<Rightarrow> (u64 \<times> u64) list" where
  "rsa_prime_cmds b ws = block_writes (reg_addr b RSA_PRIME_BASE) ws @
     [(reg_addr b RSA_RST_KEY_BASE, 0), (reg_addr b RSA_RST_KEY_BASE, 1)]"

definition rsa_msg_cmds :: "u64 \<Rightarrow> u32 \<Rightarrow> u32 list \<Rightarrow> (u64 \<times> u64) list" where
  "rsa_msg_cmds b e ws = block_writes (reg_addr b RSA_MSG_IN_BASE) ws @
     [(reg_addr b RSA_ENCRY_DECRY_BASE, ucast e),
      (reg_addr b RSA_RST_MSG_BASE, 0), (reg_addr b RSA_RST_MSG_BASE, 1)]"

definition aes1_data_cmds :: "u64 \<Rightarrow> u32 \<Rightarrow> u32 list \<Rightarrow> (u64 \<times> u64) list" where
  "aes1_data_cmds b e ws = block_writes (reg_addr b AES1_BLK_BASE) ws @ [(reg_addr b AES1_KEY_SEL, ucast e)]"

interpretation rsa_prime: engine_write "\<lambda>a. ecall P F [(10, a), (17, SBI_RSA_WRITE_PNUM)]"
    "\<lambda>s. rsa_prime_cmds (rsa s)" 64 for P F
  by unfold_locales
    (auto simp: ecall_writes rsa_write_prime_num_def rsa_prime_cmds_def writeMulti_sends world_simps io_simps Let_def)

interpretation rsa_msg: engine_write "\<lambda>a. ecall P F [(10, a), (11, scast e), (17, SBI_RSA_WRITE_MSG_IN)]"
    "\<lambda>s. rsa_msg_cmds (rsa s) e" 64 for P F e
  by unfold_locales
    (auto simp: ecall_writes rsa_write_msg_in_def rsa_msg_cmds_def writeMulti_sends world_simps io_simps Let_def)

interpretation aes1_data: engine_write "\<lambda>a. ecall P F [(10, a), (11, scast e), (17, SBI_AES1_WRITE_DATA)]"
    "\<lambda>s. aes1_data_cmds (aes1 s) e" 4 for P F e
  by unfold_locales
    (auto simp: ecall_writes aes1_write_data_def aes1_data_cmds_def writeMulti_sends world_simps io_simps Let_def)

lemma sys_writes:
  "sys_rsa_write_prime_num P F p s = (if \<not> valid_user_range p 256 s then Some (0, s)
     else write_call (\<lambda>a. ecall P F [(10, a), (17, SBI_RSA_WRITE_PNUM)]) 64 (fr_local F 0) p s)"
  "sys_rsa_write_msg_in P F p e s = (if \<not> valid_user_range p 256 s then Some (0, s)
     else write_call (\<lambda>a. ecall P F [(10, a), (11, scast e), (17, SBI_RSA_WRITE_MSG_IN)]) 64 (fr_local F 0) p s)"
  "sys_aes1_write_data P F p e s = (if \<not> valid_user_range p 16 s then Some (0, s)
     else write_call (\<lambda>a. ecall P F [(10, a), (11, scast e), (17, SBI_AES1_WRITE_DATA)]) 4 (fr_local F 0) p s)"
  by (simp_all only: write_call_def sys_rsa_write_prime_num_def sys_rsa_write_msg_in_def sys_aes1_write_data_def Let_def)
    simp_all

theorem sys_rsa_write_prime_num_sends:
  assumes "valid_user_range p 256 s" "kernel_local F 0 256 s"
  shows "\<exists>s'. sys_rsa_write_prime_num P F p s = Some (0, s') \<and> sent s' = sent s @ rsa_prime_cmds (rsa s) (ld_words (ram s) p 64) \<and>
    ram s' = put_bytes st8 (ram s) (fr_local F 0) (replicate 256 0)"
  using rsa_prime.write_call_result [of "fr_local F 0" p P F s] assms
    user_kernel_apart [OF assms, of 256] apart_sym [of p 256 "fr_local F 0" 256]
  by (simp add: sys_writes kernel_local_def)

section \<open>Calls that start an AES engine\<close>

definition start_call ::
    "(u64 \<Rightarrow> u64 \<Rightarrow> 'd world \<Rightarrow> 'd world option) \<Rightarrow> u64 \<Rightarrow> u64 \<Rightarrow> u64 \<Rightarrow> u64 \<Rightarrow> 'd world \<Rightarrow> (u32 \<times> 'd world) option" where
  "start_call enter l0 l1 t st s = do {
     s \<leftarrow> enter l0 l1 (copy_words 4 l1 st (copy_words 4 l0 t s));
     s \<leftarrow> wipe l0 16 s;
     s \<leftarrow> wipe l1 16 s;
     Some (0, s) }"

locale engine_load =
  fixes enter :: "u64 \<Rightarrow> u64 \<Rightarrow> 'd world \<Rightarrow> 'd world option"
    and cmds :: "'d world \<Rightarrow> u32 list \<Rightarrow> u32 list \<Rightarrow> (u64 \<times> u64) list"
  assumes enter_loads: "enter a b s = Some s' \<Longrightarrow>
      ram s' = ram s \<and> sent s' = sent s @ cmds s (ld_words (ram s) a 4) (ld_words (ram s) b 4)"
    and cmds_ram: "cmds (s\<lparr>ram := m\<rparr>) = cmds s"
begin

lemma start_call_result:
  assumes "start_call enter l0 l1 t st s = Some (r, s')"
    and "apart l0 16 t 16" "apart l0 16 st 16" "apart l1 16 st 16" "apart l1 16 l0 16"
    and "unat l0 + 16 < 2 ^ 64" "unat l1 + 16 < 2 ^ 64"
  shows "r = 0 \<and> sent s' = sent s @ cmds s (ld_words (ram s) t 4) (ld_words (ram s) st 4) \<and>
    ram s' = put_bytes st8 (put_bytes st8 (ram s) l0 (replicate 16 0)) l1 (replicate 16 0)"
proof -
  let ?T = "ld_words (ram s) t 4" and ?S = "ld_words (ram s) st 4"
  have S: "ld_words (st_words (ram s) l0 ?T) st 4 = ?S"
    using assms(3) by (intro ld_st_words_apart) simp
  have copy: "copy_words 4 l1 st (copy_words 4 l0 t s)
      = s\<lparr>ram := st_words (st_words (ram s) l0 ?T) l1 ?S\<rparr>"
    using assms(2,4) S by (simp add: copy_words_block wst_words_def)
  let ?m = "st_words (st_words (ram s) l0 ?T) l1 ?S"
  obtain s1 where s1: "enter l0 l1 (s\<lparr>ram := ?m\<rparr>) = Some s1" "r = 0"
      "wipe l0 16 s1 \<bind> (\<lambda>s. wipe l1 16 s) = Some s'"
    using assms(1) by (auto simp: start_call_def bind_eq_Some_conv copy)
  have "ld_words ?m l0 4 = ld_words (st_words (ram s) l0 ?T) l0 4"
    using assms(5) by (intro ld_st_words_apart) simp
  then have "ld_words ?m l0 4 = ?T" "ld_words ?m l1 4 = ?S"
    by (simp_all add: ld_st_words_same)
  then have sent: "sent s1 = sent s @ cmds s ?T ?S" and ram: "ram s1 = ?m"
    using enter_loads [OF s1(1)] by (simp_all add: cmds_ram io_simps)
  have s': "s' = s1\<lparr>ram := put_bytes st8 (put_bytes st8 ?m l0 (replicate 16 0)) l1 (replicate 16 0)\<rparr>"
    using s1(3) assms(6,7) by (simp add: wipe_fills ram)
  have len: "length (concat (map (le_bytes 4) (ws :: u32 list))) = 4 * length ws" for ws
    by (induction ws) auto
  have "ram s' = put_bytes st8 (put_bytes st8 (ram s) l0 (replicate 16 0)) l1 (replicate 16 0)"
    unfolding s' st_words_bytes by (auto simp: put_bytes_ram len)
  then show ?thesis using s1(2) sent by (simp add: s' io_simps)
qed

end

lemma ecall_starts:
  "ecall P F [(10, a), (11, b), (12, scast k), (17, SBI_AES0_START_ENCRYPT)] s =
     map_option snd (aes0_start_encrypt (bus_of P) a b k (write_csr MEPC (fr_epc F + 4) s))"
  "ecall P F [(10, a), (11, b), (12, scast k), (17, SBI_AES2_START_ENCRYPT)] s =
     map_option snd (aes2_start_encrypt (bus_of P) a b k (write_csr MEPC (fr_epc F + 4) s))"
  by (simp_all add: ecall_mcall mcall_def sbi_numbers snd_ret0 mcall_drivers)

definition aes0_cmds :: "u64 \<Rightarrow> u32 list \<Rightarrow> u32 list \<Rightarrow> u32 \<Rightarrow> (u64 \<times> u64) list" where
  "aes0_cmds b = aes_start_writes b AES0_KEY_SEL AES0_PT_BASE AES0_ST_BASE AES0_START"

definition aes2_cmds :: "u64 \<Rightarrow> u32 list \<Rightarrow> u32 list \<Rightarrow> u32 \<Rightarrow> (u64 \<times> u64) list" where
  "aes2_cmds b = aes_start_writes b AES2_KEY_SEL AES2_PT_BASE AES2_ST_BASE AES2_START"

interpretation aes0_start: engine_load
    "\<lambda>a b. ecall P F [(10, a), (11, b), (12, scast k), (17, SBI_AES0_START_ENCRYPT)]"
    "\<lambda>s pt st. aes0_cmds (aes0 s) pt st k" for P F k
  by unfold_locales
    (auto simp: ecall_starts start_is_engine_start aes0_cmds_def dest: engine_start_sends(2) engine_start_sends(4))

interpretation aes2_start: engine_load
    "\<lambda>a b. ecall P F [(10, a), (11, b), (12, scast k), (17, SBI_AES2_START_ENCRYPT)]"
    "\<lambda>s pt st. aes2_cmds (aes2 s) pt st k" for P F k
  by unfold_locales
    (auto simp: ecall_starts start_is_engine_start aes2_cmds_def dest: engine_start_sends(2) engine_start_sends(4))

lemma sys_starts:
  "sys_aes0_start_decry P F t st k s = (if \<not> (valid_user_range t 16 s \<and> valid_user_range st 16 s) then Some (0, s)
     else start_call (\<lambda>a b. ecall P F [(10, a), (11, b), (12, scast k), (17, SBI_AES0_START_ENCRYPT)])
       (fr_local F 0) (fr_local F 1) t st s)"
  "sys_aes2_start_decry P F t st k s = (if \<not> (valid_user_range t 16 s \<and> valid_user_range st 16 s) then Some (0, s)
     else start_call (\<lambda>a b. ecall P F [(10, a), (11, b), (12, scast k), (17, SBI_AES2_START_ENCRYPT)])
       (fr_local F 0) (fr_local F 1) t st s)"
  "sys_aes0_start_encry P F t st k s = (if \<not> valid_user_range st 16 s then Some (0, s)
     else start_call (\<lambda>a b. ecall P F [(10, a), (11, b), (12, scast k), (17, SBI_AES0_START_ENCRYPT)])
       (fr_local F 0) (fr_local F 1) t st s)"
  "sys_aes2_start_encry P F t st k s = (if \<not> valid_user_range st 16 s then Some (0, s)
     else start_call (\<lambda>a b. ecall P F [(10, a), (11, b), (12, scast k), (17, SBI_AES2_START_ENCRYPT)])
       (fr_local F 0) (fr_local F 1) t st s)"
  by (simp_all only: start_call_def sys_aes0_start_decry_def sys_aes2_start_decry_def sys_aes0_start_encry_def
      sys_aes2_start_encry_def Let_def)

lemma sys_aes0_start_decry_sends:
  assumes "sys_aes0_start_decry P F ct st key_sel s = Some (r, s')"
    and "valid_user_range ct 16 s" "valid_user_range st 16 s" "kernel_local F 0 16 s" "kernel_local F 1 16 s"
    and "apart (fr_local F 1) 16 (fr_local F 0) 16"
  shows "r = 0 \<and> sent s' = sent s @ aes0_cmds (aes0 s) (ld_words (ram s) ct 4) (ld_words (ram s) st 4) key_sel \<and>
    ram s' = put_bytes st8 (put_bytes st8 (ram s) (fr_local F 0) (replicate 16 0)) (fr_local F 1) (replicate 16 0)"
  using aes0_start.start_call_result [of P F key_sel "fr_local F 0" "fr_local F 1" ct st s r s'] assms
    apart_sym [OF user_kernel_apart [OF assms(2,4), of 16]]
    apart_sym [OF user_kernel_apart [OF assms(3,4), of 16]]
    apart_sym [OF user_kernel_apart [OF assms(3,5), of 16]]
  by (simp add: sys_starts kernel_local_def)

lemma sys_aes0_start_encry_sends:
  assumes "sys_aes0_start_encry P F pt st key_sel s = Some (r, s')"
    and "valid_user_range st 16 s" "kernel_local F 0 16 s" "kernel_local F 1 16 s"
    and "apart (fr_local F 1) 16 (fr_local F 0) 16" "apart (fr_local F 0) 16 pt 16"
  shows "sent s' = sent s @ aes0_cmds (aes0 s) (ld_words (ram s) pt 4) (ld_words (ram s) st 4) key_sel"
  using aes0_start.start_call_result [of P F key_sel "fr_local F 0" "fr_local F 1" pt st s r s'] assms
    apart_sym [OF user_kernel_apart [OF assms(2,3), of 16]]
    apart_sym [OF user_kernel_apart [OF assms(2,4), of 16]]
  by (simp add: sys_starts kernel_local_def)

section \<open>Calls with other patterns\<close>

text \<open>The range check means what it should; its variant for comparisons accepts ranges that wrap around.\<close>

text \<open>
  \<^bold>\<open>C29\<close>: The range check accepts exactly the ranges that end at or below
  current.mmap_max, without wrap-around.
\<close>

theorem valid_user_range_iff:
  "valid_user_range a n s \<longleftrightarrow> unat a + unat n \<le> unat (mmap_max s)"
  by (rule valid_user_range_iff_runs)

theorem valid_user_range_u_wraps:
  "valid_user_range_u (-4) 8 s = (4 \<le> mmap_max s) \<and> valid_user_range (-4) 8 s = False"
  by (simp add: valid_user_range_u_def valid_user_range_def)

text \<open>
  The comparison: its length and its result are passed one register too early, so machine mode
  writes the verdict through whatever a4 holds and the user gets an uninitialised word.
\<close>

lemma ld32_wst32_apart: "apart a 4 x 4 \<Longrightarrow> ld32 (ram (wst32 s a v)) x = ld32 (ram s) x"
  by (simp add: wst32_def ld32_st32_apart)

lemma apart_tail: "apart d (4 * Suc n) x 4 \<Longrightarrow> apart (d + 4) (4 * n) x 4 \<and> apart d 4 x 4"
  using apart_offset [of d "4 * Suc n" x 4 4 "4 * n" 0 4] apart_offset [of d "4 * Suc n" x 4 0 4 0 4] by simp

lemma copy_pairs_frame:
  "apart d (4 * n) x 4 \<Longrightarrow> apart e (4 * n) x 4 \<Longrightarrow> ld32 (ram (copy_pairs n d p e q s)) x = ld32 (ram s) x"
proof (induction n arbitrary: d p e q s)
  case (Suc n)
  note t = apart_tail [OF Suc.prems(1)] apart_tail [OF Suc.prems(2)]
  then show ?case by (simp add: Suc.IH Let_def ld32_wst32_apart del: mult_Suc_right)
qed simp

lemma copy_one: "copy_words 1 d p s = wst32 s d (ld32 (ram s) p)"
  by simp

lemma ecall_cmp:
  "ecall P F [(10, a), (11, b), (12, n), (13, e), (17, SBI_CMP)] s =
     Some (wst32 (write_csr MEPC (fr_epc F + 4) s) (fr_regs F 14) (verifyMulti (ram s) a b (ucast e)))"
  by (simp add: ecall_mcall mcall_def sbi_numbers mcall_cmp_def)

theorem sys_cmp_result_lost:
  assumes "valid_user_range_u expected (ucast n) s" "valid_user_range_u received (ucast n) s"
    and "valid_user_range_u equality 4 s" "n \<le> 1024"
    and "apart (fr_local F 0) 4096 (fr_local F 2) 4" "apart (fr_local F 1) 4096 (fr_local F 2) 4"
    and "apart (fr_regs F 14) 4 (fr_local F 2) 4"
    and "apart (fr_local F 0) 4096 equality 4" "apart (fr_local F 1) 4096 equality 4"
    and "unat (fr_local F 0) + 4096 < 2 ^ 64" "unat (fr_local F 1) + 4096 < 2 ^ 64"
  shows "\<exists>s'. sys_cmp P F expected received n equality s = Some (0, s') \<and>
    ld32 (ram s') equality = ld32 (ram s) (fr_local F 2)"
proof -
  let ?c = "copy_pairs (unat n) (fr_local F 0) expected (fr_local F 1) received s"
  let ?e = "wst32 (write_csr MEPC (fr_epc F + 4) ?c) (fr_regs F 14)
    (verifyMulti (ram ?c) (fr_local F 0) (fr_local F 1) (ucast (fr_local F 2)))"
  let ?q = "wst32 ?e equality (ld32 (ram ?e) (fr_local F 2))"
  have n: "4 * unat n \<le> 4096" using assms(4) by (simp add: word_le_nat_alt)
  have "ld32 (ram ?c) (fr_local F 2) = ld32 (ram s) (fr_local F 2)"
    using apart_mono [OF assms(5) n order_refl] apart_mono [OF assms(6) n order_refl]
    by (rule copy_pairs_frame)
  then have e: "ld32 (ram ?e) (fr_local F 2) = ld32 (ram s) (fr_local F 2)"
    using assms(7) by (simp add: ld32_wst32_apart)
  let ?s' = "?q\<lparr>ram := put_bytes st8 (put_bytes st8 (ram ?q) (fr_local F 0) (replicate 4096 0))
      (fr_local F 1) (replicate 4096 0)\<rparr>"
  have "sys_cmp P F expected received n equality s = Some (0, ?s')"
    using assms(1-3,10,11) assms(4) [unfolded not_less [symmetric]]
    by (simp add: sys_cmp_def ecall_cmp copy_one wipe_fills Let_def del: One_nat_def copy_words.simps)
  moreover have "ld32 (ram ?s') equality = ld32 (ram ?q) equality"
    using assms(8,9) by (simp add: ld32_def ram_store.get_put_apart)
  moreover have "ld32 (ram ?q) equality = ld32 (ram s) (fr_local F 2)"
    using e by (simp add: wst32_def ld32_st32_same del: One_nat_def)
  ultimately show ?thesis by (intro exI [of _ ?s']) (simp only: simp_thms)
qed

text \<open>The seed: the fourth word that reaches the generator is the fifth one of the user.\<close>

lemma ecall_seed:
  "ecall P F [(10, a), (17, SBI_RNG_WRITE_SEED)] s =
     Some (snd (rng_write_seed (bus_of P) a (write_csr MEPC (fr_epc F + 4) s)))"
  by (simp add: ecall_mcall mcall_def sbi_numbers snd_ret0 mcall_drivers)

theorem sys_rng_write_seed_sends_fifth:
  assumes "valid_user_range seed 16 s" "kernel_local F 0 16 s" "apart (fr_local F 0) 16 seed 20"
  shows "\<exists>s'. sys_rng_write_seed P F seed s = Some (0, s') \<and>
    sent s' = sent s @ block_writes (reg_addr (rng s) RNG_SEED_BASE)
      (ld_words (ram s) seed 3 @ [ld32 (ram s) (seed + 16)])"
proof -
  let ?l = "fr_local F 0" and ?ws = "ld_words (ram s) seed 3"
  have "apart ?l (4 * 3) seed (4 * 3)" by (rule apart_mono [OF assms(3)]) simp_all
  then have c: "copy_words 3 ?l seed s = wst_words s ?l ?ws" by (rule copy_words_block)
  have "apart ?l (4 * length ?ws) (seed + 16) 4" using apart_offset [OF assms(3), of 0 12 16 4] by simp
  then have "ld32 (st_words (ram s) ?l ?ws) (seed + 16) = ld32 (ram s) (seed + 16)"
    by (rule ld32_st_words_apart)
  moreover have "st32 (st_words (ram s) ?l ?ws) (?l + 12) w = st_words (ram s) ?l (?ws @ [w])" for w
    using st_words_append [of "ram s" ?l ?ws "[w]"] by simp
  ultimately show ?thesis
    using assms(1,2) c
    by (simp add: sys_rng_write_seed_def ecall_seed kernel_local_def wipe_fills rng_write_seed_def wst_words_def
        wst32_def writeMulti_sends io_simps ld_st_words_same Let_def del: ld_words.simps)
qed

text \<open>The processor times take 32 bytes but only 16 are checked: the last word lies beyond the user's memory.\<close>

theorem sys_times_overruns:
  assumes "unat loc + 16 = unat (mmap_max s)" "unat loc + 32 \<le> 2 ^ 64"
  shows "fst (sys_times loc s) = 0 \<and> ld64 (ram (snd (sys_times loc s))) (mmap_max s) = 0 \<and>
    ld64 (ram (snd (sys_times loc s))) (mmap_max s + 8) = 0"
proof -
  have m: "mmap_max s = loc + 16"
    using assms by (intro word_unat_eq_iff [THEN iffD2]) (simp add: unat_add_no_wrap)
  have "apart (loc + of_nat 24) 8 (loc + of_nat 16) 8"
    by (intro apart_sym [of "loc + of_nat 16"] apartI) (use assms in \<open>simp_all add: unat_add_no_wrap\<close>)
  then have "ld64 (st64 x (loc + 24) v) (loc + 16) = ld64 x (loc + 16)" for x v
    by (simp add: ld64_def st64_def ram_store.get_put_apart)
  then show ?thesis
    using assms(1) by (simp add: sys_times_def valid_user_range_iff_runs wst64_def ld64_st64_same Let_def m add.assoc)
qed

text \<open>The time of day is the cycle count, split into seconds and microseconds below a million.\<close>

theorem sys_gettimeofday_splits:
  assumes "valid_user_range loc 16 s"
  shows "let s' = snd (sys_gettimeofday loc s); sec = unat (ld64 (ram s') loc); usec = unat (ld64 (ram s') (loc + 8))
    in usec < 10 ^ 6 \<and> unat (rdcycle64 s) div 1000 = sec * 10 ^ 6 + usec"
proof -
  have "unat loc + 16 \<le> 2 ^ 64"
    using assms unat_u64_less [of "mmap_max s"] by (simp add: valid_user_range_iff_runs)
  then have "apart (loc + of_nat 8) 8 loc 8"
    by (intro apart_sym [of loc] apartI) (simp_all add: unat_add_no_wrap)
  then have other: "ld64 (st64 x (loc + 8) v) loc = ld64 x loc" for x v
    by (simp add: ld64_def st64_def ram_store.get_put_apart)
  let ?t = "unat (rdcycle64 s)"
  have "unat (rdcycle64 s div CLOCK_FREQ) = ?t div 10 ^ 9"
    "unat (rdcycle64 s mod CLOCK_FREQ div (CLOCK_FREQ div 1000000)) = ?t mod 10 ^ 9 div 1000"
    by (simp_all add: CLOCK_FREQ_def unat_div_distrib unat_mod_distrib)
  moreover have "?t mod 10 ^ 9 div 1000 = ?t div 1000 mod 10 ^ 6" "?t div 10 ^ 9 = ?t div 1000 div 10 ^ 6"
    using mod_mult2_eq [of ?t 1000 "10 ^ 6"] div_mult2_eq [of ?t 1000 "10 ^ 6"] by simp_all
  then have "?t div 1000 = ?t div 10 ^ 9 * 10 ^ 6 + ?t mod 10 ^ 9 div 1000" "?t mod 10 ^ 9 div 1000 < 10 ^ 6"
    by simp_all
  ultimately show ?thesis
    using assms by (simp add: sys_gettimeofday_def wst64_def ld64_st64_same other Let_def)
qed

end
