(* ===== verification/Liveness.thy ===== *)
theory Liveness
  imports SyscallProps
begin

text \<open>
  Which operations come back. The drivers wait for their engines without a bound, so this rests
  on the device: \<open>responsive\<close> says that a status register that is polled is not zero eventually,
  from any state. Under it the operations of the engines return and do what the component
  theories say of the runs that return.
\<close>

section \<open>Devices that answer\<close>

definition responsive :: "'d bus \<Rightarrow> u64 \<Rightarrow> u32 \<Rightarrow> u32 \<Rightarrow> bool" where
  "responsive B b off delay \<longleftrightarrow> (\<forall>s. answers B b off delay s)"

lemma responsive_wait:
  assumes "responsive B b off delay"
  obtains s' where "wait_nonzero B b off delay s = Some s'" "io_step s s'"
  using assms wait_nonzero_Some wait_nonzero_frame(1) unfolding responsive_def by metis

lemma responsive_bind:
  assumes "responsive B b off delay"
  shows "\<exists>y. wait_nonzero B b off delay s \<bind> (\<lambda>s. Some (c, f s)) = Some (c, y)"
  by (rule responsive_wait [OF assms, of s]) simp

lemma responsive_ready:
  "(\<And>d. (ucast (fst (bus_rd B 4 (reg_addr b off) d)) :: u32) \<noteq> 0) \<Longrightarrow> responsive B b off delay"
  unfolding responsive_def
  by (auto simp: readFromAddress_def mmio_rd_def split_beta intro!: answers.now)

text \<open>A memory-mapped device that always shows the same value.\<close>

definition const_bus :: "u64 \<Rightarrow> 'd bus" where
  "const_bus v = \<lparr>bus_rd = \<lambda>w a d. (v, d), bus_wr = \<lambda>w a v d. d\<rparr>"

lemma const_bus_responsive: "(ucast v :: u32) \<noteq> 0 \<Longrightarrow> responsive (const_bus v) b off delay"
  by (rule responsive_ready) (simp add: const_bus_def)

section \<open>AES\<close>

lemma engine_encrypt_returns:
  assumes "responsive B b go 1" "responsive B b dn 4"
  shows "\<exists>s'. engine_encrypt B b ks pr sr go dn cr pt st ct key_sel s = Some (0, s')"
  using assms unfolding engine_encrypt_def engine_start_def Let_def
  by (elim responsive_wait) (force simp: bind_eq_Some_conv)

text \<open>A whole encryption returns, and returns what the engine shows once it is done.\<close>

theorem aes0_encrypt_total:
  assumes "responsive B (aes0 s) AES0_START 1" "responsive B (aes0 s) AES0_DONE 4"
  shows "\<exists>s' ws. aes0_encrypt B pt st ct key_sel s = Some (0, s') \<and> io_step s s' \<and>
    sent s' = sent s @ aes_start_writes (aes0 s) AES0_KEY_SEL AES0_PT_BASE AES0_ST_BASE AES0_START
       (ld_words (ram s) pt 4) (ld_words (ram s) st 4) key_sel \<and>
    length ws = 4 \<and> engine_result B (aes0 s) AES0_DONE AES0_CT_BASE s ws \<and> ram s' = st_words (ram s) ct ws"
proof -
  obtain s' where s': "aes0_encrypt B pt st ct key_sel s = Some (0, s')"
    using engine_encrypt_returns [OF assms] unfolding encrypt_is_engine_encrypt by blast
  with engine_encrypt_result [OF s' [unfolded encrypt_is_engine_encrypt]] show ?thesis by blast
qed

section \<open>Hashes\<close>

context device_ptr
begin

lemma sha_turn_short:
  assumes "sha_turn ptr B message p first tot s = Some (f, p', tot', s')"
    and "cstr (ram s) p cs" "apart message 128 p (Suc (length cs))" "length cs < 64"
  shows f
proof -
  let ?z = "put_bytes st8 (ram s) message (replicate 128 0)"
  have "apart message 64 p (Suc (length cs))" using assms(3) by (rule apart_mono) simp_all
  then have "fst (sha_copy_loop 64 ?z p message tot)"
    using sha_copy_loop_takes [OF turn_zeroed [OF assms(3,2)]] assms(4) by simp
  with assms(1) show ?thesis by (auto simp: sha_turn_def Let_def split_beta bind_eq_Some_conv)
qed

lemma sha_block_returns:
  assumes "responsive B (ptr s) SHA256_READY 1" "responsive B (ptr s) SHA256_VALID 4"
    and "\<And>s. io_step s (send (ptr s) s)"
  shows "\<exists>s'. sha_block ptr B send strobe s = Some s' \<and> ptr s' = ptr s"
proof -
  obtain s1 where s1: "wait_nonzero B (ptr s) SHA256_READY 1 s = Some s1" "io_step s s1"
    using responsive_wait [OF assms(1)] .
  have p1: "ptr s1 = ptr s" by (rule ptr_stable [OF s1(2)])
  let ?s2 = "do_delay 20 (writeToAddress B (ptr s) SHA256_NEXT_INIT 0
      (writeToAddress B (ptr s) SHA256_NEXT_INIT strobe (send (ptr s) s1)))"
  obtain s3 where s3: "wait_nonzero B (ptr s) SHA256_VALID 4 ?s2 = Some s3" "io_step ?s2 s3"
    using responsive_wait [OF assms(2)] .
  have p2: "ptr (send (ptr s) s1) = ptr s" using ptr_stable [OF assms(3)] p1 by metis
  have p: "ptr (writeToAddress B b r v x) = ptr x" "ptr (do_delay n x) = ptr x" for b r v n and x :: "'d world"
    by (rule ptr_stable; simp)+
  have "ptr s3 = ptr s" using ptr_stable [OF s3(2)] p2 by (simp add: p)
  with s1(1) s3(1) show ?thesis by (simp add: sha_block_def p p1 p2)
qed

lemma sha_turn_returns:
  assumes "responsive B (ptr s) SHA256_READY 1" "responsive B (ptr s) SHA256_VALID 4"
  shows "\<exists>f p' tot' s'. sha_turn ptr B message p first tot s = Some (f, p', tot', s') \<and> ptr s' = ptr s"
proof -
  have blk: "\<exists>s'. sha_block ptr B (\<lambda>b. writeMulticharToAddress B b SHA256_TEXT_BASE message 64) k x = Some s' \<and>
      ptr s' = ptr s" "\<exists>s'. sha_block ptr B (\<lambda>b. writeMultiToAddress B b SHA256_TEXT_BASE (message + 64) 16) k x
      = Some s' \<and> ptr s' = ptr s" if "ptr x = ptr s" for k x
    using sha_block_returns [of B x] that assms by auto
  have m: "ptr (s\<lparr>ram := m\<rparr>) = ptr s" for m by (rule ptr_stable) simp
  have both: "\<exists>s'. sha_block ptr B (\<lambda>b. writeMulticharToAddress B b SHA256_TEXT_BASE message 64) k (s\<lparr>ram := m\<rparr>)
      \<bind> (\<lambda>s. (if q then sha_block ptr B (\<lambda>b. writeMultiToAddress B b SHA256_TEXT_BASE (message + 64) 16) 2 s
                else Some s) \<bind> (\<lambda>s. Some (x, y, z, s))) = Some (x, y, z, s') \<and> ptr s' = ptr s"
    for q k m and x :: bool and y :: u64 and z :: u32
  proof -
    obtain s1 where s1: "sha_block ptr B (\<lambda>b. writeMulticharToAddress B b SHA256_TEXT_BASE message 64) k (s\<lparr>ram := m\<rparr>)
        = Some s1" "ptr s1 = ptr s" using blk(1) [OF m, of k m] by blast
    obtain s2 where "sha_block ptr B (\<lambda>b. writeMultiToAddress B b SHA256_TEXT_BASE (message + 64) 16) 2 s1 = Some s2"
        "ptr s2 = ptr s" using blk(2) [OF s1(2), of 2] by blast
    with s1 show ?thesis by simp
  qed
  show ?thesis unfolding sha_turn_def Let_def split_beta using both by blast
qed

lemma sha_turns_returns:
  "responsive B (ptr s) SHA256_READY 1 \<Longrightarrow> responsive B (ptr s) SHA256_VALID 4 \<Longrightarrow> cstr (ram s) p cs \<Longrightarrow>
     apart message 128 p (Suc (length cs)) \<Longrightarrow> \<exists>s'. sha_turns ptr B message p first tot s = Some s'"
proof (induction cs arbitrary: p first tot s rule: measure_induct_rule [of length])
  case (less cs)
  obtain f p' tot' s1 where turn: "sha_turn ptr B message p first tot s = Some (f, p', tot', s1)" "ptr s1 = ptr s"
    using sha_turn_returns [OF less.prems(1,2)] by blast
  show ?case
  proof (cases f)
    case False
    have len: "64 \<le> length cs"
    proof (rule ccontr)
      assume "\<not> 64 \<le> length cs"
      then have "length cs < 64" by simp
      from sha_turn_short [OF turn(1) less.prems(3,4) this] False show False by simp
    qed
    note more = sha_turn_more [OF turn(1) less.prems(3,4) len]
    have "apart message 128 (p + 64) (Suc (length (drop 64 cs)))"
      using apart_offset [OF less.prems(4), of 0 128 64 "Suc (length cs - 64)"] len by simp
    then have "\<exists>s'. sha_turns ptr B message (p + 64) False (tot + 64) s1 = Some s'"
      using less.IH [of "drop 64 cs" s1 "p + 64"] less.prems(1,2) more(5) turn(2) len by simp
    with turn(1) more(1-3) show ?thesis by (subst sha_turns.simps) simp
  qed (use turn in \<open>subst sha_turns.simps, simp\<close>)
qed

lemma sha_hashString_returns:
  assumes "responsive B (ptr s) SHA256_READY 1" "responsive B (ptr s) SHA256_VALID 4" "cstr (ram s) p cs"
    and "apart message 128 p (Suc (length cs))"
  shows "\<exists>s'. sha_hashString ptr B message p hash s = Some (0, s')"
  using sha_turns_returns [OF assms, of True 0] by (auto simp: sha_hashString_def)

end

text \<open>
  The hash of a C string: the padded message goes out block by block, whatever the engine says in
  between, and the call comes back.
\<close>


lemma hmac_returns:
  assumes "responsive B (hmac s) HMAC_READY 1" "responsive B (hmac s) HMAC_VALID 4"
  shows "\<exists>s'. hmac_hashString B p hash use_key_hash s = Some (0, s')"
proof -
  obtain s1 where s1: "wait_nonzero B (hmac s) HMAC_READY 1 s = Some s1" "io_step s s1"
    using responsive_wait [OF assms(1)] .
  have h: "hmac s1 = hmac s" using io_step_fields(9) [OF s1(2)] by simp
  with s1(1) show ?thesis by (simp add: hmac_hashString_def Let_def responsive_bind [OF assms(2)])
qed

theorem hmac_hashString_total:
  assumes "responsive B (hmac s) HMAC_READY 1" "responsive B (hmac s) HMAC_VALID 4"
  shows "\<exists>s'. hmac_hashString B p hash use_key_hash s = Some (0, s') \<and> io_step s s' \<and>
    sent s' = sent s @ block_writes (reg_addr (hmac s) HMAC_TEXT_BASE) (be_words (get_bytes ld8 (ram s) p 64)) @
      (if use_key_hash \<noteq> 0 then [(reg_addr (hmac s) HMAC_NEXT_INIT, 5), (reg_addr (hmac s) HMAC_NEXT_INIT, 4)]
       else [(reg_addr (hmac s) HMAC_NEXT_INIT, 1), (reg_addr (hmac s) HMAC_NEXT_INIT, 0)])"
  using hmac_returns [OF assms] hmac_hashString_runs by blast

section \<open>Reset and DMA\<close>

theorem rst_id_total:
  assumes "responsive B (rst s) RST_START 1" "n \<le> 13"
  shows "\<exists>s'. rst_id B n s = Some (0, s') \<and> io_step s s' \<and> sent s' = sent s @
     [(reg_addr (rst s) RST_ID_BASE, ucast n), (reg_addr (rst s) RST_START, 0),
      (reg_addr (rst s) RST_START, 1), (reg_addr (rst s) RST_START, 0)]"
proof -
  have "\<exists>s'. rst_id B n s = Some (0, s')"
    using assms(2) by (simp add: rst_id_def Let_def not_less [symmetric] responsive_bind [OF assms(1)])
  then show ?thesis using rst_id_runs assms(2) by blast
qed

text \<open>
  The lock is taken by writing 2 and reading 2 back. A device that grants it at once programs the
  transfer exactly once.
\<close>

definition grants_lock :: "'d bus \<Rightarrow> u64 \<Rightarrow> bool" where
  "grants_lock B b \<longleftrightarrow> (\<forall>d. (ucast (fst (bus_rd B 4 (reg_addr b DMA_LOCK) (bus_wr B 4 (reg_addr b DMA_LOCK) 2 d))) :: u32) = 2)"


section \<open>System calls that start an engine\<close>

lemma engine_start_returns:
  assumes "responsive B b go 1"
  shows "\<exists>s'. engine_start B b ks pr sr go pt st key_sel s = Some (0, s')"
  unfolding engine_start_def Let_def bind_Some_map [symmetric] by (rule responsive_bind [OF assms])

lemma copy_words_ram: "\<exists>m. copy_words n d p s = s\<lparr>ram := m\<rparr>"
proof (induction n arbitrary: d p s)
  case (Suc n)
  from Suc [of "d + 4" "p + 4" "wst32 s d (ld32 (ram s) p)"] show ?case by (auto simp: wst32_def)
qed (simp, metis world.surjective world.update_convs(1))

lemma start_call_returns:
  assumes "\<And>m. \<exists>s'. enter l0 l1 (s\<lparr>ram := m\<rparr>) = Some s'" "unat l0 + 16 < 2 ^ 64" "unat l1 + 16 < 2 ^ 64"
  shows "\<exists>s'. start_call enter l0 l1 t st s = Some (0, s')"
proof -
  obtain m where "copy_words 4 l0 t s = s\<lparr>ram := m\<rparr>" using copy_words_ram by blast
  moreover obtain m' where "copy_words 4 l1 st (s\<lparr>ram := m\<rparr>) = s\<lparr>ram := m'\<rparr>"
    using copy_words_ram [of 4 l1 st "s\<lparr>ram := m\<rparr>"] by auto
  ultimately obtain s1 where "enter l0 l1 (copy_words 4 l1 st (copy_words 4 l0 t s)) = Some s1"
    using assms(1) by auto
  then show ?thesis using assms(2,3) by (simp add: start_call_def wipe_fills)
qed

lemma ecall_start_returns:
  fixes k :: u32
  assumes "responsive (bus_of P) (aes0 s) AES0_START 1"
  shows "\<exists>s'. ecall P F [(10, a), (11, b), (12, scast k), (17, SBI_AES0_START_ENCRYPT)] (s\<lparr>ram := m\<rparr>) = Some s'"
  using engine_start_returns [OF assms, of AES0_KEY_SEL AES0_PT_BASE AES0_ST_BASE a b k]
  by (simp add: ecall_starts start_is_engine_start) (metis option.simps(9))

lemma sys_aes0_start_decry_runs:
  assumes "responsive (bus_of P) (aes0 s) AES0_START 1" "valid_user_range ct 16 s" "valid_user_range st 16 s"
    and "kernel_local F 0 16 s" "kernel_local F 1 16 s" "apart (fr_local F 1) 16 (fr_local F 0) 16"
  shows "\<exists>s'. sys_aes0_start_decry P F ct st key_sel s = Some (0, s') \<and>
    sent s' = sent s @ aes0_cmds (aes0 s) (ld_words (ram s) ct 4) (ld_words (ram s) st 4) key_sel \<and>
    ram s' = put_bytes st8 (put_bytes st8 (ram s) (fr_local F 0) (replicate 16 0)) (fr_local F 1) (replicate 16 0)"
proof -
  have "\<exists>s'. sys_aes0_start_decry P F ct st key_sel s = Some (0, s')"
    using assms(2-5) start_call_returns [where ?l0.0 = "fr_local F 0" and enter = "\<lambda>a b. ecall P F
      [(10, a), (11, b), (12, scast key_sel), (17, SBI_AES0_START_ENCRYPT)]", OF ecall_start_returns [OF assms(1)]]
    by (simp add: sys_starts kernel_local_def)
  then show ?thesis using sys_aes0_start_decry_sends [OF _ assms(2-6)] by blast
qed

theorem sys_aes0_start_decry_total:
  assumes "responsive (bus_of P) (aes0 s) AES0_START 1" "valid_user_range ct 16 s" "valid_user_range st 16 s"
    and "kernel_local F 0 16 s" "kernel_local F 1 16 s" "apart (fr_local F 1) 16 (fr_local F 0) 16"
  shows "\<exists>s'. sys_aes0_start_decry P F ct st key_sel s = Some (0, s') \<and>
    sent s' = sent s @ aes0_cmds (aes0 s) (ld_words (ram s) ct 4) (ld_words (ram s) st 4) key_sel \<and>
    ram s' = put_bytes st8 (put_bytes st8 (ram s) (fr_local F 0) (replicate 16 0)) (fr_local F 1) (replicate 16 0)"
  using assms by (rule sys_aes0_start_decry_runs)

text \<open>
  The encryption call checks only the state block: whatever the plaintext pointer points to,
  kernel memory included, is sent to the engine.
\<close>

theorem sys_aes0_start_encry_unchecked:
  assumes "responsive (bus_of P) (aes0 s) AES0_START 1" "valid_user_range st 16 s"
    and "kernel_local F 0 16 s" "kernel_local F 1 16 s" "apart (fr_local F 1) 16 (fr_local F 0) 16"
    and "apart (fr_local F 0) 16 pt 16"
  shows "\<exists>s'. sys_aes0_start_encry P F pt st key_sel s = Some (0, s') \<and>
    sent s' = sent s @ aes0_cmds (aes0 s) (ld_words (ram s) pt 4) (ld_words (ram s) st 4) key_sel"
proof -
  have "\<exists>s'. sys_aes0_start_encry P F pt st key_sel s = Some (0, s')"
    using assms(2-4) start_call_returns [where ?l0.0 = "fr_local F 0" and enter = "\<lambda>a b. ecall P F
      [(10, a), (11, b), (12, scast key_sel), (17, SBI_AES0_START_ENCRYPT)]", OF ecall_start_returns [OF assms(1)]]
    by (simp add: sys_starts kernel_local_def)
  then show ?thesis using sys_aes0_start_encry_sends [OF _ assms(2-6)] by blast
qed

end
