(* ===== verification/Examples.thy ===== *)
theory Examples
  imports Liveness Snprintf
begin

text \<open>
  The properties at concrete inputs: a machine at rest, a platform whose devices show a constant,
  and for each property with hypotheses one input that satisfies them.
\<close>

section \<open>A machine at rest\<close>

definition rest_hls :: hls where
  "rest_hls = \<lparr>ipi = 0x2000000, mipi_pending = 0, timecmp = 0x2004000, plic_m_thresh = 0, plic_m_ie = 0,
     plic_s_thresh = 0, plic_s_ie = 0\<rparr>"

definition rest_pkv :: pk_vars where
  "rest_pkv = \<lparr>brk = 0, brk_min = 0x20000, brk_max = 0x40000000, stack_top = 0x40000000, vm_lock = 0, vmrs = 0,
     vmr_table = [], first_free_paddr = 0x80200000, first_free_page = 0x80100000, next_free_page = 0,
     free_pages = 256, demand_paging = 1, root_page_table = 0, fds = replicate 128 None,
     files = replicate 128 \<lparr>kfd = - 1, refcnt = 0\<rparr>, magic_mem = 0x80000040,
     phent = 0, phnum = 0, phdr = 0, phdr_size = 0, entry_point = 0, time0 = 0, cycle0 = 0, instret0 = 0\<rparr>"

definition resting :: "'d \<Rightarrow> 'd world" where
  "resting d = \<lparr>ram = \<lambda>_. 0, dev = d, trace = [], nops = 0, csrs = \<lambda>_. 0,
     aes0 = 0xfff5200000, aes1 = 0xfff5201000, aes2 = 0xfff5209000, aes3 = 0xfff520b000, sha256 = 0xfff5202000,
     sha2562 = 0xfff520c000, hmac = 0xfff5203000, pkt = 0xfff5204000, dma = 0xfff5207000, reglk = 0xfff5206000,
     rng = 0xfff5208000, rsa = 0xfff520a000, rst = 0xfff520d000, finisher = 0, uart = 0, uart16550 = 0xfff0c2c000,
     uart16550_reg_shift = 0, uart16550_clock = 0, htif = 0, htif_console_buf = 0, tohost = 0x60000000,
     fromhost = 0x60000008, printm_buf = 0x80010000, mmap_max = 0x40000000, hls_of = \<lambda>_. rest_hls,
     hart_mask = 1, disabled_hart_mask = 0, hart_phandles = [], mem_size = 0x40000000, mtime = 0,
     plic_priorities = 0, plic_ndevs = 0, kernel_start = 0, kernel_end = 0, fregs = \<lambda>_. 0, tp = 0, bbl_entry = 0, pkv = rest_pkv\<rparr>"

abbreviation at_rest :: "unit world" where
  "at_rest \<equiv> resting ()"

definition demo :: "u64 \<Rightarrow> unit platform" where
  "demo v = \<lparr>bus_of = const_bus v, ENOSYS = 38, load_uintptr_t = \<lambda>p mepc s. Some 1, file_name = 0x80000100,
     sha_message = 0x80020000, host_mem = \<lambda>d m. m, lit_at = \<lambda>t. 0x80000180,
     put_stat = \<lambda>p vs m. m\<rparr>"

definition demo_frame :: frame where
  "demo_frame = \<lparr>fr_regs = \<lambda>_. 0x80050000, fr_epc = 0x80000200, fr_local = \<lambda>i. 0x80030000 + 0x1000 * of_nat i\<rparr>"

lemmas example_defs = resting_def rest_hls_def demo_def demo_frame_def const_bus_def

lemma ucast_all_ones: "(ucast (- 1 :: u64) :: 'a::len word) = (if LENGTH('a) \<le> 64 then - 1 else mask 64)"
  by (rule bit_word_eqI) (auto simp: bit_simps)

lemma example_responsive [simp]: "responsive (const_bus 1) b off delay" "responsive (const_bus (- 1)) b off delay"
  by (simp_all add: const_bus_responsive ucast_all_ones)

lemma example_bus [simp]: "bus_of (demo v) = const_bus v"
  by (simp add: demo_def)

lemma read_const_bus: "fst (read_regs (const_bus v) a n s) = replicate n (ucast v)"
  by (induction n arbitrary: a s) (simp_all add: mmio_rd_def const_bus_def split_beta)

lemma resting_fields [simp]:
  "ram (resting d) = (\<lambda>_. 0)" "sent (resting d) = []" "mmap_max (resting d) = 0x40000000" "uart (resting d) = 0"
  "uart16550 (resting d) = 0xfff0c2c000" "csrs (resting d) = (\<lambda>_. 0)"
  by (simp_all add: resting_def sent_def)

lemma example_locals [simp]:
  "kernel_local demo_frame 0 16 at_rest" "kernel_local demo_frame 1 16 at_rest" "kernel_local demo_frame 0 256 at_rest"
  by (simp_all add: kernel_local_def resting_def demo_frame_def)

text \<open>Distances between the regions of the examples.\<close>

lemma apart_above: "unat a + n \<le> unat b \<Longrightarrow> unat b + k \<le> 2 ^ 64 \<Longrightarrow> apart a n b k \<and> apart b k a n"
  using apartI apart_sym by blast

lemma example_apart [simp]: "apart (fr_local demo_frame 1) 16 (fr_local demo_frame 0) 16"
  using apart_above [of "fr_local demo_frame 0" 16 "fr_local demo_frame 1" 16] by (simp add: demo_frame_def)

section \<open>Machine-mode calls\<close>

definition regs_with :: "u64 \<Rightarrow> u64 list" where
  "regs_with n = replicate 10 0 @ [0x1234] @ replicate 6 0 @ [n] @ replicate 14 0"

lemma nth_regs_with [simp]: "regs_with n ! 17 = n" "regs_with n ! 10 = 0x1234"
  by (simp_all add: regs_with_def nth_append)

theorem mcall_trap_unknown_witness:
  "mcall_trap (demo 1) (regs_with 99) 0x80000000 at_rest =
     Some ((regs_with 99)[10 := - 38], write_csr MEPC 0x80000004 at_rest)"
  using mcall_trap_unknown [of "regs_with 99" "demo 1" "0x80000000" at_rest] by (simp add: demo_def)

theorem mcall_trap_frame_witness:
  "\<exists>regs' s'. mcall_trap (demo 1) (regs_with 99) 0x80000000 at_rest = Some (regs', s') \<and>
     read_csr MEPC s' = 0x80000004 \<and> regs' ! 17 = 99 \<and> csrs s' SATP = 0"
proof -
  have "mcall (demo 1) 99 0x1234 (regs_with 99 ! 11) (regs_with 99 ! 12) (regs_with 99 ! 13) (regs_with 99 ! 14) s
      = Some (- 38, s)" for s
    by (simp add: mcall_def sbi_numbers demo_def)
  then obtain regs' s' where r: "mcall_trap (demo 1) (regs_with 99) 0x80000000 at_rest = Some (regs', s')"
    by (simp add: mcall_trap_def Let_def)
  from mcall_trap_frame [OF r] have "csrs s' SATP = csrs at_rest SATP" by blast
  with mcall_trap_frame [OF r] r show ?thesis by (simp add: resting_def)
qed

theorem mcall_set_timer_arms_witness:
  "\<exists>s'. mcall_trap (demo 1) (regs_with SBI_SET_TIMER) 0x80000000 at_rest = Some ((regs_with SBI_SET_TIMER)[10 := 0], s') \<and>
     sent s' = [(0x2004000, 0x1234)] \<and> read_csr MIP s' = 0 \<and> read_csr MIE s' = MIP_MTIP"
  using mcall_set_timer_arms [of "regs_with SBI_SET_TIMER" "demo 1" "0x80000000" at_rest]
  by (simp add: resting_def rest_hls_def sent_def read_csr_def)

theorem send_ipi_soft_reaches_witness:
  "\<exists>s'. send_ipi_many (demo 1) 0x1000 IPI_SOFT at_rest = Some s' \<and>
     sent s' = map (\<lambda>h. (0x2000000, 1)) (targets 0 64 1 0)"
  using send_ipi_soft_reaches [of "demo 1" "0x1000" at_rest 1]
  by (auto simp: demo_def resting_def rest_hls_def sent_def)

section \<open>System calls\<close>

lemma example_user [simp]: "valid_user_range 0x1000 16 at_rest" "valid_user_range 0x2000 16 at_rest"
  "valid_user_range 0x1000 256 at_rest"
  by (simp_all add: valid_user_range_iff_runs resting_def)

theorem sys_aes0_data_out_delivers_witness:
  "\<exists>s'. sys_aes0_data_out (demo 7) demo_frame 0x1000 0 at_rest = Some (0, s') \<and>
     delivers at_rest 0x1000 (block_got (const_bus 7) (aes0 at_rest) AES0_CT_BASE 4 at_rest)
       (fr_local demo_frame 0) s'"
  using sys_aes0_data_out_delivers [of "0x1000" at_rest demo_frame "demo 7" 0] by simp

theorem sys_aes1_read_data_overruns_witness:
  "\<exists>s'. sys_aes1_read_data (demo 7) demo_frame 0x3ffffff4 at_rest = Some (0, s') \<and> ld32 (ram s') 0x40000000 = 7"
proof -
  have "apart 0x3ffffff4 16 (fr_local demo_frame 0) 16"
    by (rule apartI) (simp_all add: demo_frame_def)
  moreover have "block_got (const_bus 7) (aes1 at_rest) AES1_RES_BASE 4 at_rest ! 3 = 7"
    by (simp add: block_got_def read_const_bus)
  ultimately show ?thesis
    using sys_aes1_read_data_overruns [of "0x3ffffff4" at_rest demo_frame "demo 7"] by simp
qed

theorem sys_rsa_write_prime_num_sends_witness:
  "\<exists>s'. sys_rsa_write_prime_num (demo 1) demo_frame 0x1000 at_rest = Some (0, s') \<and>
     sent s' = rsa_prime_cmds (rsa at_rest) (ld_words (\<lambda>_. 0) 0x1000 64)"
  using sys_rsa_write_prime_num_sends [of "0x1000" at_rest demo_frame "demo 1"]
  by auto

theorem sys_aes0_start_decry_total_witness:
  "\<exists>s'. sys_aes0_start_decry (demo 1) demo_frame 0x1000 0x2000 0 at_rest = Some (0, s') \<and>
     sent s' = aes0_cmds (aes0 at_rest) (ld_words (\<lambda>_. 0) 0x1000 4) (ld_words (\<lambda>_. 0) 0x2000 4) 0"
  using sys_aes0_start_decry_total [of "demo 1" at_rest "0x1000" "0x2000" demo_frame 0]
  by (auto simp del: One_nat_def)

theorem sys_aes0_start_encry_unchecked_witness:
  "\<exists>s'. sys_aes0_start_encry (demo 1) demo_frame 0x90000000 0x2000 0 at_rest = Some (0, s') \<and>
     sent s' = aes0_cmds (aes0 at_rest) (ld_words (\<lambda>_. 0) 0x90000000 4) (ld_words (\<lambda>_. 0) 0x2000 4) 0"
proof -
  have "apart (fr_local demo_frame 0) 16 0x90000000 16"
    by (rule apartI) (simp_all add: demo_frame_def)
  then show ?thesis
    using sys_aes0_start_encry_unchecked [of "demo 1" at_rest "0x2000" demo_frame "0x90000000" 0]
    by (auto simp del: One_nat_def)
qed

theorem sys_rng_write_seed_sends_fifth_witness:
  "\<exists>s'. sys_rng_write_seed (demo 1) demo_frame 0x1000 at_rest = Some (0, s') \<and>
     sent s' = block_writes (reg_addr (rng at_rest) RNG_SEED_BASE) (ld_words (\<lambda>_. 0) 0x1000 3 @ [ld32 (\<lambda>_. 0) 0x1010])"
proof -
  have "apart (fr_local demo_frame 0) 16 0x1000 20"
    using apart_above [of "0x1000" 20 "fr_local demo_frame 0" 16] by (simp add: demo_frame_def)
  then show ?thesis
    using sys_rng_write_seed_sends_fifth [of "0x1000" at_rest demo_frame "demo 1"]
    by auto
qed

theorem sys_cmp_result_lost_witness:
  "\<exists>s'. sys_cmp (demo 1) demo_frame 0x1000 0x2000 4 0x3000 at_rest = Some (0, s') \<and>
     ld32 (ram s') 0x3000 = ld32 (\<lambda>_. 0) (fr_local demo_frame 2)"
proof -
  have "apart (fr_local demo_frame 0) 4096 (fr_local demo_frame 2) 4"
    "apart (fr_local demo_frame 1) 4096 (fr_local demo_frame 2) 4"
    "apart (fr_regs demo_frame 14) 4 (fr_local demo_frame 2) 4"
    "apart (fr_local demo_frame 0) 4096 0x3000 4" "apart (fr_local demo_frame 1) 4096 0x3000 4"
    using apart_above [of "fr_local demo_frame 0" 4096 "fr_local demo_frame 2" 4]
      apart_above [of "fr_local demo_frame 1" 4096 "fr_local demo_frame 2" 4]
      apart_above [of "fr_local demo_frame 2" 4 "fr_regs demo_frame 14" 4]
      apart_above [of "0x3000" 4 "fr_local demo_frame 0" 4096] apart_above [of "0x3000" 4 "fr_local demo_frame 1" 4096]
    by (simp_all add: demo_frame_def)
  moreover have "valid_user_range_u 0x1000 4 at_rest" "valid_user_range_u 0x2000 4 at_rest" "valid_user_range_u 0x3000 4 at_rest"
    by (simp_all add: valid_user_range_u_def resting_def)
  moreover have "unat (fr_local demo_frame 0) + 4096 < 2 ^ 64" "unat (fr_local demo_frame 1) + 4096 < 2 ^ 64"
    by (simp_all add: demo_frame_def)
  ultimately show ?thesis
    using sys_cmp_result_lost [of "0x1000" 4 at_rest "0x2000" "0x3000" demo_frame "demo 1"] by simp
qed

theorem sys_times_overruns_witness:
  "fst (sys_times 0x3ffffff0 at_rest) = 0 \<and> ld64 (ram (snd (sys_times 0x3ffffff0 at_rest))) 0x40000000 = 0"
  using sys_times_overruns [of "0x3ffffff0" at_rest] by simp

theorem sys_gettimeofday_splits_witness:
  "unat (ld64 (ram (snd (sys_gettimeofday 0x1000 at_rest))) 0x1008) < 10 ^ 6"
  using sys_gettimeofday_splits [of "0x1000" at_rest] by (simp add: Let_def)

section \<open>Engines\<close>

theorem aes0_encrypt_total_witness:
  "\<exists>s'. aes0_encrypt (const_bus 1) 0x1000 0x2000 0x3000 0 at_rest = Some (0, s')"
  using aes0_encrypt_total [of "const_bus 1" at_rest "0x1000" "0x2000" "0x3000" 0] by auto

theorem aes0_start_keeps_keys_witness:
  "\<exists>s' ws. aes0_start_encrypt (const_bus 1) 0x1000 0x2000 0 at_rest = Some (0, s') \<and> sent s' = ws \<and>
     aes0 at_rest + 8 * of_nat 5 \<notin> fst ` set ws"
proof -
  obtain s' where s': "aes0_start_encrypt (const_bus 1) 0x1000 0x2000 0 at_rest = Some (0, s')"
    using engine_start_returns [OF example_responsive(1)] unfolding start_is_engine_start by blast
  moreover have "aes0_key_reg 5" by (simp add: aes0_key_reg_def)
  ultimately show ?thesis using aes0_start_keeps_keys [OF s', of 5] by auto
qed

theorem hmac_hashString_total_witness:
  "\<exists>s'. hmac_hashString (const_bus 1) 0x1000 0x2000 0 at_rest = Some (0, s') \<and>
     sent s' = block_writes (reg_addr (hmac at_rest) HMAC_TEXT_BASE) (be_words (get_bytes ld8 (\<lambda>_. 0) 0x1000 64)) @
       [(reg_addr (hmac at_rest) HMAC_NEXT_INIT, 1), (reg_addr (hmac at_rest) HMAC_NEXT_INIT, 0)]"
  using hmac_hashString_total [of "const_bus 1" at_rest "0x1000" "0x2000" 0] by auto

theorem rst_id_total_witness:
  "\<exists>s'. rst_id (const_bus 1) 3 at_rest = Some (0, s') \<and> sent s' =
     [(reg_addr (rst at_rest) RST_ID_BASE, 3), (reg_addr (rst at_rest) RST_START, 0),
      (reg_addr (rst at_rest) RST_START, 1), (reg_addr (rst at_rest) RST_START, 0)]"
  using rst_id_total [of "const_bus 1" at_rest 3] by auto


theorem dma_transfer_refuses_wrap_witness:
  "dma_transfer (const_bus 2) 0xfffffffffffffff8 0x2000 8 1 at_rest = Some (0, at_rest)"
  using dma_transfer_refuses_wrap [of "0xfffffffffffffff8" 8 "0x2000" "const_bus 2" 1 at_rest]
  by (simp add: dma_wraps_def)

section \<open>Hashes\<close>

definition saying :: "u8 list \<Rightarrow> unit world" where
  "saying bs = at_rest\<lparr>ram := put_bytes st8 (\<lambda>_. 0) 0x1000 (bs @ [0])\<rparr>"

lemma saying_fields [simp]: "sent (saying bs) = []" "sha256 (saying bs) = 0xfff5202000"
  by (simp_all add: saying_def io_simps) (simp add: resting_def)

lemma saying_cstr: "0 \<notin> set bs \<Longrightarrow> length bs < 2 ^ 64 \<Longrightarrow> cstr (ram (saying bs)) 0x1000 bs"
  by (simp add: saying_def cstr_put_bytes)

lemma message_apart: "length bs < 0x1000 \<Longrightarrow> apart 0x80020000 128 0x1000 (Suc (length bs))"
  using apart_above [of "0x1000" "Suc (length bs)" "0x80020000" 128] by simp


theorem sha256_sends_fips_blocks_witness:
  "\<exists>s' w ws. sha256_hashString (const_bus 1) 0x80020000 0x1000 0x2000 (saying [97]) = Some (0, s') \<and>
     fips_blocks (97 # fips_pad 1) = w # ws \<and>
     sent s' = block_cmds 0xfff5202000 True w @ concat (map (block_cmds 0xfff5202000 False) ws)"
proof -
  obtain s' where s': "sha256_hashString (const_bus 1) 0x80020000 0x1000 0x2000 (saying [97]) = Some (0, s')"
    using sha256_ptr.sha_hashString_returns [of "const_bus 1" "saying [97]" "0x1000" "[97]" "0x80020000" "0x2000"]
      saying_cstr [of "[97]"] message_apart [of "[97]"] by (auto simp: sha256_hashString_def)
  have "length (97 # fips_pad 1) = 64" by (simp add: length_fips_pad)
  then obtain w ws where "fips_blocks (97 # fips_pad 1) = w # ws"
    by (subst (asm) fips_blocks.simps) (auto simp: fips_blocks.simps)
  with sha256_sends_fips_blocks [OF s', of "[97]" w ws] s' saying_cstr [of "[97]"] message_apart [of "[97]"]
  show ?thesis by (intro exI [of _ s'] exI [of _ w] exI [of _ ws]) simp
qed

theorem sha256_second_block_swapped_witness:
  "\<exists>s'. sha256_hashString (const_bus 1) 0x80020000 0x1000 0x2000 (saying (replicate 60 97)) = Some (0, s') \<and>
     sent s' = block_cmds 0xfff5202000 True (be_words (take 64 (replicate 60 97 @ fips_pad 60))) @
       block_cmds 0xfff5202000 False (map bswap (be_words (drop 64 (replicate 60 97 @ fips_pad 60))))"
proof -
  let ?m = "replicate 60 97 :: u8 list"
  have m: "cstr (ram (saying ?m)) 0x1000 ?m" "apart 0x80020000 128 0x1000 (Suc (length ?m))"
    by (rule saying_cstr message_apart; simp)+
  obtain s' where s': "sha256_hashString (const_bus 1) 0x80020000 0x1000 0x2000 (saying ?m) = Some (0, s')"
    using sha256_ptr.sha_hashString_returns [OF _ _ m, of "const_bus 1" "0x2000"]
    by (auto simp: sha256_hashString_def)
  with sha256_second_block_swapped [OF s' m] show ?thesis by simp
qed

section \<open>Strings\<close>

theorem memcpy_copies_witness:
  "memcpy (\<lambda>_. 7) 0x2000 0x1000 12 = Some (put_bytes st8 (\<lambda>_. 7) 0x2000 (replicate 12 7))"
proof -
  have "apart 0x2000 12 0x1000 12" using apart_above [of "0x1000" 12 "0x2000" 12] by simp
  moreover have "get_bytes ld8 (\<lambda>_. 7) 0x1000 12 = replicate 12 7"
    by (rule nth_equalityI) (simp_all add: nth_get_bytes ld8_def)
  ultimately show ?thesis using memcpy_copies [of "0x2000" 12 "0x1000" "\<lambda>_. 7"] by simp
qed

theorem memset_fills_witness:
  "memset (\<lambda>_. 7) 0x1000 0x41 9 = Some (put_bytes st8 (\<lambda>_. 7) 0x1000 (replicate 9 0x41))"
  using memset_fills [of "0x1000" 9 "\<lambda>_. 7" "0x41"] by simp

theorem strcmp_zero_iff_witness:
  "strcmp (\<lambda>_. 0) 0x1000 0x2000 = Some 0"
  using strcmp_zero_iff [of "\<lambda>_. 0" "0x1000" "[]" "0x2000" "[]"] by (simp add: ld8_def)

theorem strcpy_copies_witness:
  "strcpy (ram (saying [97, 98])) 0x2000 0x1000 = Some (put_bytes st8 (ram (saying [97, 98])) 0x2000 [97, 98, 0])"
proof -
  have "apart 0x2000 (Suc (length [97, 98 :: u8])) 0x1000 (Suc (length [97, 98 :: u8]))"
    using apart_above [of "0x1000" "Suc (length [97, 98 :: u8])" "0x2000" "Suc (length [97, 98 :: u8])"] by simp
  with strcpy_copies [OF saying_cstr, of "[97, 98]" "0x2000"] show ?thesis by simp
qed

theorem atol_parses_witness:
  "atol (ram (saying [32, 45, 52, 50])) 0x1000 = Some (- 42)"
proof -
  have "cstr (ram (saying [32, 45, 52, 50])) 0x1000 (replicate 1 32 @ [45] @ [52, 50])"
    using saying_cstr [of "[32, 45, 52, 50]"] by simp
  from atol_parses [OF this] show ?thesis by (simp add: digits_val_def)
qed

section \<open>Formatted output\<close>


lemma example_tx_ready [simp]: "tx_ready (const_bus (- 1) :: 'd bus) a"
proof -
  have "bit ((ucast (ucast (- 1 :: u64) :: u8) :: u32) AND UART_REG_STATUS_TX) 5"
    by (simp add: UART_REG_STATUS_TX_def bit_simps)
  then show ?thesis by (auto simp: tx_ready_def const_bus_def)
qed

theorem printm_prints_witness:
  "\<exists>s'. printm (const_bus (- 1)) ''hart %d'' [3] at_rest = Some s' \<and>
     sent s' = map (\<lambda>c. (uart16550_reg UART_REG_QUEUE at_rest, ucast c)) (bytes_of ''hart 3'')"
proof -
  have t: "format_text (ram at_rest) (printm_buf at_rest) 256 (bytes_of ''hart %d'') [3] = Some (bytes_of ''hart 3'')"
    by (simp add: bytes_of_def conversion_def conversion_text_def va_num_def signed_text_def dec_text.simps)
  have n: "0 \<notin> set (bytes_of ''hart 3'')" "length (bytes_of ''hart 3'') < 2 ^ 64" by (simp_all add: bytes_of_def)
  have "uart16550 at_rest \<noteq> 0" "take 255 (bytes_of ''hart 3'') = bytes_of ''hart 3''" by (simp_all add: bytes_of_def)
  with printm_prints [OF t n(2,1) _ _ example_tx_ready] show ?thesis by auto
qed

section \<open>Boot\<close>

theorem reglk_bytes_final_witness:
  "\<forall>k. reglk_set k (reglk_first k (replicate 40 0)) = map (lock_byte k) [0..<40]"
  using reglk_bytes_final [of "replicate 40 0"] by (simp add: REGLK_BYTES_def)

theorem writeMultichar_sends_witness:
  "sent (writeMulticharToAddress (const_bus 1) 0x10000000 3 0x1000 8 at_rest)
     = block_writes (reg_addr 0x10000000 3) (be_words (get_bytes ld8 (\<lambda>_. 0) 0x1000 8))"
  using writeMultichar_sends [of 2 "const_bus 1" "0x10000000" 3 "0x1000" at_rest] by simp

section \<open>A device tree\<close>

text \<open>A header, one node without a name and the end of the tree.\<close>

definition tree_ram :: ram where
  "tree_ram = st_words (st_words (\<lambda>_. 0) 0x1000
     [bswap FDT_MAGIC, 0, bswap 0x28, bswap 0x100, 0, 0, bswap 17, 0, 0, 0, bswap FDT_BEGIN_NODE])
     0x1030 [bswap FDT_END_NODE, bswap 9]"

lemma bswap_examples:
  "bswap (bswap FDT_MAGIC) = FDT_MAGIC" "bswap (bswap 0x28) = 0x28" "bswap (bswap 0x100) = 0x100"
  "bswap (bswap 17) = 17" "bswap (bswap FDT_BEGIN_NODE) = FDT_BEGIN_NODE"
  "bswap (bswap FDT_END_NODE) = FDT_END_NODE" "bswap (bswap 9) = 9"
  by (simp_all add: bswap_def Let_def FDT_MAGIC_def fdt_tokens)

lemma tree_words:
  "ld32 tree_ram 0x1000 = bswap FDT_MAGIC" "ld32 tree_ram 0x1008 = bswap 0x28" "ld32 tree_ram 0x100c = bswap 0x100"
  "ld32 tree_ram 0x1018 = bswap 17" "ld32 tree_ram 0x1028 = bswap FDT_BEGIN_NODE"
  "ld32 tree_ram 0x1030 = bswap FDT_END_NODE" "ld32 tree_ram 0x1034 = bswap 9" "ld8 tree_ram 0x102c = 0"
proof -
  let ?h = "[bswap FDT_MAGIC, 0, bswap 0x28, bswap 0x100, 0, 0, bswap 17, 0, 0, 0, bswap FDT_BEGIN_NODE]"
  have far: "apart 0x1030 (4 * length [x, y :: u32]) (0x1000 + 4 * of_nat i) 4" if "i < 11" for i x y
    by (rule apart_sym, rule apartI) (use that in \<open>simp_all add: unat_add_no_wrap unat_of_nat_u64 unat_word_ariths\<close>)
  have head: "ld32 tree_ram (0x1000 + 4 * of_nat i) = ?h ! i" if "i < 11" for i
    unfolding tree_ram_def using that far
    by (subst ld32_st_words_apart) (simp_all add: ld32_st_words_within del: st_words.simps)
  from head [of 0] head [of 2] head [of 3] head [of 6] head [of 10]
  show "ld32 tree_ram 0x1000 = bswap FDT_MAGIC" "ld32 tree_ram 0x1008 = bswap 0x28" "ld32 tree_ram 0x100c = bswap 0x100"
    "ld32 tree_ram 0x1018 = bswap 17" "ld32 tree_ram 0x1028 = bswap FDT_BEGIN_NODE" by simp_all
  show "ld32 tree_ram 0x1030 = bswap FDT_END_NODE" "ld32 tree_ram 0x1034 = bswap 9"
    unfolding tree_ram_def
    using ld32_st_words_within [of "[bswap FDT_END_NODE, bswap 9]" 0 _ "0x1030"]
      ld32_st_words_within [of "[bswap FDT_END_NODE, bswap 9]" 1 _ "0x1030"] by simp_all
  have "apart 0x1030 8 0x102c 1" "apart 0x1000 44 0x102c 1"
    by (rule apart_sym, rule apartI, simp_all, rule apartI, simp_all)
  then show "ld8 tree_ram 0x102c = 0"
    unfolding tree_ram_def by (simp add: ld8_st_words_apart del: st_words.simps) (simp add: ld8_def)
qed


section \<open>Fuses\<close>

text \<open>A fuse memory behind the packet register block: the state of the device is the index last asked for.\<close>

definition fuse_bus :: "u64 \<Rightarrow> u32 bus" where
  "fuse_bus b = \<lparr>bus_rd = \<lambda>w a d. (if w = 1 then - 1 else if a = reg_addr b PKT_WADDR_MSB then 0
       else if a = reg_addr b PKT_WADDR_LSB then 0x3000 else ucast d, d),
     bus_wr = \<lambda>w a v d. if a = reg_addr b PKT_FUSE_RADDR then ucast v else d\<rparr>"

lemma fuse_bus_device: "fuse_device (fuse_bus b) b (\<lambda>d. d) (\<lambda>_. 0x3000) (\<lambda>i. i)"
  by (simp add: fuse_device_def fuse_bus_def reg_addr_def PKT_WADDR_MSB_def PKT_WADDR_LSB_def PKT_FUSE_RADDR_def PKT_FUSE_RDATA_def)

theorem pkt_copy_fuse_data_sends_witness:
  "\<forall>k. \<exists>s'. pkt_copy_fuse_data (fuse_bus 0xfff5204000) (replicate 40 0) k (resting 0) = Some (0, s')"
proof -
  have "bit ((ucast (ucast (- 1 :: u64) :: u8) :: u32) AND UART_REG_STATUS_TX) 5"
    by (simp add: UART_REG_STATUS_TX_def bit_simps)
  then have "tx_ready (fuse_bus 0xfff5204000) (uart16550_reg UART_REG_LSR (resting (0 :: u32)))"
    by (auto simp: tx_ready_def fuse_bus_def)
  moreover have "pkt (resting (0 :: u32)) = 0xfff5204000" by (simp add: resting_def)
  ultimately show ?thesis
    using pkt_copy_fuse_data_sends [of "replicate 40 0" "fuse_bus 0xfff5204000" "resting 0" "\<lambda>d. d" "\<lambda>_. 0x3000" "\<lambda>i. i"]
      fuse_bus_device [of "0xfff5204000"]
    by (auto simp: REGLK_BYTES_def)
qed

end
