(* ===== verification/Files.thy ===== *)
theory Files
  imports Sbi
begin

text \<open>
  The host interface of the proxy kernel (\<^verbatim>\<open>src/pk/pk/frontend.c\<close>) and its file table
  (\<^verbatim>\<open>src/pk/pk/file.c\<close>). The kernel runs on one hart with interrupts off, so the atomic
  operations are plain ones and a compare-and-swap on a value just read succeeds. A failed
  \<^verbatim>\<open>kassert\<close> shuts the machine down and is a run that does not return.
\<close>

section \<open>The host interface\<close>

definition SYS_exit :: u64 where "SYS_exit = 93"
definition SYS_read :: u64 where "SYS_read = 63"
definition SYS_write :: u64 where "SYS_write = 64"
definition SYS_openat :: u64 where "SYS_openat = 56"
definition SYS_close :: u64 where "SYS_close = 57"
definition SYS_lseek :: u64 where "SYS_lseek = 62"
definition SYS_fstat :: u64 where "SYS_fstat = 80"
definition SYS_pread :: u64 where "SYS_pread = 67"
definition SYS_pwrite :: u64 where "SYS_pwrite = 68"
definition SYS_ftruncate :: u64 where "SYS_ftruncate = 46"

text \<open>The error numbers of the C library.\<close>

definition EBADF :: u64 where "EBADF = 9"
definition ENOMEM :: u64 where "ENOMEM = 12"
definition EACCES :: u64 where "EACCES = 13"
definition EINVAL :: u64 where "EINVAL = 22"

definition DRAM_BASE :: u64 where "DRAM_BASE = 0x80000000"

definition va2pa :: "u64 \<Rightarrow> 'd world \<Rightarrow> u64" where
  "va2pa va s = (if va \<ge> DRAM_BASE then va else va + first_free_paddr (pkv s))"

primrec st_dwords :: "ram \<Rightarrow> u64 \<Rightarrow> u64 list \<Rightarrow> ram" where
  "st_dwords m a [] = m"
| "st_dwords m a (w # ws) = st_dwords (st64 m a w) (a + 8) ws"

text \<open>
  The request goes through \<^verbatim>\<open>magic_mem\<close>, a buffer in memory that the host reads and writes; its
  address is told with \<^verbatim>\<open>htif_syscall\<close>.
\<close>

definition frontend_syscall :: "'d platform \<Rightarrow> u64 \<Rightarrow> u64 \<Rightarrow> u64 \<Rightarrow> u64 \<Rightarrow> u64 \<Rightarrow> u64 \<Rightarrow> u64 \<Rightarrow> u64 \<Rightarrow> 'd world
    \<Rightarrow> (u64 \<times> 'd world) option" where
  "frontend_syscall P n a0 a1 a2 a3 a4 a5 a6 s =
     (let buf = magic_mem (pkv s);
          s = s\<lparr>ram := st_dwords (ram s) buf [n, a0, a1, a2, a3, a4, a5, a6]\<rparr>
      in do { s \<leftarrow> htif_syscall (bus_of P) buf s;
              let s = s\<lparr>ram := host_mem P (dev s) (ram s)\<rparr>;
              Some (ld64 (ram s) buf, s) })"

partial_function (option) spin_forever :: "'d world \<Rightarrow> 'd world option" where
  "spin_forever s = spin_forever s"

definition shutdown :: "'d platform \<Rightarrow> u32 \<Rightarrow> 'd world \<Rightarrow> 'd world option" where
  "shutdown P code s =
     do { (r, s) \<leftarrow> frontend_syscall P SYS_exit (scast code) 0 0 0 0 0 0 s; spin_forever s }"

text \<open>\<^verbatim>\<open>kassert(c)\<close>: on failure \<^verbatim>\<open>kassert_fail\<close> prints and shuts down.\<close>

definition kassert :: "bool \<Rightarrow> unit option" where
  "kassert c = (if c then Some () else None)"

lemma kassert_simps [simp]: "kassert True = Some ()" "kassert False = None"
  by (simp_all add: kassert_def)

lemma kassert_Some [simp]: "kassert c = Some u \<longleftrightarrow> c"
  by (simp add: kassert_def)

section \<open>The file table\<close>

definition MAX_FDS :: nat where "MAX_FDS = 128"
definition MAX_FILES :: nat where "MAX_FILES = 128"

definition file_at :: "'d world \<Rightarrow> nat \<Rightarrow> file_t" where
  "file_at s f = files (pkv s) ! f"

definition set_file :: "nat \<Rightarrow> file_t \<Rightarrow> 'd world \<Rightarrow> 'd world" where
  "set_file f x s = s\<lparr>pkv := (pkv s)\<lparr>files := (files (pkv s))[f := x]\<rparr>\<rparr>"

definition set_fd :: "nat \<Rightarrow> nat option \<Rightarrow> 'd world \<Rightarrow> 'd world" where
  "set_fd i f s = s\<lparr>pkv := (pkv s)\<lparr>fds := (fds (pkv s))[i := f]\<rparr>\<rparr>"

definition file_incref :: "nat \<Rightarrow> 'd world \<Rightarrow> 'd world option" where
  "file_incref f s =
     (let prev = refcnt (file_at s f); s = set_file f ((file_at s f)\<lparr>refcnt := prev + 1\<rparr>) s
      in do { kassert (prev > 0); Some s })"

definition file_decref :: "'d platform \<Rightarrow> nat \<Rightarrow> 'd world \<Rightarrow> 'd world option" where
  "file_decref P f s =
     (let prev = refcnt (file_at s f); s = set_file f ((file_at s f)\<lparr>refcnt := prev - 1\<rparr>) s
      in if prev = 2 then
           (let k = kfd (file_at s f); s = set_file f ((file_at s f)\<lparr>refcnt := 0\<rparr>) s
            in do { (r, s) \<leftarrow> frontend_syscall P SYS_close (scast k) 0 0 0 0 0 0 s; Some s })
         else Some s)"

definition file_get_free :: "'d world \<Rightarrow> nat option \<times> 'd world" where
  "file_get_free s =
     (case find (\<lambda>f. refcnt (file_at s f) = 0) [0..<MAX_FILES] of
        Some f \<Rightarrow> (Some f, set_file f ((file_at s f)\<lparr>refcnt := 2\<rparr>) s)
      | None \<Rightarrow> (None, s))"

definition file_dup :: "nat \<Rightarrow> 'd world \<Rightarrow> (u32 \<times> 'd world) option" where
  "file_dup f s =
     (case find (\<lambda>i. fds (pkv s) ! i = None) [0..<MAX_FDS] of
        Some i \<Rightarrow> do { s \<leftarrow> file_incref f (set_fd i (Some f) s); Some (of_nat i, s) }
      | None \<Rightarrow> Some (- 1, s))"

definition file_dup3 :: "nat \<Rightarrow> u32 \<Rightarrow> 'd world \<Rightarrow> (u32 \<times> 'd world) option" where
  "file_dup3 f newfd s =
     (if sint newfd < 0 \<or> sint newfd \<ge> int MAX_FDS then Some (- 1, s)
      else if fds (pkv s) ! unat newfd = None
      then do { s \<leftarrow> file_incref f (set_fd (unat newfd) (Some f) s); Some (newfd, s) }
      else Some (- 1, s))"

text \<open>One turn of the loop of \<^verbatim>\<open>file_init\<close>; writing through a null pointer would not return.\<close>

definition file_init_one :: "u32 \<Rightarrow> 'd world \<Rightarrow> 'd world option" where
  "file_init_one i s =
     (case file_get_free s of
        (None, s) \<Rightarrow> None
      | (Some f, s) \<Rightarrow>
          do { (r, s) \<leftarrow> file_dup f (set_file f ((file_at s f)\<lparr>kfd := i\<rparr>) s); Some s })"

definition file_init :: "'d world \<Rightarrow> 'd world option" where
  "file_init s = do { s \<leftarrow> file_init_one 0 s; s \<leftarrow> file_init_one 1 s; file_init_one 2 s }"

definition file_get :: "u32 \<Rightarrow> 'd world \<Rightarrow> nat option \<times> 'd world" where
  "file_get fd s =
     (if sint fd < 0 \<or> sint fd \<ge> int MAX_FDS then (None, s)
      else case fds (pkv s) ! unat fd of
        None \<Rightarrow> (None, s)
      | Some f \<Rightarrow>
          (let old_cnt = refcnt (file_at s f)
           in if old_cnt = 0 then (None, s)
              else (Some f, set_file f ((file_at s f)\<lparr>refcnt := old_cnt + 1\<rparr>) s)))"

text \<open>An error pointer is the left alternative.\<close>

definition file_openat :: "'d platform \<Rightarrow> u32 \<Rightarrow> u64 \<Rightarrow> u32 \<Rightarrow> u32 \<Rightarrow> 'd world \<Rightarrow> ((u64 + nat) \<times> 'd world) option" where
  "file_openat P dirfd fn flags mode s =
     (case file_get_free s of
        (None, s) \<Rightarrow> Some (Inl (- ENOMEM), s)
      | (Some f, s) \<Rightarrow>
          do { n \<leftarrow> strlen (ram s) fn;
               (ret, s) \<leftarrow> frontend_syscall P SYS_openat (scast dirfd) (va2pa fn s) (n + 1) (scast flags)
                 (scast mode) 0 0 s;
               if sint ret \<ge> 0 then Some (Inr f, set_file f ((file_at s f)\<lparr>kfd := ucast ret\<rparr>) s)
               else do { s \<leftarrow> file_decref P f s; Some (Inl ret, s) } })"

definition AT_FDCWD :: u32 where "AT_FDCWD = - 100"

definition file_open :: "'d platform \<Rightarrow> u64 \<Rightarrow> u32 \<Rightarrow> u32 \<Rightarrow> 'd world \<Rightarrow> ((u64 + nat) \<times> 'd world) option" where
  "file_open P fn flags mode s = file_openat P AT_FDCWD fn flags mode s"

definition fd_close :: "'d platform \<Rightarrow> u32 \<Rightarrow> 'd world \<Rightarrow> (u32 \<times> 'd world) option" where
  "fd_close P fd s =
     (case file_get fd s of
        (None, s) \<Rightarrow> Some (- 1, s)
      | (Some f, s) \<Rightarrow>
          (let old = fds (pkv s) ! unat fd; s = (if old = Some f then set_fd (unat fd) None s else s)
           in do { s \<leftarrow> file_decref P f s;
                   if old \<noteq> Some f then Some (- 1, s)
                   else do { s \<leftarrow> file_decref P f s; Some (0, s) } }))"

definition file_truncate :: "'d platform \<Rightarrow> nat \<Rightarrow> u64 \<Rightarrow> 'd world \<Rightarrow> (u64 \<times> 'd world) option" where
  "file_truncate P f len s =
     frontend_syscall P SYS_ftruncate (scast (kfd (file_at s f))) len 0 0 0 0 0 s"

definition file_lseek :: "'d platform \<Rightarrow> nat \<Rightarrow> u64 \<Rightarrow> u32 \<Rightarrow> 'd world \<Rightarrow> (u64 \<times> 'd world) option" where
  "file_lseek P f ptr dir s =
     frontend_syscall P SYS_lseek (scast (kfd (file_at s f))) ptr (scast dir) 0 0 0 0 s"

end
