(* ===== verification/Vm.thy ===== *)
theory Vm
  imports Files Syscalls
begin

text \<open>
  The memory management of the proxy kernel (\<^verbatim>\<open>src/pk/pk/mmap.c\<close>): three-level page tables in
  memory, the table of mapped regions, demand paging and the system calls on top of them.

  A page-table entry is 0, the address of a region descriptor (not valid: the page is mapped but
  not yet present), or a valid entry. Entries are read and written in \<open>ram\<close> at their address.
  Loops over addresses may wrap around and need not end; \<open>None\<close> is a run that does not come back
  (an endless loop, a failed \<^verbatim>\<open>kassert\<close>, or a lock that is taken twice).
\<close>

section \<open>Constants\<close>

definition PTE_V :: u64 where "PTE_V = 0x001"
definition PTE_R :: u64 where "PTE_R = 0x002"
definition PTE_W :: u64 where "PTE_W = 0x004"
definition PTE_X :: u64 where "PTE_X = 0x008"
definition PTE_U :: u64 where "PTE_U = 0x010"
definition PTE_A :: u64 where "PTE_A = 0x040"
definition PTE_D :: u64 where "PTE_D = 0x080"

lemmas pte_bits = PTE_V_def PTE_R_def PTE_W_def PTE_X_def PTE_U_def PTE_A_def PTE_D_def

definition PROT_READ :: u32 where "PROT_READ = 1"
definition PROT_WRITE :: u32 where "PROT_WRITE = 2"
definition PROT_EXEC :: u32 where "PROT_EXEC = 4"

lemmas prots = PROT_READ_def PROT_WRITE_def PROT_EXEC_def

definition MAP_PRIVATE :: u32 where "MAP_PRIVATE = 0x2"
definition MAP_FIXED :: u32 where "MAP_FIXED = 0x10"
definition MAP_ANONYMOUS :: u32 where "MAP_ANONYMOUS = 0x20"
definition MAP_POPULATE :: u32 where "MAP_POPULATE = 0x8000"

definition RISCV_PGSIZE :: u64 where "RISCV_PGSIZE = 4096"

text \<open>\<^verbatim>\<open>sizeof(vmr_t)\<close> is 40.\<close>

definition MAX_VMR :: nat where "MAX_VMR = 4096 div 40"

definition ROUNDUP :: "u64 \<Rightarrow> u64 \<Rightarrow> u64" where
  "ROUNDUP a b = ((a - 1) div b + 1) * b"

definition ROUNDDOWN :: "u64 \<Rightarrow> u64 \<Rightarrow> u64" where
  "ROUNDDOWN a b = a div b * b"

section \<open>The lock\<close>

text \<open>On one hart a lock that is held stays held while it is waited for.\<close>

definition spinlock_lock :: "'d world \<Rightarrow> 'd world option" where
  "spinlock_lock s = (if vm_lock (pkv s) \<noteq> 0 then None else Some (s\<lparr>pkv := (pkv s)\<lparr>vm_lock := - 1\<rparr>\<rparr>))"

definition spinlock_unlock :: "'d world \<Rightarrow> 'd world" where
  "spinlock_unlock s = s\<lparr>pkv := (pkv s)\<lparr>vm_lock := 0\<rparr>\<rparr>"

section \<open>Page-table entries\<close>

definition pte_create :: "u64 \<Rightarrow> u32 \<Rightarrow> u64" where
  "pte_create ppn type = push_bit 10 ppn OR PTE_V OR scast type"

definition ptd_create :: "u64 \<Rightarrow> u64" where
  "ptd_create ppn = pte_create ppn (ucast PTE_V)"

definition pte_ppn :: "u64 \<Rightarrow> u64" where
  "pte_ppn pte = drop_bit 10 pte"

definition ppn :: "u64 \<Rightarrow> u64" where
  "ppn addr = drop_bit 12 addr"

definition pt_idx :: "u64 \<Rightarrow> nat \<Rightarrow> u64" where
  "pt_idx addr level = drop_bit (9 * level + 12) addr AND (push_bit 9 1 - 1)"

definition prot_to_type :: "u32 \<Rightarrow> bool \<Rightarrow> u64" where
  "prot_to_type prot user =
     (let pte = 0;
          pte = (if prot AND PROT_READ \<noteq> 0 then pte OR (PTE_R OR PTE_A) else pte);
          pte = (if prot AND PROT_WRITE \<noteq> 0 then pte OR (PTE_W OR PTE_D) else pte);
          pte = (if prot AND PROT_EXEC \<noteq> 0 then pte OR (PTE_X OR PTE_A) else pte);
          pte = (if pte = 0 then PTE_R else pte)
      in if user then pte OR PTE_U else pte)"

section \<open>Pages and region descriptors\<close>

definition page_alloc :: "'d world \<Rightarrow> (u64 \<times> 'd world) option" where
  "page_alloc s = do {
     kassert (next_free_page (pkv s) \<noteq> free_pages (pkv s));
     let addr = first_free_page (pkv s) + RISCV_PGSIZE * next_free_page (pkv s);
     let s = s\<lparr>pkv := (pkv s)\<lparr>next_free_page := next_free_page (pkv s) + 1\<rparr>\<rparr>;
     m \<leftarrow> memset (ram s) addr 0 RISCV_PGSIZE;
     Some (addr, s\<lparr>ram := m\<rparr>) }"

definition free_vmr :: vmr_t where
  "free_vmr = \<lparr>vmr_addr = 0, vmr_length = 0, vmr_file = None, vmr_offset = 0, vmr_refcnt = 0, vmr_prot = 0\<rparr>"

definition set_vmr :: "nat \<Rightarrow> vmr_t \<Rightarrow> 'd world \<Rightarrow> 'd world" where
  "set_vmr i v s = s\<lparr>pkv := (pkv s)\<lparr>vmr_table := (vmr_table (pkv s))[i := v]\<rparr>\<rparr>"

text \<open>The address of a descriptor, which is what an entry that is not valid holds, and back.\<close>

definition vmr_ptr :: "'d world \<Rightarrow> nat \<Rightarrow> u64" where
  "vmr_ptr s i = vmrs (pkv s) + 40 * of_nat i"

definition vmr_of :: "'d world \<Rightarrow> u64 \<Rightarrow> nat" where
  "vmr_of s p = unat (p - vmrs (pkv s)) div 40"

definition vmr_alloc :: "u64 \<Rightarrow> u64 \<Rightarrow> nat option \<Rightarrow> u64 \<Rightarrow> u32 \<Rightarrow> u32 \<Rightarrow> 'd world \<Rightarrow> (nat option \<times> 'd world) option" where
  "vmr_alloc addr len file offset n prot s = do {
     s \<leftarrow> (if vmrs (pkv s) = 0 then do {
             s \<leftarrow> spinlock_lock s;
             s \<leftarrow> (if vmrs (pkv s) = 0 then do {
                     (page, s) \<leftarrow> page_alloc s;
                     Some (s\<lparr>pkv := (pkv s)\<lparr>vmrs := page, vmr_table := replicate MAX_VMR free_vmr\<rparr>\<rparr>) }
                   else Some s);
             Some (spinlock_unlock s) }
           else Some s);
     case find (\<lambda>i. vmr_refcnt (vmr_table (pkv s) ! i) = 0) [0..<MAX_VMR] of
       None \<Rightarrow> Some (None, s)
     | Some i \<Rightarrow> do {
         s \<leftarrow> (case file of None \<Rightarrow> Some s | Some f \<Rightarrow> file_incref f s);
         Some (Some i, set_vmr i \<lparr>vmr_addr = addr, vmr_length = len, vmr_file = file, vmr_offset = offset,
           vmr_refcnt = n, vmr_prot = prot\<rparr> s) } }"

definition vmr_decref :: "'d platform \<Rightarrow> nat \<Rightarrow> u32 \<Rightarrow> 'd world \<Rightarrow> 'd world option" where
  "vmr_decref P i d s =
     (let v = vmr_table (pkv s) ! i; s = set_vmr i (v\<lparr>vmr_refcnt := vmr_refcnt v - d\<rparr>) s
      in if vmr_refcnt v - d = 0 then (case vmr_file v of None \<Rightarrow> Some s | Some f \<Rightarrow> file_decref P f s)
         else Some s)"

section \<open>Walking the page table\<close>

text \<open>From the table at \<open>t\<close> of a level: the address of the leaf entry, or of the entry where the walk ends.\<close>

primrec walk_from :: "nat \<Rightarrow> ram \<Rightarrow> u64 \<Rightarrow> u64 \<Rightarrow> u64 + u64" where
  "walk_from 0 m addr t = Inr (t + 8 * pt_idx addr 0)"
| "walk_from (Suc i) m addr t =
     (let e = t + 8 * pt_idx addr (Suc i)
      in if ld64 m e AND PTE_V = 0 then Inl e else walk_from i m addr (push_bit 12 (pte_ppn (ld64 m e))))"

definition walk :: "u64 \<Rightarrow> 'd world \<Rightarrow> u64" where
  "walk addr s = (case walk_from 2 (ram s) addr (root_page_table (pkv s)) of Inl e \<Rightarrow> 0 | Inr p \<Rightarrow> p)"

partial_function (option) walk_create :: "u64 \<Rightarrow> 'd world \<Rightarrow> (u64 \<times> 'd world) option" where
  "walk_create addr s =
     (case walk_from 2 (ram s) addr (root_page_table (pkv s)) of
        Inr p \<Rightarrow> Some (p, s)
      | Inl e \<Rightarrow> do { (page, s) \<leftarrow> page_alloc s;
                     walk_create addr (s\<lparr>ram := st64 (ram s) e (ptd_create (ppn page))\<rparr>) })"

definition va_avail :: "u64 \<Rightarrow> 'd world \<Rightarrow> bool" where
  "va_avail vaddr s = (let pte = walk vaddr s in pte = 0 \<or> ld64 (ram s) pte = 0)"

partial_function (option) vm_alloc_down :: "u64 \<Rightarrow> u64 \<Rightarrow> 'd world \<Rightarrow> u64 option" where
  "vm_alloc_down first a s =
     (if a > first \<and> va_avail a s then vm_alloc_down first (a - RISCV_PGSIZE) s else Some a)"

partial_function (option) vm_alloc_scan :: "u64 \<Rightarrow> u64 \<Rightarrow> u64 \<Rightarrow> 'd world \<Rightarrow> u64 option" where
  "vm_alloc_scan npage lim a s =
     (if a \<le> lim then
        (if \<not> va_avail a s then vm_alloc_scan npage lim (a + RISCV_PGSIZE) s
         else do {
           let first = a;
           a \<leftarrow> vm_alloc_down first (a + (npage - 1) * RISCV_PGSIZE) s;
           if a > first then vm_alloc_scan npage lim (a + RISCV_PGSIZE) s else Some a })
      else Some 0)"

definition vm_alloc :: "u64 \<Rightarrow> 'd world \<Rightarrow> u64 option" where
  "vm_alloc npage s = vm_alloc_scan npage (mmap_max s - npage * RISCV_PGSIZE) (brk (pkv s)) s"

section \<open>Page faults\<close>

text \<open>
  Reading a file into a page that was just made present. The buffer is populated first; it lies in
  one present page, and a fault would wait for the lock that is held.
\<close>

definition page_writable :: "u64 \<Rightarrow> 'd world \<Rightarrow> bool" where
  "page_writable a s = (let pte = walk a s in pte \<noteq> 0 \<and> ld64 (ram s) pte AND (PTE_V OR PTE_W) = PTE_V OR PTE_W)"

definition file_pread_mapped :: "'d platform \<Rightarrow> nat \<Rightarrow> u64 \<Rightarrow> u64 \<Rightarrow> u64 \<Rightarrow> 'd world \<Rightarrow> (u64 \<times> 'd world) option" where
  "file_pread_mapped P f buf n offset s = do {
     kassert (page_writable buf s);
     frontend_syscall P SYS_pread (scast (kfd (file_at s f))) (va2pa buf s) n offset 0 0 0 s }"

definition fill_page :: "'d platform \<Rightarrow> vmr_t \<Rightarrow> u64 \<Rightarrow> 'd world \<Rightarrow> 'd world option" where
  "fill_page P v vaddr s =
     (case vmr_file v of
        None \<Rightarrow> wipe vaddr RISCV_PGSIZE s
      | Some f \<Rightarrow>
          (let flen = min RISCV_PGSIZE (vmr_length v - (vaddr - vmr_addr v))
           in do { (ret, s) \<leftarrow> file_pread_mapped P f vaddr flen (vaddr - vmr_addr v + vmr_offset v) s;
                   kassert (sint ret > 0);
                   if sint ret < sint RISCV_PGSIZE then wipe (vaddr + ret) (RISCV_PGSIZE - ret) s else Some s }))"

definition set_pte :: "u64 \<Rightarrow> u64 \<Rightarrow> 'd world \<Rightarrow> 'd world" where
  "set_pte pte v s = s\<lparr>ram := st64 (ram s) pte v\<rparr>"

definition do_handle_page_fault :: "'d platform \<Rightarrow> u64 \<Rightarrow> u32 \<Rightarrow> 'd world \<Rightarrow> (u32 \<times> 'd world) option" where
  "do_handle_page_fault P vaddr prot s =
     (let vpn = drop_bit 12 vaddr; vaddr = push_bit 12 vpn; pte = walk vaddr s
      in if pte = 0 \<or> ld64 (ram s) pte = 0 \<or> \<not> valid_user_range vaddr 1 s then Some (- 1, s)
         else do {
           s \<leftarrow> (if ld64 (ram s) pte AND PTE_V = 0 then do {
                   let frame_no = vpn + first_free_paddr (pkv s) div RISCV_PGSIZE;
                   let i = vmr_of s (ld64 (ram s) pte);
                   let s = set_pte pte (pte_create frame_no (ucast (prot_to_type (PROT_READ OR PROT_WRITE) False))) s;
                   s \<leftarrow> fill_page P (vmr_table (pkv s) ! i) vaddr s;
                   s \<leftarrow> vmr_decref P i 1 s;
                   Some (set_pte pte (pte_create frame_no (ucast (prot_to_type (vmr_prot (vmr_table (pkv s) ! i)) True))) s) }
                 else Some s);
           let perms = pte_create 0 (ucast (prot_to_type prot True));
           if ld64 (ram s) pte AND perms \<noteq> perms then Some (- 1, s) else Some (0, s) })"

definition handle_page_fault :: "'d platform \<Rightarrow> u64 \<Rightarrow> u32 \<Rightarrow> 'd world \<Rightarrow> (u32 \<times> 'd world) option" where
  "handle_page_fault P vaddr prot s = do {
     s \<leftarrow> spinlock_lock s;
     (ret, s) \<leftarrow> do_handle_page_fault P vaddr prot s;
     Some (ret, spinlock_unlock s) }"

section \<open>Mapping and unmapping\<close>

partial_function (option) munmap_loop :: "'d platform \<Rightarrow> u64 \<Rightarrow> u64 \<Rightarrow> 'd world \<Rightarrow> 'd world option" where
  "munmap_loop P a lim s =
     (if a < lim then do {
        let pte = walk a s;
        s \<leftarrow> (if pte = 0 \<or> ld64 (ram s) pte = 0 then Some s
              else do {
                s \<leftarrow> (if ld64 (ram s) pte AND PTE_V = 0 then vmr_decref P (vmr_of s (ld64 (ram s) pte)) 1 s else Some s);
                Some (set_pte pte 0 s) });
        munmap_loop P (a + RISCV_PGSIZE) lim s }
      else Some s)"

definition do_munmap_range :: "'d platform \<Rightarrow> u64 \<Rightarrow> u64 \<Rightarrow> 'd world \<Rightarrow> 'd world option" where
  "do_munmap_range P addr len s = munmap_loop P addr (addr + len) s"

partial_function (option) mmap_loop :: "'d platform \<Rightarrow> nat \<Rightarrow> u64 \<Rightarrow> u64 \<Rightarrow> 'd world \<Rightarrow> 'd world option" where
  "mmap_loop P v a lim s =
     (if a < lim then do {
        (pte, s) \<leftarrow> walk_create a s;
        kassert (pte \<noteq> 0);
        s \<leftarrow> (if ld64 (ram s) pte \<noteq> 0 then do_munmap_range P a RISCV_PGSIZE s else Some s);
        mmap_loop P v (a + RISCV_PGSIZE) lim (set_pte pte (vmr_ptr s v) s) }
      else Some s)"

partial_function (option) populate_loop :: "'d platform \<Rightarrow> u32 \<Rightarrow> u64 \<Rightarrow> u64 \<Rightarrow> 'd world \<Rightarrow> 'd world option" where
  "populate_loop P prot a lim s =
     (if a < lim then do {
        (r, s) \<leftarrow> do_handle_page_fault P a prot s;
        kassert (r = 0);
        populate_loop P prot (a + RISCV_PGSIZE) lim s }
      else Some s)"

text \<open>\<^verbatim>\<open>__do_mmap\<close>; the caller holds the lock.\<close>

definition do_mmap_locked :: "'d platform \<Rightarrow> u64 \<Rightarrow> u64 \<Rightarrow> u32 \<Rightarrow> u32 \<Rightarrow> nat option \<Rightarrow> u64 \<Rightarrow> 'd world \<Rightarrow> (u64 \<times> 'd world) option" where
  "do_mmap_locked P addr len prot flags f offset s =
     (let npage = (len - 1) div RISCV_PGSIZE + 1 in do {
        addr \<leftarrow> (if flags AND MAP_FIXED \<noteq> 0
                 then Some (if addr AND (RISCV_PGSIZE - 1) \<noteq> 0 \<or> \<not> valid_user_range addr len s then None else Some addr)
                 else do { a \<leftarrow> vm_alloc npage s; Some (if a = 0 then None else Some a) });
        case addr of None \<Rightarrow> Some (- 1, s)
        | Some addr \<Rightarrow> do {
            (v, s) \<leftarrow> vmr_alloc addr len f offset (ucast npage) prot s;
            case v of None \<Rightarrow> Some (- 1, s)
            | Some v \<Rightarrow> do {
                s \<leftarrow> mmap_loop P v addr (addr + len) s;
                s \<leftarrow> (if demand_paging (pkv s) = 0 \<or> flags AND MAP_POPULATE \<noteq> 0
                      then populate_loop P prot addr (addr + len) s else Some s);
                Some (addr, s) } } })"

definition do_munmap :: "'d platform \<Rightarrow> u64 \<Rightarrow> u64 \<Rightarrow> 'd world \<Rightarrow> (u32 \<times> 'd world) option" where
  "do_munmap P addr len s =
     (if addr AND (RISCV_PGSIZE - 1) \<noteq> 0 \<or> \<not> valid_user_range addr len s then Some (- ucast EINVAL, s)
      else do {
        s \<leftarrow> spinlock_lock s;
        s \<leftarrow> do_munmap_range P addr len s;
        Some (0, spinlock_unlock s) })"

definition do_mmap :: "'d platform \<Rightarrow> u64 \<Rightarrow> u64 \<Rightarrow> u32 \<Rightarrow> u32 \<Rightarrow> u32 \<Rightarrow> u64 \<Rightarrow> 'd world \<Rightarrow> (u64 \<times> 'd world) option" where
  "do_mmap P addr len prot flags fd offset s =
     (if flags AND MAP_PRIVATE = 0 \<or> len = 0 \<or> offset AND (RISCV_PGSIZE - 1) \<noteq> 0 then Some (- EINVAL, s)
      else let (f, s) = (if flags AND MAP_ANONYMOUS = 0 then file_get fd s else (None, s))
      in if flags AND MAP_ANONYMOUS = 0 \<and> f = None then Some (- EBADF, s)
         else do {
           s \<leftarrow> spinlock_lock s;
           (addr, s) \<leftarrow> do_mmap_locked P addr len prot flags f offset s;
           let s = (if addr < brk_max (pkv s) then s\<lparr>pkv := (pkv s)\<lparr>brk_max := addr\<rparr>\<rparr> else s);
           let s = spinlock_unlock s;
           s \<leftarrow> (case f of None \<Rightarrow> Some s | Some f \<Rightarrow> file_decref P f s);
           Some (addr, s) })"

definition do_brk_locked :: "'d platform \<Rightarrow> u64 \<Rightarrow> 'd world \<Rightarrow> (u64 \<times> 'd world) option" where
  "do_brk_locked P addr s =
     (let newbrk = (if addr < brk_min (pkv s) then brk_min (pkv s)
                    else if addr > brk_max (pkv s) then brk_max (pkv s) else addr);
          s = (if brk (pkv s) = 0 then s\<lparr>pkv := (pkv s)\<lparr>brk := ROUNDUP (brk_min (pkv s)) RISCV_PGSIZE\<rparr>\<rparr> else s);
          newbrk_page = ROUNDUP newbrk RISCV_PGSIZE
      in do {
        s \<leftarrow> (if brk (pkv s) > newbrk_page then do_munmap_range P newbrk_page (brk (pkv s) - newbrk_page) s
              else if brk (pkv s) < newbrk_page then do {
                (r, s') \<leftarrow> do_mmap_locked P (brk (pkv s)) (newbrk_page - brk (pkv s)) (- 1)
                  (MAP_FIXED OR MAP_PRIVATE OR MAP_ANONYMOUS) None 0 s;
                kassert (r = brk (pkv s'));
                Some s' }
              else Some s);
        Some (newbrk, s\<lparr>pkv := (pkv s)\<lparr>brk := newbrk_page\<rparr>\<rparr>) })"

definition do_brk :: "'d platform \<Rightarrow> u64 \<Rightarrow> 'd world \<Rightarrow> (u64 \<times> 'd world) option" where
  "do_brk P addr s = do {
     s \<leftarrow> spinlock_lock s;
     (addr, s) \<leftarrow> do_brk_locked P addr s;
     Some (addr, spinlock_unlock s) }"

definition do_mremap :: "'d platform \<Rightarrow> 'd world \<Rightarrow> u64 \<times> 'd world" where
  "do_mremap P s = (- ENOSYS P, s)"

section \<open>Changing the protection\<close>

definition mprotect_page :: "u32 \<Rightarrow> u64 \<Rightarrow> 'd world \<Rightarrow> u64 \<times> 'd world" where
  "mprotect_page prot pte s =
     (let e = ld64 (ram s) pte
      in if e AND PTE_V = 0 then
           (let i = vmr_of s e; v = vmr_table (pkv s) ! i
            in if (vmr_prot v XOR prot) AND NOT (vmr_prot v) \<noteq> 0 then (- EACCES, s)
               else (0, set_vmr i (v\<lparr>vmr_prot := prot\<rparr>) s))
         else if e AND PTE_U = 0 \<or> prot AND PROT_READ \<noteq> 0 \<and> e AND PTE_R = 0 \<or>
             prot AND PROT_WRITE \<noteq> 0 \<and> e AND PTE_W = 0 \<or> prot AND PROT_EXEC \<noteq> 0 \<and> e AND PTE_X = 0
           then (- EACCES, s)
         else (0, set_pte pte (pte_create (pte_ppn e) (ucast (prot_to_type prot True))) s))"

partial_function (option) mprotect_loop :: "u32 \<Rightarrow> u64 \<Rightarrow> u64 \<Rightarrow> 'd world \<Rightarrow> (u64 \<times> 'd world) option" where
  "mprotect_loop prot a lim s =
     (if a < lim then
        (let pte = walk a s
         in if pte = 0 \<or> ld64 (ram s) pte = 0 then Some (- ENOMEM, s)
            else let (res, s) = mprotect_page prot pte s
                 in if res \<noteq> 0 then Some (res, s) else mprotect_loop prot (a + RISCV_PGSIZE) lim s)
      else Some (0, s))"

definition do_mprotect :: "u64 \<Rightarrow> u64 \<Rightarrow> u32 \<Rightarrow> 'd world \<Rightarrow> (u64 \<times> 'd world) option" where
  "do_mprotect addr len prot s =
     (if addr AND (RISCV_PGSIZE - 1) \<noteq> 0 then Some (- EINVAL, s)
      else do {
        s \<leftarrow> spinlock_lock s;
        (res, s) \<leftarrow> mprotect_loop prot addr (addr + len) s;
        Some (res, spinlock_unlock s) })"

section \<open>Start-up\<close>

primrec map_kernel_loop :: "nat \<Rightarrow> u64 \<Rightarrow> u64 \<Rightarrow> u32 \<Rightarrow> 'd world \<Rightarrow> 'd world option" where
  "map_kernel_loop 0 a offset prot s = Some s"
| "map_kernel_loop (Suc n) a offset prot s = do {
     (pte, s) \<leftarrow> walk_create a s;
     kassert (pte \<noteq> 0);
     map_kernel_loop n (a + RISCV_PGSIZE) offset prot
       (set_pte pte (pte_create (drop_bit 12 (a + offset)) (ucast (prot_to_type prot False))) s) }"

definition map_kernel_range :: "u64 \<Rightarrow> u64 \<Rightarrow> u64 \<Rightarrow> u32 \<Rightarrow> 'd world \<Rightarrow> 'd world option" where
  "map_kernel_range vaddr paddr len prot s =
     map_kernel_loop (unat (ROUNDUP len RISCV_PGSIZE div RISCV_PGSIZE)) vaddr (paddr - vaddr) prot s"

text \<open>\<open>image_end\<close> is the address of the linker's symbol \<^verbatim>\<open>_end\<close>.\<close>

definition pk_vm_init :: "'d platform \<Rightarrow> u64 \<Rightarrow> 'd world \<Rightarrow> (u64 \<times> 'd world) option" where
  "pk_vm_init P image_end s =
     (let s = s\<lparr>mem_size := min (mem_size s) 0x80000000\<rparr>;
          mem_pages = drop_bit 12 (mem_size s);
          s = s\<lparr>pkv := (pkv s)\<lparr>free_pages := max 8 (drop_bit 8 mem_pages)\<rparr>\<rparr>;
          s = s\<lparr>pkv := (pkv s)\<lparr>first_free_page := ROUNDUP image_end RISCV_PGSIZE\<rparr>\<rparr>;
          s = s\<lparr>pkv := (pkv s)\<lparr>first_free_paddr := first_free_page (pkv s) + free_pages (pkv s) * RISCV_PGSIZE\<rparr>\<rparr>
      in do {
        (root, s) \<leftarrow> page_alloc s;
        let s = s\<lparr>pkv := (pkv s)\<lparr>root_page_table := root\<rparr>\<rparr>;
        s \<leftarrow> map_kernel_range DRAM_BASE DRAM_BASE (first_free_paddr (pkv s) - DRAM_BASE)
              (PROT_READ OR PROT_WRITE OR PROT_EXEC) s;
        let top = min DRAM_BASE (mem_size s - (first_free_paddr (pkv s) - DRAM_BASE));
        let s = s\<lparr>mmap_max := top, pkv := (pkv s)\<lparr>brk_max := top\<rparr>\<rparr>;
        let stack_size = min (drop_bit 5 mem_pages) 2048 * RISCV_PGSIZE;
        (stack_bottom, s) \<leftarrow> do_mmap_locked P (mmap_max s - stack_size) stack_size
              (PROT_READ OR PROT_WRITE OR PROT_EXEC) (MAP_PRIVATE OR MAP_ANONYMOUS OR MAP_FIXED) None 0 s;
        kassert (stack_bottom \<noteq> - 1);
        let s = s\<lparr>pkv := (pkv s)\<lparr>stack_top := stack_bottom + stack_size\<rparr>\<rparr>;
        let s = write_csr SATP (drop_bit 12 (root_page_table (pkv s)) OR push_bit 60 8) s;
        (page, s) \<leftarrow> page_alloc s;
        Some (page + RISCV_PGSIZE, s) })"

end
