(* ===== verification/PageTables.thy ===== *)
theory PageTables
  imports Vm
begin

text \<open>
  The page tables as a map from addresses to entries. A well-formed table is a tree of distinct
  pages from the allocated pool; in it a walk for one page and a walk for another one end at
  different entries, so an entry can be set without changing any other, and a walk that creates
  the missing tables changes no entry at all.
\<close>

section \<open>Aligned accesses\<close>

lemma aligned_apart:
  assumes "8 dvd unat (a :: u64)" "8 dvd unat b" "a \<noteq> b"
  shows "apart a 8 b 8"
proof -
  have bound: "unat x + 8 \<le> 2 ^ 64" if "8 dvd unat x" for x :: u64
    using that unat_u64_less [of x] by (auto elim!: dvdE)
  have *: "unat x + 8 \<le> unat y" if "8 dvd unat x" "8 dvd unat y" "unat x < unat y" for x y :: u64
    using that by (auto elim!: dvdE)
  have "unat a < unat b \<or> unat b < unat a" using assms(3) by (metis linorder_neqE_nat word_unat_eq_iff)
  then show ?thesis
    using assms bound [of a] bound [of b] * [of a b] * [of b a] apartI [of a 8 b 8] apart_sym [OF apartI [of b 8 a 8]]
    by blast
qed

lemma ld64_st64_aligned:
  assumes "8 dvd unat a" "8 dvd unat b"
  shows "ld64 (st64 m a v) b = (if a = b then v else ld64 m b)"
  using aligned_apart [OF assms] by (simp add: ld64_st64_same) (simp add: ld64_def st64_def ram_store.get_put_apart)

definition page :: "u64 \<Rightarrow> bool" where
  "page t \<longleftrightarrow> 4096 dvd unat t"

lemma unat_slot:
  assumes "page t" "i < 512"
  shows "unat (t + 8 * i) = unat t + 8 * unat i"
proof -
  have "unat i < 512" using assms(2) by (simp add: word_less_nat_alt)
  moreover have "unat t + 4096 \<le> 2 ^ 64" using assms(1) unat_u64_less [of t] by (auto simp: page_def elim!: dvdE)
  moreover have "unat (8 * i) = 8 * unat i"
    using \<open>unat i < 512\<close> by (simp add: unat_word_ariths)
  ultimately show ?thesis by (subst unat_add_no_wrap) simp_all
qed

lemma slot_aligned: "page t \<Longrightarrow> i < 512 \<Longrightarrow> 8 dvd unat (t + 8 * i)"
  by (auto simp: unat_slot page_def elim!: dvdE)

lemma pte_slot_inject:
  assumes "page t" "page p" "i < 512" "j < 512"
  shows "t + 8 * i = p + 8 * j \<longleftrightarrow> t = p \<and> i = j"
proof
  assume eq: "t + 8 * i = p + 8 * j"
  have lt: "unat i < 512" "unat j < 512" using assms by (simp_all add: word_less_nat_alt)
  have "unat t + 8 * unat i = unat (t + 8 * i)" by (rule unat_slot [OF assms(1,3), symmetric])
  also have "\<dots> = unat (p + 8 * j)" by (simp only: eq)
  also have "\<dots> = unat p + 8 * unat j" by (rule unat_slot [OF assms(2,4)])
  finally have u: "unat t + 8 * unat i = unat p + 8 * unat j" .
  obtain x y where xy: "unat t = 4096 * x" "unat p = 4096 * y" using assms(1,2) unfolding page_def dvd_def by blast
  have e: "512 * x + unat i = 512 * y + unat j" using u unfolding xy by linarith
  then have "(512 * x + unat i) div 512 = (512 * y + unat j) div 512" "(512 * x + unat i) mod 512 = (512 * y + unat j) mod 512"
    by (simp_all only: e)
  then have "unat t = unat p" "unat i = unat j" using lt by (simp_all add: xy)
  then show "t = p \<and> i = j" by (simp add: word_unat_eq_iff)
qed simp

lemma slot_update:
  assumes "page t" "page p" "i < 512" "j < 512"
  shows "ld64 (st64 m (t + 8 * i) v) (p + 8 * j) = (if t = p \<and> i = j then v else ld64 m (p + 8 * j))"
  using assms by (simp add: ld64_st64_aligned slot_aligned pte_slot_inject)

text \<open>A page that is wiped shows zeros; no slot of another page changes.\<close>

lemma page_apart:
  assumes "page t" "page p" "t \<noteq> p"
  shows "apart t 4096 p 4096"
proof -
  obtain x y where xy: "unat t = 4096 * x" "unat p = 4096 * y" using assms(1,2) unfolding page_def dvd_def by blast
  then have "x \<noteq> y" using assms(3) by (auto simp: word_unat_eq_iff)
  then consider "x < y" | "y < x" by linarith
  then show ?thesis
  proof cases
    case 1
    then show ?thesis using xy unat_u64_less [of p] by (intro apartI) simp_all
  next
    case 2
    then show ?thesis using xy unat_u64_less [of t] by (intro apart_sym [OF apartI]) simp_all
  qed
qed

lemma slot_in_page:
  assumes "i < (512 :: u64)"
  shows "t + 8 * i = t + of_nat (8 * unat i)" "8 * unat i + 8 \<le> 4096"
  using assms by (simp_all add: word_less_nat_alt)

lemma le_word_zeros: "le_word (replicate n 0) = 0"
  by (induction n) simp_all

lemma ld64_wiped:
  assumes "page t" "i < 512"
  shows "ld64 (put_bytes st8 m t (replicate 4096 0)) (t + 8 * i) = 0"
proof -
  have "get_bytes ld8 (put_bytes st8 m t (replicate 4096 0)) (t + of_nat (8 * unat i)) 8 = take 8 (drop (8 * unat i) (replicate 4096 0))"
    using slot_in_page(2) [OF assms(2)] by (intro ram_store.get_put_within) simp_all
  also have "\<dots> = replicate 8 0" using slot_in_page(2) [OF assms(2)] by simp
  finally show ?thesis unfolding ld64_def slot_in_page(1) [OF assms(2)] by (simp only: le_word_zeros)
qed

lemma ld64_wiped_other:
  assumes "page t" "page p" "t \<noteq> p" "i < 512"
  shows "ld64 (put_bytes st8 m t (replicate 4096 0)) (p + 8 * i) = ld64 m (p + 8 * i)"
proof -
  have "apart t 4096 (p + 8 * i) 8"
    using apart_offset [OF page_apart [OF assms(1-3)], of 0 4096 "8 * unat i" 8] slot_in_page(2) [OF assms(4)]
    unfolding slot_in_page(1) [OF assms(4)] by simp
  then show ?thesis by (simp add: ld64_def ram_store.get_put_apart)
qed

section \<open>Entries\<close>

lemma pt_idx_less: "pt_idx a l < 512"
proof -
  have "pt_idx a l \<le> 511" unfolding pt_idx_def by (simp add: word_and_le1)
  then show ?thesis by (rule order.strict_trans1) simp
qed

lemma ptd_create_fields:
  assumes "page p"
  shows "ptd_create (ppn p) AND PTE_V \<noteq> 0" "push_bit 12 (pte_ppn (ptd_create (ppn p))) = p"
proof -
  have e: "ptd_create (ppn p) = push_bit 10 (drop_bit 12 p) OR 1"
    by (simp add: ptd_create_def pte_create_def ppn_def PTE_V_def)
  have "bit (ptd_create (ppn p) AND PTE_V) 0" by (simp add: e PTE_V_def bit_simps)
  then show "ptd_create (ppn p) AND PTE_V \<noteq> 0" by auto
  show "push_bit 12 (pte_ppn (ptd_create (ppn p))) = p"
  proof (rule bit_word_eqI)
    fix n assume n: "n < LENGTH(64)"
    have low: "\<not> bit p k" if "k < 12" for k
    proof -
      have "unat p mod 2 ^ 12 = 0" using assms by (simp add: page_def)
      then have "take_bit 12 p = 0"
        by (simp add: word_unat_eq_iff take_bit_eq_mod unat_mod_distrib)
      then show ?thesis using that by (metis bit_0_eq bit_take_bit_iff bot_apply bot_bool_def)
    qed
    show "bit (push_bit 12 (pte_ppn (ptd_create (ppn p)))) n = bit p n"
      using n low [of n] by (cases "n < 12") (auto simp: e pte_ppn_def bit_simps not_less)
  qed
qed

section \<open>The tree of tables\<close>

definition sub :: "ram \<Rightarrow> u64 \<Rightarrow> u64 \<Rightarrow> u64 option" where
  "sub m t i = (let e = ld64 m (t + 8 * i) in if e AND PTE_V = 0 then None else Some (push_bit 12 (pte_ppn e)))"

primrec node :: "ram \<Rightarrow> u64 \<Rightarrow> u64 list \<Rightarrow> u64 option" where
  "node m t [] = Some t"
| "node m t (i # is) = (case sub m t i of None \<Rightarrow> None | Some p \<Rightarrow> node m p is)"

definition paths :: "u64 list set" where
  "paths = {is. length is \<le> 2 \<and> (\<forall>i\<in>set is. i < 512)}"

text \<open>The tables are pages of the pool \<open>G\<close>, and no page is used as two tables.\<close>

definition table_tree :: "ram \<Rightarrow> u64 \<Rightarrow> u64 set \<Rightarrow> bool" where
  "table_tree m root G \<longleftrightarrow> (\<forall>p\<in>G. page p) \<and>
     (\<forall>is\<in>paths. \<forall>p. node m root is = Some p \<longrightarrow> p \<in> G) \<and>
     (\<forall>is\<in>paths. \<forall>js\<in>paths. \<forall>p. node m root is = Some p \<and> node m root js = Some p \<longrightarrow> is = js)"

definition leaf_path :: "u64 \<Rightarrow> u64 list" where
  "leaf_path a = [pt_idx a 2, pt_idx a 1]"

definition entry :: "ram \<Rightarrow> u64 \<Rightarrow> u64 \<Rightarrow> u64" where
  "entry m root a = (case node m root (leaf_path a) of None \<Rightarrow> 0 | Some t \<Rightarrow> ld64 m (t + 8 * pt_idx a 0))"

definition same_page :: "u64 \<Rightarrow> u64 \<Rightarrow> bool" where
  "same_page a b \<longleftrightarrow> leaf_path a = leaf_path b \<and> pt_idx a 0 = pt_idx b 0"

lemma node_snoc: "node m t (is @ [j]) = (case node m t is of None \<Rightarrow> None | Some q \<Rightarrow> sub m q j)"
  by (induction "is" arbitrary: t) (auto split: option.splits)

lemma paths_prefix: "is @ [j] \<in> paths \<Longrightarrow> is \<in> paths \<and> j < 512 \<and> length is \<le> 1"
  by (simp add: paths_def)

lemma paths_Nil [simp]: "[] \<in> paths"
  by (simp add: paths_def)

lemma leaf_path_paths [simp]: "leaf_path a \<in> paths" "[pt_idx a 2] \<in> paths"
  by (simp_all add: paths_def leaf_path_def pt_idx_less)

lemma walk_from_node:
  "walk_from 2 m a root =
     (case node m root [pt_idx a 2] of None \<Rightarrow> Inl (root + 8 * pt_idx a 2)
      | Some t \<Rightarrow> (case sub m t (pt_idx a 1) of None \<Rightarrow> Inl (t + 8 * pt_idx a 1) | Some t \<Rightarrow> Inr (t + 8 * pt_idx a 0)))"
  by (simp add: numeral_2_eq_2 sub_def Let_def)

lemma walk_node: "walk a s = (case node (ram s) (root_page_table (pkv s)) (leaf_path a) of None \<Rightarrow> 0 | Some t \<Rightarrow> t + 8 * pt_idx a 0)"
  by (simp add: walk_def walk_from_node leaf_path_def split: option.split)

subsection \<open>Setting an entry\<close>

lemma table_treeD:
  assumes "table_tree m root G" "is \<in> paths" "node m root is = Some p"
  shows "p \<in> G" "page p" "js \<in> paths \<Longrightarrow> node m root js = Some p \<Longrightarrow> is = js"
  using assms unfolding table_tree_def by blast+

lemma sub_set_leaf:
  assumes "table_tree m root G" "ks \<in> paths" "length ks = 2" "node m root ks = Some p" "i < 512"
    and "is \<in> paths" "length is \<le> 1" "node m root is = Some q" "j < 512"
  shows "sub (st64 m (p + 8 * i) v) q j = sub m q j"
proof -
  have "q \<noteq> p" using table_treeD(3) [OF assms(1,2,4), of "is"] assms(3,6-8) by auto
  then show ?thesis
    using slot_update [of p q i j m v] table_treeD(2) [OF assms(1,2,4)] table_treeD(2) [OF assms(1,6,8)] assms(5,9)
    by (simp add: sub_def)
qed

lemma node_set_leaf:
  assumes "table_tree m root G" "ks \<in> paths" "length ks = 2" "node m root ks = Some p" "i < 512" "is \<in> paths"
  shows "node (st64 m (p + 8 * i) v) root is = node m root is"
  using assms(6)
proof (induction "is" rule: rev_induct)
  case (snoc j "is")
  then have prefix: "is \<in> paths" "j < 512" "length is \<le> 1" using paths_prefix [OF snoc.prems] by simp_all
  show ?case
    using snoc.IH [OF prefix(1)] sub_set_leaf [OF assms(1-5) prefix(1,3) _ prefix(2)]
    by (simp add: node_snoc split: option.split)
qed simp

lemma tree_set_leaf:
  assumes "table_tree m root G" "ks \<in> paths" "length ks = 2" "node m root ks = Some p" "i < 512"
  shows "table_tree (st64 m (p + 8 * i) v) root G"
  using assms(1) node_set_leaf [OF assms] unfolding table_tree_def by simp

lemma entry_set_leaf:
  assumes "table_tree m root G" "node m root (leaf_path a) = Some p"
  shows "entry (st64 m (p + 8 * pt_idx a 0) v) root b = (if same_page a b then v else entry m root b)"
proof -
  have len: "length (leaf_path a) = 2" by (simp add: leaf_path_def)
  note nodes = node_set_leaf [OF assms(1) leaf_path_paths(1) len assms(2) pt_idx_less]
  show ?thesis
  proof (cases "node m root (leaf_path b)")
    case None
    then have "leaf_path a \<noteq> leaf_path b" using assms(2) by auto
    then show ?thesis using None by (simp add: entry_def nodes same_page_def)
  next
    case (Some q)
    have "p = q \<longleftrightarrow> leaf_path a = leaf_path b"
      using table_treeD(3) [OF assms(1) leaf_path_paths(1) assms(2), of "leaf_path b"] Some assms(2) by auto
    then show ?thesis
      using Some slot_update [of p q "pt_idx a 0" "pt_idx b 0" m v] table_treeD(2) [OF assms(1) _ assms(2)]
        table_treeD(2) [OF assms(1) _ Some] pt_idx_less
      by (simp add: entry_def nodes same_page_def)
  qed
qed

subsection \<open>Adding a table\<close>

definition add_table :: "ram \<Rightarrow> u64 \<Rightarrow> u64 \<Rightarrow> ram" where
  "add_table m g e = st64 (put_bytes st8 m g (replicate 4096 0)) e (ptd_create (ppn g))"

lemma sub_add_table:
  assumes "table_tree m root G" "g \<notin> G" "page g" "ks @ [i] \<in> paths" "node m root ks = Some p" "j < 512"
  shows "q \<in> G \<Longrightarrow> sub (add_table m g (p + 8 * i)) q j = (if q = p \<and> j = i then Some g else sub m q j)"
    "sub (add_table m g (p + 8 * i)) g j = None"
proof -
  note pre = paths_prefix [OF assms(4)]
  have p: "p \<in> G" "page p" "i < 512" using table_treeD(1,2) [OF assms(1) _ assms(5)] pre by auto
  have "p \<noteq> g" using p(1) assms(2) by auto
  then show "sub (add_table m g (p + 8 * i)) g j = None"
    using slot_update [OF p(2) assms(3) p(3) assms(6)] ld64_wiped [OF assms(3,6)] by (simp add: sub_def add_table_def)
  assume q: "q \<in> G"
  then have "page q" "g \<noteq> q" using assms(1,2) by (auto simp: table_tree_def)
  then show "sub (add_table m g (p + 8 * i)) q j = (if q = p \<and> j = i then Some g else sub m q j)"
    using slot_update [OF p(2) \<open>page q\<close> p(3) assms(6)] ld64_wiped_other [OF assms(3) \<open>page q\<close> _ assms(6)]
      ptd_create_fields [OF assms(3)]
    by (simp add: sub_def add_table_def)
qed

lemma node_add_table:
  assumes "table_tree m root G" "g \<notin> G" "page g" "ks @ [i] \<in> paths" "node m root ks = Some p" "sub m p i = None"
    and "is \<in> paths"
  shows "node (add_table m g (p + 8 * i)) root is = (if is = ks @ [i] then Some g else node m root is)"
  using assms(7)
proof (induction "is" rule: rev_induct)
  case (snoc j "is")
  then have pre: "is \<in> paths" "j < 512" using paths_prefix [OF snoc.prems] by simp_all
  note subs = sub_add_table [OF assms(1-5) pre(2)]
  have none: "node m root (ks @ [i]) = None" using assms(5,6) by (simp add: node_snoc)
  show ?case
  proof (cases "node m root is")
    case None
    then have "is \<noteq> ks" using assms(5) by auto
    then show ?thesis using snoc.IH [OF pre(1)] None subs(2) by (simp add: node_snoc)
  next
    case (Some q)
    then have "q \<in> G" "is \<noteq> ks @ [i]" using table_treeD(1) [OF assms(1) pre(1)] none by auto
    moreover have "q = p \<longleftrightarrow> is = ks"
      using table_treeD(3) [OF assms(1) pre(1) Some, of ks] Some assms(5) paths_prefix [OF assms(4)] by auto
    ultimately show ?thesis using snoc.IH [OF pre(1)] Some subs(1) by (simp add: node_snoc)
  qed
qed simp

lemma tree_add_table:
  assumes "table_tree m root G" "g \<notin> G" "page g" "ks @ [i] \<in> paths" "node m root ks = Some p" "sub m p i = None"
  shows "table_tree (add_table m g (p + 8 * i)) root (insert g G)"
  unfolding table_tree_def
proof (intro conjI ballI allI impI)
  fix q assume "q \<in> insert g G"
  then show "page q" using assms(1,3) by (auto simp: table_tree_def)
next
  fix "is" q assume "is \<in> paths" "node (add_table m g (p + 8 * i)) root is = Some q"
  then show "q \<in> insert g G"
    using node_add_table [OF assms] table_treeD(1) [OF assms(1)] by (auto split: if_splits)
next
  fix "is" js q
  assume *: "is \<in> paths" "js \<in> paths"
    "node (add_table m g (p + 8 * i)) root is = Some q \<and> node (add_table m g (p + 8 * i)) root js = Some q"
  then show "is = js"
    using node_add_table [OF assms *(1)] node_add_table [OF assms *(2)] table_treeD(1,3) [OF assms(1)] assms(2)
    by (auto split: if_splits)
qed

lemma entry_add_table:
  assumes "table_tree m root G" "g \<notin> G" "page g" "ks @ [i] \<in> paths" "node m root ks = Some p" "sub m p i = None"
  shows "entry (add_table m g (p + 8 * i)) root a = entry m root a"
proof (cases "leaf_path a = ks @ [i]")
  case True
  have "node m root (leaf_path a) = None" using True assms(5,6) by (simp add: node_snoc)
  moreover have "ld64 (add_table m g (p + 8 * i)) (g + 8 * pt_idx a 0) = 0"
  proof -
    have "p \<noteq> g" "page p" "i < 512"
      using table_treeD(1,2) [OF assms(1) _ assms(5)] paths_prefix [OF assms(4)] assms(2) by auto
    then show ?thesis
      using slot_update [of p g i "pt_idx a 0"] ld64_wiped [OF assms(3) pt_idx_less] assms(3) pt_idx_less
      by (simp add: add_table_def)
  qed
  moreover have "node (add_table m g (p + 8 * i)) root (leaf_path a) = Some g"
    by (subst node_add_table [OF assms leaf_path_paths(1)]) (simp only: True if_True simp_thms)
  ultimately show ?thesis by (simp add: entry_def)
next
  case False
  show ?thesis
  proof (cases "node m root (leaf_path a)")
    case None
    then show ?thesis using node_add_table [OF assms leaf_path_paths(1)] False by (simp add: entry_def)
  next
    case (Some t)
    have pre: "ks \<in> paths" "i < 512" "length ks \<le> 1" using paths_prefix [OF assms(4)] by auto
    have "t \<noteq> p"
      using table_treeD(3) [OF assms(1) leaf_path_paths(1) Some, of ks] pre assms(5) by (auto simp: leaf_path_def)
    moreover have "t \<noteq> g" "page t" "page p"
      using table_treeD(1,2) [OF assms(1) leaf_path_paths(1) Some] table_treeD(2) [OF assms(1) pre(1) assms(5)] assms(2)
      by auto
    ultimately have "ld64 (add_table m g (p + 8 * i)) (t + 8 * pt_idx a 0) = ld64 m (t + 8 * pt_idx a 0)"
      using slot_update [of p t i "pt_idx a 0"] ld64_wiped_other [OF assms(3), of t] pre(2) pt_idx_less
      by (simp add: add_table_def)
    then show ?thesis using node_add_table [OF assms leaf_path_paths(1)] False Some by (simp add: entry_def)
  qed
qed

end
