(* ===== verification/VmProps.thy ===== *)
theory VmProps
  imports PageTables
begin

text \<open>
  What the memory management promises: the invariant of its tables, the effect of each operation
  on the map from addresses to entries, and the protection of pages.
\<close>

section \<open>The invariant\<close>

definition pool_page :: "'d world \<Rightarrow> nat \<Rightarrow> u64" where
  "pool_page s k = first_free_page (pkv s) + 4096 * of_nat k"

definition pool :: "'d world \<Rightarrow> u64 set" where
  "pool s = pool_page s ` {..<unat (next_free_page (pkv s))}"

definition vm_ok :: "'d world \<Rightarrow> bool" where
  "vm_ok s \<longleftrightarrow> page (first_free_page (pkv s)) \<and>
     unat (first_free_page (pkv s)) + 4096 * unat (free_pages (pkv s)) < 2 ^ 64 \<and>
     next_free_page (pkv s) \<le> free_pages (pkv s) \<and>
     table_tree (ram s) (root_page_table (pkv s)) (pool s) \<and>
     mmap_max s \<le> DRAM_BASE \<and> DRAM_BASE \<le> first_free_page (pkv s)"

definition entry_of :: "'d world \<Rightarrow> u64 \<Rightarrow> u64" where
  "entry_of s a = entry (ram s) (root_page_table (pkv s)) a"

definition in_pool :: "'d world \<Rightarrow> u64 \<Rightarrow> bool" where
  "in_pool s x \<longleftrightarrow> unat (first_free_page (pkv s)) \<le> unat x \<and>
     unat x < unat (first_free_page (pkv s)) + 4096 * unat (free_pages (pkv s))"

definition free_left :: "'d world \<Rightarrow> nat" where
  "free_left s = unat (free_pages (pkv s)) - unat (next_free_page (pkv s))"

lemma unat_pool_page:
  assumes "vm_ok s" "k < unat (free_pages (pkv s))"
  shows "unat (pool_page s k) = unat (first_free_page (pkv s)) + 4096 * k"
proof -
  have b: "unat (first_free_page (pkv s)) + 4096 * k < 2 ^ 64" using assms by (simp add: vm_ok_def)
  then have "unat (of_nat (4096 * k) :: u64) = 4096 * k" by (intro unat_of_nat_u64) simp
  with b show ?thesis
    using unat_add_no_wrap [of "first_free_page (pkv s)" "of_nat (4096 * k)"] by (simp add: pool_page_def)
qed

lemma pool_page_page: "vm_ok s \<Longrightarrow> k < unat (free_pages (pkv s)) \<Longrightarrow> page (pool_page s k)"
  unfolding page_def by (simp add: unat_pool_page) (simp add: vm_ok_def page_def)

lemma next_le: "vm_ok s \<Longrightarrow> unat (next_free_page (pkv s)) \<le> unat (free_pages (pkv s))"
  by (simp add: vm_ok_def word_le_nat_alt)

lemma next_not_in_pool:
  assumes "vm_ok s" "0 < free_left s"
  shows "pool_page s (unat (next_free_page (pkv s))) \<notin> pool s"
proof
  assume "pool_page s (unat (next_free_page (pkv s))) \<in> pool s"
  then obtain k where "k < unat (next_free_page (pkv s))"
      "pool_page s (unat (next_free_page (pkv s))) = pool_page s k" by (auto simp: pool_def)
  then show False
    using unat_pool_page [OF assms(1), of k] unat_pool_page [OF assms(1), of "unat (next_free_page (pkv s))"]
      next_le [OF assms(1)] assms(2) by (simp add: free_left_def)
qed

text \<open>What creating tables may change: fresh pages of the pool, and no entry.\<close>

definition grown :: "nat \<Rightarrow> 'd world \<Rightarrow> 'd world \<Rightarrow> bool" where
  "grown n s s' \<longleftrightarrow> vm_ok s' \<and> (\<exists>k\<le>n. free_left s = free_left s' + k) \<and>
     s' = s\<lparr>ram := ram s', pkv := (pkv s)\<lparr>next_free_page := next_free_page (pkv s')\<rparr>\<rparr> \<and>
     (\<forall>a. entry_of s' a = entry_of s a) \<and> (\<forall>x. \<not> in_pool s x \<longrightarrow> ram s' x = ram s x)"

lemma grown_refl: "vm_ok s \<Longrightarrow> grown n s s"
  by (simp add: grown_def)

lemma grown_same:
  assumes "grown n s s'"
  shows "mmap_max s' = mmap_max s" "first_free_page (pkv s') = first_free_page (pkv s)"
    "free_pages (pkv s') = free_pages (pkv s)" "root_page_table (pkv s') = root_page_table (pkv s)"
    "vmrs (pkv s') = vmrs (pkv s)" "vmr_table (pkv s') = vmr_table (pkv s)" "vm_lock (pkv s') = vm_lock (pkv s)"
    "first_free_paddr (pkv s') = first_free_paddr (pkv s)" "in_pool s' = in_pool s" "vm_ok s'"
    "demand_paging (pkv s') = demand_paging (pkv s)" "brk_max (pkv s') = brk_max (pkv s)" "sent s' = sent s"
proof -
  have e: "s' = s\<lparr>ram := ram s', pkv := (pkv s)\<lparr>next_free_page := next_free_page (pkv s')\<rparr>\<rparr>"
    and "vm_ok s'" using assms by (simp_all add: grown_def)
  then show "vm_ok s'" by simp
  show "mmap_max s' = mmap_max s" "first_free_page (pkv s') = first_free_page (pkv s)"
    "free_pages (pkv s') = free_pages (pkv s)" "root_page_table (pkv s') = root_page_table (pkv s)"
    "vmrs (pkv s') = vmrs (pkv s)" "vmr_table (pkv s') = vmr_table (pkv s)" "vm_lock (pkv s') = vm_lock (pkv s)"
    "first_free_paddr (pkv s') = first_free_paddr (pkv s)" "in_pool s' = in_pool s"
    "demand_paging (pkv s') = demand_paging (pkv s)" "brk_max (pkv s') = brk_max (pkv s)" "sent s' = sent s"
    by (subst e, simp add: in_pool_def fun_eq_iff sent_def)+
qed

lemma grown_trans:
  assumes "grown n s s1" "grown k s1 s2"
  shows "grown (n + k) s s2"
proof -
  obtain i j where ij: "i \<le> n" "free_left s = free_left s1 + i" "j \<le> k" "free_left s1 = free_left s2 + j"
    using assms by (auto simp: grown_def)
  obtain r x r' x' where "s1 = s\<lparr>ram := r, pkv := (pkv s)\<lparr>next_free_page := x\<rparr>\<rparr>"
      "s2 = s1\<lparr>ram := r', pkv := (pkv s1)\<lparr>next_free_page := x'\<rparr>\<rparr>"
    using assms unfolding grown_def by metis
  then have "s2 = s\<lparr>ram := ram s2, pkv := (pkv s)\<lparr>next_free_page := next_free_page (pkv s2)\<rparr>\<rparr>" by simp
  moreover have "\<exists>x\<le>n + k. free_left s = free_left s2 + x" using ij by (intro exI [of _ "i + j"]) simp
  ultimately show ?thesis using assms grown_same(9) [OF assms(1)] by (simp add: grown_def)
qed

section \<open>Creating tables\<close>

lemma page_alloc_ok:
  assumes "vm_ok s" "0 < free_left s"
  shows "page_alloc s = Some (pool_page s (unat (next_free_page (pkv s))),
     s\<lparr>pkv := (pkv s)\<lparr>next_free_page := next_free_page (pkv s) + 1\<rparr>,
       ram := put_bytes st8 (ram s) (pool_page s (unat (next_free_page (pkv s)))) (replicate 4096 0)\<rparr>)"
proof -
  let ?n = "next_free_page (pkv s)" let ?g = "pool_page s (unat ?n)"
  have lt: "unat ?n < unat (free_pages (pkv s))" using assms(2) by (simp add: free_left_def)
  have "unat ?g + 4096 \<le> unat (first_free_page (pkv s)) + 4096 * unat (free_pages (pkv s))"
    using unat_pool_page [OF assms(1) lt] lt by simp
  then have "unat ?g + unat RISCV_PGSIZE < 2 ^ 64" using assms(1) by (simp add: vm_ok_def RISCV_PGSIZE_def)
  moreover have "?n \<noteq> free_pages (pkv s)" using lt by auto
  ultimately show ?thesis
    using memset_fills_runs [of ?g RISCV_PGSIZE "ram s" 0]
    by (simp add: page_alloc_def pool_page_def RISCV_PGSIZE_def Let_def)
qed

lemma pool_grows:
  assumes "vm_ok s" "0 < free_left s" "first_free_page (pkv s') = first_free_page (pkv s)"
    and "next_free_page (pkv s') = next_free_page (pkv s) + 1"
  shows "pool s' = insert (pool_page s (unat (next_free_page (pkv s)))) (pool s)"
    "unat (next_free_page (pkv s')) = Suc (unat (next_free_page (pkv s)))"
proof -
  have "next_free_page (pkv s) < free_pages (pkv s)"
    using assms(2) by (simp add: free_left_def word_less_nat_alt)
  then have n: "unat (next_free_page (pkv s) + 1) = Suc (unat (next_free_page (pkv s)))" by (rule unat_Suc_less)
  then show "unat (next_free_page (pkv s')) = Suc (unat (next_free_page (pkv s)))" by (simp add: assms(4))
  show "pool s' = insert (pool_page s (unat (next_free_page (pkv s)))) (pool s)"
    unfolding pool_def assms(4) n lessThan_Suc image_insert by (simp add: pool_page_def assms(3))
qed

text \<open>One table is added where a walk ended.\<close>

lemma tree_of: "vm_ok s \<Longrightarrow> table_tree (ram s) (root_page_table (pkv s)) (pool s)"
  by (simp add: vm_ok_def)

lemma in_pool_page:
  assumes "vm_ok s" "k < unat (free_pages (pkv s))" "j < 4096"
  shows "in_pool s (pool_page s k + of_nat j)"
proof -
  have "page (pool_page s k)" by (rule pool_page_page [OF assms(1,2)])
  then have "unat (pool_page s k) + 4096 \<le> 2 ^ 64"
    using unat_u64_less [of "pool_page s k"] by (auto simp: page_def elim!: dvdE)
  then have "unat (pool_page s k + of_nat j) = unat (pool_page s k) + j"
    using assms(3) by (simp add: unat_add_no_wrap unat_of_nat_u64)
  then show ?thesis using unat_pool_page [OF assms(1,2)] assms(2,3) by (simp add: in_pool_def)
qed

lemma in_pool_slot:
  assumes "vm_ok s" "p \<in> pool s" "i < 512" "k < 8"
  shows "in_pool s (p + 8 * i + of_nat k)"
proof -
  obtain n where n: "n < unat (next_free_page (pkv s))" "p = pool_page s n" using assms(2) by (auto simp: pool_def)
  have e: "p + 8 * i + of_nat k = pool_page s n + of_nat (8 * unat i + k)" by (simp add: n(2) add.assoc)
  have "8 * unat i + k < 4096" using slot_in_page(2) [OF assms(3)] assms(4) by simp
  then show ?thesis unfolding e using n(1) next_le [OF assms(1)] by (intro in_pool_page [OF assms(1)]) simp_all
qed

lemma outside_put:
  assumes "\<And>i. i < length bs \<Longrightarrow> x \<noteq> a + of_nat i"
  shows "put_bytes st8 m a bs x = m x"
  using ram_store.rd_put_outside [where m = m, OF assms] by (simp add: ld8_def)

lemma create_step:
  assumes ok: "vm_ok s" and left: "0 < free_left s"
    and at: "ks @ [i] \<in> paths" "node (ram s) (root_page_table (pkv s)) ks = Some p"
      "sub (ram s) p i = None"
  obtains g s0 s1 where "page_alloc s = Some (g, s0)" "s1 = s0\<lparr>ram := st64 (ram s0) (p + 8 * i) (ptd_create (ppn g))\<rparr>"
    "grown 1 s s1" "free_left s = free_left s1 + 1" "node (ram s1) (root_page_table (pkv s1)) (ks @ [i]) = Some g"
    "\<And>is. is \<in> paths \<Longrightarrow> is \<noteq> ks @ [i] \<Longrightarrow>
       node (ram s1) (root_page_table (pkv s1)) is = node (ram s) (root_page_table (pkv s)) is"
proof -
  let ?n = "next_free_page (pkv s)" let ?g = "pool_page s (unat ?n)" let ?root = "root_page_table (pkv s)"
  let ?s0 = "s\<lparr>pkv := (pkv s)\<lparr>next_free_page := ?n + 1\<rparr>, ram := put_bytes st8 (ram s) ?g (replicate 4096 0)\<rparr>"
  let ?s1 = "?s0\<lparr>ram := st64 (ram ?s0) (p + 8 * i) (ptd_create (ppn ?g))\<rparr>"
  have lt: "unat ?n < unat (free_pages (pkv s))" using left by (simp add: free_left_def)
  note tree = tree_of [OF ok]
  note new = next_not_in_pool [OF ok left] pool_page_page [OF ok lt]
  note grows = pool_grows [OF ok left, of ?s1]
  have p: "p \<in> pool s" "i < 512" using table_treeD(1) [OF tree _ at(2)] paths_prefix [OF at(1)] by auto
  have ram1: "ram ?s1 = add_table (ram s) ?g (p + 8 * i)" by (simp add: add_table_def)
  have pool1: "pool ?s1 = insert ?g (pool s)" "unat (next_free_page (pkv ?s1)) = Suc (unat ?n)"
    using grows by simp_all
  have left1: "free_left s = free_left ?s1 + 1" using lt pool1(2) by (simp add: free_left_def)
  have "next_free_page (pkv ?s1) \<le> free_pages (pkv ?s1)"
    using pool1(2) lt by (simp add: word_le_nat_alt)
  then have ok1: "vm_ok ?s1"
    using ok tree_add_table [OF tree new at] pool1(1) unfolding vm_ok_def by (simp add: add_table_def)
  have outside: "ram ?s1 x = ram s x" if "\<not> in_pool s x" for x
  proof -
    have "x \<noteq> ?g + of_nat k" if "k < 4096" for k
      using in_pool_page [OF ok lt that] \<open>\<not> in_pool s x\<close> by auto
    then have 1: "put_bytes st8 m ?g (replicate 4096 0) x = m x" for m by (intro outside_put) simp
    have "x \<noteq> p + 8 * i + of_nat k" if "k < 8" for k
      using in_pool_slot [OF ok p that] \<open>\<not> in_pool s x\<close> by auto
    then have "put_bytes st8 m (p + 8 * i) (le_bytes 8 v) x = m x" for m and v :: u64 by (intro outside_put) simp
    with 1 show ?thesis by (simp add: st64_def)
  qed
  have "entry_of ?s1 a = entry_of s a" for a
    using entry_add_table [OF tree new at, of a] by (simp add: entry_of_def add_table_def)
  then have grown: "grown 1 s ?s1" using ok1 left1 outside by (auto simp: grown_def)
  have nodes: "node (ram ?s1) (root_page_table (pkv ?s1)) is = (if is = ks @ [i] then Some ?g else node (ram s) ?root is)"
    if "is \<in> paths" for "is"
    using node_add_table [OF tree new at that] by (simp add: add_table_def)
  show thesis
    by (rule that [OF page_alloc_ok [OF ok left] refl grown left1]) (use nodes at(1) in simp_all)
qed

lemma walk_create_present:
  "node (ram s) (root_page_table (pkv s)) (leaf_path a) = Some t \<Longrightarrow> walk_create a s = Some (t + 8 * pt_idx a 0, s)"
  by (subst walk_create.simps) (auto simp: walk_from_node leaf_path_def split: option.splits)

lemma create_leaf_table:
  assumes "vm_ok s" "0 < free_left s" "node (ram s) (root_page_table (pkv s)) [pt_idx a 2] = Some t"
  shows "\<exists>q s'. walk_create a s = Some (q + 8 * pt_idx a 0, s') \<and> grown 1 s s' \<and>
    node (ram s') (root_page_table (pkv s')) (leaf_path a) = Some q"
proof (cases "sub (ram s) t (pt_idx a 1)")
  case None
  have path: "[pt_idx a 2] @ [pt_idx a 1] \<in> paths" "leaf_path a = [pt_idx a 2] @ [pt_idx a 1]"
    using leaf_path_paths(1) [of a] by (simp_all add: leaf_path_def)
  from create_step [OF assms(1,2) path(1) assms(3) None] obtain g s0 s1 where s1:
      "page_alloc s = Some (g, s0)" "s1 = s0\<lparr>ram := st64 (ram s0) (t + 8 * pt_idx a 1) (ptd_create (ppn g))\<rparr>"
      "grown 1 s s1" "node (ram s1) (root_page_table (pkv s1)) ([pt_idx a 2] @ [pt_idx a 1]) = Some g"
    by metis
  have "walk_from 2 (ram s) a (root_page_table (pkv s)) = Inl (t + 8 * pt_idx a 1)"
    using assms(3) None by (simp add: walk_from_node)
  then have "walk_create a s = walk_create a s1"
    by (subst walk_create.simps) (simp add: s1(1,2))
  also have "\<dots> = Some (g + 8 * pt_idx a 0, s1)" by (rule walk_create_present) (simp only: path(2) s1(4))
  finally show ?thesis using s1(3,4) path(2) by metis
next
  case (Some q)
  then have "node (ram s) (root_page_table (pkv s)) (leaf_path a) = Some q"
    using assms(3) node_snoc [of "ram s" "root_page_table (pkv s)" "[pt_idx a 2]" "pt_idx a 1"]
    by (simp add: leaf_path_def del: node.simps)
  with walk_create_present [OF this] grown_refl [OF assms(1)] show ?thesis by blast
qed

text \<open>A creating walk needs at most two pages and ends at the entry of the address.\<close>

lemma walk_create_ok:
  assumes "vm_ok s" "2 \<le> free_left s"
  shows "\<exists>q s'. walk_create a s = Some (q + 8 * pt_idx a 0, s') \<and> grown 2 s s' \<and>
    node (ram s') (root_page_table (pkv s')) (leaf_path a) = Some q"
proof (cases "node (ram s) (root_page_table (pkv s)) [pt_idx a 2]")
  case None
  let ?root = "root_page_table (pkv s)"
  have path: "[] @ [pt_idx a 2] \<in> paths" and sub: "sub (ram s) ?root (pt_idx a 2) = None"
    and root: "node (ram s) ?root [] = Some ?root"
    using None by (simp_all split: option.splits)
  show ?thesis
  proof (rule create_step [OF assms(1) _ path root sub])
    show "0 < free_left s" using assms(2) by simp
    fix g s0 s1
    assume s1: "page_alloc s = Some (g, s0)" "s1 = s0\<lparr>ram := st64 (ram s0) (?root + 8 * pt_idx a 2) (ptd_create (ppn g))\<rparr>"
      "grown 1 s s1" "free_left s = free_left s1 + 1"
      "node (ram s1) (root_page_table (pkv s1)) ([] @ [pt_idx a 2]) = Some g"
  have "walk_from 2 (ram s) a ?root = Inl (?root + 8 * pt_idx a 2)" using None by (simp add: walk_from_node)
  then have "walk_create a s = walk_create a s1"
    by (subst walk_create.simps) (simp add: s1(1,2))
  moreover obtain q s' where "walk_create a s1 = Some (q + 8 * pt_idx a 0, s')" "grown 1 s1 s'"
      "node (ram s') (root_page_table (pkv s')) (leaf_path a) = Some q"
    using create_leaf_table [OF grown_same(10) [OF s1(3)], of a g] s1(4,5) assms(2) by auto
  moreover have "grown 2 s s'" using grown_trans [OF s1(3) \<open>grown 1 s1 s'\<close>] by (simp add: numeral_2_eq_2)
  ultimately show ?thesis by auto
  qed
next
  case (Some t)
  then obtain q s' where "walk_create a s = Some (q + 8 * pt_idx a 0, s')" "grown 1 s s'"
      "node (ram s') (root_page_table (pkv s')) (leaf_path a) = Some q"
    using create_leaf_table [OF assms(1), of a t] assms(2) by auto
  moreover have "grown 2 s s'" using grown_trans [OF grown_refl [OF assms(1), of 1] \<open>grown 1 s s'\<close>]
    by (simp add: numeral_2_eq_2)
  ultimately show ?thesis by blast
qed

section \<open>Pages and their numbers\<close>

text \<open>The walk sees 27 bits of an address: the number of its page.\<close>

definition vpn :: "u64 \<Rightarrow> nat" where
  "vpn a = unat (take_bit 27 (drop_bit 12 a))"

definition page_of :: "nat \<Rightarrow> u64" where
  "page_of k = of_nat (4096 * k)"

lemma pt_idx_bit: "bit (pt_idx a l) n \<longleftrightarrow> n < 9 \<and> bit a (9 * l + 12 + n)"
proof -
  have "pt_idx a l = take_bit 9 (drop_bit (9 * l + 12) a)"
    by (simp add: pt_idx_def take_bit_eq_mask mask_eq_exp_minus_1)
  then show ?thesis by (auto simp: bit_simps)
qed

lemma same_page_vpn: "same_page a b \<longleftrightarrow> vpn a = vpn b"
proof
  assume "same_page a b"
  then have idx: "pt_idx a 2 = pt_idx b 2" "pt_idx a 1 = pt_idx b 1" "pt_idx a 0 = pt_idx b 0"
    by (simp_all add: same_page_def leaf_path_def)
  have b: "bit a (9 * l + 12 + n) = bit b (9 * l + 12 + n)" if "pt_idx a l = pt_idx b l" "n < 9" for l n
    using that pt_idx_bit [of a l n] pt_idx_bit [of b l n] by simp
  have "take_bit 27 (drop_bit 12 a) = take_bit 27 (drop_bit 12 b)"
  proof (rule bit_word_eqI)
    fix n assume "n < LENGTH(64)"
    show "bit (take_bit 27 (drop_bit 12 a)) n = bit (take_bit 27 (drop_bit 12 b)) n"
    proof (cases "n < 27")
      case True
      then consider "n < 9" | "9 \<le> n" "n < 18" | "18 \<le> n" "n < 27" by linarith
      then have "bit a (12 + n) = bit b (12 + n)"
        using b [OF idx(1), of "n - 18"] b [OF idx(2), of "n - 9"] b [OF idx(3), of n] by cases simp_all
      then show ?thesis by (simp add: bit_simps)
    qed (simp add: bit_simps)
  qed
  then show "vpn a = vpn b" by (simp add: vpn_def)
next
  assume "vpn a = vpn b"
  then have eq: "take_bit 27 (drop_bit 12 a) = take_bit 27 (drop_bit 12 b)"
    by (simp add: vpn_def word_unat_eq_iff)
  have b: "bit a (12 + n) = bit b (12 + n)" if "n < 27" for n
    using arg_cong [OF eq, of "\<lambda>w. bit w n"] that by (simp add: bit_simps)
  have "pt_idx a l = pt_idx b l" if "l \<le> 2" for l
  proof (rule bit_word_eqI)
    fix n assume "n < LENGTH(64)"
    have "n < 9 \<Longrightarrow> bit a (9 * l + 12 + n) = bit b (9 * l + 12 + n)"
      using b [of "9 * l + n"] that by (simp add: add.assoc add.left_commute)
    then show "bit (pt_idx a l) n = bit (pt_idx b l) n" by (auto simp: pt_idx_bit)
  qed
  then show "same_page a b" by (simp add: same_page_def leaf_path_def)
qed

lemma vpn_less: "vpn a < 2 ^ 27"
proof -
  have "take_bit 27 (drop_bit 12 a) \<le> mask 27" by (simp add: take_bit_eq_mask word_and_le1)
  then show ?thesis by (simp add: vpn_def word_le_nat_alt mask_eq_exp_minus_1)
qed

lemma vpn_unat: "vpn a = unat a div 4096 mod 2 ^ 27"
  by (simp add: vpn_def take_bit_eq_mod unat_mod_distrib unat_div_distrib drop_bit_eq_div)

lemma vpn_page_of [simp]: "k < 2 ^ 27 \<Longrightarrow> vpn (page_of k) = k"
  unfolding page_of_def vpn_unat by (subst unat_of_nat_u64) simp_all

lemma entry_same_page: "same_page a b \<Longrightarrow> entry m root a = entry m root b"
  by (auto simp: entry_def same_page_def split: option.split)

lemma entry_of_vpn: "entry_of s a = entry_of s (page_of (vpn a))"
  unfolding entry_of_def by (rule entry_same_page) (simp add: same_page_vpn vpn_page_of [OF vpn_less])

section \<open>Region descriptors\<close>

text \<open>
  The descriptors of regions without a file. \<open>refs_but s v n\<close>: the reference count of every
  descriptor is the number of pages whose entry points to it, \<open>n\<close> more for the descriptor \<open>v\<close>
  whose region is being entered.
\<close>

definition vmr_ok :: "'d world \<Rightarrow> bool" where
  "vmr_ok s \<longleftrightarrow> length (vmr_table (pkv s)) = MAX_VMR \<and> page (vmrs (pkv s)) \<and> vmrs (pkv s) \<noteq> 0 \<and>
     (\<forall>i<MAX_VMR. vmr_file (vmr_table (pkv s) ! i) = None) \<and>
     (\<forall>a. entry_of s a \<noteq> 0 \<and> entry_of s a AND PTE_V = 0 \<longrightarrow> (\<exists>i<MAX_VMR. entry_of s a = vmr_ptr s i))"

definition refs :: "'d world \<Rightarrow> u64 \<Rightarrow> nat" where
  "refs s e = card {k. k < 2 ^ 27 \<and> entry_of s (page_of k) = e}"

definition refs_but :: "'d world \<Rightarrow> nat \<Rightarrow> nat \<Rightarrow> bool" where
  "refs_but s v n \<longleftrightarrow> (\<forall>i<MAX_VMR. unat (vmr_refcnt (vmr_table (pkv s) ! i)) = refs s (vmr_ptr s i) + (if i = v then n else 0))"

definition vm_inv :: "'d world \<Rightarrow> bool" where
  "vm_inv s \<longleftrightarrow> vm_ok s \<and> vmr_ok s \<and> refs_but s 0 0"

text \<open>What an operation on the tables may change.\<close>

definition vm_step :: "nat \<Rightarrow> 'd world \<Rightarrow> 'd world \<Rightarrow> bool" where
  "vm_step n s s' \<longleftrightarrow> (\<exists>k\<le>n. free_left s = free_left s' + k) \<and> (\<forall>x. \<not> in_pool s x \<longrightarrow> ram s' x = ram s x) \<and>
     s' = s\<lparr>ram := ram s', pkv := (pkv s)\<lparr>next_free_page := next_free_page (pkv s'), vmr_table := vmr_table (pkv s')\<rparr>\<rparr>"

lemma vm_step_refl [simp]: "vm_step n s s"
  by (simp add: vm_step_def)

lemma vm_step_same:
  assumes "vm_step n s s'"
  shows "mmap_max s' = mmap_max s" "first_free_page (pkv s') = first_free_page (pkv s)"
    "free_pages (pkv s') = free_pages (pkv s)" "root_page_table (pkv s') = root_page_table (pkv s)"
    "vmrs (pkv s') = vmrs (pkv s)" "vm_lock (pkv s') = vm_lock (pkv s)"
    "first_free_paddr (pkv s') = first_free_paddr (pkv s)" "in_pool s' = in_pool s"
    "demand_paging (pkv s') = demand_paging (pkv s)" "brk_max (pkv s') = brk_max (pkv s)"
    "brk_min (pkv s') = brk_min (pkv s)" "brk (pkv s') = brk (pkv s)" "sent s' = sent s" "vmr_ptr s' = vmr_ptr s"
proof -
  have e: "s' = s\<lparr>ram := ram s', pkv := (pkv s)\<lparr>next_free_page := next_free_page (pkv s'), vmr_table := vmr_table (pkv s')\<rparr>\<rparr>"
    using assms by (simp add: vm_step_def)
  show "mmap_max s' = mmap_max s" "first_free_page (pkv s') = first_free_page (pkv s)"
    "free_pages (pkv s') = free_pages (pkv s)" "root_page_table (pkv s') = root_page_table (pkv s)"
    "vmrs (pkv s') = vmrs (pkv s)" "vm_lock (pkv s') = vm_lock (pkv s)"
    "first_free_paddr (pkv s') = first_free_paddr (pkv s)" "in_pool s' = in_pool s"
    "demand_paging (pkv s') = demand_paging (pkv s)" "brk_max (pkv s') = brk_max (pkv s)"
    "brk_min (pkv s') = brk_min (pkv s)" "brk (pkv s') = brk (pkv s)" "sent s' = sent s" "vmr_ptr s' = vmr_ptr s"
    by (subst e, simp add: in_pool_def fun_eq_iff sent_def vmr_ptr_def)+
qed

lemma vm_step_trans:
  assumes "vm_step n s s1" "vm_step k s1 s2"
  shows "vm_step (n + k) s s2"
proof -
  obtain i j where ij: "i \<le> n" "free_left s = free_left s1 + i" "j \<le> k" "free_left s1 = free_left s2 + j"
    using assms by (auto simp: vm_step_def)
  obtain r x y r' x' y' where "s1 = s\<lparr>ram := r, pkv := (pkv s)\<lparr>next_free_page := x, vmr_table := y\<rparr>\<rparr>"
      "s2 = s1\<lparr>ram := r', pkv := (pkv s1)\<lparr>next_free_page := x', vmr_table := y'\<rparr>\<rparr>"
    using assms unfolding vm_step_def by metis
  then have "s2 = s\<lparr>ram := ram s2, pkv := (pkv s)\<lparr>next_free_page := next_free_page (pkv s2), vmr_table := vmr_table (pkv s2)\<rparr>\<rparr>" by simp
  moreover have "\<exists>x\<le>n + k. free_left s = free_left s2 + x" using ij by (intro exI [of _ "i + j"]) simp
  ultimately show ?thesis using assms vm_step_same(8) [OF assms(1)] by (simp add: vm_step_def)
qed

lemma vm_step_mono: "vm_step n s s' \<Longrightarrow> n \<le> k \<Longrightarrow> vm_step k s s'"
  by (auto simp: vm_step_def)

lemma grown_step:
  assumes "grown n s s'"
  shows "vm_step n s s'"
proof -
  obtain r x where "s' = s\<lparr>ram := r, pkv := (pkv s)\<lparr>next_free_page := x\<rparr>\<rparr>"
    using assms unfolding grown_def by metis
  then have "s' = s\<lparr>ram := ram s', pkv := (pkv s)\<lparr>next_free_page := next_free_page (pkv s'), vmr_table := vmr_table (pkv s')\<rparr>\<rparr>"
    by simp
  then show ?thesis using assms by (simp add: grown_def vm_step_def)
qed

lemma set_vmr_same [simp]:
  "ram (set_vmr i v s) = ram s" "root_page_table (pkv (set_vmr i v s)) = root_page_table (pkv s)"
  "entry_of (set_vmr i v s) = entry_of s" "free_left (set_vmr i v s) = free_left s"
  "vmr_table (pkv (set_vmr i v s)) = (vmr_table (pkv s))[i := v]" "vmr_ptr (set_vmr i v s) = vmr_ptr s"
  "pool (set_vmr i v s) = pool s" "vm_ok (set_vmr i v s) = vm_ok s" "vmrs (pkv (set_vmr i v s)) = vmrs (pkv s)"
  "walk a (set_vmr i v s) = walk a s" "mmap_max (set_vmr i v s) = mmap_max s" "refs (set_vmr i v s) = refs s"
  by (simp_all add: set_vmr_def entry_of_def free_left_def vmr_ptr_def pool_def pool_page_def vm_ok_def walk_def
      refs_def fun_eq_iff)

lemma set_vmr_step: "vm_step n s (set_vmr i v s)"
  by (simp add: vm_step_def set_vmr_def free_left_def)

lemma set_pte_same [simp]:
  "pkv (set_pte p v s) = pkv s" "mmap_max (set_pte p v s) = mmap_max s" "free_left (set_pte p v s) = free_left s"
  "vmr_ptr (set_pte p v s) = vmr_ptr s"
  by (simp_all add: set_pte_def free_left_def vmr_ptr_def fun_eq_iff)

text \<open>Setting the entry a walk has found.\<close>

lemma walk_leaf:
  assumes "vm_ok s" "node (ram s) (root_page_table (pkv s)) (leaf_path a) = Some t"
  shows "walk a s = t + 8 * pt_idx a 0" "walk a s \<noteq> 0" "ld64 (ram s) (walk a s) = entry_of s a"
    "vm_ok (set_pte (walk a s) v s)" "vm_step n s (set_pte (walk a s) v s)"
    "entry_of (set_pte (walk a s) v s) b = (if vpn a = vpn b then v else entry_of s b)"
proof -
  show w: "walk a s = t + 8 * pt_idx a 0" using assms(2) by (simp add: walk_node)
  note tree = tree_of [OF assms(1)]
  have t: "t \<in> pool s" "page t" using table_treeD [OF tree leaf_path_paths(1) assms(2)] by simp_all
  obtain j where n: "j < unat (next_free_page (pkv s))" "t = pool_page s j" using t(1) by (auto simp: pool_def)
  then have "unat t = unat (first_free_page (pkv s)) + 4096 * j"
    using unat_pool_page [OF assms(1)] next_le [OF assms(1)] by simp
  moreover have "0 < unat (first_free_page (pkv s))"
    using assms(1) by (auto simp: vm_ok_def DRAM_BASE_def word_le_nat_alt)
  ultimately have "0 < unat (walk a s)" using unat_slot [OF t(2) pt_idx_less] by (simp add: w)
  then show "walk a s \<noteq> 0" by auto
  show "ld64 (ram s) (walk a s) = entry_of s a" using assms(2) by (simp add: w entry_of_def entry_def)
  have len: "length (leaf_path a) = 2" by (simp add: leaf_path_def)
  show "vm_ok (set_pte (walk a s) v s)"
    using assms(1) tree_set_leaf [OF tree leaf_path_paths(1) len assms(2) pt_idx_less]
    by (simp add: vm_ok_def w set_pte_def pool_def pool_page_def)
  have "ram (set_pte (walk a s) v s) x = ram s x" if "\<not> in_pool s x" for x
  proof -
    have "x \<noteq> t + 8 * pt_idx a 0 + of_nat k" if "k < 8" for k
      using in_pool_slot [OF assms(1) t(1) pt_idx_less that] \<open>\<not> in_pool s x\<close> by auto
    then show ?thesis unfolding w set_pte_def st64_def by simp (rule outside_put, simp)
  qed
  then show "vm_step n s (set_pte (walk a s) v s)" by (simp add: vm_step_def) (simp add: set_pte_def)
  show "entry_of (set_pte (walk a s) v s) b = (if vpn a = vpn b then v else entry_of s b)"
    using entry_set_leaf [OF tree assms(2), of v b] by (simp add: w entry_of_def same_page_vpn set_pte_def)
qed

lemma walk_none:
  "node (ram s) (root_page_table (pkv s)) (leaf_path a) = None \<Longrightarrow> walk a s = 0 \<and> entry_of s a = 0"
  by (simp add: walk_node entry_of_def entry_def)

lemma walk_present:
  assumes "entry_of s a \<noteq> 0"
  obtains t where "node (ram s) (root_page_table (pkv s)) (leaf_path a) = Some t"
  using assms walk_none [of s a] by (cases "node (ram s) (root_page_table (pkv s)) (leaf_path a)") auto

lemma avail_iff:
  assumes "vm_ok s"
  shows "walk a s = 0 \<or> ld64 (ram s) (walk a s) = 0 \<longleftrightarrow> entry_of s a = 0"
  using walk_none [of s a] walk_leaf(2,3) [OF assms, of a]
  by (cases "node (ram s) (root_page_table (pkv s)) (leaf_path a)") auto

end
