(* ===== verification/Regions.thy ===== *)
theory Regions
  imports VmProps
begin

text \<open>
  The operations on mappings: what each of them does to the entries of the page table and to the
  descriptors, on regions without a file. All statements here are total: the operation returns.
\<close>

section \<open>Descriptors and the entries that point to them\<close>

lemma page_unat_bound: "page t \<Longrightarrow> unat t + 4096 \<le> 2 ^ 64"
  using unat_u64_less [of t] by (auto simp: page_def elim!: dvdE)

lemma unat_vmr_ptr:
  assumes "vmr_ok s" "i < MAX_VMR"
  shows "unat (vmr_ptr s i) = unat (vmrs (pkv s)) + 40 * i"
proof -
  have i: "40 * i < 4096" using assms(2) by (simp add: MAX_VMR_def)
  then have "unat (of_nat (40 * i) :: u64) = 40 * i" by (intro unat_of_nat_u64) simp
  moreover have "unat (vmrs (pkv s)) + 4096 \<le> 2 ^ 64" using assms(1) page_unat_bound by (simp add: vmr_ok_def)
  ultimately show ?thesis
    using unat_add_no_wrap [of "vmrs (pkv s)" "of_nat (40 * i)"] i by (simp add: vmr_ptr_def)
qed

lemma vmr_ptr_eq_iff:
  assumes "vmr_ok s" "i < MAX_VMR" "j < MAX_VMR"
  shows "vmr_ptr s i = vmr_ptr s j \<longleftrightarrow> i = j"
  using unat_vmr_ptr [OF assms(1,2)] unat_vmr_ptr [OF assms(1,3)]
  by (metis add_left_cancel mult_cancel1 zero_neq_numeral)

lemma vmr_of_ptr [simp]:
  assumes "vmr_ok s" "i < MAX_VMR"
  shows "vmr_of s (vmr_ptr s i) = i"
proof -
  have "40 * i < 2 ^ 64" using assms(2) by (simp add: MAX_VMR_def)
  then have "unat (of_nat (40 * i) :: u64) = 40 * i" by (rule unat_of_nat_u64)
  moreover have "vmr_ptr s i - vmrs (pkv s) = of_nat (40 * i)" by (simp add: vmr_ptr_def)
  ultimately show ?thesis by (simp only: vmr_of_def)
qed

lemma even_and_1: "2 dvd unat (w :: u64) \<Longrightarrow> w AND 1 = 0"
proof -
  assume "2 dvd unat w"
  then have "unat (w mod 2) = 0" by (simp add: unat_mod_distrib)
  then show "w AND 1 = 0" by (simp add: and_one_eq unat_eq_zero)
qed

lemma vmr_ptr_not_valid:
  assumes "vmr_ok s" "i < MAX_VMR"
  shows "vmr_ptr s i AND PTE_V = 0" "vmr_ptr s i \<noteq> 0"
proof -
  have "2 dvd unat (vmrs (pkv s))"
    using assms(1) dvd_trans [of 2 4096 "unat (vmrs (pkv s))"] by (simp add: vmr_ok_def page_def)
  then show "vmr_ptr s i AND PTE_V = 0"
    unfolding PTE_V_def by (intro even_and_1) (simp add: unat_vmr_ptr [OF assms])
  have "vmrs (pkv s) \<noteq> 0" using assms(1) by (simp add: vmr_ok_def)
  then have "0 < unat (vmrs (pkv s))" by (simp add: unat_gt_0)
  then show "vmr_ptr s i \<noteq> 0" using unat_vmr_ptr [OF assms] by auto
qed

lemma entry_vmr:
  assumes "vmr_ok s" "entry_of s a \<noteq> 0" "entry_of s a AND PTE_V = 0"
  obtains i where "i < MAX_VMR" "entry_of s a = vmr_ptr s i" "vmr_of s (entry_of s a) = i"
  using assms vmr_of_ptr [OF assms(1)] by (auto simp: vmr_ok_def)

text \<open>Counting the entries with a given value, before and after one of them changes.\<close>

lemma refs_set:
  assumes "\<And>b. entry_of s' b = (if vpn a = vpn b then x else entry_of s b)"
  shows "refs s' e + (if entry_of s a = e then 1 else 0) = refs s e + (if x = e then 1 else 0)"
proof -
  let ?S = "{k. k < 2 ^ 27 \<and> entry_of s (page_of k) = e}" and ?S' = "{k. k < 2 ^ 27 \<and> entry_of s' (page_of k) = e}"
  have fin: "finite ?S" "finite ?S'" by simp_all
  have at: "vpn a \<in> ?S \<longleftrightarrow> entry_of s a = e" "vpn a \<in> ?S' \<longleftrightarrow> x = e"
    using vpn_less [of a] entry_of_vpn [of s a] by (simp_all add: assms)
  have rest: "?S - {vpn a} = ?S' - {vpn a}" by (auto simp: assms)
  have "card ?S = card (?S - {vpn a}) + (if entry_of s a = e then 1 else 0)"
    using card.remove [OF fin(1), of "vpn a"] at(1) by (cases "entry_of s a = e") simp_all
  moreover have "card ?S' = card (?S' - {vpn a}) + (if x = e then 1 else 0)"
    using card.remove [OF fin(2), of "vpn a"] at(2) by (cases "x = e") simp_all
  ultimately show ?thesis unfolding refs_def rest by linarith
qed

lemma refs_pos: "0 < refs s (entry_of s a)"
proof -
  have "vpn a \<in> {k. k < 2 ^ 27 \<and> entry_of s (page_of k) = entry_of s a}"
    using vpn_less [of a] entry_of_vpn [of s a] by simp
  then show ?thesis unfolding refs_def by (subst card_gt_0_iff) auto
qed

lemma refs_cong: "(\<And>a. entry_of s' a = entry_of s a) \<Longrightarrow> refs s' e = refs s e"
  by (simp add: refs_def)

section \<open>Unmapping one page\<close>

text \<open>What is the same, and what holds of the entries, when the pages of \<open>K\<close> get the entry \<open>x\<close>.\<close>

definition sets_entries :: "nat set \<Rightarrow> u64 \<Rightarrow> 'd world \<Rightarrow> 'd world \<Rightarrow> bool" where
  "sets_entries K x s s' \<longleftrightarrow> (\<forall>a. entry_of s' a = (if vpn a \<in> K then x else entry_of s a))"

text \<open>The regions' protection and extent stay what they are.\<close>

definition same_regions :: "'d world \<Rightarrow> 'd world \<Rightarrow> bool" where
  "same_regions s s' \<longleftrightarrow> (\<forall>i<MAX_VMR. 
     \<exists>n. vmr_table (pkv s') ! i = (vmr_table (pkv s) ! i)\<lparr>vmr_refcnt := n\<rparr>)"

lemma same_regions_refl [simp]: "same_regions s s"
  unfolding same_regions_def
proof (intro allI impI)
  fix i show "\<exists>n. vmr_table (pkv s) ! i = (vmr_table (pkv s) ! i)\<lparr>vmr_refcnt := n\<rparr>"
    by (rule exI [of _ "vmr_refcnt (vmr_table (pkv s) ! i)"]) simp
qed

lemma same_regions_table: "vmr_table (pkv s') = vmr_table (pkv s) \<Longrightarrow> same_regions s s'"
  using same_regions_refl [of s] by (simp only: same_regions_def)

lemma same_regions_set_pte [simp]: "same_regions s (set_pte p x s') \<longleftrightarrow> same_regions s s'"
  by (simp add: same_regions_def)

lemma same_regions_trans: "same_regions s s1 \<Longrightarrow> same_regions s1 s2 \<Longrightarrow> same_regions s s2"
  unfolding same_regions_def
proof (intro allI impI)
  fix i assume i: "i < MAX_VMR"
    and "\<forall>i<MAX_VMR. \<exists>n. vmr_table (pkv s1) ! i = (vmr_table (pkv s) ! i)\<lparr>vmr_refcnt := n\<rparr>"
    and "\<forall>i<MAX_VMR. \<exists>n. vmr_table (pkv s2) ! i = (vmr_table (pkv s1) ! i)\<lparr>vmr_refcnt := n\<rparr>"
  then obtain n k where "vmr_table (pkv s1) ! i = (vmr_table (pkv s) ! i)\<lparr>vmr_refcnt := n\<rparr>"
      "vmr_table (pkv s2) ! i = (vmr_table (pkv s1) ! i)\<lparr>vmr_refcnt := k\<rparr>" by blast
  then show "\<exists>n. vmr_table (pkv s2) ! i = (vmr_table (pkv s) ! i)\<lparr>vmr_refcnt := n\<rparr>" by auto
qed

lemma set_entry_inv:
  assumes "vm_ok s" "vmr_ok s" "node (ram s) (root_page_table (pkv s)) (leaf_path a) = Some t"
    and "x = 0 \<or> x AND PTE_V \<noteq> 0 \<or> (\<exists>i<MAX_VMR. x = vmr_ptr s i)"
  shows "vm_ok (set_pte (walk a s) x s)" "vmr_ok (set_pte (walk a s) x s)"
    "sets_entries {vpn a} x s (set_pte (walk a s) x s)" "vm_step n s (set_pte (walk a s) x s)"
  using assms walk_leaf(4-6) [OF assms(1,3)] by (auto simp: sets_entries_def vmr_ok_def)

lemma node_set_entry:
  assumes "vm_ok s" "node (ram s) (root_page_table (pkv s)) (leaf_path a) = Some t"
  shows "node (ram (set_pte (walk a s) x s)) (root_page_table (pkv s)) (leaf_path b) =
    node (ram s) (root_page_table (pkv s)) (leaf_path b)"
proof -
  have "length (leaf_path a) = 2" by (simp add: leaf_path_def)
  then show ?thesis
    using node_set_leaf [OF tree_of [OF assms(1)] leaf_path_paths(1) _ assms(2) pt_idx_less leaf_path_paths(1)]
    by (simp add: walk_leaf(1) [OF assms] set_pte_def)
qed

definition unmaps :: "nat set \<Rightarrow> 'd world \<Rightarrow> 'd world \<Rightarrow> bool" where
  "unmaps K s s' \<longleftrightarrow> vm_ok s' \<and> vmr_ok s' \<and> sets_entries K 0 s s' \<and> vm_step 0 s s' \<and> same_regions s s' \<and>
     (\<forall>a. node (ram s') (root_page_table (pkv s')) (leaf_path a) = node (ram s) (root_page_table (pkv s)) (leaf_path a))"

lemma unmaps_refl: "vm_ok s \<Longrightarrow> vmr_ok s \<Longrightarrow> unmaps {} s s"
  by (simp add: unmaps_def sets_entries_def)

lemma unmaps_trans: "unmaps K s s1 \<Longrightarrow> unmaps L s1 s2 \<Longrightarrow> unmaps (K \<union> L) s s2"
  using vm_step_trans [of 0 s s1 0 s2] same_regions_trans [of s s1 s2] by (auto simp: unmaps_def sets_entries_def)

lemma unmaps_none:
  assumes "vm_ok s" "vmr_ok s" "entry_of s a = 0"
  shows "unmaps {vpn a} s s"
proof -
  have "entry_of s b = 0" if "vpn b = vpn a" for b using assms(3) entry_of_vpn [of s a] entry_of_vpn [of s b] that by simp
  then show ?thesis using assms(1,2) by (simp add: unmaps_def sets_entries_def)
qed

text \<open>Dropping one reference to a descriptor.\<close>

lemma vmr_decref_runs:
  assumes "vmr_ok s" "i < MAX_VMR" "0 < unat (vmr_refcnt (vmr_table (pkv s) ! i))"
  obtains s1 where "vmr_decref P i 1 s = Some s1"
    "s1 = set_vmr i ((vmr_table (pkv s) ! i)\<lparr>vmr_refcnt := vmr_refcnt (vmr_table (pkv s) ! i) - 1\<rparr>) s"
    "unat (vmr_refcnt (vmr_table (pkv s1) ! i)) = unat (vmr_refcnt (vmr_table (pkv s) ! i)) - 1"
    "vmr_ok s1" "same_regions s s1"
proof -
  let ?v = "vmr_table (pkv s) ! i" let ?s1 = "set_vmr i (?v\<lparr>vmr_refcnt := vmr_refcnt ?v - 1\<rparr>) s"
  have len: "i < length (vmr_table (pkv s))" and nofile: "vmr_file ?v = None"
    using assms(1,2) by (simp_all add: vmr_ok_def)
  show thesis
  proof (rule that [of ?s1])
    show "vmr_decref P i 1 s = Some ?s1" by (simp add: vmr_decref_def Let_def nofile)
    have "vmr_refcnt ?v \<noteq> 0" using assms(3) by auto
    then show "unat (vmr_refcnt (vmr_table (pkv ?s1) ! i)) = unat (vmr_refcnt ?v) - 1"
      using len by (simp add: unat_minus_one)
    show "vmr_ok ?s1" using assms(1) len by (auto simp: vmr_ok_def nth_list_update)
    show "same_regions s ?s1"
      unfolding same_regions_def
    proof (intro allI impI)
      fix j assume "j < MAX_VMR"
      show "\<exists>n. vmr_table (pkv ?s1) ! j = (vmr_table (pkv s) ! j)\<lparr>vmr_refcnt := n\<rparr>"
        using len by (intro exI [of _ "vmr_refcnt (vmr_table (pkv ?s1) ! j)"]) (simp add: nth_list_update)
    qed
  qed simp
qed

lemma munmap_page:
  assumes "vm_ok s" "vmr_ok s" "refs_but s v n" "a < lim"
  obtains s1 where "munmap_loop P a lim s = munmap_loop P (a + 4096) lim s1" "unmaps {vpn a} s s1" "refs_but s1 v n"
proof (cases "entry_of s a = 0")
  case True
  show thesis
  proof (rule that [OF _ unmaps_none [OF assms(1,2) True] assms(3)])
    show "munmap_loop P a lim s = munmap_loop P (a + 4096) lim s"
      using assms(4) True avail_iff [OF assms(1), of a] by (subst munmap_loop.simps) (simp add: RISCV_PGSIZE_def)
  qed
next
  case False
  then obtain t where t: "node (ram s) (root_page_table (pkv s)) (leaf_path a) = Some t" by (rule walk_present)
  note pte = walk_leaf(2,3) [OF assms(1) t]
  have run: "munmap_loop P a lim s =
     Option.bind (if entry_of s a AND PTE_V = 0 then vmr_decref P (vmr_of s (entry_of s a)) 1 s else Some s)
       (\<lambda>s'. munmap_loop P (a + 4096) lim (set_pte (walk a s) 0 s'))"
    using assms(4) False pte
    by (subst munmap_loop.simps) (simp add: RISCV_PGSIZE_def Let_def)
  show thesis
  proof (cases "entry_of s a AND PTE_V = 0")
    case False
    let ?s1 = "set_pte (walk a s) 0 s"
    note set = set_entry_inv [OF assms(1,2) t, of 0]
    show thesis
    proof (rule that)
      show "munmap_loop P a lim s = munmap_loop P (a + 4096) lim ?s1" using False run by simp
      show "unmaps {vpn a} s ?s1" using set node_set_entry [OF assms(1) t] by (simp add: unmaps_def)
      have "refs ?s1 (vmr_ptr s i) = refs s (vmr_ptr s i)" if "i < MAX_VMR" for i
        using refs_set [of ?s1 a 0 s "vmr_ptr s i"] walk_leaf(6) [OF assms(1) t] vmr_ptr_not_valid [OF assms(2) that] False
        by (auto split: if_splits)
      then show "refs_but ?s1 v n" using assms(3) by (simp add: refs_but_def)
    qed
  next
    case True
    obtain i where i: "i < MAX_VMR" "entry_of s a = vmr_ptr s i" "vmr_of s (entry_of s a) = i"
      using entry_vmr [OF assms(2) False True] by metis
    have cnt: "unat (vmr_refcnt (vmr_table (pkv s) ! i)) = refs s (vmr_ptr s i) + (if i = v then n else 0)"
      using assms(3) i(1) by (simp add: refs_but_def)
    then have "0 < unat (vmr_refcnt (vmr_table (pkv s) ! i))" using refs_pos [of s a] i(2) by simp
    from vmr_decref_runs [OF assms(2) i(1) this, of P] obtain s0 where s0: "vmr_decref P i 1 s = Some s0"
        "s0 = set_vmr i ((vmr_table (pkv s) ! i)\<lparr>vmr_refcnt := vmr_refcnt (vmr_table (pkv s) ! i) - 1\<rparr>) s"
        "unat (vmr_refcnt (vmr_table (pkv s0) ! i)) = unat (vmr_refcnt (vmr_table (pkv s) ! i)) - 1"
        "vmr_ok s0" "same_regions s s0"
      by metis
    have same: "node (ram s0) (root_page_table (pkv s0)) = node (ram s) (root_page_table (pkv s))"
      "entry_of s0 = entry_of s" "vmr_ptr s0 = vmr_ptr s" "walk a s0 = walk a s" "vm_ok s0" "refs s0 = refs s"
      using assms(1) by (simp_all add: s0(2))
    let ?s1 = "set_pte (walk a s0) 0 s0"
    have t0: "node (ram s0) (root_page_table (pkv s0)) (leaf_path a) = Some t" using t by (simp add: same)
    note set = set_entry_inv [OF same(5) s0(4) t0, of 0]
    show thesis
    proof (rule that)
      show "munmap_loop P a lim s = munmap_loop P (a + 4096) lim ?s1" using True run i(3) s0(1) by (simp add: same)
      have "vm_step 0 s ?s1" using vm_step_trans [of 0 s s0 0 ?s1] set_vmr_step [of 0 s] set(4) by (simp add: s0(2))
      then show "unmaps {vpn a} s ?s1"
        using set node_set_entry [OF same(5) t0] s0(5) by (simp add: unmaps_def same sets_entries_def)
      have "unat (vmr_refcnt (vmr_table (pkv ?s1) ! j)) = refs ?s1 (vmr_ptr s j) + (if j = v then n else 0)" if j: "j < MAX_VMR" for j
      proof -
        have "refs ?s1 (vmr_ptr s j) + (if j = i then 1 else 0) = refs s (vmr_ptr s j)"
          using refs_set [of ?s1 a 0 s0 "vmr_ptr s j"] walk_leaf(6) [OF same(5) t0] vmr_ptr_not_valid [OF assms(2) j]
            vmr_ptr_eq_iff [OF assms(2) i(1) j] i(2) by (auto simp: same split: if_splits)
        moreover have "unat (vmr_refcnt (vmr_table (pkv s) ! j)) = refs s (vmr_ptr s j) + (if j = v then n else 0)"
          using assms(3) j by (simp add: refs_but_def)
        ultimately show ?thesis using s0(3) by (cases "j = i") (auto simp: s0(2))
      qed
      then show "refs_but ?s1 v n" by (simp add: refs_but_def same)
    qed
  qed
qed

section \<open>Unmapping and mapping a range\<close>

definition pages_between :: "u64 \<Rightarrow> u64 \<Rightarrow> nat set" where
  "pages_between a lim = {k. unat a \<le> 4096 * k \<and> 4096 * k < unat lim}"

lemma pages_between_empty: "\<not> a < lim \<Longrightarrow> pages_between a lim = {}"
  by (auto simp: pages_between_def word_less_nat_alt)

lemma pages_between_step:
  assumes "a < lim" "page a" "unat lim \<le> 2 ^ 32"
  shows "pages_between a lim = insert (vpn a) (pages_between (a + 4096) lim)" "vpn a \<notin> pages_between (a + 4096) lim"
    "page (a + 4096)" "unat (a + 4096) = unat a + 4096"
proof -
  have lt: "unat a < unat lim" using assms(1) by (simp add: word_less_nat_alt)
  obtain j where j: "unat a = 4096 * j" using assms(2) by (auto simp: page_def elim!: dvdE)
  show next_page: "unat (a + 4096) = unat a + 4096"
    using unat_add_no_wrap [of a 4096] lt assms(3) by simp
  then show "page (a + 4096)" using j by (simp add: page_def)
  have "j < 2 ^ 27" using lt assms(3) j by simp
  then have v: "vpn a = j" by (simp add: vpn_unat j)
  show "pages_between a lim = insert (vpn a) (pages_between (a + 4096) lim)"
    using lt by (auto simp: pages_between_def next_page v j)
  show "vpn a \<notin> pages_between (a + 4096) lim" by (simp add: pages_between_def next_page v j)
qed

lemma finite_pages_between [simp]: "finite (pages_between a lim)"
  by (rule finite_subset [of _ "{..unat lim}"]) (auto simp: pages_between_def)

lemma munmap_runs:
  assumes "vm_ok s" "vmr_ok s" "refs_but s v n" "page a" "unat lim \<le> 2 ^ 32"
  shows "\<exists>s'. munmap_loop P a lim s = Some s' \<and> unmaps (pages_between a lim) s s' \<and> refs_but s' v n"
  using assms
proof (induction "unat lim - unat a" arbitrary: a s rule: less_induct)
  case less
  show ?case
  proof (cases "a < lim")
    case False
    then show ?thesis
      using less.prems by (subst munmap_loop.simps) (simp add: pages_between_empty unmaps_refl)
  next
    case True
    note step = pages_between_step [OF True less.prems(4,5)]
    obtain s1 where s1: "munmap_loop P a lim s = munmap_loop P (a + 4096) lim s1" "unmaps {vpn a} s s1" "refs_but s1 v n"
      using munmap_page [OF less.prems(1-3) True] by metis
    have "unat lim - unat (a + 4096) < unat lim - unat a" using True step(4) by (simp add: word_less_nat_alt)
    from less.hyps [OF this _ _ s1(3) step(3) less.prems(5)] s1(2) obtain s' where
        s': "munmap_loop P (a + 4096) lim s1 = Some s'" "unmaps (pages_between (a + 4096) lim) s1 s'" "refs_but s' v n"
      by (auto simp: unmaps_def)
    then show ?thesis using s1(1) unmaps_trans [OF s1(2) s'(2)] by (simp add: step(1))
  qed
qed

text \<open>Mapping a range to a descriptor.\<close>

definition maps :: "nat \<Rightarrow> nat set \<Rightarrow> 'd world \<Rightarrow> 'd world \<Rightarrow> bool" where
  "maps v K s s' \<longleftrightarrow> vm_ok s' \<and> vmr_ok s' \<and> sets_entries K (vmr_ptr s v) s s' \<and> vm_step (2 * card K) s s' \<and> same_regions s s'"

lemma grown_vmr_ok:
  assumes "grown n s s'" "vmr_ok s"
  shows "vmr_ok s'" "vmr_ptr s' = vmr_ptr s" "same_regions s s'" "refs_but s' = refs_but s" "vmr_table (pkv s') = vmr_table (pkv s)"
proof -
  note same = grown_same [OF assms(1)]
  show p: "vmr_ptr s' = vmr_ptr s" by (simp add: vmr_ptr_def same fun_eq_iff)
  have e: "entry_of s' a = entry_of s a" for a using assms(1) by (simp add: grown_def)
  show "vmr_ok s'" using assms(2) by (simp add: vmr_ok_def same e p)
  show "same_regions s s'" by (simp add: same_regions_table same)
  show "refs_but s' = refs_but s" by (simp add: refs_but_def fun_eq_iff same p refs_cong [OF e])
  show "vmr_table (pkv s') = vmr_table (pkv s)" by (simp add: same)
qed

lemma mmap_page:
  assumes "vm_ok s" "vmr_ok s" "refs_but s v (Suc n)" "v < MAX_VMR" "a < lim" "page a" "unat lim \<le> 2 ^ 32" "2 \<le> free_left s"
  obtains s1 where "mmap_loop P v a lim s = mmap_loop P v (a + 4096) lim s1" "maps v {vpn a} s s1" "refs_but s1 v n"
proof -
  note step = pages_between_step [OF assms(5-7)]
  obtain q s0 where s0: "walk_create a s = Some (q + 8 * pt_idx a 0, s0)" "grown 2 s s0"
      "node (ram s0) (root_page_table (pkv s0)) (leaf_path a) = Some q"
    using walk_create_ok [OF assms(1,8)] by metis
  note ok0 = grown_same(10) [OF s0(2)] grown_vmr_ok [OF s0(2) assms(2)]
  have pte: "q + 8 * pt_idx a 0 = walk a s0" using walk_leaf(1) [OF ok0(1) s0(3)] by simp
  have refs0: "refs_but s0 v (Suc n)" using assms(3) ok0(5) by simp
  have "\<exists>s2. (if entry_of s0 a \<noteq> 0 then do_munmap_range P a RISCV_PGSIZE s0 else Some s0) = Some s2 \<and>
      unmaps {vpn a} s0 s2 \<and> refs_but s2 v (Suc n)"
  proof (cases "entry_of s0 a = 0")
    case True
    then show ?thesis using unmaps_none [OF ok0(1,2) True] refs0 by simp
  next
    case False
    have "a < a + 4096" using step(4) by (simp add: word_less_nat_alt)
    then obtain s2 where "munmap_loop P a (a + 4096) s0 = munmap_loop P (a + 4096) (a + 4096) s2" "unmaps {vpn a} s0 s2"
        "refs_but s2 v (Suc n)"
      using munmap_page [OF ok0(1,2) refs0] by metis
    moreover have "munmap_loop P (a + 4096) (a + 4096) s2 = Some s2" by (subst munmap_loop.simps) simp
    ultimately show ?thesis using False by (simp add: do_munmap_range_def RISCV_PGSIZE_def)
  qed
  then obtain s2 where s2: "(if entry_of s0 a \<noteq> 0 then do_munmap_range P a RISCV_PGSIZE s0 else Some s0) = Some s2"
      "unmaps {vpn a} s0 s2" "refs_but s2 v (Suc n)" by blast
  have ok2: "vm_ok s2" "vmr_ok s2" "vm_step 0 s0 s2" and set2: "sets_entries {vpn a} 0 s0 s2" and reg2: "same_regions s0 s2"
    and t2: "node (ram s2) (root_page_table (pkv s2)) (leaf_path a) = Some q"
    using s2(2) s0(3) by (simp_all add: unmaps_def)
  have walk2: "walk a s2 = walk a s0" using walk_leaf(1) [OF ok2(1) t2] pte by simp
  have ptr2: "vmr_ptr s2 = vmr_ptr s" using vm_step_same(14) [OF ok2(3)] ok0(3) by simp
  let ?x = "vmr_ptr s v" let ?s1 = "set_pte (walk a s2) ?x s2"
  note set = set_entry_inv [OF ok2(1,2) t2, of ?x]
  have x: "\<exists>i<MAX_VMR. ?x = vmr_ptr s2 i" using assms(4) ptr2 by auto
  show thesis
  proof (rule that)
    show "mmap_loop P v a lim s = mmap_loop P v (a + 4096) lim ?s1"
      using assms(5) s0(1) s2(1) walk_leaf(2,3) [OF ok0(1) s0(3)]
      by (subst mmap_loop.simps) (simp add: pte walk2 ptr2 RISCV_PGSIZE_def)
    have "vm_step 2 s ?s1"
      using vm_step_trans [OF grown_step [OF s0(2)] vm_step_trans [OF ok2(3) set(4) [of 0]]] x by simp
    moreover have "sets_entries {vpn a} ?x s ?s1"
      using set(3) set2 x s0(2) by (simp add: sets_entries_def grown_def)
    ultimately show "maps v {vpn a} s ?s1"
      using set(1,2) x same_regions_trans [OF ok0(4) reg2] by (simp add: maps_def)
    have "unat (vmr_refcnt (vmr_table (pkv ?s1) ! i)) = refs ?s1 (vmr_ptr s i) + (if i = v then n else 0)"
      if i: "i < MAX_VMR" for i
    proof -
      have "entry_of s2 a = 0" using set2 by (simp add: sets_entries_def)
      then have "refs ?s1 (vmr_ptr s i) = refs s2 (vmr_ptr s i) + (if i = v then 1 else 0)"
        using refs_set [of ?s1 a ?x s2 "vmr_ptr s i"] walk_leaf(6) [OF ok2(1) t2] vmr_ptr_not_valid [OF assms(2) i]
          vmr_ptr_eq_iff [OF assms(2,4) i] by (auto split: if_splits)
      moreover have "unat (vmr_refcnt (vmr_table (pkv s2) ! i)) = refs s2 (vmr_ptr s i) + (if i = v then Suc n else 0)"
        using s2(3) i by (simp add: refs_but_def ptr2)
      ultimately show ?thesis by simp
    qed
    then show "refs_but ?s1 v n" by (simp add: refs_but_def ptr2)
  qed
qed

lemma mmap_runs:
  assumes "vm_ok s" "vmr_ok s" "refs_but s v (card (pages_between a lim))" "v < MAX_VMR" "page a" "unat lim \<le> 2 ^ 32"
    and "2 * card (pages_between a lim) \<le> free_left s"
  shows "\<exists>s'. mmap_loop P v a lim s = Some s' \<and> maps v (pages_between a lim) s s' \<and> refs_but s' v 0"
  using assms
proof (induction "unat lim - unat a" arbitrary: a s rule: less_induct)
  case less
  show ?case
  proof (cases "a < lim")
    case False
    then show ?thesis
      using less.prems by (subst mmap_loop.simps) (simp add: pages_between_empty maps_def sets_entries_def)
  next
    case True
    note step = pages_between_step [OF True less.prems(5,6)]
    let ?n = "card (pages_between (a + 4096) lim)"
    have card: "card (pages_between a lim) = Suc ?n" using step(2) by (simp add: step(1))
    obtain s1 where s1: "mmap_loop P v a lim s = mmap_loop P v (a + 4096) lim s1" "maps v {vpn a} s s1" "refs_but s1 v ?n"
      using mmap_page [OF less.prems(1,2) _ less.prems(4) True less.prems(5,6), of ?n] less.prems(3,7) by (auto simp: card)
    have m1: "vm_ok s1" "vmr_ok s1" "vm_step 2 s s1" "sets_entries {vpn a} (vmr_ptr s v) s s1" "same_regions s s1"
      using s1(2) by (simp_all add: maps_def)
    have ptr: "vmr_ptr s1 = vmr_ptr s" by (rule vm_step_same(14) [OF m1(3)])
    have left: "2 * ?n \<le> free_left s1" using m1(3) less.prems(7) by (auto simp: vm_step_def card)
    have "unat lim - unat (a + 4096) < unat lim - unat a" using True step(4) by (simp add: word_less_nat_alt)
    from less.hyps [OF this m1(1,2) s1(3) less.prems(4) step(3) less.prems(6) left] obtain s' where
        s': "mmap_loop P v (a + 4096) lim s1 = Some s'" "maps v (pages_between (a + 4096) lim) s1 s'" "refs_but s' v 0"
      by auto
    have "maps v (pages_between a lim) s s'"
      using s'(2) m1(4) vm_step_trans [OF m1(3), of "2 * ?n" s'] same_regions_trans [OF m1(5), of s']
      by (auto simp: maps_def ptr sets_entries_def step(1) card step(2))
    then show ?thesis using s'(1,3) s1(1) by simp
  qed
qed

section \<open>The system calls\<close>

text \<open>
  The view a program has of its pages: not mapped, promised with a protection, or present. The
  descriptors and the page tables are the implementation of this map.
\<close>

datatype page_state = Unmapped | Reserved u32 | Present u64

definition view :: "'d world \<Rightarrow> nat \<Rightarrow> page_state" where
  "view s k = (let e = entry_of s (page_of k) in if e = 0 then Unmapped
     else if e AND PTE_V = 0 then Reserved (vmr_prot (vmr_table (pkv s) ! vmr_of s e)) else Present e)"

lemma view_sets:
  assumes "sets_entries K x s s'" "same_regions s s'" "vmr_ok s" "vmrs (pkv s') = vmrs (pkv s)" "k < 2 ^ 27"
  shows "k \<notin> K \<Longrightarrow> view s' k = view s k"
    "k \<in> K \<Longrightarrow> x = 0 \<Longrightarrow> view s' k = Unmapped"
    "k \<in> K \<Longrightarrow> x = vmr_ptr s v \<Longrightarrow> v < MAX_VMR \<Longrightarrow> view s' k = Reserved (vmr_prot (vmr_table (pkv s) ! v))"
proof -
  have e: "entry_of s' (page_of k) = (if k \<in> K then x else entry_of s (page_of k))"
    using assms(1,5) by (simp add: sets_entries_def)
  have of: "vmr_of s' = vmr_of s" by (simp add: vmr_of_def fun_eq_iff assms(4))
  have prot: "vmr_prot (vmr_table (pkv s') ! i) = vmr_prot (vmr_table (pkv s) ! i)" if "i < MAX_VMR" for i
    using assms(2) that unfolding same_regions_def by (metis vmr_t.select_convs(6) vmr_t.surjective vmr_t.update_convs(5))
  show "view s' k = view s k" if "k \<notin> K"
  proof (cases "entry_of s (page_of k) = 0 \<or> entry_of s (page_of k) AND PTE_V \<noteq> 0")
    case True
    then show ?thesis using that by (auto simp: view_def Let_def e)
  next
    case False
    then obtain i where "i < MAX_VMR" "vmr_of s (entry_of s (page_of k)) = i"
      using entry_vmr [OF assms(3), of "page_of k"] by metis
    then show ?thesis using that prot by (simp add: view_def Let_def e of)
  qed
  show "view s' k = Unmapped" if "k \<in> K" "x = 0" using that by (simp add: view_def Let_def e)
  show "view s' k = Reserved (vmr_prot (vmr_table (pkv s) ! v))" if "k \<in> K" "x = vmr_ptr s v" "v < MAX_VMR"
    using that vmr_ptr_not_valid [OF assms(3) that(3)] assms(3) prot by (simp add: view_def Let_def e of)
qed

subsection \<open>The lock and the limits\<close>

lemma pkv_same:
  assumes "s' = s\<lparr>pkv := (pkv s)\<lparr>vm_lock := x, brk_max := y\<rparr>\<rparr>"
  shows "entry_of s' = entry_of s" "vm_ok s' = vm_ok s" "vmr_ok s' = vmr_ok s" "refs_but s' = refs_but s"
    "view s' = view s" "vmr_ptr s' = vmr_ptr s" "free_left s' = free_left s" "vm_inv s' = vm_inv s" "in_pool s' = in_pool s"
proof -
  show e: "entry_of s' = entry_of s" "vmr_ptr s' = vmr_ptr s" "free_left s' = free_left s" "in_pool s' = in_pool s"
    by (simp_all add: assms entry_of_def vmr_ptr_def free_left_def in_pool_def fun_eq_iff)
  show ok: "vm_ok s' = vm_ok s" by (simp add: assms vm_ok_def pool_def pool_page_def)
  show vmr: "vmr_ok s' = vmr_ok s" using e by (simp add: vmr_ok_def) (simp add: assms)
  have "refs s' = refs s" by (simp add: refs_def fun_eq_iff e)
  then show refs: "refs_but s' = refs_but s" by (simp add: refs_but_def fun_eq_iff e) (simp add: assms)
  have of: "vmr_of s' = vmr_of s" by (simp add: assms vmr_of_def fun_eq_iff)
  have tab: "vmr_table (pkv s') = vmr_table (pkv s)" by (simp add: assms)
  show "view s' = view s" unfolding view_def e(1) of tab ..
  show "vm_inv s' = vm_inv s" by (simp add: vm_inv_def ok vmr refs)
qed

definition locked :: "'d world \<Rightarrow> 'd world" where
  "locked s = s\<lparr>pkv := (pkv s)\<lparr>vm_lock := - 1\<rparr>\<rparr>"

lemma ram_locked [simp]: "ram (locked s) = ram s"
  by (simp add: locked_def)

lemma spinlock_lock_free: "vm_lock (pkv s) = 0 \<Longrightarrow> spinlock_lock s = Some (locked s)"
  by (simp add: spinlock_lock_def locked_def)

lemma locked_same:
  "entry_of (locked s) = entry_of s" "vm_ok (locked s) = vm_ok s" "vmr_ok (locked s) = vmr_ok s" "refs_but (locked s) = refs_but s"
    "view (locked s) = view s" "vmr_ptr (locked s) = vmr_ptr s" "free_left (locked s) = free_left s" "vm_inv (locked s) = vm_inv s" "in_pool (locked s) = in_pool s"
  by (rule pkv_same [where x = "- 1" and y = "brk_max (pkv s)"], simp add: locked_def)+

lemma and_4095_page: "(a :: u64) AND 4095 = 0 \<longleftrightarrow> page a"
proof -
  have "a AND 4095 = take_bit 12 a" by (simp add: take_bit_eq_mask mask_eq_exp_minus_1)
  then show ?thesis by (simp add: page_def take_bit_eq_mod word_unat_eq_iff unat_mod_distrib dvd_eq_mod_eq_0)
qed

lemma valid_user_range_end:
  assumes "valid_user_range a len s" "vm_ok s"
  shows "unat (a + len) = unat a + unat len" "unat (a + len) \<le> 2 ^ 31" "a + len \<le> mmap_max s"
proof -
  have v: "\<not> a + len < a" "a + len \<le> mmap_max s" using assms(1) by (simp_all add: valid_user_range_def split: if_splits)
  then show "unat (a + len) = unat a + unat len" by (simp add: not_less unat_plus_simple)
  show "a + len \<le> mmap_max s" by (rule v(2))
  have "a + len \<le> DRAM_BASE" using v(2) assms(2) by (auto simp: vm_ok_def intro: order_trans)
  then show "unat (a + len) \<le> 2 ^ 31" by (simp add: DRAM_BASE_def word_le_nat_alt)
qed

subsection \<open>Unmapping\<close>

lemma vm_inv_unmaps:
  assumes "vm_ok s'" "vmr_ok s'" "refs_but s' v 0"
  shows "vm_inv s'"
  using assms by (simp add: vm_inv_def refs_but_def)

text \<open>What a call leaves: the lock is free, the memory outside the pool of tables and \<open>X\<close> is as it was.\<close>

definition vm_done :: "u64 set \<Rightarrow> 'd world \<Rightarrow> 'd world \<Rightarrow> bool" where
  "vm_done X s s' \<longleftrightarrow> vm_inv s' \<and> vm_lock (pkv s') = 0 \<and> mmap_max s' = mmap_max s \<and> brk (pkv s') = brk (pkv s) \<and>
     sent s' = sent s \<and> fds (pkv s') = fds (pkv s) \<and> files (pkv s') = files (pkv s) \<and>
     (\<forall>x. \<not> in_pool s x \<and> x \<notin> X \<longrightarrow> ram s' x = ram s x)"

lemma vm_step_done:
  assumes "vm_step n (locked s) s1" "vm_inv s1" "s' = s1\<lparr>pkv := (pkv s1)\<lparr>vm_lock := 0, brk_max := y\<rparr>\<rparr>"
  shows "vm_done {} s s'"
proof -
  have e: "s1 = locked s\<lparr>ram := ram s1, pkv := (pkv (locked s))\<lparr>next_free_page := next_free_page (pkv s1), vmr_table := vmr_table (pkv s1)\<rparr>\<rparr>"
    and r: "\<forall>x. \<not> in_pool s x \<longrightarrow> ram s1 x = ram s x"
    using assms(1) by (simp_all add: vm_step_def locked_same)
  have "vm_inv s'" using assms(2) pkv_same(8) [OF assms(3)] by simp
  moreover have "mmap_max s' = mmap_max s" "brk (pkv s') = brk (pkv s)" "sent s' = sent s" "fds (pkv s') = fds (pkv s)"
      "files (pkv s') = files (pkv s)" unfolding assms(3)
    by (subst e, simp add: locked_def sent_def)+
  ultimately show ?thesis using r by (simp add: vm_done_def assms(3))
qed

lemma do_munmap_runs:
  assumes "vm_inv s" "vm_lock (pkv s) = 0" "page addr" "valid_user_range addr len s"
  shows "\<exists>s'. do_munmap P addr len s = Some (0, s') \<and> vm_done {} s s' \<and> brk_max (pkv s') = brk_max (pkv s) \<and>
    free_left s' = free_left s \<and>
    (\<forall>k<2 ^ 27. view s' k = (if k \<in> pages_between addr (addr + len) then Unmapped else view s k))"
proof -
  have inv: "vm_ok s" "vmr_ok s" "refs_but s 0 0" using assms(1) by (simp_all add: vm_inv_def)
  have lim: "unat (addr + len) \<le> 2 ^ 32" using valid_user_range_end(2) [OF assms(4) inv(1)] by simp
  obtain s1 where s1: "munmap_loop P addr (addr + len) (locked s) = Some s1"
      "unmaps (pages_between addr (addr + len)) (locked s) s1" "refs_but s1 0 0"
    using munmap_runs [of "locked s" 0 0, OF _ _ _ assms(3) lim, of P] inv unfolding locked_same by blast
  let ?s' = "s1\<lparr>pkv := (pkv s1)\<lparr>vm_lock := 0, brk_max := brk_max (pkv s1)\<rparr>\<rparr>"
  have s': "spinlock_unlock s1 = ?s'" by (simp add: spinlock_unlock_def)
  have u: "vm_ok s1" "vmr_ok s1" "sets_entries (pages_between addr (addr + len)) 0 (locked s) s1" "vm_step 0 (locked s) s1"
      "same_regions (locked s) s1"
    using s1(2) by (simp_all add: unmaps_def)
  have "do_munmap P addr len s = Some (0, ?s')"
    using assms(2-4) s1(1) s' by (simp add: do_munmap_def RISCV_PGSIZE_def and_4095_page spinlock_lock_free do_munmap_range_def)
  moreover have "vm_done {} s ?s'" using vm_step_done [OF u(4) vm_inv_unmaps [OF u(1,2) s1(3)] refl] .
  moreover have "view ?s' k = (if k \<in> pages_between addr (addr + len) then Unmapped else view s k)" if "k < 2 ^ 27" for k
    using view_sets(1,2) [OF u(3,5) _ vm_step_same(5) [OF u(4)] that] inv(2)
    unfolding pkv_same(5) [OF refl] by (simp add: locked_same)
  moreover have "brk_max (pkv ?s') = brk_max (pkv s)" using vm_step_same(10) [OF u(4)] by (simp add: locked_def)
  moreover have "free_left ?s' = free_left s"
    using u(4) unfolding pkv_same(7) [OF refl] by (simp add: vm_step_def locked_same)
  ultimately show ?thesis by blast
qed

text \<open>
  \<^bold>\<open>C7\<close>: Against the abstract view of the address space as a state per page,
  munmap of a checked range unmaps exactly the pages that the range touches, keeps every other page,
  the table and region invariants and the lock, and returns 0.
\<close>

theorem do_munmap_unmaps:
  assumes "vm_inv s" "vm_lock (pkv s) = 0" "page addr" "valid_user_range addr len s"
  shows "\<exists>s'. do_munmap P addr len s = Some (0, s') \<and> vm_done {} s s' \<and> brk_max (pkv s') = brk_max (pkv s) \<and>
    free_left s' = free_left s \<and>
    (\<forall>k<2 ^ 27. view s' k = (if k \<in> pages_between addr (addr + len) then Unmapped else view s k))"
  using assms by (rule do_munmap_runs)

subsection \<open>Mapping\<close>

lemma card_pages_between:
  assumes "page a" "unat (a + len) = unat a + unat len" "len \<noteq> 0"
  shows "card (pages_between a (a + len)) = (unat len - 1) div 4096 + 1"
    "unat ((len - 1) div RISCV_PGSIZE + 1) = (unat len - 1) div 4096 + 1"
proof -
  obtain j where j: "unat a = 4096 * j" using assms(1) by (auto simp: page_def elim!: dvdE)
  have pos: "0 < unat len" using assms(3) by (simp add: unat_gt_0)
  have "pages_between a (a + len) = {j..<j + ((unat len - 1) div 4096 + 1)}"
    using pos by (auto simp: pages_between_def assms(2) j less_eq_div_iff_mult_less_eq)
  then show "card (pages_between a (a + len)) = (unat len - 1) div 4096 + 1" by simp
  have d: "unat ((len - 1) div RISCV_PGSIZE) = (unat len - 1) div 4096"
    using assms(3) by (simp add: RISCV_PGSIZE_def unat_div_distrib unat_minus_one)
  have "(unat len - 1) div 4096 < 2 ^ 53" using unat_u64_less [of len] by (simp add: less_mult_imp_div_less)
  then show "unat ((len - 1) div RISCV_PGSIZE + 1) = (unat len - 1) div 4096 + 1"
    using unat_add_no_wrap [of "(len - 1) div RISCV_PGSIZE" 1] by (simp add: d)
qed

lemma no_entry_of_free:
  assumes "refs_but s v 0" "i < MAX_VMR" "vmr_refcnt (vmr_table (pkv s) ! i) = 0"
  shows "entry_of s a \<noteq> vmr_ptr s i" "refs s (vmr_ptr s i) = 0"
proof -
  have "unat (vmr_refcnt (vmr_table (pkv s) ! i)) = refs s (vmr_ptr s i)" using assms(1,2) by (simp add: refs_but_def)
  then show r: "refs s (vmr_ptr s i) = 0" by (simp add: assms(3))
  show "entry_of s a \<noteq> vmr_ptr s i" using refs_pos [of s a] r by auto
qed

text \<open>Taking a free descriptor for a region.\<close>

lemma vmr_alloc_runs:
  assumes "vm_inv s" "\<exists>i<MAX_VMR. vmr_refcnt (vmr_table (pkv s) ! i) = 0"
  obtains i s0 where "vmr_alloc a len None off n prot s = Some (Some i, s0)" "i < MAX_VMR" "vm_step 0 s s0"
    "vm_ok s0" "vmr_ok s0" "refs_but s0 i (unat n)" "view s0 = view s" "entry_of s0 = entry_of s"
    "vmr_prot (vmr_table (pkv s0) ! i) = prot" "vmr_ptr s0 = vmr_ptr s" "vmrs (pkv s0) = vmrs (pkv s)"
    "free_left s0 = free_left s"
proof -
  have inv: "vm_ok s" "vmr_ok s" "refs_but s 0 0" using assms(1) by (simp_all add: vm_inv_def)
  let ?free = "\<lambda>i. vmr_refcnt (vmr_table (pkv s) ! i) = 0"
  obtain i where i: "find ?free [0..<MAX_VMR] = Some i"
    using assms(2) by (cases "find ?free [0..<MAX_VMR]") (auto simp: find_None_iff)
  then have i': "i < MAX_VMR" "?free i" by (auto simp: find_Some_iff)
  let ?v = "\<lparr>vmr_addr = a, vmr_length = len, vmr_file = None, vmr_offset = off, vmr_refcnt = n, vmr_prot = prot\<rparr>"
  let ?s0 = "set_vmr i ?v s"
  have len: "length (vmr_table (pkv s)) = MAX_VMR" and nz: "vmrs (pkv s) \<noteq> 0" using inv(2) by (simp_all add: vmr_ok_def)
  note none = no_entry_of_free [OF inv(3) i']
  show thesis
  proof (rule that)
    show "vmr_alloc a len None off n prot s = Some (Some i, ?s0)" by (simp add: vmr_alloc_def nz i)
    show "vmr_ok ?s0" using inv(2) i'(1) by (auto simp: vmr_ok_def nth_list_update)
    show "refs_but ?s0 i (unat n)"
      using inv(3) i'(1) none(2) by (auto simp: refs_but_def nth_list_update len)
    have of: "vmr_of ?s0 = vmr_of s" by (simp add: vmr_of_def fun_eq_iff)
    have "view ?s0 k = view s k" for k
    proof (cases "entry_of s (page_of k) \<noteq> 0 \<and> entry_of s (page_of k) AND PTE_V = 0")
      case True
      then obtain j where "entry_of s (page_of k) = vmr_ptr s j" "vmr_of s (entry_of s (page_of k)) = j"
        using entry_vmr [OF inv(2), of "page_of k"] by metis
      moreover from this have "j \<noteq> i" using none(1) by metis
      ultimately show ?thesis by (simp add: view_def Let_def of)
    qed (auto simp: view_def Let_def)
    then show "view ?s0 = view s" by (simp add: fun_eq_iff)
  qed (use i'(1) inv(1) len set_vmr_step in simp_all)
qed

text \<open>\<open>placed\<close>: the address that \<^verbatim>\<open>__do_mmap\<close> settles on.\<close>

definition placed :: "u32 \<Rightarrow> u64 \<Rightarrow> u64 \<Rightarrow> u64 \<Rightarrow> 'd world \<Rightarrow> bool" where
  "placed flags addr len a s \<longleftrightarrow> page a \<and> valid_user_range a len s \<and>
     (if flags AND MAP_FIXED \<noteq> 0 then a = addr else vm_alloc ((len - 1) div RISCV_PGSIZE + 1) s = Some a \<and> a \<noteq> 0)"

lemma do_mmap_locked_runs:
  assumes "vm_inv s" "len \<noteq> 0" "placed flags addr len a s" "flags AND MAP_POPULATE = 0" "demand_paging (pkv s) \<noteq> 0"
    and "\<exists>i<MAX_VMR. vmr_refcnt (vmr_table (pkv s) ! i) = 0" "2 * ((unat len - 1) div 4096 + 1) \<le> free_left s"
  obtains s' where "do_mmap_locked P addr len prot flags None off s = Some (a, s')"
    "vm_step (2 * ((unat len - 1) div 4096 + 1)) s s'" "vm_inv s'"
    "\<And>k. k < 2 ^ 27 \<Longrightarrow> view s' k = (if k \<in> pages_between a (a + len) then Reserved prot else view s k)"
proof -
  have inv: "vm_ok s" "vmr_ok s" "refs_but s 0 0" using assms(1) by (simp_all add: vm_inv_def)
  have at: "page a" "valid_user_range a len s" using assms(3) by (simp_all add: placed_def)
  note lim = valid_user_range_end [OF at(2) inv(1)]
  let ?K = "pages_between a (a + len)" and ?np = "(len - 1) div RISCV_PGSIZE + 1" and ?n = "(unat len - 1) div 4096 + 1"
  note card = card_pages_between [OF at(1) lim(1) assms(2)]
  have small: "?n < 2 ^ 32" using lim(1,2) by (simp add: less_mult_imp_div_less)
  then have refcnt: "unat (ucast ?np :: u32) = ?n" using card(2) by (simp add: unsigned_ucast_eq take_bit_nat_eq_self)
  obtain v s0 where s0: "vmr_alloc a len None off (ucast ?np) prot s = Some (Some v, s0)" "v < MAX_VMR" "vm_step 0 s s0"
      "vm_ok s0" "vmr_ok s0" "refs_but s0 v ?n" "view s0 = view s" "vmr_prot (vmr_table (pkv s0) ! v) = prot"
      "free_left s0 = free_left s"
    using vmr_alloc_runs [OF assms(1,6)] refcnt by metis
  have "unat (a + len) \<le> 2 ^ 32" using lim(2) by simp
  then obtain s' where s': "mmap_loop P v a (a + len) s0 = Some s'" "maps v ?K s0 s'" "refs_but s' v 0"
    using mmap_runs [OF s0(4,5) _ s0(2) at(1), of "a + len"] s0(6,9) assms(7) card(1) by auto
  have m: "vm_ok s'" "vmr_ok s'" "sets_entries ?K (vmr_ptr s0 v) s0 s'" "vm_step (2 * ?n) s0 s'" "same_regions s0 s'"
    using s'(2) card(1) by (simp_all add: maps_def)
  have "demand_paging (pkv s') \<noteq> 0"
    using assms(5) vm_step_same(9) [OF s0(3)] vm_step_same(9) [OF m(4)] by simp
  then have "do_mmap_locked P addr len prot flags None off s = Some (a, s')"
    using assms(3,4) s0(1) s'(1)
    by (cases "flags AND MAP_FIXED = 0") (auto simp: do_mmap_locked_def placed_def and_4095_page RISCV_PGSIZE_def)
  moreover have "vm_step (2 * ?n) s s'" using vm_step_trans [OF s0(3) m(4)] by simp
  moreover have "vm_inv s'" by (rule vm_inv_unmaps [OF m(1,2) s'(3)])
  moreover have "view s' k = (if k \<in> ?K then Reserved prot else view s k)" if "k < 2 ^ 27" for k
    using view_sets(1,3) [OF m(3,5) s0(5) vm_step_same(5) [OF m(4)] that] s0(2,7,8) by auto
  ultimately show thesis using that by blast
qed

text \<open>Room for a mapping of \<open>n\<close> pages: a free descriptor, and pool pages for the tables.\<close>

definition room_for :: "nat \<Rightarrow> 'd world \<Rightarrow> bool" where
  "room_for n s \<longleftrightarrow> demand_paging (pkv s) \<noteq> 0 \<and> (\<exists>i<MAX_VMR. vmr_refcnt (vmr_table (pkv s) ! i) = 0) \<and> 2 * n \<le> free_left s"

text \<open>
  \<^bold>\<open>C8\<close>: Mapping anonymous memory without populating it makes exactly the pages
  of the chosen range promised with the given permission, keeps all other pages and the invariants,
  and returns the address of the range.
\<close>

theorem do_mmap_reserves:
  assumes "vm_inv s" "vm_lock (pkv s) = 0" "len \<noteq> 0" "off AND 4095 = 0" "flags AND MAP_PRIVATE \<noteq> 0" "flags AND MAP_ANONYMOUS \<noteq> 0"
    and "flags AND MAP_POPULATE = 0" "placed flags addr len a (locked s)" "room_for ((unat len - 1) div 4096 + 1) s"
  shows "\<exists>s'. do_mmap P addr len prot flags fd off s = Some (a, s') \<and> vm_done {} s s' \<and>
    brk_max (pkv s') = min a (brk_max (pkv s)) \<and>
    (\<forall>k<2 ^ 27. view s' k = (if k \<in> pages_between a (a + len) then Reserved prot else view s k))"
proof -
  let ?K = "pages_between a (a + len)" and ?n = "(unat len - 1) div 4096 + 1"
  have pre: "vm_inv (locked s)" "demand_paging (pkv (locked s)) \<noteq> 0"
      "\<exists>i<MAX_VMR. vmr_refcnt (vmr_table (pkv (locked s)) ! i) = 0" "2 * ?n \<le> free_left (locked s)"
    using assms(1,9) by (simp_all add: locked_same room_for_def) (simp_all add: locked_def)
  obtain s1 where s1: "do_mmap_locked P addr len prot flags None off (locked s) = Some (a, s1)"
      "vm_step (2 * ?n) (locked s) s1" "vm_inv s1"
      "\<And>k. k < 2 ^ 27 \<Longrightarrow> view s1 k = (if k \<in> ?K then Reserved prot else view s k)"
    using do_mmap_locked_runs [OF pre(1) assms(3,8,7) pre(2-4), of P prot off thesis] unfolding locked_same by blast
  let ?s' = "s1\<lparr>pkv := (pkv s1)\<lparr>vm_lock := 0, brk_max := min a (brk_max (pkv s1))\<rparr>\<rparr>"
  have "do_mmap P addr len prot flags fd off s = Some (a, ?s')"
    using assms(2-6) s1(1) by (simp add: do_mmap_def RISCV_PGSIZE_def spinlock_lock_free spinlock_unlock_def min_def not_less Let_def)
  moreover have "vm_done {} s ?s'" by (rule vm_step_done [OF s1(2,3) refl])
  moreover have "brk_max (pkv ?s') = min a (brk_max (pkv s))" using vm_step_same(10) [OF s1(2)] by (simp add: locked_def)
  moreover have "view ?s' k = (if k \<in> ?K then Reserved prot else view s k)" if "k < 2 ^ 27" for k
    unfolding pkv_same(5) [OF refl] by (rule s1(4) [OF that])
  ultimately show ?thesis by blast
qed

end
