(* ===== verification/VmCalls.thy ===== *)
theory VmCalls
  imports Regions
begin

text \<open>
  What the system calls for memory do: where a mapping is placed, growing and shrinking the heap,
  faults on promised pages and changes of protection.
\<close>

section \<open>Placing a mapping\<close>

text \<open>First fit: \<open>free_at\<close> says that a run of pages is not mapped.\<close>

definition nth_page :: "u64 \<Rightarrow> nat \<Rightarrow> u64" where
  "nth_page a j = a + of_nat (4096 * j)"

lemma nth_page_simps [simp]:
  "nth_page a 0 = a" "nth_page (nth_page a i) j = nth_page a (i + j)"
  "nth_page a i + RISCV_PGSIZE = nth_page a (Suc i)" "nth_page a (Suc i) - RISCV_PGSIZE = nth_page a i"
  by (simp_all add: nth_page_def RISCV_PGSIZE_def algebra_simps)

lemma unat_nth_page:
  assumes "unat a + 4096 * n < 2 ^ 64"
  shows "unat (nth_page a n) = unat a + 4096 * n"
proof -
  have n: "unat (of_nat (4096 * n) :: u64) = 4096 * n" using assms by (intro unat_of_nat_u64) simp
  show ?thesis using assms unat_add_no_wrap [of a "of_nat (4096 * n)"] unfolding nth_page_def n by simp
qed

definition free_at :: "'d world \<Rightarrow> u64 \<Rightarrow> nat \<Rightarrow> bool" where
  "free_at s a n \<longleftrightarrow> (\<forall>j<n. entry_of s (nth_page a j) = 0)"

lemma va_avail_iff: "vm_ok s \<Longrightarrow> va_avail a s \<longleftrightarrow> entry_of s a = 0"
  using avail_iff [of s a] by (simp add: va_avail_def)

text \<open>Going down from the last page of a candidate: the highest page that is taken, or the first one.\<close>

lemma vm_alloc_down_runs:
  assumes "vm_ok s" "unat f + 4096 * n < 2 ^ 64"
  shows "\<exists>j\<le>n. vm_alloc_down f (nth_page f n) s = Some (nth_page f j) \<and>
     (j = 0 \<or> entry_of s (nth_page f j) \<noteq> 0) \<and> (\<forall>i. j < i \<and> i \<le> n \<longrightarrow> entry_of s (nth_page f i) = 0)"
  using assms(2)
proof (induction n)
  case 0
  then show ?case by (subst vm_alloc_down.simps) simp
next
  case (Suc n)
  have gt: "nth_page f (Suc n) > f" using unat_nth_page [OF Suc.prems] by (simp add: word_less_nat_alt)
  show ?case
  proof (cases "entry_of s (nth_page f (Suc n)) = 0")
    case True
    then have "vm_alloc_down f (nth_page f (Suc n)) s = vm_alloc_down f (nth_page f n) s"
      using gt by (subst vm_alloc_down.simps) (simp add: va_avail_iff [OF assms(1)])
    moreover obtain j where "j \<le> n" "vm_alloc_down f (nth_page f n) s = Some (nth_page f j)"
       "j = 0 \<or> entry_of s (nth_page f j) \<noteq> 0" "\<forall>i. j < i \<and> i \<le> n \<longrightarrow> entry_of s (nth_page f i) = 0"
      using Suc.IH Suc.prems by auto
    ultimately show ?thesis using True by (intro exI [of _ j]) (auto simp: le_Suc_eq)
  next
    case False
    then have "vm_alloc_down f (nth_page f (Suc n)) s = Some (nth_page f (Suc n))"
      by (subst vm_alloc_down.simps) (simp add: va_avail_iff [OF assms(1)])
    then show ?thesis using False by (intro exI [of _ "Suc n"]) auto
  qed
qed

text \<open>
  The search returns the first candidate from \<open>a\<close> on at which the pages are free, or 0.
\<close>

definition first_fit :: "nat \<Rightarrow> u64 \<Rightarrow> u64 \<Rightarrow> 'd world \<Rightarrow> u64 \<Rightarrow> bool" where
  "first_fit n a lim s r \<longleftrightarrow>
     (\<exists>j. r = nth_page a j \<and> unat a + 4096 * j \<le> unat lim \<and> free_at s r n \<and> (\<forall>i<j. \<not> free_at s (nth_page a i) n)) \<or>
     r = 0 \<and> (\<forall>i. unat a + 4096 * i \<le> unat lim \<longrightarrow> \<not> free_at s (nth_page a i) n)"

lemma first_fit_skip:
  assumes "first_fit n (nth_page a (Suc j)) lim s r" "unat a + 4096 * Suc j < 2 ^ 64"
    and "\<forall>i\<le>j. \<not> free_at s (nth_page a i) n"
  shows "first_fit n a lim s r"
proof -
  let ?b = "nth_page a (Suc j)"
  have u: "unat ?b = unat a + 4096 * Suc j" by (rule unat_nth_page [OF assms(2)])
  have split: "i \<le> j \<or> (\<exists>k. i = Suc j + k)" for i using le_Suc_ex [of "Suc j" i] by fastforce
  from assms(1) consider k where "r = nth_page a (Suc j + k)" "unat ?b + 4096 * k \<le> unat lim" "free_at s r n"
      "\<forall>i<k. \<not> free_at s (nth_page a (Suc j + i)) n"
    | "r = 0" "\<forall>i. unat ?b + 4096 * i \<le> unat lim \<longrightarrow> \<not> free_at s (nth_page a (Suc j + i)) n"
    by (auto simp: first_fit_def)
  then show ?thesis
  proof cases
    case 1
    have "\<not> free_at s (nth_page a i) n" if "i < Suc j + k" for i
      using split [of i] assms(3) 1(4) that by auto
    then show ?thesis unfolding first_fit_def
      by (intro disjI1 exI [of _ "Suc j + k"]) (use 1 u in auto)
  next
    case 2
    have "\<not> free_at s (nth_page a i) n" if "unat a + 4096 * i \<le> unat lim" for i
      using split [of i] assms(3) 2(2) that u by auto
    then show ?thesis using 2(1) by (simp add: first_fit_def)
  qed
qed

lemma vm_alloc_scan_runs:
  assumes "vm_ok s" "0 < unat npage" "unat lim + 4096 * unat npage \<le> 2 ^ 32"
  shows "unat a \<le> 2 ^ 33 \<Longrightarrow> \<exists>r. vm_alloc_scan npage lim a s = Some r \<and> first_fit (unat npage) a lim s r"
proof (induction "unat lim + 1 - unat a" arbitrary: a rule: less_induct)
  case less
  let ?n = "unat npage"
  have smaller: "unat lim + 1 - unat (nth_page a (Suc j)) < unat lim + 1 - unat a" "unat (nth_page a (Suc j)) \<le> 2 ^ 33"
    "unat a + 4096 * Suc j < 2 ^ 64"
    if "a \<le> lim" "j < ?n" for j
  proof -
    have le: "unat a \<le> unat lim" using that(1) by (simp add: word_le_nat_alt)
    then show b: "unat a + 4096 * Suc j < 2 ^ 64" using that(2) assms(3) by simp
    show "unat lim + 1 - unat (nth_page a (Suc j)) < unat lim + 1 - unat a" "unat (nth_page a (Suc j)) \<le> 2 ^ 33"
      using le that(2) assms(3) unfolding unat_nth_page [OF b] by simp_all
  qed
  show ?case
  proof (cases "a \<le> lim")
    case False
    then have "vm_alloc_scan npage lim a s = Some 0" by (subst vm_alloc_scan.simps) simp
    moreover have "first_fit ?n a lim s 0" using False by (auto simp: first_fit_def word_le_nat_alt)
    ultimately show ?thesis by blast
  next
    case le: True
    show ?thesis
    proof (cases "entry_of s a = 0")
      case False
      then have run: "vm_alloc_scan npage lim a s = vm_alloc_scan npage lim (nth_page a (Suc 0)) s"
        using le by (subst vm_alloc_scan.simps) (simp add: va_avail_iff [OF assms(1)] nth_page_def RISCV_PGSIZE_def)
      have "\<not> free_at s a ?n" using False assms(2) by (auto simp: free_at_def intro!: exI [of _ 0])
      then have "\<forall>i\<le>0. \<not> free_at s (nth_page a i) ?n" by simp
      moreover obtain r where "vm_alloc_scan npage lim (nth_page a (Suc 0)) s = Some r" "first_fit ?n (nth_page a (Suc 0)) lim s r"
        using less.hyps [OF smaller(1,2) [OF le assms(2)]] by blast
      ultimately show ?thesis using run first_fit_skip [OF _ smaller(3) [OF le assms(2)]] by metis
    next
      case True
      let ?m = "?n - 1"
      have m: "nth_page a ?m = a + (npage - 1) * RISCV_PGSIZE"
        using assms(2) by (simp add: nth_page_def RISCV_PGSIZE_def of_nat_diff mult.commute)
      have bound: "unat a + 4096 * ?m < 2 ^ 64" using less.prems assms(2,3) by simp
      obtain j where j: "j \<le> ?m" "vm_alloc_down a (nth_page a ?m) s = Some (nth_page a j)"
          "j = 0 \<or> entry_of s (nth_page a j) \<noteq> 0" "\<forall>i. j < i \<and> i \<le> ?m \<longrightarrow> entry_of s (nth_page a i) = 0"
        using vm_alloc_down_runs [OF assms(1) bound] by blast
      have "unat a + 4096 * j < 2 ^ 64" using bound j(1) by (meson add_left_mono le_less_trans mult_le_mono2)
      then have gt: "nth_page a j > a \<longleftrightarrow> 0 < j" by (simp add: word_less_nat_alt unat_nth_page)
      have run: "vm_alloc_scan npage lim a s =
          (if 0 < j then vm_alloc_scan npage lim (nth_page a (Suc j)) s else Some (nth_page a j))"
        using le True j(2) gt by (subst vm_alloc_scan.simps) (simp add: va_avail_iff [OF assms(1)] m [symmetric])
      show ?thesis
      proof (cases "j = 0")
        case True
        have "free_at s a ?n" unfolding free_at_def
        proof (intro allI impI)
          fix i assume "i < ?n"
          then show "entry_of s (nth_page a i) = 0" using j(4) True \<open>entry_of s a = 0\<close> by (cases i) simp_all
        qed
        then have "first_fit ?n a lim s a" using le by (auto simp: first_fit_def word_le_nat_alt intro!: exI [of _ 0])
        then show ?thesis using run True by simp
      next
        case False
        have jn: "j < ?n" using j(1) assms(2) by simp
        have "\<not> free_at s (nth_page a i) ?n" if "i \<le> j" for i
          using j(3) False jn that by (auto simp: free_at_def intro!: exI [of _ "j - i"])
        moreover obtain r where "vm_alloc_scan npage lim (nth_page a (Suc j)) s = Some r" "first_fit ?n (nth_page a (Suc j)) lim s r"
          using less.hyps [OF smaller(1,2) [OF le jn]] by blast
        ultimately show ?thesis using run False first_fit_skip [OF _ smaller(3) [OF le jn]] by (metis neq0_conv)
      qed
    qed
  qed
qed


text \<open>
  A length within a page of the address space makes the number of bytes wrap to 0: the search ends
  one page below the heap and nothing is mapped, but the call reports success.
\<close>

lemma huge_pages:
  assumes "(len :: u64) > - 4096"
  shows "(len - 1) div RISCV_PGSIZE + 1 = 2 ^ 52"
proof -
  have big: "2 ^ 64 - 4096 < unat len" using assms by (simp add: word_less_nat_alt)
  then have "len \<noteq> 0" by auto
  with big have "unat (len - 1) = unat len - 1" "2 ^ 64 - 4096 \<le> unat len - 1" "unat len - 1 < 2 ^ 64"
    using unat_u64_less [of len] by (auto simp: unat_minus_one)
  then have "unat ((len - 1) div RISCV_PGSIZE) = 2 ^ 52 - 1" by (simp add: RISCV_PGSIZE_def unat_div_distrib)
  then have "(len - 1) div RISCV_PGSIZE = 2 ^ 52 - 1" by (intro word_unat_eq_iff [THEN iffD2]) simp
  then show ?thesis by simp
qed

theorem do_mmap_huge_length:
  assumes "vm_inv s" "vm_lock (pkv s) = 0" "len > - 4096" "off AND 4095 = 0" "flags AND MAP_PRIVATE \<noteq> 0"
    and "flags AND MAP_ANONYMOUS \<noteq> 0" "flags AND MAP_FIXED = 0" "flags AND MAP_POPULATE = 0" "room_for 0 s"
    and "8192 \<le> brk (pkv s)" "brk (pkv s) \<le> mmap_max s" "entry_of s (brk (pkv s)) = 0"
  shows "\<exists>s'. do_mmap P addr len prot flags fd off s = Some (brk (pkv s) - 4096, s') \<and> view s' = view s \<and>
    brk_max (pkv s') = min (brk (pkv s) - 4096) (brk_max (pkv s))"
proof -
  let ?b = "brk (pkv s)" let ?a = "?b - 4096"
  have inv: "vm_ok s" using assms(1) by (simp add: vm_inv_def)
  have a: "unat ?a = unat ?b - 4096" "8192 \<le> unat ?b" using assms(10) by (simp_all add: unat_sub word_le_nat_alt)
  then have lt: "?a < ?b" by (simp add: word_less_nat_alt)
  have down: "vm_alloc_down ?b ?a (locked s) = Some ?a"
    by (subst vm_alloc_down.simps, rule if_not_P) (use lt in \<open>blast dest: less_asym\<close>)
  have m: "?b + (2 ^ 52 - 1) * RISCV_PGSIZE = ?a" by (simp add: RISCV_PGSIZE_def)
  have z: "2 ^ 52 * RISCV_PGSIZE = 0" by (simp add: RISCV_PGSIZE_def)
  have "mmap_max (locked s) = mmap_max s" "brk (pkv (locked s)) = ?b" by (simp_all add: locked_def)
  then have "vm_alloc (2 ^ 52) (locked s) = vm_alloc_scan (2 ^ 52) (mmap_max s) ?b (locked s)"
    by (simp only: vm_alloc_def z diff_zero)
  also have "\<dots> = Some ?a"
  proof -
    have "va_avail ?b (locked s)" "\<not> ?a > ?b" using assms(12) inv lt by (auto simp: va_avail_iff locked_same)
    then show ?thesis
      using assms(11) by (subst vm_alloc_scan.simps) (simp only: if_True if_False not_True_eq_False Let_def m down Option.bind.simps)
  qed
  finally have alloc: "vm_alloc (2 ^ 52) (locked s) = Some ?a" .
  have ne: "?a \<noteq> 0" using a by auto
  have pre: "vm_inv (locked s)" "\<exists>i<MAX_VMR. vmr_refcnt (vmr_table (pkv (locked s)) ! i) = 0"
    using assms(1,9) by (simp_all add: locked_same room_for_def) (simp add: locked_def)
  obtain i s0 where s0: "vmr_alloc ?a len None off 0 prot (locked s) = Some (Some i, s0)" "vm_step 0 (locked s) s0"
      "view s0 = view s"
    using vmr_alloc_runs [OF pre] unfolding locked_same by metis
  have "unat ?a + unat len \<ge> 2 ^ 64" using assms(3) a by (simp add: word_less_nat_alt)
  then have "\<not> ?a < ?a + len" using unat_u64_less [of ?a] unat_u64_less [of len]
    by (simp add: word_less_nat_alt unat_word_ariths le_mod_geq)
  then have loop: "mmap_loop P i ?a (?a + len) s0 = Some s0" by (subst mmap_loop.simps) simp
  have count: "(4503599627370496 :: u32) = 0" by (simp add: word_unat_eq_iff)
  have alloc_vmr: "vmr_alloc ?a len None off 4503599627370496 prot (locked s) = Some (Some i, s0)"
    unfolding count by (rule s0(1))
  have "demand_paging (pkv s0) \<noteq> 0" using assms(9) vm_step_same(9) [OF s0(2)] by (simp add: room_for_def locked_def)
  then have "do_mmap_locked P addr len prot flags None off (locked s) = Some (?a, s0)"
    using assms(7,8) alloc ne alloc_vmr loop huge_pages [OF assms(3)] by (simp add: do_mmap_locked_def)
  moreover have "len \<noteq> 0" using assms(3) by auto
  moreover have "brk_max (pkv s0) = brk_max (pkv s)" using vm_step_same(10) [OF s0(2)] by (simp add: locked_def)
  ultimately have "do_mmap P addr len prot flags fd off s =
      Some (?a, s0\<lparr>pkv := (pkv s0)\<lparr>vm_lock := 0, brk_max := min ?a (brk_max (pkv s))\<rparr>\<rparr>)"
    using assms(2,4-6) by (simp add: do_mmap_def RISCV_PGSIZE_def spinlock_lock_free spinlock_unlock_def min_def not_less Let_def)
  then show ?thesis using s0(3) pkv_same(5) [where s = s0, OF refl] by simp
qed

section \<open>The heap\<close>

lemma unat_ROUNDUP:
  assumes "unat a \<le> 2 ^ 32"
  shows "unat (ROUNDUP a RISCV_PGSIZE) = (unat a + 4095) div 4096 * 4096"
proof (cases "a = 0")
  case False
  then have "unat (a - 1) = unat a - 1" "0 < unat a" by (simp_all add: unat_minus_one unat_gt_0)
  then have d: "unat ((a - 1) div RISCV_PGSIZE) = (unat a - 1) div 4096" by (simp add: RISCV_PGSIZE_def unat_div_distrib)
  have e: "(unat a + 4095) div 4096 = (unat a - 1) div 4096 + 1"
    using \<open>0 < unat a\<close> by (cases "unat a") simp_all
  have "(unat a - 1) div 4096 < 2 ^ 21" using assms by (simp add: less_mult_imp_div_less)
  then have "unat ((a - 1) div RISCV_PGSIZE + 1) = (unat a - 1) div 4096 + 1" "(unat a - 1) div 4096 + 1 \<le> 2 ^ 21"
    using unat_add_no_wrap [of "(a - 1) div RISCV_PGSIZE" 1] by (simp_all add: d)
  then show ?thesis unfolding e ROUNDUP_def unat_word_ariths(2)
    by (simp only: RISCV_PGSIZE_def) (simp add: mod_less)
qed (simp add: ROUNDUP_def RISCV_PGSIZE_def)

lemma set_brk_same:
  assumes "s' = s\<lparr>pkv := (pkv s)\<lparr>brk := x\<rparr>\<rparr>"
  shows "vm_inv s' = vm_inv s" "view s' = view s"
proof -
  have e: "entry_of s' = entry_of s" "vmr_ptr s' = vmr_ptr s" by (simp_all add: assms entry_of_def vmr_ptr_def fun_eq_iff)
  have ok: "vm_ok s' = vm_ok s" by (simp add: assms vm_ok_def pool_def pool_page_def)
  have tab: "vmr_table (pkv s') = vmr_table (pkv s)" "vmrs (pkv s') = vmrs (pkv s)" by (simp_all add: assms)
  have vmr: "vmr_ok s' = vmr_ok s" unfolding vmr_ok_def e tab ..
  have "refs s' = refs s" by (simp add: refs_def fun_eq_iff e)
  then show "vm_inv s' = vm_inv s" unfolding vm_inv_def refs_but_def ok vmr e tab by simp
  have "vmr_of s' = vmr_of s" by (simp add: assms vmr_of_def fun_eq_iff)
  then show "view s' = view s" by (simp add: fun_eq_iff view_def Let_def e(1) tab)
qed

lemma ROUNDUP_page:
  assumes "unat a \<le> unat b" "page b" "unat b \<le> 2 ^ 32"
  shows "page (ROUNDUP a RISCV_PGSIZE)" "ROUNDUP a RISCV_PGSIZE \<le> b"
proof -
  have u: "unat (ROUNDUP a RISCV_PGSIZE) = (unat a + 4095) div 4096 * 4096" using assms by (intro unat_ROUNDUP) simp
  then show "page (ROUNDUP a RISCV_PGSIZE)" by (simp add: page_def)
  obtain j where "unat b = 4096 * j" using assms(2) by (auto simp: page_def elim!: dvdE)
  then have "(unat a + 4095) div 4096 \<le> j" using assms(1) using less_mult_imp_div_less [of "unat a + 4095" "j + 1" 4096] \<open>unat b = 4096 * j\<close> by simp
  then show "ROUNDUP a RISCV_PGSIZE \<le> b" using u \<open>unat b = 4096 * j\<close> by (simp add: word_le_nat_alt)
qed

lemma mmap_max_small: "vm_ok s \<Longrightarrow> unat (mmap_max s) \<le> 2 ^ 31"
  by (simp add: vm_ok_def DRAM_BASE_def word_le_nat_alt)

lemma heap_shrinks:
  assumes "vm_inv s" "page e" "e < b" "b \<le> mmap_max s"
  shows "\<exists>s1. do_munmap_range P e (b - e) s = Some s1 \<and> vm_step 0 s s1 \<and> vm_inv s1 \<and>
    (\<forall>k<2 ^ 27. view s1 k = (if k \<in> pages_between e b then Unmapped else view s k))"
proof -
  have inv: "vm_ok s" "vmr_ok s" "refs_but s 0 0" using assms(1) by (simp_all add: vm_inv_def)
  have b: "e + (b - e) = b" "unat b \<le> 2 ^ 32" using assms(4) mmap_max_small [OF inv(1)] by (simp_all add: word_le_nat_alt)
  from munmap_runs [OF inv assms(2) b(2)] obtain s1 where s1: "munmap_loop P e b s = Some s1"
      "unmaps (pages_between e b) s s1" "refs_but s1 0 0" by blast
  have u: "vm_ok s1" "vmr_ok s1" "sets_entries (pages_between e b) 0 s s1" "vm_step 0 s s1" "same_regions s s1"
    using s1(2) by (simp_all add: unmaps_def)
  have "view s1 k = (if k \<in> pages_between e b then Unmapped else view s k)" if "k < 2 ^ 27" for k
    using view_sets(1,2) [OF u(3,5) inv(2) vm_step_same(5) [OF u(4)] that] by simp
  then show ?thesis
    using s1(1) u(4) vm_inv_unmaps [OF u(1,2) s1(3)] by (simp add: do_munmap_range_def b(1))
qed

lemma heap_grows:
  assumes "vm_inv s" "page b" "page e" "b < e" "e \<le> mmap_max s" "room_for (unat (e - b) div 4096) s"
  shows "\<exists>s1 n. do_mmap_locked P b (e - b) (- 1) (MAP_FIXED OR MAP_PRIVATE OR MAP_ANONYMOUS) None 0 s = Some (b, s1) \<and>
    vm_step n s s1 \<and> vm_inv s1 \<and>
    (\<forall>k<2 ^ 27. view s1 k = (if k \<in> pages_between b e then Reserved (- 1) else view s k))"
proof -
  let ?f = "MAP_FIXED OR MAP_PRIVATE OR MAP_ANONYMOUS"
  have b: "b + (e - b) = e" "e - b \<noteq> 0" "\<not> e < b" "unat e = unat b + unat (e - b)"
    using assms(4) unat_sub [of b e] by (auto simp: word_less_nat_alt word_le_nat_alt)
  have f: "?f AND MAP_FIXED \<noteq> 0" "?f AND MAP_POPULATE = 0"
    by (simp_all add: MAP_FIXED_def MAP_PRIVATE_def MAP_ANONYMOUS_def MAP_POPULATE_def)
  have placed: "placed ?f b (e - b) b s" using assms(2,5) f(1) b by (simp add: placed_def valid_user_range_def)
  have "4096 dvd unat e - unat b" using assms(2,3) by (simp add: page_def)
  then obtain j where "unat (e - b) = 4096 * j" using b(4) by (auto elim!: dvdE)
  moreover have "0 < unat (e - b)" using b(2) by (simp add: unat_gt_0)
  ultimately have "(unat (e - b) - 1) div 4096 + 1 = unat (e - b) div 4096" by (cases j) simp_all
  then have room: "demand_paging (pkv s) \<noteq> 0" "\<exists>i<MAX_VMR. vmr_refcnt (vmr_table (pkv s) ! i) = 0"
      "2 * ((unat (e - b) - 1) div 4096 + 1) \<le> free_left s"
    using assms(6) by (simp_all add: room_for_def)
  show ?thesis
    using do_mmap_locked_runs [OF assms(1) b(2) placed f(2) room] unfolding b(1) by blast
qed

text \<open>The heap's end is rounded up to a page; its pages are mapped with all permissions.\<close>

theorem do_brk_moves:
  assumes "vm_inv s" "vm_lock (pkv s) = 0" "brk (pkv s) \<noteq> 0" "page (brk (pkv s))" "brk (pkv s) \<le> mmap_max s"
    and "page (brk_max (pkv s))" "brk_min (pkv s) \<le> brk_max (pkv s)" "brk_max (pkv s) \<le> mmap_max s"
    and new: "new = min (max addr (brk_min (pkv s))) (brk_max (pkv s))" and edge: "edge = ROUNDUP new RISCV_PGSIZE"
    and room: "room_for (unat (edge - brk (pkv s)) div 4096) s \<or> edge \<le> brk (pkv s)"
  shows "\<exists>s'. do_brk P addr s = Some (new, s') \<and> brk (pkv s') = edge \<and> vm_inv s' \<and> vm_lock (pkv s') = 0 \<and>
    (\<forall>k<2 ^ 27. view s' k = (if k \<in> pages_between edge (brk (pkv s)) then Unmapped
       else if k \<in> pages_between (brk (pkv s)) edge then Reserved (- 1) else view s k))"
proof -
  let ?b = "brk (pkv s)" and ?l = "locked s"
  have inv: "vm_ok s" using assms(1) by (simp add: vm_inv_def)
  note max = mmap_max_small [OF inv]
  have "unat new \<le> unat (brk_max (pkv s))" using assms(7) new by (auto simp: word_le_nat_alt min_def max_def)
  note tops = ROUNDUP_page [OF this assms(6), folded edge]
  have "page edge" "edge \<le> mmap_max s" using tops assms(8) max by (auto simp: word_le_nat_alt)
  have l: "vm_inv ?l" "mmap_max ?l = mmap_max s" "brk (pkv ?l) = ?b" "brk_min (pkv ?l) = brk_min (pkv s)"
      "brk_max (pkv ?l) = brk_max (pkv s)" using assms(1) by (simp_all add: locked_same) (simp_all add: locked_def)
  have clamp: "(if addr < brk_min (pkv s) then brk_min (pkv s) else if addr > brk_max (pkv s) then brk_max (pkv s) else addr) = new"
    using assms(7) by (auto simp: new min_def max_def)
  let ?run = "if ?b > edge then do_munmap_range P edge (?b - edge) ?l
      else if ?b < edge then do {
        (r, s') \<leftarrow> do_mmap_locked P ?b (edge - ?b) (- 1) (MAP_FIXED OR MAP_PRIVATE OR MAP_ANONYMOUS) None 0 ?l;
        kassert (r = brk (pkv s'));
        Some s' }
      else Some ?l"
  have "\<exists>s1 n. ?run = Some s1 \<and> vm_step n ?l s1 \<and> vm_inv s1 \<and>
    (\<forall>k<2 ^ 27. view s1 k = (if k \<in> pages_between edge ?b then Unmapped
       else if k \<in> pages_between ?b edge then Reserved (- 1) else view s k))"
  proof (rule linorder_cases [of edge ?b])
    assume lt: "edge < ?b"
    then have "\<not> ?b < edge" by (rule less_not_sym)
    then have "pages_between ?b edge = {}" by (rule pages_between_empty)
    moreover obtain s1 where "do_munmap_range P edge (?b - edge) ?l = Some s1" "vm_step 0 ?l s1" "vm_inv s1"
        "\<forall>k<2 ^ 27. view s1 k = (if k \<in> pages_between edge ?b then Unmapped else view s k)"
      using heap_shrinks [OF l(1) \<open>page edge\<close> lt, of P] assms(5) l(2) unfolding locked_same by metis
    ultimately show ?thesis using lt by (intro exI [of _ s1] exI [of _ 0]) simp
  next
    assume "edge = ?b"
    then show ?thesis using l(1) by (auto simp: pages_between_empty locked_same intro!: exI [of _ ?l])
  next
    assume lt: "?b < edge"
    then have "\<not> edge < ?b" by (rule less_not_sym)
    note none = this pages_between_empty [OF this]
    have "room_for (unat (edge - ?b) div 4096) s" using room lt by auto
    then have "room_for (unat (edge - ?b) div 4096) ?l" by (simp add: room_for_def locked_same) (simp add: locked_def)
    from heap_grows [OF l(1) assms(4) \<open>page edge\<close> lt _ this] obtain s1 n where s1:
        "do_mmap_locked P ?b (edge - ?b) (- 1) (MAP_FIXED OR MAP_PRIVATE OR MAP_ANONYMOUS) None 0 ?l = Some (?b, s1)"
        "vm_step n ?l s1" "vm_inv s1"
        "\<forall>k<2 ^ 27. view s1 k = (if k \<in> pages_between ?b edge then Reserved (- 1) else view s k)"
      using \<open>edge \<le> mmap_max s\<close> l(2) unfolding locked_same by metis
    then show ?thesis using lt none vm_step_same(12) [OF s1(2)] l(3) by (intro exI [of _ s1] exI [of _ n]) simp
  qed
  then obtain s1 n where run: "?run = Some s1" and s1: "vm_step n ?l s1" "vm_inv s1" "\<And>k. k < 2 ^ 27 \<Longrightarrow>
      view s1 k = (if k \<in> pages_between edge ?b then Unmapped else if k \<in> pages_between ?b edge then Reserved (- 1) else view s k)"
    by blast
  have "do_brk_locked P addr ?l = Option.bind ?run (\<lambda>s. Some (new, s\<lparr>pkv := (pkv s)\<lparr>brk := edge\<rparr>\<rparr>))"
    unfolding do_brk_locked_def Let_def l clamp edge [symmetric] if_not_P [OF assms(3)] ..
  then have locked_run: "do_brk_locked P addr ?l = Some (new, s1\<lparr>pkv := (pkv s1)\<lparr>brk := edge\<rparr>\<rparr>)"
    by (simp only: run Option.bind.simps)
  let ?t = "s1\<lparr>pkv := (pkv s1)\<lparr>brk := edge\<rparr>\<rparr>"
  let ?s' = "?t\<lparr>pkv := (pkv ?t)\<lparr>vm_lock := 0, brk_max := brk_max (pkv ?t)\<rparr>\<rparr>"
  have "do_brk P addr s = Some (new, ?s')"
    using assms(2) locked_run by (simp add: do_brk_def spinlock_lock_free spinlock_unlock_def)
  moreover have "vm_inv ?s'" "view ?s' = view s1"
    unfolding pkv_same(5,8) [OF refl] set_brk_same [OF refl] using s1(2) by simp_all
  ultimately show ?thesis using s1(3) by (intro exI [of _ ?s']) simp
qed

end
