(* ===== verification/Faults.thy ===== *)
theory Faults
  imports VmCalls SyscallProps
begin

text \<open>
  Page faults: the first access to a promised page gives it a wiped frame, and whether an access
  is let through is decided by the protection of the page. Changes of the protection.
\<close>

section \<open>Memory outside the tables\<close>

lemma ld64_cong:
  assumes "\<And>k. k < 8 \<Longrightarrow> m (p + of_nat k) = m' (p + of_nat k)"
  shows "ld64 m p = ld64 m' p"
proof -
  have "get_bytes ld8 m p 8 = get_bytes ld8 m' p 8"
    using assms by (intro nth_equalityI) (simp_all add: nth_get_bytes ld8_def)
  then show ?thesis by (simp add: ld64_def)
qed

lemma ram_outside_tables:
  assumes "vm_ok s" "\<forall>x. in_pool s x \<longrightarrow> m x = ram s x"
  shows "is \<in> paths \<Longrightarrow> node m (root_page_table (pkv s)) is = node (ram s) (root_page_table (pkv s)) is"
    "entry_of (s\<lparr>ram := m\<rparr>) = entry_of s" "vm_ok (s\<lparr>ram := m\<rparr>)"
proof -
  let ?root = "root_page_table (pkv s)"
  note tree = tree_of [OF assms(1)]
  have slot: "ld64 m (q + 8 * i) = ld64 (ram s) (q + 8 * i)" if "q \<in> pool s" "i < 512" for q i
    using in_pool_slot [OF assms(1) that] assms(2) by (intro ld64_cong) simp
  have nodes: "node m ?root is = node (ram s) ?root is" if "is \<in> paths" for "is"
    using that
  proof (induction "is" rule: rev_induct)
    case (snoc j "is")
    then have prefix: "is \<in> paths" "j < 512" using paths_prefix by blast+
    show ?case
    proof (cases "node (ram s) ?root is")
      case None
      then show ?thesis by (simp add: node_snoc snoc.IH [OF prefix(1)])
    next
      case (Some q)
      then have "q \<in> pool s" by (rule table_treeD(1) [OF tree prefix(1)])
      then show ?thesis using Some by (simp add: node_snoc snoc.IH [OF prefix(1)] sub_def slot [OF _ prefix(2)])
    qed
  qed simp
  then show "is \<in> paths \<Longrightarrow> node m ?root is = node (ram s) ?root is" .
  show "entry_of (s\<lparr>ram := m\<rparr>) = entry_of s"
  proof
    fix a show "entry_of (s\<lparr>ram := m\<rparr>) a = entry_of s a"
    proof (cases "node (ram s) ?root (leaf_path a)")
      case None
      then show ?thesis by (simp add: entry_of_def entry_def nodes)
    next
      case (Some t)
      then have "t \<in> pool s" by (rule table_treeD(1) [OF tree leaf_path_paths(1)])
      then show ?thesis using Some by (simp add: entry_of_def entry_def nodes slot pt_idx_less)
    qed
  qed
  have "table_tree m ?root (pool s)" using tree nodes unfolding table_tree_def by simp
  then show "vm_ok (s\<lparr>ram := m\<rparr>)" using assms(1) by (simp add: vm_ok_def pool_def pool_page_def)
qed

section \<open>The protection of a page\<close>

definition leaf_pte :: "'d world \<Rightarrow> nat \<Rightarrow> u32 \<Rightarrow> u64" where
  "leaf_pte s k prot = pte_create (of_nat k + first_free_paddr (pkv s) div RISCV_PGSIZE) (ucast (prot_to_type prot True))"

lemma prot_bits: "(w :: u32) AND 1 \<in> {0, 1}" "w AND 2 \<in> {0, 2}" "w AND 4 \<in> {0, 4}"
proof -
  have "w AND of_bool True * 2 ^ n = (if bit w n then 2 ^ n else 0)" for n
    by (rule bit_word_eqI) (auto simp: bit_simps)
  from this [of 0] this [of 1] this [of 2]
  show "w AND 1 \<in> {0, 1}" "w AND 2 \<in> {0, 2}" "w AND 4 \<in> {0, 4}" by auto
qed

lemma push_bit_and_small:
  assumes "(c :: u64) < 1024"
  shows "push_bit 10 (w :: u64) AND c = 0"
proof -
  have "c = take_bit 10 c"
    using assms by (simp add: take_bit_eq_mod word_unat_eq_iff unat_mod_distrib word_less_nat_alt)
  moreover have "push_bit 10 w AND take_bit 10 c = 0" by (rule bit_word_eqI) (auto simp: bit_simps)
  ultimately show ?thesis by simp
qed

text \<open>The three permissions decide: an access is let through exactly if the page has its bit.\<close>

lemma access_granted:
  assumes "access \<in> {PROT_READ, PROT_WRITE, PROT_EXEC}"
  shows "pte_create f (ucast (prot_to_type p True)) AND pte_create 0 (ucast (prot_to_type access True)) =
      pte_create 0 (ucast (prot_to_type access True)) \<longleftrightarrow> p AND access \<noteq> 0"
proof -
  have split: "(push_bit 10 f OR c) AND d = c AND d" if "d < 1024" for c d :: u64
    using push_bit_and_small [OF that, of f] by (simp add: bit.conj_disj_distrib2)
  show ?thesis
    using assms prot_bits [of p]
    by (elim insertE emptyE) (simp_all add: pte_create_def prot_to_type_def prots pte_bits split or.assoc)
qed

lemma pte_create_valid: "pte_create f t AND PTE_V = PTE_V"
proof -
  have "(x OR 1 OR y) AND 1 = (1 :: u64)" for x y by (rule bit_word_eqI) (auto simp: bit_simps)
  then show ?thesis by (simp add: pte_create_def PTE_V_def or.assoc)
qed

section \<open>The first access to a promised page\<close>

lemma page_base:
  "push_bit 12 (drop_bit 12 a) = (a AND NOT 4095 :: u64)" "page (push_bit 12 (drop_bit 12 a))"
  "vpn (push_bit 12 (drop_bit 12 a)) = vpn a" "unat (push_bit 12 (drop_bit 12 a)) = unat a div 4096 * 4096"
proof -
  show "push_bit 12 (drop_bit 12 a) = (a AND NOT 4095 :: u64)"
  proof (rule bit_word_eqI)
    fix n assume "n < LENGTH(64)"
    have "bit (4095 :: u64) n \<longleftrightarrow> n < 12"
      using bit_mask_iff [of 12 n, where 'a = u64] \<open>n < LENGTH(64)\<close> by (simp add: mask_eq_exp_minus_1)
    then show "bit (push_bit 12 (drop_bit 12 a)) n = bit (a AND NOT 4095) n"
      using \<open>n < LENGTH(64)\<close> by (auto simp: bit_simps)
  qed
  have "unat a div 4096 * 4096 < 2 ^ 64" using unat_u64_less [of a] div_times_less_eq_dividend [of "unat a" 4096] by linarith
  then show u: "unat (push_bit 12 (drop_bit 12 a)) = unat a div 4096 * 4096"
    by (simp add: push_bit_eq_mult drop_bit_eq_div unat_word_ariths(2) unat_div_distrib)
  show "page (push_bit 12 (drop_bit 12 a))" by (simp add: page_def u)
  show "vpn (push_bit 12 (drop_bit 12 a)) = vpn a" by (simp add: vpn_unat u)
qed

lemma user_page_not_in_pool:
  assumes "vm_ok s" "page b" "valid_user_range b 1 s"
  shows "unat b + 4096 \<le> 2 ^ 31" "k < 4096 \<Longrightarrow> in_pool s x \<Longrightarrow> x \<noteq> b + of_nat k"
proof -
  have "unat b < 2 ^ 31" using valid_user_range_end [OF assms(3,1)] by simp
  then show le: "unat b + 4096 \<le> 2 ^ 31" using assms(2) by (auto simp: page_def elim!: dvdE)
  have base: "2 ^ 31 \<le> unat (first_free_page (pkv s))" using assms(1) by (simp add: vm_ok_def DRAM_BASE_def word_le_nat_alt)
  assume k: "k < 4096" and x: "in_pool s x"
  have "unat (b + of_nat k) = unat b + k" using k le by (simp add: unat_add_no_wrap unat_of_nat_u64)
  then show "x \<noteq> b + of_nat k" using x k le base by (auto simp: in_pool_def)
qed

text \<open>Wiping the frame leaves the tables alone.\<close>

lemma wipe_page:
  assumes "vm_ok s" "vmr_ok s" "page b" "valid_user_range b 1 s"
  obtains m where "wipe b RISCV_PGSIZE s = Some (s\<lparr>ram := m\<rparr>)" "\<And>x. in_pool s x \<Longrightarrow> m x = ram s x"
    "\<And>x. unat x div 4096 \<noteq> unat b div 4096 \<Longrightarrow> m x = ram s x" "\<And>k. k < 4096 \<Longrightarrow> m (b + of_nat k) = 0"
proof -
  note user = user_page_not_in_pool [OF assms(1,3,4)]
  let ?m = "put_bytes st8 (ram s) b (replicate 4096 0)"
  have m: "?m (b + of_nat k) = 0" if "k < 4096" for k
    using ram_store.rd_put_inside [of "replicate 4096 0" k "ram s" b] that by (simp add: ld8_def)
  show thesis
  proof (rule that)
    show "wipe b RISCV_PGSIZE s = Some (s\<lparr>ram := ?m\<rparr>)"
      using wipe_fills [of b RISCV_PGSIZE s] user(1) by (simp add: RISCV_PGSIZE_def)
    show "?m x = ram s x" if "in_pool s x" for x using user(2) that by (intro outside_put) simp
    show "?m (b + of_nat k) = 0" if "k < 4096" for k by (rule m [OF that])
    show "?m x = ram s x" if "unat x div 4096 \<noteq> unat b div 4096" for x
    proof (rule outside_put)
      fix k assume "k < length (replicate 4096 (0 :: u8))"
      then have k: "k < 4096" by simp
      then have "unat (b + of_nat k) = unat b + k" using user(1) by (simp add: unat_add_no_wrap unat_of_nat_u64)
      moreover have "(unat b + k) div 4096 = unat b div 4096" using assms(3) k by (auto simp: page_def elim!: dvdE)
      ultimately show "x \<noteq> b + of_nat k" using that by auto
    qed
  qed
qed

lemma ram_update_regions:
  assumes "vm_ok s" "vmr_ok s" "\<forall>x. in_pool s x \<longrightarrow> m x = ram s x"
  shows "vmr_ok (s\<lparr>ram := m\<rparr>)" "vmr_ptr (s\<lparr>ram := m\<rparr>) = vmr_ptr s"
proof -
  show p: "vmr_ptr (s\<lparr>ram := m\<rparr>) = vmr_ptr s" by (simp add: vmr_ptr_def fun_eq_iff)
  show "vmr_ok (s\<lparr>ram := m\<rparr>)"
    using assms(2) ram_outside_tables(2) [OF assms(1,3)] unfolding vmr_ok_def p by simp
qed

text \<open>The page gets its frame; the descriptor loses one reference.\<close>

lemma fault_in:
  assumes inv: "vm_inv s" and i: "i < MAX_VMR" "entry_of s b = vmr_ptr s i" and b: "page b" "valid_user_range b 1 s"
    and V: "x1 AND PTE_V \<noteq> 0" "x2 AND PTE_V \<noteq> 0"
  obtains m s3 where
    "fill_page P (vmr_table (pkv s) ! i) b (set_pte (walk b s) x1 s) = Some ((set_pte (walk b s) x1 s)\<lparr>ram := m\<rparr>)"
    "vmr_decref P i 1 ((set_pte (walk b s) x1 s)\<lparr>ram := m\<rparr>) = Some s3"
    "vmr_prot (vmr_table (pkv s3) ! i) = vmr_prot (vmr_table (pkv s) ! i)"
    "vm_inv (set_pte (walk b s) x2 s3)" "sets_entries {vpn b} x2 s (set_pte (walk b s) x2 s3)"
    "same_regions s (set_pte (walk b s) x2 s3)" "\<And>k. k < 4096 \<Longrightarrow> ram (set_pte (walk b s) x2 s3) (b + of_nat k) = 0"
    "ld64 (ram (set_pte (walk b s) x2 s3)) (walk b s) = x2"
    "\<And>x. \<not> in_pool s x \<Longrightarrow> unat x div 4096 \<noteq> unat b div 4096 \<Longrightarrow> ram (set_pte (walk b s) x2 s3) x = ram s x"
    "set_pte (walk b s) x2 s3 = s\<lparr>ram := ram (set_pte (walk b s) x2 s3), pkv := (pkv s)\<lparr>vmr_table := vmr_table (pkv s3)\<rparr>\<rparr>"
proof -
  let ?p = "walk b s" let ?s1 = "set_pte ?p x1 s" and ?root = "root_page_table (pkv s)"
  have ok: "vm_ok s" "vmr_ok s" "refs_but s 0 0" using inv by (simp_all add: vm_inv_def)
  note ptr = vmr_ptr_not_valid [OF ok(2) i(1)]
  obtain t where t: "node (ram s) ?root (leaf_path b) = Some t" using walk_present [of s b] i(2) ptr(2) by auto
  note set1 = set_entry_inv [OF ok(1,2) t, of x1] walk_leaf(5) [OF ok(1) t, of 0 x1]
  have ok1: "vm_ok ?s1" "vmr_ok ?s1" using set1(1,2) V(1) by simp_all
  have user1: "valid_user_range b 1 ?s1" using b(2) unfolding valid_user_range_def by (simp only: set_pte_same)
  obtain m where m: "wipe b RISCV_PGSIZE ?s1 = Some (?s1\<lparr>ram := m\<rparr>)" "\<forall>x. in_pool ?s1 x \<longrightarrow> m x = ram ?s1 x"
      "\<And>x. unat x div 4096 \<noteq> unat b div 4096 \<Longrightarrow> m x = ram ?s1 x" "\<And>k. k < 4096 \<Longrightarrow> m (b + of_nat k) = 0"
    using wipe_page [OF ok1 b(1) user1] by metis
  let ?s2 = "?s1\<lparr>ram := m\<rparr>"
  note out = ram_outside_tables [OF ok1(1) m(2)] ram_update_regions [OF ok1 m(2)]
  have cnt: "unat (vmr_refcnt (vmr_table (pkv s) ! j)) = refs s (vmr_ptr s j)" if "j < MAX_VMR" for j
    using ok(3) that by (simp add: refs_but_def)
  have pos: "0 < unat (vmr_refcnt (vmr_table (pkv ?s2) ! i))" using cnt [OF i(1)] refs_pos [of s b] by (simp add: i(2))
  obtain s3 where s3: "vmr_decref P i 1 ?s2 = Some s3"
      "s3 = set_vmr i ((vmr_table (pkv ?s2) ! i)\<lparr>vmr_refcnt := vmr_refcnt (vmr_table (pkv ?s2) ! i) - 1\<rparr>) ?s2"
      "unat (vmr_refcnt (vmr_table (pkv s3) ! i)) = unat (vmr_refcnt (vmr_table (pkv ?s2) ! i)) - 1" "vmr_ok s3" "same_regions ?s2 s3"
    using vmr_decref_runs [OF out(4) i(1) pos] by metis
  have pool1: "in_pool ?s1 = in_pool s" by (simp add: in_pool_def fun_eq_iff)
  have same3: "vm_ok s3" "entry_of s3 = entry_of ?s1" "vmr_ptr s3 = vmr_ptr s" "ram s3 = m"
    using out(2,3,5) by (simp_all add: s3(2))
  have t3: "node (ram s3) (root_page_table (pkv s3)) (leaf_path b) = Some t"
    using out(1) [OF leaf_path_paths(1), of b] node_set_entry [OF ok(1) t, of x1 b] t by (simp add: s3(2))
  have p3: "walk b s3 = ?p" using walk_leaf(1) [OF same3(1) t3] walk_leaf(1) [OF ok(1) t] by simp
  let ?s4 = "set_pte ?p x2 s3"
  note set4 = set_entry_inv [OF same3(1) s3(4) t3, of x2, unfolded p3]
  have ent: "entry_of ?s4 a = (if vpn b = vpn a then x2 else entry_of s a)" for a
    using set4(3) V(2) walk_leaf(6) [OF ok(1) t, of x1 a] by (auto simp: sets_entries_def same3(2))
  have refs4: "refs ?s4 (vmr_ptr s j) + (if j = i then 1 else 0) = refs s (vmr_ptr s j)" if j: "j < MAX_VMR" for j
    using refs_set [OF ent, of "vmr_ptr s j"] vmr_ptr_not_valid [OF ok(2) j] vmr_ptr_eq_iff [OF ok(2) i(1) j] i(2) V(2)
    by (auto split: if_splits)
  have "unat (vmr_refcnt (vmr_table (pkv ?s4) ! j)) = refs ?s4 (vmr_ptr s j)" if j: "j < MAX_VMR" for j
    using refs4 [OF j] cnt [OF j] s3(3) by (cases "j = i") (auto simp: s3(2))
  then have inv4: "vm_inv ?s4" using set4(1,2) V(2) by (simp add: vm_inv_def refs_but_def same3(3))
  have outside: "ram ?s4 x = m x" if "\<not> in_pool s x" for x
    using walk_leaf(5) [OF same3(1) t3, of 0 x2] that pool1 unfolding p3
    by (simp add: vm_step_def same3(4)) (simp add: in_pool_def s3(2) set_vmr_def)
  show thesis
  proof (rule that [of m s3])
    have "vmr_file (vmr_table (pkv s) ! i) = None" using ok(2) i(1) by (simp add: vmr_ok_def)
    then show "fill_page P (vmr_table (pkv s) ! i) b ?s1 = Some ?s2" using m(1) by (simp add: fill_page_def)
    show "vmr_decref P i 1 ?s2 = Some s3" by (rule s3(1))
    have len: "length (vmr_table (pkv s)) = MAX_VMR" using ok(2) by (simp add: vmr_ok_def)
    then show "vmr_prot (vmr_table (pkv s3) ! i) = vmr_prot (vmr_table (pkv s) ! i)" using i(1) by (simp add: s3(2))
    show "vm_inv ?s4" by (rule inv4)
    show "sets_entries {vpn b} x2 s ?s4" by (auto simp: sets_entries_def ent)
    show "same_regions s ?s4" using s3(5) by (simp add: same_regions_def)
    show "ram ?s4 (b + of_nat k) = 0" if "k < 4096" for k
    proof -
      have "\<not> in_pool s (b + of_nat k)" using user_page_not_in_pool(2) [OF ok(1) b that] by blast
      then show ?thesis using outside m(4) [OF that] by simp
    qed
    show "ld64 (ram ?s4) ?p = x2" by (simp add: set_pte_def mem_simps)
    show "ram ?s4 x = ram s x" if "\<not> in_pool s x" "unat x div 4096 \<noteq> unat b div 4096" for x
      using outside [OF that(1)] m(3) [OF that(2)] walk_leaf(5) [OF ok(1) t, of 0 x1] that(1) by (simp add: vm_step_def)
    show "?s4 = s\<lparr>ram := ram ?s4, pkv := (pkv s)\<lparr>vmr_table := vmr_table (pkv s3)\<rparr>\<rparr>"
      by (simp add: s3(2) set_vmr_def set_pte_def)
  qed
qed

lemma page_fault_reserved_runs:
  assumes inv: "vm_inv s" and free: "vm_lock (pkv s) = 0" and v: "view s (vpn a) = Reserved p"
    and user: "a < mmap_max s" and access: "access \<in> {PROT_READ, PROT_WRITE, PROT_EXEC}"
  shows "\<exists>s'. handle_page_fault P a access s = Some (if p AND access \<noteq> 0 then 0 else - 1, s') \<and> vm_done {x. unat x div 4096 = unat a div 4096} s s' \<and>
    brk_max (pkv s') = brk_max (pkv s) \<and>
    (\<forall>k<2 ^ 27. view s' k = (if k = vpn a then Present (leaf_pte s (vpn a) p) else view s k)) \<and>
    (\<forall>j<4096. ram s' ((a AND NOT 4095) + of_nat j) = 0)"
proof -
  let ?b = "push_bit 12 (drop_bit 12 a)" and ?l = "locked s" and ?fr = "drop_bit 12 a + first_free_paddr (pkv s) div RISCV_PGSIZE"
  let ?x1 = "pte_create ?fr (ucast (prot_to_type (PROT_READ OR PROT_WRITE) False))" and ?x2 = "pte_create ?fr (ucast (prot_to_type p True))"
  have ok: "vm_inv ?l" "vm_ok ?l" "vmr_ok ?l" "vm_ok s" "vmr_ok s" using inv by (simp_all add: locked_same vm_inv_def)
  have max: "unat a < 2 ^ 31" using user mmap_max_small [OF ok(4)] by (simp add: word_less_nat_alt)
  have "unat ?b \<le> unat a" unfolding page_base(4) by simp
  then have small: "unat ?b + 1 \<le> unat (mmap_max s)" "unat ?b + 1 < 2 ^ 32"
    using user max by (simp_all add: word_less_nat_alt)
  have num: "drop_bit 12 a = of_nat (vpn a)"
    using max by (simp add: vpn_unat word_unat_eq_iff drop_bit_eq_div unat_div_distrib unat_of_nat_u64)
  have "unat (?b + 1) = unat ?b + 1" using small(2) unat_add_no_wrap [of ?b 1] by simp
  then have range: "valid_user_range ?b 1 ?l"
    using small(1) by (simp add: valid_user_range_def word_less_nat_alt word_le_nat_alt locked_def)
  have e: "entry_of s ?b \<noteq> 0" "entry_of s ?b AND PTE_V = 0"
      "p = vmr_prot (vmr_table (pkv s) ! vmr_of s (entry_of s ?b))"
    using v entry_of_vpn [of s ?b] by (simp_all add: view_def Let_def page_base(3) split: if_splits)
  obtain i where i: "i < MAX_VMR" "entry_of s ?b = vmr_ptr s i" "vmr_of s (entry_of s ?b) = i"
    using entry_vmr [OF ok(5) e(1,2)] by metis
  have V: "?x1 AND PTE_V \<noteq> 0" "?x2 AND PTE_V \<noteq> 0" by (simp_all add: pte_create_valid) (simp_all add: PTE_V_def)
  have prot: "vmr_prot (vmr_table (pkv ?l) ! i) = p" using e(3) i(3) by (simp add: locked_def)
  have il: "entry_of ?l ?b = vmr_ptr ?l i" using i(2) by (simp add: locked_same)
  obtain m s3 where f: "fill_page P (vmr_table (pkv ?l) ! i) ?b (set_pte (walk ?b ?l) ?x1 ?l) = Some ((set_pte (walk ?b ?l) ?x1 ?l)\<lparr>ram := m\<rparr>)"
    "vmr_decref P i 1 ((set_pte (walk ?b ?l) ?x1 ?l)\<lparr>ram := m\<rparr>) = Some s3"
    "vmr_prot (vmr_table (pkv s3) ! i) = vmr_prot (vmr_table (pkv ?l) ! i)"
    "vm_inv (set_pte (walk ?b ?l) ?x2 s3)" "sets_entries {vpn ?b} ?x2 ?l (set_pte (walk ?b ?l) ?x2 s3)"
    "same_regions ?l (set_pte (walk ?b ?l) ?x2 s3)" "\<And>k. k < 4096 \<Longrightarrow> ram (set_pte (walk ?b ?l) ?x2 s3) (?b + of_nat k) = 0"
    "ld64 (ram (set_pte (walk ?b ?l) ?x2 s3)) (walk ?b ?l) = ?x2"
    "\<And>x. \<not> in_pool ?l x \<Longrightarrow> unat x div 4096 \<noteq> unat ?b div 4096 \<Longrightarrow> ram (set_pte (walk ?b ?l) ?x2 s3) x = ram ?l x"
    "set_pte (walk ?b ?l) ?x2 s3 = ?l\<lparr>ram := ram (set_pte (walk ?b ?l) ?x2 s3), pkv := (pkv ?l)\<lparr>vmr_table := vmr_table (pkv s3)\<rparr>\<rparr>"
    using fault_in [OF ok(1) i(1) il page_base(2) range V, of P] by metis
  let ?s4 = "set_pte (walk ?b ?l) ?x2 s3"
  have granted: "?x2 AND pte_create 0 (ucast (prot_to_type access True)) = pte_create 0 (ucast (prot_to_type access True))
      \<longleftrightarrow> p AND access \<noteq> 0" by (rule access_granted [OF access])
  have "walk ?b ?l \<noteq> 0" "ld64 (ram ?l) (walk ?b ?l) = entry_of ?l ?b"
    using walk_present [of ?l ?b] walk_leaf(2,3) [OF ok(2), of ?b] e(1) unfolding locked_same by metis+
  moreover have of_i: "vmr_of ?l (entry_of s ?b) = i" using i(3) by (simp add: vmr_of_def locked_def)
  moreover have same_l: "first_free_paddr (pkv ?l) = first_free_paddr (pkv s)" by (simp add: locked_def)
  ultimately have run: "do_handle_page_fault P a access ?l = Some (if p AND access \<noteq> 0 then 0 else - 1, ?s4)"
    using e(1,2) range f(1-3,8) granted prot of_i same_l
    by (simp add: do_handle_page_fault_def Let_def locked_same)
  let ?s' = "?s4\<lparr>pkv := (pkv ?s4)\<lparr>vm_lock := 0, brk_max := brk_max (pkv ?s4)\<rparr>\<rparr>"
  have "handle_page_fault P a access s = Some (if p AND access \<noteq> 0 then 0 else - 1, ?s')"
    using free run by (simp add: handle_page_fault_def spinlock_lock_free spinlock_unlock_def)
  moreover have "vm_done {x. unat x div 4096 = unat a div 4096} s ?s'"
  proof -
    have "vm_inv ?s'" using f(4) unfolding pkv_same(8) [OF refl] .
    moreover have "ram ?s' x = ram s x" if "\<not> in_pool s x" "unat x div 4096 \<noteq> unat a div 4096" for x
      using f(9) [of x] that page_base(4) [of a] by (simp add: locked_same)
    moreover have "mmap_max ?s' = mmap_max s" "brk (pkv ?s') = brk (pkv s)" "sent ?s' = sent s" "fds (pkv ?s') = fds (pkv s)"
        "files (pkv ?s') = files (pkv s)"
      by (subst f(10), simp add: locked_def sent_def)+
    ultimately show ?thesis by (simp add: vm_done_def)
  qed
  moreover have "brk_max (pkv ?s') = brk_max (pkv s)" by (subst f(10)) (simp add: locked_def)
  moreover have "view ?s' k = (if k = vpn a then Present (leaf_pte s (vpn a) p) else view s k)" if k: "k < 2 ^ 27" for k
  proof -
    have "vmrs (pkv ?s4) = vmrs (pkv ?l)" by (subst f(10)) simp
    then have "view ?s4 k = view s k" if "k \<noteq> vpn a"
      using view_sets(1) [OF f(5,6) ok(3) _ k] that by (simp add: page_base(3) locked_same)
    moreover have "view ?s4 k = Present ?x2" if "k = vpn a"
    proof -
      have "entry_of ?s4 (page_of k) = ?x2" using f(5) that k by (simp add: sets_entries_def page_base(3))
      then show ?thesis using V(2) by (auto simp: view_def Let_def)
    qed
    ultimately show ?thesis unfolding pkv_same(5) [OF refl] by (simp add: leaf_pte_def num)
  qed
  moreover have "ram ?s' ((a AND NOT 4095) + of_nat j) = 0" if "j < 4096" for j
    using f(7) [OF that] by (simp add: page_base(1))
  ultimately show ?thesis by blast
qed

theorem handle_page_fault_reserved:
  assumes "vm_inv s" "vm_lock (pkv s) = 0" "view s (vpn a) = Reserved p" "a < mmap_max s"
    and "access \<in> {PROT_READ, PROT_WRITE, PROT_EXEC}"
  shows "\<exists>s'. handle_page_fault P a access s = Some (if p AND access \<noteq> 0 then 0 else - 1, s') \<and>
    vm_done {x. unat x div 4096 = unat a div 4096} s s' \<and> brk_max (pkv s') = brk_max (pkv s) \<and>
    (\<forall>k<2 ^ 27. view s' k = (if k = vpn a then Present (leaf_pte s (vpn a) p) else view s k)) \<and>
    (\<forall>j<4096. ram s' ((a AND NOT 4095) + of_nat j) = 0)"
  using assms by (rule page_fault_reserved_runs)

text \<open>A fault outside every mapping is refused and changes nothing.\<close>

lemma unlock_locked: "vm_lock (pkv s) = 0 \<Longrightarrow> spinlock_unlock (locked s) = s"
  by (cases s, cases "pkv s") (simp add: spinlock_unlock_def locked_def)

theorem handle_page_fault_refused:
  assumes "vm_ok s" "vm_lock (pkv s) = 0"
    and "view s (vpn a) = Unmapped \<or> \<not> valid_user_range (a AND NOT 4095) 1 s"
  shows "handle_page_fault P a prot s = Some (- 1, s)"
proof -
  let ?b = "push_bit 12 (drop_bit 12 a)" and ?l = "locked s"
  have "vm_ok ?l" using assms(1) by (simp add: locked_same)
  note avail = avail_iff [OF this, of ?b]
  have "entry_of s ?b = 0" if "view s (vpn a) = Unmapped"
    using that entry_of_vpn [of s ?b] by (simp add: view_def Let_def page_base(3) split: if_splits)
  moreover have "valid_user_range ?b 1 ?l = valid_user_range (a AND NOT 4095) 1 s"
    unfolding valid_user_range_def page_base(1) by (simp add: locked_def)
  ultimately have "walk ?b ?l = 0 \<or> ld64 (ram ?l) (walk ?b ?l) = 0 \<or> \<not> valid_user_range ?b 1 ?l"
    using assms(3) avail by (auto simp: locked_same)
  then have "do_handle_page_fault P a prot ?l = Some (- 1, ?l)" unfolding do_handle_page_fault_def Let_def by (rule if_P)
  then show ?thesis by (simp add: handle_page_fault_def spinlock_lock_free [OF assms(2)] unlock_locked [OF assms(2)])
qed

section \<open>Changing the protection\<close>

fun allows :: "page_state \<Rightarrow> u32 \<Rightarrow> bool" where
  "allows Unmapped access = False"
| "allows (Reserved p) access = (p AND access \<noteq> 0)"
| "allows (Present e) access = (access = PROT_READ \<and> e AND PTE_R \<noteq> 0 \<or> access = PROT_WRITE \<and> e AND PTE_W \<noteq> 0 \<or>
     access = PROT_EXEC \<and> e AND PTE_X \<noteq> 0)"

definition narrows :: "'d world \<Rightarrow> 'd world \<Rightarrow> bool" where
  "narrows s s' \<longleftrightarrow> (\<forall>k<2 ^ 27. (view s' k = Unmapped \<longleftrightarrow> view s k = Unmapped) \<and>
     (\<forall>access\<in>{PROT_WRITE, PROT_EXEC}. allows (view s' k) access \<longrightarrow> allows (view s k) access))"

lemma narrows_refl: "narrows s s"
  by (simp add: narrows_def)

lemma narrows_trans: "narrows s s1 \<Longrightarrow> narrows s1 s2 \<Longrightarrow> narrows s s2"
  by (simp add: narrows_def)

lemma pte_create_allows:
  assumes "access \<in> {PROT_WRITE, PROT_EXEC}" "allows (Present (pte_create f (ucast (prot_to_type prot True)))) access"
  shows "prot AND access \<noteq> 0"
proof -
  have split: "(push_bit 10 f OR c) AND d = c AND d" if "d < 1024" for c d :: u64
    using push_bit_and_small [OF that, of f] by (simp add: bit.conj_disj_distrib2)
  show ?thesis
    using assms prot_bits [of prot]
    by (elim insertE emptyE) (simp_all add: pte_create_def prot_to_type_def prots pte_bits split or.assoc)
qed

lemma u32_subset:
  assumes "((p :: u32) XOR q) AND NOT p = 0" "q AND access \<noteq> 0"
  shows "p AND access \<noteq> 0"
proof
  assume none: "p AND access = 0"
  have "q AND access = 0"
  proof (rule bit_word_eqI)
    fix n assume n: "n < LENGTH(32)"
    have "bit ((p XOR q) AND NOT p) n = False" "bit (p AND access) n = False" by (simp_all only: assms(1) none bit_0_eq bot_apply bot_bool_def)
    then show "bit (q AND access) n = bit (0 :: u32) n" using n by (auto simp: bit_simps)
  qed
  with assms(2) show False by simp
qed

lemma set_prot_inv:
  assumes "vm_inv s" "i < MAX_VMR"
  shows "vm_inv (set_vmr i ((vmr_table (pkv s) ! i)\<lparr>vmr_prot := prot\<rparr>) s)"
    "view (set_vmr i ((vmr_table (pkv s) ! i)\<lparr>vmr_prot := prot\<rparr>) s) k =
       (if entry_of s (page_of k) = vmr_ptr s i then Reserved prot else view s k)"
proof -
  let ?s1 = "set_vmr i ((vmr_table (pkv s) ! i)\<lparr>vmr_prot := prot\<rparr>) s"
  have ok: "vm_ok s" "vmr_ok s" "refs_but s 0 0" using assms(1) by (simp_all add: vm_inv_def)
  then have len: "length (vmr_table (pkv s)) = MAX_VMR" by (simp add: vmr_ok_def)
  have "vmr_ok ?s1" using ok(2) assms(2) len by (auto simp: vmr_ok_def nth_list_update)
  moreover have "refs_but ?s1 0 0" using ok(3) assms(2) len by (auto simp: refs_but_def nth_list_update)
  ultimately show "vm_inv ?s1" using ok(1) by (simp add: vm_inv_def)
  have of: "vmr_of ?s1 = vmr_of s" by (simp add: vmr_of_def fun_eq_iff)
  show "view ?s1 k = (if entry_of s (page_of k) = vmr_ptr s i then Reserved prot else view s k)"
  proof (cases "entry_of s (page_of k) \<noteq> 0 \<and> entry_of s (page_of k) AND PTE_V = 0")
    case True
    then obtain j where j: "j < MAX_VMR" "entry_of s (page_of k) = vmr_ptr s j" "vmr_of s (entry_of s (page_of k)) = j"
      using entry_vmr [OF ok(2), of "page_of k"] by metis
    then show ?thesis using True assms(2) len vmr_ptr_eq_iff [OF ok(2) j(1) assms(2)]
      by (auto simp: view_def Let_def of nth_list_update)
  next
    case False
    then have "entry_of s (page_of k) \<noteq> vmr_ptr s i" using vmr_ptr_not_valid [OF ok(2) assms(2)] by auto
    then show ?thesis using False by (auto simp: view_def Let_def)
  qed
qed

lemma set_present_inv:
  assumes "vm_inv s" "entry_of s a AND PTE_V \<noteq> 0" "x AND PTE_V \<noteq> 0"
  shows "vm_inv (set_pte (walk a s) x s)" "k < 2 ^ 27 \<Longrightarrow> view (set_pte (walk a s) x s) k = (if k = vpn a then Present x else view s k)"
proof -
  let ?s1 = "set_pte (walk a s) x s"
  have ok: "vm_ok s" "vmr_ok s" "refs_but s 0 0" using assms(1) by (simp_all add: vm_inv_def)
  have "entry_of s a \<noteq> 0" using assms(2) by auto
  then obtain t where t: "node (ram s) (root_page_table (pkv s)) (leaf_path a) = Some t" by (rule walk_present)
  note set = set_entry_inv [OF ok(1,2) t, of x]
  have "refs ?s1 (vmr_ptr s i) = refs s (vmr_ptr s i)" if "i < MAX_VMR" for i
    using refs_set [of ?s1 a x s "vmr_ptr s i"] walk_leaf(6) [OF ok(1) t] vmr_ptr_not_valid(1) [OF ok(2) that] assms(2,3)
    by (auto split: if_splits)
  then show "vm_inv ?s1" using set(1,2) assms(3) ok(3) by (simp add: vm_inv_def refs_but_def)
  assume k: "k < 2 ^ 27"
  have e: "entry_of ?s1 (page_of k) = (if k = vpn a then x else entry_of s (page_of k))"
    using set(3) assms(3) k by (simp add: sets_entries_def)
  have of: "vmr_of ?s1 = vmr_of s" by (simp add: vmr_of_def fun_eq_iff)
  show "view ?s1 k = (if k = vpn a then Present x else view s k)"
    using assms(3) by (auto simp: view_def Let_def e of)
qed

text \<open>One page: refused without effect, or the protection of its region or of the page is replaced.\<close>

lemma mprotect_page_narrows:
  assumes "vm_inv s" "entry_of s a \<noteq> 0" "mprotect_page prot (walk a s) s = (r, s1)"
  shows "vm_inv s1" "narrows s s1" "r \<noteq> 0 \<Longrightarrow> s1 = s"
proof -
  have ok: "vm_ok s" "vmr_ok s" using assms(1) by (simp_all add: vm_inv_def)
  let ?e = "entry_of s a"
  obtain t where t: "node (ram s) (root_page_table (pkv s)) (leaf_path a) = Some t" by (rule walk_present [OF assms(2)])
  note ld = walk_leaf(3) [OF ok(1) t]
  have "vm_inv s1 \<and> narrows s s1 \<and> (r \<noteq> 0 \<longrightarrow> s1 = s)"
  proof (cases "?e AND PTE_V = 0")
    case True
    then obtain i where i: "i < MAX_VMR" "?e = vmr_ptr s i" "vmr_of s ?e = i" using entry_vmr [OF ok(2) assms(2)] by metis
    let ?p = "vmr_prot (vmr_table (pkv s) ! i)"
    show ?thesis
    proof (cases "(?p XOR prot) AND NOT ?p = 0")
      case False
      then show ?thesis using assms(1,3) True i(3) ld by (simp add: mprotect_page_def Let_def narrows_refl)
    next
      case sub: True
      then have s1: "r = 0" "s1 = set_vmr i ((vmr_table (pkv s) ! i)\<lparr>vmr_prot := prot\<rparr>) s"
        using assms(3) True i(3) ld by (simp_all add: mprotect_page_def Let_def)
      have "view s k = Reserved ?p" if "entry_of s (page_of k) = vmr_ptr s i" for k
        using that vmr_ptr_not_valid [OF ok(2) i(1)] vmr_of_ptr [OF ok(2) i(1)] by (simp add: view_def Let_def)
      then have "narrows s s1"
        using u32_subset [OF sub] by (auto simp: narrows_def s1(2) set_prot_inv(2) [OF assms(1) i(1)])
      then show ?thesis using set_prot_inv(1) [OF assms(1) i(1)] s1 by simp
    qed
  next
    case False
    let ?x = "pte_create (pte_ppn ?e) (ucast (prot_to_type prot True))"
    have x: "?x AND PTE_V \<noteq> 0" by (simp add: pte_create_valid) (simp add: PTE_V_def)
    show ?thesis
    proof (cases "?e AND PTE_U = 0 \<or> prot AND PROT_READ \<noteq> 0 \<and> ?e AND PTE_R = 0 \<or>
             prot AND PROT_WRITE \<noteq> 0 \<and> ?e AND PTE_W = 0 \<or> prot AND PROT_EXEC \<noteq> 0 \<and> ?e AND PTE_X = 0")
      case True
      then show ?thesis using assms(1,3) False ld by (simp add: mprotect_page_def Let_def narrows_refl)
    next
      case sub: False
      then have s1: "r = 0" "s1 = set_pte (walk a s) ?x s"
        using assms(3) False ld by (auto simp: mprotect_page_def Let_def)
      have "view s (vpn a) = Present ?e" using False entry_of_vpn [of s a] by (auto simp: view_def Let_def)
      moreover have "allows (Present ?e) access" if "access \<in> {PROT_WRITE, PROT_EXEC}" "allows (Present ?x) access" for access
        using pte_create_allows [OF that] that(1) sub by auto
      ultimately have "narrows s s1"
        unfolding narrows_def s1(2) by (simp add: set_present_inv(2) [OF assms(1) False x] del: allows.simps)
      then show ?thesis using set_present_inv(1) [OF assms(1) False x] s1 by simp
    qed
  qed
  then show "vm_inv s1" "narrows s s1" "r \<noteq> 0 \<Longrightarrow> s1 = s" by simp_all
qed

lemma mprotect_loop_runs:
  assumes "vm_inv s" "page a" "unat lim \<le> 2 ^ 32"
  shows "\<exists>r s'. mprotect_loop prot a lim s = Some (r, s') \<and> vm_inv s' \<and> narrows s s'"
  using assms
proof (induction "unat lim - unat a" arbitrary: a s rule: less_induct)
  case less
  show ?case
  proof (cases "a < lim")
    case False
    then show ?thesis using less.prems(1) by (subst mprotect_loop.simps) (simp add: narrows_refl)
  next
    case True
    note step = pages_between_step [OF True less.prems(2,3)]
    have ok: "vm_ok s" using less.prems(1) by (simp add: vm_inv_def)
    show ?thesis
    proof (cases "entry_of s a = 0")
      case none: True
      then have "walk a s = 0 \<or> ld64 (ram s) (walk a s) = 0" using avail_iff [OF ok, of a] by simp
      then show ?thesis using True less.prems(1) by (subst mprotect_loop.simps) (simp add: Let_def narrows_refl)
    next
      case mapped: False
      obtain r s1 where s1: "mprotect_page prot (walk a s) s = (r, s1)" by fastforce
      note one = mprotect_page_narrows [OF less.prems(1) mapped s1]
      have run: "mprotect_loop prot a lim s = (if r \<noteq> 0 then Some (r, s1) else mprotect_loop prot (a + 4096) lim s1)"
        using True mapped avail_iff [OF ok, of a] by (subst mprotect_loop.simps) (simp add: Let_def s1 RISCV_PGSIZE_def)
      have "unat lim - unat (a + 4096) < unat lim - unat a" using True step(4) by (simp add: word_less_nat_alt)
      from less.hyps [OF this one(1) step(3) less.prems(3)] obtain r' s' where
          "mprotect_loop prot (a + 4096) lim s1 = Some (r', s')" "vm_inv s'" "narrows s1 s'" by blast
      then show ?thesis using run one narrows_trans by (cases "r = 0") auto
    qed
  qed
qed

text \<open>
  \<^bold>\<open>C11\<close>: mprotect, whatever it returns, never lets a page be written or
  executed that could not be before, and neither maps nor unmaps a page.
\<close>

theorem do_mprotect_narrows:
  assumes "vm_inv s" "vm_lock (pkv s) = 0" "page addr" "unat (addr + len) \<le> 2 ^ 32"
  shows "\<exists>r s'. do_mprotect addr len prot s = Some (r, s') \<and> vm_inv s' \<and> vm_lock (pkv s') = 0 \<and> narrows s s'"
proof -
  have "vm_inv (locked s)" using assms(1) by (simp add: locked_same)
  from mprotect_loop_runs [OF this assms(3,4)] obtain r s1 where
      s1: "mprotect_loop prot addr (addr + len) (locked s) = Some (r, s1)" "vm_inv s1" "narrows (locked s) s1" by blast
  let ?s' = "s1\<lparr>pkv := (pkv s1)\<lparr>vm_lock := 0, brk_max := brk_max (pkv s1)\<rparr>\<rparr>"
  have "do_mprotect addr len prot s = Some (r, ?s')"
    using assms(2,3) s1(1) by (simp add: do_mprotect_def RISCV_PGSIZE_def and_4095_page spinlock_lock_free spinlock_unlock_def)
  moreover have "narrows s ?s'" using s1(3) unfolding narrows_def pkv_same(5) [OF refl] locked_same .
  moreover have "vm_inv ?s'" using s1(2) unfolding pkv_same(8) [OF refl] .
  ultimately show ?thesis by (intro exI [of _ r] exI [of _ ?s']) simp
qed

text \<open>
  On a page that is only promised the call changes the descriptor, and so every promised page of the
  region, inside and outside the range.
\<close>

theorem do_mprotect_spreads:
  assumes "vm_inv s" "vm_lock (pkv s) = 0" "page a" "a < mmap_max s" "view s (vpn a) = Reserved p" "prot AND NOT p = 0"
  shows "\<exists>s'. do_mprotect a 1 prot s = Some (0, s') \<and>
    (\<forall>k. view s' k = (if entry_of s (page_of k) = entry_of s a then Reserved prot else view s k))"
proof -
  let ?l = "locked s"
  have ok: "vm_inv ?l" "vm_ok ?l" "vmr_ok s" "vm_ok s" using assms(1) by (simp_all add: locked_same vm_inv_def)
  have e: "entry_of s a \<noteq> 0" "entry_of s a AND PTE_V = 0" "p = vmr_prot (vmr_table (pkv s) ! vmr_of s (entry_of s a))"
    using assms(5) entry_of_vpn [of s a] by (simp_all add: view_def Let_def split: if_splits)
  obtain i where i: "i < MAX_VMR" "entry_of s a = vmr_ptr s i" "vmr_of s (entry_of s a) = i"
    using entry_vmr [OF ok(3) e(1,2)] by metis
  let ?s1 = "set_vmr i ((vmr_table (pkv ?l) ! i)\<lparr>vmr_prot := prot\<rparr>) ?l"
  have "entry_of ?l a \<noteq> 0" using e(1) by (simp add: locked_same)
  then obtain t where t: "node (ram ?l) (root_page_table (pkv ?l)) (leaf_path a) = Some t" by (rule walk_present)
  have ld: "ld64 (ram ?l) (walk a ?l) = entry_of s a" "walk a ?l \<noteq> 0"
    using walk_leaf(2,3) [OF ok(2) t] by (simp_all add: locked_same)
  have "vmr_of ?l (entry_of s a) = i" using i(3) by (simp add: vmr_of_def locked_def)
  moreover have "vmr_prot (vmr_table (pkv ?l) ! i) = p" using e(3) i(3) by (simp add: locked_def)
  moreover have "(p XOR prot) AND NOT p = prot AND NOT p" by (rule bit_word_eqI) (auto simp: bit_simps)
  ultimately have one: "mprotect_page prot (walk a ?l) ?l = (0, ?s1)"
    using e(2) assms(6) ld(1) by (simp add: mprotect_page_def Let_def)
  have "unat a < 2 ^ 31" using assms(4) mmap_max_small [OF ok(4)] by (simp add: word_less_nat_alt)
  then have lt: "a < a + 1" "\<not> a + 4096 < a + 1" by (simp_all add: word_less_nat_alt unat_add_no_wrap)
  then have "mprotect_loop prot a (a + 1) ?l = mprotect_loop prot (a + 4096) (a + 1) ?s1"
    using ld e(1) one by (subst mprotect_loop.simps) (simp add: Let_def RISCV_PGSIZE_def)
  also have "\<dots> = Some (0, ?s1)" using lt(2) by (subst mprotect_loop.simps) simp
  finally have "mprotect_loop prot a (a + 1) ?l = Some (0, ?s1)" .
  then have "do_mprotect a 1 prot s = Some (0, ?s1\<lparr>pkv := (pkv ?s1)\<lparr>vm_lock := 0, brk_max := brk_max (pkv ?s1)\<rparr>\<rparr>)"
    using assms(2,3) by (simp add: do_mprotect_def RISCV_PGSIZE_def and_4095_page spinlock_lock_free spinlock_unlock_def)
  moreover have "view (?s1\<lparr>pkv := (pkv ?s1)\<lparr>vm_lock := 0, brk_max := brk_max (pkv ?s1)\<rparr>\<rparr>) k =
      (if entry_of s (page_of k) = entry_of s a then Reserved prot else view s k)" for k
    using set_prot_inv(2) [OF ok(1) i(1)] i(2) unfolding pkv_same(5) [OF refl] by (simp add: locked_same)
  ultimately show ?thesis by blast
qed

end
