(* ===== verification/FileCalls.thy ===== *)
theory FileCalls
  imports Vm
begin

text \<open>
  Reading and writing files on the host (\<^verbatim>\<open>src/pk/pk/file.c\<close>), the touching of user pages
  before that (\<^verbatim>\<open>populate_mapping\<close> of \<^verbatim>\<open>mmap.c\<close>) and the file calls of
  \<^verbatim>\<open>src/pk/pk/syscall.c\<close>. A call whose kernel function has the C type \<^verbatim>\<open>int\<close> returns 32 bits.
\<close>

section \<open>Touching user pages\<close>

text \<open>
  An access of the kernel to an address goes through the page table. It succeeds if the page is
  present with the permission (and its accessed and dirty bits, which the hart does not set
  itself); otherwise it traps to \<^verbatim>\<open>handle_page_fault\<close> and is repeated.
\<close>

definition can_access :: "u32 \<Rightarrow> u64 \<Rightarrow> 'd world \<Rightarrow> bool" where
  "can_access prot a s =
     (let pte = walk a s; need = (if prot AND PROT_WRITE \<noteq> 0 then PTE_V OR PTE_W OR PTE_D else PTE_V OR PTE_R OR PTE_A)
      in pte \<noteq> 0 \<and> ld64 (ram s) pte AND need = need)"

definition touch :: "'d platform \<Rightarrow> u32 \<Rightarrow> u64 \<Rightarrow> 'd world \<Rightarrow> 'd world option" where
  "touch P prot a s =
     (if can_access prot a s then Some s
      else do {
        (r, s) \<leftarrow> handle_page_fault P a (if prot AND PROT_WRITE \<noteq> 0 then PROT_WRITE else PROT_READ) s;
        kassert (r = 0 \<and> can_access prot a s);
        Some s })"

partial_function (option) populate_from :: "'d platform \<Rightarrow> u32 \<Rightarrow> u64 \<Rightarrow> u64 \<Rightarrow> 'd world \<Rightarrow> 'd world option" where
  "populate_from P prot a lim s =
     (if a < lim then do { s \<leftarrow> touch P prot a s; populate_from P prot (a + RISCV_PGSIZE) lim s } else Some s)"

definition populate_mapping :: "'d platform \<Rightarrow> u64 \<Rightarrow> u64 \<Rightarrow> u32 \<Rightarrow> 'd world \<Rightarrow> 'd world option" where
  "populate_mapping P start n prot s = populate_from P prot (ROUNDDOWN start RISCV_PGSIZE) (start + n) s"

section \<open>File contents\<close>

definition host_fd :: "nat \<Rightarrow> 'd world \<Rightarrow> u64" where
  "host_fd f s = scast (kfd (file_at s f))"

definition file_read :: "'d platform \<Rightarrow> nat \<Rightarrow> u64 \<Rightarrow> u64 \<Rightarrow> 'd world \<Rightarrow> (u64 \<times> 'd world) option" where
  "file_read P f buf n s = do {
     s \<leftarrow> populate_mapping P buf n PROT_WRITE s;
     frontend_syscall P SYS_read (host_fd f s) (va2pa buf s) n 0 0 0 0 s }"

definition file_pread :: "'d platform \<Rightarrow> nat \<Rightarrow> u64 \<Rightarrow> u64 \<Rightarrow> u64 \<Rightarrow> 'd world \<Rightarrow> (u64 \<times> 'd world) option" where
  "file_pread P f buf n offset s = do {
     s \<leftarrow> populate_mapping P buf n PROT_WRITE s;
     frontend_syscall P SYS_pread (host_fd f s) (va2pa buf s) n offset 0 0 0 s }"

definition file_write :: "'d platform \<Rightarrow> nat \<Rightarrow> u64 \<Rightarrow> u64 \<Rightarrow> 'd world \<Rightarrow> (u64 \<times> 'd world) option" where
  "file_write P f buf n s = do {
     s \<leftarrow> populate_mapping P buf n PROT_READ s;
     frontend_syscall P SYS_write (host_fd f s) (va2pa buf s) n 0 0 0 0 s }"

definition file_pwrite :: "'d platform \<Rightarrow> nat \<Rightarrow> u64 \<Rightarrow> u64 \<Rightarrow> u64 \<Rightarrow> 'd world \<Rightarrow> (u64 \<times> 'd world) option" where
  "file_pwrite P f buf n offset s = do {
     s \<leftarrow> populate_mapping P buf n PROT_READ s;
     frontend_syscall P SYS_pwrite (host_fd f s) (va2pa buf s) n offset 0 0 0 s }"

text \<open>The fields that \<^verbatim>\<open>copy_stat\<close> takes from the record the host filled in.\<close>

definition copy_stat :: "'d platform \<Rightarrow> u64 \<Rightarrow> u64 \<Rightarrow> 'd world \<Rightarrow> 'd world" where
  "copy_stat P dest src s =
     (let q = \<lambda>off. ld64 (ram s) (src + off); w = \<lambda>off. ucast (ld32 (ram s) (src + off))
      in s\<lparr>ram := put_stat P dest [q 0, q 8, w 16, w 20, w 24, w 28, q 32, q 48, w 56, q 64, q 72, q 88, q 104] (ram s)\<rparr>)"

text \<open>\<open>buf\<close> is the address of the local record.\<close>

definition file_stat :: "'d platform \<Rightarrow> u64 \<Rightarrow> nat \<Rightarrow> u64 \<Rightarrow> 'd world \<Rightarrow> (u32 \<times> 'd world) option" where
  "file_stat P buf f st s = do {
     (ret, s) \<leftarrow> frontend_syscall P SYS_fstat (host_fd f s) (va2pa buf s) 0 0 0 0 0 s;
     Some (ucast ret, copy_stat P st buf s) }"

section \<open>The calls on open files\<close>

text \<open>All of them take a reference to the file for the time of the operation.\<close>

definition with_file :: "'d platform \<Rightarrow> u32 \<Rightarrow> (nat \<Rightarrow> 'd world \<Rightarrow> (u64 \<times> 'd world) option) \<Rightarrow> 'd world
    \<Rightarrow> (u64 \<times> 'd world) option" where
  "with_file P fd op s =
     (case file_get fd s of
        (None, s) \<Rightarrow> Some (- EBADF, s)
      | (Some f, s) \<Rightarrow> do { (r, s) \<leftarrow> op f s; s \<leftarrow> file_decref P f s; Some (r, s) })"

definition sys_read :: "'d platform \<Rightarrow> u32 \<Rightarrow> u64 \<Rightarrow> u64 \<Rightarrow> 'd world \<Rightarrow> (u64 \<times> 'd world) option" where
  "sys_read P fd buf n s = with_file P fd (\<lambda>f. file_read P f buf n) s"

definition sys_pread :: "'d platform \<Rightarrow> u32 \<Rightarrow> u64 \<Rightarrow> u64 \<Rightarrow> u64 \<Rightarrow> 'd world \<Rightarrow> (u64 \<times> 'd world) option" where
  "sys_pread P fd buf n offset s = with_file P fd (\<lambda>f. file_pread P f buf n offset) s"

definition sys_write :: "'d platform \<Rightarrow> u32 \<Rightarrow> u64 \<Rightarrow> u64 \<Rightarrow> 'd world \<Rightarrow> (u64 \<times> 'd world) option" where
  "sys_write P fd buf n s = with_file P fd (\<lambda>f. file_write P f buf n) s"

text \<open>The results of the kernel functions of type \<^verbatim>\<open>int\<close>.\<close>

definition to_int :: "(u64 \<times> 'd world) option \<Rightarrow> (u32 \<times> 'd world) option" where
  "to_int r = map_option (\<lambda>(v, s). (ucast v, s)) r"

definition to_long :: "(u32 \<times> 'd world) option \<Rightarrow> (u64 \<times> 'd world) option" where
  "to_long r = map_option (\<lambda>(v, s). (scast v, s)) r"

definition sys_fstat :: "'d platform \<Rightarrow> u64 \<Rightarrow> u32 \<Rightarrow> u64 \<Rightarrow> 'd world \<Rightarrow> (u32 \<times> 'd world) option" where
  "sys_fstat P buf fd st s = to_int (with_file P fd (\<lambda>f s. to_long (file_stat P buf f st s)) s)"

definition SYS_fcntl :: u64 where "SYS_fcntl = 25"

definition sys_fcntl :: "'d platform \<Rightarrow> u32 \<Rightarrow> u32 \<Rightarrow> u32 \<Rightarrow> 'd world \<Rightarrow> (u32 \<times> 'd world) option" where
  "sys_fcntl P fd cmd arg s = to_int (with_file P fd
     (\<lambda>f s. frontend_syscall P SYS_fcntl (host_fd f s) (scast cmd) (scast arg) 0 0 0 0 s) s)"

definition sys_ftruncate :: "'d platform \<Rightarrow> u32 \<Rightarrow> u64 \<Rightarrow> 'd world \<Rightarrow> (u32 \<times> 'd world) option" where
  "sys_ftruncate P fd len s = to_int (with_file P fd (\<lambda>f. file_truncate P f len) s)"

definition sys_dup :: "'d platform \<Rightarrow> u32 \<Rightarrow> 'd world \<Rightarrow> (u32 \<times> 'd world) option" where
  "sys_dup P fd s = to_int (with_file P fd (\<lambda>f s. to_long (file_dup f s)) s)"

definition sys_dup3 :: "'d platform \<Rightarrow> u32 \<Rightarrow> u32 \<Rightarrow> u32 \<Rightarrow> 'd world \<Rightarrow> (u32 \<times> 'd world) option" where
  "sys_dup3 P fd newfd flags s = do {
     kassert (flags = 0);
     to_int (with_file P fd (\<lambda>f s. to_long (file_dup3 f newfd s)) s) }"

definition sys_lseek :: "'d platform \<Rightarrow> u32 \<Rightarrow> u64 \<Rightarrow> u32 \<Rightarrow> 'd world \<Rightarrow> (u64 \<times> 'd world) option" where
  "sys_lseek P fd ptr dir s = with_file P fd (\<lambda>f. file_lseek P f ptr dir) s"

text \<open>\<open>iov\<close> holds address and length of each part; the turns of the loop are counted.\<close>

partial_function (option) writev_loop :: "'d platform \<Rightarrow> u32 \<Rightarrow> u64 \<Rightarrow> u32 \<Rightarrow> u32 \<Rightarrow> u64 \<Rightarrow> 'd world \<Rightarrow> (u64 \<times> 'd world) option" where
  "writev_loop P fd iov cnt i ret s =
     (if sint i < sint cnt then do {
        (r, s) \<leftarrow> sys_write P fd (ld64 (ram s) (iov + 16 * scast i)) (ld64 (ram s) (iov + 16 * scast i + 8)) s;
        if sint r < 0 then Some (r, s) else writev_loop P fd iov cnt (i + 1) (ret + r) s }
      else Some (ret, s))"

definition sys_writev :: "'d platform \<Rightarrow> u32 \<Rightarrow> u64 \<Rightarrow> u32 \<Rightarrow> 'd world \<Rightarrow> (u64 \<times> 'd world) option" where
  "sys_writev P fd iov cnt s = writev_loop P fd iov cnt 0 0 s"

section \<open>The calls on names\<close>

definition at_kfd :: "u32 \<Rightarrow> 'd world \<Rightarrow> u32 \<times> 'd world" where
  "at_kfd dirfd s =
     (if dirfd = AT_FDCWD then (AT_FDCWD, s)
      else case file_get dirfd s of
        (None, s) \<Rightarrow> (- 1, s)
      | (Some f, s) \<Rightarrow> (kfd (file_at s f), s))"

text \<open>
  An error pointer of less than \<open>- 4096\<close> does not count as one and is used as a file; no
  defined run follows.
\<close>

definition sys_openat :: "'d platform \<Rightarrow> u32 \<Rightarrow> u64 \<Rightarrow> u32 \<Rightarrow> u32 \<Rightarrow> 'd world \<Rightarrow> (u32 \<times> 'd world) option" where
  "sys_openat P dirfd name flags mode s =
     (let (kfd, s) = at_kfd dirfd s
      in if kfd \<noteq> - 1 then do {
           (file, s) \<leftarrow> file_openat P kfd name flags mode s;
           case file of
             Inl e \<Rightarrow> if e \<ge> - 4096 then Some (ucast e, s) else None
           | Inr f \<Rightarrow> do {
               (fd, s) \<leftarrow> file_dup f s;
               if sint fd < 0 then do { s \<leftarrow> file_decref P f s; Some (- ucast ENOMEM, s) }
               else Some (fd, s) } }
         else Some (- ucast EBADF, s))"

definition sys_open :: "'d platform \<Rightarrow> u64 \<Rightarrow> u32 \<Rightarrow> u32 \<Rightarrow> 'd world \<Rightarrow> (u32 \<times> 'd world) option" where
  "sys_open P name flags mode s = sys_openat P AT_FDCWD name flags mode s"

definition sys_close :: "'d platform \<Rightarrow> u32 \<Rightarrow> 'd world \<Rightarrow> (u32 \<times> 'd world) option" where
  "sys_close P fd s = do { (ret, s) \<leftarrow> fd_close P fd s; Some (if sint ret < 0 then - ucast EBADF else ret, s) }"

text \<open>A call on a name in a directory, and on two of them.\<close>

definition on_name :: "'d platform \<Rightarrow> u64 \<Rightarrow> u32 \<Rightarrow> u64 \<Rightarrow> u64 \<Rightarrow> u64 \<Rightarrow> 'd world \<Rightarrow> (u64 \<times> 'd world) option" where
  "on_name P n dirfd name x y s =
     (let (kfd, s) = at_kfd dirfd s
      in if kfd \<noteq> - 1 then do {
           len \<leftarrow> strlen (ram s) name;
           frontend_syscall P n (scast kfd) (va2pa name s) (len + 1) x y 0 0 s }
         else Some (- EBADF, s))"

definition on_names :: "'d platform \<Rightarrow> u64 \<Rightarrow> u32 \<Rightarrow> u64 \<Rightarrow> u32 \<Rightarrow> u64 \<Rightarrow> u64 \<Rightarrow> 'd world \<Rightarrow> (u64 \<times> 'd world) option" where
  "on_names P n old_fd old_name new_fd new_name x s =
     (let (old_kfd, s) = at_kfd old_fd s; (new_kfd, s) = at_kfd new_fd s
      in if old_kfd \<noteq> - 1 \<and> new_kfd \<noteq> - 1 then do {
           old_len \<leftarrow> strlen (ram s) old_name;
           new_len \<leftarrow> strlen (ram s) new_name;
           frontend_syscall P n (scast old_kfd) (va2pa old_name s) (old_len + 1) (scast new_kfd)
             (va2pa new_name s) (new_len + 1) x s }
         else Some (- EBADF, s))"

definition SYS_renameat :: u64 where "SYS_renameat = 38"
definition SYS_lstat :: u64 where "SYS_lstat = 1039"
definition SYS_fstatat :: u64 where "SYS_fstatat = 79"
definition SYS_faccessat :: u64 where "SYS_faccessat = 48"
definition SYS_linkat :: u64 where "SYS_linkat = 37"
definition SYS_unlinkat :: u64 where "SYS_unlinkat = 35"
definition SYS_mkdirat :: u64 where "SYS_mkdirat = 34"
definition SYS_getcwd :: u64 where "SYS_getcwd = 17"
definition SYS_chdir :: u64 where "SYS_chdir = 49"

definition sys_renameat :: "'d platform \<Rightarrow> u32 \<Rightarrow> u64 \<Rightarrow> u32 \<Rightarrow> u64 \<Rightarrow> 'd world \<Rightarrow> (u32 \<times> 'd world) option" where
  "sys_renameat P old_fd old_path new_fd new_path s =
     to_int (on_names P SYS_renameat old_fd old_path new_fd new_path 0 s)"

definition sys_lstat :: "'d platform \<Rightarrow> u64 \<Rightarrow> u64 \<Rightarrow> u64 \<Rightarrow> 'd world \<Rightarrow> (u64 \<times> 'd world) option" where
  "sys_lstat P buf name st s = do {
     len \<leftarrow> strlen (ram s) name;
     (ret, s) \<leftarrow> frontend_syscall P SYS_lstat (va2pa name s) (len + 1) (va2pa buf s) 0 0 0 0 s;
     Some (ret, copy_stat P st buf s) }"

definition sys_fstatat :: "'d platform \<Rightarrow> u64 \<Rightarrow> u32 \<Rightarrow> u64 \<Rightarrow> u64 \<Rightarrow> u32 \<Rightarrow> 'd world \<Rightarrow> (u64 \<times> 'd world) option" where
  "sys_fstatat P buf dirfd name st flags s =
     (let (kfd, s) = at_kfd dirfd s
      in if kfd \<noteq> - 1 then do {
           len \<leftarrow> strlen (ram s) name;
           (ret, s) \<leftarrow> frontend_syscall P SYS_fstatat (scast kfd) (va2pa name s) (len + 1) (va2pa buf s) (scast flags) 0 0 s;
           Some (ret, copy_stat P st buf s) }
         else Some (- EBADF, s))"

definition sys_stat :: "'d platform \<Rightarrow> u64 \<Rightarrow> u64 \<Rightarrow> u64 \<Rightarrow> 'd world \<Rightarrow> (u64 \<times> 'd world) option" where
  "sys_stat P buf name st s = sys_fstatat P buf AT_FDCWD name st 0 s"

definition sys_faccessat :: "'d platform \<Rightarrow> u32 \<Rightarrow> u64 \<Rightarrow> u32 \<Rightarrow> 'd world \<Rightarrow> (u64 \<times> 'd world) option" where
  "sys_faccessat P dirfd name mode s = on_name P SYS_faccessat dirfd name (scast mode) 0 s"

definition sys_access :: "'d platform \<Rightarrow> u64 \<Rightarrow> u32 \<Rightarrow> 'd world \<Rightarrow> (u64 \<times> 'd world) option" where
  "sys_access P name mode s = sys_faccessat P AT_FDCWD name mode s"

definition sys_linkat :: "'d platform \<Rightarrow> u32 \<Rightarrow> u64 \<Rightarrow> u32 \<Rightarrow> u64 \<Rightarrow> u32 \<Rightarrow> 'd world \<Rightarrow> (u64 \<times> 'd world) option" where
  "sys_linkat P old_dirfd old_name new_dirfd new_name flags s =
     on_names P SYS_linkat old_dirfd old_name new_dirfd new_name (scast flags) s"

definition sys_link :: "'d platform \<Rightarrow> u64 \<Rightarrow> u64 \<Rightarrow> 'd world \<Rightarrow> (u64 \<times> 'd world) option" where
  "sys_link P old_name new_name s = sys_linkat P AT_FDCWD old_name AT_FDCWD new_name 0 s"

definition sys_unlinkat :: "'d platform \<Rightarrow> u32 \<Rightarrow> u64 \<Rightarrow> u32 \<Rightarrow> 'd world \<Rightarrow> (u64 \<times> 'd world) option" where
  "sys_unlinkat P dirfd name flags s = on_name P SYS_unlinkat dirfd name (scast flags) 0 s"

definition sys_unlink :: "'d platform \<Rightarrow> u64 \<Rightarrow> 'd world \<Rightarrow> (u64 \<times> 'd world) option" where
  "sys_unlink P name s = sys_unlinkat P AT_FDCWD name 0 s"

definition sys_mkdirat :: "'d platform \<Rightarrow> u32 \<Rightarrow> u64 \<Rightarrow> u32 \<Rightarrow> 'd world \<Rightarrow> (u64 \<times> 'd world) option" where
  "sys_mkdirat P dirfd name mode s = on_name P SYS_mkdirat dirfd name (scast mode) 0 s"

definition sys_mkdir :: "'d platform \<Rightarrow> u64 \<Rightarrow> u32 \<Rightarrow> 'd world \<Rightarrow> (u64 \<times> 'd world) option" where
  "sys_mkdir P name mode s = sys_mkdirat P AT_FDCWD name mode s"

definition sys_getcwd :: "'d platform \<Rightarrow> u64 \<Rightarrow> u64 \<Rightarrow> 'd world \<Rightarrow> (u64 \<times> 'd world) option" where
  "sys_getcwd P buf n s = do {
     s \<leftarrow> populate_mapping P buf n PROT_WRITE s;
     frontend_syscall P SYS_getcwd (va2pa buf s) n 0 0 0 0 0 s }"

definition sys_chdir :: "'d platform \<Rightarrow> u64 \<Rightarrow> 'd world \<Rightarrow> (u32 \<times> 'd world) option" where
  "sys_chdir P path s = to_int (frontend_syscall P SYS_chdir (va2pa path s) 0 0 0 0 0 0 s)"

definition sys_getdents :: "'d world \<Rightarrow> u32 \<times> 'd world" where
  "sys_getdents s = (0, s)"

end
