(* ===== verification/Traps.thy ===== *)
theory Traps
  imports FileCalls
begin

text \<open>
  The traps of the proxy kernel: its console (\<^verbatim>\<open>src/pk/pk/console.c\<close>), the dispatch of system
  calls (\<^verbatim>\<open>do_syscall\<close> in \<^verbatim>\<open>src/pk/pk/syscall.c\<close>) and the trap handlers
  (\<^verbatim>\<open>src/pk/pk/handlers.c\<close>). The local buffer of \<^verbatim>\<open>vprintk\<close> is \<open>fr_local F 8\<close>, the local
  \<^verbatim>\<open>struct frontend_stat\<close> of a call \<open>fr_local F 7\<close>.
\<close>

section \<open>The console of the kernel\<close>

primrec putchars :: "'d platform \<Rightarrow> frame \<Rightarrow> u64 \<Rightarrow> nat \<Rightarrow> nat \<Rightarrow> 'd world \<Rightarrow> 'd world option" where
  "putchars P F out i 0 s = Some s"
| "putchars P F out i (Suc n) s = do {
     s \<leftarrow> ecall P F [(10, ucast (ld8 (ram s) (out + of_nat i))), (17, SBI_CONSOLE_PUTCHAR)] s;
     putchars P F out (Suc i) n s }"

definition vprintk :: "'d platform \<Rightarrow> frame \<Rightarrow> string \<Rightarrow> u64 list \<Rightarrow> 'd world \<Rightarrow> 'd world option" where
  "vprintk P F fmt vl s =
     (let out = fr_local F 8
      in do { (res, m) \<leftarrow> vsnprintf out 256 (bytes_of fmt) vl (ram s);
              let n = (if (scast res :: u64) < 256 then unat res else 256);
              putchars P F out 0 n (s\<lparr>ram := m\<rparr>) })"

definition printk :: "'d platform \<Rightarrow> frame \<Rightarrow> string \<Rightarrow> u64 list \<Rightarrow> 'd world \<Rightarrow> 'd world option" where
  "printk P F fmt vl s = vprintk P F fmt vl s"

record trapframe_t =
  gpr :: "u64 list"
  status :: u64
  epc :: u64
  badvaddr :: u64
  cause :: u64
  insn :: u64

definition regnames :: "string list" where
  "regnames = [''z '', ''ra'', ''sp'', ''gp'', ''tp'', ''t0'', ''t1'', ''t2'', ''s0'', ''s1'', ''a0'', ''a1'', ''a2'', ''a3'', ''a4'', ''a5'',
     ''a6'', ''a7'', ''s2'', ''s3'', ''s4'', ''s5'', ''s6'', ''s7'', ''s8'', ''s9'', ''sA'', ''sB'', ''t3'', ''t4'', ''t5'', ''t6'']"

primrec dump_regs :: "'d platform \<Rightarrow> frame \<Rightarrow> u64 list \<Rightarrow> nat \<Rightarrow> nat \<Rightarrow> 'd world \<Rightarrow> 'd world option" where
  "dump_regs P F regs i 0 s = Some s"
| "dump_regs P F regs i (Suc n) s = do {
     s \<leftarrow> printk P F ''%s %lx%c'' [lit_at P (regnames ! i), regs ! i, if i mod 4 < 3 then 32 else 10] s;
     dump_regs P F regs (Suc i) n s }"

definition dump_tf :: "'d platform \<Rightarrow> frame \<Rightarrow> trapframe_t \<Rightarrow> 'd world \<Rightarrow> (trapframe_t \<times> 'd world) option" where
  "dump_tf P F tf s =
     (let tf = tf\<lparr>gpr := (gpr tf)[0 := 0]\<rparr>
      in do { s \<leftarrow> dump_regs P F (gpr tf) 0 32 s;
              s \<leftarrow> printk P F (''pc %lx va %lx insn       %x sr %lx'' @ [CHR 0x0A])
                [epc tf, badvaddr tf, ucast (ucast (insn tf) :: u32), status tf] s;
              Some (tf, s) })"

text \<open>\<^verbatim>\<open>panic\<close> appends a newline to the text; it does not return.\<close>

definition do_panic :: "'d platform \<Rightarrow> frame \<Rightarrow> string \<Rightarrow> u64 list \<Rightarrow> 'd world \<Rightarrow> 'd world option" where
  "do_panic P F fmt vl s = do { s \<leftarrow> vprintk P F fmt vl s; shutdown P (- 1) s }"

definition panic :: "'d platform \<Rightarrow> frame \<Rightarrow> string \<Rightarrow> u64 list \<Rightarrow> 'd world \<Rightarrow> 'd world option" where
  "panic P F fmt vl s = do_panic P F (fmt @ [CHR 0x0A]) vl s"

section \<open>System calls without an engine or a file\<close>

text \<open>Division as the hart does it: by zero it gives all ones, and the remainder is the dividend.\<close>

definition divu :: "u64 \<Rightarrow> u64 \<Rightarrow> u64" where
  "divu a b = (if b = 0 then - 1 else a div b)"

definition remu :: "u64 \<Rightarrow> u64 \<Rightarrow> u64" where
  "remu a b = (if b = 0 then a else a mod b)"

definition sys_exit :: "'d platform \<Rightarrow> frame \<Rightarrow> u32 \<Rightarrow> 'd world \<Rightarrow> (u32 \<times> 'd world) option" where
  "sys_exit P F code s = do {
     s \<leftarrow> (if cycle0 (pkv s) \<noteq> 0 then
             (let dt = read_csr TIME s - time0 (pkv s); dc = read_csr MCYCLE s - cycle0 (pkv s);
                  di = read_csr MINSTRET s - instret0 (pkv s)
              in do { s \<leftarrow> printk P F (''%lld ticks'' @ [CHR 0x0A]) [dt] s;
                      s \<leftarrow> printk P F (''%lld cycles'' @ [CHR 0x0A]) [dc] s;
                      s \<leftarrow> printk P F (''%lld instructions'' @ [CHR 0x0A]) [di] s;
                      printk P F (''%d.%d%d CPI'' @ [CHR 0x0A])
                        [scast (ucast (divu dc di) :: u32), scast (ucast (remu (divu (10 * dc) di) 10) :: u32),
                         scast (ucast (remu (divu (100 * dc + divu di 2) di) 10) :: u32)] s })
           else Some s);
     s \<leftarrow> shutdown P code s;
     Some (0, s) }"

definition sys_brk :: "'d platform \<Rightarrow> u64 \<Rightarrow> 'd world \<Rightarrow> (u64 \<times> 'd world) option" where
  "sys_brk P pos s = do_brk P pos s"

definition sys_mmap :: "'d platform \<Rightarrow> u64 \<Rightarrow> u64 \<Rightarrow> u32 \<Rightarrow> u32 \<Rightarrow> u32 \<Rightarrow> u64 \<Rightarrow> 'd world \<Rightarrow> (u64 \<times> 'd world) option" where
  "sys_mmap P addr len prot flags fd offset s = do_mmap P addr len prot flags fd offset s"

definition sys_munmap :: "'d platform \<Rightarrow> u64 \<Rightarrow> u64 \<Rightarrow> 'd world \<Rightarrow> (u32 \<times> 'd world) option" where
  "sys_munmap P addr len s = do_munmap P addr len s"

definition sys_mremap :: "'d platform \<Rightarrow> 'd world \<Rightarrow> u64 \<times> 'd world" where
  "sys_mremap P s = do_mremap P s"

definition sys_mprotect :: "u64 \<Rightarrow> u64 \<Rightarrow> u32 \<Rightarrow> 'd world \<Rightarrow> (u64 \<times> 'd world) option" where
  "sys_mprotect addr len prot s = do_mprotect addr len prot s"

definition sys_getpid :: "'d world \<Rightarrow> u32 \<times> 'd world" where
  "sys_getpid s = (0, s)"

definition sys_getuid :: "'d world \<Rightarrow> u32 \<times> 'd world" where
  "sys_getuid s = (0, s)"

definition sys_hello_world :: "'d platform \<Rightarrow> frame \<Rightarrow> 'd world \<Rightarrow> (u32 \<times> 'd world) option" where
  "sys_hello_world P F s = map_option (Pair 0) (printk P F (''system call hello'' @ [CHR 0x0A]) [] s)"

section \<open>The dispatch table\<close>

type_synonym 'd handler = "'d world \<Rightarrow> (u64 \<times> 'd world) option"

text \<open>
  The register of an \<^verbatim>\<open>int\<close> result holds its sign extension. The numbers that are answered with
  \<^verbatim>\<open>sys_stub_nosys\<close>: the file calls, the identity calls and what was never there.
\<close>

definition nosys_calls :: "u64 list" where
  "nosys_calls = [63, 67, 64, 56, 57, 80, 62, 79, 37, 35, 34, 38, 17, 172, 174, 175, 176, 177, 261, 134, 66, 48, 25, 46, 61, 23, 24,
     78, 29, 165, 163, 164, 49, 96, 99, 233]"

definition kernel_calls :: "'d platform \<Rightarrow> frame \<Rightarrow> u64 \<Rightarrow> u64 \<Rightarrow> u64 \<Rightarrow> u64 \<Rightarrow> u64 \<Rightarrow> u64 \<Rightarrow> (u64 \<times> 'd handler) list" where
  "kernel_calls P F a0 a1 a2 a3 a4 a5 =
    [(93, \<lambda>s. to_long (sys_exit P F (ucast a0) s)),
     (94, \<lambda>s. to_long (sys_exit P F (ucast a0) s)),
     (214, sys_brk P a0),
     (160, \<lambda>s. to_long (Some (sys_uname a0 s))),
     (222, sys_mmap P a0 a1 (ucast a2) (ucast a3) (ucast a4) a5),
     (215, \<lambda>s. to_long (sys_munmap P a0 a1 s)),
     (216, \<lambda>s. Some (sys_mremap P s)),
     (226, sys_mprotect a0 a1 (ucast a2)),
     (169, \<lambda>s. to_long (Some (sys_gettimeofday a0 s))),
     (153, \<lambda>s. to_long (Some (sys_times a0 s))),
     (135, \<lambda>s. to_long (Some (sys_stub_success s))),
     (113, \<lambda>s. to_long (Some (sys_clock_gettime a1 s))),
     (1023, \<lambda>s. to_long (sys_hello_world P F s))]"

definition engine_calls :: "'d platform \<Rightarrow> frame \<Rightarrow> u64 \<Rightarrow> u64 \<Rightarrow> u64 \<Rightarrow> u64 \<Rightarrow> (u64 \<times> 'd handler) list" where
  "engine_calls P F a0 a1 a2 a3 = map (\<lambda>(n, h). (n, \<lambda>s. to_long (h s)))
    [(1022, sys_aes0_start_encry P F a0 a1 (ucast a2)),
     (1021, sys_aes0_start_decry P F a0 a1 (ucast a2)),
     (1020, sys_aes0_wait P F),
     (1019, sys_aes0_data_out P F a0 (ucast a1)),
     (1058, sys_aes2_start_encry P F a0 a1 (ucast a2)),
     (1059, sys_aes2_start_decry P F a0 a1 (ucast a2)),
     (1060, sys_aes2_wait P F),
     (1061, sys_aes2_data_out P F a0 (ucast a1)),
     (1012, sys_aes1_read_data P F a0),
     (1011, sys_aes1_write_data P F a0 (ucast a1)),
     (1010, sys_aes1_read_config P F a0),
     (1009, sys_aes1_write_config P F (ucast a0)),
     (1018, sys_sha256_hash P F a0 a1),
     (1017, sys_hmac_hash P F a0 a1 (ucast a2)),
     (1016, sys_dma_copy P F a0 a1 (ucast a2) (ucast a3)),
     (1015, sys_dma_copy_to_perif P F a0 a1 (ucast a2) (ucast a3)),
     (1014, sys_dma_copy_from_perif P F a0 a1 (ucast a2) (ucast a3)),
     (1013, sys_cmp P F a0 a1 (ucast a2) a3),
     (1008, sys_puts P F a0 (ucast a1)),
     (1007, sys_dma_end P F),
     (1050, sys_rng_wait P F),
     (1051, sys_rng_read_data P F a0),
     (1052, sys_rng_read_poly P F a0 a1 a2 a3),
     (1053, sys_rng_write_poly P F a0 a1 a2 a3),
     (1054, sys_rng_read_seed P F a0 a1 a2 a3),
     (1055, sys_rng_write_seed P F a0),
     (1056, sys_rng_read_rand_seg P F a0),
     (1057, sys_rng_read_state_counter P F a0),
     (1067, sys_rst P F (ucast a0)),
     (1066, sys_rsa_wait),
     (1063, sys_rsa_write_prime_num P F a0),
     (1064, sys_rsa_write_msg_in P F a0 (ucast a1)),
     (1065, sys_rsa_read_msg_out P F a0)]"

definition syscall_table :: "'d platform \<Rightarrow> frame \<Rightarrow> u64 \<Rightarrow> u64 \<Rightarrow> u64 \<Rightarrow> u64 \<Rightarrow> u64 \<Rightarrow> u64 \<Rightarrow> (u64 \<times> 'd handler) list" where
  "syscall_table P F a0 a1 a2 a3 a4 a5 =
     kernel_calls P F a0 a1 a2 a3 a4 a5 @ engine_calls P F a0 a1 a2 a3 @
     map (\<lambda>n. (n, \<lambda>s. to_long (Some (sys_stub_nosys P s)))) nosys_calls"

definition OLD_SYSCALL_THRESHOLD :: u64 where "OLD_SYSCALL_THRESHOLD = 1024"

definition old_syscall_table :: "'d platform \<Rightarrow> frame \<Rightarrow> u64 \<Rightarrow> u64 \<Rightarrow> u64 \<Rightarrow> (u64 \<times> 'd handler) list" where
  "old_syscall_table P F a0 a1 a2 =
    [(1024 - OLD_SYSCALL_THRESHOLD, \<lambda>s. to_long (sys_open P a0 (ucast a1) (ucast a2) s)),
     (1025 - OLD_SYSCALL_THRESHOLD, sys_link P a0 a1),
     (1026 - OLD_SYSCALL_THRESHOLD, sys_unlink P a0),
     (1030 - OLD_SYSCALL_THRESHOLD, sys_mkdir P a0 (ucast a1)),
     (1033 - OLD_SYSCALL_THRESHOLD, sys_access P a0 (ucast a1)),
     (1038 - OLD_SYSCALL_THRESHOLD, sys_stat P (fr_local F 7) a0 a1),
     (1039 - OLD_SYSCALL_THRESHOLD, sys_lstat P (fr_local F 7) a0 a1),
     (1062 - OLD_SYSCALL_THRESHOLD, \<lambda>s. Some (sys_time a0 s))]"

text \<open>A table with designated initialisers is as long as its highest index asks for.\<close>

definition ARRAY_SIZE :: "(u64 \<times> 'h) list \<Rightarrow> u64" where
  "ARRAY_SIZE t = fold max (map fst t) 0 + 1"

definition do_syscall :: "'d platform \<Rightarrow> frame \<Rightarrow> u64 \<Rightarrow> u64 \<Rightarrow> u64 \<Rightarrow> u64 \<Rightarrow> u64 \<Rightarrow> u64 \<Rightarrow> u64 \<Rightarrow> 'd world
    \<Rightarrow> (u64 \<times> 'd world) option" where
  "do_syscall P F a0 a1 a2 a3 a4 a5 n s =
     (let table = syscall_table P F a0 a1 a2 a3 a4 a5; old = old_syscall_table P F a0 a1 a2;
          f = (if n < ARRAY_SIZE table then map_of table n
               else if n - OLD_SYSCALL_THRESHOLD < ARRAY_SIZE old then map_of old (n - OLD_SYSCALL_THRESHOLD)
               else None)
      in case f of None \<Rightarrow> do { s \<leftarrow> panic P F ''bad syscall #%ld!'' [n] s; None } | Some f \<Rightarrow> f s)"

section \<open>The trap handlers\<close>

definition CAUSE_MISALIGNED_FETCH :: u64 where "CAUSE_MISALIGNED_FETCH = 0"
definition CAUSE_ILLEGAL_INSTRUCTION :: u64 where "CAUSE_ILLEGAL_INSTRUCTION = 2"
definition CAUSE_BREAKPOINT :: u64 where "CAUSE_BREAKPOINT = 3"
definition CAUSE_MISALIGNED_LOAD :: u64 where "CAUSE_MISALIGNED_LOAD = 4"
definition CAUSE_MISALIGNED_STORE :: u64 where "CAUSE_MISALIGNED_STORE = 6"
definition CAUSE_USER_ECALL :: u64 where "CAUSE_USER_ECALL = 8"
definition SSTATUS_SPP :: u64 where "SSTATUS_SPP = 0x100"
definition SIP_SSIP :: u64 where "SIP_SSIP = MIP_SSIP"

text \<open>Handlers that dump the registers and panic.\<close>

definition fatal :: "'d platform \<Rightarrow> frame \<Rightarrow> string \<Rightarrow> trapframe_t \<Rightarrow> 'd world \<Rightarrow> (trapframe_t \<times> 'd world) option" where
  "fatal P F msg tf s = do { (tf, s) \<leftarrow> dump_tf P F tf s; s \<leftarrow> panic P F msg [] s; Some (tf, s) }"

definition handle_illegal_instruction :: "'d platform \<Rightarrow> frame \<Rightarrow> trapframe_t \<Rightarrow> 'd world \<Rightarrow> (trapframe_t \<times> 'd world) option" where
  "handle_illegal_instruction P F tf s =
     (let tf = tf\<lparr>insn := ucast (ld16 (ram s) (epc tf))\<rparr>; len = insn_len (insn tf)
      in do { tf \<leftarrow> (if len = 4
                     then Some (tf\<lparr>insn := insn tf OR ucast (push_bit 16 (ucast (ld16 (ram s) (epc tf + 2))) :: u32)\<rparr>)
                     else do { kassert (len = 2); Some tf });
              fatal P F ''An illegal instruction was executed!'' tf s })"

definition handle_breakpoint :: "'d platform \<Rightarrow> frame \<Rightarrow> trapframe_t \<Rightarrow> 'd world \<Rightarrow> (trapframe_t \<times> 'd world) option" where
  "handle_breakpoint P F tf s = do {
     (tf, s) \<leftarrow> dump_tf P F tf s;
     s \<leftarrow> printk P F (''Breakpoint!'' @ [CHR 0x0A]) [] s;
     Some (tf\<lparr>epc := epc tf + 4\<rparr>, s) }"

definition segfault :: "'d platform \<Rightarrow> frame \<Rightarrow> trapframe_t \<Rightarrow> u64 \<Rightarrow> string \<Rightarrow> 'd world \<Rightarrow> (trapframe_t \<times> 'd world) option" where
  "segfault P F tf addr type s = do {
     (tf, s) \<leftarrow> dump_tf P F tf s;
     let who = (if status tf AND SSTATUS_SPP \<noteq> 0 then ''Kernel'' else ''User'');
     s \<leftarrow> panic P F ''%s %s segfault @ %p'' [lit_at P who, lit_at P type, addr] s;
     Some (tf, s) }"

definition handle_fault :: "'d platform \<Rightarrow> frame \<Rightarrow> u32 \<Rightarrow> string \<Rightarrow> trapframe_t \<Rightarrow> 'd world \<Rightarrow> (trapframe_t \<times> 'd world) option" where
  "handle_fault P F prot type tf s = do {
     (r, s) \<leftarrow> handle_page_fault P (badvaddr tf) prot s;
     if r \<noteq> 0 then segfault P F tf (badvaddr tf) type s else Some (tf, s) }"

definition handle_syscall :: "'d platform \<Rightarrow> frame \<Rightarrow> trapframe_t \<Rightarrow> 'd world \<Rightarrow> (trapframe_t \<times> 'd world) option" where
  "handle_syscall P F tf s = do {
     (r, s) \<leftarrow> do_syscall P F (gpr tf ! 10) (gpr tf ! 11) (gpr tf ! 12) (gpr tf ! 13) (gpr tf ! 14) (gpr tf ! 15) (gpr tf ! 17) s;
     Some (tf\<lparr>gpr := (gpr tf)[10 := r], epc := epc tf + 4\<rparr>, s) }"

definition handle_interrupt :: "trapframe_t \<Rightarrow> 'd world \<Rightarrow> trapframe_t \<times> 'd world" where
  "handle_interrupt tf s = (tf, snd (clear_csr SIP SIP_SSIP s))"

definition trap_handlers :: "'d platform \<Rightarrow> frame \<Rightarrow> (u64 \<times> (trapframe_t \<Rightarrow> 'd world \<Rightarrow> (trapframe_t \<times> 'd world) option)) list" where
  "trap_handlers P F =
    [(CAUSE_MISALIGNED_FETCH, fatal P F ''Misaligned instruction access!''),
     (CAUSE_FETCH_ACCESS, fatal P F ''Instruction access fault!''),
     (CAUSE_LOAD_ACCESS, fatal P F ''Load access fault!''),
     (CAUSE_STORE_ACCESS, fatal P F ''Store/AMO access fault!''),
     (CAUSE_FETCH_PAGE_FAULT, handle_fault P F PROT_EXEC ''fetch''),
     (CAUSE_ILLEGAL_INSTRUCTION, handle_illegal_instruction P F),
     (CAUSE_USER_ECALL, handle_syscall P F),
     (CAUSE_BREAKPOINT, handle_breakpoint P F),
     (CAUSE_MISALIGNED_LOAD, fatal P F ''Misaligned Load!''),
     (CAUSE_MISALIGNED_STORE, fatal P F ''Misaligned AMO!''),
     (CAUSE_LOAD_PAGE_FAULT, handle_fault P F PROT_READ ''load''),
     (CAUSE_STORE_PAGE_FAULT, handle_fault P F PROT_WRITE ''store'')]"

definition handle_trap :: "'d platform \<Rightarrow> frame \<Rightarrow> trapframe_t \<Rightarrow> 'd world \<Rightarrow> (trapframe_t \<times> 'd world) option" where
  "handle_trap P F tf s =
     (if sint (cause tf) < 0 then Some (handle_interrupt tf s)
      else case map_of (trap_handlers P F) (cause tf) of None \<Rightarrow> None | Some h \<Rightarrow> h tf s)"

end
