(* ===== verification/TrapProps.thy ===== *)
theory TrapProps
  imports Faults Traps
begin

text \<open>
  What a trap of the user program leads to: which calls the dispatch table reaches, what a page
  fault and a system call leave, and that a panic does not return.
\<close>

section \<open>Panics\<close>

lemma spin_forever_None [simp]: "spin_forever s = None"
proof -
  have False if "spin_forever s = Some s'" for s'
    using that by (rule spin_forever.raw_induct [where P = "\<lambda>s s'. False", rotated])
  then show ?thesis by (cases "spin_forever s") auto
qed

lemma shutdown_None [simp]: "shutdown P code s = None"
  by (cases "frontend_syscall P SYS_exit (scast code) 0 0 0 0 0 0 s") (auto simp: shutdown_def)

lemma panic_None [simp]: "panic P F fmt vl s = None"
  by (cases "vprintk P F (fmt @ [CHR 0x0A]) vl s") (auto simp: panic_def do_panic_def)

lemma fatal_None [simp]: "fatal P F msg tf s = None"
  by (cases "dump_tf P F tf s") (auto simp: fatal_def)

lemma segfault_None [simp]: "segfault P F tf addr type s = None"
  by (cases "dump_tf P F tf s") (auto simp: segfault_def Let_def)

section \<open>The dispatch table\<close>

lemma table_size: "ARRAY_SIZE (syscall_table P F a0 a1 a2 a3 a4 a5) = 1068" "ARRAY_SIZE (old_syscall_table P F a0 a1 a2) = 39"
  by (simp_all add: ARRAY_SIZE_def syscall_table_def kernel_calls_def engine_calls_def nosys_calls_def old_syscall_table_def
      OLD_SYSCALL_THRESHOLD_def)

lemma table_numbers: "map_of (syscall_table P F a0 a1 a2 a3 a4 a5) n = Some h \<Longrightarrow> n < 1068"
  by (drule map_of_SomeD) (auto simp: syscall_table_def kernel_calls_def engine_calls_def nosys_calls_def)

text \<open>
  The table of the engine calls is longer than the number at which the old calls begin, so the
  second table is never read: a number that is not in the first table does not return.
\<close>

lemma do_syscall_table:
  "do_syscall P F a0 a1 a2 a3 a4 a5 n s =
     (case map_of (syscall_table P F a0 a1 a2 a3 a4 a5) n of None \<Rightarrow> None | Some h \<Rightarrow> h s)"
proof (cases "n < 1068")
  case True
  then show ?thesis by (simp add: do_syscall_def table_size Let_def split: option.split)
next
  case False
  then have none: "map_of (syscall_table P F a0 a1 a2 a3 a4 a5) n = None"
    using table_numbers [of P F a0 a1 a2 a3 a4 a5 n] by (cases "map_of (syscall_table P F a0 a1 a2 a3 a4 a5) n") auto
  have "1068 \<le> unat n" using False by (simp add: word_less_nat_alt)
  then have "\<not> n - OLD_SYSCALL_THRESHOLD < 39"
    by (simp add: OLD_SYSCALL_THRESHOLD_def word_less_nat_alt unat_sub word_le_nat_alt)
  then show ?thesis using False none by (simp add: do_syscall_def table_size Let_def)
qed

theorem old_syscalls_lost:
  assumes "n \<in> {1024, 1025, 1026, 1030, 1033, 1038, 1039, 1062}"
  shows "map_of (old_syscall_table P F a0 a1 a2) (n - OLD_SYSCALL_THRESHOLD) \<noteq> None \<and>
    do_syscall P F a0 a1 a2 a3 a4 a5 n s = None"
  using assms unfolding do_syscall_table
  by (elim insertE emptyE)
    (simp_all add: syscall_table_def kernel_calls_def engine_calls_def nosys_calls_def old_syscall_table_def OLD_SYSCALL_THRESHOLD_def)

theorem do_syscall_file_calls:
  assumes "n \<in> set nosys_calls"
  shows "do_syscall P F a0 a1 a2 a3 a4 a5 n s = Some (scast (- ucast (ENOSYS P) :: u32), s)"
  using assms unfolding do_syscall_table nosys_calls_def
  by (simp only: list.set)
    (elim insertE emptyE; simp add: syscall_table_def kernel_calls_def engine_calls_def nosys_calls_def to_long_def sys_stub_nosys_def)

section \<open>A page fault of the user program\<close>

text \<open>
  A fault on a promised page: the program goes on at the same instruction with the page present if
  the region allows the access, and is stopped for good otherwise.
\<close>

text \<open>
  \<^bold>\<open>C9\<close>: A page fault trap on a promised page returns to the program with the
  page present when the region allows the access, and never returns when it does not.
\<close>

theorem handle_trap_fault:
  assumes "vm_inv s" "vm_lock (pkv s) = 0" "view s (vpn (badvaddr tf)) = Reserved p" "badvaddr tf < mmap_max s"
    and "(cause tf, access) \<in> {(CAUSE_LOAD_PAGE_FAULT, PROT_READ), (CAUSE_STORE_PAGE_FAULT, PROT_WRITE), (CAUSE_FETCH_PAGE_FAULT, PROT_EXEC)}"
  shows "if p AND access = 0 then handle_trap P F tf s = None
    else \<exists>s'. handle_trap P F tf s = Some (tf, s') \<and> vm_inv s' \<and>
      view s' (vpn (badvaddr tf)) = Present (leaf_pte s (vpn (badvaddr tf)) p)"
proof -
  have access: "access \<in> {PROT_READ, PROT_WRITE, PROT_EXEC}" using assms(5) by auto
  obtain s' where s': "handle_page_fault P (badvaddr tf) access s = Some (if p AND access \<noteq> 0 then 0 else - 1, s')"
      "vm_inv s'" "view s' (vpn (badvaddr tf)) = Present (leaf_pte s (vpn (badvaddr tf)) p)"
    using page_fault_reserved_runs [OF assms(1-4) access, of P] vpn_less [of "badvaddr tf"] by (auto simp: vm_done_def)
  have "\<exists>type. handle_trap P F tf s = handle_fault P F access type tf s"
    using assms(5)
    by (elim insertE emptyE)
      (auto simp: handle_trap_def trap_handlers_def CAUSE_LOAD_PAGE_FAULT_def CAUSE_STORE_PAGE_FAULT_def CAUSE_FETCH_PAGE_FAULT_def
        CAUSE_MISALIGNED_FETCH_def CAUSE_FETCH_ACCESS_def CAUSE_LOAD_ACCESS_def CAUSE_STORE_ACCESS_def CAUSE_ILLEGAL_INSTRUCTION_def
        CAUSE_USER_ECALL_def CAUSE_BREAKPOINT_def CAUSE_MISALIGNED_LOAD_def CAUSE_MISALIGNED_STORE_def)
  then show ?thesis using s' by (auto simp: handle_fault_def)
qed

section \<open>A system call of the user program\<close>

text \<open>
  \<^bold>\<open>C10\<close>: The trap of a munmap call runs through dispatch table and memory
  management: it answers 0 in a0, steps over the ecall and unmaps exactly the pages of the range.
\<close>

theorem handle_trap_munmap:
  assumes "vm_inv s" "vm_lock (pkv s) = 0" "cause tf = CAUSE_USER_ECALL" "gpr tf ! 17 = 215"
    and "page (gpr tf ! 10)" "valid_user_range (gpr tf ! 10) (gpr tf ! 11) s"
  shows "\<exists>s'. handle_trap P F tf s = Some (tf\<lparr>gpr := (gpr tf)[10 := 0], epc := epc tf + 4\<rparr>, s') \<and> vm_inv s' \<and>
    (\<forall>k<2 ^ 27. view s' k =
       (if k \<in> pages_between (gpr tf ! 10) (gpr tf ! 10 + gpr tf ! 11) then Unmapped else view s k))"
proof -
  let ?a = "gpr tf ! 10" and ?n = "gpr tf ! 11"
  obtain s' where s': "do_munmap P ?a ?n s = Some (0, s')" "vm_inv s'"
      "\<forall>k<2 ^ 27. view s' k = (if k \<in> pages_between ?a (?a + ?n) then Unmapped else view s k)"
    using do_munmap_runs [OF assms(1,2,5,6), of P] by (auto simp: vm_done_def)
  have "do_syscall P F ?a ?n (gpr tf ! 12) (gpr tf ! 13) (gpr tf ! 14) (gpr tf ! 15) 215 s = Some (0, s')"
    unfolding do_syscall_table using s'(1) by (simp add: syscall_table_def kernel_calls_def to_long_def sys_munmap_def)
  then have "handle_syscall P F tf s = Some (tf\<lparr>gpr := (gpr tf)[10 := 0], epc := epc tf + 4\<rparr>, s')"
    using assms(4) by (simp add: handle_syscall_def)
  moreover have "handle_trap P F tf s = handle_syscall P F tf s"
    using assms(3)
    by (simp add: handle_trap_def trap_handlers_def CAUSE_FETCH_PAGE_FAULT_def
        CAUSE_MISALIGNED_FETCH_def CAUSE_FETCH_ACCESS_def CAUSE_LOAD_ACCESS_def CAUSE_STORE_ACCESS_def CAUSE_ILLEGAL_INSTRUCTION_def
        CAUSE_USER_ECALL_def)
  ultimately show ?thesis using s'(2,3) by simp
qed

section \<open>The frame of a trap\<close>

text \<open>Every trap that returns: only \<open>x0\<close>, which is written with zero, and \<open>a0\<close> of the registers have changed, and the program goes on at the instruction or after it.\<close>

definition frame_kept :: "trapframe_t \<Rightarrow> trapframe_t \<Rightarrow> bool" where
  "frame_kept tf tf' \<longleftrightarrow> gpr tf' = (gpr tf)[0 := gpr tf' ! 0, 10 := gpr tf' ! 10] \<and> epc tf' \<in> {epc tf, epc tf + 4} \<and> status tf' = status tf \<and>
     badvaddr tf' = badvaddr tf \<and> cause tf' = cause tf"

lemma frame_kept_refl [simp]: "frame_kept tf tf"
  by (simp add: frame_kept_def)

lemma handle_syscall_frame: "handle_syscall P F tf s = Some (tf', s') \<Longrightarrow> frame_kept tf tf'"
  by (cases "10 < length (gpr tf)") (auto simp: handle_syscall_def frame_kept_def bind_eq_Some_conv list_update_beyond)

lemma handle_fault_frame: "handle_fault P F prot type tf s = Some (tf', s') \<Longrightarrow> frame_kept tf tf'"
  by (auto simp: handle_fault_def bind_eq_Some_conv split: if_splits)

lemma handle_illegal_None: "handle_illegal_instruction P F tf s = None"
  by (simp add: handle_illegal_instruction_def Let_def)

lemma dump_tf_frame: "dump_tf P F tf s = Some (tf', s') \<Longrightarrow> tf' = tf\<lparr>gpr := (gpr tf)[0 := 0]\<rparr>"
  by (auto simp: dump_tf_def Let_def bind_eq_Some_conv)

lemma handle_breakpoint_frame: "handle_breakpoint P F tf s = Some (tf', s') \<Longrightarrow> frame_kept tf tf'"
  by (cases "gpr tf") (auto simp: handle_breakpoint_def frame_kept_def bind_eq_Some_conv dest!: dump_tf_frame)


end
