(* ===== verification/FileProps.thy ===== *)
theory FileProps
  imports FileCalls
begin

text \<open>
  The accounting of open files: every reference count is one more than the number of descriptors
  and of references held, and each call gives back what it took, except where the code forgets to.
\<close>

section \<open>The host interface keeps the kernel's variables\<close>

lemma mmio_pkv [simp]: "pkv (snd (mmio_rd B w a s)) = pkv s" "pkv (mmio_wr B w a v s) = pkv s"
  by (simp_all add: mmio_rd_def mmio_wr_def split: prod.split)

lemma check_fromhost_pkv: "check_fromhost B s = Some s' \<Longrightarrow> pkv s' = pkv s"
  by (auto simp: check_fromhost_def Let_def split_beta split: if_splits)

lemma set_tohost_wait_pkv: "set_tohost_wait B s = Some s' \<Longrightarrow> pkv s' = pkv s"
  by (rule set_tohost_wait.raw_induct [where P = "\<lambda>B s s'. pkv s' = pkv s", rotated])
    (auto simp: split_beta Let_def bind_eq_Some_conv dest!: check_fromhost_pkv split: if_splits)

lemma fromhost_wait_pkv: "fromhost_wait B dv cmd s = Some s' \<Longrightarrow> pkv s' = pkv s"
  by (rule fromhost_wait.raw_induct [where P = "\<lambda>B dv cmd s s'. pkv s' = pkv s", rotated])
    (auto simp: split_beta Let_def bind_eq_Some_conv dest!: check_fromhost_pkv split: if_splits)

lemma frontend_syscall_pkv:
  assumes "frontend_syscall P n a0 a1 a2 a3 a4 a5 a6 s = Some (r, s')"
  shows "pkv s' = pkv s"
  using assms
  by (auto simp: frontend_syscall_def htif_syscall_def do_tohost_fromhost_def set_tohost_def Let_def bind_eq_Some_conv
      dest!: set_tohost_wait_pkv fromhost_wait_pkv)

section \<open>The accounting\<close>

definition fd_count :: "'d world \<Rightarrow> nat \<Rightarrow> nat" where
  "fd_count s f = card {i. i < MAX_FDS \<and> fds (pkv s) ! i = Some f}"

text \<open>\<open>held f\<close>: the references to \<open>f\<close> that running code holds and will give back.\<close>

definition file_inv :: "'d world \<Rightarrow> (nat \<Rightarrow> nat) \<Rightarrow> bool" where
  "file_inv s held \<longleftrightarrow> length (fds (pkv s)) = MAX_FDS \<and> length (files (pkv s)) = MAX_FILES \<and>
     (\<forall>i<MAX_FDS. \<forall>f. fds (pkv s) ! i = Some f \<longrightarrow> f < MAX_FILES) \<and>
     (\<forall>f<MAX_FILES. held f < 2 ^ 31 \<and>
        unat (refcnt (file_at s f)) = (if fd_count s f + held f = 0 then 0 else fd_count s f + held f + 1))"

lemma fd_count_le: "fd_count s f \<le> 128"
proof -
  have "fd_count s f \<le> card {..<MAX_FDS}" unfolding fd_count_def by (rule card_mono) auto
  then show ?thesis by (simp add: MAX_FDS_def)
qed

lemma fd_count_pos: "i < MAX_FDS \<Longrightarrow> fds (pkv s) ! i = Some f \<Longrightarrow> 0 < fd_count s f"
  unfolding fd_count_def by (subst card_gt_0_iff) auto

lemma fd_count_set:
  assumes "length (fds (pkv s)) = MAX_FDS" "i < MAX_FDS"
  shows "fd_count (set_fd i x s) f + (if fds (pkv s) ! i = Some f then 1 else 0) = fd_count s f + (if x = Some f then 1 else 0)"
proof -
  let ?S = "{j. j < MAX_FDS \<and> fds (pkv s) ! j = Some f}" and ?S' = "{j. j < MAX_FDS \<and> (fds (pkv s))[i := x] ! j = Some f}"
  have rest: "?S - {i} = ?S' - {i}" using assms by (auto simp: nth_list_update)
  have "card ?S = card (?S - {i}) + (if fds (pkv s) ! i = Some f then 1 else 0)"
    using assms(2) card.remove [of ?S i] by (cases "fds (pkv s) ! i = Some f") simp_all
  moreover have "card ?S' = card (?S' - {i}) + (if x = Some f then 1 else 0)"
    using assms card.remove [of ?S' i] by (cases "x = Some f") simp_all
  ultimately show ?thesis unfolding fd_count_def rest by (simp add: set_fd_def)
qed

lemma set_file_simps [simp]:
  "fds (pkv (set_file f x s)) = fds (pkv s)" "fd_count (set_file f x s) = fd_count s"
  "files (pkv (set_fd i y s)) = files (pkv s)" "file_at (set_fd i y s) = file_at s"
  "length (files (pkv (set_file f x s))) = length (files (pkv s))" "length (fds (pkv (set_fd i y s))) = length (fds (pkv s))"
  by (simp_all add: set_file_def set_fd_def fd_count_def file_at_def fun_eq_iff)

lemma fds_set_fd:
  "length (fds (pkv s)) = MAX_FDS \<Longrightarrow> i < MAX_FDS \<Longrightarrow> fds (pkv (set_fd j x s)) ! i = (if i = j then x else fds (pkv s) ! i)"
  by (simp add: set_fd_def nth_list_update)

lemma file_at_set: "g < length (files (pkv s)) \<Longrightarrow> file_at (set_file f x s) g = (if g = f then x else file_at s g)"
  by (simp add: file_at_def set_file_def nth_list_update)

lemma file_inv_pkv: "pkv s' = pkv s \<Longrightarrow> file_inv s' = file_inv s"
  by (simp add: file_inv_def fd_count_def file_at_def fun_eq_iff)

lemma file_invD:
  assumes "file_inv s held"
  shows "length (fds (pkv s)) = MAX_FDS" "length (files (pkv s)) = MAX_FILES"
    "i < MAX_FDS \<Longrightarrow> fds (pkv s) ! i = Some f \<Longrightarrow> f < MAX_FILES" "f < MAX_FILES \<Longrightarrow> held f < 2 ^ 31"
    "f < MAX_FILES \<Longrightarrow> unat (refcnt (file_at s f)) = (if fd_count s f + held f = 0 then 0 else fd_count s f + held f + 1)"
  using assms unfolding file_inv_def by blast+

text \<open>A reference count changes together with what it counts.\<close>

lemma file_inv_refcnt:
  assumes "file_inv s held" "f < MAX_FILES" "n < 2 ^ 31"
    and "unat c = (if fd_count s f + n = 0 then 0 else fd_count s f + n + 1)"
  shows "file_inv (set_file f ((file_at s f)\<lparr>refcnt := c\<rparr>) s) (held(f := n))"
  using assms by (auto simp: file_inv_def file_at_set)

lemma unat_u32_add: "unat (c :: u32) + 1 < 2 ^ 32 \<Longrightarrow> unat (c + 1) = unat c + 1"
  by (simp add: unat_word_ariths)

lemma refcnt_bound:
  assumes "file_inv s held" "f < MAX_FILES"
  shows "unat (refcnt (file_at s f)) + 1 < 2 ^ 32"
  using assms fd_count_le [of s f] by (auto simp: file_inv_def split: if_splits)

lemma fd_index:
  assumes "\<not> (sint fd < 0 \<or> sint fd \<ge> int MAX_FDS)"
  shows "unat (fd :: u32) < MAX_FDS" "int (unat fd) = sint fd"
proof -
  have "uint fd = sint fd" using assms by (simp add: uint_sint take_bit_int_eq_self MAX_FDS_def)
  then show e: "int (unat fd) = sint fd" by simp
  have "int (unat fd) < int MAX_FDS" using assms unfolding e by simp
  then show "unat fd < MAX_FDS" by linarith
qed

text \<open>Looking a descriptor up takes a reference, if it is open.\<close>

lemma file_get_refs:
  assumes "file_inv s held" "\<forall>f. held f + 1 < 2 ^ 31"
  shows "file_get fd s = (None, s) \<and> (sint fd < 0 \<or> sint fd \<ge> int MAX_FDS \<or> fds (pkv s) ! unat fd = None) \<or>
    (\<exists>f s'. file_get fd s = (Some f, s') \<and> f < MAX_FILES \<and> unat fd < MAX_FDS \<and> fds (pkv s) ! unat fd = Some f \<and>
       fds (pkv s') = fds (pkv s) \<and> file_inv s' (held(f := held f + 1)))"
proof (cases "sint fd < 0 \<or> sint fd \<ge> int MAX_FDS \<or> fds (pkv s) ! unat fd = None")
  case True
  then show ?thesis by (auto simp: file_get_def)
next
  case False
  then obtain f where f: "fds (pkv s) ! unat fd = Some f" by auto
  have i: "unat fd < MAX_FDS" using False fd_index by blast
  then have fl: "f < MAX_FILES" using assms(1) f by (auto simp: file_inv_def)
  have pos: "0 < fd_count s f" by (rule fd_count_pos [OF i f])
  then have cnt: "unat (refcnt (file_at s f)) = fd_count s f + held f + 1" using assms(1) fl by (simp add: file_inv_def)
  have "unat (refcnt (file_at s f) + 1) = fd_count s f + (held f + 1) + 1"
    using unat_u32_add [OF refcnt_bound [OF assms(1) fl]] cnt by simp
  then have "file_inv (set_file f ((file_at s f)\<lparr>refcnt := refcnt (file_at s f) + 1\<rparr>) s) (held(f := held f + 1))"
    using assms fl by (intro file_inv_refcnt) simp_all
  moreover have "refcnt (file_at s f) \<noteq> 0" using cnt by auto
  ultimately show ?thesis using False f fl i by (intro disjI2) (auto simp: file_get_def Let_def)
qed

text \<open>Dropping a reference; with the last one the host is told to close its file.\<close>

lemma file_decref_refs:
  assumes "file_inv s held" "f < MAX_FILES" "0 < held f" "file_decref P f s = Some s'"
  shows "file_inv s' (held(f := held f - 1))" "fds (pkv s') = fds (pkv s)"
proof -
  let ?c = "refcnt (file_at s f)"
  have cnt: "unat ?c = fd_count s f + held f + 1" using assms(1-3) by (simp add: file_inv_def)
  have "file_inv s' (held(f := held f - 1)) \<and> fds (pkv s') = fds (pkv s)"
  proof (cases "?c = 2")
    case True
    then have z: "fd_count s f + (held f - 1) = 0" using cnt assms(3) by simp
    let ?s1 = "set_file f ((file_at s f)\<lparr>refcnt := 0\<rparr>) s"
    have two: "set_file f ((file_at (set_file f ((file_at s f)\<lparr>refcnt := ?c - 1\<rparr>) s) f)\<lparr>refcnt := 0\<rparr>)
        (set_file f ((file_at s f)\<lparr>refcnt := ?c - 1\<rparr>) s) = ?s1"
      using assms(1,2) by (simp add: file_at_set file_inv_def) (simp add: set_file_def)
    have "file_inv ?s1 (held(f := held f - 1))"
      using assms(1,2) z by (intro file_inv_refcnt) (auto simp: file_inv_def)
    moreover have "pkv s' = pkv ?s1"
      using assms(4) True by (auto simp: file_decref_def Let_def two [unfolded True, simplified] two bind_eq_Some_conv dest!: frontend_syscall_pkv)
    ultimately show ?thesis using file_inv_pkv [of s' ?s1] by simp
  next
    case False
    then have pos: "0 < fd_count s f + (held f - 1)" using cnt assms(3) by (cases "fd_count s f + held f = 1") (auto simp: word_unat_eq_iff)
    have "?c \<noteq> 0" using cnt by auto
    then have "unat (?c - 1) = fd_count s f + (held f - 1) + 1" using cnt assms(3) by (simp add: unat_minus_one)
    then have "file_inv (set_file f ((file_at s f)\<lparr>refcnt := ?c - 1\<rparr>) s) (held(f := held f - 1))"
      using assms(1,2) pos by (intro file_inv_refcnt) (auto simp: file_inv_def)
    then show ?thesis using assms(4) False by (auto simp: file_decref_def Let_def)
  qed
  then show "file_inv s' (held(f := held f - 1))" "fds (pkv s') = fds (pkv s)" by simp_all
qed

text \<open>Closing a descriptor gives back what it held and leaves every other descriptor open.\<close>

lemma sys_close_refs:
  assumes "file_inv s held" "\<forall>f. held f + 2 < 2 ^ 31"
    and "sint fd \<ge> 0" "sint fd < 128" "fds (pkv s) ! unat fd \<noteq> None" "sys_close P fd s = Some (r, s')"
  shows "r = 0 \<and> fds (pkv s') = (fds (pkv s))[unat fd := None] \<and> file_inv s' held"
proof -
  have "\<forall>f. held f + 1 < 2 ^ 31" using assms(2) by (meson add_left_mono le_less_trans one_le_numeral)
  then obtain f s1 where f: "file_get fd s = (Some f, s1)" "f < MAX_FILES" "unat fd < MAX_FDS" "fds (pkv s) ! unat fd = Some f"
      "fds (pkv s1) = fds (pkv s)" "file_inv s1 (held(f := held f + 1))"
    using file_get_refs [OF assms(1), of fd] assms(3-5) by (auto simp: MAX_FDS_def)
  let ?s2 = "set_fd (unat fd) None s1"
  have len: "length (fds (pkv s1)) = MAX_FDS" using f(6) by (simp add: file_inv_def)
  have cnt: "fd_count ?s2 g + (if g = f then 1 else 0) = fd_count s1 g" for g
    using fd_count_set [OF len f(3), of None g] f(4,5) by auto
  have inv2: "file_inv ?s2 (held(f := held f + 2))"
    unfolding file_inv_def
  proof (intro conjI allI impI)
    show "length (fds (pkv ?s2)) = MAX_FDS" "length (files (pkv ?s2)) = MAX_FILES" using f(6) by (simp_all add: file_inv_def)
    show "g < MAX_FILES" if "i < MAX_FDS" "fds (pkv ?s2) ! i = Some g" for i g
      using file_invD(3) [OF f(6) that(1), of g] that(2) fds_set_fd [OF len that(1)] by (auto split: if_splits)
    show "(held(f := held f + 2)) g < 2 ^ 31" if "g < MAX_FILES" for g
      using assms(2) file_invD(4) [OF assms(1) that] by simp
    show "unat (refcnt (file_at ?s2 g)) =
        (if fd_count ?s2 g + (held(f := held f + 2)) g = 0 then 0 else fd_count ?s2 g + (held(f := held f + 2)) g + 1)"
      if "g < MAX_FILES" for g
      using file_invD(5) [OF f(6) that] cnt [of g] by (cases "g = f") auto
  qed
  obtain s3 s4 where s34: "file_decref P f ?s2 = Some s3" "file_decref P f s3 = Some s4" "r = 0" "s' = s4"
    using assms(6) f(1,4,5) by (auto simp: sys_close_def fd_close_def Let_def bind_eq_Some_conv split: if_splits)
  have d3: "file_inv s3 (held(f := held f + 1))" "fds (pkv s3) = fds (pkv ?s2)"
    using file_decref_refs [OF inv2 f(2) _ s34(1)] by simp_all
  have d4: "file_inv s4 held" "fds (pkv s4) = fds (pkv s3)"
    using file_decref_refs [OF d3(1) f(2) _ s34(2)] by simp_all
  show ?thesis using d4 d3(2) f(5) s34(3,4) by (simp add: set_fd_def)
qed

text \<open>
  Opening a file ends with a reference that no descriptor stands for, so the slot is not freed and
  the host is not told when the descriptor is closed.
\<close>

lemma file_get_free_refs:
  assumes "file_inv s held" "file_get_free s = (Some f, s1)"
  shows "f < MAX_FILES" "held f = 0" "fd_count s f = 0" "file_inv s1 (held(f := 1))" "fds (pkv s1) = fds (pkv s)"
proof -
  have f: "f < MAX_FILES" "refcnt (file_at s f) = 0" "s1 = set_file f ((file_at s f)\<lparr>refcnt := 2\<rparr>) s"
    using assms(2) by (auto simp: file_get_free_def find_Some_iff split: option.splits)
  then show "f < MAX_FILES" by simp
  show z: "held f = 0" "fd_count s f = 0" using assms(1) f(1,2) by (auto simp: file_inv_def split: if_splits)
  show "file_inv s1 (held(f := 1))" unfolding f(3) using assms(1) f(1) z by (intro file_inv_refcnt) simp_all
  show "fds (pkv s1) = fds (pkv s)" by (simp add: f(3))
qed

lemma file_dup_refs:
  assumes "file_inv s held" "f < MAX_FILES" "0 < held f" "file_dup f s = Some (fd, s')" "\<not> sint fd < 0"
  shows "file_inv s' held" "unat fd < MAX_FDS" "fds (pkv s) ! unat fd = None" "fds (pkv s') = (fds (pkv s))[unat fd := Some f]"
proof -
  obtain i where i: "find (\<lambda>i. fds (pkv s) ! i = None) [0..<MAX_FDS] = Some i"
    using assms(4,5) by (auto simp: file_dup_def split: option.splits)
  then have "i < MAX_FDS" "fds (pkv s) ! i = None" by (auto simp: find_Some_iff)
  let ?s1 = "set_fd i (Some f) s"
  have s': "fd = of_nat i" "s' = set_file f ((file_at ?s1 f)\<lparr>refcnt := refcnt (file_at ?s1 f) + 1\<rparr>) ?s1"
    using assms(4) i by (auto simp: file_dup_def file_incref_def Let_def bind_eq_Some_conv)
  have ui: "unat fd = i" using \<open>i < MAX_FDS\<close> by (simp add: s'(1) MAX_FDS_def unat_of_nat)
  then show "unat fd < MAX_FDS" "fds (pkv s) ! unat fd = None" using \<open>i < MAX_FDS\<close> \<open>fds (pkv s) ! i = None\<close> by simp_all
  show "fds (pkv s') = (fds (pkv s))[unat fd := Some f]" by (simp add: s'(2) ui) (simp add: set_fd_def)
  have len: "length (fds (pkv s)) = MAX_FDS" using assms(1) by (simp add: file_inv_def)
  have cnt: "fd_count ?s1 g = fd_count s g + (if g = f then 1 else 0)" for g
    using fd_count_set [OF len \<open>i < MAX_FDS\<close>, of "Some f" g] \<open>fds (pkv s) ! i = None\<close> by auto
  have add: "unat (refcnt (file_at s f) + 1) = unat (refcnt (file_at s f)) + 1"
    by (rule unat_u32_add [OF refcnt_bound [OF assms(1,2)]])
  have same: "fds (pkv s') = fds (pkv ?s1)" "fd_count s' = fd_count ?s1" by (simp_all add: s'(2))
  show "file_inv s' held"
    unfolding file_inv_def same
  proof (intro conjI allI impI)
    show "length (fds (pkv ?s1)) = MAX_FDS" "length (files (pkv s')) = MAX_FILES"
      using len file_invD(2) [OF assms(1)] by (simp_all add: s'(2))
    show "g < MAX_FILES" if "j < MAX_FDS" "fds (pkv ?s1) ! j = Some g" for j g
      using file_invD(3) [OF assms(1) that(1), of g] that(2) fds_set_fd [OF len that(1)] assms(2) by (auto split: if_splits)
    show "held g < 2 ^ 31" if "g < MAX_FILES" for g by (rule file_invD(4) [OF assms(1) that])
    show "unat (refcnt (file_at s' g)) = (if fd_count ?s1 g + held g = 0 then 0 else fd_count ?s1 g + held g + 1)"
      if "g < MAX_FILES" for g
      using file_invD(2,5) [OF assms(1)] that cnt [of g] add assms(3) by (simp add: s'(2) file_at_set)
  qed
qed

lemma err_negative:
  assumes "(e :: u64) \<ge> - 4096"
  shows "sint (ucast e :: u32) < 0"
proof -
  have "2 ^ 64 - 4096 \<le> unat e" using assms by (simp add: word_le_nat_alt)
  then have "unat e div 4096 = 2 ^ 52 - 1" using unat_u64_less [of e] by simp
  then have "drop_bit 12 e = mask 52"
    by (simp add: word_unat_eq_iff drop_bit_eq_div unat_div_distrib mask_eq_exp_minus_1)
  from arg_cong [OF this, of "\<lambda>w. bit w 19"] have "bit (ucast e :: u32) 31" by (simp add: bit_simps)
  then show ?thesis using bit_last_iff [of "ucast e :: u32"] by simp
qed

lemma sys_open_refs:
  assumes "file_inv s held" "sys_open P name flags mode s = Some (fd, s')" "\<not> sint fd < 0"
  shows "\<exists>f. f < MAX_FILES \<and> fd_count s f = 0 \<and> held f = 0 \<and> fds (pkv s') = (fds (pkv s))[unat fd := Some f] \<and>
    file_inv s' (held(f := 1)) \<and> unat fd < MAX_FDS \<and> fds (pkv s) ! unat fd = None"
proof -
  obtain x s1 where open1: "file_openat P AT_FDCWD name flags mode s = Some (x, s1)"
    using assms(2) by (auto simp: sys_open_def sys_openat_def at_kfd_def AT_FDCWD_def bind_eq_Some_conv Let_def)
  show ?thesis
  proof (cases x)
    case (Inl e)
    then show ?thesis using assms(2,3) open1 err_negative [of e]
      by (auto simp: sys_open_def sys_openat_def at_kfd_def AT_FDCWD_def bind_eq_Some_conv Let_def split: if_splits)
  next
    case (Inr f)
    obtain s0 ret s2 where s0: "file_get_free s = (Some f, s0)" "pkv s2 = pkv s0"
        "s1 = set_file f ((file_at s2 f)\<lparr>kfd := ucast (ret :: u64)\<rparr>) s2"
      using open1 unfolding Inr
      by (auto simp: file_openat_def bind_eq_Some_conv Let_def split: prod.splits option.splits if_splits dest!: frontend_syscall_pkv)
    note free = file_get_free_refs [OF assms(1) s0(1)]
    have inv2: "file_inv s2 (held(f := 1))" using free(4) file_inv_pkv [OF s0(2)] by simp
    then have inv1: "file_inv s1 (held(f := 1))"
      unfolding file_inv_def s0(3) by (auto simp: file_at_set)
    have "file_dup f s1 = Some (fd, s')"
    proof -
      have no_mem: "sint (- ucast ENOMEM :: u32) < 0" by (simp add: ENOMEM_def)
      obtain fd0 s3 where dup: "file_dup f s1 = Some (fd0, s3)"
          "(if sint fd0 < 0 then do { s \<leftarrow> file_decref P f s3; Some (- ucast ENOMEM, s) } else Some (fd0, s3)) = Some (fd, s')"
        using assms(2) open1 unfolding Inr
        by (auto simp: sys_open_def sys_openat_def at_kfd_def AT_FDCWD_def bind_eq_Some_conv Let_def)
      then have "\<not> sint fd0 < 0" using assms(3) no_mem by (auto simp: bind_eq_Some_conv split: if_splits)
      with dup show ?thesis by simp
    qed
    from file_dup_refs [OF inv1 free(1) _ this assms(3)] show ?thesis
      using free s0(2,3) by auto
  qed
qed

text \<open>
  \<^bold>\<open>C28\<close>: Closing an open descriptor frees it and keeps the reference counts of
  all files in balance with the descriptors that name them.
\<close>

theorem sys_close_balanced:
  assumes "file_inv s held" "\<forall>f. held f + 2 < 2 ^ 31"
    and "sint fd \<ge> 0" "sint fd < 128" "fds (pkv s) ! unat fd \<noteq> None" "sys_close P fd s = Some (r, s')"
  shows "r = 0 \<and> fds (pkv s') = (fds (pkv s))[unat fd := None] \<and> file_inv s' held"
  using assms by (rule sys_close_refs)

theorem open_close_leaks:
  assumes "file_inv s held" "\<forall>f. held f + 3 < 2 ^ 31" "sys_open P name flags mode s = Some (fd, s1)" "\<not> sint fd < 0"
    and "sys_close P fd s1 = Some (r, s2)"
  shows "fds (pkv s2) = fds (pkv s) \<and> (\<exists>f<MAX_FILES. refcnt (file_at s f) = 0 \<and> refcnt (file_at s2 f) = 2)"
proof -
  obtain f where f: "f < MAX_FILES" "fd_count s f = 0" "held f = 0" "fds (pkv s1) = (fds (pkv s))[unat fd := Some f]"
      "file_inv s1 (held(f := 1))" "unat fd < MAX_FDS" "fds (pkv s) ! unat fd = None"
    using sys_open_refs [OF assms(1,3,4)] by blast
  have len: "length (fds (pkv s)) = MAX_FDS" using assms(1) by (simp add: file_inv_def)
  have u: "uint fd = int (unat fd)" by simp
  then have small: "uint fd < 128" "0 \<le> uint fd" using f(6) unfolding u MAX_FDS_def by linarith+
  have "- (2 ^ 31) \<le> uint fd" by (rule order_trans [OF _ small(2)]) simp
  then have "sint fd = uint fd" unfolding sint_uint by (intro signed_take_bit_int_eq_self) (use small(1) in simp_all)
  then have fd: "sint fd < 128" "sint fd \<ge> 0" using small by linarith+
  have bound: "\<forall>g. (held(f := 1)) g + 2 < 2 ^ 31" 
  proof
    fix g show "(held(f := 1)) g + 2 < 2 ^ 31" using spec [OF assms(2), of g] by simp
  qed
  have c: "fds (pkv s2) = (fds (pkv s1))[unat fd := None]" "file_inv s2 (held(f := 1))"
  proof -
    have "fds (pkv s1) ! unat fd \<noteq> None" using f(4,6) len by simp
    from sys_close_refs [OF f(5) bound fd(2,1) this assms(5)]
    show "fds (pkv s2) = (fds (pkv s1))[unat fd := None]" "file_inv s2 (held(f := 1))" by blast+
  qed
  have same: "fds (pkv s2) = fds (pkv s)" using c(1) f(4,7) list_update_id [of "fds (pkv s)" "unat fd"] by simp
  then have "fd_count s2 f = 0" using f(2) by (simp add: fd_count_def)
  then have "unat (refcnt (file_at s2 f)) = 2" using file_invD(5) [OF c(2) f(1)] by simp
  moreover have "unat (refcnt (file_at s f)) = 0" using file_invD(5) [OF assms(1) f(1)] f(2,3) by simp
  ultimately have "refcnt (file_at s f) = 0 \<and> refcnt (file_at s2 f) = 2" by (simp add: word_unat_eq_iff)
  then show ?thesis using same f(1) by blast
qed

end
