(* ===== verification/VmExamples.thy ===== *)
theory VmExamples
  imports Examples TrapProps FileProps
begin

text \<open>
  The properties of the kernel's memory management, files and traps at concrete inputs: a kernel
  that has set up its tables and mapped nothing, and one with a mapped region.
\<close>

section \<open>A kernel with empty tables\<close>

definition fresh :: "unit world" where
  "fresh = at_rest\<lparr>mmap_max := 0x7F000000, pkv := rest_pkv\<lparr>brk := 0x20000, brk_min := 0x1F000, brk_max := 0x7F000000,
     first_free_page := 0x80400000, free_pages := 64, next_free_page := 2, first_free_paddr := 0x80440000,
     root_page_table := 0x80400000, vmrs := 0x80401000, vmr_table := replicate MAX_VMR free_vmr\<rparr>\<rparr>"

lemma fresh_fields [simp]:
  "ram fresh = (\<lambda>_. 0)" "mmap_max fresh = 0x7F000000" "brk (pkv fresh) = 0x20000" "brk_max (pkv fresh) = 0x7F000000"
  "brk_min (pkv fresh) = 0x1F000" "vm_lock (pkv fresh) = 0" "root_page_table (pkv fresh) = 0x80400000"
  "vmrs (pkv fresh) = 0x80401000" "vmr_table (pkv fresh) = replicate MAX_VMR free_vmr" "demand_paging (pkv fresh) = 1"
  "first_free_page (pkv fresh) = 0x80400000" "free_pages (pkv fresh) = 64" "next_free_page (pkv fresh) = 2"
  by (simp_all add: fresh_def resting_def rest_pkv_def)

lemma ld64_zero [simp]: "ld64 (\<lambda>_. 0) a = 0"
proof -
  have "get_bytes ld8 (\<lambda>_. 0) a 8 = replicate 8 0" by (intro nth_equalityI) (simp_all add: nth_get_bytes ld8_def)
  then show ?thesis by (simp add: ld64_def le_word_zeros)
qed

lemma node_zero: "node (\<lambda>_. 0) t is = (if is = [] then Some t else None)"
  by (cases "is") (simp_all add: sub_def)

lemma fresh_entries [simp]: "entry_of fresh a = 0"
  by (simp add: entry_of_def entry_def node_zero leaf_path_def)

lemma fresh_view [simp]: "view fresh k = Unmapped"
  by (simp add: view_def)

lemma fresh_inv [simp]: "vm_inv fresh"
proof -
  have pages: "pool fresh = {0x80400000, 0x80401000}"
  proof -
    have "unat (next_free_page (pkv fresh)) = 2" by simp
    moreover have "{..<2} = {0, 1 :: nat}" by auto
    ultimately show ?thesis by (simp only: pool_def image_insert image_empty) (simp add: pool_page_def)
  qed
  have "table_tree (\<lambda>_. 0) 0x80400000 (pool fresh)"
    by (simp add: table_tree_def node_zero pages page_def)
  then have ok: "vm_ok fresh" by (simp add: vm_ok_def page_def DRAM_BASE_def)
  have vmr: "vmr_ok fresh" by (simp add: vmr_ok_def page_def free_vmr_def MAX_VMR_def)
  have "refs fresh (vmr_ptr fresh i) = 0" if "i < MAX_VMR" for i
    using vmr_ptr_not_valid(2) [OF vmr that] by (simp add: refs_def)
  then have "refs_but fresh 0 0" by (simp add: refs_but_def free_vmr_def)
  then show ?thesis using ok vmr by (simp add: vm_inv_def)
qed

lemma fresh_ok [simp]: "vm_ok fresh"
  using fresh_inv by (simp add: vm_inv_def)

lemma fresh_room: "n \<le> 31 \<Longrightarrow> room_for n fresh"
  by (auto simp: room_for_def free_left_def free_vmr_def MAX_VMR_def intro!: exI [of _ 0])

text \<open>A region of two pages at \<open>0x30000\<close> that may be read and written.\<close>

lemma region_world:
  obtains s :: "unit world" where "vm_inv s" "vm_lock (pkv s) = 0" "mmap_max s = 0x7F000000" "view s 48 = Reserved 3" "view s 49 = Reserved 3"
proof -
  have placed: "placed (MAP_PRIVATE OR MAP_ANONYMOUS OR MAP_FIXED) 0x30000 0x2000 0x30000 fresh"
    by (simp add: placed_def page_def valid_user_range_def MAP_FIXED_def MAP_PRIVATE_def MAP_ANONYMOUS_def)
  have flags: "(MAP_PRIVATE OR MAP_ANONYMOUS OR MAP_FIXED) AND MAP_POPULATE = 0"
    by (simp add: MAP_FIXED_def MAP_PRIVATE_def MAP_ANONYMOUS_def MAP_POPULATE_def)
  have room: "demand_paging (pkv fresh) \<noteq> 0" "\<exists>i<MAX_VMR. vmr_refcnt (vmr_table (pkv fresh) ! i) = 0"
      "2 * ((unat (0x2000 :: u64) - 1) div 4096 + 1) \<le> free_left fresh"
    using fresh_room [of 2] by (simp_all add: room_for_def)
  obtain s :: "unit world" where s: "vm_step (2 * ((unat (0x2000 :: u64) - 1) div 4096 + 1)) fresh s" "vm_inv s"
      "\<And>k. k < 2 ^ 27 \<Longrightarrow> view s k = (if k \<in> pages_between 0x30000 (0x30000 + 0x2000) then Reserved 3 else view fresh k)"
    using do_mmap_locked_runs [OF fresh_inv _ placed flags room, of "demo 1" 3 0] by auto
  show thesis
  proof (rule that [OF s(2)])
    show "vm_lock (pkv s) = 0" "mmap_max s = 0x7F000000" using vm_step_same(1,6) [OF s(1)] by simp_all
    show "view s 48 = Reserved 3" "view s 49 = Reserved 3" using s(3) [of 48] s(3) [of 49] by (simp_all add: pages_between_def)
  qed
qed

section \<open>Memory calls\<close>

theorem do_munmap_unmaps_witness:
  "\<exists>s s' :: unit world. view s 48 = Reserved 3 \<and> do_munmap (demo 1) 0x30000 0x1000 s = Some (0, s') \<and>
     view s' 48 = Unmapped \<and> view s' 49 = Reserved 3"
proof -
  obtain s :: "unit world" where s: "vm_inv s" "vm_lock (pkv s) = 0" "mmap_max s = 0x7F000000" "view s 48 = Reserved 3" "view s 49 = Reserved 3"
    by (rule region_world)
  have "page 0x30000" "valid_user_range 0x30000 0x1000 s" by (simp_all add: page_def valid_user_range_def s(3))
  from do_munmap_unmaps [OF s(1,2) this, of "demo 1"] obtain s' where
      s': "do_munmap (demo 1) 0x30000 0x1000 s = Some (0, s')"
      "\<forall>k<2 ^ 27. view s' k = (if k \<in> pages_between 0x30000 (0x30000 + 0x1000) then Unmapped else view s k)" by blast
  have "view s' 48 = Unmapped" "view s' 49 = Reserved 3"
    using s'(2) [rule_format, of 48] s'(2) [rule_format, of 49] s(5) by (simp_all add: pages_between_def)
  then show ?thesis using s(4) s'(1) by blast
qed

theorem do_mmap_reserves_witness:
  "\<exists>s'. do_mmap (demo 1) 0x30000 0x2000 3 (MAP_PRIVATE OR MAP_ANONYMOUS OR MAP_FIXED) 0 0 fresh = Some (0x30000, s') \<and>
     vm_inv s' \<and> view s' 48 = Reserved 3 \<and> view s' 49 = Reserved 3 \<and> view s' 50 = Unmapped"
proof -
  let ?f = "MAP_PRIVATE OR MAP_ANONYMOUS OR MAP_FIXED"
  have flags: "?f AND MAP_PRIVATE \<noteq> 0" "?f AND MAP_ANONYMOUS \<noteq> 0" "?f AND MAP_POPULATE = 0"
    by (simp_all add: MAP_FIXED_def MAP_PRIVATE_def MAP_ANONYMOUS_def MAP_POPULATE_def)
  have placed: "placed ?f 0x30000 0x2000 0x30000 (locked fresh)"
    by (simp add: placed_def page_def valid_user_range_def MAP_FIXED_def MAP_PRIVATE_def MAP_ANONYMOUS_def) (simp add: locked_def)
  have room: "room_for ((unat (0x2000 :: u64) - 1) div 4096 + 1) fresh" by (rule fresh_room) simp
  obtain s' where s': "do_mmap (demo 1) 0x30000 0x2000 3 ?f 0 0 fresh = Some (0x30000, s')" "vm_done {} fresh s'"
      "\<forall>k<2 ^ 27. view s' k = (if k \<in> pages_between 0x30000 (0x30000 + 0x2000) then Reserved 3 else view fresh k)"
    using do_mmap_reserves [OF fresh_inv _ _ _ flags placed room, of 0 "demo 1" 3 0] by auto
  have "view s' 48 = Reserved 3" "view s' 49 = Reserved 3" "view s' 50 = Unmapped"
    using s'(3) [rule_format, of 48] s'(3) [rule_format, of 49] s'(3) [rule_format, of 50] by (simp_all add: pages_between_def)
  then show ?thesis using s'(1,2) by (auto simp: vm_done_def)
qed


theorem do_mmap_huge_length_witness:
  "\<exists>s'. do_mmap (demo 1) 0 (- 1) 3 (MAP_PRIVATE OR MAP_ANONYMOUS) 0 0 fresh = Some (0x1F000, s') \<and> view s' = view fresh \<and>
     brk_max (pkv s') = 0x1F000"
proof -
  let ?f = "MAP_PRIVATE OR MAP_ANONYMOUS"
  have flags: "?f AND MAP_PRIVATE \<noteq> 0" "?f AND MAP_ANONYMOUS \<noteq> 0" "?f AND MAP_FIXED = 0" "?f AND MAP_POPULATE = 0"
    by (simp_all add: MAP_FIXED_def MAP_PRIVATE_def MAP_ANONYMOUS_def MAP_POPULATE_def)
  have room: "room_for 0 fresh" by (rule fresh_room) simp
  show ?thesis
    using do_mmap_huge_length [OF fresh_inv _ _ _ flags room, where len = "- 1" and off = "0" and P = "demo 1" and addr = "0" and prot = 3 and fd = 0]
    by (simp add: min_def)
qed

theorem do_brk_moves_witness:
  "\<exists>s'. do_brk (demo 1) 0x20800 fresh = Some (0x20800, s') \<and> brk (pkv s') = 0x21000 \<and> view s' 32 = Reserved (- 1) \<and>
     view s' 33 = Unmapped"
proof -
  have edge: "ROUNDUP 0x20800 RISCV_PGSIZE = 0x21000" by (simp add: ROUNDUP_def RISCV_PGSIZE_def)
  have room: "room_for (unat (0x21000 - brk (pkv fresh)) div 4096) fresh \<or> 0x21000 \<le> brk (pkv fresh)"
    using fresh_room [of 1] by simp
  obtain s' where s': "do_brk (demo 1) 0x20800 fresh = Some (0x20800, s')" "brk (pkv s') = 0x21000"
      "\<forall>k<2 ^ 27. view s' k = (if k \<in> pages_between 0x21000 0x20000 then Unmapped
         else if k \<in> pages_between 0x20000 0x21000 then Reserved (- 1) else view fresh k)"
    using do_brk_moves [OF fresh_inv _ _ _ _ _ _ _ _ edge [symmetric] room, where addr = "0x20800" and P = "demo 1"]
    by (auto simp: page_def min_def max_def)
  have "view s' 32 = Reserved (- 1)" "view s' 33 = Unmapped"
    using s'(3) [rule_format, of 32] s'(3) [rule_format, of 33] by (simp_all add: pages_between_def)
  then show ?thesis using s'(1,2) by blast
qed

section \<open>Faults and protection\<close>

theorem handle_page_fault_reserved_witness:
  "\<exists>s s' :: unit world. view s 48 = Reserved 3 \<and> handle_page_fault (demo 1) 0x30010 PROT_READ s = Some (0, s') \<and>
     view s' 48 = Present (leaf_pte s 48 3) \<and> ram s' 0x30000 = 0"
proof -
  obtain s :: "unit world" where s: "vm_inv s" "vm_lock (pkv s) = 0" "mmap_max s = 0x7F000000" "view s 48 = Reserved 3" "view s 49 = Reserved 3"
    by (rule region_world)
  have v: "vpn 0x30010 = 48" by (simp add: vpn_unat)
  have "view s (vpn 0x30010) = Reserved 3" "0x30010 < mmap_max s" by (simp_all add: v s(3,4))
  from handle_page_fault_reserved [OF s(1,2) this, where access = PROT_READ and P = "demo 1"] obtain s' where
      s': "handle_page_fault (demo 1) 0x30010 PROT_READ s = Some (0, s')"
      "\<forall>k<2 ^ 27. view s' k = (if k = 48 then Present (leaf_pte s 48 3) else view s k)"
      "\<forall>j<4096. ram s' ((0x30010 AND NOT 4095) + of_nat j) = 0"
    by (auto simp: v PROT_READ_def)
  then show ?thesis using s(4) s'(2) [rule_format, of 48] s'(3) [rule_format, of 0] by auto
qed

theorem handle_page_fault_refused_witness: "handle_page_fault (demo 1) 0x50000 PROT_READ fresh = Some (- 1, fresh)"
  using handle_page_fault_refused [where s = fresh and a = "0x50000" and P = "demo 1" and prot = PROT_READ] by simp

theorem do_mprotect_narrows_witness:
  "\<exists>s s' :: unit world. \<exists>r. view s 48 = Reserved 3 \<and> do_mprotect 0x30000 0x1000 1 s = Some (r, s') \<and> narrows s s'"
proof -
  obtain s :: "unit world" where s: "vm_inv s" "vm_lock (pkv s) = 0" "mmap_max s = 0x7F000000" "view s 48 = Reserved 3" "view s 49 = Reserved 3"
    by (rule region_world)
  have "page 0x30000" "unat (0x30000 + 0x1000 :: u64) \<le> 2 ^ 32" by (simp_all add: page_def)
  from do_mprotect_narrows [OF s(1,2) this, of 1] s(4) show ?thesis by blast
qed

theorem do_mprotect_spreads_witness:
  "\<exists>s s' :: unit world. view s 48 = Reserved 3 \<and> do_mprotect 0x30000 1 1 s = Some (0, s') \<and> view s' 48 = Reserved 1"
proof -
  obtain s :: "unit world" where s: "vm_inv s" "vm_lock (pkv s) = 0" "mmap_max s = 0x7F000000" "view s 48 = Reserved 3" "view s 49 = Reserved 3"
    by (rule region_world)
  have v: "vpn 0x30000 = 48" by (simp add: vpn_unat)
  have pre: "page 0x30000" "0x30000 < mmap_max s" "view s (vpn 0x30000) = Reserved 3" "(1 :: u32) AND NOT 3 = 0"
    by (simp_all add: v s(3,4) page_def)
  obtain s' where s': "do_mprotect 0x30000 1 1 s = Some (0, s')"
      "\<forall>k. view s' k = (if entry_of s (page_of k) = entry_of s 0x30000 then Reserved 1 else view s k)"
    using do_mprotect_spreads [OF s(1,2) pre] by blast
  have "page_of 48 = 0x30000" by (simp add: page_of_def)
  then show ?thesis using s(4) s' by auto
qed

section \<open>Files\<close>

text \<open>A kernel whose descriptor 0 is open, and a host that answers every request.\<close>

definition opened :: "unit world" where
  "opened = at_rest\<lparr>pkv := rest_pkv\<lparr>fds := (replicate 128 None)[0 := Some 0],
     files := (replicate 128 \<lparr>kfd = - 1, refcnt = 0\<rparr>)[0 := \<lparr>kfd = 0, refcnt = 3\<rparr>]\<rparr>\<rparr>"

definition host_bus :: "unit bus" where
  "host_bus = \<lparr>bus_rd = \<lambda>w a d. (if a = 0x60000008 then 1 else 0, d), bus_wr = \<lambda>w a v d. d\<rparr>"

definition hosted :: "unit platform" where
  "hosted = demo 1\<lparr>bus_of := host_bus\<rparr>"

lemma opened_fields [simp]:
  "fds (pkv opened) = (replicate 128 None)[0 := Some 0]"
  "files (pkv opened) = (replicate 128 \<lparr>kfd = - 1, refcnt = 0\<rparr>)[0 := \<lparr>kfd = 0, refcnt = 3\<rparr>]"
  "ram opened = (\<lambda>_. 0)"
  by (simp_all add: opened_def resting_def)

lemma opened_files: "file_inv opened (\<lambda>f. if f = 0 then 1 else 0)"
proof -
  have "{i. i < MAX_FDS \<and> fds (pkv opened) ! i = Some f} = (if f = 0 then {0} else {})" for f
    by (auto simp: MAX_FDS_def nth_list_update split: if_splits)
  then have "fd_count opened f = (if f = 0 then 1 else 0)" for f by (simp add: fd_count_def)
  then show ?thesis
    by (auto simp: file_inv_def MAX_FDS_def MAX_FILES_def file_at_def nth_list_update split: if_splits)
qed

lemma opened_close: "\<exists>s'. sys_close hosted 0 opened = Some (0, s')"
  by (simp add: sys_close_def fd_close_def file_get_def file_decref_def file_at_def set_file_def set_fd_def MAX_FDS_def Let_def)

theorem sys_close_balanced_witness:
  "\<exists>s'. sys_close hosted 0 opened = Some (0, s') \<and> fds (pkv s') ! 0 = None \<and> file_inv s' (\<lambda>f. if f = 0 then 1 else 0)"
proof -
  obtain s' where s': "sys_close hosted 0 opened = Some (0, s')" using opened_close by blast
  have "fds (pkv s') = (fds (pkv opened))[unat (0 :: u32) := None] \<and> file_inv s' (\<lambda>f. if f = 0 then 1 else 0)"
    using sys_close_balanced [OF opened_files _ _ _ _ s'] by simp
  then show ?thesis using s' by simp
qed

text \<open>The host answers a request with what was in the first word of the request: its number.\<close>

lemma hosted_answers:
  assumes "tohost s = 0x60000000" "fromhost s = 0x60000008" "magic_mem (pkv s) = 0x80000040"
  shows "\<exists>s'. frontend_syscall hosted n a0 a1 a2 a3 a4 a5 a6 s = Some (n, s') \<and> pkv s' = pkv s"
proof -
  have bus: "mmio_rd host_bus 8 (tohost t) t = (0, t\<lparr>trace := trace t @ [MRead 8 (tohost t) 0]\<rparr>)" if "tohost t = 0x60000000" for t
    using that by (simp add: mmio_rd_def host_bus_def)
  have bus2: "mmio_rd host_bus 8 (fromhost t) t = (1, t\<lparr>trace := trace t @ [MRead 8 (fromhost t) 1]\<rparr>)" if "fromhost t = 0x60000008" for t
    using that by (simp add: mmio_rd_def host_bus_def)
  have w1: "\<exists>t'. set_tohost_wait host_bus t = Some t' \<and> ram t' = ram t \<and> pkv t' = pkv t \<and> fromhost t' = fromhost t"
    if "tohost t = 0x60000000" for t
    by (subst set_tohost_wait.simps) (simp add: bus [OF that])
  have w2: "\<exists>t'. fromhost_wait host_bus 0 0 t = Some t' \<and> ram t' = ram t \<and> pkv t' = pkv t"
    if "fromhost t = 0x60000008" for t
    by (subst fromhost_wait.simps) (simp add: bus2 [OF that] FROMHOST_DEV_def FROMHOST_CMD_def mmio_wr_def)
  have htif: "\<exists>t'. htif_syscall host_bus buf t = Some t' \<and> ram t' = ram t \<and> pkv t' = pkv t"
    if t: "tohost t = 0x60000000" "fromhost t = 0x60000008" for t buf
  proof -
    obtain t1 where t1: "set_tohost_wait host_bus t = Some t1" "ram t1 = ram t" "pkv t1 = pkv t" "fromhost t1 = fromhost t"
      using w1 [OF t(1)] by blast
    let ?t2 = "mmio_wr host_bus 8 (tohost t1) (TOHOST_CMD 0 0 buf) t1"
    have "fromhost ?t2 = 0x60000008" using t(2) t1(4) by (simp add: mmio_wr_def)
    from w2 [OF this] obtain t3 where "fromhost_wait host_bus 0 0 ?t2 = Some t3" "ram t3 = ram ?t2" "pkv t3 = pkv ?t2" by blast
    then show ?thesis using t1 by (simp add: htif_syscall_def do_tohost_fromhost_def set_tohost_def mmio_wr_def)
  qed
  let ?r = "st_dwords (ram s) 0x80000040 [n, a0, a1, a2, a3, a4, a5, a6]"
  have n: "ld64 ?r 0x80000040 = n" by (simp add: ld64_st64_aligned)
  have "tohost (s\<lparr>ram := ?r\<rparr>) = 0x60000000" "fromhost (s\<lparr>ram := ?r\<rparr>) = 0x60000008" using assms by simp_all
  from htif [OF this, of "0x80000040"] obtain t' where
      t': "htif_syscall host_bus 0x80000040 (s\<lparr>ram := ?r\<rparr>) = Some t'" "ram t' = ?r" "pkv t' = pkv s" by auto
  have "frontend_syscall hosted n a0 a1 a2 a3 a4 a5 a6 s = Some (n, t')"
    unfolding frontend_syscall_def Let_def assms(3) using t'(1,2) n by (simp add: hosted_def demo_def del: st_dwords.simps)
  then show ?thesis using t'(3) by blast
qed

theorem open_close_leaks_witness:
  "\<exists>s1 s2. sys_open hosted 0x1000 0 0 opened = Some (1, s1) \<and> sys_close hosted 1 s1 = Some (0, s2) \<and>
     fds (pkv s2) = fds (pkv opened) \<and> (\<exists>f<MAX_FILES. refcnt (file_at opened f) = 0 \<and> refcnt (file_at s2 f) = 2)"
proof -
  have find: "find (\<lambda>f. refcnt (file_at opened f) = 0) [0..<MAX_FILES] = Some 1"
    "find (\<lambda>i. fds (pkv opened) ! i = None) [0..<MAX_FDS] = Some 1"
    by (simp_all add: MAX_FILES_def MAX_FDS_def file_at_def upt_rec [of 0] upt_rec [of "Suc 0"])
  let ?o = "set_file 1 ((file_at opened 1)\<lparr>refcnt := 2\<rparr>) opened"
  have free: "file_get_free opened = (Some 1, ?o)" by (simp add: file_get_free_def find(1))
  have name: "strlen (\<lambda>_. 0) 0x1000 = Some 0" by (simp add: strlen_def strlen_end.simps [where p = "0x1000"] ld8_def)
  have "tohost ?o = 0x60000000" "fromhost ?o = 0x60000008" "magic_mem (pkv ?o) = 0x80000040"
    by (simp_all add: set_file_def opened_def resting_def rest_pkv_def)
  from hosted_answers [OF this] obtain t where
      t: "frontend_syscall hosted SYS_openat (scast AT_FDCWD) (va2pa 0x1000 ?o) 1 (scast (0 :: u32)) (scast (0 :: u32)) 0 0 ?o = Some (SYS_openat, t)"
      "pkv t = pkv ?o" by blast
  let ?k = "set_file 1 ((file_at t 1)\<lparr>kfd := 56\<rparr>) t"
  let ?d = "set_fd 1 (Some 1) ?k"
  have fd: "find (\<lambda>i. fds (pkv ?k) ! i = None) [0..<MAX_FDS] = Some 1"
    using find(2) by (simp add: set_file_def t(2))
  have one: "file_at ?k (Suc 0) = \<lparr>kfd = 56, refcnt = 2\<rparr>"
    by (simp add: file_at_def set_file_def t(2))
  let ?s1 = "set_file 1 \<lparr>kfd = 56, refcnt = 3\<rparr> ?d"
  have dup: "file_dup 1 ?k = Some (1, ?s1)"
    unfolding file_dup_def fd option.case by (simp add: file_incref_def Let_def one [unfolded One_nat_def])
  have "file_openat hosted AT_FDCWD 0x1000 0 0 opened = Some (Inr 1, ?k)"
    unfolding file_openat_def free using t(1) by (simp add: name set_file_def SYS_openat_def)
  then have "sys_open hosted 0x1000 0 0 opened = Some (1, ?s1)"
    by (simp add: sys_open_def sys_openat_def at_kfd_def AT_FDCWD_def dup [unfolded One_nat_def])
  moreover have "\<exists>s2. sys_close hosted 1 ?s1 = Some (0, s2)"
    by (simp add: sys_close_def fd_close_def file_get_def file_decref_def file_at_def set_file_def set_fd_def MAX_FDS_def Let_def t(2))
  ultimately show ?thesis
    using open_close_leaks [OF opened_files, of hosted "0x1000" 0 0] by fastforce
qed

section \<open>Traps\<close>

theorem old_syscalls_lost_witness: "do_syscall (demo 1) demo_frame 0 0 0 0 0 0 1024 fresh = None"
  using old_syscalls_lost [where n = "1024" and P = "demo 1" and F = demo_frame and s = fresh] by simp

theorem do_syscall_file_calls_witness:
  "do_syscall (demo 1) demo_frame 1 0x30000 5 0 0 0 64 fresh = Some (scast (- 38 :: u32), fresh)"
  using do_syscall_file_calls [where n = "64" and P = "demo 1" and F = demo_frame and s = fresh]
  by (simp add: nosys_calls_def demo_def)

definition user_frame :: "u64 \<Rightarrow> u64 \<Rightarrow> u64 list \<Rightarrow> trapframe_t" where
  "user_frame c addr regs = \<lparr>gpr = regs, status = 0x20, epc = 0x10100, badvaddr = addr, cause = c, insn = 0\<rparr>"

theorem handle_trap_fault_witness:
  "\<exists>s s' :: unit world. view s 48 = Reserved 3 \<and>
     handle_trap (demo 1) demo_frame (user_frame CAUSE_STORE_PAGE_FAULT 0x30010 (replicate 32 0)) s =
       Some (user_frame CAUSE_STORE_PAGE_FAULT 0x30010 (replicate 32 0), s') \<and>
     view s' 48 = Present (leaf_pte s 48 3) \<and>
     handle_trap (demo 1) demo_frame (user_frame CAUSE_FETCH_PAGE_FAULT 0x30010 (replicate 32 0)) s = None"
proof -
  obtain s :: "unit world" where s: "vm_inv s" "vm_lock (pkv s) = 0" "mmap_max s = 0x7F000000" "view s 48 = Reserved 3" "view s 49 = Reserved 3"
    by (rule region_world)
  let ?tf = "\<lambda>c. user_frame c 0x30010 (replicate 32 0)"
  have v: "vpn 0x30010 = 48" by (simp add: vpn_unat)
  have pre: "view s (vpn (badvaddr (?tf c))) = Reserved 3" "badvaddr (?tf c) < mmap_max s" "cause (?tf c) = c" for c
    using s(3,4) by (simp_all add: user_frame_def v)
  have "\<exists>s'. handle_trap (demo 1) demo_frame (?tf CAUSE_STORE_PAGE_FAULT) s = Some (?tf CAUSE_STORE_PAGE_FAULT, s') \<and>
      view s' 48 = Present (leaf_pte s 48 3)"
    using handle_trap_fault [OF s(1,2) pre(1,2) [of CAUSE_STORE_PAGE_FAULT], where access = PROT_WRITE and P = "demo 1" and F = demo_frame]
    by (auto simp: pre(3) PROT_WRITE_def user_frame_def v)
  moreover have "handle_trap (demo 1) demo_frame (?tf CAUSE_FETCH_PAGE_FAULT) s = None"
    using handle_trap_fault [OF s(1,2) pre(1,2) [of CAUSE_FETCH_PAGE_FAULT], where access = PROT_EXEC and P = "demo 1" and F = demo_frame]
    by (simp add: pre(3) PROT_EXEC_def)
  ultimately show ?thesis using s(4) by blast
qed

theorem handle_trap_munmap_witness:
  "\<exists>s s' :: unit world. \<exists>tf. view s 48 = Reserved 3 \<and>
     handle_trap (demo 1) demo_frame (user_frame CAUSE_USER_ECALL 0 ((replicate 32 0)[10 := 0x30000, 11 := 0x1000, 17 := 215])) s =
       Some (tf, s') \<and> epc tf = 0x10104 \<and> view s' 48 = Unmapped"
proof -
  obtain s :: "unit world" where s: "vm_inv s" "vm_lock (pkv s) = 0" "mmap_max s = 0x7F000000" "view s 48 = Reserved 3" "view s 49 = Reserved 3"
    by (rule region_world)
  let ?tf = "user_frame CAUSE_USER_ECALL 0 ((replicate 32 0)[10 := 0x30000, 11 := 0x1000, 17 := 215])"
  have regs: "gpr ?tf ! 10 = 0x30000" "gpr ?tf ! 11 = 0x1000" "gpr ?tf ! 17 = 215" "cause ?tf = CAUSE_USER_ECALL" "epc ?tf = 0x10100"
    by (simp_all add: user_frame_def)
  have "page (gpr ?tf ! 10)" "valid_user_range (gpr ?tf ! 10) (gpr ?tf ! 11) s"
    unfolding regs by (simp_all add: page_def valid_user_range_def s(3))
  from handle_trap_munmap [OF s(1,2) regs(4,3) this, of "demo 1" demo_frame] obtain s' where
      s': "handle_trap (demo 1) demo_frame ?tf s = Some (?tf\<lparr>gpr := (gpr ?tf)[10 := 0], epc := epc ?tf + 4\<rparr>, s')"
      "\<forall>k<2 ^ 27. view s' k = (if k \<in> pages_between 0x30000 (0x30000 + 0x1000) then Unmapped else view s k)"
    unfolding regs by blast
  have "view s' 48 = Unmapped" using s'(2) [rule_format, of 48] by (simp add: pages_between_def)
  moreover have "epc (?tf\<lparr>gpr := (gpr ?tf)[10 := 0], epc := epc ?tf + 4\<rparr>) = 0x10104" by (simp add: regs(5))
  ultimately show ?thesis using s(4) s'(1) by blast
qed

end
