(* ===== verification/Insn.thy ===== *)
theory Insn
  imports Machine
begin

text \<open>
  Instruction words of \<^verbatim>\<open>src/pk/machine/emulation.h\<close> and \<^verbatim>\<open>encoding.h\<close>: the masks and matches of the
  instructions that machine mode completes in software, the register fields and the immediates of the standard and the
  compressed formats, and the saved registers they select. An instruction is an \<^verbatim>\<open>insn_t\<close>, a 64-bit word.
\<close>

section \<open>Masks and matches\<close>

definition MATCH_LW :: u64 where "MATCH_LW = 0x2003"
definition MASK_LW :: u64 where "MASK_LW = 0x707f"
definition MATCH_LD :: u64 where "MATCH_LD = 0x3003"
definition MASK_LD :: u64 where "MASK_LD = 0x707f"
definition MATCH_LWU :: u64 where "MATCH_LWU = 0x6003"
definition MASK_LWU :: u64 where "MASK_LWU = 0x707f"
definition MATCH_FLD :: u64 where "MATCH_FLD = 0x3007"
definition MASK_FLD :: u64 where "MASK_FLD = 0x707f"
definition MATCH_FLW :: u64 where "MATCH_FLW = 0x2007"
definition MASK_FLW :: u64 where "MASK_FLW = 0x707f"
definition MATCH_LH :: u64 where "MATCH_LH = 0x1003"
definition MASK_LH :: u64 where "MASK_LH = 0x707f"
definition MATCH_LHU :: u64 where "MATCH_LHU = 0x5003"
definition MASK_LHU :: u64 where "MASK_LHU = 0x707f"
definition MATCH_C_LD :: u64 where "MATCH_C_LD = 0x6000"
definition MASK_C_LD :: u64 where "MASK_C_LD = 0xe003"
definition MATCH_C_LDSP :: u64 where "MATCH_C_LDSP = 0x6002"
definition MASK_C_LDSP :: u64 where "MASK_C_LDSP = 0xe003"
definition MATCH_C_LW :: u64 where "MATCH_C_LW = 0x4000"
definition MASK_C_LW :: u64 where "MASK_C_LW = 0xe003"
definition MATCH_C_LWSP :: u64 where "MATCH_C_LWSP = 0x4002"
definition MASK_C_LWSP :: u64 where "MASK_C_LWSP = 0xe003"
definition MATCH_C_FLD :: u64 where "MATCH_C_FLD = 0x2000"
definition MASK_C_FLD :: u64 where "MASK_C_FLD = 0xe003"
definition MATCH_C_FLDSP :: u64 where "MATCH_C_FLDSP = 0x2002"
definition MASK_C_FLDSP :: u64 where "MASK_C_FLDSP = 0xe003"
definition MATCH_SW :: u64 where "MATCH_SW = 0x2023"
definition MASK_SW :: u64 where "MASK_SW = 0x707f"
definition MATCH_SD :: u64 where "MATCH_SD = 0x3023"
definition MASK_SD :: u64 where "MASK_SD = 0x707f"
definition MATCH_FSD :: u64 where "MATCH_FSD = 0x3027"
definition MASK_FSD :: u64 where "MASK_FSD = 0x707f"
definition MATCH_FSW :: u64 where "MATCH_FSW = 0x2027"
definition MASK_FSW :: u64 where "MASK_FSW = 0x707f"
definition MATCH_SH :: u64 where "MATCH_SH = 0x1023"
definition MASK_SH :: u64 where "MASK_SH = 0x707f"
definition MATCH_C_SD :: u64 where "MATCH_C_SD = 0xe000"
definition MASK_C_SD :: u64 where "MASK_C_SD = 0xe003"
definition MATCH_C_SDSP :: u64 where "MATCH_C_SDSP = 0xe002"
definition MASK_C_SDSP :: u64 where "MASK_C_SDSP = 0xe003"
definition MATCH_C_SW :: u64 where "MATCH_C_SW = 0xc000"
definition MASK_C_SW :: u64 where "MASK_C_SW = 0xe003"
definition MATCH_C_SWSP :: u64 where "MATCH_C_SWSP = 0xc002"
definition MASK_C_SWSP :: u64 where "MASK_C_SWSP = 0xe003"
definition MATCH_C_FSD :: u64 where "MATCH_C_FSD = 0xa000"
definition MASK_C_FSD :: u64 where "MASK_C_FSD = 0xe003"
definition MATCH_C_FSDSP :: u64 where "MATCH_C_FSDSP = 0xa002"
definition MASK_C_FSDSP :: u64 where "MASK_C_FSDSP = 0xe003"
definition MATCH_MUL :: u64 where "MATCH_MUL = 0x2000033"
definition MASK_MUL :: u64 where "MASK_MUL = 0xfe00707f"
definition MATCH_DIV :: u64 where "MATCH_DIV = 0x2004033"
definition MASK_DIV :: u64 where "MASK_DIV = 0xfe00707f"
definition MATCH_DIVU :: u64 where "MATCH_DIVU = 0x2005033"
definition MASK_DIVU :: u64 where "MASK_DIVU = 0xfe00707f"
definition MATCH_REM :: u64 where "MATCH_REM = 0x2006033"
definition MASK_REM :: u64 where "MASK_REM = 0xfe00707f"
definition MATCH_REMU :: u64 where "MATCH_REMU = 0x2007033"
definition MASK_REMU :: u64 where "MASK_REMU = 0xfe00707f"
definition MATCH_MULH :: u64 where "MATCH_MULH = 0x2001033"
definition MASK_MULH :: u64 where "MASK_MULH = 0xfe00707f"
definition MATCH_MULHU :: u64 where "MATCH_MULHU = 0x2003033"
definition MASK_MULHU :: u64 where "MASK_MULHU = 0xfe00707f"
definition MATCH_MULHSU :: u64 where "MATCH_MULHSU = 0x2002033"
definition MASK_MULHSU :: u64 where "MASK_MULHSU = 0xfe00707f"
definition MATCH_MULW :: u64 where "MATCH_MULW = 0x200003b"
definition MASK_MULW :: u64 where "MASK_MULW = 0xfe00707f"
definition MATCH_DIVW :: u64 where "MATCH_DIVW = 0x200403b"
definition MASK_DIVW :: u64 where "MASK_DIVW = 0xfe00707f"
definition MATCH_DIVUW :: u64 where "MATCH_DIVUW = 0x200503b"
definition MASK_DIVUW :: u64 where "MASK_DIVUW = 0xfe00707f"
definition MATCH_REMW :: u64 where "MATCH_REMW = 0x200603b"
definition MASK_REMW :: u64 where "MASK_REMW = 0xfe00707f"
definition MATCH_REMUW :: u64 where "MATCH_REMUW = 0x200703b"
definition MASK_REMUW :: u64 where "MASK_REMUW = 0xfe00707f"

lemmas insn_codes = MATCH_LW_def MASK_LW_def MATCH_LD_def MASK_LD_def MATCH_LWU_def MASK_LWU_def MATCH_FLD_def MASK_FLD_def MATCH_FLW_def MASK_FLW_def
  MATCH_LH_def MASK_LH_def MATCH_LHU_def MASK_LHU_def MATCH_C_LD_def MASK_C_LD_def MATCH_C_LDSP_def MASK_C_LDSP_def MATCH_C_LW_def MASK_C_LW_def
  MATCH_C_LWSP_def MASK_C_LWSP_def MATCH_C_FLD_def MASK_C_FLD_def MATCH_C_FLDSP_def MASK_C_FLDSP_def MATCH_SW_def MASK_SW_def MATCH_SD_def MASK_SD_def
  MATCH_FSD_def MASK_FSD_def MATCH_FSW_def MASK_FSW_def MATCH_SH_def MASK_SH_def MATCH_C_SD_def MASK_C_SD_def MATCH_C_SDSP_def MASK_C_SDSP_def
  MATCH_C_SW_def MASK_C_SW_def MATCH_C_SWSP_def MASK_C_SWSP_def MATCH_C_FSD_def MASK_C_FSD_def MATCH_C_FSDSP_def MASK_C_FSDSP_def MATCH_MUL_def MASK_MUL_def
  MATCH_DIV_def MASK_DIV_def MATCH_DIVU_def MASK_DIVU_def MATCH_REM_def MASK_REM_def MATCH_REMU_def MASK_REMU_def MATCH_MULH_def MASK_MULH_def
  MATCH_MULHU_def MASK_MULHU_def MATCH_MULHSU_def MASK_MULHSU_def MATCH_MULW_def MASK_MULW_def MATCH_DIVW_def MASK_DIVW_def MATCH_DIVUW_def MASK_DIVUW_def
  MATCH_REMW_def MASK_REMW_def MATCH_REMUW_def MASK_REMUW_def

section \<open>Fields\<close>

definition SH_RD :: int where "SH_RD = 7"
definition SH_RS1 :: int where "SH_RS1 = 15"
definition SH_RS2 :: int where "SH_RS2 = 20"
definition SH_RS2C :: int where "SH_RS2C = 2"
definition LOG_REGBYTES :: nat where "LOG_REGBYTES = 3"

definition RV_X :: "u64 \<Rightarrow> nat \<Rightarrow> nat \<Rightarrow> u64" where
  "RV_X x s n = drop_bit s x AND (push_bit n 1 - 1)"

definition RVC_LD_IMM :: "u64 \<Rightarrow> u64" where
  "RVC_LD_IMM x = push_bit 3 (RV_X x 10 3) OR push_bit 6 (RV_X x 5 2)"

definition RVC_LDSP_IMM :: "u64 \<Rightarrow> u64" where
  "RVC_LDSP_IMM x = push_bit 3 (RV_X x 5 2) OR push_bit 5 (RV_X x 12 1) OR push_bit 6 (RV_X x 2 3)"

definition RVC_SDSP_IMM :: "u64 \<Rightarrow> u64" where
  "RVC_SDSP_IMM x = push_bit 3 (RV_X x 10 3) OR push_bit 6 (RV_X x 7 3)"

definition RVC_RS1S :: "u64 \<Rightarrow> u64" where "RVC_RS1S insn = 8 + RV_X insn (nat SH_RD) 3"
definition RVC_RS2S :: "u64 \<Rightarrow> u64" where "RVC_RS2S insn = 8 + RV_X insn (nat SH_RS2C) 3"
definition RVC_RS2 :: "u64 \<Rightarrow> u64" where "RVC_RS2 insn = RV_X insn (nat SH_RS2C) 5"

definition SHIFT_RIGHT :: "u64 \<Rightarrow> int \<Rightarrow> u64" where
  "SHIFT_RIGHT x y = (if y < 0 then push_bit (nat (- y)) x else drop_bit (nat y) x)"

text \<open>The slot of the saved registers that the field at \<open>pos\<close> selects; the macro computes its byte offset.\<close>

definition GET_REG :: "u64 \<Rightarrow> int \<Rightarrow> nat" where
  "GET_REG insn pos =
     (let mask = push_bit (5 + LOG_REGBYTES) 1 - push_bit LOG_REGBYTES 1
      in unat (SHIFT_RIGHT insn (pos - int LOG_REGBYTES) AND mask) div 2 ^ LOG_REGBYTES)"

definition GET_RS1 :: "u64 \<Rightarrow> u64 list \<Rightarrow> u64" where "GET_RS1 insn regs = regs ! GET_REG insn SH_RS1"
definition GET_RS2 :: "u64 \<Rightarrow> u64 list \<Rightarrow> u64" where "GET_RS2 insn regs = regs ! GET_REG insn SH_RS2"
definition GET_RS1S :: "u64 \<Rightarrow> u64 list \<Rightarrow> u64" where "GET_RS1S insn regs = regs ! GET_REG (RVC_RS1S insn) 0"
definition GET_RS2S :: "u64 \<Rightarrow> u64 list \<Rightarrow> u64" where "GET_RS2S insn regs = regs ! GET_REG (RVC_RS2S insn) 0"
definition GET_RS2C :: "u64 \<Rightarrow> u64 list \<Rightarrow> u64" where "GET_RS2C insn regs = regs ! GET_REG insn SH_RS2C"
definition GET_SP :: "u64 list \<Rightarrow> u64" where "GET_SP regs = regs ! GET_REG 2 0"

definition SET_RD :: "u64 \<Rightarrow> u64 list \<Rightarrow> u64 \<Rightarrow> u64 list" where
  "SET_RD insn regs v = regs[GET_REG insn SH_RD := v]"

definition IMM_I :: "u64 \<Rightarrow> u32" where
  "IMM_I insn = signed_drop_bit 20 (ucast insn)"

definition IMM_S :: "u64 \<Rightarrow> u32" where
  "IMM_S insn = push_bit 5 (signed_drop_bit 25 (ucast insn)) OR ucast (drop_bit 7 insn AND 0x1f)"

definition MASK_FUNCT3 :: u64 where "MASK_FUNCT3 = 0x7000"

definition GET_PRECISION :: "u64 \<Rightarrow> u64" where "GET_PRECISION insn = drop_bit 25 insn AND 3"
definition GET_RM :: "u64 \<Rightarrow> u64" where "GET_RM insn = drop_bit 12 insn AND 7"

text \<open>The slot is the five-bit field itself.\<close>

lemma slot_div: "unat (push_bit 3 x AND 0xF8 :: u64) div 8 = unat (x AND 0x1F)"
proof -
  have "push_bit 3 x AND 0xF8 = push_bit 3 (x AND 0x1F :: u64)" by (simp add: push_bit_and)
  moreover have "x AND 0x1F \<le> 0x1F" by (rule word_and_le1)
  then have "unat (x AND 0x1F) \<le> 31" by (simp add: word_le_nat_alt)
  then have "unat (push_bit 3 (x AND 0x1F)) = 8 * unat (x AND 0x1F)"
    unfolding push_bit_eq_mult by (subst unat_mult_lem [THEN iffD1]) simp_all
  ultimately show ?thesis by simp
qed

lemma GET_REG_eq: "0 \<le> p \<Longrightarrow> GET_REG insn p = unat (drop_bit (nat p) insn AND 0x1F)"
proof -
  assume p: "0 \<le> p"
  have m: "(0xF8 :: u64) = push_bit 3 (mask 5)" by (simp add: mask_eq_exp_minus_1)
  have "SHIFT_RIGHT insn (p - 3) AND 0xF8 = push_bit 3 (drop_bit (nat p) insn) AND 0xF8"
    unfolding m SHIFT_RIGHT_def
  proof (rule bit_word_eqI)
    fix n
    have "nat (p - 3) + n = nat p + (n - 3)" if "3 \<le> n" "3 \<le> p" using that by linarith
    moreover have "n - nat (3 - p) = nat p + (n - 3)" "nat (3 - p) \<le> n" if "3 \<le> n" "p < 3" using that p by linarith+
    ultimately show "bit ((if p - 3 < 0 then push_bit (nat (- (p - 3))) insn else drop_bit (nat (p - 3)) insn) AND push_bit 3 (mask 5)) n \<longleftrightarrow>
        bit (push_bit 3 (drop_bit (nat p) insn) AND push_bit 3 (mask 5)) n"
      by (cases "3 \<le> n"; cases "p < 3") (auto simp: bit_and_iff bit_push_bit_iff bit_drop_bit_eq bit_mask_iff)
  qed
  then show ?thesis by (simp add: GET_REG_def LOG_REGBYTES_def slot_div)
qed

lemma GET_REG_less: "0 \<le> p \<Longrightarrow> GET_REG insn p < 32"
proof -
  have "drop_bit (nat p) insn AND 0x1F \<le> 0x1F" by (rule word_and_le1)
  then show "0 \<le> p \<Longrightarrow> GET_REG insn p < 32" by (simp add: GET_REG_eq word_le_nat_alt)
qed

end
