(* ===== verification/Emulation.thy ===== *)
theory Emulation
  imports Insn Sbi "HOL-Library.Signed_Division"
begin

text \<open>
  Instructions that machine mode completes for the code below it: control registers
  (\<^verbatim>\<open>emulation.c\<close>), multiplication and division (\<^verbatim>\<open>muldiv_emulation.c\<close>), misaligned accesses
  (\<^verbatim>\<open>misaligned_ldst.c\<close>), floating-point loads and stores (\<^verbatim>\<open>fp_ldst.c\<close>) and the accesses to memory with the
  privileges of the interrupted code (\<^verbatim>\<open>unprivileged_memory.h\<close>). The saved registers are a list of 32 words.

  The preprocessor's flags are fields of \<open>emulator\<close>. So is what lies outside the sources: the address translation of the
  hart (an access gets its physical address or the cause of its fault), the address of the instruction
  that makes such an access, and what the compiler's division gives where C defines no result.
\<close>

section \<open>The target\<close>

datatype access = Reading | Writing

record libcalls =
  bad_div :: "u64 \<Rightarrow> u64 \<Rightarrow> u64"
  bad_divu :: "u64 \<Rightarrow> u64 \<Rightarrow> u64"
  bad_rem :: "u64 \<Rightarrow> u64 \<Rightarrow> u64"
  bad_remu :: "u64 \<Rightarrow> u64 \<Rightarrow> u64"
  bad_divw :: "u32 \<Rightarrow> u32 \<Rightarrow> u32"
  bad_divuw :: "u32 \<Rightarrow> u32 \<Rightarrow> u32"
  bad_remw :: "u32 \<Rightarrow> u32 \<Rightarrow> u32"
  bad_remuw :: "u32 \<Rightarrow> u32 \<Rightarrow> u32"

record 'd emulator =
  plat :: "'d platform"
  riscv_flen :: bool
  riscv_muldiv :: bool
  riscv_compressed :: bool
  fp_emulation :: bool
  translate :: "access \<Rightarrow> u64 \<Rightarrow> 'd world \<Rightarrow> u64 + u64"
  access_pc :: u64
  libcalls_of :: libcalls

text \<open>
  A handler returns a value, leaves for the trap handler of supervisor mode, or never returns.
\<close>

datatype ('a, 'd) outcome = Value 'a "'d world" | Redirected "'d world" | Stopped

fun and_then :: "('a, 'd) outcome \<Rightarrow> ('a \<Rightarrow> 'd world \<Rightarrow> ('b, 'd) outcome) \<Rightarrow> ('b, 'd) outcome" where
  "and_then (Value v s) k = k v s"
| "and_then (Redirected s) k = Redirected s"
| "and_then Stopped k = Stopped"

lemma and_then_assoc: "and_then (and_then r f) g = and_then r (\<lambda>v s. and_then (f v s) g)"
  by (cases r) auto

section \<open>Memory of the interrupted code\<close>

definition MSTATUS_MIE :: u64 where "MSTATUS_MIE = 0x8"
definition MSTATUS_MPIE :: u64 where "MSTATUS_MPIE = 0x80"

text \<open>What the hart does to \<^verbatim>\<open>mstatus\<close> when it traps from machine mode into machine mode.\<close>

definition trap_status :: "u64 \<Rightarrow> u64" where
  "trap_status m = (m AND NOT (MSTATUS_MIE OR MSTATUS_MPIE)) OR MSTATUS_MPP OR (push_bit 4 m AND MSTATUS_MPIE)"

text \<open>
  An access that faults traps to \<^verbatim>\<open>trap_from_machine_mode\<close>, with the three registers that the access pins:
  the adjustment, the address of the instruction and the old \<^verbatim>\<open>mstatus\<close>.
\<close>

definition access_fault :: "'d emulator \<Rightarrow> u64 \<Rightarrow> u64 \<Rightarrow> u64 \<Rightarrow> u64 \<Rightarrow> u64 \<Rightarrow> 'd world \<Rightarrow> ('a, 'd) outcome" where
  "access_fault E adjust mepc mstatus cause addr s =
     (let s = write_csr MSTATUS (trap_status (read_csr MSTATUS s)) s;
          s = write_csr MCAUSE cause s;
          s = write_csr MBADADDR addr s;
          s = write_csr MEPC (access_pc E) s;
          regs = (replicate 32 0)[11 := adjust, 12 := mepc, 13 := mstatus]
      in case trap_from_machine_mode (plat E) regs (access_pc E) s of Some s \<Rightarrow> Redirected s | None \<Rightarrow> Stopped)"

definition guest :: "'d emulator \<Rightarrow> u64 \<Rightarrow> u64 \<Rightarrow> u64 \<Rightarrow> access \<Rightarrow> u64 \<Rightarrow> 'd world \<Rightarrow> (u64, 'd) outcome" where
  "guest E adjust mepc mstatus k addr s =
     (case translate E k addr s of Inr pa \<Rightarrow> Value pa s | Inl cause \<Rightarrow> access_fault E adjust mepc mstatus cause addr s)"

definition user_load :: "(ram \<Rightarrow> u64 \<Rightarrow> 'a) \<Rightarrow> 'd emulator \<Rightarrow> u64 \<Rightarrow> u64 \<Rightarrow> 'd world \<Rightarrow> ('a, 'd) outcome" where
  "user_load ld E addr mepc s =
     (let (mstatus, s) = set_csr MSTATUS MSTATUS_MPRV s
      in and_then (guest E MSTATUS_MPRV mepc mstatus Reading addr s)
           (\<lambda>pa s. Value (ld (ram s) pa) (write_csr MSTATUS mstatus s)))"

definition user_store :: "(ram \<Rightarrow> u64 \<Rightarrow> 'a \<Rightarrow> ram) \<Rightarrow> 'd emulator \<Rightarrow> u64 \<Rightarrow> 'a \<Rightarrow> u64 \<Rightarrow> 'd world \<Rightarrow> (unit, 'd) outcome" where
  "user_store st E addr v mepc s =
     (let (mstatus, s) = set_csr MSTATUS MSTATUS_MPRV s
      in and_then (guest E MSTATUS_MPRV mepc mstatus Writing addr s)
           (\<lambda>pa s. Value () (write_csr MSTATUS mstatus (s\<lparr>ram := st (ram s) pa v\<rparr>))))"

definition load_uint8_t :: "'d emulator \<Rightarrow> u64 \<Rightarrow> u64 \<Rightarrow> 'd world \<Rightarrow> (u8, 'd) outcome" where
  "load_uint8_t = user_load ld8"

definition load_int32_t :: "'d emulator \<Rightarrow> u64 \<Rightarrow> u64 \<Rightarrow> 'd world \<Rightarrow> (u32, 'd) outcome" where
  "load_int32_t = user_load ld32"

definition load_uint64_t :: "'d emulator \<Rightarrow> u64 \<Rightarrow> u64 \<Rightarrow> 'd world \<Rightarrow> (u64, 'd) outcome" where
  "load_uint64_t = user_load ld64"

definition store_uint8_t :: "'d emulator \<Rightarrow> u64 \<Rightarrow> u8 \<Rightarrow> u64 \<Rightarrow> 'd world \<Rightarrow> (unit, 'd) outcome" where
  "store_uint8_t = user_store st8"

definition store_uint32_t :: "'d emulator \<Rightarrow> u64 \<Rightarrow> u32 \<Rightarrow> u64 \<Rightarrow> 'd world \<Rightarrow> (unit, 'd) outcome" where
  "store_uint32_t = user_store st32"

definition store_uint64_t :: "'d emulator \<Rightarrow> u64 \<Rightarrow> u64 \<Rightarrow> u64 \<Rightarrow> 'd world \<Rightarrow> (unit, 'd) outcome" where
  "store_uint64_t = user_store st64"

text \<open>
  The instruction at \<open>mepc\<close>, read with the permission to execute, and the \<^verbatim>\<open>mstatus\<close> of before. With
  compressed instructions it is read in halves when it is not aligned to a word.
\<close>

definition get_insn :: "'d emulator \<Rightarrow> u64 \<Rightarrow> 'd world \<Rightarrow> (u64 \<times> u64, 'd) outcome" where
  "get_insn E mepc s =
     (let adjust = MSTATUS_MPRV OR MSTATUS_MXR;
          (mstatus, s) = set_csr MSTATUS adjust s;
          done = (\<lambda>insn s. Value (insn, mstatus) (write_csr MSTATUS mstatus s))
      in if \<not> riscv_compressed E then
           and_then (guest E adjust mepc mstatus Reading mepc s) (\<lambda>pa s. done (ucast (ld32 (ram s) pa)) s)
         else if mepc AND 2 = 0 then
           and_then (guest E adjust mepc mstatus Reading mepc s)
             (\<lambda>pa s. let insn = ucast (ld32 (ram s) pa)
                     in if insn AND 3 = 3 then done insn s else done (drop_bit 48 (push_bit 48 insn)) s)
         else
           and_then (guest E adjust mepc mstatus Reading mepc s)
             (\<lambda>pa s. let insn = ucast (ld16 (ram s) pa)
                     in if insn AND 3 \<noteq> 3 then done insn s
                        else and_then (guest E adjust mepc mstatus Reading (mepc + 2) s)
                               (\<lambda>pa s. done (insn + push_bit 16 (ucast (ld16 (ram s) pa))) s)))"

section \<open>Floating-point registers and status\<close>

definition MSTATUS_FS :: u64 where "MSTATUS_FS = 0x6000"

text \<open>A build without the registers keeps them behind the saved integer registers and the status in \<open>tp\<close>.\<close>

definition GET_F64_REG :: "u64 \<Rightarrow> int \<Rightarrow> 'd world \<Rightarrow> u64" where
  "GET_F64_REG insn pos s = fregs s (unat (SHIFT_RIGHT insn (pos - 3) AND 0xf8) div 8)"

definition SET_F64_REG :: "u64 \<Rightarrow> int \<Rightarrow> u64 \<Rightarrow> 'd world \<Rightarrow> 'd world" where
  "SET_F64_REG insn pos v s = s\<lparr>fregs := (fregs s)(unat (SHIFT_RIGHT insn (pos - 3) AND 0xf8) div 8 := v)\<rparr>"

definition GET_F32_REG :: "u64 \<Rightarrow> int \<Rightarrow> 'd world \<Rightarrow> u32" where
  "GET_F32_REG insn pos s = ucast (GET_F64_REG insn pos s)"

text \<open>The hart fills the upper half of a register with ones; the emulated store leaves it.\<close>

definition SET_F32_REG :: "'d emulator \<Rightarrow> u64 \<Rightarrow> int \<Rightarrow> u32 \<Rightarrow> 'd world \<Rightarrow> 'd world" where
  "SET_F32_REG E insn pos v s =
     (let upper = (if riscv_flen E then NOT (mask 32) else GET_F64_REG insn pos s AND NOT (mask 32))
      in SET_F64_REG insn pos (upper OR ucast v) s)"

definition SET_FS_DIRTY :: "'d emulator \<Rightarrow> 'd world \<Rightarrow> 'd world" where
  "SET_FS_DIRTY E s = (if riscv_flen E then s else snd (set_csr MSTATUS MSTATUS_FS s))"

definition SET_F64_RD :: "'d emulator \<Rightarrow> u64 \<Rightarrow> u64 \<Rightarrow> 'd world \<Rightarrow> 'd world" where
  "SET_F64_RD E insn v s = SET_FS_DIRTY E (SET_F64_REG insn 7 v s)"

definition SET_F32_RD :: "'d emulator \<Rightarrow> u64 \<Rightarrow> u32 \<Rightarrow> 'd world \<Rightarrow> 'd world" where
  "SET_F32_RD E insn v s = SET_FS_DIRTY E (SET_F32_REG E insn 7 v s)"

definition GET_F64_RS2 :: "u64 \<Rightarrow> 'd world \<Rightarrow> u64" where "GET_F64_RS2 insn = GET_F64_REG insn 20"
definition GET_F32_RS2 :: "u64 \<Rightarrow> 'd world \<Rightarrow> u32" where "GET_F32_RS2 insn = GET_F32_REG insn 20"
definition GET_F64_RS2C :: "u64 \<Rightarrow> 'd world \<Rightarrow> u64" where "GET_F64_RS2C insn = GET_F64_REG insn 2"
definition GET_F64_RS2S :: "u64 \<Rightarrow> 'd world \<Rightarrow> u64" where "GET_F64_RS2S insn = GET_F64_REG (RVC_RS2S insn) 0"

text \<open>The emulated status register; these macros are used in a build without the registers only.\<close>

definition GET_FCSR :: "'d world \<Rightarrow> u32" where "GET_FCSR s = tp s AND 0xFF"

definition SET_FCSR :: "'d emulator \<Rightarrow> u32 \<Rightarrow> 'd world \<Rightarrow> 'd world" where
  "SET_FCSR E v s = SET_FS_DIRTY E (s\<lparr>tp := v AND 0xFF\<rparr>)"

definition GET_FRM :: "'d world \<Rightarrow> u32" where "GET_FRM s = drop_bit 5 (GET_FCSR s)"
definition GET_FFLAGS :: "'d world \<Rightarrow> u32" where "GET_FFLAGS s = GET_FCSR s AND 0x1F"

definition SET_FRM :: "'d emulator \<Rightarrow> u64 \<Rightarrow> 'd world \<Rightarrow> 'd world" where
  "SET_FRM E v s = SET_FCSR E (GET_FFLAGS s OR ucast (push_bit 5 v)) s"

definition SET_FFLAGS :: "'d emulator \<Rightarrow> u64 \<Rightarrow> 'd world \<Rightarrow> 'd world" where
  "SET_FFLAGS E v s = SET_FCSR E (push_bit 5 (GET_FRM s) OR ucast (v AND 0x1F)) s"

section \<open>Instructions that are illegal after all\<close>

type_synonym 'd emulation_func = "u64 list \<Rightarrow> u64 \<Rightarrow> u64 \<Rightarrow> u64 \<Rightarrow> u64 \<Rightarrow> 'd world \<Rightarrow> (u64 list, 'd) outcome"

definition truly_illegal_insn :: "'d emulation_func" where
  "truly_illegal_insn regs mcause mepc mstatus insn s = Redirected (redirect_trap mepc mstatus insn s)"

section \<open>Misaligned accesses\<close>

text \<open>Bytes \<open>i\<close> to \<open>i + n - 1\<close> of the value.\<close>

primrec load_bytes :: "'d emulator \<Rightarrow> u64 \<Rightarrow> u64 \<Rightarrow> nat \<Rightarrow> nat \<Rightarrow> 'd world \<Rightarrow> (u8 list, 'd) outcome" where
  "load_bytes E addr mepc i 0 s = Value [] s"
| "load_bytes E addr mepc i (Suc n) s =
     and_then (load_uint8_t E (addr + of_nat i) mepc s)
       (\<lambda>b s. and_then (load_bytes E addr mepc (Suc i) n s) (\<lambda>bs s. Value (b # bs) s))"

primrec store_bytes :: "'d emulator \<Rightarrow> u64 \<Rightarrow> u64 \<Rightarrow> nat \<Rightarrow> u8 list \<Rightarrow> 'd world \<Rightarrow> (unit, 'd) outcome" where
  "store_bytes E addr mepc i [] s = Value () s"
| "store_bytes E addr mepc i (b # bs) s =
     and_then (store_uint8_t E (addr + of_nat i) b mepc s) (\<lambda>_ s. store_bytes E addr mepc (Suc i) bs s)"

text \<open>The chain of cases: whether the register is a floating-point one, the length, the shift that extends the sign, and the word whose field names the register.\<close>

definition load_format :: "'d emulator \<Rightarrow> u64 \<Rightarrow> (bool \<times> nat \<times> nat \<times> u64) option" where
  "load_format E insn =
     (let shift = (\<lambda>len. 8 * (8 - len)); rs2s = push_bit (nat SH_RD) (RVC_RS2S insn); rd = drop_bit (nat SH_RD) insn AND 0x1f in
      if insn AND MASK_LW = MATCH_LW then Some (False, 4, shift 4, insn)
      else if insn AND MASK_LD = MATCH_LD then Some (False, 8, shift 8, insn)
      else if insn AND MASK_LWU = MATCH_LWU then Some (False, 4, 0, insn)
      else if fp_emulation E \<and> insn AND MASK_FLD = MATCH_FLD then Some (True, 8, 0, insn)
      else if fp_emulation E \<and> insn AND MASK_FLW = MATCH_FLW then Some (True, 4, 0, insn)
      else if insn AND MASK_LH = MATCH_LH then Some (False, 2, shift 2, insn)
      else if insn AND MASK_LHU = MATCH_LHU then Some (False, 2, 0, insn)
      else if riscv_compressed E \<and> insn AND MASK_C_LD = MATCH_C_LD then Some (False, 8, shift 8, rs2s)
      else if riscv_compressed E \<and> insn AND MASK_C_LDSP = MATCH_C_LDSP \<and> rd \<noteq> 0 then Some (False, 8, shift 8, insn)
      else if riscv_compressed E \<and> insn AND MASK_C_LW = MATCH_C_LW then Some (False, 4, shift 4, rs2s)
      else if riscv_compressed E \<and> insn AND MASK_C_LWSP = MATCH_C_LWSP \<and> rd \<noteq> 0 then Some (False, 4, shift 4, insn)
      else if riscv_compressed E \<and> fp_emulation E \<and> insn AND MASK_C_FLD = MATCH_C_FLD then Some (True, 8, 0, rs2s)
      else if riscv_compressed E \<and> fp_emulation E \<and> insn AND MASK_C_FLDSP = MATCH_C_FLDSP then Some (True, 8, 0, insn)
      else None)"

definition misaligned_load_trap :: "'d emulator \<Rightarrow> u64 list \<Rightarrow> u64 \<Rightarrow> u64 \<Rightarrow> 'd world \<Rightarrow> (u64 list, 'd) outcome" where
  "misaligned_load_trap E regs mcause mepc s =
     and_then (get_insn E mepc s) (\<lambda>(insn, mstatus) s.
       let npc = mepc + of_nat (insn_len insn); addr = read_csr MBADADDR s
       in case load_format E insn of
            None \<Rightarrow> truly_illegal_insn regs CAUSE_LOAD_ACCESS mepc mstatus insn (write_csr MCAUSE CAUSE_LOAD_ACCESS s)
          | Some (fp, len, shift, insn) \<Rightarrow>
              and_then (load_bytes E addr mepc 0 len s) (\<lambda>bytes s.
                let val = le_word bytes;
                    (regs, s) = (if \<not> fp then (SET_RD insn regs (signed_drop_bit shift (push_bit shift val)), s)
                                 else if len = 8 then (regs, SET_F64_RD E insn val s)
                                 else (regs, SET_F32_RD E insn (ucast val) s))
                in Value regs (write_csr MEPC npc s)))"

definition store_format :: "'d emulator \<Rightarrow> u64 \<Rightarrow> u64 list \<Rightarrow> 'd world \<Rightarrow> (nat \<times> u64) option" where
  "store_format E insn regs s =
     (let val = GET_RS2 insn regs; rd = drop_bit (nat SH_RD) insn AND 0x1f in
      if insn AND MASK_SW = MATCH_SW then Some (4, val)
      else if insn AND MASK_SD = MATCH_SD then Some (8, val)
      else if fp_emulation E \<and> insn AND MASK_FSD = MATCH_FSD then Some (8, GET_F64_RS2 insn s)
      else if fp_emulation E \<and> insn AND MASK_FSW = MATCH_FSW then Some (4, scast (GET_F32_RS2 insn s))
      else if insn AND MASK_SH = MATCH_SH then Some (2, val)
      else if riscv_compressed E \<and> insn AND MASK_C_SD = MATCH_C_SD then Some (8, GET_RS2S insn regs)
      else if riscv_compressed E \<and> insn AND MASK_C_SDSP = MATCH_C_SDSP \<and> rd \<noteq> 0 then Some (8, GET_RS2C insn regs)
      else if riscv_compressed E \<and> insn AND MASK_C_SW = MATCH_C_SW then Some (4, GET_RS2S insn regs)
      else if riscv_compressed E \<and> insn AND MASK_C_SWSP = MATCH_C_SWSP \<and> rd \<noteq> 0 then Some (4, GET_RS2C insn regs)
      else if riscv_compressed E \<and> fp_emulation E \<and> insn AND MASK_C_FSD = MATCH_C_FSD then Some (8, GET_F64_RS2S insn s)
      else if riscv_compressed E \<and> fp_emulation E \<and> insn AND MASK_C_FSDSP = MATCH_C_FSDSP then Some (8, GET_F64_RS2C insn s)
      else None)"

definition misaligned_store_trap :: "'d emulator \<Rightarrow> u64 list \<Rightarrow> u64 \<Rightarrow> u64 \<Rightarrow> 'd world \<Rightarrow> (u64 list, 'd) outcome" where
  "misaligned_store_trap E regs mcause mepc s =
     and_then (get_insn E mepc s) (\<lambda>(insn, mstatus) s.
       let npc = mepc + of_nat (insn_len insn)
       in case store_format E insn regs s of
            None \<Rightarrow> truly_illegal_insn regs CAUSE_STORE_ACCESS mepc mstatus insn (write_csr MCAUSE CAUSE_STORE_ACCESS s)
          | Some (len, val) \<Rightarrow>
              let addr = read_csr MBADADDR s
              in and_then (store_bytes E addr mepc 0 (take len (le_bytes 8 val)) s)
                   (\<lambda>_ s. Value regs (write_csr MEPC npc s)))"

section \<open>Floating-point loads and stores\<close>

definition punt_to_misaligned_handler :: "u64 \<Rightarrow> u64 \<Rightarrow> (u64 list \<Rightarrow> u64 \<Rightarrow> u64 \<Rightarrow> 'd world \<Rightarrow> (u64 list, 'd) outcome)
    \<Rightarrow> u64 list \<Rightarrow> u64 \<Rightarrow> u64 \<Rightarrow> ('d world \<Rightarrow> (u64 list, 'd) outcome) \<Rightarrow> 'd world \<Rightarrow> (u64 list, 'd) outcome" where
  "punt_to_misaligned_handler align addr handler regs mcause mepc k s =
     (if addr mod align \<noteq> 0 then handler regs mcause mepc (write_csr MBADADDR addr s) else k s)"

definition emulate_float_load :: "'d emulator \<Rightarrow> 'd emulation_func" where
  "emulate_float_load E regs mcause mepc mstatus insn s =
     (let addr = GET_RS1 insn regs + scast (IMM_I insn) in
      if mstatus AND MSTATUS_FS = 0 then truly_illegal_insn regs mcause mepc mstatus insn s
      else if insn AND MASK_FUNCT3 = MATCH_FLW AND MASK_FUNCT3 then
        punt_to_misaligned_handler 4 addr (misaligned_load_trap E) regs mcause mepc
          (\<lambda>s. and_then (load_int32_t E addr mepc s) (\<lambda>v s. Value regs (SET_F32_RD E insn v s))) s
      else if insn AND MASK_FUNCT3 = MATCH_FLD AND MASK_FUNCT3 then
        punt_to_misaligned_handler 8 addr (misaligned_load_trap E) regs mcause mepc
          (\<lambda>s. and_then (load_uint64_t E addr mepc s) (\<lambda>v s. Value regs (SET_F64_RD E insn v s))) s
      else truly_illegal_insn regs mcause mepc mstatus insn s)"

definition emulate_float_store :: "'d emulator \<Rightarrow> 'd emulation_func" where
  "emulate_float_store E regs mcause mepc mstatus insn s =
     (let addr = GET_RS1 insn regs + scast (IMM_S insn) in
      if mstatus AND MSTATUS_FS = 0 then truly_illegal_insn regs mcause mepc mstatus insn s
      else if insn AND MASK_FUNCT3 = MATCH_FSW AND MASK_FUNCT3 then
        punt_to_misaligned_handler 4 addr (misaligned_store_trap E) regs mcause mepc
          (\<lambda>s. and_then (store_uint32_t E addr (GET_F32_RS2 insn s) mepc s) (\<lambda>_ s. Value regs s)) s
      else if insn AND MASK_FUNCT3 = MATCH_FSD AND MASK_FUNCT3 then
        punt_to_misaligned_handler 8 addr (misaligned_store_trap E) regs mcause mepc
          (\<lambda>s. and_then (store_uint64_t E addr (GET_F64_RS2 insn s) mepc s) (\<lambda>_ s. Value regs s)) s
      else truly_illegal_insn regs mcause mepc mstatus insn s)"

text \<open>The compressed ones; \<^verbatim>\<open>mbadaddr\<close> still holds what the hart put there for the illegal instruction.\<close>

definition emulate_rvc :: "'d emulator \<Rightarrow> 'd emulation_func" where
  "emulate_rvc E regs mcause mepc mstatus insn s =
     (if riscv_compressed E \<and> \<not> riscv_flen E \<and> fp_emulation E then
        (let s = write_csr MEPC (mepc + 2) s in
         if mstatus AND MSTATUS_FS = 0 then truly_illegal_insn regs mcause mepc mstatus insn s
         else if insn AND MASK_C_FLD = MATCH_C_FLD then
           (let addr = GET_RS1S insn regs + RVC_LD_IMM insn in
            if addr mod 8 \<noteq> 0 then misaligned_load_trap E regs mcause mepc s
            else and_then (load_uint64_t E addr mepc s)
                   (\<lambda>v s. Value regs (SET_F64_RD E (push_bit (nat SH_RD) (RVC_RS2S insn)) v s)))
         else if insn AND MASK_C_FLDSP = MATCH_C_FLDSP then
           (let addr = GET_SP regs + RVC_LDSP_IMM insn in
            if addr mod 8 \<noteq> 0 then misaligned_load_trap E regs mcause mepc s
            else and_then (load_uint64_t E addr mepc s) (\<lambda>v s. Value regs (SET_F64_RD E insn v s)))
         else if insn AND MASK_C_FSD = MATCH_C_FSD then
           (let addr = GET_RS1S insn regs + RVC_LD_IMM insn in
            if addr mod 8 \<noteq> 0 then misaligned_store_trap E regs mcause mepc s
            else and_then (store_uint64_t E addr (GET_F64_RS2 (push_bit (nat SH_RS2) (RVC_RS2S insn)) s) mepc s)
                   (\<lambda>_ s. Value regs s))
         else if insn AND MASK_C_FSDSP = MATCH_C_FSDSP then
           (let addr = GET_SP regs + RVC_SDSP_IMM insn in
            if addr mod 8 \<noteq> 0 then misaligned_store_trap E regs mcause mepc s
            else and_then (store_uint64_t E addr (GET_F64_RS2 (push_bit (nat SH_RS2) (RVC_RS2 insn)) s) mepc s)
                   (\<lambda>_ s. Value regs s))
         else truly_illegal_insn regs mcause mepc mstatus insn s)
      else truly_illegal_insn regs mcause mepc mstatus insn s)"

section \<open>Control registers\<close>

definition PRV_U :: u64 where "PRV_U = 0"

definition CSR_CYCLE :: u64 where "CSR_CYCLE = 0xc00"
definition CSR_TIME :: u64 where "CSR_TIME = 0xc01"
definition CSR_INSTRET :: u64 where "CSR_INSTRET = 0xc02"
definition CSR_MHPMCOUNTER3 :: u64 where "CSR_MHPMCOUNTER3 = 0xb03"
definition CSR_MHPMCOUNTER4 :: u64 where "CSR_MHPMCOUNTER4 = 0xb04"
definition CSR_MHPMEVENT3 :: u64 where "CSR_MHPMEVENT3 = 0x323"
definition CSR_MHPMEVENT4 :: u64 where "CSR_MHPMEVENT4 = 0x324"
definition CSR_FFLAGS :: u64 where "CSR_FFLAGS = 0x1"
definition CSR_FRM :: u64 where "CSR_FRM = 0x2"
definition CSR_FCSR :: u64 where "CSR_FCSR = 0x3"

lemmas csr_numbers = CSR_CYCLE_def CSR_TIME_def CSR_INSTRET_def CSR_MHPMCOUNTER3_def CSR_MHPMCOUNTER4_def
  CSR_MHPMEVENT3_def CSR_MHPMEVENT4_def CSR_FFLAGS_def CSR_FRM_def CSR_FCSR_def

definition emulate_read_csr :: "'d emulator \<Rightarrow> u64 \<Rightarrow> u64 \<Rightarrow> 'd world \<Rightarrow> (u64 \<times> 'd world) option" where
  "emulate_read_csr E num mstatus s =
     (let counteren = (if (mstatus AND MSTATUS_MPP) div (MSTATUS_MPP AND NOT (MSTATUS_MPP - 1)) = PRV_U
                       then read_csr SCOUNTEREN s else - 1);
          enabled = (\<lambda>k. drop_bit k counteren AND 1 \<noteq> 0);
          fp = (\<not> riscv_flen E \<and> fp_emulation E \<and> mstatus AND MSTATUS_FS \<noteq> 0)
      in if num = CSR_CYCLE then (if enabled 0 then Some (read_csr MCYCLE s, s) else None)
         else if num = CSR_TIME then
           (if enabled (unat (CSR_TIME - CSR_CYCLE)) then Some (mmio_rd (bus_of (plat E)) 8 (mtime s) s) else None)
         else if num = CSR_INSTRET then
           (if enabled (unat (CSR_INSTRET - CSR_CYCLE)) then Some (read_csr MINSTRET s, s) else None)
         else if num = CSR_MHPMCOUNTER3 then (if enabled 3 then Some (read_csr MHPMCOUNTER3 s, s) else None)
         else if num = CSR_MHPMCOUNTER4 then
           (if enabled (3 + unat (CSR_MHPMCOUNTER4 - CSR_MHPMCOUNTER3)) then Some (read_csr MHPMCOUNTER4 s, s) else None)
         else if num = CSR_MHPMEVENT3 then Some (read_csr MHPMEVENT3 s, s)
         else if num = CSR_MHPMEVENT4 then Some (read_csr MHPMEVENT4 s, s)
         else if num = CSR_FRM \<and> fp then Some (ucast (GET_FRM s), s)
         else if num = CSR_FFLAGS \<and> fp then Some (ucast (GET_FFLAGS s), s)
         else if num = CSR_FCSR \<and> fp then Some (ucast (GET_FCSR s), s)
         else None)"

definition emulate_write_csr :: "'d emulator \<Rightarrow> u64 \<Rightarrow> u64 \<Rightarrow> u64 \<Rightarrow> 'd world \<Rightarrow> 'd world option" where
  "emulate_write_csr E num val mstatus s =
     (let fp = (\<not> riscv_flen E \<and> fp_emulation E)
      in if num = CSR_CYCLE then Some (write_csr MCYCLE val s)
         else if num = CSR_INSTRET then Some (write_csr MINSTRET val s)
         else if num = CSR_MHPMCOUNTER3 then Some (write_csr MHPMCOUNTER3 val s)
         else if num = CSR_MHPMCOUNTER4 then Some (write_csr MHPMCOUNTER4 val s)
         else if num = CSR_MHPMEVENT3 then Some (write_csr MHPMEVENT3 val s)
         else if num = CSR_MHPMEVENT4 then Some (write_csr MHPMEVENT4 val s)
         else if num = CSR_FRM \<and> fp then Some (SET_FRM E val s)
         else if num = CSR_FFLAGS \<and> fp then Some (SET_FFLAGS E val s)
         else if num = CSR_FCSR \<and> fp then Some (SET_FCSR E (ucast val) s)
         else None)"

definition emulate_system_opcode :: "'d emulator \<Rightarrow> 'd emulation_func" where
  "emulate_system_opcode E regs mcause mepc mstatus insn s =
     (let rs1_num = drop_bit 15 insn AND 0x1f;
          rs1_val = GET_RS1 insn regs;
          csr_num = ucast (drop_bit 20 (ucast insn :: u32));
          illegal = truly_illegal_insn regs mcause mepc mstatus insn
      in case emulate_read_csr E csr_num mstatus s of
           None \<Rightarrow> illegal s
         | Some (csr_val, s) \<Rightarrow>
             let rm = GET_RM insn;
                 new_csr_val = (if rm = 1 then rs1_val
                                else if rm = 2 then csr_val OR rs1_val
                                else if rm = 3 then csr_val AND NOT rs1_val
                                else if rm = 5 then rs1_num
                                else if rm = 6 then csr_val OR rs1_num
                                else csr_val AND NOT rs1_num);
                 do_write = (rs1_num \<noteq> 0 \<or> rm = 1 \<or> rm = 5)
             in if rm = 0 \<or> rm = 4 then illegal s
                else case (if do_write then emulate_write_csr E csr_num new_csr_val mstatus s else Some s) of
                       None \<Rightarrow> illegal s
                     | Some s \<Rightarrow> Value (SET_RD insn regs csr_val) s)"

section \<open>Multiplication and division\<close>

text \<open>
  Division as C defines it: the quotient is truncated towards zero. By zero, and where the quotient
  does not fit, there is no C result; the library routine that the compiler calls gives one.
\<close>

definition c_defined :: "'a::len word \<Rightarrow> 'a word \<Rightarrow> bool" where
  "c_defined a b \<longleftrightarrow> b \<noteq> 0 \<and> \<not> (a = push_bit (LENGTH('a) - 1) 1 \<and> b = - 1)"

definition c_div :: "('a::len word \<Rightarrow> 'a word \<Rightarrow> 'a word) \<Rightarrow> 'a word \<Rightarrow> 'a word \<Rightarrow> 'a word" where
  "c_div bad a b = (if c_defined a b then word_of_int (sint a sdiv sint b) else bad a b)"

definition c_rem :: "('a::len word \<Rightarrow> 'a word \<Rightarrow> 'a word) \<Rightarrow> 'a word \<Rightarrow> 'a word \<Rightarrow> 'a word" where
  "c_rem bad a b = (if c_defined a b then word_of_int (sint a smod sint b) else bad a b)"

definition c_divu :: "('a::len word \<Rightarrow> 'a word \<Rightarrow> 'a word) \<Rightarrow> 'a word \<Rightarrow> 'a word \<Rightarrow> 'a word" where
  "c_divu bad a b = (if b = 0 then bad a b else a div b)"

definition c_remu :: "('a::len word \<Rightarrow> 'a word \<Rightarrow> 'a word) \<Rightarrow> 'a word \<Rightarrow> 'a word \<Rightarrow> 'a word" where
  "c_remu bad a b = (if b = 0 then bad a b else a mod b)"

type_synonym double_int = "128 word"

definition mul_div :: "libcalls \<Rightarrow> u64 \<Rightarrow> u64 \<Rightarrow> u64 \<Rightarrow> u64 option" where
  "mul_div L insn rs1 rs2 =
     (if insn AND MASK_MUL = MATCH_MUL then Some (rs1 * rs2)
      else if insn AND MASK_DIV = MATCH_DIV then Some (c_div (bad_div L) rs1 rs2)
      else if insn AND MASK_DIVU = MATCH_DIVU then Some (c_divu (bad_divu L) rs1 rs2)
      else if insn AND MASK_REM = MATCH_REM then Some (c_rem (bad_rem L) rs1 rs2)
      else if insn AND MASK_REMU = MATCH_REMU then Some (c_remu (bad_remu L) rs1 rs2)
      else if insn AND MASK_MULH = MATCH_MULH then Some (ucast (signed_drop_bit 64 ((scast rs1 :: double_int) * scast rs2)))
      else if insn AND MASK_MULHU = MATCH_MULHU then Some (ucast (signed_drop_bit 64 ((ucast rs1 :: double_int) * ucast rs2)))
      else if insn AND MASK_MULHSU = MATCH_MULHSU then Some (ucast (signed_drop_bit 64 ((scast rs1 :: double_int) * ucast rs2)))
      else None)"

definition emulate_mul_div :: "'d emulator \<Rightarrow> 'd emulation_func" where
  "emulate_mul_div E regs mcause mepc mstatus insn s =
     (case mul_div (libcalls_of E) insn (GET_RS1 insn regs) (GET_RS2 insn regs) of
        Some val \<Rightarrow> Value (SET_RD insn regs val) s
      | None \<Rightarrow> truly_illegal_insn regs mcause mepc mstatus insn s)"

definition mul_div32 :: "libcalls \<Rightarrow> u64 \<Rightarrow> u32 \<Rightarrow> u32 \<Rightarrow> u32 option" where
  "mul_div32 L insn rs1 rs2 =
     (if insn AND MASK_MULW = MATCH_MULW then Some (rs1 * rs2)
      else if insn AND MASK_DIVW = MATCH_DIVW then Some (c_div (bad_divw L) rs1 rs2)
      else if insn AND MASK_DIVUW = MATCH_DIVUW then Some (c_divu (bad_divuw L) rs1 rs2)
      else if insn AND MASK_REMW = MATCH_REMW then Some (c_rem (bad_remw L) rs1 rs2)
      else if insn AND MASK_REMUW = MATCH_REMUW then Some (c_remu (bad_remuw L) rs1 rs2)
      else None)"

definition emulate_mul_div32 :: "'d emulator \<Rightarrow> 'd emulation_func" where
  "emulate_mul_div32 E regs mcause mepc mstatus insn s =
     (case mul_div32 (libcalls_of E) insn (ucast (GET_RS1 insn regs)) (ucast (GET_RS2 insn regs)) of
        Some val \<Rightarrow> Value (SET_RD insn regs (scast val)) s
      | None \<Rightarrow> truly_illegal_insn regs mcause mepc mstatus insn s)"

end
