(* ===== verification/Devices.thy ===== *)
theory Devices
  imports Console
begin

text \<open>
  The rest of \<^verbatim>\<open>src/pk/machine/fdt.c\<close>: the scans for memory, harts, the interrupt controllers
  and the chosen node, the filters that take machine-mode resources out of the tree that the
  payload gets to see, and the printer. The device pointers they fill in are fields of the
  state; hart-local storage is by hart number.

  A pointer to a node that a scan record keeps is the depth of the node (0 is \<^verbatim>\<open>NULL\<close>), which is
  what tells the locals of the scanner's activations apart.
\<close>

definition prop_is :: "string \<Rightarrow> fdt_prop \<Rightarrow> 'd world \<Rightarrow> bool" where
  "prop_is name prop s \<longleftrightarrow> strcmp_lit (ram s) (prop_name prop) name = 0"

text \<open>\<^verbatim>\<open>fdt_get_address(prop->node->parent, prop->value, ..)\<close>, and \<^verbatim>\<open>assert\<close>.\<close>

definition prop_address :: "fdt_prop \<Rightarrow> 'd world \<Rightarrow> u64 option" where
  "prop_address prop s =
     (if prop_node prop = [] then None
      else map_option fst (fdt_get_address (tl (prop_node prop)) (ram s) (prop_value prop)))"

definition prop_cell :: "fdt_prop \<Rightarrow> 'd world \<Rightarrow> u32" where
  "prop_cell prop s = bswap (ld32 (ram s) (prop_value prop))"

definition assert :: "bool \<Rightarrow> unit option" where
  "assert c = (if c then Some () else None)"

lemma assert_simps [simp]: "assert True = Some ()" "assert False = None"
  by (simp_all add: assert_def)

lemma assert_Some [simp]: "assert c = Some u \<longleftrightarrow> c"
  by (simp add: assert_def)

text \<open>The end of an array of cells of \<open>len\<close> bytes.\<close>

definition cells_end :: "u64 \<Rightarrow> u32 \<Rightarrow> u64" where
  "cells_end value len = value + 4 * word_of_int (sint len sdiv 4)"

section \<open>Memory\<close>

record mem_scan =
  ms_memory :: u32
  ms_reg_value :: u64
  ms_reg_len :: u32

definition mem_open :: "(mem_scan, 'd) node_cb" where
  "mem_open node st = Some (\<lparr>ms_memory = 0, ms_reg_value = 0, ms_reg_len = 0\<rparr>, snd st)"

definition mem_prop :: "fdt_prop \<Rightarrow> mem_scan \<times> 'd world \<Rightarrow> (mem_scan \<times> 'd world) option" where
  "mem_prop prop st =
     (let (scan, s) = st in
      if prop_is ''device_type'' prop s \<and> strcmp_lit (ram s) (prop_value prop) ''memory'' = 0
      then Some (scan\<lparr>ms_memory := 1\<rparr>, s)
      else if prop_is ''reg'' prop s
      then Some (scan\<lparr>ms_reg_value := prop_value prop, ms_reg_len := prop_len prop\<rparr>, s)
      else Some (scan, s))"

text \<open>\<open>self\<close> is the address of the function itself, which lies in the memory it looks for.\<close>

partial_function (option) mem_loop :: "u64 \<Rightarrow> node_path \<Rightarrow> u64 \<Rightarrow> u64 \<Rightarrow> 'd world \<Rightarrow> (u64 \<times> 'd world) option" where
  "mem_loop self node value limit s =
     (if sint (limit - value) > 0 then do {
        (base, value) \<leftarrow> fdt_get_address (tl node) (ram s) value;
        (size, value) \<leftarrow> fdt_get_size (tl node) (ram s) value;
        mem_loop self node value limit (if base \<le> self \<and> self \<le> base + size then s\<lparr>mem_size := size\<rparr> else s) }
      else Some (value, s))"

definition mem_done :: "'d bus \<Rightarrow> u64 \<Rightarrow> (mem_scan, 'd) node_cb" where
  "mem_done B self node st =
     (let (scan, s) = st; limit = cells_end (ms_reg_value scan) (ms_reg_len scan) in
      if ms_memory scan = 0 then Some st
      else do {
        assert (ms_reg_value scan \<noteq> 0 \<and> sint (ms_reg_len scan) smod 4 = 0);
        (value, s) \<leftarrow> mem_loop self node (ms_reg_value scan) limit s;
        assert (limit = value);
        s \<leftarrow> printm B (''mem %d, %x, %x %x'' @ [CHR 0x0A])
              [scast (ms_memory scan), ms_reg_value scan, scast (ms_reg_len scan), mem_size s] s;
        Some (scan, s) })"

definition query_mem :: "u64 \<Rightarrow> 'd world \<Rightarrow> 'd world" where
  "query_mem fdt s = s\<lparr>mem_size := 0x40000000\<rparr>"

section \<open>Harts\<close>

definition no_hls :: hls where
  "no_hls = \<lparr>ipi = 0, mipi_pending = 0, timecmp = 0, plic_m_thresh = 0, plic_m_ie = 0, plic_s_thresh = 0, plic_s_ie = 0\<rparr>"

definition hls_init :: "nat \<Rightarrow> 'd world \<Rightarrow> 'd world" where
  "hls_init hart s = s\<lparr>hls_of := (hls_of s)(hart := no_hls)\<rparr>"

record hart_scan =
  hs_cpu :: nat
  hs_hart :: u32
  hs_controller :: nat
  hs_cells :: u32
  hs_phandle :: u32

definition hart_open :: "(hart_scan, 'd) node_cb" where
  "hart_open node st =
     (let (scan, s) = st;
          scan = (if hs_cpu scan = 0 then scan\<lparr>hs_hart := - 1\<rparr> else scan);
          scan = (if hs_controller scan = 0 then scan\<lparr>hs_cells := 0, hs_phandle := 0\<rparr> else scan)
      in Some (scan, s))"

definition hart_prop :: "fdt_prop \<Rightarrow> hart_scan \<times> 'd world \<Rightarrow> (hart_scan \<times> 'd world) option" where
  "hart_prop prop st =
     (let (scan, s) = st in
      if prop_is ''device_type'' prop s \<and> strcmp_lit (ram s) (prop_value prop) ''cpu'' = 0 then
        do { assert (hs_cpu scan = 0); Some (scan\<lparr>hs_cpu := length (prop_node prop)\<rparr>, s) }
      else if prop_is ''interrupt-controller'' prop s then
        do { assert (hs_controller scan = 0); Some (scan\<lparr>hs_controller := length (prop_node prop)\<rparr>, s) }
      else if prop_is ''#interrupt-cells'' prop s then Some (scan\<lparr>hs_cells := prop_cell prop s\<rparr>, s)
      else if prop_is ''phandle'' prop s then Some (scan\<lparr>hs_phandle := prop_cell prop s\<rparr>, s)
      else if prop_is ''reg'' prop s then
        do { reg \<leftarrow> prop_address prop s; Some (scan\<lparr>hs_hart := ucast reg\<rparr>, s) }
      else Some (scan, s))"

text \<open>A negative hart number would be an index before the table.\<close>

definition hart_done :: "(hart_scan, 'd) node_cb" where
  "hart_done node st =
     (let (scan, s) = st; hart = sint (hs_hart scan) in do {
        (if hs_cpu scan = length node then assert (hart \<ge> 0) else Some ());
        if hs_controller scan = length node \<and> hs_cpu scan \<noteq> 0 then do {
          assert (hs_phandle scan > 0);
          assert (hs_cells scan = 1);
          if hart < int MAX_HARTS then do {
            assert (hart \<ge> 0);
            let s = s\<lparr>hart_phandles := (hart_phandles s)[nat hart := hs_phandle scan]\<rparr>;
            let s = s\<lparr>hart_mask := hart_mask s OR scast (push_bit (nat hart) 1 :: u32)\<rparr>;
            Some (scan, hls_init (nat hart) s) }
          else Some st }
        else Some st })"

definition hart_close :: "node_path \<Rightarrow> hart_scan \<times> 'd world \<Rightarrow> (u32 \<times> hart_scan \<times> 'd world) option" where
  "hart_close node st =
     (let (scan, s) = st;
          scan = (if hs_cpu scan = length node then scan\<lparr>hs_cpu := 0\<rparr> else scan);
          scan = (if hs_controller scan = length node then scan\<lparr>hs_controller := 0\<rparr> else scan)
      in Some (0, scan, s))"

definition hart_cb :: "(hart_scan, 'd) fdt_cb" where
  "hart_cb = \<lparr>cb_open = Some hart_open, cb_prop = hart_prop, cb_done = Some hart_done, cb_close = Some hart_close\<rparr>"

definition query_harts :: "u64 \<Rightarrow> 'd world \<Rightarrow> 'd world option" where
  "query_harts fdt s = do {
     (scan, s) \<leftarrow> fdt_scan fdt hart_cb
       (\<lparr>hs_cpu = 0, hs_hart = 0, hs_controller = 0, hs_cells = 0, hs_phandle = 0\<rparr>, s);
     assert (drop_bit (unat (read_csr MHARTID s)) (hart_mask s) \<noteq> 0);
     Some s }"

definition hart_of :: "u32 \<Rightarrow> 'd world \<Rightarrow> nat option" where
  "hart_of phandle s = find (\<lambda>h. hart_phandles s ! h = phandle) [0..<MAX_HARTS]"

section \<open>The core-local interrupter\<close>

record int_scan =
  is_compat :: u32
  is_reg :: u64
  is_value :: u64
  is_len :: u32
  is_done :: u32
  is_ndev :: u32

definition int_open :: "(int_scan, 'd) node_cb" where
  "int_open node st = (let (scan, s) = st in Some (scan\<lparr>is_compat := 0, is_reg := 0, is_value := 0\<rparr>, s))"

definition clint_prop :: "fdt_prop \<Rightarrow> int_scan \<times> 'd world \<Rightarrow> (int_scan \<times> 'd world) option" where
  "clint_prop prop st =
     (let (scan, s) = st in do {
        found \<leftarrow> (if prop_is ''compatible'' prop s
                  then map_option (\<lambda>i. sint i \<ge> 0) (fdt_string_list_index (ram s) prop ''riscv,clint0'') else Some False);
        if found then Some (scan\<lparr>is_compat := 1\<rparr>, s)
        else if prop_is ''reg'' prop s then do { reg \<leftarrow> prop_address prop s; Some (scan\<lparr>is_reg := reg\<rparr>, s) }
        else if prop_is ''interrupts-extended'' prop s
        then Some (scan\<lparr>is_value := prop_value prop, is_len := prop_len prop\<rparr>, s)
        else Some (scan, s) })"

partial_function (option) clint_loop :: "u64 \<Rightarrow> u64 \<Rightarrow> u64 \<Rightarrow> u32 \<Rightarrow> 'd world \<Rightarrow> 'd world option" where
  "clint_loop reg value limit index s =
     (if sint (limit - value) > 0 then
        (let s = (case hart_of (bswap (ld32 (ram s) value)) s of
                    None \<Rightarrow> s
                  | Some hart \<Rightarrow> s\<lparr>hls_of := (hls_of s)(hart := (hls_of s hart)
                      \<lparr>ipi := reg + scast (index * 4), timecmp := reg + 0x4000 + scast (index * 8)\<rparr>)\<rparr>)
         in clint_loop reg (value + 16) limit (index + 1) s)
      else Some s)"

definition clint_done :: "(int_scan, 'd) node_cb" where
  "clint_done node st =
     (let (scan, s) = st; value = is_value scan; limit = cells_end value (is_len scan) in
      if is_compat scan = 0 then Some st
      else do {
        assert (is_reg scan \<noteq> 0);
        assert (value \<noteq> 0 \<and> sint (is_len scan) smod 16 = 0);
        assert (is_done scan = 0);
        let scan = scan\<lparr>is_done := 1\<rparr>;
        s \<leftarrow> clint_loop (is_reg scan) value limit 0 (s\<lparr>mtime := is_reg scan + 0xbff8\<rparr>);
        Some (scan, s) })"

text \<open>The addresses are wired into the code; \<open>h_value\<close> is the address of the local array.\<close>

definition query_clint :: "u64 \<Rightarrow> u64 \<Rightarrow> 'd world \<Rightarrow> 'd world option" where
  "query_clint h_value fdt s =
     (let s = wst_words s h_value [33554432, 50331648, 33554432, 117440512]
      in map_option snd (clint_done [] (\<lparr>is_compat = 1, is_reg = 0xf1020000, is_value = h_value, is_len = 16,
           is_done = 0, is_ndev = 0\<rparr>, s)))"

section \<open>The platform-level interrupt controller\<close>

definition IRQ_S_EXT :: u32 where "IRQ_S_EXT = 9"
definition IRQ_M_EXT :: u32 where "IRQ_M_EXT = 11"
definition HART_BASE :: u64 where "HART_BASE = 0x200000"
definition HART_SIZE :: u32 where "HART_SIZE = 0x1000"
definition ENABLE_BASE :: u64 where "ENABLE_BASE = 0x2000"
definition ENABLE_SIZE :: u32 where "ENABLE_SIZE = 0x80"

definition plic_prop :: "fdt_prop \<Rightarrow> int_scan \<times> 'd world \<Rightarrow> (int_scan \<times> 'd world) option" where
  "plic_prop prop st =
     (let (scan, s) = st in do {
        found \<leftarrow> (if prop_is ''compatible'' prop s
                  then map_option (\<lambda>i. sint i \<ge> 0) (fdt_string_list_index (ram s) prop ''riscv,plic0'') else Some False);
        if found then Some (scan\<lparr>is_compat := 1\<rparr>, s)
        else if prop_is ''reg'' prop s then do { reg \<leftarrow> prop_address prop s; Some (scan\<lparr>is_reg := reg\<rparr>, s) }
        else if prop_is ''interrupts-extended'' prop s
        then Some (scan\<lparr>is_value := prop_value prop, is_len := prop_len prop\<rparr>, s)
        else if prop_is ''riscv,ndev'' prop s then Some (scan\<lparr>is_ndev := prop_cell prop s\<rparr>, s)
        else Some (scan, s) })"

definition plic_wire :: "'d bus \<Rightarrow> u64 \<Rightarrow> u32 \<Rightarrow> nat \<Rightarrow> u32 \<Rightarrow> 'd world \<Rightarrow> 'd world option" where
  "plic_wire B reg index hart cpu_int s =
     (let h = hls_of s hart; ie = reg + ENABLE_BASE + scast (ENABLE_SIZE * index);
          thresh = reg + HART_BASE + scast (HART_SIZE * index)
      in if cpu_int = IRQ_M_EXT
         then Some (s\<lparr>hls_of := (hls_of s)(hart := h\<lparr>plic_m_ie := ie, plic_m_thresh := thresh\<rparr>)\<rparr>)
         else if cpu_int = IRQ_S_EXT
         then Some (s\<lparr>hls_of := (hls_of s)(hart := h\<lparr>plic_s_ie := ie, plic_s_thresh := thresh\<rparr>)\<rparr>)
         else printm B ''PLIC wired hart %d to wrong interrupt %d'' [of_nat hart, scast cpu_int] s)"

partial_function (option) plic_loop :: "'d bus \<Rightarrow> u64 \<Rightarrow> u64 \<Rightarrow> u64 \<Rightarrow> u32 \<Rightarrow> 'd world \<Rightarrow> 'd world option" where
  "plic_loop B reg value limit index s =
     (if sint (limit - value) > 0 then do {
        let cpu_int = bswap (ld32 (ram s) (value + 4));
        s \<leftarrow> (case hart_of (bswap (ld32 (ram s) value)) s of
               None \<Rightarrow> Some s | Some hart \<Rightarrow> plic_wire B reg index hart cpu_int s);
        plic_loop B reg (value + 8) limit (index + 1) s }
      else Some s)"

definition plic_done :: "'d bus \<Rightarrow> (int_scan, 'd) node_cb" where
  "plic_done B node st =
     (let (scan, s) = st; value = is_value scan; limit = cells_end value (is_len scan) in
      if is_compat scan = 0 then Some st
      else do {
        assert (is_reg scan \<noteq> 0);
        assert (value \<noteq> 0 \<and> sint (is_len scan) smod 8 = 0);
        assert (sint (is_ndev scan) \<ge> 0 \<and> sint (is_ndev scan) < 1024);
        assert (is_done scan = 0);
        let scan = scan\<lparr>is_done := 1\<rparr>;
        s \<leftarrow> plic_loop B (is_reg scan) value limit 0
              (s\<lparr>plic_priorities := is_reg scan, plic_ndevs := scast (is_ndev scan)\<rparr>);
        Some (scan, s) })"

definition query_plic :: "'d bus \<Rightarrow> u64 \<Rightarrow> u64 \<Rightarrow> 'd world \<Rightarrow> 'd world option" where
  "query_plic B h_value fdt s =
     (let s = wst_words s h_value [33554432, 184549376, 33554432, 150994944]
      in map_option snd (plic_done B [] (\<lparr>is_compat = 1, is_reg = 0xf1100000, is_value = h_value, is_len = 16,
           is_done = 0, is_ndev = 1\<rparr>, s)))"

partial_function (option) redact_loop :: "u64 \<Rightarrow> u64 \<Rightarrow> 'd world \<Rightarrow> 'd world option" where
  "redact_loop value limit s =
     (if sint (limit - value) > 0
      then redact_loop (value + 8) limit
             (if bswap (ld32 (ram s) (value + 4)) = IRQ_M_EXT then wst32 s (value + 4) (bswap (- 1)) else s)
      else Some s)"

definition plic_redact :: "(int_scan, 'd) node_cb" where
  "plic_redact node st =
     (let (scan, s) = st; value = is_value scan; limit = cells_end value (is_len scan) in
      if is_compat scan = 0 then Some st
      else map_option (Pair (scan\<lparr>is_done := 1\<rparr>)) (redact_loop value limit s))"

definition filter_plic_cb :: "(int_scan, 'd) fdt_cb" where
  "filter_plic_cb = \<lparr>cb_open = Some int_open, cb_prop = plic_prop, cb_done = Some plic_redact, cb_close = None\<rparr>"

text \<open>The scan record is not initialised but for \<^verbatim>\<open>done\<close>.\<close>

definition filter_plic :: "int_scan \<Rightarrow> u64 \<Rightarrow> 'd world \<Rightarrow> 'd world option" where
  "filter_plic scan fdt s = map_option snd (fdt_scan fdt filter_plic_cb (scan\<lparr>is_done := 0\<rparr>, s))"

section \<open>Taking nodes out of the tree\<close>

record compat_scan =
  cs_compat :: string
  cs_depth :: u32
  cs_kill :: u32

definition compat_open :: "(compat_scan, 'd) node_cb" where
  "compat_open node st = (let (scan, s) = st in Some (scan\<lparr>cs_depth := cs_depth scan + 1\<rparr>, s))"

definition compat_prop :: "fdt_prop \<Rightarrow> compat_scan \<times> 'd world \<Rightarrow> (compat_scan \<times> 'd world) option" where
  "compat_prop prop st =
     (let (scan, s) = st in do {
        found \<leftarrow> (if prop_is ''compatible'' prop s
                  then map_option (\<lambda>i. sint i \<ge> 0) (fdt_string_list_index (ram s) prop (cs_compat scan)) else Some False);
        Some (if found \<and> sint (cs_depth scan) < sint (cs_kill scan) then scan\<lparr>cs_kill := cs_depth scan\<rparr> else scan, s) })"

definition compat_close :: "node_path \<Rightarrow> compat_scan \<times> 'd world \<Rightarrow> (u32 \<times> compat_scan \<times> 'd world) option" where
  "compat_close node st =
     (let (scan, s) = st; hit = (cs_kill scan = cs_depth scan); scan = scan\<lparr>cs_depth := cs_depth scan - 1\<rparr>
      in if hit then Some (- 1, scan\<lparr>cs_kill := 999\<rparr>, s) else Some (0, scan, s))"

definition compat_cb :: "(compat_scan, 'd) fdt_cb" where
  "compat_cb = \<lparr>cb_open = Some compat_open, cb_prop = compat_prop, cb_done = None, cb_close = Some compat_close\<rparr>"

definition filter_compat :: "u64 \<Rightarrow> string \<Rightarrow> 'd world \<Rightarrow> 'd world option" where
  "filter_compat fdt name s =
     map_option snd (fdt_scan fdt compat_cb (\<lparr>cs_compat = name, cs_depth = 0, cs_kill = 999\<rparr>, s))"

section \<open>The chosen node\<close>

record chosen_scan =
  ch_chosen :: nat
  ch_kernel_start :: u64
  ch_kernel_end :: u64

definition chosen_open :: "(chosen_scan, 'd) node_cb" where
  "chosen_open node st =
     (let (scan, s) = st in
      Some (if strcmp_lit (ram s) (node_name (hd node)) ''chosen'' = 0 then scan\<lparr>ch_chosen := length node\<rparr> else scan, s))"

definition chosen_close :: "node_path \<Rightarrow> chosen_scan \<times> 'd world \<Rightarrow> (u32 \<times> chosen_scan \<times> 'd world) option" where
  "chosen_close node st =
     (let (scan, s) = st in
      Some (0, if ch_chosen scan \<noteq> 0 \<and> ch_chosen scan = length node then scan\<lparr>ch_chosen := 0\<rparr> else scan, s))"

definition chosen_prop :: "fdt_prop \<Rightarrow> chosen_scan \<times> 'd world \<Rightarrow> (chosen_scan \<times> 'd world) option" where
  "chosen_prop prop st =
     (let (scan, s) = st in
      if ch_chosen scan = 0 then Some (scan, s)
      else if prop_is ''riscv,kernel-start'' prop s then
        do { val \<leftarrow> prop_address prop s; Some (scan\<lparr>ch_kernel_start := val\<rparr>, s) }
      else if prop_is ''riscv,kernel-end'' prop s then
        do { val \<leftarrow> prop_address prop s; Some (scan\<lparr>ch_kernel_end := val\<rparr>, s) }
      else Some (scan, s))"

definition chosen_cb :: "(chosen_scan, 'd) fdt_cb" where
  "chosen_cb = \<lparr>cb_open = Some chosen_open, cb_prop = chosen_prop, cb_done = None, cb_close = Some chosen_close\<rparr>"

definition query_chosen :: "u64 \<Rightarrow> 'd world \<Rightarrow> 'd world option" where
  "query_chosen fdt s = do {
     (chosen, s) \<leftarrow> fdt_scan fdt chosen_cb (\<lparr>ch_chosen = 0, ch_kernel_start = 0, ch_kernel_end = 0\<rparr>, s);
     Some (s\<lparr>kernel_start := ch_kernel_start chosen, kernel_end := ch_kernel_end chosen\<rparr>) }"

section \<open>Masking harts\<close>

record hart_filter =
  hf_compat :: u32
  hf_hart :: u32
  hf_status :: u64
  hf_mmu_type :: u64

definition hart_filter_open :: "(hart_filter, 'd) node_cb" where
  "hart_filter_open node st = Some (\<lparr>hf_compat = 0, hf_hart = - 1, hf_status = 0, hf_mmu_type = 0\<rparr>, snd st)"

definition hart_filter_prop :: "fdt_prop \<Rightarrow> hart_filter \<times> 'd world \<Rightarrow> (hart_filter \<times> 'd world) option" where
  "hart_filter_prop prop st =
     (let (f, s) = st in
      if prop_is ''device_type'' prop s \<and> strcmp_lit (ram s) (prop_value prop) ''cpu'' = 0 then Some (f\<lparr>hf_compat := 1\<rparr>, s)
      else if prop_is ''reg'' prop s then do { reg \<leftarrow> prop_address prop s; Some (f\<lparr>hf_hart := ucast reg\<rparr>, s) }
      else if prop_is ''status'' prop s then Some (f\<lparr>hf_status := prop_value prop\<rparr>, s)
      else if prop_is ''mmu-type'' prop s then Some (f\<lparr>hf_mmu_type := prop_value prop\<rparr>, s)
      else Some (f, s))"

definition hart_filter_mask :: "'d bus \<Rightarrow> hart_filter \<Rightarrow> 'd world \<Rightarrow> (bool \<times> 'd world) option" where
  "hart_filter_mask B f s =
     (if hf_mmu_type f = 0 then Some (True, s)
      else if strcmp_lit (ram s) (hf_status f) ''okay'' \<noteq> 0 then Some (True, s)
      else if strcmp_lit (ram s) (hf_mmu_type f) ''riscv,sv39'' = 0 then Some (False, s)
      else if strcmp_lit (ram s) (hf_mmu_type f) ''riscv,sv48'' = 0 then Some (False, s)
      else do {
        s \<leftarrow> printm B (''hart_filter_mask saw unknown hart type: status='' @ [CHR 0x22] @ ''%s'' @ [CHR 0x22] @ '', mmu_type='' @
               [CHR 0x22] @ ''%s'' @ [CHR 0x22, CHR 0x0A]) [hf_status f, hf_mmu_type f] s;
        Some (True, s) })"

text \<open>The status is overwritten in place, and so is its length, which stands two cells before it.\<close>

definition hart_filter_done :: "'d bus \<Rightarrow> (hart_filter, 'd) node_cb" where
  "hart_filter_done B node st =
     (let (f, s) = st in
      if hf_compat f = 0 then Some st
      else do {
        assert (hf_status f \<noteq> 0);
        assert (sint (hf_hart f) \<ge> 0);
        (masked, s) \<leftarrow> hart_filter_mask B f s;
        if masked then do {
          assert (sint (hf_hart f) < 32);
          let s = s\<lparr>ram := put_bytes st8 (ram s) (hf_status f) (bytes_of ''masked'' @ [0])\<rparr>;
          let s = wst32 s (hf_status f - 8) (bswap 7);
          Some (f, s\<lparr>disabled_hart_mask := disabled_hart_mask s OR scast (push_bit (unat (hf_hart f)) 1 :: u32)\<rparr>) }
        else Some (f, s) })"

definition hart_filter_cb :: "'d bus \<Rightarrow> (hart_filter, 'd) fdt_cb" where
  "hart_filter_cb B = \<lparr>cb_open = Some hart_filter_open, cb_prop = hart_filter_prop, cb_done = Some (hart_filter_done B),
     cb_close = None\<rparr>"

definition filter_harts :: "'d bus \<Rightarrow> hart_filter \<Rightarrow> u64 \<Rightarrow> 'd world \<Rightarrow> 'd world option" where
  "filter_harts B f fdt s =
     map_option snd (fdt_scan fdt (hart_filter_cb B) (f, s\<lparr>disabled_hart_mask := 0\<rparr>))"

section \<open>Printing the tree\<close>

definition FDT_PRINT_MAX_DEPTH :: nat where "FDT_PRINT_MAX_DEPTH = 32"

text \<open>The stack holds the nodes that are open; an index outside of it is undefined.\<close>

record fdt_print_info =
  pi_depth :: nat
  pi_stack :: "nat list"

primrec print_indent :: "'d bus \<Rightarrow> nat \<Rightarrow> 'd world \<Rightarrow> 'd world option" where
  "print_indent B 0 s = Some s"
| "print_indent B (Suc n) s = do { s \<leftarrow> printm B ''  '' [] s; print_indent B n s }"

definition fdt_print_printm :: "'d bus \<Rightarrow> fdt_print_info \<Rightarrow> string \<Rightarrow> u64 list \<Rightarrow> 'd world \<Rightarrow> 'd world option" where
  "fdt_print_printm B info format vl s = do { s \<leftarrow> print_indent B (pi_depth info) s; vprintm B format vl s }"

definition close_brace :: string where
  "close_brace = ''}'' @ [CHR 0x0D, CHR 0x0A]"

text \<open>Closing the nodes that have ended since: down to the parent of the new one.\<close>

partial_function (option) print_close_loop :: "'d bus \<Rightarrow> nat \<Rightarrow> fdt_print_info \<Rightarrow> 'd world \<Rightarrow> (fdt_print_info \<times> 'd world) option" where
  "print_close_loop B parent info s =
     (if parent = 0 then Some (info, s)
      else do {
        assert (0 < pi_depth info);
        if pi_stack info ! (pi_depth info - 1) \<noteq> parent then do {
          let info = info\<lparr>pi_depth := pi_depth info - 1\<rparr>;
          s \<leftarrow> fdt_print_printm B info close_brace [] s;
          print_close_loop B parent info s }
        else Some (info, s) })"

definition fdt_print_open :: "'d bus \<Rightarrow> (fdt_print_info, 'd) node_cb" where
  "fdt_print_open B node st = do {
     (info, s) \<leftarrow> print_close_loop B (length node - 1) (fst st) (snd st);
     s \<leftarrow> fdt_print_printm B info (''%s {'' @ [CHR 0x0D, CHR 0x0A]) [node_name (hd node)] s;
     assert (pi_depth info < FDT_PRINT_MAX_DEPTH);
     Some (info\<lparr>pi_stack := (pi_stack info)[pi_depth info := length node], pi_depth := pi_depth info + 1\<rparr>, s) }"

definition looks_like_string :: "ram \<Rightarrow> u64 \<Rightarrow> u32 \<Rightarrow> bool" where
  "looks_like_string m char_data len =
     list_all (\<lambda>i. isstring (ld8 m (char_data + of_nat i)) \<and>
        \<not> (i > 0 \<and> ld8 m (char_data + of_nat i) = 0 \<and> ld8 m (char_data + of_nat (i - 1)) = 0)) [0..<nat (sint len)]"

partial_function (option) print_strings :: "'d bus \<Rightarrow> u64 \<Rightarrow> u64 \<Rightarrow> u64 \<Rightarrow> 'd world \<Rightarrow> 'd world option" where
  "print_strings B char_data len i s =
     (if i < len then do {
        s \<leftarrow> (if i \<noteq> 0 then printm B '', '' [] s else Some s);
        s \<leftarrow> printm B ([CHR 0x22] @ ''%s'' @ [CHR 0x22]) [char_data + i] s;
        n \<leftarrow> strlen (ram s) (char_data + i);
        print_strings B char_data len (i + (n + 1)) s }
      else Some s)"

partial_function (option) print_cells :: "'d bus \<Rightarrow> u64 \<Rightarrow> u64 \<Rightarrow> u64 \<Rightarrow> 'd world \<Rightarrow> 'd world option" where
  "print_cells B value n i s =
     (if i < n then do {
        s \<leftarrow> (if i \<noteq> 0 then printm B '' '' [] s else Some s);
        s \<leftarrow> printm B ''0x%08x'' [scast (bswap (ld32 (ram s) (value + 4 * i)))] s;
        print_cells B value n (i + 1) s }
      else Some s)"

definition fdt_print_prop :: "'d bus \<Rightarrow> fdt_prop \<Rightarrow> fdt_print_info \<times> 'd world \<Rightarrow> (fdt_print_info \<times> 'd world) option" where
  "fdt_print_prop B prop st =
     (let (info, s) = st; char_data = prop_value prop; semicolon = '';'' @ [CHR 0x0D, CHR 0x0A] in do {
        s \<leftarrow> fdt_print_printm B info ''%s'' [prop_name prop] s;
        if prop_len prop = 0 then map_option (Pair info) (printm B semicolon [] s)
        else do {
          s \<leftarrow> printm B '' = '' [] s;
          s \<leftarrow> (if looks_like_string (ram s) char_data (prop_len prop)
                then print_strings B char_data (scast (prop_len prop)) 0 s
                else do {
                  s \<leftarrow> printm B ''<'' [] s;
                  s \<leftarrow> print_cells B char_data (word_of_int (sint (prop_len prop) sdiv 4)) 0 s;
                  printm B ''>'' [] s });
          map_option (Pair info) (printm B semicolon [] s) } })"

definition fdt_print_done :: "(fdt_print_info, 'd) node_cb" where
  "fdt_print_done node st = Some st"

definition fdt_print_close :: "node_path \<Rightarrow> fdt_print_info \<times> 'd world \<Rightarrow> (u32 \<times> fdt_print_info \<times> 'd world) option" where
  "fdt_print_close node st = Some (0, st)"

definition fdt_print_cb :: "'d bus \<Rightarrow> (fdt_print_info, 'd) fdt_cb" where
  "fdt_print_cb B = \<lparr>cb_open = Some (fdt_print_open B), cb_prop = fdt_print_prop B, cb_done = Some fdt_print_done,
     cb_close = Some fdt_print_close\<rparr>"

primrec print_closes :: "'d bus \<Rightarrow> fdt_print_info \<Rightarrow> nat \<Rightarrow> 'd world \<Rightarrow> 'd world option" where
  "print_closes B info 0 s = Some s"
| "print_closes B info (Suc n) s = do {
     s \<leftarrow> fdt_print_printm B (info\<lparr>pi_depth := n\<rparr>) close_brace [] s;
     print_closes B info n s }"

text \<open>\<open>stack\<close> is what the local array holds at first.\<close>

definition fdt_print :: "'d bus \<Rightarrow> nat list \<Rightarrow> u64 \<Rightarrow> 'd world \<Rightarrow> 'd world option" where
  "fdt_print B stack fdt s = do {
     (info, s) \<leftarrow> fdt_scan fdt (fdt_print_cb B) (\<lparr>pi_depth = 0, pi_stack = stack\<rparr>, s);
     print_closes B info (pi_depth info) s }"

end
