(* ===== verification/Pmp.thy ===== *)
theory Pmp
  imports Sbi
begin

text \<open>
  Physical memory protection: the part of the hart that the start-up code programs. The first
  four entries are modelled, the ones whose addresses the code sets; \<open>n\<close> is the number of
  entries the hart implements (0: the registers trap). A register of an entry that is not implemented reads as zero. The rules
  are those of the privileged architecture: an entry that is locked keeps its configuration
  and address until reset, the lowest entry that matches an access decides, and machine mode is bound by
  locked entries only.
\<close>

definition PMP_R :: u64 where "PMP_R = 0x01"
definition PMP_W :: u64 where "PMP_W = 0x02"
definition PMP_X :: u64 where "PMP_X = 0x04"
definition PMP_L :: u64 where "PMP_L = 0x80"
definition PMP_SHIFT :: nat where "PMP_SHIFT = 2"
definition PMP_TOR :: u64 where "PMP_TOR = 0x08"
definition PMP_NAPOT :: u64 where "PMP_NAPOT = 0x18"

lemmas pmp_bits = PMP_R_def PMP_W_def PMP_X_def PMP_L_def PMP_TOR_def PMP_NAPOT_def

section \<open>The registers\<close>

definition pmpaddr :: "nat \<Rightarrow> csr" where
  "pmpaddr i = [PMPADDR0, PMPADDR1, PMPADDR2, PMPADDR3] ! i"

definition pmp_addr :: "nat \<Rightarrow> 'd world \<Rightarrow> u64" where
  "pmp_addr i s = read_csr (pmpaddr i) s"

definition pmp_cfg :: "nat \<Rightarrow> 'd world \<Rightarrow> u8" where
  "pmp_cfg i s = ucast (drop_bit (8 * i) (read_csr PMPCFG0 s))"

definition pmp_locked :: "nat \<Rightarrow> 'd world \<Rightarrow> bool" where
  "pmp_locked i s \<longleftrightarrow> bit (pmp_cfg i s) 7"

text \<open>The way an entry matches: 0 not at all, 1 from the address of the entry before, 2 four bytes, 3 an aligned power of two.\<close>

definition pmp_mode :: "nat \<Rightarrow> 'd world \<Rightarrow> u8" where
  "pmp_mode i s = drop_bit 3 (pmp_cfg i s) AND 3"

definition write_pmpaddr :: "nat \<Rightarrow> nat \<Rightarrow> u64 \<Rightarrow> 'd world \<Rightarrow> 'd world" where
  "write_pmpaddr n i v s =
     (if i \<ge> n \<or> pmp_locked i s \<or> Suc i < min n 4 \<and> pmp_locked (Suc i) s \<and> pmp_mode (Suc i) s = 1 then s
      else write_csr (pmpaddr i) (v AND mask 54) s)"

definition write_pmpcfg0 :: "nat \<Rightarrow> u64 \<Rightarrow> 'd world \<Rightarrow> 'd world" where
  "write_pmpcfg0 n v s = write_csr PMPCFG0
     (le_word (map (\<lambda>i. if i \<ge> n then 0 else if pmp_locked i s then pmp_cfg i s else ucast (drop_bit (8 * i) v)) [0..<8])) s"

section \<open>What an access may do\<close>

datatype privilege = User | Supervisor | Machine_Mode

datatype pmp_access = Fetch | Load | Store

definition pmp_matches :: "nat \<Rightarrow> u64 \<Rightarrow> 'd world \<Rightarrow> bool" where
  "pmp_matches i a s =
     (let y = pmp_addr i s; w = drop_bit 2 a in
      if pmp_mode i s = 0 then False
      else if pmp_mode i s = 1 then (if i = 0 then 0 else pmp_addr (i - 1) s) \<le> w \<and> w < y
      else if pmp_mode i s = 2 then w = y
      else (w XOR y) AND NOT (y XOR (y + 1)) = 0)"

definition pmp_grants :: "nat \<Rightarrow> privilege \<Rightarrow> pmp_access \<Rightarrow> 'd world \<Rightarrow> bool" where
  "pmp_grants i m k s \<longleftrightarrow> (m = Machine_Mode \<and> \<not> pmp_locked i s) \<or>
     bit (pmp_cfg i s) (case k of Load \<Rightarrow> 0 | Store \<Rightarrow> 1 | Fetch \<Rightarrow> 2)"

definition pmp_allows :: "nat \<Rightarrow> privilege \<Rightarrow> pmp_access \<Rightarrow> u64 \<Rightarrow> 'd world \<Rightarrow> bool" where
  "pmp_allows n m k a s =
     (case find (\<lambda>i. pmp_matches i a s) [0..<min n 4] of
        Some i \<Rightarrow> pmp_grants i m k s
      | None \<Rightarrow> n = 0 \<or> m = Machine_Mode)"

section \<open>The code that programs it\<close>

definition pmp_make_napot :: "u64 \<Rightarrow> u64 \<Rightarrow> u64" where
  "pmp_make_napot base len = (let napot_len = drop_bit 1 len - 1 in drop_bit PMP_SHIFT (base + napot_len))"

text \<open>Without protection registers the first access to one traps, to the end of the sequence.\<close>

definition setup_pmp :: "nat \<Rightarrow> 'd world \<Rightarrow> 'd world" where
  "setup_pmp n s =
     (let pmpc0 = PMP_NAPOT OR PMP_R OR PMP_W OR PMP_X; pmpc1 = PMP_NAPOT OR PMP_W OR PMP_X
      in if n = 0 then s
         else let s = write_pmpaddr n 1 (- 1) s;
                  s = write_pmpaddr n 0 (- 1) s;
                  s = write_pmpcfg0 n pmpc0 s
              in write_csr PMPCFG2 pmpc1 s)"

text \<open>\<open>ftext\<close>, \<open>fdata\<close> and \<open>image_end\<close> are the addresses of the linker's symbols.\<close>

definition setup_pk_pmp :: "nat \<Rightarrow> u64 \<Rightarrow> u64 \<Rightarrow> u64 \<Rightarrow> 'd world \<Rightarrow> 'd world option" where
  "setup_pk_pmp n ftext fdata image_end s =
     (if n = 0 then None
      else let s = write_pmpaddr n 0 (pmp_make_napot ftext (fdata - ftext)) s;
               s = write_pmpaddr n 1 (pmp_make_napot fdata (image_end - fdata)) s;
               s = write_pmpaddr n 2 (- 1) s;
               cfg0 = PMP_NAPOT OR PMP_R OR PMP_X OR PMP_L;
               cfg1 = PMP_NAPOT OR PMP_R OR PMP_W OR PMP_L;
               cfg2 = PMP_NAPOT OR PMP_R OR PMP_W OR PMP_X;
               cfg = cfg0 OR push_bit 8 cfg1 OR push_bit 16 cfg2
           in Some (write_pmpcfg0 n cfg s))"

text \<open>\<^verbatim>\<open>protect_memory\<close> of the boot loader (\<^verbatim>\<open>src/pk/bbl/bbl.c\<close>).\<close>

definition probe_pmpaddr :: "nat \<Rightarrow> nat \<Rightarrow> 'd world \<Rightarrow> u64 \<times> 'd world" where
  "probe_pmpaddr n i s =
     (let s = write_pmpaddr n i (- 1) s in (if i \<ge> n then 0 else pmp_addr i s, s))"

definition protect_memory :: "nat \<Rightarrow> u64 \<Rightarrow> u64 \<Rightarrow> 'd world \<Rightarrow> 'd world" where
  "protect_memory n ftext image_end s =
     (let (a0, s) = (if n = 0 then (0, s) else probe_pmpaddr n 0 s);
          (a1, s) = (if n = 0 then (0, s) else probe_pmpaddr n 1 s);
          (a2, s) = (if n = 0 then (0, s) else probe_pmpaddr n 2 s);
          (a3, s) = (if n = 0 then (0, s) else probe_pmpaddr n 3 s)
      in if a0 AND a1 AND a2 AND a3 = 0 then setup_pmp n s
         else let a0 = drop_bit PMP_SHIFT ftext;
                  a1 = drop_bit PMP_SHIFT image_end;
                  cfg = push_bit 8 PMP_TOR;
                  a2 = - 1;
                  cfg = cfg OR push_bit 16 (PMP_NAPOT OR PMP_R OR PMP_W OR PMP_X);
                  a3 = 0;
                  s = write_pmpaddr n 0 a0 s;
                  s = write_pmpaddr n 1 a1 s;
                  s = write_pmpaddr n 2 a2 s;
                  s = write_pmpaddr n 3 a3 s
              in write_pmpcfg0 n cfg s)"

end
