(* ===== verification/Start.thy ===== *)
theory Start
  imports Emulation Devices Pmp
begin

text \<open>
  Machine-mode start-up (\<^verbatim>\<open>src/pk/machine/minit.c\<close>) and the boot loader of a payload
  (\<^verbatim>\<open>src/pk/bbl/bbl.c\<close>, \<^verbatim>\<open>logo.c\<close>). The boot loader that start-up calls is an argument: the one of the
  payload or the one of the proxy kernel. Control registers hold what is written to them; the protection registers
  alone follow their own rules (theory \<open>Pmp\<close>). \<open>None\<close> is a run that does not come
  back: a failed assertion, or a hart that is parked.
\<close>

section \<open>What the linker and the build choose\<close>

text \<open>
  The addresses of the linker's symbols, the top of the stack of the hart, the number of protection entries,
  the addresses of the local arrays of two device tree queries and of the logo, and the flags of the build.
\<close>

record image =
  ftext :: u64
  fdata :: u64
  image_end :: u64
  payload_start :: u64
  payload_end :: u64
  stack_top_of :: u64
  pmp_entries :: nat
  clint_local :: u64
  plic_local :: u64
  logo :: u64
  with_logo :: bool
  with_device_tree :: bool
  boot_machine :: bool

section \<open>The registers of the hart\<close>

definition MSTATUS_VS :: u64 where "MSTATUS_VS = 0x01800000"
definition MIP_MSIP :: u64 where "MIP_MSIP = 0x8"
definition MIP_SEIP :: u64 where "MIP_SEIP = 0x200"

definition supports_extension :: "char \<Rightarrow> 'd world \<Rightarrow> bool" where
  "supports_extension ext s \<longleftrightarrow> read_csr MISA s AND push_bit (nat (of_char ext - of_char (CHR ''A''))) 1 \<noteq> 0"

definition mstatus_init :: "'d world \<Rightarrow> 'd world" where
  "mstatus_init s =
     (let mstatus = 0;
          mstatus = (if supports_extension (CHR ''F'') s then mstatus OR MSTATUS_FS else mstatus);
          mstatus = (if supports_extension (CHR ''V'') s then mstatus OR MSTATUS_VS else mstatus);
          s = write_csr MSTATUS mstatus s;
          s = (if supports_extension (CHR ''S'') s then write_csr SCOUNTEREN (- 1) s else s);
          s = (if supports_extension (CHR ''U'') s then write_csr MCOUNTEREN (- 1) s else s);
          s = write_csr MIE MIP_MSIP s
      in if supports_extension (CHR ''S'') s then write_csr SATP 0 s else s)"

definition delegated_exceptions :: u64 where
  "delegated_exceptions = push_bit 0 1 OR push_bit (unat CAUSE_FETCH_PAGE_FAULT) 1 OR push_bit 3 1
     OR push_bit (unat CAUSE_LOAD_PAGE_FAULT) 1 OR push_bit (unat CAUSE_STORE_PAGE_FAULT) 1 OR push_bit 8 1"

definition delegate_traps :: "'d world \<Rightarrow> 'd world option" where
  "delegate_traps s =
     (if \<not> supports_extension (CHR ''S'') s then Some s
      else (let interrupts = MIP_SSIP OR MIP_STIP OR MIP_SEIP;
                s = write_csr MIDELEG interrupts s;
                s = write_csr MEDELEG delegated_exceptions s
            in do { assert (read_csr MIDELEG s = interrupts); assert (read_csr MEDELEG s = delegated_exceptions); Some s }))"

primrec init_fp_regs :: "'d emulator \<Rightarrow> nat \<Rightarrow> 'd world \<Rightarrow> 'd world" where
  "init_fp_regs E 0 s = s"
| "init_fp_regs E (Suc i) s = SET_F32_REG E (push_bit 3 (of_nat i)) 3 0 (init_fp_regs E i s)"

definition fp_init :: "'d emulator \<Rightarrow> 'd world \<Rightarrow> 'd world option" where
  "fp_init E s =
     (if \<not> supports_extension (CHR ''F'') s then Some s
      else do {
        assert (read_csr MSTATUS s AND MSTATUS_FS \<noteq> 0);
        if riscv_flen E then Some (write_csr FCSR 0 (init_fp_regs E 32 s))
        else (let fd_mask = push_bit 5 1 OR push_bit 3 1; (old, s) = clear_csr MISA fd_mask s
              in do { assert (read_csr MISA s AND fd_mask = 0); Some s }) })"

definition memory_init :: "'d world \<Rightarrow> 'd world" where
  "memory_init s = s\<lparr>mem_size := mem_size s div 0x200000 * 0x200000\<rparr>"

definition hart_init :: "'d emulator \<Rightarrow> image \<Rightarrow> 'd world \<Rightarrow> 'd world option" where
  "hart_init E I s = do {
     let s = mstatus_init s;
     s \<leftarrow> fp_init E s;
     s \<leftarrow> (if boot_machine I then Some s else delegate_traps s);
     setup_pk_pmp (pmp_entries I) (ftext I) (fdata I) (image_end I) s }"

section \<open>Interrupt controllers\<close>

partial_function (option) plic_init_loop :: "'d bus \<Rightarrow> u64 \<Rightarrow> 'd world \<Rightarrow> 'd world option" where
  "plic_init_loop B i s =
     (if i \<le> plic_ndevs s then plic_init_loop B (i + 1) (mmio_wr B 4 (plic_priorities s + 4 * i) 1 s) else Some s)"

definition plic_init :: "'d bus \<Rightarrow> 'd world \<Rightarrow> 'd world option" where
  "plic_init B s = plic_init_loop B 1 s"

definition HLS :: "'d world \<Rightarrow> hls" where
  "HLS s = hls_of s (this_hart s)"

text \<open>A test that start-up does not run: the pending bits are those that the hart shows after the writes.\<close>

definition prci_test :: "'d bus \<Rightarrow> ('d world \<Rightarrow> u64) \<Rightarrow> 'd world \<Rightarrow> 'd world option" where
  "prci_test B pending s = do {
     assert (pending s AND MIP_MSIP = 0);
     let s = mmio_wr B 4 (ipi (HLS s)) 1 s;
     assert (pending s AND MIP_MSIP \<noteq> 0);
     let s = mmio_wr B 4 (ipi (HLS s)) 0 s;
     assert (pending s AND MIP_MTIP = 0);
     let s = mmio_wr B 8 (timecmp (HLS s)) 0 s;
     assert (pending s AND MIP_MTIP \<noteq> 0);
     Some (mmio_wr B 8 (timecmp (HLS s)) (- 1) s) }"

primrec enable_words :: "'d bus \<Rightarrow> nat \<Rightarrow> 'd world \<Rightarrow> 'd world" where
  "enable_words B 0 s = s"
| "enable_words B (Suc i) s =
     (let s = enable_words B i s
      in if plic_s_ie (HLS s) \<noteq> 0 then mmio_wr B 8 (plic_s_ie (HLS s) + 8 * of_nat i) (- 1) s else s)"

definition hart_plic_init :: "'d bus \<Rightarrow> 'd world \<Rightarrow> 'd world" where
  "hart_plic_init B s =
     (let s = mmio_wr B 4 (ipi (HLS s)) 0 s;
          s = mmio_wr B 8 (timecmp (HLS s)) (- 1) s;
          s = write_csr MIP 0 s
      in if plic_ndevs s = 0 then s
         else (let ie_words = (plic_ndevs s + 8 * 8 - 1) div (8 * 8);
                   s = enable_words B (unat ie_words) s;
                   s = mmio_wr B 4 (plic_m_thresh (HLS s)) 1 s
               in if plic_s_thresh (HLS s) \<noteq> 0 then mmio_wr B 4 (plic_s_thresh (HLS s)) 0 s else s))"

primrec wake_harts_below :: "'d bus \<Rightarrow> nat \<Rightarrow> 'd world \<Rightarrow> 'd world" where
  "wake_harts_below B 0 s = s"
| "wake_harts_below B (Suc hart) s =
     (let s = wake_harts_below B hart s
      in if drop_bit hart (NOT (disabled_hart_mask s) AND hart_mask s) AND 1 \<noteq> 0
         then mmio_wr B 4 (ipi (hls_of s hart)) 1 s else s)"

definition wake_harts :: "'d bus \<Rightarrow> 'd world \<Rightarrow> 'd world" where
  "wake_harts B s = wake_harts_below B MAX_HARTS s"

section \<open>The first hart and the others\<close>

definition all_working :: working where
  "all_working = \<lparr>aes0_working = 1, aes1_working = 1, aes2_working = 1, sha256_working = 1, hmac_working = 1,
     rng_working = 1, rst_working = 1\<rparr>"

text \<open>\<open>lock_bytes\<close> is what the array of lock bytes on the stack holds at first.\<close>

definition init_first_hart :: "'d emulator \<Rightarrow> image \<Rightarrow> (u64 \<Rightarrow> 'd world \<Rightarrow> 'r option) \<Rightarrow> u8 list \<Rightarrow> u64 \<Rightarrow> u64 \<Rightarrow> 'd world \<Rightarrow> 'r option" where
  "init_first_hart E I boot_loader lock_bytes hartid dtb s =
     (let B = bus_of (plat E); s = query_uart16550 B s in do {
        s \<leftarrow> hart_init E I s;
        let s = query_mem dtb (hls_init 0 s);
        s \<leftarrow> printm B (''reading dtb for hart'' @ crlf) [] s;
        s \<leftarrow> query_harts dtb s;
        s \<leftarrow> query_clint (clint_local I) dtb s;
        s \<leftarrow> query_plic B (plic_local I) dtb s;
        s \<leftarrow> query_aes0 s;
        s \<leftarrow> query_aes1 s;
        s \<leftarrow> query_aes2 s;
        s \<leftarrow> query_sha256 s;
        s \<leftarrow> query_pkt s;
        s \<leftarrow> query_dma s;
        s \<leftarrow> query_reglk s;
        s \<leftarrow> query_hmac s;
        s \<leftarrow> query_rng s;
        s \<leftarrow> query_rst s;
        s \<leftarrow> query_rsa s;
        let s = wake_harts B s;
        s \<leftarrow> plic_init B s;
        let s = hart_plic_init B s;
        let s = memory_init s;
        (r, s) \<leftarrow> pkt_copy_fuse_data B lock_bytes all_working s;
        boot_loader dtb s })"

definition init_other_hart :: "'d emulator \<Rightarrow> image \<Rightarrow> (u64 \<Rightarrow> 'd world \<Rightarrow> 'r option) \<Rightarrow> u64 \<Rightarrow> u64 \<Rightarrow> 'd world \<Rightarrow> 'r option" where
  "init_other_hart E I boot_other_hart hartid dtb s = do {
     s \<leftarrow> hart_init E I s;
     boot_other_hart dtb (hart_plic_init (bus_of (plat E)) s) }"

section \<open>Leaving machine mode\<close>

definition PRV_S :: u64 where "PRV_S = 1"

definition INSERT_FIELD :: "u64 \<Rightarrow> u64 \<Rightarrow> u64 \<Rightarrow> u64" where
  "INSERT_FIELD val which fieldval = (val AND NOT which) OR (fieldval * (which AND NOT (which - 1)))"

definition MENTRY_FRAME_SIZE :: "'d emulator \<Rightarrow> u64" where
  "MENTRY_FRAME_SIZE E = 32 * 8 + (if riscv_flen E then 0 else 8 * 32) + 64"

text \<open>The state at \<^verbatim>\<open>mret\<close>, or at the jump to the payload, and the two arguments in registers.\<close>

definition enter_supervisor_mode :: "'d emulator \<Rightarrow> image \<Rightarrow> u64 \<Rightarrow> u64 \<Rightarrow> u64 \<Rightarrow> 'd world \<Rightarrow> (u64 \<times> u64 \<times> 'd world) option" where
  "enter_supervisor_mode E I fn arg0 arg1 s =
     (let mstatus = read_csr MSTATUS s;
          mstatus = INSERT_FIELD mstatus MSTATUS_MPP PRV_S;
          mstatus = INSERT_FIELD mstatus MSTATUS_MPIE 0;
          s = write_csr MSTATUS mstatus s;
          frame = stack_top_of I - MENTRY_FRAME_SIZE E;
          s = write_csr MSCRATCH frame s;
          s = (if riscv_flen E then s else s\<lparr>ram := st64 (ram s) frame 0\<rparr>);
          s = write_csr MEPC fn s
      in do { s \<leftarrow> printm (bus_of (plat E)) (''calling mret'' @ crlf) [] s; Some (arg0, arg1, s) })"

definition enter_machine_mode :: "'d emulator \<Rightarrow> image \<Rightarrow> u64 \<Rightarrow> u64 \<Rightarrow> 'd world \<Rightarrow> (u64 \<times> u64 \<times> 'd world) option" where
  "enter_machine_mode E I arg0 arg1 s =
     (let s = write_csr MSTATUS (INSERT_FIELD (read_csr MSTATUS s) MSTATUS_MPIE 0) s;
          s = write_csr MSCRATCH (stack_top_of I - MENTRY_FRAME_SIZE E) s
      in Some (arg0, arg1, s))"

section \<open>The boot loader of a payload\<close>

definition MEGAPAGE_SIZE :: u64 where "MEGAPAGE_SIZE = push_bit 9 4096"

definition dtb_output :: "image \<Rightarrow> 'd world \<Rightarrow> u64" where
  "dtb_output I s =
     (let end_address = (if kernel_end s \<noteq> 0 then kernel_end s else payload_end I)
      in (end_address + MEGAPAGE_SIZE - 1) div MEGAPAGE_SIZE * MEGAPAGE_SIZE)"

text \<open>The two records are what the locals of the scans hold at first.\<close>

definition filter_dtb :: "'d emulator \<Rightarrow> image \<Rightarrow> hart_filter \<Rightarrow> int_scan \<Rightarrow> u64 \<Rightarrow> 'd world \<Rightarrow> 'd world option" where
  "filter_dtb E I f scan source s =
     (let dest = dtb_output I s; size = fdt_size (ram s) source in do {
        m \<leftarrow> memcpy (ram s) dest source (ucast size);
        s \<leftarrow> filter_harts (bus_of (plat E)) f dest (s\<lparr>ram := m\<rparr>);
        s \<leftarrow> filter_plic scan dest s;
        s \<leftarrow> filter_compat dest ''riscv,clint0'' s;
        filter_compat dest ''riscv,debug-013'' s })"

definition print_logo :: "'d bus \<Rightarrow> image \<Rightarrow> 'd world \<Rightarrow> 'd world option" where
  "print_logo B I s = putstring B (logo I) s"

text \<open>A hart that is disabled, or that waits for an entry point, is parked for ever.\<close>

definition boot_other_hart :: "'d emulator \<Rightarrow> image \<Rightarrow> u64 \<Rightarrow> 'd world \<Rightarrow> (u64 \<times> u64 \<times> 'd world) option" where
  "boot_other_hart E I unused s =
     (let entry = bbl_entry s; hartid = read_csr MHARTID s in
      if entry = 0 then None
      else if scast (push_bit (unat hartid) 1 :: u32) AND disabled_hart_mask s \<noteq> 0 then None
      else if boot_machine I then enter_machine_mode E I hartid (dtb_output I s) s
      else enter_supervisor_mode E I entry hartid (dtb_output I s)
             (protect_memory (pmp_entries I) (ftext I) (image_end I) s))"

definition boot_loader :: "'d emulator \<Rightarrow> image \<Rightarrow> hart_filter \<Rightarrow> int_scan \<Rightarrow> nat list \<Rightarrow> u64 \<Rightarrow> 'd world \<Rightarrow> (u64 \<times> u64 \<times> 'd world) option" where
  "boot_loader E I f scan stack dtb s = do {
     s \<leftarrow> filter_dtb E I f scan dtb s;
     s \<leftarrow> (if with_logo I then print_logo (bus_of (plat E)) I s else Some s);
     s \<leftarrow> (if with_device_tree I then fdt_print (bus_of (plat E)) stack (dtb_output I s) s else Some s);
     boot_other_hart E I 0 (s\<lparr>bbl_entry := if kernel_start s \<noteq> 0 then kernel_start s else payload_start I\<rparr>) }"

end
