(* ===== verification/PmpProps.thy ===== *)
theory PmpProps
  imports Pmp
begin

text \<open>
  Which memory the protection entries cover and what they let through: the encoding of a
  naturally aligned region is exact, the entries of the proxy kernel keep text and data apart
  even from machine mode, and what they leave of the boot loader's own protection.
\<close>

section \<open>Naturally aligned regions\<close>

lemma xor_successor:
  assumes "n = Suc m"
  shows "(push_bit n c OR mask m) XOR ((push_bit n c OR mask m) + 1) = (mask n :: u64)"
proof -
  have disj: "push_bit n c AND mask m = (0 :: u64)" "push_bit n c AND push_bit m 1 = (0 :: u64)"
    by (rule bit_word_eqI, auto simp: bit_simps assms simp del: push_bit_Suc)+
  have "mask m + 1 = (push_bit m 1 :: u64)" by (simp add: mask_eq_exp_minus_1 push_bit_eq_mult)
  then have "(push_bit n c OR mask m) + 1 = push_bit n c OR (push_bit m 1 :: u64)"
    using disjunctive_add_eq_or [OF disj(1)] disjunctive_add_eq_or [OF disj(2)] by (metis add.assoc)
  then show ?thesis
    by (simp only:) (rule bit_word_eqI, auto simp: bit_simps assms simp del: push_bit_Suc)
qed

lemma bit_small: "unat c < 2 ^ n \<Longrightarrow> bit (c :: u64) j \<Longrightarrow> j < n"
proof (rule ccontr)
  assume c: "unat c < 2 ^ n" "bit c j" "\<not> j < n"
  then have "take_bit n c = c" by (simp add: word_unat_eq_iff take_bit_nat_eq_self unsigned_take_bit_eq)
  then have "bit (take_bit n c) j" using c(2) by simp
  then show False using c(3) by (simp add: bit_take_bit_iff)
qed

lemma napot_encodes:
  assumes "3 \<le> k" "k < 56" "unat c < 2 ^ (56 - k)"
  shows "pmp_make_napot (push_bit k c) (2 ^ k) = push_bit (k - 2) c OR mask (k - 3)"
    "(push_bit (k - 2) c OR mask (k - 3)) AND mask 54 = push_bit (k - 2) c OR mask (k - 3)"
proof -
  have "drop_bit 1 (2 ^ k) = (2 ^ (k - 1) :: u64)"
    using assms(1,2) by (intro bit_word_eqI) (auto simp: bit_simps)
  then have half: "drop_bit 1 (2 ^ k) - 1 = (mask (k - 1) :: u64)"
    by (simp only: mask_eq_exp_minus_1)
  have "push_bit k c AND mask (k - 1) = (0 :: u64)"
    by (rule bit_word_eqI) (auto simp: bit_simps)
  then have sum: "push_bit k c + mask (k - 1) = push_bit k c OR mask (k - 1)"
    by (rule disjunctive_add_eq_or)
  have small: "j < 56 - k" if "bit c j" for j using bit_small [OF assms(3) that] .
  have "drop_bit 2 (push_bit k c OR mask (k - 1)) = push_bit (k - 2) c OR (mask (k - 3) :: u64)"
    using assms(1,2) by (intro bit_word_eqI) (auto simp: bit_simps dest: small)
  then show "pmp_make_napot (push_bit k c) (2 ^ k) = push_bit (k - 2) c OR mask (k - 3)"
    unfolding pmp_make_napot_def Let_def half sum PMP_SHIFT_def .
  show "(push_bit (k - 2) c OR mask (k - 3)) AND mask 54 = push_bit (k - 2) c OR mask (k - 3)"
    using assms(1,2) by (intro bit_word_eqI) (auto simp: bit_simps dest: small)
qed

lemma and_not_mask_eq_0: "w AND NOT (mask n) = 0 \<longleftrightarrow> drop_bit n (w :: u64) = 0"
proof
  assume low: "w AND NOT (mask n) = 0"
  show "drop_bit n w = 0"
  proof (rule bit_word_eqI)
    fix j
    show "bit (drop_bit n w) j \<longleftrightarrow> bit (0 :: u64) j"
      using arg_cong [OF low, of "\<lambda>w. bit w (n + j)"] by (auto simp: bit_simps dest: bit_imp_le_length)
  qed
next
  assume high: "drop_bit n w = 0"
  show "w AND NOT (mask n) = 0"
  proof (rule bit_word_eqI)
    fix j
    show "bit (w AND NOT (mask n)) j \<longleftrightarrow> bit (0 :: u64) j"
      using arg_cong [OF high, of "\<lambda>w. bit w (j - n)"] by (cases "n \<le> j") (auto simp: bit_simps)
  qed
qed

text \<open>An address matches the entry exactly when it lies in the region.\<close>

lemma napot_match:
  assumes "3 \<le> k" "k < 56" "unat c < 2 ^ (56 - k)" "y = push_bit (k - 2) c OR mask (k - 3)"
  shows "(drop_bit 2 a XOR y) AND NOT (y XOR (y + 1)) = 0 \<longleftrightarrow> drop_bit k (a :: u64) = c"
proof -
  have "y XOR (y + 1) = mask (k - 2)"
    unfolding assms(4) using assms(1) by (intro xor_successor) simp
  then have "(drop_bit 2 a XOR y) AND NOT (y XOR (y + 1)) = 0 \<longleftrightarrow> drop_bit (k - 2) (drop_bit 2 a XOR y) = 0"
    by (simp only: and_not_mask_eq_0)
  also have "drop_bit (k - 2) (drop_bit 2 a XOR y) = drop_bit k a XOR c"
  proof (rule bit_word_eqI)
    fix j
    have e: "2 + (k - 2 + j) = k + j" using assms(1) by simp
    have "bit y (k - 2 + j) \<longleftrightarrow> bit c j"
      unfolding assms(4) bit_or_iff bit_push_bit_iff bit_mask_iff diff_add_inverse
      using assms(1,2) bit_small [OF assms(3), of j] bit_imp_le_length [of c j] by auto
    then show "bit (drop_bit (k - 2) (drop_bit 2 a XOR y)) j \<longleftrightarrow> bit (drop_bit k a XOR c) j"
      unfolding bit_drop_bit_eq comp_apply bit_xor_iff bit_drop_bit_eq comp_apply e by simp
  qed
  also have "drop_bit k a XOR c = 0 \<longleftrightarrow> drop_bit k a = c" by (auto simp: bit_eq_iff bit_simps)
  finally show ?thesis .
qed


lemma unat_push_small:
  assumes "k < 56" "unat c < 2 ^ (56 - k)"
  shows "unat (push_bit k (c :: u64)) = unat c * 2 ^ k" "unat (push_bit k c + 2 ^ k) = unat c * 2 ^ k + 2 ^ k"
    "(unat c + 1) * 2 ^ k \<le> 2 ^ 56"
proof -
  have "(unat c + 1) * 2 ^ k \<le> 2 ^ (56 - k) * 2 ^ k" using assms(2) by (intro mult_right_mono) simp_all
  also have "\<dots> = 2 ^ 56" using assms(1) by (simp flip: power_add)
  finally show fits: "(unat c + 1) * 2 ^ k \<le> 2 ^ 56" .
  then have "unat c * 2 ^ k + 2 ^ k \<le> (2 :: nat) ^ 56" by (simp add: algebra_simps)
  moreover have p: "unat (2 ^ k :: u64) = 2 ^ k" 
  proof -
    have "(2 :: nat) ^ k < 2 ^ 64" using assms(1) by (intro power_strict_increasing) simp_all
    then show ?thesis using unat_of_nat_u64 [of "2 ^ k"] by simp
  qed
  moreover have "(2 :: nat) ^ 56 < 2 ^ 64" by simp
  ultimately have "unat c * unat (2 ^ k :: u64) < 2 ^ 64" "unat c * unat (2 ^ k :: u64) + 2 ^ k < 2 ^ 64" by simp_all
  then have m: "unat (c * 2 ^ k) = unat c * 2 ^ k" "unat (c * 2 ^ k) + unat (2 ^ k :: u64) < 2 ^ 64"
    by (simp_all add: unat_word_ariths(2) p)
  then show "unat (push_bit k c) = unat c * 2 ^ k" "unat (push_bit k c + 2 ^ k) = unat c * 2 ^ k + 2 ^ k"
    by (simp_all add: push_bit_eq_mult unat_word_ariths(1) p)
qed

lemma div_eq_interval: "0 < p \<Longrightarrow> x div p = q \<longleftrightarrow> q * p \<le> x \<and> x < q * p + (p :: nat)"
  by (auto simp: add.commute mult.commute [of q] dividend_less_times_div intro!: div_nat_eqI)

lemma napot_interval:
  assumes "k < 56" "unat c < 2 ^ (56 - k)"
  shows "drop_bit k (a :: u64) = c \<longleftrightarrow> push_bit k c \<le> a \<and> a < push_bit k c + 2 ^ k"
proof -
  have "drop_bit k a = c \<longleftrightarrow> unat a div 2 ^ k = unat c"
    unfolding word_unat_eq_iff unat_drop_bit_eq unfolding drop_bit_eq_div ..
  also have "\<dots> \<longleftrightarrow> unat c * 2 ^ k \<le> unat a \<and> unat a < unat c * 2 ^ k + 2 ^ k"
    by (rule div_eq_interval) simp
  finally show ?thesis by (simp add: word_le_nat_alt word_less_nat_alt unat_push_small [OF assms])
qed


section \<open>The registers after a write\<close>

lemma pmpaddr_simps [simp]:
  "pmpaddr 0 = PMPADDR0" "pmpaddr (Suc 0) = PMPADDR1" "pmpaddr 2 = PMPADDR2" "pmpaddr 3 = PMPADDR3"
  by (simp_all add: pmpaddr_def)

lemma pmpaddr_cfg: "i < 4 \<Longrightarrow> pmpaddr i \<noteq> PMPCFG0"
  by (auto simp: pmpaddr_def less_Suc_eq numeral_eq_Suc)

lemma pmpaddr_inject: "i < 4 \<Longrightarrow> j < 4 \<Longrightarrow> pmpaddr i = pmpaddr j \<longleftrightarrow> i = j"
  by (auto simp: pmpaddr_def less_Suc_eq numeral_eq_Suc)

lemma write_pmpaddr_cfg [simp]:
  assumes "i < 4"
  shows "read_csr PMPCFG0 (write_pmpaddr n i v s) = read_csr PMPCFG0 s" "pmp_cfg j (write_pmpaddr n i v s) = pmp_cfg j s"
    "pmp_locked j (write_pmpaddr n i v s) = pmp_locked j s" "pmp_mode j (write_pmpaddr n i v s) = pmp_mode j s"
  using pmpaddr_cfg [OF assms]
  by (auto simp: pmp_mode_def pmp_locked_def pmp_cfg_def write_pmpaddr_def read_csr_def write_csr_def)

lemma write_pmpcfg0_addr [simp]: "i < 4 \<Longrightarrow> pmp_addr i (write_pmpcfg0 n v s) = pmp_addr i s"
  using pmpaddr_cfg [of i] by (auto simp: pmp_addr_def write_pmpcfg0_def read_csr_def write_csr_def)

lemma write_pmpaddr_addr:
  assumes "i < 4" "j < 4"
  shows "pmp_addr j (write_pmpaddr n i v s) =
     (if j = i \<and> i < n \<and> \<not> pmp_locked i s \<and> \<not> (Suc i < min n 4 \<and> pmp_locked (Suc i) s \<and> pmp_mode (Suc i) s = 1)
      then v AND mask 54 else pmp_addr j s)"
  using pmpaddr_inject [OF assms(2,1)]
  by (auto simp: pmp_addr_def write_pmpaddr_def read_csr_def write_csr_def)

lemma pmp_cfg_write:
  assumes "i < 8"
  shows "pmp_cfg i (write_pmpcfg0 n v s) = (if i \<ge> n then 0 else if pmp_locked i s then pmp_cfg i s else ucast (drop_bit (8 * i) v))"
proof (rule bit_word_eqI)
  fix j assume "j < LENGTH(8)"
  then have "(8 * i + j) div 8 = i" "(8 * i + j) mod 8 = j" "8 * i + j < 64" using assms by auto
  then show "bit (pmp_cfg i (write_pmpcfg0 n v s)) j \<longleftrightarrow>
      bit (if i \<ge> n then 0 else if pmp_locked i s then pmp_cfg i s else ucast (drop_bit (8 * i) v)) j"
    using \<open>j < LENGTH(8)\<close> assms unfolding pmp_cfg_def [of i "write_pmpcfg0 n v s"]
    by (simp add: write_pmpcfg0_def read_csr_def write_csr_def bit_simps bit_le_word del: upt_Suc)
qed

lemma pmp_all_matches:
  assumes "pmp_mode i s = 3" "pmp_addr i s = mask 54" "drop_bit 56 a = 0"
  shows "pmp_matches i a s"
proof -
  have "mask 54 XOR (mask 54 + 1) = (mask 55 :: u64)" using xor_successor [of 55 54 0] by simp
  moreover have "(drop_bit 2 a XOR mask 54) AND NOT (mask 55) = 0"
  proof (rule bit_word_eqI)
    fix j
    show "bit ((drop_bit 2 a XOR mask 54) AND NOT (mask 55)) j \<longleftrightarrow> bit (0 :: u64) j"
      using arg_cong [OF assms(3), of "\<lambda>w. bit w (j + 2 - 56)"] by (auto simp: bit_simps)
  qed
  ultimately show ?thesis using assms(1,2) by (simp add: pmp_matches_def Let_def)
qed

section \<open>The entries of the proxy kernel\<close>

text \<open>Text and data as naturally aligned powers of two.\<close>

definition pk_layout :: "nat \<Rightarrow> nat \<Rightarrow> u64 \<Rightarrow> u64 \<Rightarrow> u64 \<Rightarrow> bool" where
  "pk_layout k j ftext fdata image_end \<longleftrightarrow> 3 \<le> k \<and> k < 56 \<and> 3 \<le> j \<and> j < 56 \<and>
     (\<exists>c. ftext = push_bit k c \<and> unat c < 2 ^ (56 - k)) \<and> fdata = ftext + 2 ^ k \<and>
     (\<exists>d. fdata = push_bit j d \<and> unat d < 2 ^ (56 - j)) \<and> image_end = fdata + 2 ^ j"

lemma three_entries: "find P [0..<min n 4] = (if P 0 then Some 0 else if P (Suc 0) then Some (Suc 0) else if P 2 then Some 2
    else if P 3 then Some 3 else None)" if "4 \<le> n"
  using that by (simp add: upt_rec [of 0] upt_rec [of "Suc 0"] upt_rec [of 2] upt_rec [of 3] numeral_eq_Suc)

lemma setup_pk_pmp_runs:
  assumes "4 \<le> n" "read_csr PMPCFG0 s = 0" "pk_layout k j ftext fdata image_end"
  obtains s' where "setup_pk_pmp n ftext fdata image_end s = Some s'"
    "pmp_cfg 0 s' = 0x9D" "pmp_cfg (Suc 0) s' = 0x9B" "pmp_cfg 2 s' = 0x1F" "pmp_cfg 3 s' = 0"
    "\<And>a. pmp_matches 0 a s' \<longleftrightarrow> ftext \<le> a \<and> a < fdata"
    "\<And>a. pmp_matches (Suc 0) a s' \<longleftrightarrow> fdata \<le> a \<and> a < image_end"
    "\<And>a. drop_bit 56 a = 0 \<Longrightarrow> pmp_matches 2 a s'"
proof -
  obtain c d where l: "3 \<le> k" "k < 56" "3 \<le> j" "j < 56" "ftext = push_bit k c" "unat c < 2 ^ (56 - k)"
      "fdata = push_bit j d" "unat d < 2 ^ (56 - j)" "fdata = ftext + 2 ^ k" "image_end = fdata + 2 ^ j"
    using assms(3) unfolding pk_layout_def by blast
  have len: "fdata - ftext = 2 ^ k" "image_end - fdata = 2 ^ j" using l(9,10) by simp_all
  have open_: "pmp_cfg i s = 0" "\<not> pmp_locked i s" for i
    using assms(2) by (simp_all add: pmp_cfg_def pmp_locked_def)
  obtain s' where s': "setup_pk_pmp n ftext fdata image_end s = Some s'" using assms(1) by (auto simp: setup_pk_pmp_def Let_def)
  have addr: "pmp_addr 0 s' = pmp_make_napot ftext (2 ^ k) AND mask 54" "pmp_addr (Suc 0) s' = pmp_make_napot fdata (2 ^ j) AND mask 54"
      "pmp_addr 2 s' = mask 54"
    using s' assms(1) unfolding setup_pk_pmp_def Let_def len
    by (auto simp: write_pmpaddr_addr open_)
  have cfg: "pmp_cfg 0 s' = 0x9D" "pmp_cfg (Suc 0) s' = 0x9B" "pmp_cfg 2 s' = 0x1F" "pmp_cfg 3 s' = 0"
    using s' assms(1) unfolding setup_pk_pmp_def Let_def by (auto simp: pmp_cfg_write open_ pmp_bits)
  have mode: "pmp_mode 0 s' = 3" "pmp_mode (Suc 0) s' = 3" "pmp_mode 2 s' = 3" by (simp_all add: pmp_mode_def cfg)
  note m0 = napot_match [OF l(1,2,6) refl] and m1 = napot_match [OF l(3,4,8) refl]
  show thesis
  proof (rule that [OF s' cfg])
    show "pmp_matches 0 a s' \<longleftrightarrow> ftext \<le> a \<and> a < fdata" for a
      unfolding l(9) unfolding l(5) napot_interval [OF l(2,6), of a, symmetric] m0 [of a, symmetric]
      using mode(1) addr(1) napot_encodes [OF l(1,2,6)] by (simp add: pmp_matches_def Let_def l(5))
    show "pmp_matches (Suc 0) a s' \<longleftrightarrow> fdata \<le> a \<and> a < image_end" for a
      unfolding l(10) unfolding l(7) napot_interval [OF l(4,8), of a, symmetric] m1 [of a, symmetric]
      using mode(2) addr(2) napot_encodes [OF l(3,4,8)] by (simp add: pmp_matches_def Let_def l(7))
    show "pmp_matches 2 a s'" if "drop_bit 56 a = 0" for a
      by (rule pmp_all_matches [OF mode(3) addr(3) that])
  qed
qed

lemma setup_pk_pmp_protects_runs:
  assumes "4 \<le> n" "read_csr PMPCFG0 s = 0" "pk_layout k j ftext fdata image_end"
  shows "\<exists>s'. setup_pk_pmp n ftext fdata image_end s = Some s' \<and>
    (\<forall>m acc a. drop_bit 56 a = 0 \<longrightarrow> pmp_allows n m acc a s' =
       (if ftext \<le> a \<and> a < fdata then acc \<noteq> Store else if fdata \<le> a \<and> a < image_end then acc \<noteq> Fetch else True))"
proof -
  obtain s' where s': "setup_pk_pmp n ftext fdata image_end s = Some s'"
    "pmp_cfg 0 s' = 0x9D" "pmp_cfg (Suc 0) s' = 0x9B" "pmp_cfg 2 s' = 0x1F" "pmp_cfg 3 s' = 0"
    "\<And>a. pmp_matches 0 a s' \<longleftrightarrow> ftext \<le> a \<and> a < fdata"
    "\<And>a. pmp_matches (Suc 0) a s' \<longleftrightarrow> fdata \<le> a \<and> a < image_end"
    "\<And>a. drop_bit 56 a = 0 \<Longrightarrow> pmp_matches 2 a s'"
    by (rule setup_pk_pmp_runs [OF assms]) (rule that)
  have grants: "pmp_grants 0 m acc s' \<longleftrightarrow> acc \<noteq> Store" "pmp_grants (Suc 0) m acc s' \<longleftrightarrow> acc \<noteq> Fetch" "pmp_grants 2 m acc s'"
    for m acc by (simp_all add: pmp_grants_def pmp_locked_def s'(2-5) split: pmp_access.split)
  show ?thesis
    using s'(1) by (auto simp: pmp_allows_def three_entries [OF assms(1)] s'(6-8) grants)
qed

text \<open>
  \<^bold>\<open>C12\<close>: With text and data on aligned powers of two the protection that every
  hart sets up holds in all modes, machine mode included: the kernel text cannot be written, its
  data cannot be executed, everything else is open.
\<close>

theorem setup_pk_pmp_protects:
  assumes "4 \<le> n" "read_csr PMPCFG0 s = 0" "pk_layout k j ftext fdata image_end"
  shows "\<exists>s'. setup_pk_pmp n ftext fdata image_end s = Some s' \<and>
    (\<forall>m acc a. drop_bit 56 a = 0 \<longrightarrow> pmp_allows n m acc a s' =
       (if ftext \<le> a \<and> a < fdata then acc \<noteq> Store else if fdata \<le> a \<and> a < image_end then acc \<noteq> Fetch else True))"
  using assms by (rule setup_pk_pmp_protects_runs)

text \<open>
  The linker script aligns the end of the text to a page and not to its size. Then the entry
  covers another region: here the middle of the text only, and the rest is open to everyone.
\<close>

theorem setup_pk_pmp_misfit:
  assumes "4 \<le> n" "read_csr PMPCFG0 s = 0"
  shows "\<exists>s'. setup_pk_pmp n 0x80000000 0x8000A000 0x80020000 s = Some s' \<and>
    pmp_allows n User Store 0x80000000 s' \<and> \<not> pmp_allows n User Store 0x80004000 s'"
proof -
  have free: "pmp_cfg i s = 0" "\<not> pmp_locked i s" for i
    using assms(2) by (simp_all add: pmp_cfg_def pmp_locked_def)
  obtain s' where s': "setup_pk_pmp n 0x80000000 0x8000A000 0x80020000 s = Some s'"
    using assms(1) by (auto simp: setup_pk_pmp_def Let_def)
  have addr: "pmp_addr 0 s' = 0x200013FF" "pmp_addr (Suc 0) s' = 0x200053FF" "pmp_addr 2 s' = mask 54"
    using s' assms(1) unfolding setup_pk_pmp_def Let_def
    by (auto simp: write_pmpaddr_addr free pmp_make_napot_def PMP_SHIFT_def mask_eq_exp_minus_1)
  have cfg: "pmp_cfg 0 s' = 0x9D" "pmp_cfg (Suc 0) s' = 0x9B" "pmp_cfg 2 s' = 0x1F" "pmp_cfg 3 s' = 0"
    using s' assms(1) unfolding setup_pk_pmp_def Let_def by (auto simp: pmp_cfg_write free pmp_bits)
  have mode: "pmp_mode 0 s' = 3" "pmp_mode (Suc 0) s' = 3" "pmp_mode 2 s' = 3" by (simp_all add: pmp_mode_def cfg)
  have all: "pmp_matches 2 0x80000000 s'" by (rule pmp_all_matches [OF mode(3) addr(3)]) simp
  have "\<not> pmp_matches 0 0x80000000 s'" "\<not> pmp_matches (Suc 0) 0x80000000 s'" "pmp_matches 0 0x80004000 s'"
    by (simp_all add: pmp_matches_def mode addr)
  then show ?thesis
    using s' all by (simp add: pmp_allows_def three_entries [OF assms(1)] pmp_grants_def pmp_locked_def cfg)
qed

section \<open>The protection of the boot loader\<close>

lemma drop_2_le:
  assumes "(x :: u64) AND 3 = 0"
  shows "drop_bit 2 x \<le> drop_bit 2 a \<longleftrightarrow> x \<le> a" "drop_bit 2 a < drop_bit 2 x \<longleftrightarrow> a < x"
proof -
  have "take_bit 2 x = 0" using assms by (simp add: take_bit_eq_mask mask_eq_exp_minus_1)
  then have "unat (take_bit 2 x) = 0" by simp
  then have "unat x mod 4 = 0" unfolding unsigned_take_bit_eq unfolding take_bit_eq_mod by simp
  then have x: "unat x = 4 * (unat x div 4)" by auto
  have d: "unat (drop_bit 2 w) = unat w div 4" for w :: u64
    unfolding unat_drop_bit_eq unfolding drop_bit_eq_div by simp
  show "drop_bit 2 x \<le> drop_bit 2 a \<longleftrightarrow> x \<le> a" "drop_bit 2 a < drop_bit 2 x \<longleftrightarrow> a < x"
    unfolding word_le_nat_alt word_less_nat_alt d using x by linarith+
qed

lemma drop_2_mask:
  assumes "drop_bit 56 (x :: u64) = 0"
  shows "drop_bit 2 x AND mask 54 = drop_bit 2 x"
proof (rule bit_word_eqI)
  fix j
  show "bit (drop_bit 2 x AND mask 54) j \<longleftrightarrow> bit (drop_bit 2 x) j"
    using arg_cong [OF assms, of "\<lambda>w. bit w (j + 2 - 56)"] by (cases "54 \<le> j") (auto simp: bit_simps dest: bit_imp_le_length)
qed

text \<open>
  \<^bold>\<open>C13\<close>: On protection registers that are not locked, protect_memory of the
  boot loader keeps user and supervisor mode out of its image, and out of nothing else.
\<close>

theorem protect_memory_isolates:
  assumes "4 \<le> n" "read_csr PMPCFG0 s = 0" "ftext AND 3 = 0" "image_end AND 3 = 0" "drop_bit 56 ftext = 0" "drop_bit 56 image_end = 0"
    and "drop_bit 56 a = 0"
  shows "pmp_allows n m acc a (protect_memory n ftext image_end s) \<longleftrightarrow> m = Machine_Mode \<or> \<not> (ftext \<le> a \<and> a < image_end)"
proof -
  have free: "pmp_cfg i s = 0" "\<not> pmp_locked i s" for i
    using assms(2) by (simp_all add: pmp_cfg_def pmp_locked_def)
  let ?s' = "protect_memory n ftext image_end s"
  have addr: "pmp_addr 0 ?s' = drop_bit 2 ftext" "pmp_addr (Suc 0) ?s' = drop_bit 2 image_end" "pmp_addr 2 ?s' = mask 54"
    using assms(1) unfolding protect_memory_def probe_pmpaddr_def Let_def PMP_SHIFT_def
    by (simp_all add: write_pmpaddr_addr free drop_2_mask assms(5,6))
  have cfg: "pmp_cfg 0 ?s' = 0" "pmp_cfg (Suc 0) ?s' = 0x08" "pmp_cfg 2 ?s' = 0x1F"
    using assms(1) unfolding protect_memory_def probe_pmpaddr_def Let_def PMP_SHIFT_def
    by (simp_all add: write_pmpaddr_addr free pmp_cfg_write pmp_bits)
  have mode: "pmp_mode 0 ?s' = 0" "pmp_mode (Suc 0) ?s' = 1" "pmp_mode 2 ?s' = 3" by (simp_all add: pmp_mode_def cfg)
  have "\<not> pmp_matches 0 a ?s'" by (simp add: pmp_matches_def mode)
  moreover have "pmp_matches (Suc 0) a ?s' \<longleftrightarrow> ftext \<le> a \<and> a < image_end"
    by (simp add: pmp_matches_def mode addr drop_2_le [OF assms(3)] drop_2_le [OF assms(4)])
  moreover have "pmp_matches 2 a ?s'" by (rule pmp_all_matches [OF mode(3) addr(3) assms(7)])
  ultimately show ?thesis
    by (cases acc) (auto simp: pmp_allows_def three_entries [OF assms(1)] pmp_grants_def pmp_locked_def cfg)
qed

text \<open>An entry that is locked stays what it is, whatever the boot loader writes.\<close>

lemma write_pmpcfg2 [simp]:
  "pmp_cfg i (write_csr PMPCFG2 v s) = pmp_cfg i s" "pmp_locked i (write_csr PMPCFG2 v s) = pmp_locked i s"
  by (simp_all add: pmp_cfg_def pmp_locked_def read_csr_def write_csr_def)

lemma write_pmpcfg2_addr [simp]: "i < 4 \<Longrightarrow> pmp_addr i (write_csr PMPCFG2 v s) = pmp_addr i s"
  by (auto simp: pmp_addr_def pmpaddr_def less_Suc_eq numeral_eq_Suc read_csr_def write_csr_def)

definition pmp_kept :: "nat \<Rightarrow> 'd world \<Rightarrow> 'd world \<Rightarrow> bool" where
  "pmp_kept i s s' \<longleftrightarrow> pmp_addr i s' = pmp_addr i s \<and> pmp_cfg i s' = pmp_cfg i s"

lemma pmp_kept_trans: "pmp_kept i s s' \<Longrightarrow> pmp_kept i s' s'' \<Longrightarrow> pmp_kept i s s''"
  by (simp add: pmp_kept_def)

lemma pmp_kept_locked: "pmp_kept i s s' \<Longrightarrow> pmp_locked i s' = pmp_locked i s"
  by (simp add: pmp_kept_def pmp_locked_def)

lemma pmp_kept_steps:
  assumes "pmp_locked i s" "i < n" "i < 4" "pmp_kept i s t"
  shows "j < 4 \<Longrightarrow> pmp_kept i s (write_pmpaddr n j v t)" "pmp_kept i s (write_pmpcfg0 n v t)" "pmp_kept i s (write_csr PMPCFG2 v t)"
  using assms pmp_kept_locked [OF assms(4)] by (auto simp: pmp_kept_def write_pmpaddr_addr pmp_cfg_write)

lemma locked_stays:
  assumes "pmp_locked i s" "i < n" "i < 4"
  shows "pmp_kept i s (protect_memory n ftext image_end s)"
proof -
  note [simp] = pmp_kept_steps [OF assms]
  have "pmp_kept i s s" by (simp add: pmp_kept_def)
  then show ?thesis
    unfolding protect_memory_def probe_pmpaddr_def setup_pmp_def Let_def by (simp split: if_split)
qed

lemma locked_data_open:
  assumes "4 \<le> n" "pmp_cfg 0 s = 0x9D" "pmp_cfg (Suc 0) s = 0x9B" "pmp_matches (Suc 0) a s" "\<not> pmp_matches 0 a s"
  shows "pmp_allows n Supervisor Load a (protect_memory n ftext image_end s)"
    "pmp_allows n Supervisor Store a (protect_memory n ftext image_end s)"
proof -
  let ?s' = "protect_memory n ftext image_end s"
  have locked: "pmp_locked 0 s" "pmp_locked (Suc 0) s" by (simp_all add: pmp_locked_def assms(2,3))
  have same: "pmp_addr i ?s' = pmp_addr i s" "pmp_cfg i ?s' = pmp_cfg i s" if "i < 2" for i
    using locked_stays [of i s n ftext image_end] that locked assms(1) by (auto simp: less_2_cases_iff pmp_kept_def)
  have mode: "pmp_mode 0 s = 3" "pmp_mode (Suc 0) s = 3" "pmp_mode 0 ?s' = 3" "pmp_mode (Suc 0) ?s' = 3"
    using assms(2,3) by (simp_all add: pmp_mode_def same)
  have "pmp_matches i a ?s' \<longleftrightarrow> pmp_matches i a s" if "i < 2" for i
    using that same [OF that] mode by (auto simp: pmp_matches_def Let_def less_2_cases_iff)
  then have "\<not> pmp_matches 0 a ?s'" "pmp_matches (Suc 0) a ?s'" using assms(4,5) by auto
  then show "pmp_allows n Supervisor Load a ?s'" "pmp_allows n Supervisor Store a ?s'"
    using assms(3) by (simp_all add: pmp_allows_def three_entries [OF assms(1)] pmp_grants_def same)
qed

text \<open>The rules depend on the protection registers only.\<close>

definition pmp_registers :: "csr set" where
  "pmp_registers = {PMPADDR0, PMPADDR1, PMPADDR2, PMPADDR3, PMPCFG0}"

lemma pmpaddr_register: "i < 4 \<Longrightarrow> pmpaddr i \<in> pmp_registers"
  by (auto simp: pmp_registers_def pmpaddr_def less_Suc_eq numeral_eq_Suc)

lemma pmp_same:
  assumes "\<And>r. r \<in> pmp_registers \<Longrightarrow> read_csr r t = read_csr r s"
  shows "pmp_cfg i t = pmp_cfg i s" "i < 4 \<Longrightarrow> pmp_matches i a t = pmp_matches i a s"
    "4 \<le> n \<Longrightarrow> pmp_allows n m acc a t = pmp_allows n m acc a s"
proof -
  have cfg: "pmp_cfg i t = pmp_cfg i s" for i using assms by (simp add: pmp_cfg_def pmp_registers_def)
  have addr: "pmp_addr i t = pmp_addr i s" if "i < 4" for i using assms pmpaddr_register [OF that] by (simp add: pmp_addr_def)
  have matches: "pmp_matches i a t = pmp_matches i a s" if "i < 4" for i
    using that by (simp add: pmp_matches_def pmp_mode_def cfg addr)
  show "pmp_cfg i t = pmp_cfg i s" by (rule cfg)
  show "i < 4 \<Longrightarrow> pmp_matches i a t = pmp_matches i a s" by (rule matches)
  show "4 \<le> n \<Longrightarrow> pmp_allows n m acc a t = pmp_allows n m acc a s"
    unfolding pmp_allows_def by (simp only: three_entries) (simp add: matches pmp_grants_def pmp_locked_def cfg)
qed

text \<open>
  But every hart has locked its first two entries before, in \<^verbatim>\<open>hart_init\<close>: the boot loader's
  entries are ignored, and the payload in supervisor mode may read and write the data of machine mode.
\<close>

theorem protect_memory_locked_out:
  assumes "4 \<le> n" "read_csr PMPCFG0 s = 0" "pk_layout k j ftext fdata image_end"
    and "setup_pk_pmp n ftext fdata image_end s = Some s1" "s' = protect_memory n ftext image_end s1"
    and "fdata \<le> a" "a < image_end"
  shows "pmp_allows n Supervisor Load a s' \<and> pmp_allows n Supervisor Store a s'"
proof -
  obtain t where t: "setup_pk_pmp n ftext fdata image_end s = Some t"
    "pmp_cfg 0 t = 0x9D" "pmp_cfg (Suc 0) t = 0x9B" "pmp_cfg 2 t = 0x1F" "pmp_cfg 3 t = 0"
    "\<And>a. pmp_matches 0 a t \<longleftrightarrow> ftext \<le> a \<and> a < fdata"
    "\<And>a. pmp_matches (Suc 0) a t \<longleftrightarrow> fdata \<le> a \<and> a < image_end"
    "\<And>a. drop_bit 56 a = 0 \<Longrightarrow> pmp_matches 2 a t"
    by (rule setup_pk_pmp_runs [OF assms(1-3)]) (rule that)
  have "t = s1" using t(1) assms(4) by simp
  then show ?thesis
    using locked_data_open [OF assms(1) t(2,3), of a ftext image_end] t(6,7) [of a] assms(5-7) by (auto simp: not_less)
qed

end
