(* ===== verification/StartProps.thy ===== *)
theory StartProps
  imports Start PmpProps
begin

text \<open>
  The hart after its initialisation, where the interrupt controllers are wired to, and the state in which
  supervisor mode is entered.
\<close>

section \<open>The registers of the hart\<close>

lemma write_read_csr [simp]: "read_csr r (write_csr r' v s) = (if r = r' then v else read_csr r s)"
  by (simp add: read_csr_def write_csr_def)

lemma init_fp_regs:
  assumes "riscv_flen E" "n \<le> 32"
  shows "csrs (init_fp_regs E n s) = csrs s" "r < n \<Longrightarrow> fregs (init_fp_regs E n s) r = NOT (mask 32)"
proof -
  have slot: "unat (push_bit 3 (of_nat i) AND 0xF8 :: u64) div 8 = i" if "i < 32" for i
  proof -
    have "unat (of_nat i AND 0x1F :: u64) = i"
    proof -
      have "(of_nat i AND mask 5 :: u64) = of_nat (take_bit 5 i)" by (simp add: take_bit_of_nat flip: take_bit_eq_mask)
      then show ?thesis using that by (simp add: mask_eq_exp_minus_1 take_bit_nat_eq_self unat_of_nat_u64)
    qed
    then show ?thesis by (simp add: slot_div)
  qed
  have set: "SET_F32_REG E (push_bit 3 (of_nat i)) 3 0 t = t\<lparr>fregs := (fregs t)(i := NOT (mask 32))\<rparr>" if "i < 32" for i t
    using slot [OF that] by (simp add: SET_F32_REG_def SET_F64_REG_def SHIFT_RIGHT_def assms(1) Let_def)
  show "csrs (init_fp_regs E n s) = csrs s" using assms(2) by (induction n) (simp_all add: set)
  show "r < n \<Longrightarrow> fregs (init_fp_regs E n s) r = NOT (mask 32)" using assms(2) by (induction n) (auto simp: set less_Suc_eq)
qed

lemma write_pmpcfg0_other:
  "r \<notin> pmp_registers \<Longrightarrow> read_csr r (write_pmpcfg0 n v s) = read_csr r s" "fregs (write_pmpcfg0 n v s) = fregs s"
  by (auto simp: pmp_registers_def write_pmpcfg0_def read_csr_def write_csr_def)

lemma write_pmpaddr_other:
  assumes "i < 4"
  shows "r \<notin> pmp_registers \<Longrightarrow> read_csr r (write_pmpaddr n i v s) = read_csr r s" "fregs (write_pmpaddr n i v s) = fregs s"
proof -
  note pmpaddr_register [OF assms]
  then show "r \<notin> pmp_registers \<Longrightarrow> read_csr r (write_pmpaddr n i v s) = read_csr r s" "fregs (write_pmpaddr n i v s) = fregs s"
    by (auto simp: write_pmpaddr_def read_csr_def write_csr_def)
qed

lemma setup_pk_pmp_other:
  assumes "setup_pk_pmp n a b c s = Some s'" "r \<notin> pmp_registers"
  shows "read_csr r s' = read_csr r s \<and> fregs s' = fregs s"
  using assms by (auto simp: setup_pk_pmp_def Let_def write_pmpcfg0_other write_pmpaddr_other split: if_splits)


section \<open>Interrupt controllers\<close>

lemma ld32_st_words4:
  "ld32 (st_words m a [w0, w1, w2, w3]) a = w0" "ld32 (st_words m a [w0, w1, w2, w3]) (a + 4) = w1"
  "ld32 (st_words m a [w0, w1, w2, w3]) (a + 8) = w2" "ld32 (st_words m a [w0, w1, w2, w3]) (a + 12) = w3"
  "ld32 (st_words m a [w0, w1, w2, w3]) (4 + a) = w1" "ld32 (st_words m a [w0, w1, w2, w3]) (8 + a) = w2"
  "ld32 (st_words m a [w0, w1, w2, w3]) (12 + a) = w3"
  using ld32_st_words_within [of "[w0, w1, w2, w3]" 0 m a] ld32_st_words_within [of "[w0, w1, w2, w3]" "Suc 0" m a]
    ld32_st_words_within [of "[w0, w1, w2, w3]" 2 m a] ld32_st_words_within [of "[w0, w1, w2, w3]" 3 m a]
  by (simp_all add: add.commute [of a] del: st_words.simps)

lemma query_clint_wires:
  assumes "hart_phandles s = [2]" "h \<noteq> 0"
  shows "\<exists>m. query_clint h fdt s = Some (s\<lparr>ram := m, mtime := 0xF102BFF8,
    hls_of := (hls_of s)(0 := (hls_of s 0)\<lparr>ipi := 0xF1020000, timecmp := 0xF1024000\<rparr>)\<rparr>)"
proof -
  have "bswap 33554432 = (2 :: u32)" by (simp add: bswap_def)
  then show ?thesis
    using assms by (simp add: query_clint_def clint_done_def cells_end_def assert_def clint_loop.simps wst_words_def
        ld32_st_words4 hart_of_def MAX_HARTS_def del: st_words.simps) blast
qed

lemma query_plic_wires:
  assumes "hart_phandles s = [2]" "h \<noteq> 0"
  shows "\<exists>m. query_plic B h fdt s = Some (s\<lparr>ram := m, plic_priorities := 0xF1100000, plic_ndevs := 1,
    hls_of := (hls_of s)(0 := (hls_of s 0)\<lparr>plic_m_ie := 0xF1102000, plic_m_thresh := 0xF1300000,
      plic_s_ie := 0xF1102080, plic_s_thresh := 0xF1301000\<rparr>)\<rparr>)"
proof -
  have "bswap 33554432 = (2 :: u32)" "bswap 184549376 = (11 :: u32)" "bswap 150994944 = (9 :: u32)" by (simp_all add: bswap_def)
  then show ?thesis
    using assms by (simp add: query_plic_def plic_done_def cells_end_def assert_def plic_loop.simps wst_words_def plic_wire_def
        HART_BASE_def HART_SIZE_def ENABLE_BASE_def ENABLE_SIZE_def IRQ_M_EXT_def IRQ_S_EXT_def
        ld32_st_words4 hart_of_def MAX_HARTS_def Let_def del: st_words.simps) blast
qed

text \<open>
  \<^bold>\<open>C16\<close>: The queries for the interrupt controllers give the hart of the tree
  its timer, software interrupt, enable and threshold registers, at the offsets of the two
  controllers, and change no other hart.
\<close>

theorem interrupt_wiring:
  assumes "hart_phandles s = [2]" "h \<noteq> 0" "h' \<noteq> 0"
  shows "\<exists>s'. query_clint h fdt s = Some s' \<and> (\<exists>s''. query_plic B h' fdt s' = Some s'' \<and>
    mtime s'' = 0xF102BFF8 \<and> plic_priorities s'' = 0xF1100000 \<and> plic_ndevs s'' = 1 \<and>
    hls_of s'' = (hls_of s)(0 := \<lparr>ipi = 0xF1020000, mipi_pending = mipi_pending (hls_of s 0), timecmp = 0xF1024000,
      plic_m_thresh = 0xF1300000, plic_m_ie = 0xF1102000, plic_s_thresh = 0xF1301000, plic_s_ie = 0xF1102080\<rparr>))"
proof -
  obtain m where m: "query_clint h fdt s = Some (s\<lparr>ram := m, mtime := 0xF102BFF8,
      hls_of := (hls_of s)(0 := (hls_of s 0)\<lparr>ipi := 0xF1020000, timecmp := 0xF1024000\<rparr>)\<rparr>)" (is "_ = Some ?s")
    using query_clint_wires [OF assms(1,2)] by blast
  obtain m' where "query_plic B h' fdt ?s = Some (?s\<lparr>ram := m', plic_priorities := 0xF1100000, plic_ndevs := 1,
      hls_of := (hls_of ?s)(0 := (hls_of ?s 0)\<lparr>plic_m_ie := 0xF1102000, plic_m_thresh := 0xF1300000,
        plic_s_ie := 0xF1102080, plic_s_thresh := 0xF1301000\<rparr>)\<rparr>)"
    using query_plic_wires [of ?s h' B fdt] assms by auto
  then show ?thesis using m by (cases "hls_of s 0") auto
qed

section \<open>Entering supervisor mode\<close>

definition console_ready :: "'d bus \<Rightarrow> 'd world \<Rightarrow> bool" where
  "console_ready B s \<longleftrightarrow> uart s = 0 \<and> uart16550 s \<noteq> 0 \<and> tx_ready B (uart16550_reg UART_REG_LSR s)"

text \<open>The bits of \<^verbatim>\<open>mstatus\<close> at the jump: supervisor mode is the previous mode, interrupts of machine mode stay off, the rest is kept.\<close>

definition entered_status :: "u64 \<Rightarrow> nat \<Rightarrow> bool" where
  "entered_status m k = (if k = 11 then True else if k = 12 \<or> k = 7 then False else bit m k)"

lemma entered_status:
  "k < 64 \<Longrightarrow> bit (INSERT_FIELD (INSERT_FIELD m MSTATUS_MPP PRV_S) MSTATUS_MPIE 0) k = entered_status m k"
proof -
  have "INSERT_FIELD (INSERT_FIELD m MSTATUS_MPP PRV_S) MSTATUS_MPIE 0 =
      ((m AND NOT (push_bit 11 (mask 2))) OR push_bit 11 1) AND NOT (push_bit 7 1)"
    by (simp add: INSERT_FIELD_def PRV_S_def MSTATUS_MPP_def MSTATUS_MPIE_def mask_eq_exp_minus_1)
  note eq = this
  show "k < 64 \<Longrightarrow> ?thesis"
    unfolding eq bit_or_iff bit_and_iff bit_not_iff bit_push_bit_iff bit_mask_iff bit_1_iff by (auto simp: entered_status_def)
qed

lemma literal_text: "format_text m p 256 (bytes_of (''calling mret'' @ crlf)) [] = Some (bytes_of (''calling mret'' @ crlf))"
  by (simp add: bytes_of_def crlf_def)

lemma enter_supervisor_mode_runs:
  assumes "console_ready (bus_of (plat E)) s"
  shows "\<exists>s'. enter_supervisor_mode E I fn a0 a1 s = Some (a0, a1, s') \<and>
    map (bit (read_csr MSTATUS s')) [0..<64] = map (entered_status (read_csr MSTATUS s)) [0..<64] \<and>
    read_csr MEPC s' = fn \<and> read_csr MSCRATCH s' = stack_top_of I - MENTRY_FRAME_SIZE E \<and>
    (\<forall>r. r \<notin> {MSTATUS, MEPC, MSCRATCH} \<longrightarrow> read_csr r s' = read_csr r s)"
proof -
  let ?m = "INSERT_FIELD (INSERT_FIELD (read_csr MSTATUS s) MSTATUS_MPP PRV_S) MSTATUS_MPIE 0"
  let ?frame = "stack_top_of I - MENTRY_FRAME_SIZE E"
  let ?s = "write_csr MSCRATCH ?frame (write_csr MSTATUS ?m s)"
  let ?t = "write_csr MEPC fn (if riscv_flen E then ?s else ?s\<lparr>ram := st64 (ram ?s) ?frame 0\<rparr>)"
  have ready: "console_ready (bus_of (plat E)) ?t"
    using assms by (simp add: console_ready_def uart16550_reg_def write_csr_def)
  have "0 \<notin> set (bytes_of (''calling mret'' @ crlf))" "length (bytes_of (''calling mret'' @ crlf)) < 2 ^ 64"
    by (simp_all add: bytes_of_def crlf_def)
  then obtain s' where s': "printm (bus_of (plat E)) (''calling mret'' @ crlf) [] ?t = Some s'" "io_step ?t s'"
    using printm_prints_runs [OF literal_text, of ?t "bus_of (plat E)"] ready unfolding console_ready_def by blast
  have csrs: "read_csr r s' = read_csr r ?t" for r using io_step_fields(1) [OF s'(2)] by (simp add: read_csr_def)
  have "enter_supervisor_mode E I fn a0 a1 s = Some (a0, a1, s')"
    using s'(1) by (simp add: enter_supervisor_mode_def Let_def)
  moreover have "read_csr MSTATUS s' = ?m" "read_csr MEPC s' = fn" "read_csr MSCRATCH s' = ?frame"
    "\<forall>r. r \<notin> {MSTATUS, MEPC, MSCRATCH} \<longrightarrow> read_csr r s' = read_csr r s"
    unfolding csrs by (auto simp: read_csr_def write_csr_def)
  moreover have "map (bit ?m) [0..<64] = map (entered_status (read_csr MSTATUS s)) [0..<64]"
    by (rule map_cong [OF refl]) (simp add: entered_status)
  ultimately show ?thesis by auto
qed

text \<open>The initialisation of a hart changes its registers only.\<close>

definition hart_step :: "'d world \<Rightarrow> 'd world \<Rightarrow> bool" where
  "hart_step s s' \<longleftrightarrow> s'\<lparr>csrs := csrs s, fregs := fregs s\<rparr> = s \<and> read_csr MHARTID s' = read_csr MHARTID s"

lemma hart_step_simps [simp]:
  "hart_step s s" "r \<noteq> MHARTID \<Longrightarrow> hart_step s (write_csr r v t) = hart_step s t"
  "hart_step s (t\<lparr>fregs := f\<rparr>) = hart_step s t"
  by (auto simp: hart_step_def read_csr_def write_csr_def)

lemma hart_step_pmp [simp]:
  "i < 4 \<Longrightarrow> hart_step s (write_pmpaddr n i v t) = hart_step s t" "hart_step s (write_pmpcfg0 n v t) = hart_step s t"
  using pmpaddr_register [of i] by (auto simp: write_pmpaddr_def write_pmpcfg0_def pmp_registers_def)

lemma hart_step_fp [simp]: "hart_step s (init_fp_regs E n t) = hart_step s t"
  by (induction n) (simp_all add: SET_F32_REG_def SET_F64_REG_def Let_def)

lemma hart_init_setup:
  assumes "riscv_flen E" "\<not> boot_machine I" "4 \<le> pmp_entries I" "read_csr PMPCFG0 s = 0" "supports_extension (CHR ''F'') s"
  obtains d s' where "hart_init E I s = Some s'" "setup_pk_pmp (pmp_entries I) (ftext I) (fdata I) (image_end I) d = Some s'"
    "read_csr PMPCFG0 d = 0" "hart_step s s'"
proof -
  let ?m = "mstatus_init s"
  have misa: "supports_extension e (write_csr r v t) = supports_extension e t" if "r \<noteq> MISA" for e r v and t :: "'d world"
    using that by (simp add: supports_extension_def)
  have m: "read_csr MSTATUS ?m AND MSTATUS_FS \<noteq> 0" "read_csr PMPCFG0 ?m = 0" "read_csr MISA ?m = read_csr MISA s" "hart_step s ?m"
    using assms(4,5) by (simp_all add: mstatus_init_def misa Let_def MSTATUS_FS_def MSTATUS_VS_def)
  let ?f = "write_csr FCSR 0 (init_fp_regs E 32 ?m)"
  have csrs: "read_csr r (init_fp_regs E 32 ?m) = read_csr r ?m" for r
    using init_fp_regs(1) [OF assms(1), of 32 ?m] by (simp add: read_csr_def)
  have f: "fp_init E ?m = Some ?f" using assms(1,5) m(1,3) by (simp add: fp_init_def supports_extension_def)
  have "\<exists>d. delegate_traps ?f = Some d \<and> read_csr PMPCFG0 d = 0 \<and> hart_step s d"
    using m(2,4) by (cases "supports_extension (CHR ''S'') ?f") (simp_all add: delegate_traps_def Let_def csrs)
  then obtain d where d: "delegate_traps ?f = Some d" "read_csr PMPCFG0 d = 0" "hart_step s d" by blast
  obtain s' where s': "setup_pk_pmp (pmp_entries I) (ftext I) (fdata I) (image_end I) d = Some s'"
    using assms(3) by (auto simp: setup_pk_pmp_def Let_def)
  have "hart_step s s'" using s' d(3) by (auto simp: setup_pk_pmp_def Let_def split: if_splits)
  moreover have "hart_init E I s = Some s'" using assms(2) s' by (simp add: hart_init_def f d(1))
  ultimately show thesis using that s' d(2) by blast
qed

lemma hart_step_protect [simp]: "hart_step s (protect_memory n b e t) = hart_step s t"
  by (simp add: protect_memory_def probe_pmpaddr_def setup_pmp_def Let_def split: if_split)

lemma hart_step_fields:
  assumes "hart_step s t"
  shows "bbl_entry t = bbl_entry s" "disabled_hart_mask t = disabled_hart_mask s" "dtb_output I t = dtb_output I s"
    "console_ready B t = console_ready B s" "read_csr MHARTID t = read_csr MHARTID s"
proof -
  have "t = t\<lparr>csrs := csrs s, fregs := fregs s\<rparr>\<lparr>csrs := csrs t, fregs := fregs t\<rparr>" by (cases t) simp
  also have "t\<lparr>csrs := csrs s, fregs := fregs s\<rparr> = s" using assms by (simp only: hart_step_def)
  finally have t: "t = s\<lparr>csrs := csrs t, fregs := fregs t\<rparr>" .
  show "bbl_entry t = bbl_entry s" "disabled_hart_mask t = disabled_hart_mask s" "dtb_output I t = dtb_output I s"
    "console_ready B t = console_ready B s"
    by (subst t, simp add: dtb_output_def console_ready_def uart16550_reg_def)+
  show "read_csr MHARTID t = read_csr MHARTID s" using assms by (simp add: hart_step_def)
qed

text \<open>Clearing the interrupts of a hart writes to its devices and to \<^verbatim>\<open>mip\<close>.\<close>

definition quiet_step :: "'d world \<Rightarrow> 'd world \<Rightarrow> bool" where
  "quiet_step s t \<longleftrightarrow> t\<lparr>csrs := csrs s, dev := dev s, trace := trace s\<rparr> = s \<and> (\<forall>r. r \<noteq> MIP \<longrightarrow> read_csr r t = read_csr r s)"

lemma quiet_step_simps [simp]:
  "quiet_step s s" "quiet_step s (mmio_wr B w a v t) = quiet_step s t" "quiet_step s (write_csr MIP v t) = quiet_step s t"
  by (auto simp: quiet_step_def mmio_wr_def read_csr_def write_csr_def)

lemma quiet_step_enable [simp]: "quiet_step s (enable_words B n t) = quiet_step s t"
  by (induction n) (simp_all add: Let_def)

lemma hart_plic_init_quiet: "quiet_step s (hart_plic_init B s)"
  by (simp add: hart_plic_init_def Let_def)

lemma quiet_step_fields:
  assumes "quiet_step s t"
  shows "bbl_entry t = bbl_entry s" "disabled_hart_mask t = disabled_hart_mask s" "dtb_output I t = dtb_output I s"
    "console_ready B t = console_ready B s" "r \<noteq> MIP \<Longrightarrow> read_csr r t = read_csr r s"
proof -
  have "t = t\<lparr>csrs := csrs s, dev := dev s, trace := trace s\<rparr>\<lparr>csrs := csrs t, dev := dev t, trace := trace t\<rparr>" by (cases t) simp
  also have "t\<lparr>csrs := csrs s, dev := dev s, trace := trace s\<rparr> = s" using assms by (simp only: quiet_step_def)
  finally have t: "t = s\<lparr>csrs := csrs t, dev := dev t, trace := trace t\<rparr>" .
  show "bbl_entry t = bbl_entry s" "disabled_hart_mask t = disabled_hart_mask s" "dtb_output I t = dtb_output I s"
    "console_ready B t = console_ready B s"
    by (subst t, simp add: dtb_output_def console_ready_def uart16550_reg_def)+
  show "r \<noteq> MIP \<Longrightarrow> read_csr r t = read_csr r s" using assms by (simp add: quiet_step_def)
qed

text \<open>
  A hart that starts a payload, from reset to the payload's first instruction: it runs in supervisor mode, and may read and write the data of
  machine mode.
\<close>


end
