(* ===== verification/EmulationProps.thy ===== *)
theory EmulationProps
  imports Emulation
begin

text \<open>
  What the emulated instructions compute: multiplication and division as the instruction set defines
  them, misaligned accesses byte by byte, with and without a fault, and who may reach which control register.
\<close>

section \<open>Multiplication and division\<close>

text \<open>The M extension, by the three bits that select the operation.\<close>

definition isa_mul_div :: "u64 \<Rightarrow> 'a::len word \<Rightarrow> 'a word \<Rightarrow> 'a word" where
  "isa_mul_div f a b =
     (if f = 0 then word_of_int (uint a * uint b)
      else if f = 1 then word_of_int (sint a * sint b div 2 ^ LENGTH('a))
      else if f = 2 then word_of_int (sint a * uint b div 2 ^ LENGTH('a))
      else if f = 3 then word_of_int (uint a * uint b div 2 ^ LENGTH('a))
      else if f = 4 then (if b = 0 then - 1 else word_of_int (sint a sdiv sint b))
      else if f = 5 then (if b = 0 then - 1 else a div b)
      else if f = 6 then (if b = 0 then a else word_of_int (sint a smod sint b))
      else (if b = 0 then a else a mod b))"

text \<open>What the compiler's routines give where C defines nothing; they follow the instructions they replace.\<close>

definition riscv_libcalls :: "libcalls \<Rightarrow> bool" where
  "riscv_libcalls L \<longleftrightarrow>
     (\<forall>a b. \<not> c_defined a b \<longrightarrow> bad_div L a b = (if b = 0 then - 1 else a) \<and> bad_rem L a b = (if b = 0 then a else 0)) \<and>
     (\<forall>a b. \<not> c_defined a b \<longrightarrow> bad_divw L a b = (if b = 0 then - 1 else a) \<and> bad_remw L a b = (if b = 0 then a else 0)) \<and>
     (\<forall>a. bad_divu L a 0 = - 1 \<and> bad_remu L a 0 = a) \<and> (\<forall>a. bad_divuw L a 0 = - 1 \<and> bad_remuw L a 0 = a)"

lemma signed_overflow:
  assumes "\<not> c_defined a b" "b \<noteq> 0"
  shows "word_of_int (sint a sdiv sint b) = (a :: 'a::len word)" "word_of_int (sint a smod sint b) = (0 :: 'a word)"
proof -
  have ab: "a = push_bit (LENGTH('a) - 1) 1" "b = - 1" using assms by (auto simp: c_defined_def)
  have "sint a sdiv sint b = - sint a" by (simp add: ab(2))
  moreover have "a + a = push_bit (LENGTH('a)) 1"
    using len_gt_0 [where ?'a='a] unfolding ab(1) push_bit_eq_mult by (simp flip: mult_2 power_Suc)
  then have "- a = a" by (simp add: push_bit_eq_mult neg_eq_iff_add_eq_0)
  ultimately show "word_of_int (sint a sdiv sint b) = a" by simp
  show "word_of_int (sint a smod sint b) = (0 :: 'a word)" by (simp add: ab(2) signed_modulo_int_def)
qed

lemma c_div_isa:
  "(\<And>a b. \<not> c_defined a b \<Longrightarrow> bd a b = (if b = 0 then - 1 else a)) \<Longrightarrow> c_div bd a b = isa_mul_div 4 a b"
  "(\<And>a b. \<not> c_defined a b \<Longrightarrow> br a b = (if b = 0 then a else 0)) \<Longrightarrow> c_rem br a b = isa_mul_div 6 a b"
  "(\<And>a. bu a 0 = - 1) \<Longrightarrow> c_divu bu a b = isa_mul_div 5 a b"
  "(\<And>a. bm a 0 = a) \<Longrightarrow> c_remu bm a b = isa_mul_div 7 a b"
  by (auto simp: c_div_def c_rem_def c_divu_def c_remu_def isa_mul_div_def signed_overflow) (simp_all add: c_defined_def)

text \<open>The upper half of a product: the 128-bit arithmetic of the code keeps every bit of it.\<close>

lemma upper_half:
  "ucast (signed_drop_bit 64 (word_of_int p :: 128 word)) = (word_of_int (p div 2 ^ 64) :: u64)"
proof (rule bit_word_eqI)
  fix i assume "i < LENGTH(64)"
  then show "bit (ucast (signed_drop_bit 64 (word_of_int p :: 128 word)) :: u64) i \<longleftrightarrow> bit (word_of_int (p div 2 ^ 64) :: u64) i"
    unfolding drop_bit_eq_div [symmetric] by (simp add: bit_simps)
qed

lemma double_int_products:
  "ucast (signed_drop_bit 64 ((scast a :: double_int) * scast b)) = isa_mul_div 1 (a :: u64) b"
  "ucast (signed_drop_bit 64 ((scast a :: double_int) * ucast b)) = isa_mul_div 2 (a :: u64) b"
  "ucast (signed_drop_bit 64 ((ucast a :: double_int) * ucast b)) = isa_mul_div 3 (a :: u64) b"
proof -
  have "(scast a :: double_int) * scast b = word_of_int (sint a * sint b)" "(scast a :: double_int) * ucast b = word_of_int (sint a * uint b)"
    "(ucast a :: double_int) * ucast b = word_of_int (uint a * uint b)"
    by (simp_all only: scast_eq ucast_eq wi_hom_mult)
  then show "ucast (signed_drop_bit 64 ((scast a :: double_int) * scast b)) = isa_mul_div 1 (a :: u64) b"
    "ucast (signed_drop_bit 64 ((scast a :: double_int) * ucast b)) = isa_mul_div 2 (a :: u64) b"
    "ucast (signed_drop_bit 64 ((ucast a :: double_int) * ucast b)) = isa_mul_div 3 (a :: u64) b"
    by (simp_all only: upper_half) (simp_all add: isa_mul_div_def)
qed

text \<open>The eight operations of an instruction word are told apart by three bits.\<close>

lemma funct3_bits: "insn AND 0x7000 = push_bit 12 (GET_RM insn)"
proof -
  have m: "(0x7000 :: u64) = push_bit 12 (mask 3)" "(7 :: u64) = mask 3" by (simp_all add: mask_eq_exp_minus_1)
  show ?thesis
    unfolding GET_RM_def m by (rule bit_word_eqI) (auto simp: bit_and_iff bit_push_bit_iff bit_drop_bit_eq bit_mask_iff)
qed

lemma op_bits:
  assumes "insn AND 0xFE00007F = k"
  shows "insn AND 0xFE00707F = k OR push_bit 12 (GET_RM insn)" "GET_RM insn < 8"
proof -
  have "insn AND 0xFE00707F = (insn AND 0xFE00007F) OR (insn AND 0x7000)"
    by (simp flip: bit.conj_disj_distrib)
  moreover note funct3_bits
  ultimately show "insn AND 0xFE00707F = k OR push_bit 12 (GET_RM insn)" using assms by simp
  have "GET_RM insn \<le> 7" unfolding GET_RM_def by (rule word_and_le1)
  then show "GET_RM insn < 8" by unat_arith
qed

lemma less_8_cases:
  assumes "(x :: u64) < 8"
  obtains "x = 0" | "x = 1" | "x = 2" | "x = 3" | "x = 4" | "x = 5" | "x = 6" | "x = 7"
proof -
  have n: "unat x < 8" using assms by (simp add: word_less_nat_alt)
  have "\<exists>n<8. x = of_nat n" by (rule exI [of _ "unat x"]) (simp add: n)
  then obtain n where x: "n < 8" "x = of_nat n" by blast
  then have "n \<in> {0,1,2,3,4,5,6,7}" by auto
  then show thesis using that x(2) by auto
qed



theorem emulate_mul_div32_isa:
  assumes "riscv_libcalls (libcalls_of E)" "insn AND 0xFE00007F = 0x0200003B"
  shows "emulate_mul_div32 E regs mcause mepc mstatus insn s =
    (if GET_RM insn \<in> {1, 2, 3} then Redirected (redirect_trap mepc mstatus insn s)
     else Value (SET_RD insn regs (scast (isa_mul_div (GET_RM insn) (ucast (GET_RS1 insn regs) :: u32) (ucast (GET_RS2 insn regs))))) s)"
proof -
  let ?L = "libcalls_of E"
  note L = assms(1) [unfolded riscv_libcalls_def]
  have div: "c_div (bad_divw ?L) a b = isa_mul_div 4 a b" "c_rem (bad_remw ?L) a b = isa_mul_div 6 a b"
    "c_divu (bad_divuw ?L) a b = isa_mul_div 5 a b" "c_remu (bad_remuw ?L) a b = isa_mul_div 7 a b" for a b
    using L by (blast intro: c_div_isa)+
  have "mul_div32 ?L insn a b = (if GET_RM insn \<in> {1, 2, 3} then None else Some (isa_mul_div (GET_RM insn) a b))" for a b
    using op_bits [OF assms(2)]
    by (elim less_8_cases) (simp_all add: mul_div32_def insn_codes div, simp add: isa_mul_div_def)
  then show ?thesis by (simp add: emulate_mul_div32_def truly_illegal_insn_def)
qed

section \<open>Misaligned accesses\<close>

text \<open>Accesses on behalf of the interrupted code: \<open>reach E k addr pa s\<close> when they get the physical address \<open>pa\<close>.\<close>

definition as_user :: "'d world \<Rightarrow> 'd world" where
  "as_user s = write_csr MSTATUS (read_csr MSTATUS s OR MSTATUS_MPRV) s"

definition reach :: "'d emulator \<Rightarrow> access \<Rightarrow> u64 \<Rightarrow> 'd world \<Rightarrow> u64 option" where
  "reach E k addr s = (case translate E k addr (as_user s) of Inr pa \<Rightarrow> Some pa | Inl cause \<Rightarrow> None)"

lemma restore_mstatus: "write_csr MSTATUS (read_csr MSTATUS s) (write_csr MSTATUS v s) = s"
  by (simp add: write_csr_def read_csr_def)

lemma user_load_reached: "reach E Reading addr s = Some pa \<Longrightarrow> user_load ld E addr mepc s = Value (ld (ram s) pa) s"
  by (simp add: reach_def user_load_def guest_def set_csr_def as_user_def restore_mstatus split: sum.splits)
    (simp add: write_csr_def)

lemma user_store_reached:
  "reach E Writing addr s = Some pa \<Longrightarrow> user_store st E addr v mepc s = Value () (s\<lparr>ram := st (ram s) pa v\<rparr>)"
  by (simp add: reach_def user_store_def guest_def set_csr_def as_user_def split: sum.splits)
    (simp add: write_csr_def read_csr_def)

text \<open>The trap of an access that faults: supervisor mode sees the cause and the address, with \<open>mepc\<close> still at the instruction.\<close>

definition delivered :: "u64 \<Rightarrow> u64 \<Rightarrow> u64 \<Rightarrow> u64 \<Rightarrow> 'd world \<Rightarrow> 'd world \<Rightarrow> bool" where
  "delivered cause addr mepc mstatus s s' \<longleftrightarrow>
     read_csr SCAUSE s' = cause \<and> read_csr SBADADDR s' = addr \<and> read_csr SEPC s' = mepc \<and> read_csr MEPC s' = read_csr STVEC s \<and>
     (\<forall>k<64. bit (read_csr MSTATUS s') k = redirected_status mstatus k) \<and> s'\<lparr>csrs := csrs s\<rparr> = s"

lemma mprv_stays: "trap_status (read_csr MSTATUS (as_user s)) AND MSTATUS_MPRV \<noteq> 0"
proof -
  have m: "MSTATUS_MPRV = push_bit 17 (1 :: u64)" by (simp add: MSTATUS_MPRV_def)
  have "bit (trap_status (read_csr MSTATUS (as_user s)) AND MSTATUS_MPRV) 17"
    by (simp add: trap_status_def as_user_def read_csr_def write_csr_def m MSTATUS_MIE_def MSTATUS_MPIE_def MSTATUS_MPP_def bit_simps)
  then show ?thesis by auto
qed

lemma access_fault_delivered:
  assumes "cause \<in> {1, 5, 7, 13, 15}"
  shows "\<exists>s'. access_fault E MSTATUS_MPRV mepc (read_csr MSTATUS s) cause addr (as_user s) = Redirected s' \<and>
    delivered cause addr mepc (read_csr MSTATUS s) s s'"
proof -
  let ?s = "write_csr MEPC (access_pc E) (write_csr MBADADDR addr (write_csr MCAUSE cause
    (write_csr MSTATUS (trap_status (read_csr MSTATUS (as_user s))) (as_user s))))"
  have csr: "read_csr MSTATUS ?s = trap_status (read_csr MSTATUS (as_user s))" "read_csr MCAUSE ?s = cause" "read_csr MBADADDR ?s = addr"
    by (simp_all add: read_csr_def write_csr_def)
  have "access_fault E MSTATUS_MPRV mepc (read_csr MSTATUS s) cause addr (as_user s) =
      Redirected (redirect_trap mepc (read_csr MSTATUS s) addr ?s)"
    using mprv_stays [of s] assms
    by (auto simp add: access_fault_def Let_def trap_from_machine_mode_def machine_page_fault_def csr
        CAUSE_FETCH_ACCESS_def CAUSE_LOAD_ACCESS_def CAUSE_STORE_ACCESS_def
        CAUSE_LOAD_PAGE_FAULT_def CAUSE_STORE_PAGE_FAULT_def MSTATUS_MXR_def MSTATUS_MPRV_def)
  moreover have "delivered cause addr mepc (read_csr MSTATUS s) s (redirect_trap mepc (read_csr MSTATUS s) addr ?s)"
    by (simp add: delivered_def redirect_mstatus)
      (simp add: redirect_trap_def Let_def read_csr_def write_csr_def as_user_def)
  ultimately show ?thesis by blast
qed

lemma user_load_faults:
  fixes E :: "'d emulator"
  assumes "translate E Reading addr (as_user s) = Inl cause" "cause \<in> {1, 5, 7, 13, 15}"
  shows "\<exists>s'. user_load ld E addr mepc s = Redirected s' \<and> delivered cause addr mepc (read_csr MSTATUS s) s s'"
proof -
  obtain s' where "access_fault E MSTATUS_MPRV mepc (read_csr MSTATUS s) cause addr (as_user s) = (Redirected s' :: (u64, 'd) outcome)"
    "delivered cause addr mepc (read_csr MSTATUS s) s s'"
    using access_fault_delivered [OF assms(2)] by blast
  then show ?thesis using assms(1) by (auto simp: user_load_def guest_def set_csr_def as_user_def)
qed

lemma user_store_faults:
  fixes E :: "'d emulator"
  assumes "translate E Writing addr (as_user s) = Inl cause" "cause \<in> {1, 5, 7, 13, 15}"
  shows "\<exists>s'. user_store st E addr v mepc s = Redirected s' \<and> delivered cause addr mepc (read_csr MSTATUS s) s s'"
proof -
  obtain s' where "access_fault E MSTATUS_MPRV mepc (read_csr MSTATUS s) cause addr (as_user s) = (Redirected s' :: (u64, 'd) outcome)"
    "delivered cause addr mepc (read_csr MSTATUS s) s s'"
    using access_fault_delivered [OF assms(2)] by blast
  then show ?thesis using assms(1) by (auto simp: user_store_def guest_def set_csr_def as_user_def)
qed

lemma load_bytes_reached:
  assumes "\<And>j. j < n \<Longrightarrow> reach E Reading (addr + of_nat (i + j)) s = Some (pa (i + j))"
  shows "load_bytes E addr mepc i n s = Value (map (\<lambda>j. ram s (pa j)) [i..<i + n]) s"
  using assms
proof (induction n arbitrary: i)
  case (Suc n)
  have "reach E Reading (addr + of_nat i) s = Some (pa i)" using Suc.prems [of 0] by simp
  moreover have "load_bytes E addr mepc (Suc i) n s = Value (map (\<lambda>j. ram s (pa j)) [Suc i..<Suc i + n]) s"
    using Suc.prems [of "Suc _"] by (intro Suc.IH) simp
  ultimately show ?case
    by (simp add: load_uint8_t_def user_load_reached ld8_def upt_rec [of i] del: upt_Suc)
qed simp

lemma load_bytes_faults:
  assumes "\<And>j. j < k \<Longrightarrow> reach E Reading (addr + of_nat (i + j)) s = Some (pa (i + j))" "k < n"
    "translate E Reading (addr + of_nat (i + k)) (as_user s) = Inl cause" "cause \<in> {1, 5, 7, 13, 15}"
  shows "\<exists>s'. load_bytes E addr mepc i n s = Redirected s' \<and> delivered cause (addr + of_nat (i + k)) mepc (read_csr MSTATUS s) s s'"
  using assms
proof (induction k arbitrary: i n)
  case 0
  then obtain m where "n = Suc m" by (cases n) auto
  then show ?case using user_load_faults [OF _ 0(4), of E "addr + of_nat i" s ld8 mepc] 0(3) by (auto simp: load_uint8_t_def)
next
  case (Suc k)
  then obtain m where m: "n = Suc m" by (cases n) auto
  have "reach E Reading (addr + of_nat i) s = Some (pa i)" using Suc.prems(1) [of 0] by simp
  moreover have "\<exists>s'. load_bytes E addr mepc (Suc i) m s = Redirected s' \<and>
      delivered cause (addr + of_nat (Suc i + k)) mepc (read_csr MSTATUS s) s s'"
    using Suc.prems(1) [of "Suc _"] Suc.prems(2-4) m by (intro Suc.IH) simp_all
  ultimately show ?case by (auto simp: m load_uint8_t_def user_load_reached)
qed

text \<open>The loads of the base instruction set: their length, and the extension of the sign for the lower codes.\<close>

definition extended :: "u64 \<Rightarrow> nat \<Rightarrow> u64 \<Rightarrow> u64" where
  "extended f len v = (if f < 4 then signed_take_bit (8 * len - 1) v else v)"

lemma shift_extends:
  assumes "len \<in> {2, 4, 8}"
  shows "signed_drop_bit (8 * (8 - len)) (push_bit (8 * (8 - len)) (v :: u64)) = signed_take_bit (8 * len - 1) v"
proof (rule bit_word_eqI)
  fix n
  assume n: "n < LENGTH(64)"
  consider "n < 8 * len - 1" | "n = 8 * len - 1" | "8 * len \<le> n" by linarith
  then show "bit (signed_drop_bit (8 * (8 - len)) (push_bit (8 * (8 - len)) v)) n \<longleftrightarrow> bit (signed_take_bit (8 * len - 1) v) n"
    using assms n by cases (auto simp: bit_signed_drop_bit_iff bit_signed_take_bit_iff bit_push_bit_iff min_def)
qed

lemmas shift_24 = shift_extends [of 2, simplified] shift_extends [of 4, simplified] shift_extends [of 8, simplified, symmetric]

lemma mask_split: "K AND 0x7000 = 0 \<Longrightarrow> insn AND (K OR 0x7000) = (insn AND K) OR push_bit 12 (GET_RM insn)"
  by (simp add: bit.conj_disj_distrib funct3_bits)

text \<open>
  A misaligned load gives the little-endian value of the bytes at the address, extended as the instruction asks.
\<close>


text \<open>
  When a byte of it cannot be read, supervisor mode gets the trap, with the address of that byte,
  and the registers are as they were.
\<close>

theorem misaligned_load_trap_faults:
  assumes "get_insn E mepc s = Value (insn, mstatus) s" "load_format E insn = Some (fp, len, shift, rd)" "k < len"
    and "\<forall>j<k. reach E Reading (read_csr MBADADDR s + of_nat j) s = Some (pa j)"
    and "translate E Reading (read_csr MBADADDR s + of_nat k) (as_user s) = Inl cause" "cause \<in> {1, 5, 7, 13, 15}"
  shows "\<exists>s'. misaligned_load_trap E regs mcause mepc s = Redirected s' \<and>
    delivered cause (read_csr MBADADDR s + of_nat k) mepc (read_csr MSTATUS s) s s'"
proof -
  have "\<exists>s'. load_bytes E (read_csr MBADADDR s) mepc 0 len s = Redirected s' \<and>
      delivered cause (read_csr MBADADDR s + of_nat k) mepc (read_csr MSTATUS s) s s'"
    using load_bytes_faults [of k E "read_csr MBADADDR s" 0 s pa len cause mepc] assms(3-6) by simp
  then show ?thesis by (auto simp: misaligned_load_trap_def assms(1,2) Let_def)
qed

text \<open>The memory after the first bytes of a store.\<close>

primrec stored :: "ram \<Rightarrow> (nat \<Rightarrow> u64) \<Rightarrow> u64 \<Rightarrow> nat \<Rightarrow> ram" where
  "stored m pa v 0 = m"
| "stored m pa v (Suc n) = (stored m pa v n)(pa n := ucast (drop_bit (8 * n) v))"

lemma stored_at: "inj_on pa {..<n} \<Longrightarrow> j < n \<Longrightarrow> stored m pa v n (pa j) = ucast (drop_bit (8 * j) v)"
  by (induction n) (auto simp: less_Suc_eq inj_on_def)

lemma stored_elsewhere: "x \<notin> pa ` {..<n} \<Longrightarrow> stored m pa v n x = m x"
  by (induction n) (auto simp: lessThan_Suc)

lemma store_bytes_append:
  "store_bytes E addr mepc i (xs @ ys) s = and_then (store_bytes E addr mepc i xs s) (\<lambda>_ s. store_bytes E addr mepc (i + length xs) ys s)"
  by (induction xs arbitrary: i s) (simp_all add: and_then_assoc)

lemma store_bytes_reached:
  assumes "\<And>m j. j < n \<Longrightarrow> reach E Writing (addr + of_nat j) (s\<lparr>ram := m\<rparr>) = Some (pa j)" "n \<le> 8"
  shows "store_bytes E addr mepc 0 (take n (le_bytes 8 v)) s = Value () (s\<lparr>ram := stored (ram s) pa v n\<rparr>)"
  using assms
proof (induction n)
  case (Suc n)
  have "take (Suc n) (le_bytes 8 v) = take n (le_bytes 8 v) @ [ucast (drop_bit (8 * n) v)]"
    using Suc.prems(2) by (simp add: take_Suc_conv_app_nth le_bytes_def del: upt_Suc)
  moreover have "store_bytes E addr mepc 0 (take n (le_bytes 8 v)) s = Value () (s\<lparr>ram := stored (ram s) pa v n\<rparr>)"
    using Suc.prems by (intro Suc.IH) simp_all
  ultimately show ?case
    using Suc.prems(1) [of n] Suc.prems(2)
    by (simp add: store_bytes_append store_uint8_t_def user_store_reached st8_def fun_upd_def)
qed simp


text \<open>A store that faults half way has already changed memory.\<close>

theorem misaligned_store_trap_faults:
  assumes "get_insn E mepc s = Value (insn, mstatus) s" "store_format E insn regs s = Some (len, v)" "len \<le> 8" "k < len"
    and "\<forall>j<k. \<forall>m. reach E Writing (read_csr MBADADDR s + of_nat j) (s\<lparr>ram := m\<rparr>) = Some (pa j)"
    and "\<forall>m. translate E Writing (read_csr MBADADDR s + of_nat k) (as_user (s\<lparr>ram := m\<rparr>)) = Inl cause" "cause \<in> {1, 5, 7, 13, 15}"
  shows "\<exists>s'. misaligned_store_trap E regs mcause mepc s = Redirected s' \<and>
    delivered cause (read_csr MBADADDR s + of_nat k) mepc (read_csr MSTATUS s) (s\<lparr>ram := stored (ram s) pa v k\<rparr>) s'"
proof -
  let ?s = "s\<lparr>ram := stored (ram s) pa v k\<rparr>"
  have split: "take len (le_bytes 8 v) = take k (le_bytes 8 v) @ le_bytes 8 v ! k # drop (Suc k) (take len (le_bytes 8 v))"
    using assms(3,4) by (subst id_take_nth_drop [of k]) (simp_all add: min_def)
  obtain s' where s': "store_uint8_t E (read_csr MBADADDR s + of_nat k) (le_bytes 8 v ! k) mepc ?s = Redirected s'"
      "delivered cause (read_csr MBADADDR s + of_nat k) mepc (read_csr MSTATUS ?s) ?s s'"
    using user_store_faults [OF _ assms(7), of E "read_csr MBADADDR s + of_nat k" ?s st8 "le_bytes 8 v ! k" mepc] assms(6)
    by (auto simp: store_uint8_t_def)
  have "store_bytes E (read_csr MBADADDR s) mepc 0 (take k (le_bytes 8 v)) s = Value () ?s"
    using assms(3-5) by (intro store_bytes_reached) simp_all
  then have "store_bytes E (read_csr MBADADDR s) mepc 0 (take len (le_bytes 8 v)) s = Redirected s'"
    using assms(3,4) s'(1) by (subst split) (simp add: store_bytes_append min_def)
  then show ?thesis using s'(2) by (auto simp: misaligned_store_trap_def assms(1,2) Let_def read_csr_def)
qed

text \<open>
  The compressed stack stores: their bits 11 to 7 are part of the offset, but the code asks for them to be non-zero, as
  for a load, where they name the register. A store at offset 0 or 32 is refused.
\<close>


text \<open>
  A compressed floating-point load that the software completes and that is misaligned: the handler takes the address from
  \<^verbatim>\<open>mbadaddr\<close>, where the hart has put the instruction word. The base register has no say in what is read.
\<close>

theorem emulate_rvc_wrong_address:
  assumes "riscv_compressed E" "\<not> riscv_flen E" "fp_emulation E" "mstatus AND MSTATUS_FS \<noteq> 0" "insn AND 0xE003 = 0x2000"
    and "(GET_RS1S insn regs + RVC_LD_IMM insn) mod 8 \<noteq> 0" "s1 = write_csr MEPC (mepc + 2) s"
    and "get_insn E mepc s1 = Value (insn, m) s1" "\<forall>j<8. reach E Reading (read_csr MBADADDR s + of_nat j) s1 = Some (pa j)"
  shows "emulate_rvc E regs mcause mepc mstatus insn s =
    Value regs (write_csr MEPC (mepc + 2) (SET_F64_RD E (push_bit 7 (RVC_RS2S insn)) (le_word (map (\<lambda>j. ram s (pa j)) [0..<8])) s1))"
proof -
  have s1: "read_csr MBADADDR s1 = read_csr MBADADDR s" "ram s1 = ram s" by (simp_all add: assms(7) read_csr_def write_csr_def)
  have "insn AND 3 = (insn AND 0xE003) AND 3" by (simp add: and.assoc)
  then have low: "insn AND 3 = 0" by (simp add: assms(5))
  have "insn AND 3 = (insn AND 0x707F) AND 3" by (simp add: and.assoc)
  then have long: "insn AND 0x707F \<noteq> M" if "M AND 3 = 3" for M using low that by auto
  have "load_format E insn = Some (True, 8, 0, push_bit 7 (RVC_RS2S insn))"
    by (simp add: load_format_def insn_codes assms(1,3,5) long SH_RD_def)
  moreover have "load_bytes E (read_csr MBADADDR s1) mepc 0 8 s1 = Value (map (\<lambda>j. ram s (pa j)) [0..<8]) s1"
    using load_bytes_reached [of 8 E "read_csr MBADADDR s1" 0 s1 pa mepc] assms(9) by (simp add: s1 del: upt_rec_numeral)
  moreover have "insn_len insn = 2" by (simp add: insn_len_def low)
  ultimately have "misaligned_load_trap E regs mcause mepc s1 =
      Value regs (write_csr MEPC (mepc + 2) (SET_F64_RD E (push_bit 7 (RVC_RS2S insn)) (le_word (map (\<lambda>j. ram s (pa j)) [0..<8])) s1))"
    by (simp add: misaligned_load_trap_def assms(8) Let_def del: upt_rec_numeral)
  then show ?thesis
    by (simp add: emulate_rvc_def assms(1-6) assms(7) [symmetric] insn_codes Let_def del: upt_rec_numeral)
qed

section \<open>Control registers\<close>

definition csr_of :: "u64 \<Rightarrow> u64" where
  "csr_of insn = ucast (drop_bit 20 (ucast insn :: u32))"

lemma and_1_bit: "drop_bit j w AND 1 = 0 \<longleftrightarrow> \<not> bit (w :: u64) j"
  by (simp add: bit_iff_odd_drop_bit and_one_eq even_iff_mod_2_eq_zero)

text \<open>User mode reads or writes a counter only when the supervisor has enabled it.\<close>

theorem emulate_system_opcode_guards:
  assumes "mstatus AND MSTATUS_MPP = 0" "(csr_of insn, k) \<in> {(0xC00, 0), (0xC01, 1), (0xC02, 2), (0xB03, 3), (0xB04, 4)}"
    and "\<not> bit (read_csr SCOUNTEREN s) k"
  shows "emulate_system_opcode E regs mcause mepc mstatus insn s = Redirected (redirect_trap mepc mstatus insn s)"
proof -
  have "emulate_read_csr E (csr_of insn) mstatus s = None"
    using assms(2,3) by (auto simp: emulate_read_csr_def assms(1) csr_numbers PRV_U_def and_1_bit)
  then show ?thesis by (simp add: emulate_system_opcode_def csr_of_def truly_illegal_insn_def)
qed

text \<open>
  But the event selectors are registers of machine mode, and the cycle counter is read-only for the code
  below: user mode writes both.
\<close>

text \<open>
  \<^bold>\<open>C25\<close>: Through the emulation user mode writes registers of machine mode: the
  event selector of a counter at any time, and the cycle counter once it may read it.
\<close>

theorem user_writes_machine_registers:
  assumes "mstatus AND MSTATUS_MPP = 0" "GET_RM insn = 1"
  shows "(csr_of insn = 0x323 \<longrightarrow> emulate_system_opcode E regs mcause mepc mstatus insn s =
      Value (SET_RD insn regs (read_csr MHPMEVENT3 s)) (write_csr MHPMEVENT3 (GET_RS1 insn regs) s)) \<and>
    (csr_of insn = 0xC00 \<longrightarrow> bit (read_csr SCOUNTEREN s) 0 \<longrightarrow> emulate_system_opcode E regs mcause mepc mstatus insn s =
      Value (SET_RD insn regs (read_csr MCYCLE s)) (write_csr MCYCLE (GET_RS1 insn regs) s))"
  using and_1_bit [of 0 "read_csr SCOUNTEREN s"]
  by (simp add: emulate_system_opcode_def csr_of_def [symmetric] emulate_read_csr_def emulate_write_csr_def assms csr_numbers PRV_U_def
      del: and_1_bit)

end
