(* ===== verification/Loader.thy ===== *)
theory Loader
  imports Traps Start
begin

text \<open>
  The start of the proxy kernel (\<^verbatim>\<open>src/pk/pk/pk.c\<close>) and its program loader (\<^verbatim>\<open>src/pk/pk/elf.c\<close>). The
  program is linked into the kernel; \<open>elf\<close> is the address of its image. The user stack and the segments are
  written at the addresses that the program will see.
\<close>

section \<open>Options\<close>

definition print_help :: "'d platform \<Rightarrow> frame \<Rightarrow> 'd world \<Rightarrow> 'd world option" where
  "print_help P F s = do {
     s \<leftarrow> printk P F (''Proxy kernel'' @ [CHR 0x0A, CHR 0x0A]) [] s;
     s \<leftarrow> printk P F (''usage: pk [pk options] <user program> [program options]'' @ [CHR 0x0A]) [] s;
     s \<leftarrow> printk P F (''Options:'' @ [CHR 0x0A]) [] s;
     s \<leftarrow> printk P F (''  -h, --help            Print this help message'' @ [CHR 0x0A]) [] s;
     s \<leftarrow> printk P F (''  -p                    Disable on-demand program paging'' @ [CHR 0x0A]) [] s;
     s \<leftarrow> printk P F (''  -s                    Print cycles upon termination'' @ [CHR 0x0A]) [] s;
     shutdown P 0 s }"

definition suggest_help :: "'d platform \<Rightarrow> frame \<Rightarrow> 'd world \<Rightarrow> 'd world option" where
  "suggest_help P F s = do {
     s \<leftarrow> printk P F (''Try '' @ [CHR 0x27] @ ''pk --help'' @ [CHR 0x27] @ '' for more information.'' @ [CHR 0x0A]) [] s;
     shutdown P 1 s }"

definition handle_option :: "'d platform \<Rightarrow> frame \<Rightarrow> u64 \<Rightarrow> 'd world \<Rightarrow> 'd world option" where
  "handle_option P F arg s =
     (if strcmp_lit (ram s) arg ''-h'' = 0 \<or> strcmp_lit (ram s) arg ''--help'' = 0 then print_help P F s
      else if strcmp_lit (ram s) arg ''-s'' = 0 then
        printk P F (''The '' @ [CHR 0x27] @ ''s'' @ [CHR 0x27] @ '' flag is not supported in the competition'' @ [CHR 0x0A]) [] s
      else if strcmp_lit (ram s) arg ''-p'' = 0 then Some (s\<lparr>pkv := (pkv s)\<lparr>demand_paging := 0\<rparr>\<rparr>)
      else do { s \<leftarrow> panic P F (''unrecognized option: `%s'' @ [CHR 0x27]) [arg] s; suggest_help P F s })"

definition MAX_ARGS :: u64 where "MAX_ARGS = 256"
definition SYS_getmainvars :: u64 where "SYS_getmainvars = 2011"

text \<open>The argument strings lie behind the count; \<open>pk_argv\<close> is the address of the first pointer.\<close>

partial_function (option) skip_options :: "'d platform \<Rightarrow> frame \<Rightarrow> u64 \<Rightarrow> u64 \<Rightarrow> u64 \<Rightarrow> 'd world \<Rightarrow> (u64 \<times> 'd world) option" where
  "skip_options P F pk_argv pk_argc arg s =
     (if arg < pk_argc \<and> ld8 (ram s) (ld64 (ram s) (pk_argv + 8 * arg)) = of_char (CHR ''-'')
      then do { s \<leftarrow> handle_option P F (ld64 (ram s) (pk_argv + 8 * arg)) s; skip_options P F pk_argv pk_argc (arg + 1) s }
      else Some (arg, s))"

partial_function (option) copy_args :: "u64 \<Rightarrow> u64 \<Rightarrow> u64 \<Rightarrow> u64 \<Rightarrow> u64 \<Rightarrow> 'd world \<Rightarrow> 'd world option" where
  "copy_args args pk_argv pk_argc arg i s =
     (if arg + i < pk_argc
      then copy_args args pk_argv pk_argc arg (i + 1)
             (s\<lparr>ram := st64 (ram s) (args + 8 * i) (ld64 (ram s) (pk_argv + 8 * (arg + i)))\<rparr>)
      else Some s)"

definition parse_args :: "'d platform \<Rightarrow> frame \<Rightarrow> u64 \<Rightarrow> 'd world \<Rightarrow> (u64 \<times> 'd world) option" where
  "parse_args P F args s = do {
     (r, s) \<leftarrow> frontend_syscall P SYS_getmainvars (va2pa args s) (8 * MAX_ARGS) 0 0 0 0 0 s;
     s \<leftarrow> (if r \<noteq> 0 then panic P F ''args must not exceed %d bytes'' [8 * MAX_ARGS] s else Some s);
     kassert (r = 0);
     let pk_argv = args + 8;
     let pk_argc = ld64 (ram s) args;
     (arg, s) \<leftarrow> skip_options P F pk_argv pk_argc 1 s;
     s \<leftarrow> copy_args args pk_argv pk_argc arg 0 s;
     Some (pk_argc - arg, s) }"

section \<open>Starting the program\<close>

definition SSTATUS_SIE :: u64 where "SSTATUS_SIE = 0x2"
definition SSTATUS_SPIE :: u64 where "SSTATUS_SPIE = 0x20"
definition SSTATUS_FS :: u64 where "SSTATUS_FS = 0x6000"
definition SSTATUS_VS :: u64 where "SSTATUS_VS = 0x01800000"
definition SSTATUS_SUM :: u64 where "SSTATUS_SUM = 0x40000"

definition init_tf :: "u64 \<Rightarrow> u64 \<Rightarrow> 'd world \<Rightarrow> trapframe_t" where
  "init_tf pc sp s =
     \<lparr>gpr = (replicate 32 0)[2 := sp], status = (read_csr SSTATUS s AND NOT SSTATUS_SPP AND NOT SSTATUS_SIE) OR SSTATUS_SPIE,
      epc = pc, badvaddr = 0, cause = 0, insn = 0\<rparr>"

definition AT_NULL :: u64 where "AT_NULL = 0"
definition AT_PHDR :: u64 where "AT_PHDR = 3"
definition AT_PHENT :: u64 where "AT_PHENT = 4"
definition AT_PHNUM :: u64 where "AT_PHNUM = 5"
definition AT_PAGESZ :: u64 where "AT_PAGESZ = 6"
definition AT_ENTRY :: u64 where "AT_ENTRY = 9"
definition AT_SECURE :: u64 where "AT_SECURE = 23"
definition AT_RANDOM :: u64 where "AT_RANDOM = 25"

lemmas aux_keys = AT_NULL_def AT_PHDR_def AT_PHENT_def AT_PHNUM_def AT_PAGESZ_def AT_ENTRY_def AT_SECURE_def AT_RANDOM_def

text \<open>The strings of the arguments go below the stack pointer, the first one highest; the array then points to the copies.\<close>

primrec push_strings :: "u64 \<Rightarrow> nat \<Rightarrow> nat \<Rightarrow> u64 \<Rightarrow> ram \<Rightarrow> (u64 \<times> ram) option" where
  "push_strings argv i 0 sp m = Some (sp, m)"
| "push_strings argv i (Suc n) sp m = do {
     let p = ld64 m (argv + 8 * of_nat i);
     k \<leftarrow> strlen m p;
     let len = k + 1;
     let sp = sp - len;
     m \<leftarrow> memcpy m sp p len;
     push_strings argv (Suc i) n sp (st64 m (argv + 8 * of_nat i) sp) }"

definition auxv :: "u64 \<Rightarrow> 'd world \<Rightarrow> (u64 \<times> u64) list" where
  "auxv sp s =
     [(AT_ENTRY, entry_point (pkv s)), (AT_PHNUM, scast (phnum (pkv s))), (AT_PHENT, scast (phent (pkv s))),
      (AT_PHDR, phdr (pkv s)), (AT_PAGESZ, RISCV_PGSIZE), (AT_SECURE, 0), (AT_RANDOM, sp), (AT_NULL, 0)]"

text \<open>The words that go on the stack, from its top upwards: the count, the arguments, the (empty) environment, the auxiliary vector.\<close>

definition stack_words :: "u64 list \<Rightarrow> (u64 \<times> u64) list \<Rightarrow> u64 list" where
  "stack_words args aux = of_nat (length args) # args @ [0] @ [0] @ concat (map (\<lambda>(k, v). [k, v]) aux)"

text \<open>The registers of the user program at its first instruction.\<close>

definition run_loaded_program :: "nat \<Rightarrow> u64 \<Rightarrow> u64 \<Rightarrow> 'd world \<Rightarrow> (trapframe_t \<times> 'd world) option" where
  "run_loaded_program argc argv kstack_top s = do {
     let sp = stack_top (pkv s) - phdr_size (pkv s);
     m \<leftarrow> memcpy (ram s) sp (phdr (pkv s)) (phdr_size (pkv s));
     let s = s\<lparr>ram := m, pkv := (pkv s)\<lparr>phdr := sp\<rparr>\<rparr>;
     (sp, m) \<leftarrow> push_strings argv 0 argc sp (ram s);
     let sp = sp AND - 8;
     let aux = auxv sp s;
     let sp = sp - (1 + of_nat argc + 1 + 0 + 1 + 2 * of_nat (length aux)) * 8;
     let sp = sp AND - 16;
     let args = map (\<lambda>i. ld64 m (argv + 8 * of_nat i)) [0..<argc];
     let s = s\<lparr>ram := st_dwords m sp (stack_words args aux)\<rparr>;
     let s = (if cycle0 (pkv s) \<noteq> 0
              then s\<lparr>pkv := (pkv s)\<lparr>time0 := read_csr TIME s, cycle0 := read_csr MCYCLE s, instret0 := read_csr MINSTRET s\<rparr>\<rparr>
              else s);
     Some (init_tf (entry_point (pkv s)) sp s, write_csr SSCRATCH kstack_top s) }"

section \<open>Loading\<close>

definition PF_X :: u32 where "PF_X = 1"
definition PF_W :: u32 where "PF_W = 2"
definition PF_R :: u32 where "PF_R = 4"
definition PT_LOAD :: u32 where "PT_LOAD = 1"
definition PT_INTERP :: u32 where "PT_INTERP = 3"
definition ET_DYN :: u16 where "ET_DYN = 3"
definition EF_RISCV_RVC :: u32 where "EF_RISCV_RVC = 1"

definition get_prot :: "u32 \<Rightarrow> u32" where
  "get_prot p_flags =
     (let prot_x = (if p_flags AND PF_X \<noteq> 0 then PROT_EXEC else 0);
          prot_w = (if p_flags AND PF_W \<noteq> 0 then PROT_WRITE else 0);
          prot_r = (if p_flags AND PF_R \<noteq> 0 then PROT_READ else 0)
      in prot_x OR prot_w OR prot_r)"

text \<open>The headers, by the offsets of their fields.\<close>

record Elf64_Phdr =
  p_type :: u32
  p_flags :: u32
  p_offset :: u64
  p_vaddr :: u64
  p_filesz :: u64
  p_memsz :: u64

definition phdr_at :: "ram \<Rightarrow> u64 \<Rightarrow> Elf64_Phdr" where
  "phdr_at m a = \<lparr>p_type = ld32 m a, p_flags = ld32 m (a + 4), p_offset = ld64 m (a + 8), p_vaddr = ld64 m (a + 16),
     p_filesz = ld64 m (a + 32), p_memsz = ld64 m (a + 40)\<rparr>"

definition is_elf :: "ram \<Rightarrow> u64 \<Rightarrow> bool" where
  "is_elf m elf \<longleftrightarrow> get_bytes ld8 m elf 4 = [0x7F, 0x45, 0x4C, 0x46]"

definition load_failed :: "'d platform \<Rightarrow> frame \<Rightarrow> u64 \<Rightarrow> 'd world \<Rightarrow> 'd world option" where
  "load_failed P F fn s = panic P F (''couldn'' @ [CHR 0x27] @ ''t open ELF program: %s!'') [fn] s"

definition load_segment :: "'d platform \<Rightarrow> frame \<Rightarrow> u64 \<Rightarrow> u64 \<Rightarrow> u64 \<Rightarrow> Elf64_Phdr \<Rightarrow> 'd world \<Rightarrow> 'd world option" where
  "load_segment P F fn elf bias ph s =
     (let prepad = p_vaddr ph mod RISCV_PGSIZE;
          vaddr = p_vaddr ph + bias;
          s = (if vaddr + p_memsz ph > brk_min (pkv s) then s\<lparr>pkv := (pkv s)\<lparr>brk_min := vaddr + p_memsz ph\<rparr>\<rparr> else s);
          flags = MAP_FIXED OR MAP_PRIVATE;
          flags2 = flags OR (if prepad \<noteq> 0 then MAP_POPULATE else 0);
          prot = get_prot (p_flags ph);
          flags2 = flags2 OR MAP_POPULATE
      in do {
        (r, s) \<leftarrow> do_mmap_locked P (vaddr - prepad) (p_filesz ph + prepad) (prot OR PROT_WRITE) flags2 None 0 s;
        if r \<noteq> vaddr - prepad then load_failed P F fn s
        else do {
          s \<leftarrow> printk P F (''copying to %x from %x with size %x'' @ [CHR 0x0A]) [vaddr, p_offset ph, p_filesz ph] s;
          m \<leftarrow> memcpy (ram s) vaddr (elf + p_offset ph) (p_filesz ph);
          m \<leftarrow> memset m (vaddr - prepad) 0 prepad;
          let s = s\<lparr>ram := m\<rparr>;
          (r, s) \<leftarrow> (if prot AND PROT_WRITE = 0 then do_mprotect (vaddr - prepad) (p_filesz ph + prepad) prot s else Some (0, s));
          if r \<noteq> 0 then load_failed P F fn s
          else (let mapped = ROUNDUP (p_filesz ph + prepad) RISCV_PGSIZE - prepad
                in if p_memsz ph > mapped then do {
                     (r, s) \<leftarrow> do_mmap_locked P (vaddr + mapped) (p_memsz ph - mapped) prot (flags OR MAP_ANONYMOUS) None 0 s;
                     if r \<noteq> vaddr + mapped then load_failed P F fn s else Some s }
                   else Some s) } })"

text \<open>The segments, from the last to the first.\<close>

primrec load_segments :: "'d platform \<Rightarrow> frame \<Rightarrow> u64 \<Rightarrow> u64 \<Rightarrow> u64 \<Rightarrow> nat \<Rightarrow> 'd world \<Rightarrow> 'd world option" where
  "load_segments P F fn elf bias 0 s = Some s"
| "load_segments P F fn elf bias (Suc i) s =
     (let ph = phdr_at (ram s) (phdr (pkv s) + 56 * of_nat i) in do {
        s \<leftarrow> (if p_type ph = PT_INTERP then panic P F ''not a statically linked ELF program'' [] s else Some s);
        s \<leftarrow> (if p_type ph = PT_LOAD \<and> p_memsz ph \<noteq> 0 then load_segment P F fn elf bias ph s else Some s);
        load_segments P F fn elf bias i s })"

text \<open>
  The result on failure is that of \<^verbatim>\<open>panic\<close>, which does not return. The highest address of the program is
  computed and not used.
\<close>

definition load_elf :: "'d platform \<Rightarrow> frame \<Rightarrow> bool \<Rightarrow> u64 \<Rightarrow> u64 \<Rightarrow> 'd world \<Rightarrow> 'd world option" where
  "load_elf P F compressed elf fn s =
     (if \<not> is_elf (ram s) elf then load_failed P F fn s
      else do {
        assert (ld8 (ram s) (elf + 4) = 2);
        assert (compressed \<or> ld32 (ram s) (elf + 48) AND EF_RISCV_RVC = 0);
        let e_phnum = ld16 (ram s) (elf + 56);
        let size = ucast e_phnum * 56;
        if size > phdr_size (pkv s) then load_failed P F fn s
        else do {
          m \<leftarrow> memcpy (ram s) (phdr (pkv s)) (elf + ld64 (ram s) (elf + 32)) size;
          let bias = (if ld16 (ram s) (elf + 16) = ET_DYN then RISCV_PGSIZE else 0);
          let s = s\<lparr>pkv := (pkv s)\<lparr>phnum := ucast e_phnum, phent := 56, entry_point := ld64 (ram s) (elf + 24) + bias\<rparr>, ram := m\<rparr>;
          load_segments P F fn elf bias (unat e_phnum) s } })"

section \<open>From machine mode to the program\<close>

definition rest_of_boot_loader :: "'d platform \<Rightarrow> frame \<Rightarrow> bool \<Rightarrow> u64 \<Rightarrow> u64 \<Rightarrow> u64 \<Rightarrow> u64 \<Rightarrow> 'd world \<Rightarrow> (trapframe_t \<times> 'd world) option" where
  "rest_of_boot_loader P F compressed elf phdrs argv kstack_top s = do {
     s \<leftarrow> printk P F (''loading embedded elf ... '' @ [CHR 0x0A]) [] s;
     s \<leftarrow> load_elf P F compressed elf 0 (s\<lparr>pkv := (pkv s)\<lparr>phdr := phdrs, phdr_size := 8 * 128\<rparr>\<rparr>);
     run_loaded_program 0 argv kstack_top s }"

text \<open>\<open>trap_entry\<close> and \<open>rest\<close> are the addresses of the kernel's trap handler and of \<^verbatim>\<open>rest_of_boot_loader\<close>.\<close>

definition pk_boot_loader :: "'d emulator \<Rightarrow> image \<Rightarrow> u64 \<Rightarrow> u64 \<Rightarrow> u64 \<Rightarrow> 'd world \<Rightarrow> (u64 \<times> u64 \<times> 'd world) option" where
  "pk_boot_loader E I trap_entry rest dtb s = do {
     let s = write_csr STVEC trap_entry s;
     let s = write_csr SSCRATCH 0 s;
     let s = write_csr SIE 0 s;
     let s = snd (set_csr SSTATUS (SSTATUS_SUM OR SSTATUS_FS OR SSTATUS_VS) s);
     s \<leftarrow> file_init s;
     s \<leftarrow> printm (bus_of (plat E)) (''entering supervisor mode'' @ [CHR 0x0A]) [] s;
     (kstack_top, s) \<leftarrow> pk_vm_init (plat E) (image_end I) s;
     enter_supervisor_mode E I rest kstack_top 0 s }"

definition pk_boot_other_hart :: "u64 \<Rightarrow> 'd world \<Rightarrow> 'r option" where
  "pk_boot_other_hart dtb s = None"

end
