(* ===== verification/LoaderProps.thy ===== *)
theory LoaderProps
  imports Loader
begin

text \<open>
  What the user program finds at its first instruction: its stack, its program headers and its registers.
\<close>

section \<open>Words on the stack\<close>

lemma st_dwords_bytes: "st_dwords m a ws = put_bytes st8 m a (concat (map (le_bytes 8) ws))"
  by (induction ws arbitrary: m a) (simp_all add: st64_def put_bytes_append)

lemma ld64_st_dwords:
  assumes "i < length ws" "8 * length ws \<le> 2 ^ 64"
  shows "ld64 (st_dwords m a ws) (a + 8 * of_nat i) = ws ! i"
proof -
  let ?bs = "concat (map (le_bytes 8) ws)"
  have len: "length ?bs = 8 * length ws" by (induction ws) simp_all
  have "drop (8 * i) ?bs = concat (map (le_bytes 8) (drop i ws))"
  proof (induction ws arbitrary: i)
    case (Cons w ws)
    then show ?case by (cases i) simp_all
  qed simp
  also have "drop i ws = ws ! i # drop (Suc i) ws" using assms(1) by (simp add: Cons_nth_drop_Suc)
  finally have "take 8 (drop (8 * i) ?bs) = le_bytes 8 (ws ! i)" by simp
  moreover have "get_bytes ld8 (put_bytes st8 m a ?bs) (a + of_nat (8 * i)) 8 = take 8 (drop (8 * i) ?bs)"
    using assms len by (intro ram_store.get_put_within) simp_all
  ultimately show ?thesis by (simp add: st_dwords_bytes ld64_def bytes_simps)
qed

definition ld_dwords :: "ram \<Rightarrow> u64 \<Rightarrow> nat \<Rightarrow> u64 list" where
  "ld_dwords m a n = map (\<lambda>i. ld64 m (a + 8 * of_nat i)) [0..<n]"

lemma ld_st_dwords: "8 * length ws \<le> 2 ^ 64 \<Longrightarrow> ld_dwords (st_dwords m a ws) a (length ws) = ws"
  by (rule nth_equalityI) (simp_all add: ld_dwords_def ld64_st_dwords)

text \<open>Rounding a stack pointer down to a power of two.\<close>

lemma unat_align_down: "unat ((w :: u64) AND NOT (mask k)) = 2 ^ k * (unat w div 2 ^ k)"
proof -
  have *: "w AND NOT (mask k) = push_bit k (drop_bit k w)"
    by (rule bit_word_eqI) (auto simp: bit_simps)
  have "unat (w AND NOT (mask k)) = (2 ^ k * (unat w div 2 ^ k)) mod 2 ^ 64"
    unfolding * unsigned_push_bit_eq unat_drop_bit_eq by (simp add: push_bit_eq_mult drop_bit_eq_div take_bit_eq_mod mult.commute)
  moreover have "2 ^ k * (unat w div 2 ^ k) < 2 ^ 64" by (rule le_less_trans [OF _ unat_u64_less [of w]]) (simp add: div_times_less_eq_dividend)
  ultimately show ?thesis by simp
qed

lemma align_down:
  fixes w :: u64
  shows "unat (w AND NOT (mask k)) \<le> unat w" "unat w < unat (w AND NOT (mask k)) + 2 ^ k" "2 ^ k dvd unat (w AND NOT (mask k))"
proof -
  have "unat w = 2 ^ k * (unat w div 2 ^ k) + unat w mod 2 ^ k" by (simp add: mult.commute)
  moreover have "unat w mod 2 ^ k < 2 ^ k" by simp
  ultimately show "unat w < unat (w AND NOT (mask k)) + 2 ^ k" unfolding unat_align_down by linarith
qed (simp_all add: unat_align_down)

lemma align_masks: "(- 8 :: u64) = NOT (mask 3)" "(- 16 :: u64) = NOT (mask 4)"
  by (simp_all add: mask_eq_exp_minus_1)

section \<open>The initial stack\<close>

lemma push_no_strings: "push_strings argv i 0 sp m = Some (sp, m)" by simp

definition initial_stack :: "u64 \<Rightarrow> 'd world \<Rightarrow> u64 list" where
  "initial_stack headers s =
     [0, 0, 0, AT_ENTRY, entry_point (pkv s), AT_PHNUM, scast (phnum (pkv s)), AT_PHENT, scast (phent (pkv s)), AT_PHDR, headers,
      AT_PAGESZ, 4096, AT_SECURE, 0, AT_RANDOM, headers AND NOT (mask 3), AT_NULL, 0]"


end
