(* ===== verification/MachineExamples.thy ===== *)
theory MachineExamples
  imports Examples StartProps EmulationProps LoaderProps
begin

text \<open>The properties of start-up, protection, emulation and the loader at concrete inputs.\<close>

section \<open>A target and an image\<close>

definition demo_libcalls :: libcalls where
  "demo_libcalls = \<lparr>bad_div = \<lambda>a b. if b = 0 then - 1 else a, bad_divu = \<lambda>a b. - 1, bad_rem = \<lambda>a b. if b = 0 then a else 0,
     bad_remu = \<lambda>a b. a, bad_divw = \<lambda>a b. if b = 0 then - 1 else a, bad_divuw = \<lambda>a b. - 1,
     bad_remw = \<lambda>a b. if b = 0 then a else 0, bad_remuw = \<lambda>a b. a\<rparr>"

text \<open>User addresses are physical addresses; loads from the last pages fault.\<close>

definition demo_emulator :: "bool \<Rightarrow> unit emulator" where
  "demo_emulator c = \<lparr>plat = demo (- 1), riscv_flen = True, riscv_muldiv = False, riscv_compressed = c, fp_emulation = True,
     translate = \<lambda>k a s. if a < 0x90000000 then Inr a else Inl 13, access_pc = 0x80001000, libcalls_of = demo_libcalls\<rparr>"

definition demo_image :: image where
  "demo_image = \<lparr>ftext = 0x80000000, fdata = 0x80008000, image_end = 0x80010000, payload_start = 0x80200000,
     payload_end = 0x80300000, stack_top_of = 0x8000F000, pmp_entries = 8, clint_local = 0x8000E000,
     plic_local = 0x8000E100, logo = 0x80007000, with_logo = False, with_device_tree = False, boot_machine = False\<rparr>"

lemma demo_layout: "pk_layout 15 15 0x80000000 0x80008000 0x80010000"
proof -
  have "(0x80000000 :: u64) = push_bit 15 0x10000" "(0x80008000 :: u64) = push_bit 15 0x10001" by (simp_all add: push_bit_eq_mult)
  then show ?thesis unfolding pk_layout_def by (intro conjI exI [of _ "0x10000"] exI [of _ "0x10001"]) simp_all
qed

lemma demo_libcalls_ok: "riscv_libcalls (libcalls_of (demo_emulator c))"
  by (simp add: riscv_libcalls_def demo_emulator_def demo_libcalls_def)

section \<open>Protection and start-up\<close>

theorem setup_pk_pmp_protects_witness:
  "\<exists>s'. setup_pk_pmp 8 0x80000000 0x80008000 0x80010000 at_rest = Some s' \<and>
     \<not> pmp_allows 8 Machine_Mode Store 0x80000004 s' \<and> pmp_allows 8 User Load 0x80000004 s' \<and>
     \<not> pmp_allows 8 Machine_Mode Fetch 0x80008004 s' \<and> pmp_allows 8 User Store 0x80010000 s'"
proof -
  have "read_csr PMPCFG0 at_rest = 0" by (simp add: read_csr_def)
  from setup_pk_pmp_protects [OF _ this demo_layout, of 8] show ?thesis by (auto simp: drop_bit_eq_div)
qed

theorem protect_memory_isolates_witness:
  "\<not> pmp_allows 8 Supervisor Load 0x80000004 (protect_memory 8 0x80000000 0x80010000 at_rest) \<and>
   pmp_allows 8 Machine_Mode Load 0x80000004 (protect_memory 8 0x80000000 0x80010000 at_rest)"
  using protect_memory_isolates [of 8 at_rest "0x80000000" "0x80010000" "0x80000004" Supervisor Load]
    protect_memory_isolates [of 8 at_rest "0x80000000" "0x80010000" "0x80000004" Machine_Mode Load]
  by (simp add: read_csr_def)

text \<open>A hart with the extensions F, S and U, and an entry point for the payload.\<close>

definition hart :: "unit world" where
  "hart = (at_rest\<lparr>bbl_entry := 0x80200000\<rparr>)\<lparr>csrs := (\<lambda>_. 0)(MISA := 0x140020)\<rparr>"

lemma demo_hart: "read_csr PMPCFG0 hart = 0" "supports_extension (CHR ''F'') hart" "supports_extension (CHR ''S'') hart"
  "supports_extension (CHR ''U'') hart" "bbl_entry hart = 0x80200000" "disabled_hart_mask hart = 0"
  by (simp_all add: hart_def read_csr_def supports_extension_def resting_def)

lemma demo_image_layout: "pk_layout 15 15 (ftext demo_image) (fdata demo_image) (image_end demo_image)"
  by (simp add: demo_image_def demo_layout)


lemma demo_ready: "console_ready (bus_of (plat (demo_emulator True))) hart"
proof -
  have "(ucast (- 1 :: u8) :: u32) = 0xFF" "(ucast (- 1 :: u8) :: u64) = 0xFF" 
    by (simp_all add: unsigned_minus_1_eq_mask mask_eq_exp_minus_1)
  then show ?thesis
    by (simp add: console_ready_def demo_emulator_def hart_def tx_ready_def const_bus_def ucast_all_ones UART_REG_STATUS_TX_def)
qed


theorem interrupt_wiring_witness:
  "\<exists>s'. query_clint 0x80030000 0x80040000 (at_rest\<lparr>hart_phandles := [2]\<rparr>) = Some s' \<and>
     (\<exists>s''. query_plic (const_bus 1) 0x80031000 0x80040000 s' = Some s'' \<and> timecmp (hls_of s'' 0) = 0xF1024000)"
  using interrupt_wiring [of "at_rest\<lparr>hart_phandles := [2]\<rparr>" "0x80030000" "0x80031000" "0x80040000" "const_bus 1"] by auto

section \<open>Emulation\<close>

definition guest_regs :: "u64 list" where
  "guest_regs = (replicate 32 0)[2 := - 7, 3 := 2, 10 := 0x1001]"

lemmas insn_fields = GET_RM_def GET_RS1_def GET_RS2_def SET_RD_def GET_REG_eq SH_RS1_def SH_RS2_def SH_RD_def drop_bit_eq_div


text \<open>A program of one instruction, whose access at \<open>0x1001\<close> trapped.\<close>

definition trapped :: "u8 list \<Rightarrow> unit world" where
  "trapped code = (at_rest\<lparr>ram := put_bytes (\<lambda>m a b. m(a := b)) ((\<lambda>_. 0)(0x1001 := 0x2A, 0x1004 := 0x80)) 0x2000 code\<rparr>)
     \<lparr>csrs := (\<lambda>_. 0)(MBADADDR := 0x1001)\<rparr>"

lemma trapped_mbadaddr: "read_csr MBADADDR (trapped b) = 0x1001"
  by (simp add: trapped_def read_csr_def)

lemma trapped_reach: "a < 0x90000000 \<Longrightarrow> reach (demo_emulator c) k a s = Some a"
  by (simp add: reach_def demo_emulator_def)

lemma near:
  assumes "j < 4"
  shows "0x1001 + of_nat j < (0x90000000 :: u64)"
proof -
  consider "j = 0" | "j = 1" | "j = 2" | "j = 3" using assms by linarith
  then show ?thesis by cases simp_all
qed

lemma four_bytes: "get_bytes rd m a 4 = [rd m a, rd m (a + 1), rd m (a + 2), rd m (a + 3)]"
  by (simp add: eval_nat_numeral add.commute)

lemma upto_4: "[0..<4] = [0, Suc 0, 2, 3]"
  by (simp add: upt_rec)

lemma trapped_insn: "get_insn (demo_emulator False) 0x2000 (trapped [b0, b1, b2, b3]) = Value (ucast (le_word [b0, b1, b2, b3] :: u32), 0) (trapped [b0, b1, b2, b3])"
  by (simp add: get_insn_def guest_def demo_emulator_def set_csr_def read_csr_def write_csr_def trapped_def ld32_def ld8_def fun_upd_idem four_bytes)




theorem user_writes_machine_registers_witness:
  "emulate_system_opcode (demo_emulator True) guest_regs 2 0x1000 0 0x32311073 at_rest =
     Value guest_regs (write_csr MHPMEVENT3 (- 7) at_rest)"
proof -
  have "GET_RM 0x32311073 = 1" "csr_of 0x32311073 = 0x323" "GET_RS1 0x32311073 guest_regs = - 7"
    "SET_RD 0x32311073 guest_regs 0 = guest_regs[0 := 0]"
    by (simp_all add: insn_fields guest_regs_def csr_of_def)
  moreover have "guest_regs[0 := 0] = guest_regs" using list_update_id [of guest_regs 0] by (simp add: guest_regs_def)
  ultimately show ?thesis
    using user_writes_machine_registers [of 0 "0x32311073" "demo_emulator True" guest_regs 2 "0x1000" at_rest] by (simp add: read_csr_def)
qed

section \<open>The initial stack\<close>

definition loaded :: "unit world" where
  "loaded = at_rest\<lparr>pkv := rest_pkv\<lparr>stack_top := 0x40000000, phdr := 0x80050000, phdr_size := 1024, entry_point := 0x10078\<rparr>\<rparr>"


end
