(* ===== verification/UserApi.thy ===== *)
theory UserApi
  imports Traps
begin

text \<open>
  The library of the user programs (\<^verbatim>\<open>src/software/ariane_api.c\<close>): each function is one or more system calls, made
  with \<^verbatim>\<open>ecall\<close>. The trap is delegated to the kernel, so an \<^verbatim>\<open>ecall\<close> is a run of \<^verbatim>\<open>handle_trap\<close> on the registers.

  The programs are built without optimisation (\<^verbatim>\<open>make_run_user_with_pk.sh\<close>): a register variable is set where it is
  declared, whether or not the \<^verbatim>\<open>asm\<close> statement names it as an input. A 32-bit value in a register is
  sign-extended. The functions have the names of the drivers below, here with the prefix \<open>api\<close>.
\<close>

section \<open>A user program\<close>

text \<open>
  The kernel below, the registers that a call does not set, the program counter, the addresses of the
  static buffer and count of \<^verbatim>\<open>putchar\<close> and of the local arrays.
\<close>

record 'd client =
  kernel :: "'d platform"
  kernel_frame :: frame
  other_regs :: "nat \<Rightarrow> u64"
  user_pc :: u64
  put_buf :: u64
  put_len :: u64
  user_local :: "nat \<Rightarrow> u64"

definition user_tf :: "'d client \<Rightarrow> (nat \<times> u64) list \<Rightarrow> trapframe_t" where
  "user_tf C bound =
     \<lparr>gpr = map (bind_regs bound (other_regs C)) [0..<32], status = 0, epc = user_pc C, badvaddr = 0, cause = CAUSE_USER_ECALL, insn = 0\<rparr>"

definition user_ecall :: "'d client \<Rightarrow> (nat \<times> u64) list \<Rightarrow> 'd world \<Rightarrow> 'd world option" where
  "user_ecall C bound s = map_option snd (handle_trap (kernel C) (kernel_frame C) (user_tf C bound) s)"

section \<open>The numbers of the calls\<close>

definition SYS_RNG_WAIT :: u32 where "SYS_RNG_WAIT = 1050"
definition SYS_RNG_READ_DATA :: u32 where "SYS_RNG_READ_DATA = 1051"
definition SYS_RNG_READ_POLY :: u32 where "SYS_RNG_READ_POLY = 1052"
definition SYS_RNG_WRITE_POLY :: u32 where "SYS_RNG_WRITE_POLY = 1053"
definition SYS_RNG_READ_SEED :: u32 where "SYS_RNG_READ_SEED = 1054"
definition SYS_RNG_WRITE_SEED :: u32 where "SYS_RNG_WRITE_SEED = 1055"
definition SYS_RNG_READ_RAND_SEG :: u32 where "SYS_RNG_READ_RAND_SEG = 1056"
definition SYS_RNG_READ_STATE_COUNTER :: u32 where "SYS_RNG_READ_STATE_COUNTER = 1057"
definition SYS_AES0_START_ENCRY :: u32 where "SYS_AES0_START_ENCRY = 1022"
definition SYS_AES0_START_DECRY :: u32 where "SYS_AES0_START_DECRY = 1021"
definition SYS_AES0_WAIT :: u32 where "SYS_AES0_WAIT = 1020"
definition SYS_AES0_DATA_OUT :: u32 where "SYS_AES0_DATA_OUT = 1019"
definition SYS_SHA256_HASH :: u32 where "SYS_SHA256_HASH = 1018"
definition SYS_HMAC_HASH :: u32 where "SYS_HMAC_HASH = 1017"
definition SYS_DMA_COPY :: u32 where "SYS_DMA_COPY = 1016"
definition SYS_DMA_COPY1 :: u32 where "SYS_DMA_COPY1 = 1015"
definition SYS_DMA_COPY2 :: u32 where "SYS_DMA_COPY2 = 1014"
definition SYS_CMP :: u32 where "SYS_CMP = 1013"
definition SYS_AES1_READ_DATA :: u32 where "SYS_AES1_READ_DATA = 1012"
definition SYS_AES1_WRITE_DATA :: u32 where "SYS_AES1_WRITE_DATA = 1011"
definition SYS_AES1_READ_CONFIG :: u32 where "SYS_AES1_READ_CONFIG = 1010"
definition SYS_AES1_WRITE_CONFIG :: u32 where "SYS_AES1_WRITE_CONFIG = 1009"
definition SYS_DMA_END :: u32 where "SYS_DMA_END = 1007"
definition SYS_AES2_START_ENCRY :: u32 where "SYS_AES2_START_ENCRY = 1058"
definition SYS_AES2_START_DECRY :: u32 where "SYS_AES2_START_DECRY = 1059"
definition SYS_AES2_WAIT :: u32 where "SYS_AES2_WAIT = 1060"
definition SYS_AES2_DATA_OUT :: u32 where "SYS_AES2_DATA_OUT = 1061"
definition SYS_RST :: u32 where "SYS_RST = 1067"
definition SYS_RSA_WRITE_PNUM :: u32 where "SYS_RSA_WRITE_PNUM = 1063"
definition SYS_RSA_WRITE_MSG_IN :: u32 where "SYS_RSA_WRITE_MSG_IN = 1064"
definition SYS_RSA_READ_MSG_OUT :: u32 where "SYS_RSA_READ_MSG_OUT = 1065"
definition SYS_RSA_WAIT :: u32 where "SYS_RSA_WAIT = 1066"

lemmas user_call_numbers = SYS_RNG_WAIT_def SYS_RNG_READ_DATA_def SYS_RNG_READ_POLY_def SYS_RNG_WRITE_POLY_def SYS_RNG_READ_SEED_def
  SYS_RNG_WRITE_SEED_def SYS_RNG_READ_RAND_SEG_def SYS_RNG_READ_STATE_COUNTER_def SYS_AES0_START_ENCRY_def SYS_AES0_START_DECRY_def
  SYS_AES0_WAIT_def SYS_AES0_DATA_OUT_def SYS_SHA256_HASH_def SYS_HMAC_HASH_def SYS_DMA_COPY_def
  SYS_DMA_COPY1_def SYS_DMA_COPY2_def SYS_CMP_def SYS_AES1_READ_DATA_def SYS_AES1_WRITE_DATA_def
  SYS_AES1_READ_CONFIG_def SYS_AES1_WRITE_CONFIG_def SYS_DMA_END_def SYS_AES2_START_ENCRY_def SYS_AES2_START_DECRY_def
  SYS_AES2_WAIT_def SYS_AES2_DATA_OUT_def SYS_RST_def SYS_RSA_WRITE_PNUM_def SYS_RSA_WRITE_MSG_IN_def
  SYS_RSA_READ_MSG_OUT_def SYS_RSA_WAIT_def

section \<open>RSA\<close>

definition api_rsa_write_prime_num :: "'d client \<Rightarrow> u64 \<Rightarrow> 'd world \<Rightarrow> 'd world option" where
  "api_rsa_write_prime_num C p_num s = user_ecall C [(10, p_num), (17, scast SYS_RSA_WRITE_PNUM)] s"

definition api_rsa_write_msg_in :: "'d client \<Rightarrow> u64 \<Rightarrow> u32 \<Rightarrow> 'd world \<Rightarrow> 'd world option" where
  "api_rsa_write_msg_in C msg_in encry_decry s = 
     user_ecall C [(10, msg_in), (11, scast encry_decry), (17, scast SYS_RSA_WRITE_MSG_IN)] s"

definition api_rsa_read_msg_out :: "'d client \<Rightarrow> u64 \<Rightarrow> 'd world \<Rightarrow> 'd world option" where
  "api_rsa_read_msg_out C msg_out s = 
     user_ecall C [(10, msg_out), (17, scast SYS_RSA_READ_MSG_OUT)] s"

section \<open>Random numbers\<close>

definition api_rng :: "'d client \<Rightarrow> u64 \<Rightarrow> 'd world \<Rightarrow> 'd world option" where
  "api_rng C randnum s = do {
     s \<leftarrow> user_ecall C [(17, scast SYS_RNG_WAIT)] s;
     user_ecall C [(10, randnum), (17, scast SYS_RNG_READ_DATA)] s }"

definition api_rng_read_poly :: "'d client \<Rightarrow> u64 \<Rightarrow> u64 \<Rightarrow> u64 \<Rightarrow> u64 \<Rightarrow> 'd world \<Rightarrow> 'd world option" where
  "api_rng_read_poly C p128 p64 p32 p16 s = 
     user_ecall C [(10, p128), (11, p64), (12, p32), (13, p16), (17, scast SYS_RNG_READ_POLY)] s"

definition api_rng_write_poly :: "'d client \<Rightarrow> u64 \<Rightarrow> u64 \<Rightarrow> u64 \<Rightarrow> u64 \<Rightarrow> 'd world \<Rightarrow> 'd world option" where
  "api_rng_write_poly C p128 p64 p32 p16 s = 
     user_ecall C [(10, p128), (11, p64), (12, p32), (13, p16), (17, scast SYS_RNG_WRITE_POLY)] s"

definition api_rng_write_seed :: "'d client \<Rightarrow> u64 \<Rightarrow> 'd world \<Rightarrow> 'd world option" where
  "api_rng_write_seed C seed128 s = 
     user_ecall C [(10, seed128), (17, scast SYS_RNG_WRITE_SEED)] s"

text \<open>The last two pointers go through 32-bit variables.\<close>

definition api_rng_read_seed :: "'d client \<Rightarrow> u64 \<Rightarrow> u64 \<Rightarrow> u64 \<Rightarrow> u64 \<Rightarrow> 'd world \<Rightarrow> 'd world option" where
  "api_rng_read_seed C seed128 seed64 seed32 seed16 s = do {
     s \<leftarrow> user_ecall C [(17, scast SYS_RNG_WAIT)] s;
     user_ecall C [(10, seed128), (11, seed64), (12, scast (ucast seed32 :: u32)), (13, scast (ucast seed16 :: u32)), (17, scast SYS_RNG_READ_SEED)] s }"

definition api_rng_read_rand_seg :: "'d client \<Rightarrow> u64 \<Rightarrow> 'd world \<Rightarrow> 'd world option" where
  "api_rng_read_rand_seg C rand_seg s = do {
     s \<leftarrow> user_ecall C [(17, scast SYS_RNG_WAIT)] s;
     user_ecall C [(10, rand_seg), (17, scast SYS_RNG_READ_RAND_SEG)] s }"

definition api_rng_read_state_counter :: "'d client \<Rightarrow> u64 \<Rightarrow> 'd world \<Rightarrow> 'd world option" where
  "api_rng_read_state_counter C st_cnt s = do {
     s \<leftarrow> user_ecall C [(17, scast SYS_RNG_WAIT)] s;
     user_ecall C [(10, st_cnt), (17, scast SYS_RNG_READ_STATE_COUNTER)] s }"

section \<open>AES\<close>

definition api_aes0_decrypt :: "'d client \<Rightarrow> u64 \<Rightarrow> u64 \<Rightarrow> u64 \<Rightarrow> u32 \<Rightarrow> 'd world \<Rightarrow> 'd world option" where
  "api_aes0_decrypt C ct st pt key_sel s = do {
     s \<leftarrow> user_ecall C [(10, ct), (11, st), (12, scast key_sel), (17, scast SYS_AES0_START_DECRY)] s;
     s \<leftarrow> user_ecall C [(17, scast SYS_AES0_WAIT)] s;
     user_ecall C [(10, pt), (17, scast SYS_AES0_DATA_OUT)] s }"

definition api_aes0_encrypt :: "'d client \<Rightarrow> u64 \<Rightarrow> u64 \<Rightarrow> u64 \<Rightarrow> u32 \<Rightarrow> 'd world \<Rightarrow> 'd world option" where
  "api_aes0_encrypt C pt st ct key_sel s = do {
     s \<leftarrow> user_ecall C [(10, pt), (11, st), (12, scast key_sel), (17, scast SYS_AES0_START_ENCRY)] s;
     s \<leftarrow> user_ecall C [(17, scast SYS_AES0_WAIT)] s;
     user_ecall C [(10, ct), (17, scast SYS_AES0_DATA_OUT)] s }"

definition api_aes2_decrypt :: "'d client \<Rightarrow> u64 \<Rightarrow> u64 \<Rightarrow> u64 \<Rightarrow> u32 \<Rightarrow> 'd world \<Rightarrow> 'd world option" where
  "api_aes2_decrypt C ct st pt key_sel s = do {
     s \<leftarrow> user_ecall C [(10, ct), (11, st), (12, scast key_sel), (17, scast SYS_AES2_START_DECRY)] s;
     s \<leftarrow> user_ecall C [(17, scast SYS_AES2_WAIT)] s;
     user_ecall C [(10, pt), (17, scast SYS_AES2_DATA_OUT)] s }"

definition api_aes2_encrypt :: "'d client \<Rightarrow> u64 \<Rightarrow> u64 \<Rightarrow> u64 \<Rightarrow> u32 \<Rightarrow> 'd world \<Rightarrow> 'd world option" where
  "api_aes2_encrypt C pt st ct key_sel s = do {
     s \<leftarrow> user_ecall C [(10, pt), (11, st), (12, scast key_sel), (17, scast SYS_AES2_START_ENCRY)] s;
     s \<leftarrow> user_ecall C [(17, scast SYS_AES2_WAIT)] s;
     user_ecall C [(10, ct), (17, scast SYS_AES2_DATA_OUT)] s }"

definition api_aes1_read_data :: "'d client \<Rightarrow> u64 \<Rightarrow> 'd world \<Rightarrow> 'd world option" where
  "api_aes1_read_data C result s = 
     user_ecall C [(10, result), (17, scast SYS_AES1_READ_DATA)] s"

definition api_aes1_write_data :: "'d client \<Rightarrow> u64 \<Rightarrow> u32 \<Rightarrow> 'd world \<Rightarrow> 'd world option" where
  "api_aes1_write_data C block key_sel s = 
     user_ecall C [(10, block), (11, scast key_sel), (17, scast SYS_AES1_WRITE_DATA)] s"

definition api_aes1_read_config :: "'d client \<Rightarrow> u64 \<Rightarrow> 'd world \<Rightarrow> 'd world option" where
  "api_aes1_read_config C config_o s = 
     user_ecall C [(10, config_o), (17, scast SYS_AES1_READ_CONFIG)] s"

definition api_aes1_write_config :: "'d client \<Rightarrow> u32 \<Rightarrow> 'd world \<Rightarrow> 'd world option" where
  "api_aes1_write_config C config_i s = 
     user_ecall C [(10, scast config_i), (17, scast SYS_AES1_WRITE_CONFIG)] s"

section \<open>Hashes, transfers and comparison\<close>

definition api_sha256_hashString :: "'d client \<Rightarrow> u64 \<Rightarrow> u64 \<Rightarrow> 'd world \<Rightarrow> 'd world option" where
  "api_sha256_hashString C pString hash s = 
     user_ecall C [(10, pString), (11, hash), (17, scast SYS_SHA256_HASH)] s"

definition api_hmac_hashString :: "'d client \<Rightarrow> u64 \<Rightarrow> u64 \<Rightarrow> u32 \<Rightarrow> 'd world \<Rightarrow> 'd world option" where
  "api_hmac_hashString C pString hash use_key_hash s = 
     user_ecall C [(10, pString), (11, hash), (12, scast use_key_hash), (17, scast SYS_HMAC_HASH)] s"

definition api_dma_transfer_to_perif :: "'d client \<Rightarrow> u64 \<Rightarrow> u64 \<Rightarrow> u32 \<Rightarrow> u32 \<Rightarrow> 'd world \<Rightarrow> 'd world option" where
  "api_dma_transfer_to_perif C sAddress dAddress len wait s = 
     user_ecall C [(10, sAddress), (11, dAddress), (12, scast (len - 1)), (13, scast wait), (17, scast SYS_DMA_COPY1)] s"

definition api_dma_transfer_from_perif :: "'d client \<Rightarrow> u64 \<Rightarrow> u64 \<Rightarrow> u32 \<Rightarrow> u32 \<Rightarrow> 'd world \<Rightarrow> 'd world option" where
  "api_dma_transfer_from_perif C sAddress dAddress len wait s = 
     user_ecall C [(10, sAddress), (11, dAddress), (12, scast (len - 1)), (13, scast wait), (17, scast SYS_DMA_COPY2)] s"

definition api_dma_transfer_from_perif_to_perif :: "'d client \<Rightarrow> u64 \<Rightarrow> u64 \<Rightarrow> u32 \<Rightarrow> u32 \<Rightarrow> 'd world \<Rightarrow> 'd world option" where
  "api_dma_transfer_from_perif_to_perif C sAddress dAddress len wait s = 
     user_ecall C [(10, sAddress), (11, dAddress), (12, scast (len - 1)), (13, scast wait), (17, scast SYS_DMA_COPY)] s"

definition api_dma_end :: "'d client \<Rightarrow> 'd world \<Rightarrow> 'd world option" where
  "api_dma_end C s = user_ecall C [(17, scast SYS_DMA_END)] s"

text \<open>The local that is returned is written by the kernel only.\<close>

definition api_compareMulti :: "'d client \<Rightarrow> u64 \<Rightarrow> u32 \<Rightarrow> u32 \<Rightarrow> 'd world \<Rightarrow> (u32 \<times> 'd world) option" where
  "api_compareMulti C expectedData receivedData block_size s = do {
     s \<leftarrow> user_ecall C [(10, expectedData), (11, scast receivedData), (12, scast block_size), (13, user_local C 0), (17, scast SYS_CMP)] s;
     Some (ld32 (ram s) (user_local C 0), s) }"

end
