(* ===== verification/UserLib.thy ===== *)
theory UserLib
  imports UserApi
begin

text \<open>
  The C library of the user programs (\<^verbatim>\<open>src/software/syscalls.c\<close>): output through a buffer of 64 characters and the
  call \<^verbatim>\<open>puts\<close> of the kernel, formatted output, and the memory routines that differ from those of the firmware.

  Formatted output is over any state \<open>'x\<close> with a memory, so that \<^verbatim>\<open>printf\<close> and \<^verbatim>\<open>sprintf\<close> are two of its instances.
\<close>

section \<open>Output\<close>

definition printbuf :: "'d client \<Rightarrow> u64 \<Rightarrow> u32 \<Rightarrow> 'd world \<Rightarrow> 'd world option" where
  "printbuf C buf buflen s = user_ecall C [(10, buf), (11, scast buflen), (17, scast (1008 :: u32))] s"

definition printstr :: "'d client \<Rightarrow> u64 \<Rightarrow> 'd world \<Rightarrow> 'd world option" where
  "printstr C p s = do { n \<leftarrow> strlen (ram s) p; printbuf C p (ucast n) s }"

definition putchar :: "'d client \<Rightarrow> u32 \<Rightarrow> 'd world \<Rightarrow> 'd world option" where
  "putchar C ch s =
     (let buflen = ld32 (ram s) (put_len C);
          s = wst8 s (put_buf C + scast buflen) (ucast ch);
          s = wst32 s (put_len C) (buflen + 1)
      in if ch = 10 \<or> buflen + 1 = 64 then do {
           s \<leftarrow> printbuf C (put_buf C) (ld32 (ram s) (put_len C)) s;
           Some (wst32 s (put_len C) 0) }
         else Some s)"

primrec hex_loop :: "u64 \<Rightarrow> nat \<Rightarrow> u64 \<Rightarrow> ram \<Rightarrow> ram" where
  "hex_loop str 0 x m = m"
| "hex_loop str (Suc i) x m =
     hex_loop str i (drop_bit 4 x) (st8 m (str + of_nat i) (ucast ((x AND 0xF) + (if x AND 0xF < 10 then 48 else 97 - 10))))"

definition printhex :: "'d client \<Rightarrow> u64 \<Rightarrow> 'd world \<Rightarrow> 'd world option" where
  "printhex C x s =
     (let str = user_local C 0; s = s\<lparr>ram := st8 (hex_loop str 16 x (ram s)) (str + 16) 0\<rparr>
      in printstr C str s)"

section \<open>Numbers\<close>

type_synonym 'x putch = "u32 \<Rightarrow> 'x \<Rightarrow> 'x option"

text \<open>The digits, the lowest first.\<close>

partial_function (option) number_digits :: "u64 \<Rightarrow> u64 \<Rightarrow> u32 list option" where
  "number_digits base num =
     (if num < base then Some [ucast (num mod base)]
      else do { digs \<leftarrow> number_digits base (num div base); Some (ucast (num mod base) # digs) })"

primrec put_times :: "nat \<Rightarrow> 'x putch \<Rightarrow> u32 \<Rightarrow> 'x \<Rightarrow> 'x option" where
  "put_times 0 putch c x = Some x"
| "put_times (Suc n) putch c x = do { x \<leftarrow> putch c x; put_times n putch c x }"

primrec put_digs :: "'x putch \<Rightarrow> u32 list \<Rightarrow> 'x \<Rightarrow> 'x option" where
  "put_digs putch [] x = Some x"
| "put_digs putch (d # ds) x = do { x \<leftarrow> putch (d + (if d \<ge> 10 then 97 - 10 else 48)) x; put_digs putch ds x }"

definition printnum :: "'x putch \<Rightarrow> u64 \<Rightarrow> u64 \<Rightarrow> u32 \<Rightarrow> u32 \<Rightarrow> 'x \<Rightarrow> 'x option" where
  "printnum putch num base width padc x = do {
     digs \<leftarrow> number_digits base num;
     x \<leftarrow> put_times (nat (sint width - int (length digs))) putch padc x;
     put_digs putch (rev digs) x }"

definition getuint :: "u64 \<Rightarrow> u32 \<Rightarrow> u64" where
  "getuint a lflag = (if sint lflag \<ge> 2 then a else if lflag \<noteq> 0 then a else ucast (ucast a :: u32))"

definition getint :: "u64 \<Rightarrow> u32 \<Rightarrow> u64" where
  "getint a lflag = (if sint lflag \<ge> 2 then a else if lflag \<noteq> 0 then a else scast (ucast a :: u32))"

section \<open>Strings\<close>

partial_function (option) strnlen_loop :: "ram \<Rightarrow> u64 \<Rightarrow> u64 \<Rightarrow> u64 option" where
  "strnlen_loop m p n = (if n \<noteq> 0 \<and> ld8 m p \<noteq> 0 then strnlen_loop m (p + 1) (n - 1) else Some p)"

definition strnlen :: "ram \<Rightarrow> u64 \<Rightarrow> u64 \<Rightarrow> u64 option" where
  "strnlen m s n = do { p \<leftarrow> strnlen_loop m s n; Some (p - s) }"

partial_function (option) put_string :: "'x putch \<Rightarrow> ('x \<Rightarrow> ram) \<Rightarrow> u64 \<Rightarrow> u32 \<Rightarrow> u32 \<Rightarrow> 'x \<Rightarrow> (u32 \<times> 'x) option" where
  "put_string putch mem p precision width x =
     (if ld8 (mem x) p \<noteq> 0 \<and> (sint precision < 0 \<or> sint (precision - 1) \<ge> 0)
      then do {
        x \<leftarrow> putch (ucast (ld8 (mem x) p)) x;
        put_string putch mem (p + 1) (if sint precision < 0 then precision else precision - 1) (width - 1) x }
      else Some (width, x))"

text \<open>Padding on the left leaves the rest of the width, which is then not positive.\<close>

definition print_string :: "'x putch \<Rightarrow> ('x \<Rightarrow> ram) \<Rightarrow> u64 \<Rightarrow> u32 \<Rightarrow> u32 \<Rightarrow> u32 \<Rightarrow> 'x \<Rightarrow> 'x option" where
  "print_string putch mem p padc width precision x = do {
     (width, x) \<leftarrow>
       (if sint width > 0 \<and> padc \<noteq> 45 then do {
          n \<leftarrow> strnlen (mem x) p (scast precision);
          let width = ucast (scast width - n);
          x \<leftarrow> put_times (nat (sint width)) putch padc x;
          Some (if sint width > 0 then 0 else width, x) }
        else Some (width, x));
     (width, x) \<leftarrow> put_string putch mem p precision width x;
     put_times (nat (sint width)) putch 32 x }"

section \<open>Formats\<close>

text \<open>\<open>Text\<close> copies the format, \<open>Spec\<close> reads a conversion that began at \<open>last_fmt\<close>.\<close>

datatype fmt_state = Text | Spec (last_fmt: u64) (padc_of: u32) (width_of: u32) (precision_of: u32) (lflag_of: u32)

partial_function (option) fmt_number :: "ram \<Rightarrow> u32 \<Rightarrow> u32 \<Rightarrow> u64 \<Rightarrow> (u32 \<times> u64) option" where
  "fmt_number m precision ch fmt =
     (let precision = precision * 10 + ch - 48; ch = ucast (ld8 m fmt)
      in if ch < 48 \<or> ch > 57 then Some (precision, fmt) else fmt_number m precision ch (fmt + 1))"

text \<open>\<^verbatim>\<open>process_precision\<close>.\<close>

definition set_precision :: "u32 \<Rightarrow> fmt_state \<Rightarrow> fmt_state" where
  "set_precision precision st =
     (case st of Text \<Rightarrow> Text
      | Spec l padc width p lflag \<Rightarrow>
          if sint width < 0 then Spec l padc precision (- 1) lflag else Spec l padc width precision lflag)"

text \<open>A conversion that takes no argument, or takes its number from the next one, and the text that precedes it.\<close>

definition print_signed :: "'x putch \<Rightarrow> u64 \<Rightarrow> u32 \<Rightarrow> u32 \<Rightarrow> 'x \<Rightarrow> 'x option" where
  "print_signed putch num width padc x =
     (if sint num < 0 then do { x \<leftarrow> putch 45 x; printnum putch (- num) 10 width padc x }
      else printnum putch num 10 width padc x)"

text \<open>
  One round of the loops: the format is at its end, or goes on in a state at an address with the arguments
  that are left. \<open>null_text\<close> is the address of the literal \<open>(null)\<close>. A missing argument is undefined.
\<close>

datatype 'x fmt_next = Finished 'x | Continue fmt_state u64 "u64 list" 'x

definition with_arg :: "u64 list \<Rightarrow> (u64 \<Rightarrow> u64 list \<Rightarrow> 'b option) \<Rightarrow> 'b option" where
  "with_arg ap f = (case ap of [] \<Rightarrow> None | a # ap \<Rightarrow> f a ap)"

definition fmt_convert :: "'x putch \<Rightarrow> ('x \<Rightarrow> ram) \<Rightarrow> u64 \<Rightarrow> fmt_state \<Rightarrow> u32 \<Rightarrow> u64 \<Rightarrow> u64 list \<Rightarrow> 'x \<Rightarrow> 'x fmt_next option" where
  "fmt_convert putch mem null_text st ch fmt ap x =
     (let l = last_fmt st; padc = padc_of st; width = width_of st; precision = precision_of st; lflag = lflag_of st;
          done = (\<lambda>ap. map_option (Continue Text fmt ap))
      in if ch = 45 then Some (Continue (Spec l 45 width precision lflag) fmt ap x)
         else if ch = 48 then Some (Continue (Spec l 48 width precision lflag) fmt ap x)
         else if 49 \<le> ch \<and> ch \<le> 57 then do {
           (precision, fmt) \<leftarrow> fmt_number (mem x) 0 ch fmt;
           Some (Continue (set_precision precision st) fmt ap x) }
         else if ch = 42 then with_arg ap (\<lambda>a ap. Some (Continue (set_precision (ucast a) st) fmt ap x))
         else if ch = 46 then Some (Continue (Spec l padc (if sint width < 0 then 0 else width) precision lflag) fmt ap x)
         else if ch = 35 then Some (Continue st fmt ap x)
         else if ch = 108 then Some (Continue (Spec l padc width precision (lflag + 1)) fmt ap x)
         else if ch = 99 then with_arg ap (\<lambda>a ap. done ap (putch (ucast a) x))
         else if ch = 115 then with_arg ap (\<lambda>a ap.
           done ap (print_string putch mem (if a = 0 then null_text else a) padc width precision x))
         else if ch = 100 then with_arg ap (\<lambda>a ap. done ap (print_signed putch (getint a lflag) width padc x))
         else if ch = 117 then with_arg ap (\<lambda>a ap. done ap (printnum putch (getuint a lflag) 10 width padc x))
         else if ch = 111 then with_arg ap (\<lambda>a ap. done ap (printnum putch (getuint a lflag) 8 width padc x))
         else if ch = 112 then do {
           x \<leftarrow> putch 48 x;
           x \<leftarrow> putch 120 x;
           with_arg ap (\<lambda>a ap. done ap (printnum putch (getuint a 1) 16 width padc x)) }
         else if ch = 120 then with_arg ap (\<lambda>a ap. done ap (printnum putch (getuint a lflag) 16 width padc x))
         else if ch = 37 then done ap (putch ch x)
         else do { x \<leftarrow> putch 37 x; Some (Continue Text l ap x) })"

definition fmt_step :: "'x putch \<Rightarrow> ('x \<Rightarrow> ram) \<Rightarrow> u64 \<Rightarrow> fmt_state \<Rightarrow> u64 \<Rightarrow> u64 list \<Rightarrow> 'x \<Rightarrow> 'x fmt_next option" where
  "fmt_step putch mem null_text st fmt ap x =
     (let ch = ucast (ld8 (mem x) fmt) in
      if st \<noteq> Text then fmt_convert putch mem null_text st ch (fmt + 1) ap x
      else if ch = 37 then Some (Continue (Spec (fmt + 1) 32 (- 1) (- 1) 0) (fmt + 1) ap x)
      else if ch = 0 then Some (Finished x)
      else do { x \<leftarrow> putch ch x; Some (Continue Text (fmt + 1) ap x) })"

partial_function (option) vprintfmt :: "'x putch \<Rightarrow> ('x \<Rightarrow> ram) \<Rightarrow> u64 \<Rightarrow> fmt_state \<Rightarrow> u64 \<Rightarrow> u64 list \<Rightarrow> 'x \<Rightarrow> 'x option" where
  "vprintfmt putch mem null_text st fmt ap x = do {
     r \<leftarrow> fmt_step putch mem null_text st fmt ap x;
     case r of Finished x \<Rightarrow> Some x | Continue st fmt ap x \<Rightarrow> vprintfmt putch mem null_text st fmt ap x }"

definition printf :: "'d client \<Rightarrow> u64 \<Rightarrow> u64 \<Rightarrow> u64 list \<Rightarrow> 'd world \<Rightarrow> (u32 \<times> 'd world) option" where
  "printf C null_text fmt ap s = map_option (Pair 0) (vprintfmt (putchar C) ram null_text Text fmt ap s)"

definition sprintf_putch :: "(u64 \<times> 'd world) putch" where
  "sprintf_putch ch st = (let (str, s) = st in Some (str + 1, wst8 s str (ucast ch)))"

definition sprintf :: "u64 \<Rightarrow> u64 \<Rightarrow> u64 \<Rightarrow> u64 list \<Rightarrow> 'd world \<Rightarrow> (u32 \<times> 'd world) option" where
  "sprintf null_text str0 fmt ap s = do {
     (str, s) \<leftarrow> vprintfmt sprintf_putch (\<lambda>(str, s). ram s) null_text Text fmt ap (str0, s);
     Some (ucast (str - str0), wst8 s str 0) }"

section \<open>Memory\<close>

text \<open>Words are copied only when the length is a multiple of their size too.\<close>

partial_function (option) copy_dwords :: "ram \<Rightarrow> u64 \<Rightarrow> u64 \<Rightarrow> u64 \<Rightarrow> ram option" where
  "copy_dwords m d s e = (if d < e then copy_dwords (st64 m d (ld64 m s)) (d + 8) (s + 8) e else Some m)"

definition api_memcpy :: "ram \<Rightarrow> u64 \<Rightarrow> u64 \<Rightarrow> u64 \<Rightarrow> ram option" where
  "api_memcpy m dest src len =
     (if (dest OR src OR len) AND 7 = 0 then copy_dwords m dest src (dest + len)
      else Some (memcpy_bytes m dest src (dest + len)))"

section \<open>Reset\<close>

text \<open>\<open>fmt\<close> is the address of the literal in \<^verbatim>\<open>rst_id\<close> of the library.\<close>

definition api_rst_id :: "'d client \<Rightarrow> u64 \<Rightarrow> u64 \<Rightarrow> u32 \<Rightarrow> 'd world \<Rightarrow> 'd world option" where
  "api_rst_id C null_text fmt reset_id s = do {
     s \<leftarrow> user_ecall C [(10, scast reset_id), (17, scast SYS_RST)] s;
     (r, s) \<leftarrow> printf C null_text fmt [scast reset_id] s;
     Some s }"

end
