(* ===== verification/UserProps.thy ===== *)
theory UserProps
  imports UserLib TrapProps
begin

text \<open>
  The library of the user programs: formatted output prints what the format says, the buffer of \<^verbatim>\<open>putchar\<close> never
  overruns the one of the kernel, and a decryption runs from the program through the kernel and machine mode to the engine.
\<close>

section \<open>Digits\<close>

fun digits_of :: "nat \<Rightarrow> nat \<Rightarrow> nat list" where
  "digits_of b n = (if b < 2 \<or> n < b then [n] else digits_of b (n div b) @ [n mod b])"

declare digits_of.simps [simp del]

lemma digits_of_value: "foldl (\<lambda>a d. a * b + d) 0 (digits_of b n) = n"
  by (induction b n rule: digits_of.induct) (subst digits_of.simps, simp add: mult.commute)

lemma digits_of_less: "2 \<le> b \<Longrightarrow> d \<in> set (digits_of b n) \<Longrightarrow> d < b"
  by (induction b n rule: digits_of.induct) (subst (asm) (2) digits_of.simps, auto split: if_splits)

lemma digits_of_Nil [simp]: "digits_of b n \<noteq> []"
  by (subst digits_of.simps) simp

lemma digits_of_hd: "2 \<le> b \<Longrightarrow> n \<noteq> 0 \<Longrightarrow> hd (digits_of b n) \<noteq> 0"
proof (induction b n rule: digits_of.induct)
  case (1 b n)
  then show ?case by (subst digits_of.simps) (auto simp: div_eq_0_iff)
qed

lemma length_digits_of: "2 \<le> b \<Longrightarrow> n < b ^ k \<Longrightarrow> 0 < k \<Longrightarrow> length (digits_of b n) \<le> k"
proof (induction b n arbitrary: k rule: digits_of.induct)
  case (1 b n)
  show ?case
  proof (cases "n < b")
    case True
    then show ?thesis using 1(4) by (subst digits_of.simps) simp
  next
    case False
    then obtain j where j: "k = Suc j" "0 < j" using 1(3,4) by (cases k; cases "k - 1") auto
    then have "n div b < b ^ j" using 1(2,3) by (simp add: div_less_iff_less_mult mult.commute)
    then have "length (digits_of b (n div b)) \<le> j" using 1(1) 1(2) False j(2) by simp
    then show ?thesis using False 1(2) j(1) by (subst digits_of.simps) simp
  qed
qed

lemma number_digits_of:
  assumes "2 \<le> base"
  shows "number_digits base num = Some (rev (map of_nat (digits_of (unat base) (unat num))))"
proof (induction "unat num" arbitrary: num rule: less_induct)
  case less
  have b: "2 \<le> unat base" using assms by (simp add: word_le_nat_alt)
  show ?case
  proof (cases "num < base")
    case True
    then have "num mod base = num" by (simp add: word_unat_eq_iff unat_mod_distrib word_less_nat_alt)
    then show ?thesis using True b
      by (subst number_digits.simps, subst digits_of.simps) (simp add: word_less_nat_alt)
  next
    case False
    then have "unat (num div base) < unat num"
      using b by (simp add: unat_div_distrib word_less_nat_alt)
    moreover have "ucast (num mod base) = (of_nat (unat num mod unat base) :: u32)" by (metis of_nat_unat unat_mod_distrib)
    ultimately show ?thesis using less [of "num div base"] False b
      by (subst number_digits.simps, subst digits_of.simps) (simp add: word_less_nat_alt unat_div_distrib unat_mod_distrib)
  qed
qed

section \<open>Writers\<close>

definition digit_char :: "nat \<Rightarrow> u32" where
  "digit_char d = of_nat d + (if d < 10 then 48 else 87)"

primrec put_chars :: "'x putch \<Rightarrow> u32 list \<Rightarrow> 'x \<Rightarrow> 'x option" where
  "put_chars putch [] x = Some x"
| "put_chars putch (c # cs) x = do { x \<leftarrow> putch c x; put_chars putch cs x }"

lemma put_chars_append: "put_chars putch (cs @ ds) x = do { x \<leftarrow> put_chars putch cs x; put_chars putch ds x }"
  by (induction cs arbitrary: x) (simp_all add: bind_assoc)

lemma put_times_chars: "put_times n putch c x = put_chars putch (replicate n c) x"
  by (induction n arbitrary: x) simp_all

lemma put_digs_chars: "put_digs putch ds x = put_chars putch (map (\<lambda>d. d + (if d \<ge> 10 then 87 else 48)) ds) x"
  by (induction ds arbitrary: x) simp_all

text \<open>The text of a number: padding up to the width, then its digits.\<close>

definition number_text :: "nat \<Rightarrow> nat \<Rightarrow> u32 \<Rightarrow> nat \<Rightarrow> u32 list" where
  "number_text b width padc n =
     replicate (width - length (digits_of b n)) padc @ map digit_char (digits_of b n)"

lemma printnum_text:
  assumes "2 \<le> base" "base \<le> 16"
  shows "printnum putch num base width padc = put_chars putch (number_text (unat base) (nat (sint width)) padc (unat num))"
proof -
  let ?ds = "digits_of (unat base) (unat num)"
  have "(of_nat d + (if (of_nat d :: u32) \<ge> 10 then 87 else 48) :: u32) = digit_char d" if "d \<in> set ?ds" for d
  proof -
    have "d < 16" using digits_of_less [OF _ that] assms by (simp add: word_le_nat_alt)
    then have "unat (of_nat d :: u32) = d" by (simp add: unat_of_nat)
    then show ?thesis by (simp add: digit_char_def word_le_nat_alt)
  qed
  then have "map (\<lambda>d. d + (if d \<ge> 10 then 87 else 48)) (map of_nat ?ds) = map digit_char ?ds" by simp
  moreover have "nat (sint width - int (length ?ds)) = nat (sint width) - length ?ds" by simp
  ultimately show ?thesis
    by (intro ext) (simp add: printnum_def number_digits_of [OF assms(1)] put_times_chars put_digs_chars number_text_def put_chars_append
        del: map_map flip: rev_map)
qed

section \<open>Formats\<close>

text \<open>
  A format as a list of items: characters, numbers with an optional zero flag and a width of one digit (0 for none),
  a character from an argument, and the escaped percent sign.
\<close>

datatype number_kind = Hex | Oct | Uns | Dec

datatype item = Lit u8 | Number number_kind bool nat | Char | Percent

fun kind_char :: "number_kind \<Rightarrow> u8" where
  "kind_char Hex = 120" | "kind_char Oct = 111" | "kind_char Uns = 117" | "kind_char Dec = 100"

fun item_fmt :: "item \<Rightarrow> u8 list" where
  "item_fmt (Lit c) = [c]"
| "item_fmt (Number k zero w) = [37] @ (if zero then [48] else []) @ (if w = 0 then [] else [48 + of_nat w]) @ [kind_char k]"
| "item_fmt Char = [37, 99]"
| "item_fmt Percent = [37, 37]"

fun item_ok :: "item \<Rightarrow> bool" where
  "item_ok (Lit c) \<longleftrightarrow> c \<noteq> 0 \<and> c \<noteq> 37"
| "item_ok (Number k zero w) \<longleftrightarrow> w < 10"
| "item_ok Char \<longleftrightarrow> True"
| "item_ok Percent \<longleftrightarrow> True"

fun takes :: "item \<Rightarrow> bool" where
  "takes (Lit c) = False" | "takes (Number k zero w) = True" | "takes Char = True" | "takes Percent = False"

text \<open>The text of an item for the argument \<open>a\<close>, of which a conversion reads the low half.\<close>

definition kind_text :: "number_kind \<Rightarrow> nat \<Rightarrow> u32 \<Rightarrow> u32 \<Rightarrow> u32 list" where
  "kind_text k w padc v =
     (case k of Hex \<Rightarrow> number_text 16 w padc (unat v) | Oct \<Rightarrow> number_text 8 w padc (unat v) | Uns \<Rightarrow> number_text 10 w padc (unat v)
      | Dec \<Rightarrow> (if sint v < 0 then [45] else []) @ number_text 10 w padc (nat \<bar>sint v\<bar>))"

fun item_text :: "item \<Rightarrow> u64 \<Rightarrow> u32 list" where
  "item_text (Lit c) a = [ucast c]"
| "item_text (Number k zero w) a = kind_text k w (if zero then 48 else 32) (ucast a)"
| "item_text Char a = [ucast a]"
| "item_text Percent a = [37]"

fun render :: "item list \<Rightarrow> u64 list \<Rightarrow> u32 list" where
  "render [] ap = []"
| "render (i # is) ap = item_text i (hd ap) @ render is (if takes i then tl ap else ap)"

primrec placed :: "ram \<Rightarrow> u64 set \<Rightarrow> u64 \<Rightarrow> u8 list \<Rightarrow> bool" where
  "placed m R p [] = True"
| "placed m R p (b # bs) \<longleftrightarrow> ld8 m p = b \<and> p \<in> R \<and> placed m R (p + 1) bs"

lemma placed_append: "placed m R p (bs @ cs) \<longleftrightarrow> placed m R p bs \<and> placed m R (p + of_nat (length bs)) cs"
  by (induction bs arbitrary: p) (auto simp: add.assoc)

lemma placed_cong: "\<forall>a\<in>R. m' a = m a \<Longrightarrow> placed m' R p bs \<longleftrightarrow> placed m R p bs"
  by (induction bs arbitrary: p) (auto simp: ld8_def)

subsection \<open>Steps of the loop\<close>

lemma vprintfmt_text:
  "ld8 (mem x) fmt = c \<Longrightarrow> c \<noteq> 0 \<Longrightarrow> c \<noteq> 37 \<Longrightarrow> vprintfmt putch mem nul Text fmt ap x =
     do { x \<leftarrow> putch (ucast c) x; vprintfmt putch mem nul Text (fmt + 1) ap x }"
  using ucast_u8_u32_inject [of c 0] ucast_u8_u32_inject [of c 37]
  by (subst vprintfmt.simps) (simp add: fmt_step_def bind_assoc)

lemma vprintfmt_end: "ld8 (mem x) fmt = 0 \<Longrightarrow> vprintfmt putch mem nul Text fmt ap x = Some x"
  by (subst vprintfmt.simps) (simp add: fmt_step_def)

lemma vprintfmt_percent:
  "ld8 (mem x) fmt = 37 \<Longrightarrow> vprintfmt putch mem nul Text fmt ap x =
     vprintfmt putch mem nul (Spec (fmt + 1) 32 (- 1) (- 1) 0) (fmt + 1) ap x"
  by (subst vprintfmt.simps) (simp add: fmt_step_def)

lemma vprintfmt_zero:
  "ld8 (mem x) fmt = 48 \<Longrightarrow> vprintfmt putch mem nul (Spec l padc width precision lflag) fmt ap x =
     vprintfmt putch mem nul (Spec l 48 width precision lflag) (fmt + 1) ap x"
  by (subst vprintfmt.simps) (simp add: fmt_step_def fmt_convert_def)

lemma vprintfmt_width:
  assumes "ld8 (mem x) fmt = 48 + of_nat w" "0 < w" "w < 10" "ld8 (mem x) (fmt + 1) = kind_char k"
  shows "vprintfmt putch mem nul (Spec l padc (- 1) (- 1) lflag) fmt ap x =
     vprintfmt putch mem nul (Spec l padc (of_nat w) (- 1) lflag) (fmt + 1) ap x"
proof -
  have w: "w \<in> {1, 2, 3, 4, 5, 6, 7, 8, 9}" using assms(2,3) by auto
  have n: "fmt_number (mem x) 0 (48 + of_nat w) (fmt + 1) = Some (of_nat w, fmt + 1)"
    by (subst fmt_number.simps) (cases k; simp add: assms(4))
  have ch: "(ucast (48 + of_nat w :: u8) :: u32) = 48 + of_nat w" using w by auto
  have "48 + of_nat w \<noteq> (45 :: u32)" "48 + of_nat w \<noteq> (48 :: u32)" "49 \<le> (48 + of_nat w :: u32)" "48 + of_nat w \<le> (57 :: u32)"
    using w by auto
  then show ?thesis
    by (subst vprintfmt.simps) (simp add: fmt_step_def fmt_convert_def assms(1) ch n set_precision_def)
qed

lemma vprintfmt_kind:
  assumes "ld8 (mem x) fmt = kind_char k"
  shows "vprintfmt putch mem nul (Spec l padc width precision 0) fmt (a # ap) x =
     do { x \<leftarrow> put_chars putch (kind_text k (nat (sint width)) padc (ucast a)) x; vprintfmt putch mem nul Text (fmt + 1) ap x }"
proof (cases k)
  case Dec
  let ?v = "ucast a :: u32"
  have v: "getint a 0 = scast ?v" "sint (scast ?v :: u64) = sint ?v" by (simp_all add: getint_def sint_up_scast is_up)
  have w: "(scast ?v :: u64) = word_of_int (sint ?v)" by (rule of_int_sint [symmetric])
  have range: "- (2 ^ 31) \<le> sint ?v" "sint ?v < 2 ^ 31" using sint_range_size [of ?v] by (simp_all add: word_size)
  have small: "unat (word_of_int j :: u64) = nat j" if "0 \<le> j" "j < 2 ^ 32" for j
    using unat_of_nat_u64 [of "nat j"] that by (simp add: nat_less_iff)
  have "- scast ?v = (word_of_int (- sint ?v) :: u64)" unfolding w by simp
  then have "unat (- scast ?v :: u64) = nat (- sint ?v)" if "sint ?v < 0" using that range small [of "- sint ?v"] by simp
  moreover have "unat (scast ?v :: u64) = nat (sint ?v)" if "\<not> sint ?v < 0" unfolding w using that range small [of "sint ?v"] by simp
  ultimately show ?thesis using assms Dec
    by (subst vprintfmt.simps)
      (simp add: fmt_step_def fmt_convert_def with_arg_def print_signed_def v printnum_text kind_text_def bind_assoc bind_map_option comp_def)
qed (use assms in \<open>subst vprintfmt.simps,
    simp add: fmt_step_def fmt_convert_def with_arg_def printnum_text getuint_def kind_text_def
      bind_map_option comp_def\<close>)+

lemma vprintfmt_char:
  "ld8 (mem x) fmt = 99 \<Longrightarrow> vprintfmt putch mem nul (Spec l padc width precision lflag) fmt (a # ap) x =
     do { x \<leftarrow> putch (ucast a) x; vprintfmt putch mem nul Text (fmt + 1) ap x }"
  by (subst vprintfmt.simps) (simp add: fmt_step_def fmt_convert_def with_arg_def bind_map_option comp_def)

lemma vprintfmt_escape:
  "ld8 (mem x) fmt = 37 \<Longrightarrow> vprintfmt putch mem nul (Spec l padc width precision lflag) fmt ap x =
     do { x \<leftarrow> putch 37 x; vprintfmt putch mem nul Text (fmt + 1) ap x }"
  by (subst vprintfmt.simps) (simp add: fmt_step_def fmt_convert_def bind_map_option comp_def)

lemma vprintfmt_item:
  assumes "placed (mem x) R fmt (item_fmt i)" "item_ok i" "takes i \<longrightarrow> ap \<noteq> []"
  shows "vprintfmt putch mem nul Text fmt ap x =
    do { x \<leftarrow> put_chars putch (item_text i (hd ap)) x;
         vprintfmt putch mem nul Text (fmt + of_nat (length (item_fmt i))) (if takes i then tl ap else ap) x }"
proof (cases i)
  case (Number k zero w)
  let ?p = "fmt + 1 + (if zero then 1 else 0)"
  obtain a ap' where ap: "ap = a # ap'" using assms(3) Number by (cases ap) auto
  have at: "ld8 (mem x) fmt = 37" "zero \<Longrightarrow> ld8 (mem x) (fmt + 1) = 48" "w \<noteq> 0 \<Longrightarrow> ld8 (mem x) ?p = 48 + of_nat w"
      "ld8 (mem x) (?p + (if w = 0 then 0 else 1)) = kind_char k"
    using assms(1) by (auto simp: Number split: if_splits)
  have "vprintfmt putch mem nul Text fmt ap x = vprintfmt putch mem nul (Spec (fmt + 1) (if zero then 48 else 32) (- 1) (- 1) 0) ?p ap x"
    using at(1,2) by (simp add: vprintfmt_percent vprintfmt_zero)
  also have "\<dots> = vprintfmt putch mem nul (Spec (fmt + 1) (if zero then 48 else 32) (if w = 0 then - 1 else of_nat w) (- 1) 0)
      (?p + (if w = 0 then 0 else 1)) ap x"
  proof (cases "w = 0")
    case False
    have "vprintfmt putch mem nul (Spec (fmt + 1) (if zero then 48 else 32) (- 1) (- 1) 0) ?p ap x =
        vprintfmt putch mem nul (Spec (fmt + 1) (if zero then 48 else 32) (of_nat w) (- 1) 0) (?p + 1) ap x"
      using False at(4) assms(2) by (intro vprintfmt_width [where k = k] at(3)) (simp_all only: if_False item_ok.simps Number, simp)
    then show ?thesis using False by simp
  qed simp
  also have "\<dots> = do { x \<leftarrow> put_chars putch (kind_text k (nat (sint (if w = 0 then - 1 else of_nat w :: u32))) (if zero then 48 else 32) (ucast a)) x;
      vprintfmt putch mem nul Text (?p + (if w = 0 then 0 else 1) + 1) ap' x }"
    unfolding ap by (rule vprintfmt_kind [of mem, OF at(4)])
  also have "nat (sint (if w = 0 then - 1 else of_nat w :: u32)) = w"
  proof -
    have "w \<in> {0, 1, 2, 3, 4, 5, 6, 7, 8, 9}" using assms(2) Number by auto
    then show ?thesis by auto
  qed
  finally show ?thesis by (simp add: Number ap add.assoc)
qed (use assms in \<open>auto simp: vprintfmt_text vprintfmt_percent vprintfmt_char vprintfmt_escape add.assoc neq_Nil_conv\<close>)

subsection \<open>The whole format\<close>

text \<open>A writer takes a number of characters and leaves the addresses \<open>R\<close>, in which the format lies, alone.\<close>

locale writer =
  fixes putch :: "'x putch" and mem :: "'x \<Rightarrow> ram" and ok :: "nat \<Rightarrow> 'x \<Rightarrow> bool" and R :: "u64 set"
  assumes putch_total: "ok (Suc n) x \<Longrightarrow> \<exists>x'. putch c x = Some x' \<and> ok n x' \<and> (\<forall>a\<in>R. mem x' a = mem x a)"
begin

lemma put_chars_total: "ok (length cs + n) x \<Longrightarrow> \<exists>x'. put_chars putch cs x = Some x' \<and> ok n x' \<and> (\<forall>a\<in>R. mem x' a = mem x a)"
proof (induction cs arbitrary: x)
  case (Cons c cs)
  obtain y where y: "putch c x = Some y" "ok (length cs + n) y" "\<forall>a\<in>R. mem y a = mem x a"
    using putch_total [of "length cs + n" x c] Cons(2) by auto
  then show ?case using Cons(1) [OF y(2)] by auto
qed simp

lemma vprintfmt_renders:
  "ok (length (render is ap)) x \<Longrightarrow> placed (mem x) R fmt (concat (map item_fmt is) @ [0]) \<Longrightarrow> list_all item_ok is \<Longrightarrow> length (filter takes is) \<le> length ap \<Longrightarrow>
     vprintfmt putch mem nul Text fmt ap x = put_chars putch (render is ap) x"
proof (induction "is" arbitrary: fmt ap x)
  case Nil
  then show ?case by (simp add: vprintfmt_end)
next
  case (Cons i "is")
  let ?fmt = "fmt + of_nat (length (item_fmt i))" and ?ap = "if takes i then tl ap else ap"
  have i: "placed (mem x) R fmt (item_fmt i)" "placed (mem x) R ?fmt (concat (map item_fmt is) @ [0])" "item_ok i" "takes i \<longrightarrow> ap \<noteq> []"
    using Cons(3-5) by (auto simp: placed_append)
  obtain y where y: "put_chars putch (item_text i (hd ap)) x = Some y" "ok (length (render is ?ap)) y" "\<forall>a\<in>R. mem y a = mem x a"
    using put_chars_total [where cs = "item_text i (hd ap)" and n = "length (render is ?ap)" and x = x] Cons(2) by auto
  have "vprintfmt putch mem nul Text fmt ap x = vprintfmt putch mem nul Text ?fmt ?ap y"
    using vprintfmt_item [of mem x R fmt i ap putch nul] i(1,3,4) y(1) by simp
  also have "\<dots> = put_chars putch (render is ?ap) y"
    using Cons(1) [OF y(2), of ?fmt] i(2) Cons(4,5) by (auto simp: placed_cong [OF y(3)] split: if_splits)
  finally show ?case using y(1) by (simp add: put_chars_append)
qed

end

section \<open>Formatting into memory\<close>

definition room :: "u64 set \<Rightarrow> nat \<Rightarrow> u64 \<times> 'd world \<Rightarrow> bool" where
  "room R n st \<longleftrightarrow> (\<forall>i<n. fst st + of_nat i \<notin> R)"

interpretation memory_writer: writer sprintf_putch "\<lambda>(str, s). ram s" "room R" R for R
proof
  fix n c and st :: "u64 \<times> 'd world"
  assume r: "room R (Suc n) st"
  obtain str s where st: "st = (str, s)" by (cases st)
  have "str \<notin> R" using r by (auto simp: room_def st dest: spec [of _ 0])
  moreover have "str + 1 + of_nat i \<notin> R" if "i < n" for i
    using r that by (auto simp: room_def st add.assoc dest: spec [of _ "Suc i"])
  ultimately show "\<exists>st'. sprintf_putch c st = Some st' \<and> room R n st' \<and> (\<forall>a\<in>R. (case st' of (str, s) \<Rightarrow> ram s) a = (case st of (str, s) \<Rightarrow> ram s) a)"
    by (auto simp: st sprintf_putch_def room_def wst8_def st8_def)
qed

lemma put_chars_memory:
  "put_chars sprintf_putch cs (str, s) = Some (str + of_nat (length cs), s\<lparr>ram := put_bytes st8 (ram s) str (map ucast cs)\<rparr>)"
  by (induction cs arbitrary: str s) (simp_all add: sprintf_putch_def wst8_def add.assoc)

lemma ucast_of_nat_u32 [simp]: "(ucast (of_nat n :: u64) :: u32) = of_nat n"
  by (rule bit_word_eqI) (simp add: bit_simps)

text \<open>\<^verbatim>\<open>sprintf\<close> writes the text of the format and a null, and returns its length.\<close>

text \<open>
  \<^bold>\<open>C34\<close>: For a format of characters, numbers in four radices with an optional
  zero flag and width, characters and percent signs, sprintf of the user library writes exactly the
  text of the format and a null, and returns its length.
\<close>

theorem sprintf_renders:
  assumes "placed (ram s) R fmt (concat (map item_fmt is) @ [0])" "list_all item_ok is" "length (filter takes is) \<le> length ap"
    and "\<forall>i < length (render is ap). str + of_nat i \<notin> R"
  shows "sprintf nul str fmt ap s = Some (of_nat (length (render is ap)),
    s\<lparr>ram := put_bytes st8 (ram s) str (map ucast (render is ap) @ [0])\<rparr>)"
proof -
  have "vprintfmt sprintf_putch (\<lambda>(str, s). ram s) nul Text fmt ap (str, s) = put_chars sprintf_putch (render is ap) (str, s)"
    using assms by (intro memory_writer.vprintfmt_renders [where R = R]) (simp_all add: room_def)
  then show ?thesis
    by (simp add: sprintf_def put_chars_memory wst8_def put_bytes_append)
qed

end
