(* ===== verification/UserCalls.thy ===== *)
theory UserCalls
  imports UserApi TrapProps Liveness
begin

text \<open>
  The calls of the user library, seen from the program: each \<^verbatim>\<open>ecall\<close> reaches the system call its number is meant
  for, with the arguments in place, and a decryption runs from the program through the kernel and machine mode to the
  engine and back.
\<close>

section \<open>From the program to the system call\<close>

lemma user_ecall_syscall:
  "user_ecall C bound s =
     (let R = bind_regs bound (other_regs C)
      in map_option snd (do_syscall (kernel C) (kernel_frame C) (R 10) (R 11) (R 12) (R 13) (R 14) (R 15) (R 17) s))"
proof -
  let ?tf = "user_tf C bound"
  have "handle_trap (kernel C) (kernel_frame C) ?tf s = handle_syscall (kernel C) (kernel_frame C) ?tf s"
    by (simp add: handle_trap_def trap_handlers_def user_tf_def CAUSE_FETCH_PAGE_FAULT_def
        CAUSE_MISALIGNED_FETCH_def CAUSE_FETCH_ACCESS_def CAUSE_LOAD_ACCESS_def CAUSE_STORE_ACCESS_def CAUSE_ILLEGAL_INSTRUCTION_def
        CAUSE_USER_ECALL_def)
  moreover have "gpr ?tf ! i = bind_regs bound (other_regs C) i" if "i < 32" for i
    using that by (simp add: user_tf_def)
  ultimately show ?thesis
    by (cases "do_syscall (kernel C) (kernel_frame C) (gpr ?tf ! 10) (gpr ?tf ! 11) (gpr ?tf ! 12) (gpr ?tf ! 13)
        (gpr ?tf ! 14) (gpr ?tf ! 15) (gpr ?tf ! 17) s")
      (simp_all add: user_ecall_def handle_syscall_def Let_def split_beta)
qed

lemma snd_to_long [simp]: "map_option snd (to_long x) = map_option snd x"
  by (cases x) (simp_all add: to_long_def split_beta)

lemmas user_call = user_ecall_syscall do_syscall_table syscall_table_def kernel_calls_def engine_calls_def user_call_numbers

lemma user_aes0_calls:
  "user_ecall C [(10, a), (11, b), (12, scast k), (17, scast SYS_AES0_START_DECRY)] s =
     map_option snd (sys_aes0_start_decry (kernel C) (kernel_frame C) a b k s)"
  "user_ecall C [(17, scast SYS_AES0_WAIT)] s = map_option snd (sys_aes0_wait (kernel C) (kernel_frame C) s)"
  "user_ecall C [(10, a), (17, scast SYS_AES0_DATA_OUT)] s =
     map_option snd (sys_aes0_data_out (kernel C) (kernel_frame C) a (ucast (other_regs C 11)) s)"
  by (simp_all add: user_call Let_def)

text \<open>The functions of one call: the system call of the same purpose, with the same arguments.\<close>

definition kernel_call :: "'d client \<Rightarrow> ('d platform \<Rightarrow> frame \<Rightarrow> 'd world \<Rightarrow> (u32 \<times> 'd world) option) \<Rightarrow> 'd world \<Rightarrow> 'd world option" where
  "kernel_call C call s = map_option snd (call (kernel C) (kernel_frame C) s)"

theorem api_single_calls:
  "api_rsa_write_prime_num C a = kernel_call C (\<lambda>P F. sys_rsa_write_prime_num P F a) \<and>
   api_rsa_write_msg_in C a k = kernel_call C (\<lambda>P F. sys_rsa_write_msg_in P F a k) \<and>
   api_rsa_read_msg_out C a = kernel_call C (\<lambda>P F. sys_rsa_read_msg_out P F a) \<and>
   api_rng_read_poly C a b c d = kernel_call C (\<lambda>P F. sys_rng_read_poly P F a b c d) \<and>
   api_rng_write_poly C a b c d = kernel_call C (\<lambda>P F. sys_rng_write_poly P F a b c d) \<and>
   api_rng_write_seed C a = kernel_call C (\<lambda>P F. sys_rng_write_seed P F a) \<and>
   api_aes1_read_data C a = kernel_call C (\<lambda>P F. sys_aes1_read_data P F a) \<and>
   api_aes1_write_data C a k = kernel_call C (\<lambda>P F. sys_aes1_write_data P F a k) \<and>
   api_aes1_read_config C a = kernel_call C (\<lambda>P F. sys_aes1_read_config P F a) \<and>
   api_aes1_write_config C k = kernel_call C (\<lambda>P F. sys_aes1_write_config P F k) \<and>
   api_sha256_hashString C a b = kernel_call C (\<lambda>P F. sys_sha256_hash P F a b) \<and>
   api_hmac_hashString C a b k = kernel_call C (\<lambda>P F. sys_hmac_hash P F a b k) \<and>
   api_dma_transfer_to_perif C a b k w = kernel_call C (\<lambda>P F. sys_dma_copy_to_perif P F a b (k - 1) w) \<and>
   api_dma_transfer_from_perif C a b k w = kernel_call C (\<lambda>P F. sys_dma_copy_from_perif P F a b (k - 1) w) \<and>
   api_dma_transfer_from_perif_to_perif C a b k w = kernel_call C (\<lambda>P F. sys_dma_copy P F a b (k - 1) w) \<and>
   api_dma_end C = kernel_call C sys_dma_end"
  unfolding fun_eq_iff kernel_call_def
    api_rsa_write_prime_num_def api_rsa_write_msg_in_def api_rsa_read_msg_out_def api_rng_read_poly_def api_rng_write_poly_def
    api_rng_write_seed_def api_aes1_read_data_def api_aes1_write_data_def api_aes1_read_config_def api_aes1_write_config_def
    api_sha256_hashString_def api_hmac_hashString_def api_dma_transfer_to_perif_def api_dma_transfer_from_perif_def
    api_dma_transfer_from_perif_to_perif_def api_dma_end_def
  by (intro conjI allI; simp add: user_call Let_def)

section \<open>What the calls leave alone\<close>

lemma sys_aes0_start_decry_frame:
  assumes "sys_aes0_start_decry P F ct st k s = Some (r, s')"
  shows "aes0 s' = aes0 s \<and> mmap_max s' = mmap_max s"
proof (cases "valid_user_range ct 16 s \<and> valid_user_range st 16 s")
  case True
  obtain m where "copy_words 4 (fr_local F 0) ct s = s\<lparr>ram := m\<rparr>" using copy_words_ram by blast
  moreover obtain m' where "copy_words 4 (fr_local F 1) st (s\<lparr>ram := m\<rparr>) = s\<lparr>ram := m\<rparr>\<lparr>ram := m'\<rparr>"
    using copy_words_ram by blast
  ultimately obtain s1 where enter: "ecall P F [(10, fr_local F 0), (11, fr_local F 1), (12, scast k), (17, SBI_AES0_START_ENCRYPT)]
      (s\<lparr>ram := m'\<rparr>) = Some s1" and rest: "do { s \<leftarrow> wipe (fr_local F 0) 16 s1; wipe (fr_local F 1) 16 s } = Some s'"
    using assms True by (auto simp: sys_aes0_start_decry_def bind_eq_Some_conv)
  obtain q where "engine_start (bus_of P) (aes0 s) AES0_KEY_SEL AES0_PT_BASE AES0_ST_BASE AES0_START (fr_local F 0) (fr_local F 1) k
      (write_csr MEPC (fr_epc F + 4) (s\<lparr>ram := m'\<rparr>)) = Some (q, s1)"
    using enter by (auto simp: ecall_starts start_is_engine_start)
  then have "io_step (write_csr MEPC (fr_epc F + 4) (s\<lparr>ram := m'\<rparr>)) s1" by (rule engine_start_sends(1))
  then have "aes0 s1 = aes0 s \<and> mmap_max s1 = mmap_max s" by (simp add: io_step_fields)
  moreover have "\<exists>m. s' = s1\<lparr>ram := m\<rparr>" using rest by (auto simp: wipe_def bind_eq_Some_conv)
  ultimately show ?thesis by auto
qed (use assms in \<open>simp add: sys_aes0_start_decry_def\<close>)

lemma sys_aes0_wait_runs:
  assumes "responsive (bus_of P) (aes0 s) AES0_DONE 4"
  obtains s0 where "sys_aes0_wait P F s = Some (0, snd (readFromAddress (bus_of P) (aes0 s) AES0_DONE s0))"
    "fst (readFromAddress (bus_of P) (aes0 s) AES0_DONE s0) \<noteq> 0" "io_step (write_csr MEPC (fr_epc F + 4) s) s0" "ram s0 = ram s"
    "sent s0 = sent s"
proof -
  let ?s = "write_csr MEPC (fr_epc F + 4) s"
  obtain s1 where s1: "wait_nonzero (bus_of P) (aes0 s) AES0_DONE 4 ?s = Some s1" using responsive_wait [OF assms] .
  obtain s0 where s0: "io_step ?s s0" "ram s0 = ram ?s" "fst (readFromAddress (bus_of P) (aes0 s) AES0_DONE s0) \<noteq> 0"
      "s1 = snd (readFromAddress (bus_of P) (aes0 s) AES0_DONE s0)" "sent s1 = sent s"
    using wait_nonzero_io [OF s1] by auto
  have "sent s0 = sent s" using s0(4,5) by (simp add: io_simps)
  moreover have "sys_aes0_wait P F s = Some (0, s1)"
    by (simp add: sys_aes0_wait_def ecall_mcall mcall_def sbi_numbers snd_ret0 mcall_drivers aes0_wait_def s1)
  ultimately show ?thesis using s0 that by simp
qed

section \<open>A decryption, from the program to the engine\<close>

text \<open>A state in which the program may ask for a decryption of \<open>ct\<close> with the state block \<open>st\<close> into \<open>pt\<close>.\<close>

definition may_decrypt :: "'d client \<Rightarrow> u64 \<Rightarrow> u64 \<Rightarrow> u64 \<Rightarrow> 'd world \<Rightarrow> bool" where
  "may_decrypt C ct st pt s \<longleftrightarrow>
     (let F = kernel_frame C
      in valid_user_range ct 16 s \<and> valid_user_range st 16 s \<and> valid_user_range pt 16 s \<and>
         kernel_local F 0 16 s \<and> kernel_local F 1 16 s \<and> apart (fr_local F 1) 16 (fr_local F 0) 16)"

lemma apart_outside: "apart a n b k \<Longrightarrow> unat (x - a) < n \<Longrightarrow> \<not> unat (x - b) < k"
proof
  assume "apart a n b k" "unat (x - a) < n" "unat (x - b) < k"
  then have "a + of_nat (unat (x - a)) \<noteq> b + of_nat (unat (x - b))" unfolding apart_def by blast
  then show False by simp
qed

lemma wiped_after_store:
  assumes "apart t (4 * length ws) l1 n" "length ws < 2 ^ 60" "n \<le> 2 ^ 60"
  shows "put_bytes st8 (st_words (put_bytes st8 (put_bytes st8 m l0 (replicate n 0)) l1 (replicate n 0)) t ws) l0 (replicate n 0) =
    put_bytes st8 (put_bytes st8 (st_words m t ws) l0 (replicate n 0)) l1 (replicate n 0)"
proof
  fix x
  have len: "length (concat (map (le_bytes 4) (ws :: u32 list))) = 4 * length ws"
    by (induction ws) auto
  show "put_bytes st8 (st_words (put_bytes st8 (put_bytes st8 m l0 (replicate n 0)) l1 (replicate n 0)) t ws) l0 (replicate n 0) x =
      put_bytes st8 (put_bytes st8 (st_words m t ws) l0 (replicate n 0)) l1 (replicate n 0) x"
    using apart_outside [OF assms(1), of x] assms(2,3)
    by (auto simp: st_words_bytes put_bytes_ram len)
qed

text \<open>
  \<^bold>\<open>C4\<close>: The library function aes0_decrypt of a user program returns whenever
  the engine keeps answering: its three calls go through the trap handler, the dispatch table and
  machine mode, send exactly the words of the cipher text and the state block, store the four words
  that the engine shows once it is done at the user pointer, and leave the two kernel copies wiped
  and every other byte unchanged.
\<close>

theorem api_aes0_decrypt_runs:
  assumes "responsive (bus_of (kernel C)) (aes0 s) AES0_START 1" "responsive (bus_of (kernel C)) (aes0 s) AES0_DONE 4"
    and "may_decrypt C ct st pt s"
  shows "\<exists>s' s0. api_aes0_decrypt C ct st pt key_sel s = Some s' \<and>
    sent s' = sent s @ aes0_cmds (aes0 s) (ld_words (ram s) ct 4) (ld_words (ram s) st 4) key_sel \<and> sent s0 = sent s' \<and>
    fst (readFromAddress (bus_of (kernel C)) (aes0 s) AES0_DONE s0) \<noteq> 0 \<and>
    ram s' = put_bytes st8 (put_bytes st8
      (st_words (ram s) pt (block_got (bus_of (kernel C)) (aes0 s) AES0_CT_BASE 4 (snd (readFromAddress (bus_of (kernel C)) (aes0 s) AES0_DONE s0))))
      (fr_local (kernel_frame C) 0) (replicate 16 0)) (fr_local (kernel_frame C) 1) (replicate 16 0)"
proof -
  let ?P = "kernel C" and ?F = "kernel_frame C" and ?B = "bus_of (kernel C)" and ?b = "aes0 s"
  let ?l0 = "fr_local ?F 0" and ?l1 = "fr_local ?F 1"
  note ok = assms(3) [unfolded may_decrypt_def Let_def]
  obtain s1 where s1: "sys_aes0_start_decry ?P ?F ct st key_sel s = Some (0, s1)"
      "sent s1 = sent s @ aes0_cmds ?b (ld_words (ram s) ct 4) (ld_words (ram s) st 4) key_sel"
      "ram s1 = put_bytes st8 (put_bytes st8 (ram s) ?l0 (replicate 16 0)) ?l1 (replicate 16 0)"
    using sys_aes0_start_decry_runs [OF assms(1), of ct st ?F key_sel] ok by blast
  have f1: "aes0 s1 = ?b" "mmap_max s1 = mmap_max s" using sys_aes0_start_decry_frame [OF s1(1)] by simp_all
  obtain s0 where s0: "sys_aes0_wait ?P ?F s1 = Some (0, snd (readFromAddress ?B ?b AES0_DONE s0))"
      "fst (readFromAddress ?B ?b AES0_DONE s0) \<noteq> 0" "io_step (write_csr MEPC (fr_epc ?F + 4) s1) s0" "ram s0 = ram s1" "sent s0 = sent s1"
    using sys_aes0_wait_runs [of ?P s1 ?F] assms(2) unfolding f1 by metis
  let ?s2 = "snd (readFromAddress ?B ?b AES0_DONE s0)" let ?ws = "block_got ?B ?b AES0_CT_BASE 4 ?s2"
  have "io_step s0 ?s2" by simp
  then have "io_step (write_csr MEPC (fr_epc ?F + 4) s1) ?s2" using s0(3) io_step_trans by blast
  then have f2: "aes0 ?s2 = ?b" "mmap_max ?s2 = mmap_max s"
    using f1 io_step_fields(2,3) by fastforce+
  have f0: "aes0 s0 = ?b" "mmap_max s0 = mmap_max s" using io_step_fields(2,3) [OF s0(3)] f1 by simp_all
  then have ok2: "valid_user_range pt 16 ?s2" "kernel_local ?F 0 16 ?s2"
    using ok by (simp_all add: valid_user_range_iff_runs kernel_local_def f0)
  obtain s3 where s3: "sys_aes0_data_out ?P ?F pt (ucast (other_regs C 11)) ?s2 = Some (0, s3)"
      "ram s3 = put_bytes st8 (st_words (ram s1) pt ?ws) ?l0 (replicate 16 0)" "sent s3 = sent s1"
    using sys_aes0_data_out_runs [OF ok2, of ?P "ucast (other_regs C 11)"] s0(4,5)
    by (auto simp: delivers_def f0 f2 world_simps io_simps)
  have "api_aes0_decrypt C ct st pt key_sel s = Some s3"
    by (simp add: api_aes0_decrypt_def user_aes0_calls s1(1) s0(1) s3(1))
  moreover have "ram s3 = put_bytes st8 (put_bytes st8 (st_words (ram s) pt ?ws) ?l0 (replicate 16 0)) ?l1 (replicate 16 0)"
  proof -
    have "apart pt 16 ?l0 16" "apart pt 16 ?l1 16" "apart ?l1 16 ?l0 16"
      using user_kernel_apart [of pt 16 s ?F 0 16 16] user_kernel_apart [of pt 16 s ?F 1 16 16] ok by simp_all
    then show ?thesis unfolding s3(2) s1(3) by (intro wiped_after_store) simp_all
  qed
  ultimately show ?thesis using s1(2) s3(3) s0(2,5) by (intro exI [of _ s3] exI [of _ s0]) simp
qed

end
