(* ===== verification/BootRom.thy ===== *)
theory BootRom
  imports Machine
begin

text \<open>
  The boot ROM (\<^verbatim>\<open>fpga/src/bootrom/src\<close>): it brings up the serial port and the SPI controller, initialises an SD card,
  reads the partition table and copies the first partition to the start of memory, where it jumps to.

  String literals are lists of characters. A poll that need not end is a partial function. The addresses of the
  locals and of the device tree are those of \<open>rom_frame\<close>.
\<close>

record rom_frame =
  ff_buf :: u64
  lba1_buf :: u64
  lba2_buf :: u64
  rom_dtb :: u64

section \<open>The serial port\<close>

definition UART_BASE :: u64 where "UART_BASE = 0x10000000"
definition UART_THR :: u64 where "UART_THR = UART_BASE + 0"
definition UART_INTERRUPT_ENABLE :: u64 where "UART_INTERRUPT_ENABLE = UART_BASE + 4"
definition UART_FIFO_CONTROL :: u64 where "UART_FIFO_CONTROL = UART_BASE + 8"
definition UART_LINE_CONTROL :: u64 where "UART_LINE_CONTROL = UART_BASE + 12"
definition UART_MODEM_CONTROL :: u64 where "UART_MODEM_CONTROL = UART_BASE + 16"
definition UART_LINE_STATUS :: u64 where "UART_LINE_STATUS = UART_BASE + 20"
definition UART_DLAB_LSB :: u64 where "UART_DLAB_LSB = UART_BASE + 0"
definition UART_DLAB_MSB :: u64 where "UART_DLAB_MSB = UART_BASE + 4"

definition write_reg_u8 :: "'d bus \<Rightarrow> u64 \<Rightarrow> u8 \<Rightarrow> 'd world \<Rightarrow> 'd world" where
  "write_reg_u8 B addr value s = mmio_wr B 1 addr (ucast value) s"

definition read_reg_u8 :: "'d bus \<Rightarrow> u64 \<Rightarrow> 'd world \<Rightarrow> u8 \<times> 'd world" where
  "read_reg_u8 B addr s = (let (v, s) = mmio_rd B 1 addr s in (ucast v, s))"

definition is_transmit_empty :: "'d bus \<Rightarrow> 'd world \<Rightarrow> u32 \<times> 'd world" where
  "is_transmit_empty B s = (let (v, s) = read_reg_u8 B UART_LINE_STATUS s in (ucast v AND 0x20, s))"

partial_function (option) transmit_wait :: "'d bus \<Rightarrow> 'd world \<Rightarrow> 'd world option" where
  "transmit_wait B s = (let (v, s) = is_transmit_empty B s in if v = 0 then transmit_wait B s else Some s)"

definition write_serial :: "'d bus \<Rightarrow> u8 \<Rightarrow> 'd world \<Rightarrow> 'd world option" where
  "write_serial B a s = do { s \<leftarrow> transmit_wait B s; Some (write_reg_u8 B UART_THR a s) }"

definition init_uart :: "'d bus \<Rightarrow> u32 \<Rightarrow> u32 \<Rightarrow> 'd world \<Rightarrow> 'd world" where
  "init_uart B freq baud s =
     (let divisor = freq div push_bit 4 baud;
          s = write_reg_u8 B UART_INTERRUPT_ENABLE 0x00 s;
          s = write_reg_u8 B UART_LINE_CONTROL 0x80 s;
          s = write_reg_u8 B UART_DLAB_LSB (ucast divisor) s;
          s = write_reg_u8 B UART_DLAB_MSB (ucast (drop_bit 8 divisor AND 0xFF)) s;
          s = write_reg_u8 B UART_LINE_CONTROL 0x03 s;
          s = write_reg_u8 B UART_FIFO_CONTROL 0xC7 s
      in write_reg_u8 B UART_MODEM_CONTROL 0x20 s)"

primrec print_uart :: "'d bus \<Rightarrow> string \<Rightarrow> 'd world \<Rightarrow> 'd world option" where
  "print_uart B [] s = Some s"
| "print_uart B (c # cs) s = do { s \<leftarrow> write_serial B (of_char c) s; print_uart B cs s }"

definition bin_to_hex_table :: "u8 list" where
  "bin_to_hex_table = map of_char ''0123456789ABCDEF''"

definition bin_to_hex :: "u8 \<Rightarrow> u8 \<times> u8" where
  "bin_to_hex inp = (bin_to_hex_table ! unat (drop_bit 4 inp AND 0xF), bin_to_hex_table ! unat (inp AND 0xF))"

definition print_uart_byte :: "'d bus \<Rightarrow> u8 \<Rightarrow> 'd world \<Rightarrow> 'd world option" where
  "print_uart_byte B byte s = do {
     let (h, l) = bin_to_hex byte;
     s \<leftarrow> write_serial B h s;
     write_serial B l s }"

text \<open>The loops over the bytes of a number, the most significant first.\<close>

primrec print_hex_loop :: "nat \<Rightarrow> 'd bus \<Rightarrow> u64 \<Rightarrow> 'd world \<Rightarrow> 'd world option" where
  "print_hex_loop 0 B addr s = Some s"
| "print_hex_loop (Suc i) B addr s = do {
     s \<leftarrow> print_uart_byte B (ucast (drop_bit (i * 8) addr AND 0xFF)) s;
     print_hex_loop i B addr s }"

definition print_uart_int :: "'d bus \<Rightarrow> u32 \<Rightarrow> 'd world \<Rightarrow> 'd world option" where
  "print_uart_int B addr s = print_hex_loop 4 B (ucast addr) s"

definition print_uart_addr :: "'d bus \<Rightarrow> u64 \<Rightarrow> 'd world \<Rightarrow> 'd world option" where
  "print_uart_addr B addr s = print_hex_loop 8 B addr s"

definition CRLF :: string where "CRLF = [CHR 0x0D, CHR 0x0A]"
definition TAB :: string where "TAB = [CHR 0x09]"

section \<open>The SPI controller\<close>

definition SPI_BASE :: u64 where "SPI_BASE = 0x20000000"
definition SPI_RESET_REG :: u64 where "SPI_RESET_REG = SPI_BASE + 0x40"
definition SPI_CONTROL_REG :: u64 where "SPI_CONTROL_REG = SPI_BASE + 0x60"
definition SPI_STATUS_REG :: u64 where "SPI_STATUS_REG = SPI_BASE + 0x64"
definition SPI_TRANSMIT_REG :: u64 where "SPI_TRANSMIT_REG = SPI_BASE + 0x68"
definition SPI_RECEIVE_REG :: u64 where "SPI_RECEIVE_REG = SPI_BASE + 0x6C"
definition SPI_SLAVE_SELECT_REG :: u64 where "SPI_SLAVE_SELECT_REG = SPI_BASE + 0x70"

definition write_reg :: "'d bus \<Rightarrow> u64 \<Rightarrow> u32 \<Rightarrow> 'd world \<Rightarrow> 'd world" where
  "write_reg B addr value s = mmio_wr B 4 addr (ucast value) s"

definition read_reg :: "'d bus \<Rightarrow> u64 \<Rightarrow> 'd world \<Rightarrow> u32 \<times> 'd world" where
  "read_reg B addr s = (let (v, s) = mmio_rd B 4 addr s in (ucast v, s))"

definition print_status_reg :: "'d bus \<Rightarrow> 'd world \<Rightarrow> 'd world option" where
  "print_status_reg B s = do {
     let (status, s) = read_reg B SPI_STATUS_REG s;
     s \<leftarrow> print_uart B ''status: 0x'' s;
     s \<leftarrow> print_uart_addr B (ucast status) s;
     print_uart B CRLF s }"

definition spi_init :: "'d bus \<Rightarrow> 'd world \<Rightarrow> 'd world option" where
  "spi_init B s = do {
     s \<leftarrow> print_uart B (''init SPI'' @ CRLF) s;
     let s = write_reg B SPI_RESET_REG 0x0a s;
     let s = do_delay 10 s;
     let s = write_reg B SPI_CONTROL_REG 0x104 s;
     s \<leftarrow> print_status_reg B s;
     let s = write_reg B SPI_CONTROL_REG 0x166 s;
     s \<leftarrow> print_status_reg B s;
     let s = write_reg B SPI_CONTROL_REG 0x06 s;
     print_uart B (''SPI initialized!'' @ CRLF) s }"

partial_function (option) receive_wait :: "'d bus \<Rightarrow> 'd world \<Rightarrow> 'd world option" where
  "receive_wait B s = (let (status, s) = read_reg B SPI_STATUS_REG s in if status AND 1 = 1 then receive_wait B s else Some s)"

definition spi_txrx :: "'d bus \<Rightarrow> u8 \<Rightarrow> 'd world \<Rightarrow> (u8 \<times> 'd world) option" where
  "spi_txrx B byte s = do {
     let s = write_reg B SPI_SLAVE_SELECT_REG 0xfffffffe s;
     let s = write_reg B SPI_TRANSMIT_REG (ucast byte) s;
     let s = do_delay 100 s;
     let s = write_reg B SPI_CONTROL_REG 0x106 s;
     s \<leftarrow> receive_wait B s;
     let (result, s) = read_reg B SPI_RECEIVE_REG s;
     let (status, s) = read_reg B SPI_STATUS_REG s;
     s \<leftarrow> (if status AND 1 \<noteq> 1 then do {
              s \<leftarrow> print_uart B ''rx fifo not empty?? '' s;
              let (status, s) = read_reg B SPI_STATUS_REG s;
              s \<leftarrow> print_uart_addr B (ucast status) s;
              print_uart B CRLF s }
            else Some s);
     let s = write_reg B SPI_SLAVE_SELECT_REG 0xffffffff s;
     let s = write_reg B SPI_CONTROL_REG 0x06 s;
     Some (ucast result, s) }"

primrec spi_transmit :: "nat \<Rightarrow> 'd bus \<Rightarrow> u64 \<Rightarrow> 'd world \<Rightarrow> 'd world" where
  "spi_transmit 0 B bytes s = s"
| "spi_transmit (Suc n) B bytes s =
     spi_transmit n B (bytes + 1) (write_reg B SPI_TRANSMIT_REG (ucast (ld8 (ram s) bytes) AND 0xff) s)"

partial_function (option) spi_receive :: "'d bus \<Rightarrow> u64 \<Rightarrow> u32 \<Rightarrow> u32 \<Rightarrow> 'd world \<Rightarrow> 'd world option" where
  "spi_receive B ret i len s =
     (if i < len then
        (let (status, s) = read_reg B SPI_STATUS_REG s in
         if status AND 1 \<noteq> 1 then
           (let (v, s) = read_reg B SPI_RECEIVE_REG s
            in spi_receive B ret (i + 1) len (wst8 s (ret + ucast i) (ucast v)))
         else spi_receive B ret i len s)
      else Some s)"

definition spi_write_bytes :: "'d bus \<Rightarrow> u64 \<Rightarrow> u32 \<Rightarrow> u64 \<Rightarrow> 'd world \<Rightarrow> (u32 \<times> 'd world) option" where
  "spi_write_bytes B bytes len ret s =
     (if len > 256 then Some (- 1, s)
      else do {
        let s = write_reg B SPI_SLAVE_SELECT_REG 0xfffffffe s;
        let s = spi_transmit (unat len) B bytes s;
        let s = do_delay 50 s;
        let s = write_reg B SPI_CONTROL_REG 0x106 s;
        s \<leftarrow> receive_wait B s;
        s \<leftarrow> spi_receive B ret 0 len s;
        let s = write_reg B SPI_SLAVE_SELECT_REG 0xffffffff s;
        let s = write_reg B SPI_CONTROL_REG 0x06 s;
        Some (0, s) })"

section \<open>The SD card\<close>

definition SD_CMD_STOP_TRANSMISSION :: u8 where "SD_CMD_STOP_TRANSMISSION = 12"
definition SD_CMD_READ_BLOCK_MULTIPLE :: u8 where "SD_CMD_READ_BLOCK_MULTIPLE = 18"
definition SD_DATA_TOKEN :: u8 where "SD_DATA_TOKEN = 0xfe"
definition SD_COPY_ERROR_CMD18_CRC :: u32 where "SD_COPY_ERROR_CMD18_CRC = - 2"
definition SD_INIT_ERROR_CMD0 :: u32 where "SD_INIT_ERROR_CMD0 = - 1"
definition SD_INIT_ERROR_CMD8 :: u32 where "SD_INIT_ERROR_CMD8 = - 2"
definition SD_INIT_ERROR_ACMD41 :: u32 where "SD_INIT_ERROR_ACMD41 = - 3"

definition sd_dummy :: "'d bus \<Rightarrow> 'd world \<Rightarrow> (u8 \<times> 'd world) option" where
  "sd_dummy B s = spi_txrx B 0xFF s"

primrec sd_dummies :: "nat \<Rightarrow> 'd bus \<Rightarrow> 'd world \<Rightarrow> 'd world option" where
  "sd_dummies 0 B s = Some s"
| "sd_dummies (Suc n) B s = do { (r, s) \<leftarrow> sd_dummy B s; sd_dummies n B s }"

text \<open>The wait for a response, with the tries that are left and the last byte.\<close>

primrec sd_response :: "nat \<Rightarrow> u8 \<Rightarrow> 'd bus \<Rightarrow> 'd world \<Rightarrow> (u8 \<times> 'd world) option" where
  "sd_response 0 r B s = Some (r, s)"
| "sd_response (Suc n) r B s = do {
     (r, s) \<leftarrow> sd_dummy B s;
     if r AND 0x80 = 0 then Some (r, s) else sd_response n r B s }"

definition sd_cmd :: "'d bus \<Rightarrow> u8 \<Rightarrow> u32 \<Rightarrow> u8 \<Rightarrow> 'd world \<Rightarrow> (u8 \<times> 'd world) option" where
  "sd_cmd B cmd arg crc s = do {
     (r, s) \<leftarrow> sd_dummy B s;
     (r, s) \<leftarrow> spi_txrx B (0x40 OR cmd) s;
     (r, s) \<leftarrow> spi_txrx B (ucast (drop_bit 24 arg)) s;
     (r, s) \<leftarrow> spi_txrx B (ucast (drop_bit 16 arg)) s;
     (r, s) \<leftarrow> spi_txrx B (ucast (drop_bit 8 arg)) s;
     (r, s) \<leftarrow> spi_txrx B (ucast arg) s;
     (r, s) \<leftarrow> spi_txrx B crc s;
     sd_response 100 r B s }"

definition print_status :: "'d bus \<Rightarrow> string \<Rightarrow> u8 \<Rightarrow> 'd world \<Rightarrow> 'd world option" where
  "print_status B cmd response s = do {
     s \<leftarrow> print_uart B ''SD command '' s;
     s \<leftarrow> print_uart B cmd s;
     s \<leftarrow> print_uart B ('' '' @ TAB @ ''response : '') s;
     s \<leftarrow> print_uart_byte B response s;
     print_uart B CRLF s }"

primrec sd_cmd0_loop :: "nat \<Rightarrow> u8 \<Rightarrow> 'd bus \<Rightarrow> 'd world \<Rightarrow> (bool \<times> 'd world) option" where
  "sd_cmd0_loop 0 r B s = Some (False, s)"
| "sd_cmd0_loop (Suc counter) r B s =
     (if r \<noteq> 1 then do {
        (r, s) \<leftarrow> sd_cmd B 0 0 0x95 s;
        (q, s) \<leftarrow> sd_dummy B s;
        sd_cmd0_loop counter r B s }
      else do { s \<leftarrow> print_status B ''cmd0'' r s; Some (r = 1, s) })"

definition sd_cmd0 :: "'d bus \<Rightarrow> 'd world \<Rightarrow> (bool \<times> 'd world) option" where
  "sd_cmd0 B s = sd_cmd0_loop 10000 0xff B s"

definition sd_cmd8 :: "'d bus \<Rightarrow> 'd world \<Rightarrow> (bool \<times> 'd world) option" where
  "sd_cmd8 B s = do {
     (r1, s) \<leftarrow> sd_cmd B 8 0x1aa 0x87 s;
     (q, s) \<leftarrow> sd_dummy B s;
     (q, s) \<leftarrow> sd_dummy B s;
     (r4, s) \<leftarrow> sd_dummy B s;
     (r5, s) \<leftarrow> sd_dummy B s;
     (q, s) \<leftarrow> sd_dummy B s;
     (q, s) \<leftarrow> sd_dummy B s;
     Some (r1 = 1 \<and> r4 AND 0xf = 1 \<and> r5 = 0xaa, s) }"

definition sd_cmd55 :: "'d bus \<Rightarrow> 'd world \<Rightarrow> (bool \<times> 'd world) option" where
  "sd_cmd55 B s = do {
     (r, s) \<leftarrow> sd_cmd B 55 0 0x65 s;
     (q, s) \<leftarrow> sd_dummy B s;
     s \<leftarrow> print_status B ''cmd55'' r s;
     Some (r = 1, s) }"

partial_function (option) sd_acmd41 :: "'d bus \<Rightarrow> 'd world \<Rightarrow> (bool \<times> 'd world) option" where
  "sd_acmd41 B s = do {
     (q, s) \<leftarrow> sd_cmd55 B s;
     (r, s) \<leftarrow> sd_cmd B 41 0x40000000 0x77 s;
     s \<leftarrow> print_status B ''cmd41'' r s;
     (q, s) \<leftarrow> sd_dummy B s;
     if r = 1 then sd_acmd41 B s else Some (r = 0, s) }"

definition init_sd :: "'d bus \<Rightarrow> 'd world \<Rightarrow> (u32 \<times> 'd world) option" where
  "init_sd B s = do {
     s \<leftarrow> spi_init B s;
     s \<leftarrow> print_uart B (''initializing SD... '' @ CRLF) s;
     s \<leftarrow> sd_dummies 10 B s;
     (ok, s) \<leftarrow> sd_cmd0 B s;
     if \<not> ok then Some (SD_INIT_ERROR_CMD0, s)
     else do {
       (ok, s) \<leftarrow> sd_cmd8 B s;
       if \<not> ok then Some (SD_INIT_ERROR_CMD8, s)
       else do {
         (ok, s) \<leftarrow> sd_acmd41 B s;
         Some (if \<not> ok then SD_INIT_ERROR_ACMD41 else 0, s) } } }"

subsection \<open>Checksums\<close>

definition crc7 :: "u8 \<Rightarrow> u8 \<Rightarrow> u8" where
  "crc7 prev inp =
     (let remainder = prev AND inp;
          remainder = remainder XOR (drop_bit 4 remainder XOR drop_bit 7 remainder);
          remainder = remainder XOR push_bit 4 remainder
      in remainder AND 0x7f)"

definition crc16 :: "u16 \<Rightarrow> u8 \<Rightarrow> u16" where
  "crc16 crc data =
     (let crc = ucast (ucast (drop_bit 8 crc) :: u8) OR push_bit 8 crc;
          crc = crc XOR ucast data;
          crc = crc XOR (ucast (ucast (drop_bit 4 crc) :: u8) AND 0xf);
          crc = crc XOR push_bit 12 crc
      in crc XOR push_bit 5 (crc AND 0xff))"

subsection \<open>Reading blocks\<close>

definition read_crc :: "u32 \<Rightarrow> u8" where
  "read_crc src_lba =
     (let crc = crc7 0 (0x40 OR SD_CMD_READ_BLOCK_MULTIPLE);
          crc = crc7 crc (ucast (drop_bit 24 src_lba AND 0xff));
          crc = crc7 crc (ucast (drop_bit 16 src_lba AND 0xff));
          crc = crc7 crc (ucast (drop_bit 8 src_lba AND 0xff));
          crc = crc7 crc (ucast (src_lba AND 0xff))
      in push_bit 1 crc OR 1)"

primrec crc_loop :: "nat \<Rightarrow> ram \<Rightarrow> u64 \<Rightarrow> u16 \<Rightarrow> u16" where
  "crc_loop 0 m p crc = crc"
| "crc_loop (Suc n) m p crc = crc_loop n m (p + 1) (crc16 crc (ld8 m p))"

text \<open>The transfers of one block that are left, 64 bytes each, with the place and the checksum so far.\<close>

primrec sd_transfers :: "nat \<Rightarrow> 'd bus \<Rightarrow> u64 \<Rightarrow> u64 \<Rightarrow> u16 \<Rightarrow> 'd world \<Rightarrow> (u64 \<times> u16 \<times> 'd world) option" where
  "sd_transfers 0 B ff p crc s = Some (p, crc, s)"
| "sd_transfers (Suc n) B ff p crc s = do {
     (r, s) \<leftarrow> spi_write_bytes B ff 64 p s;
     sd_transfers n B ff (p + 64) (crc_loop 64 (ram s) p crc) s }"

partial_function (option) token_wait :: "'d bus \<Rightarrow> 'd world \<Rightarrow> 'd world option" where
  "token_wait B s = do { (r, s) \<leftarrow> sd_dummy B s; if r \<noteq> SD_DATA_TOKEN then token_wait B s else Some s }"

text \<open>One block: the sums that were computed and received, and the place of the next block.\<close>

definition sd_block :: "'d bus \<Rightarrow> u64 \<Rightarrow> u64 \<Rightarrow> 'd world \<Rightarrow> (u16 \<times> u16 \<times> u64 \<times> 'd world) option" where
  "sd_block B ff p s = do {
     s \<leftarrow> token_wait B s;
     (p, crc, s) \<leftarrow> sd_transfers 8 B ff p 0 s;
     (h, s) \<leftarrow> sd_dummy B s;
     (l, s) \<leftarrow> sd_dummy B s;
     Some (crc, push_bit 8 (ucast h) OR ucast l, p, s) }"

partial_function (option) sd_blocks :: "'d bus \<Rightarrow> u64 \<Rightarrow> u64 \<Rightarrow> u64 \<Rightarrow> 'd world \<Rightarrow> (u32 \<times> 'd world) option" where
  "sd_blocks B ff i p s = do {
     (crc, crc_exp, p, s) \<leftarrow> sd_block B ff p s;
     if crc \<noteq> crc_exp then Some (SD_COPY_ERROR_CMD18_CRC, s)
     else do {
       s \<leftarrow> (if sint i mod 1000 = 0 then print_uart B ''.'' s else Some s);
       if sint (i - 1) > 0 then sd_blocks B ff (i - 1) p s else Some (0, s) } }"

definition sd_copy :: "'d bus \<Rightarrow> rom_frame \<Rightarrow> u64 \<Rightarrow> u32 \<Rightarrow> u32 \<Rightarrow> 'd world \<Rightarrow> (u32 \<times> 'd world) option" where
  "sd_copy B F dst src_lba blocks s = do {
     let s = s\<lparr>ram := put_bytes st8 (ram s) (ff_buf F) (replicate 128 0xff)\<rparr>;
     (r, s) \<leftarrow> sd_cmd B 18 src_lba (read_crc src_lba) s;
     if r \<noteq> 0 then do {
       s \<leftarrow> sd_dummies 8 B s;
       s \<leftarrow> print_uart B (''could not read SD block'' @ CRLF) s;
       Some (- 1, s) }
     else do {
       (rc, s) \<leftarrow> sd_blocks B (ff_buf F) (ucast blocks) dst s;
       (r, s) \<leftarrow> sd_cmd B SD_CMD_STOP_TRANSMISSION 0 0x01 s;
       (r, s) \<leftarrow> sd_dummy B s;
       Some (rc, s) } }"

section \<open>The partition table\<close>

text \<open>A field of the header at \<open>lba1_buf\<close> or of an entry in the block at \<open>lba2_buf\<close>, printed with its label.\<close>

definition print_field64 :: "'d bus \<Rightarrow> string \<Rightarrow> u64 \<Rightarrow> 'd world \<Rightarrow> 'd world option" where
  "print_field64 B label a s = do { s \<leftarrow> print_uart B label s; print_uart_addr B (ld64 (ram s) a) s }"

definition print_field32 :: "'d bus \<Rightarrow> string \<Rightarrow> u64 \<Rightarrow> 'd world \<Rightarrow> 'd world option" where
  "print_field32 B label a s = do { s \<leftarrow> print_uart B label s; print_uart_int B (ld32 (ram s) a) s }"

primrec print_uart_bytes :: "nat \<Rightarrow> 'd bus \<Rightarrow> u64 \<Rightarrow> 'd world \<Rightarrow> 'd world option" where
  "print_uart_bytes 0 B a s = Some s"
| "print_uart_bytes (Suc n) B a s = do { s \<leftarrow> print_uart_byte B (ld8 (ram s) a) s; print_uart_bytes n B (a + 1) s }"

definition sd_failed :: "'d bus \<Rightarrow> u32 \<Rightarrow> 'd world \<Rightarrow> (u32 \<times> 'd world) option" where
  "sd_failed B res s = do {
     s \<leftarrow> print_uart B (''SD card failed!'' @ CRLF) s;
     s \<leftarrow> print_uart B ''sd copy return value: '' s;
     s \<leftarrow> print_uart_addr B (scast res) s;
     s \<leftarrow> print_uart B CRLF s;
     Some (- 2, s) }"

definition print_header :: "'d bus \<Rightarrow> u64 \<Rightarrow> 'd world \<Rightarrow> 'd world option" where
  "print_header B h s = do {
     s \<leftarrow> print_uart B ''gpt partition table header:'' s;
     s \<leftarrow> print_field64 B (CRLF @ TAB @ ''signature:'' @ TAB) h s;
     s \<leftarrow> print_field32 B (CRLF @ TAB @ ''revision:'' @ TAB) (h + 8) s;
     s \<leftarrow> print_field32 B (CRLF @ TAB @ ''size:'' @ TAB @ TAB) (h + 12) s;
     s \<leftarrow> print_field32 B (CRLF @ TAB @ ''crc_header:'' @ TAB) (h + 16) s;
     s \<leftarrow> print_field32 B (CRLF @ TAB @ ''reserved:'' @ TAB) (h + 20) s;
     s \<leftarrow> print_field64 B (CRLF @ TAB @ ''current lba:'' @ TAB) (h + 24) s;
     s \<leftarrow> print_field64 B (CRLF @ TAB @ ''backup lda:'' @ TAB) (h + 32) s;
     s \<leftarrow> print_field64 B (CRLF @ TAB @ ''partition entries lba:   '' @ TAB) (h + 72) s;
     s \<leftarrow> print_field32 B (CRLF @ TAB @ ''number partition entries:'' @ TAB) (h + 80) s;
     s \<leftarrow> print_field32 B (CRLF @ TAB @ ''size partition entries:  '' @ TAB) (h + 84) s;
     print_uart B CRLF s }"

definition print_entry :: "'d bus \<Rightarrow> u8 \<Rightarrow> u64 \<Rightarrow> 'd world \<Rightarrow> 'd world option" where
  "print_entry B i e s = do {
     s \<leftarrow> print_uart B ''gpt partition entry '' s;
     s \<leftarrow> print_uart_byte B i s;
     s \<leftarrow> print_uart B (CRLF @ TAB @ ''partition type guid:'' @ TAB) s;
     s \<leftarrow> print_uart_bytes 16 B e s;
     s \<leftarrow> print_uart B (CRLF @ TAB @ ''partition guid:     '' @ TAB) s;
     s \<leftarrow> print_uart_bytes 16 B (e + 16) s;
     s \<leftarrow> print_field64 B (CRLF @ TAB @ ''first lba:'' @ TAB) (e + 32) s;
     s \<leftarrow> print_field64 B (CRLF @ TAB @ ''last lba:'' @ TAB) (e + 40) s;
     s \<leftarrow> print_field64 B (CRLF @ TAB @ ''attributes:'' @ TAB) (e + 48) s;
     s \<leftarrow> print_uart B (CRLF @ TAB @ ''name:'' @ TAB) s;
     s \<leftarrow> print_uart_bytes 72 B (e + 56) s;
     print_uart B CRLF s }"

primrec print_entries :: "u8 list \<Rightarrow> 'd bus \<Rightarrow> u64 \<Rightarrow> 'd world \<Rightarrow> 'd world option" where
  "print_entries [] B b s = Some s"
| "print_entries (i # is) B b s = do { s \<leftarrow> print_entry B i (b + ucast i * 128) s; print_entries is B b s }"

definition gpt_find_boot_partition :: "'d bus \<Rightarrow> rom_frame \<Rightarrow> u64 \<Rightarrow> u32 \<Rightarrow> 'd world \<Rightarrow> (u32 \<times> 'd world) option" where
  "gpt_find_boot_partition B F dest blocks s = do {
     (ret, s) \<leftarrow> init_sd B s;
     if ret \<noteq> 0 then do { s \<leftarrow> print_uart B (''could not initialize sd... exiting'' @ CRLF) s; Some (- 1, s) }
     else do {
       s \<leftarrow> print_uart B (''sd initialized!'' @ CRLF) s;
       (res, s) \<leftarrow> sd_copy B F (lba1_buf F) 1 1 s;
       if res \<noteq> 0 then sd_failed B res s
       else do {
         s \<leftarrow> print_header B (lba1_buf F) s;
         (res, s) \<leftarrow> sd_copy B F (lba2_buf F) (ucast (ld64 (ram s) (lba1_buf F + 72))) 1 s;
         if res \<noteq> 0 then sd_failed B res s
         else do {
           s \<leftarrow> print_entries [0, 1, 2, 3] B (lba2_buf F) s;
           s \<leftarrow> print_uart B ''copying boot image '' s;
           (res, s) \<leftarrow> sd_copy B F dest (ucast (ld64 (ram s) (lba2_buf F + 32))) blocks s;
           if res \<noteq> 0 then sd_failed B res s
           else do { s \<leftarrow> print_uart B ('' done!'' @ CRLF) s; Some (0, s) } } } } }"

text \<open>
  \<^verbatim>\<open>main\<close>: where it jumps to, with the device tree in \<^verbatim>\<open>a1\<close>. Without a boot image it stays in its last loop for ever.
\<close>

definition rom_main :: "'d bus \<Rightarrow> rom_frame \<Rightarrow> 'd world \<Rightarrow> (u64 \<times> u64 \<times> 'd world) option" where
  "rom_main B F s = do {
     let s = init_uart B 50000000 115200 s;
     s \<leftarrow> print_uart B (''Hello World!'' @ CRLF) s;
     (res, s) \<leftarrow> gpt_find_boot_partition B F 0x80000000 (2 * 16384) s;
     if res = 0 then Some (0x80000000, rom_dtb F, s) else None }"

end
