(* ===== verification/BootRomProps.thy ===== *)
theory BootRomProps
  imports BootRom
begin

text \<open>
  The boot ROM: its checksum is the CRC of the SD protocol, a read of blocks always ends, with every block in place or an
  error, and the processor is sent to a program only when that program came whole from the partition the table names.
\<close>

section \<open>Checksums\<close>

definition crc_bit :: "u16 \<Rightarrow> bool \<Rightarrow> u16" where
  "crc_bit crc b = (if bit crc 15 \<noteq> b then push_bit 1 crc XOR 0x1021 else push_bit 1 crc)"

definition byte_bits :: "u8 \<Rightarrow> bool list" where
  "byte_bits d = map (bit d) [7, 6, 5, 4, 3, 2, 1, 0]"

lemma less_16: "n < 16 \<Longrightarrow> n = 12 \<or> n = 5 \<or> n = 0 \<or> n = 14 \<or> n = 9 \<or> n = 2 \<or> n = 7 \<or>
    n = 15 \<or> n = 4 \<or> n = 11 \<or> n = 1 \<or> n = 8 \<or> n = 13 \<or> n = 3 \<or> n = 10 \<or> n = (6 :: nat)"
  by presburger

lemma bit_0x1021: "n < 16 \<Longrightarrow> bit (0x1021 :: u16) n \<longleftrightarrow> n = 0 \<or> n = 5 \<or> n = 12"
  by (drule less_16) (elim disjE; simp)

lemma bit_crc_bit: "n < 16 \<Longrightarrow> bit (crc_bit c b) n \<longleftrightarrow>
    ((n \<noteq> 0 \<and> bit c (n - 1)) \<noteq> ((bit c 15 \<noteq> b) \<and> (n = 0 \<or> n = 5 \<or> n = 12)))"
  unfolding crc_bit_def
  by (simp add: bit_xor_iff bit_push_bit_iff bit_0x1021 del: push_bit_of_1 push_bit_Suc push_bit_numeral flip: One_nat_def)
    (use bit_0x1021 in auto)

lemma no_bit: "8 \<le> n \<Longrightarrow> \<not> bit (d :: u8) n"
  using bit_imp_le_length [of d n] by auto

lemma crc16_bits: "crc16 c d = foldl crc_bit c (byte_bits d)"
proof (rule bit_word_eqI)
  fix n assume "n < LENGTH(16)"
  then have "n < 16" by simp
  then show "bit (crc16 c d) n = bit (foldl crc_bit c (byte_bits d)) n"
    by (elim disjE [OF less_16] disjE; simp add: byte_bits_def bit_crc_bit crc16_def Let_def bit_simps no_bit; argo)
qed

section \<open>The link to the card\<close>

text \<open>The bytes that went out and those that came in.\<close>

fun spi_out :: "io list \<Rightarrow> u8 list" where
  "spi_out [] = []"
| "spi_out (MWrite w a v # tr) = (if a = SPI_TRANSMIT_REG then ucast v # spi_out tr else spi_out tr)"
| "spi_out (MRead w a v # tr) = spi_out tr"

fun spi_in :: "io list \<Rightarrow> u8 list" where
  "spi_in [] = []"
| "spi_in (MRead w a v # tr) = (if a = SPI_RECEIVE_REG then ucast v # spi_in tr else spi_in tr)"
| "spi_in (MWrite w a v # tr) = spi_in tr"

definition tx :: "'d world \<Rightarrow> u8 list" where "tx s = spi_out (trace s)"
definition rx :: "'d world \<Rightarrow> u8 list" where "rx s = spi_in (trace s)"

lemma spi_out_append [simp]: "spi_out (tr @ tr') = spi_out tr @ spi_out tr'"
  by (induction tr rule: spi_out.induct) auto

lemma spi_in_append [simp]: "spi_in (tr @ tr') = spi_in tr @ spi_in tr'"
  by (induction tr rule: spi_in.induct) auto

text \<open>
  What the code relies on of the serial port and of the SPI controller: the port takes characters; the controller has
  a queue of received bytes, of which \<open>pend\<close> tells the length: it gets one for each byte sent, the first is taken with
  a read, bit 0 of the status says that there is none, and the reset bits of the control register empty it.
\<close>

definition spi_fifo :: "'d bus \<Rightarrow> ('d \<Rightarrow> nat) \<Rightarrow> bool" where
  "spi_fifo B pend \<longleftrightarrow>
     (\<forall>d. (ucast (fst (bus_rd B 1 UART_LINE_STATUS d)) :: u8) AND 0x20 \<noteq> 0 \<and>
          pend (snd (bus_rd B 1 UART_LINE_STATUS d)) = pend d) \<and>
     (\<forall>d v. pend (bus_wr B 1 UART_THR v d) = pend d) \<and>
     (\<forall>d. ((ucast (fst (bus_rd B 4 SPI_STATUS_REG d)) :: u32) AND 1 = 1 \<longleftrightarrow> pend d = 0) \<and>
          pend (snd (bus_rd B 4 SPI_STATUS_REG d)) = pend d) \<and>
     (\<forall>d. pend (snd (bus_rd B 4 SPI_RECEIVE_REG d)) = pend d - 1) \<and>
     (\<forall>d v. pend d < 256 \<longrightarrow> pend (bus_wr B 4 SPI_TRANSMIT_REG v d) = pend d + 1) \<and>
     (\<forall>d v. pend (bus_wr B 4 SPI_SLAVE_SELECT_REG v d) = pend d) \<and>
     (\<forall>d v. v AND 0x60 = 0 \<longrightarrow> pend (bus_wr B 4 SPI_CONTROL_REG v d) = pend d) \<and>
     (\<forall>d v. v AND 0x60 = 0x60 \<longrightarrow> pend (bus_wr B 4 SPI_CONTROL_REG v d) = 0)"

text \<open>A run that leaves memory and the queue as they are and exchanges these bytes with the card.\<close>

definition quiet :: "('d \<Rightarrow> nat) \<Rightarrow> 'd world \<Rightarrow> 'd world \<Rightarrow> bool" where
  "quiet pend s s' \<longleftrightarrow> pend (dev s') = pend (dev s) \<and> tx s' = tx s \<and> rx s' = rx s \<and> ram s' = ram s"

definition swaps :: "('d \<Rightarrow> nat) \<Rightarrow> 'd world \<Rightarrow> u8 list \<Rightarrow> u8 list \<Rightarrow> 'd world \<Rightarrow> bool" where
  "swaps pend s bs rs s' \<longleftrightarrow> pend (dev s') = 0 \<and> tx s' = tx s @ bs \<and> rx s' = rx s @ rs"

lemma quiet_refl [simp]: "quiet pend s s"
  by (simp add: quiet_def)

lemma quiet_trans: "quiet pend s s' \<Longrightarrow> quiet pend s' s'' \<Longrightarrow> quiet pend s s''"
  by (simp add: quiet_def)

lemma swaps_trans: "swaps pend s bs rs s' \<Longrightarrow> swaps pend s' bs' rs' s'' \<Longrightarrow> swaps pend s (bs @ bs') (rs @ rs') s''"
  by (simp add: swaps_def)

lemma swaps_idle: "swaps pend s bs rs s' \<Longrightarrow> pend (dev s') = 0"
  by (simp add: swaps_def)

lemma swaps_quiet: "swaps pend s bs rs s' \<Longrightarrow> quiet pend s' s'' \<Longrightarrow> swaps pend s bs rs s''"
  by (simp add: swaps_def quiet_def)

lemma quiet_swaps: "quiet pend s s' \<Longrightarrow> swaps pend s' bs rs s'' \<Longrightarrow> swaps pend s bs rs s''"
  by (simp add: swaps_def quiet_def)

lemmas spi_regs = SPI_BASE_def SPI_RESET_REG_def SPI_CONTROL_REG_def SPI_STATUS_REG_def SPI_TRANSMIT_REG_def SPI_RECEIVE_REG_def
  SPI_SLAVE_SELECT_REG_def

lemmas uart_regs = UART_BASE_def UART_THR_def UART_INTERRUPT_ENABLE_def UART_FIFO_CONTROL_def UART_LINE_CONTROL_def
  UART_MODEM_CONTROL_def UART_LINE_STATUS_def UART_DLAB_LSB_def UART_DLAB_MSB_def

subsection \<open>Printing\<close>

lemma write_serial_quiet:
  assumes "spi_fifo B pend"
  shows "\<exists>s'. write_serial B c s = Some s' \<and> quiet pend s s'"
proof -
  let ?s = "snd (mmio_rd B 1 UART_LINE_STATUS s)"
  have "(ucast (ucast (fst (bus_rd B 1 UART_LINE_STATUS (dev s))) :: u8) :: u32) AND 0x20 \<noteq> 0"
  proof -
    obtain n where "bit ((ucast (fst (bus_rd B 1 UART_LINE_STATUS (dev s))) :: u8) AND 0x20) n"
      using assms unfolding spi_fifo_def by (metis bit_eqI bit_0_eq bot_apply bot_bool_def)
    then have "bit ((ucast (ucast (fst (bus_rd B 1 UART_LINE_STATUS (dev s))) :: u8) :: u32) AND 0x20) n"
      by (auto simp: bit_simps dest: bit_imp_le_length)
    then show ?thesis by (metis bit_0_eq bot_apply bot_bool_def)
  qed
  then have "transmit_wait B s = Some ?s"
    by (subst transmit_wait.simps) (simp add: is_transmit_empty_def read_reg_u8_def mmio_rd_def split_beta Let_def)
  then show ?thesis using assms
    by (auto simp: write_serial_def write_reg_u8_def mmio_wr_def mmio_rd_def split_beta quiet_def spi_fifo_def tx_def rx_def
        uart_regs spi_regs)
qed

definition quiet_run :: "('d \<Rightarrow> nat) \<Rightarrow> 'd world \<Rightarrow> 'd world option \<Rightarrow> bool" where
  "quiet_run pend s m \<longleftrightarrow> (\<exists>s'. m = Some s' \<and> quiet pend s s')"

lemma quiet_run_Some: "quiet_run pend s (Some s)"
  by (simp add: quiet_run_def)

lemma quiet_run_bind:
  "quiet_run pend s m \<Longrightarrow> (\<And>s'. quiet_run pend s' (f s')) \<Longrightarrow> quiet_run pend s (m \<bind> f)"
  unfolding quiet_run_def using quiet_trans by fastforce

lemma print_uart_quiet: "spi_fifo B pend \<Longrightarrow> quiet_run pend s (print_uart B cs s)"
  by (induction cs arbitrary: s)
    (auto intro!: quiet_run_Some quiet_run_bind intro: write_serial_quiet [folded quiet_run_def])

declare print_uart.simps [simp del]

lemma print_uart_byte_quiet: "spi_fifo B pend \<Longrightarrow> quiet_run pend s (print_uart_byte B b s)"
  by (auto simp: print_uart_byte_def Let_def split_beta
      intro!: quiet_run_bind intro: write_serial_quiet [folded quiet_run_def])

lemma print_hex_loop_quiet: "spi_fifo B pend \<Longrightarrow> quiet_run pend s (print_hex_loop n B a s)"
  by (induction n arbitrary: s) (auto intro!: quiet_run_Some quiet_run_bind print_uart_byte_quiet)

lemma print_uart_bytes_quiet: "spi_fifo B pend \<Longrightarrow> quiet_run pend s (print_uart_bytes n B a s)"
  by (induction n arbitrary: s a) (auto intro!: quiet_run_Some quiet_run_bind print_uart_byte_quiet)

lemmas prints = print_uart_quiet print_uart_byte_quiet print_hex_loop_quiet print_uart_bytes_quiet

lemma print_fields_quiet:
  assumes "spi_fifo B pend"
  shows "quiet_run pend s (print_field64 B l a s)" "quiet_run pend s (print_field32 B l a s)"
    "quiet_run pend s (print_uart_addr B v s)"
    "quiet_run pend s (print_status B c r s)"
  by (auto simp: print_field64_def print_field32_def print_uart_addr_def print_uart_int_def print_status_def
      intro!: quiet_run_bind prints [OF assms])

lemma print_header_quiet: "spi_fifo B pend \<Longrightarrow> quiet_run pend s (print_header B h s)"
  by (auto simp: print_header_def intro!: quiet_run_bind prints print_fields_quiet)

lemma print_entries_quiet: "spi_fifo B pend \<Longrightarrow> quiet_run pend s (print_entries is B b s)"
  by (induction "is" arbitrary: s)
    (auto simp: print_entry_def intro!: quiet_run_Some quiet_run_bind prints print_fields_quiet)

subsection \<open>Bytes\<close>

text \<open>Registers of the controller that the transfers use.\<close>

lemma write_reg_pend:
  assumes "spi_fifo B pend"
  shows "pend (dev (write_reg B SPI_SLAVE_SELECT_REG v s)) = pend (dev s)"
    "pend (dev (write_reg B SPI_CONTROL_REG 0x106 s)) = pend (dev s)"
    "pend (dev (write_reg B SPI_CONTROL_REG 0x06 s)) = pend (dev s)"
    "pend (dev s) < 256 \<Longrightarrow> pend (dev (write_reg B SPI_TRANSMIT_REG v s)) = pend (dev s) + 1"
  using assms by (simp_all add: spi_fifo_def write_reg_def mmio_wr_def)

lemma write_reg_log:
  "ram (write_reg B a v s) = ram s" "rx (write_reg B a v s) = rx s"
  "tx (write_reg B a v s) = tx s @ (if a = SPI_TRANSMIT_REG then [ucast v] else [])"
  by (simp_all add: write_reg_def mmio_wr_def tx_def rx_def)
    (auto intro!: bit_word_eqI simp: bit_simps)

lemma read_reg_log:
  "ram (snd (read_reg B a s)) = ram s" "tx (snd (read_reg B a s)) = tx s"
  "rx (snd (read_reg B a s)) = rx s @ (if a = SPI_RECEIVE_REG then [ucast (fst (read_reg B a s))] else [])"
  by (simp_all add: read_reg_def mmio_rd_def tx_def rx_def split_beta)
    (auto intro!: bit_word_eqI simp: bit_simps)

lemma read_reg_pend:
  assumes "spi_fifo B pend"
  shows "fst (read_reg B SPI_STATUS_REG s) AND 1 = 1 \<longleftrightarrow> pend (dev s) = 0"
    "pend (dev (snd (read_reg B SPI_STATUS_REG s))) = pend (dev s)"
    "pend (dev (snd (read_reg B SPI_RECEIVE_REG s))) = pend (dev s) - 1"
  using assms by (simp_all add: spi_fifo_def read_reg_def mmio_rd_def split_beta)

lemma do_delay_log [simp]: "tx (do_delay n s) = tx s" "rx (do_delay n s) = rx s" "ram (do_delay n s) = ram s" "dev (do_delay n s) = dev s"
  by (simp_all add: do_delay_def tx_def rx_def)

lemma regs_differ [simp]:
  "SPI_SLAVE_SELECT_REG \<noteq> SPI_TRANSMIT_REG" "SPI_CONTROL_REG \<noteq> SPI_TRANSMIT_REG" "SPI_STATUS_REG \<noteq> SPI_RECEIVE_REG"
  by (simp_all add: spi_regs)

lemma receive_wait_now:
  assumes "spi_fifo B pend" "pend (dev s) \<noteq> 0"
  shows "receive_wait B s = Some (snd (read_reg B SPI_STATUS_REG s))"
  by (subst receive_wait.simps) (use read_reg_pend(1) [OF assms(1), of s] assms(2) in \<open>simp add: split_beta Let_def\<close>)

lemma spi_txrx_swaps:
  assumes L: "spi_fifo B pend" and "pend (dev s) = 0"
  shows "\<exists>r s'. spi_txrx B b s = Some (r, s') \<and> swaps pend s [b] [r] s' \<and> ram s' = ram s"
proof -
  have b: "ucast (ucast b :: u32) = b" by (rule bit_word_eqI) (auto simp: bit_simps dest: bit_imp_le_length)
  show ?thesis
    using assms(2)
    by (simp add: spi_txrx_def Let_def split_beta receive_wait_now [OF L] write_reg_pend [OF L] read_reg_pend [OF L] swaps_def
        write_reg_log read_reg_log b)
qed

subsection \<open>Blocks of bytes\<close>

lemma spi_transmit_runs:
  assumes L: "spi_fifo B pend"
  shows "pend (dev s) + n \<le> 256 \<Longrightarrow>
    pend (dev (spi_transmit n B a s)) = pend (dev s) + n \<and> rx (spi_transmit n B a s) = rx s \<and>
    ram (spi_transmit n B a s) = ram s \<and> tx (spi_transmit n B a s) = tx s @ get_bytes ld8 (ram s) a n"
proof (induction n arbitrary: a s)
  case (Suc n)
  let ?s = "write_reg B SPI_TRANSMIT_REG (ucast (ld8 (ram s) a) AND 0xff) s"
  have "bit (0xff :: u32) k" if "k < 8" for k
    by (rule disjE [OF less_16 [of k]]) (use that in \<open>auto elim!: disjE\<close>)
  then have "ucast (ucast (b :: u8) AND 0xff :: u32) = b" for b
    by (intro bit_word_eqI) (auto simp: bit_simps)
  moreover have "pend (dev ?s) = pend (dev s) + 1" using Suc.prems by (intro write_reg_pend(4) [OF L]) simp
  ultimately show ?case using Suc.IH [of ?s "a + 1"] Suc.prems by (simp add: write_reg_log)
qed simp

lemma spi_receive_runs:
  assumes L: "spi_fifo B pend"
  shows "pend (dev s) = n \<Longrightarrow> unat i + n = unat len \<Longrightarrow>
    \<exists>rs s'. spi_receive B ret i len s = Some s' \<and> swaps pend s [] rs s' \<and> length rs = n \<and>
      ram s' = put_bytes st8 (ram s) (ret + ucast i) rs"
proof (induction n arbitrary: i s)
  case 0
  then have "\<not> i < len" by (simp add: word_less_nat_alt)
  then show ?case using 0 by (subst spi_receive.simps) (auto simp: swaps_def)
next
  case (Suc n)
  let ?s1 = "snd (read_reg B SPI_STATUS_REG s)" let ?v = "ucast (fst (read_reg B SPI_RECEIVE_REG ?s1)) :: u8"
  let ?s2 = "wst8 (snd (read_reg B SPI_RECEIVE_REG ?s1)) (ret + ucast i) ?v"
  have "unat i + 1 < 2 ^ 32" using Suc.prems(2) unsigned_less [of len, where 'a = nat] by simp
  then have i: "unat (i + 1) = unat i + 1" by (simp add: unat_word_ariths)
  have "(ucast (i + 1) :: u64) = of_nat (unat (i + 1))" by (rule of_nat_unat [symmetric])
  also have "\<dots> = ucast i + 1" unfolding i by simp
  finally have place: "ret + ucast (i + 1) = ret + ucast i + 1" by simp
  have "pend (dev ?s2) = n" using Suc.prems(1) by (simp add: wst8_def read_reg_pend [OF L])
  moreover have "unat (i + 1) + n = unat len" using Suc.prems(2) i by simp
  ultimately obtain rs s' where IH: "spi_receive B ret (i + 1) len ?s2 = Some s'" "swaps pend ?s2 [] rs s'" "length rs = n"
      "ram s' = put_bytes st8 (ram ?s2) (ret + ucast i + 1) rs"
    using Suc.IH [of ?s2 "i + 1"] unfolding place by blast
  have "i < len" using Suc.prems(2) by (simp add: word_less_nat_alt)
  moreover have "fst (read_reg B SPI_STATUS_REG s) AND 1 \<noteq> 1" using Suc.prems(1) read_reg_pend(1) [OF L, of s] by simp
  ultimately have "spi_receive B ret i len s = Some s'"
    using IH(1) by (subst spi_receive.simps) (simp add: split_beta Let_def)
  moreover have "swaps pend s [] (?v # rs) s'"
    using IH(2) by (simp add: swaps_def wst8_def tx_def rx_def)
       (simp add: read_reg_log [unfolded tx_def rx_def])
  moreover have "ram s' = put_bytes st8 (ram s) (ret + ucast i) (?v # rs)"
    using IH(4) by (simp add: wst8_def read_reg_log)
  ultimately show ?case using IH(3) by (intro exI [of _ "?v # rs"] exI [of _ s']) simp
qed

lemma spi_write_bytes_swaps:
  assumes L: "spi_fifo B pend" and "pend (dev s) = 0" "0 < len" "len \<le> 256"
  shows "\<exists>rs s'. spi_write_bytes B bytes len ret s = Some (0, s') \<and>
    swaps pend s (get_bytes ld8 (ram s) bytes (unat len)) rs s' \<and> length rs = unat len \<and> ram s' = put_bytes st8 (ram s) ret rs"
proof -
  let ?s1 = "write_reg B SPI_SLAVE_SELECT_REG 0xfffffffe s"
  let ?s2 = "spi_transmit (unat len) B bytes ?s1"
  let ?s3 = "snd (read_reg B SPI_STATUS_REG (write_reg B SPI_CONTROL_REG 0x106 (do_delay 50 ?s2)))"
  have len: "unat len \<le> 256" "0 < unat len" using assms(3,4) by (simp_all add: word_le_nat_alt word_less_nat_alt)
  have s2: "pend (dev ?s2) = unat len" "rx ?s2 = rx s" "ram ?s2 = ram s"
      "tx ?s2 = tx s @ get_bytes ld8 (ram s) bytes (unat len)"
    using spi_transmit_runs [OF L, of ?s1 "unat len" bytes] assms(2) len by (simp_all add: write_reg_pend [OF L] write_reg_log)
  have s3: "pend (dev ?s3) = unat len" "rx ?s3 = rx s" "ram ?s3 = ram s" "tx ?s3 = tx s @ get_bytes ld8 (ram s) bytes (unat len)"
    by (simp_all add: read_reg_pend [OF L] write_reg_pend [OF L] read_reg_log write_reg_log s2)
  obtain rs s4 where s4: "spi_receive B ret 0 len ?s3 = Some s4" "swaps pend ?s3 [] rs s4" "length rs = unat len"
      "ram s4 = put_bytes st8 (ram s) ret rs"
    using spi_receive_runs [OF L s3(1), of 0 len ret] s3(3) by auto
  let ?s5 = "write_reg B SPI_CONTROL_REG 0x06 (write_reg B SPI_SLAVE_SELECT_REG 0xffffffff s4)"
  have wait: "receive_wait B (write_reg B SPI_CONTROL_REG 0x106 (do_delay 50 ?s2)) = Some ?s3"
    using len by (intro receive_wait_now [OF L]) (simp add: write_reg_pend [OF L] s2)
  have "spi_write_bytes B bytes len ret s = Some (0, ?s5)"
    using assms(4) wait s4(1) by (simp add: spi_write_bytes_def not_less)
  moreover have "swaps pend s (get_bytes ld8 (ram s) bytes (unat len)) rs ?s5"
    using s4(2) s3 by (simp add: swaps_def write_reg_pend [OF L] write_reg_log)
  ultimately show ?thesis using s4(3,4) by (auto simp: write_reg_log)
qed

section \<open>Commands\<close>

lemma sd_dummy_swaps:
  assumes "spi_fifo B pend" "pend (dev s) = 0"
  obtains r s' where "sd_dummy B s = Some (r, s')" "swaps pend s [0xff] [r] s'" "ram s' = ram s"
  using spi_txrx_swaps [OF assms, of "0xff"] unfolding sd_dummy_def by blast

lemma sd_dummies_swaps:
  assumes L: "spi_fifo B pend"
  shows "pend (dev s) = 0 \<Longrightarrow>
    \<exists>rs s'. sd_dummies n B s = Some s' \<and> swaps pend s (replicate n 0xff) rs s' \<and> ram s' = ram s"
proof (induction n arbitrary: s)
  case (Suc n)
  obtain r s1 where s1: "sd_dummy B s = Some (r, s1)" "swaps pend s [0xff] [r] s1" "ram s1 = ram s"
    using sd_dummy_swaps [OF L Suc.prems] .
  obtain rs s2 where "sd_dummies n B s1 = Some s2" "swaps pend s1 (replicate n 0xff) rs s2" "ram s2 = ram s1"
    using Suc.IH [OF swaps_idle [OF s1(2)]] by blast
  then show ?case using s1 swaps_trans [OF s1(2)] by fastforce
qed (auto simp: swaps_def)

lemma sd_response_swaps:
  assumes L: "spi_fifo B pend"
  shows "pend (dev s) = 0 \<Longrightarrow> \<exists>r s' k rs. sd_response (Suc n) r0 B s = Some (r, s') \<and>
    swaps pend s (replicate k 0xff) rs s' \<and> rs \<noteq> [] \<and> last rs = r \<and> ram s' = ram s"
proof (induction n arbitrary: r0 s)
  case 0
  obtain r s1 where s1: "sd_dummy B s = Some (r, s1)" "swaps pend s [0xff] [r] s1" "ram s1 = ram s"
    using sd_dummy_swaps [OF L 0] .
  then show ?case by (intro exI [of _ r] exI [of _ s1] exI [of _ 1] exI [of _ "[r]"]) simp
next
  case (Suc n)
  obtain r s1 where s1: "sd_dummy B s = Some (r, s1)" "swaps pend s [0xff] [r] s1" "ram s1 = ram s"
    using sd_dummy_swaps [OF L Suc.prems] .
  show ?case
  proof (cases "r AND 0x80 = 0")
    case True
    then show ?thesis using s1
      by (intro exI [of _ r] exI [of _ s1] exI [of _ 1] exI [of _ "[r]"]) simp
  next
    case False
    obtain r' s2 k rs where s2: "sd_response (Suc n) r B s1 = Some (r', s2)" "swaps pend s1 (replicate k 0xff) rs s2" "rs \<noteq> []"
        "last rs = r'" "ram s2 = ram s1"
      using Suc.IH [OF swaps_idle [OF s1(2)], of r] by blast
    then show ?thesis using s1 False swaps_trans [OF s1(2) s2(2)]
      by (intro exI [of _ r'] exI [of _ s2] exI [of _ "Suc k"] exI [of _ "r # rs"])
        (simp del: sd_response.simps(2), subst sd_response.simps(2), simp)
  qed
qed

text \<open>The bytes of a command.\<close>

definition sd_frame :: "u8 \<Rightarrow> u32 \<Rightarrow> u8 \<Rightarrow> u8 list" where
  "sd_frame cmd arg crc =
     [0xff, 0x40 OR cmd, ucast (drop_bit 24 arg), ucast (drop_bit 16 arg), ucast (drop_bit 8 arg), ucast arg, crc]"

lemma sd_cmd_swaps:
  assumes L: "spi_fifo B pend" and "pend (dev s) = 0"
  shows "\<exists>r s' k rs. sd_cmd B cmd arg crc s = Some (r, s') \<and> swaps pend s (sd_frame cmd arg crc @ replicate k 0xff) rs s' \<and>
    rs \<noteq> [] \<and> last rs = r \<and> ram s' = ram s"
proof -
  have step: "\<exists>r s2. spi_txrx B b s1 = Some (r, s2) \<and> swaps pend s (bs @ [b]) (rs @ [r]) s2 \<and> ram s2 = ram s"
    if "swaps pend s bs rs s1" "ram s1 = ram s" for b bs rs s1
    using spi_txrx_swaps [OF L swaps_idle [OF that(1)], of b] swaps_trans [OF that(1)] that(2) by fastforce
  obtain r1 s1 where 1: "sd_dummy B s = Some (r1, s1)" "swaps pend s [0xff] [r1] s1" "ram s1 = ram s"
    using sd_dummy_swaps [OF assms] .
  obtain r2 s2 where 2: "spi_txrx B (0x40 OR cmd) s1 = Some (r2, s2)" "swaps pend s [0xff, 0x40 OR cmd] [r1, r2] s2" "ram s2 = ram s"
    using step [OF 1(2,3)] by fastforce
  obtain r3 s3 where 3: "spi_txrx B (ucast (drop_bit 24 arg)) s2 = Some (r3, s3)"
      "swaps pend s [0xff, 0x40 OR cmd, ucast (drop_bit 24 arg)] [r1, r2, r3] s3" "ram s3 = ram s"
    using step [OF 2(2,3)] by fastforce
  obtain r4 s4 where 4: "spi_txrx B (ucast (drop_bit 16 arg)) s3 = Some (r4, s4)"
      "swaps pend s [0xff, 0x40 OR cmd, ucast (drop_bit 24 arg), ucast (drop_bit 16 arg)] [r1, r2, r3, r4] s4" "ram s4 = ram s"
    using step [OF 3(2,3)] by fastforce
  obtain r5 s5 where 5: "spi_txrx B (ucast (drop_bit 8 arg)) s4 = Some (r5, s5)"
      "swaps pend s [0xff, 0x40 OR cmd, ucast (drop_bit 24 arg), ucast (drop_bit 16 arg), ucast (drop_bit 8 arg)] [r1, r2, r3, r4, r5] s5"
      "ram s5 = ram s"
    using step [OF 4(2,3)] by fastforce
  obtain r6 s6 where 6: "spi_txrx B (ucast arg) s5 = Some (r6, s6)"
      "swaps pend s [0xff, 0x40 OR cmd, ucast (drop_bit 24 arg), ucast (drop_bit 16 arg), ucast (drop_bit 8 arg), ucast arg]
        [r1, r2, r3, r4, r5, r6] s6" "ram s6 = ram s"
    using step [OF 5(2,3)] by fastforce
  obtain r7 s7 where 7: "spi_txrx B crc s6 = Some (r7, s7)"
      "swaps pend s (sd_frame cmd arg crc) [r1, r2, r3, r4, r5, r6, r7] s7" "ram s7 = ram s"
    using step [OF 6(2,3)] unfolding sd_frame_def by fastforce
  obtain r s' k rs where 8: "sd_response (Suc 99) r7 B s7 = Some (r, s')" "swaps pend s7 (replicate k 0xff) rs s'" "rs \<noteq> []" "last rs = r"
      "ram s' = ram s7"
    using sd_response_swaps [OF L swaps_idle [OF 7(2)], of 99 r7] by blast
  have "sd_cmd B cmd arg crc s = Some (r, s')"
    using 1(1) 2(1) 3(1) 4(1) 5(1) 6(1) 7(1) 8(1) by (simp add: sd_cmd_def del: sd_response.simps)
  then show ?thesis using swaps_trans [OF 7(2) 8(2)] 7(3) 8(3-5)
    by (intro exI [of _ r] exI [of _ s'] exI [of _ k] exI) (rule conjI, assumption, rule conjI, assumption, simp)
qed

section \<open>Reading blocks\<close>

text \<open>The card sends a data token after some more bytes.\<close>

inductive token_comes :: "'d bus \<Rightarrow> 'd world \<Rightarrow> bool" for B where
  now: "sd_dummy B s = Some (SD_DATA_TOKEN, s') \<Longrightarrow> token_comes B s"
| later: "sd_dummy B s = Some (r, s') \<Longrightarrow> token_comes B s' \<Longrightarrow> token_comes B s"

text \<open>What the card sends for the blocks \<open>ds\<close>: fill bytes, the token, the 512 bytes, the checksum of their bits.\<close>

definition block_sum :: "u8 list \<Rightarrow> u16" where
  "block_sum data = foldl crc_bit 0 (concat (map byte_bits data))"

definition be16 :: "u8 \<Rightarrow> u8 \<Rightarrow> u16" where
  "be16 h l = push_bit 8 (ucast h) OR ucast l"

inductive card_sends :: "u8 list list \<Rightarrow> u8 list \<Rightarrow> bool" where
  none: "card_sends [] []"
| block: "SD_DATA_TOKEN \<notin> set fill \<Longrightarrow> length data = 512 \<Longrightarrow> be16 h l = block_sum data \<Longrightarrow> card_sends ds rs \<Longrightarrow>
    card_sends (data # ds) (fill @ SD_DATA_TOKEN # data @ h # l # rs)"

lemma crc16_message: "foldl crc16 c data = foldl crc_bit c (concat (map byte_bits data))"
  by (induction data arbitrary: c) (simp_all add: crc16_bits)

lemma crc_loop_message: "crc_loop n m p c = foldl crc16 c (get_bytes ld8 m p n)"
  by (induction n arbitrary: p c) simp_all

lemma token_wait_swaps:
  assumes L: "spi_fifo B pend" and "token_comes B s" "pend (dev s) = 0"
  shows "\<exists>bs fill s'. token_wait B s = Some s' \<and> swaps pend s bs (fill @ [SD_DATA_TOKEN]) s' \<and> SD_DATA_TOKEN \<notin> set fill \<and>
    ram s' = ram s"
  using assms(2,3)
proof (induction rule: token_comes.induct)
  case (now s s')
  have "swaps pend s [0xff] [SD_DATA_TOKEN] s'" "ram s' = ram s" using sd_dummy_swaps [OF L now(2)] now(1) by auto
  then show ?case using now(1)
    by (subst token_wait.simps) (intro exI [of _ "[0xff]"] exI [of _ "[]"] exI [of _ s'], simp)
next
  case (later s r s')
  have s': "swaps pend s [0xff] [r] s'" "ram s' = ram s" using sd_dummy_swaps [OF L later(4)] later(1) by auto
  show ?case
  proof (cases "r = SD_DATA_TOKEN")
    case True
    then show ?thesis using later(1) s'
      by (subst token_wait.simps) (intro exI [of _ "[0xff]"] exI [of _ "[]"] exI [of _ s'], simp)
  next
    case False
    obtain bs fill s2 where s2: "token_wait B s' = Some s2" "swaps pend s' bs (fill @ [SD_DATA_TOKEN]) s2"
        "SD_DATA_TOKEN \<notin> set fill" "ram s2 = ram s'"
      using later(3) [OF swaps_idle [OF s'(1)]] by blast
    then show ?thesis using later(1) s' False swaps_trans [OF s'(1) s2(2)]
      by (subst token_wait.simps) (intro exI [of _ "0xff # bs"] exI [of _ "r # fill"] exI [of _ s2], simp)
  qed
qed

lemma sd_transfers_swaps:
  assumes L: "spi_fifo B pend"
  shows "pend (dev s) = 0 \<Longrightarrow> n \<le> 8 \<Longrightarrow> \<exists>bs data s'. sd_transfers n B ff p crc s = Some (p + of_nat (64 * n), foldl crc16 crc data, s') \<and>
    swaps pend s bs data s' \<and> length data = 64 * n \<and> ram s' = put_bytes st8 (ram s) p data"
proof (induction n arbitrary: p crc s)
  case 0
  then show ?case by (auto simp: swaps_def)
next
  case (Suc n)
  obtain d s1 where s1: "spi_write_bytes B ff 64 p s = Some (0, s1)" "swaps pend s (get_bytes ld8 (ram s) ff 64) d s1"
      "length d = 64" "ram s1 = put_bytes st8 (ram s) p d"
    using spi_write_bytes_swaps [OF L Suc.prems(1), of 64 ff p] by auto
  obtain bs data s2 where s2: "sd_transfers n B ff (p + 64) (foldl crc16 crc d) s1 =
        Some (p + 64 + of_nat (64 * n), foldl crc16 (foldl crc16 crc d) data, s2)" "swaps pend s1 bs data s2"
      "length data = 64 * n" "ram s2 = put_bytes st8 (ram s1) (p + 64) data"
    using Suc.IH [OF swaps_idle [OF s1(2)], of "p + 64" "foldl crc16 crc d"] Suc.prems(2) by fastforce
  have "get_bytes ld8 (ram s1) p 64 = d" unfolding s1(4) by (rule ram_store.get_put_same) (simp_all add: s1(3))
  then have "crc_loop 64 (ram s1) p crc = foldl crc16 crc d" by (simp only: crc_loop_message)
  then have "sd_transfers (Suc n) B ff p crc s = Some (p + of_nat (64 * Suc n), foldl crc16 crc (d @ data), s2)"
    using s1(1) s2(1) by (simp add: algebra_simps del: crc_loop.simps)
  moreover have "ram s2 = put_bytes st8 (ram s) p (d @ data)"
    by (simp add: s2(4) s1(4) put_bytes_append s1(3))
  ultimately show ?case using swaps_trans [OF s1(2) s2(2)] s1(3) s2(3)
    by (intro exI [of _ "get_bytes ld8 (ram s) ff 64 @ bs"] exI [of _ "d @ data"] exI [of _ s2]) (simp del: get_bytes.simps)
qed

lemma sd_block_swaps:
  assumes L: "spi_fifo B pend" and "token_comes B s" "pend (dev s) = 0"
  shows "\<exists>bs fill data h l s'. sd_block B ff p s = Some (block_sum data, be16 h l, p + 512, s') \<and>
    swaps pend s bs (fill @ SD_DATA_TOKEN # data @ [h, l]) s' \<and> SD_DATA_TOKEN \<notin> set fill \<and> length data = 512 \<and>
    ram s' = put_bytes st8 (ram s) p data"
proof -
  obtain bs1 fill s1 where 1: "token_wait B s = Some s1" "swaps pend s bs1 (fill @ [SD_DATA_TOKEN]) s1" "SD_DATA_TOKEN \<notin> set fill"
      "ram s1 = ram s"
    using token_wait_swaps [OF assms] by blast
  obtain bs2 data s2 where 2: "sd_transfers 8 B ff p 0 s1 = Some (p + of_nat (64 * 8), foldl crc16 0 data, s2)"
      "swaps pend s1 bs2 data s2" "length data = 64 * 8" "ram s2 = put_bytes st8 (ram s1) p data"
    using sd_transfers_swaps [OF L swaps_idle [OF 1(2)], of 8 ff p 0] by blast
  obtain h s3 where 3: "sd_dummy B s2 = Some (h, s3)" "swaps pend s2 [0xff] [h] s3" "ram s3 = ram s2"
    using sd_dummy_swaps [OF L swaps_idle [OF 2(2)]] .
  obtain l s4 where 4: "sd_dummy B s3 = Some (l, s4)" "swaps pend s3 [0xff] [l] s4" "ram s4 = ram s3"
    using sd_dummy_swaps [OF L swaps_idle [OF 3(2)]] .
  have "sd_block B ff p s = Some (block_sum data, be16 h l, p + 512, s4)"
    using 1(1) 2(1) 3(1) 4(1) by (simp add: sd_block_def crc16_message block_sum_def be16_def)
  moreover have "swaps pend s (bs1 @ bs2 @ [0xff] @ [0xff]) (fill @ SD_DATA_TOKEN # data @ [h, l]) s4"
    using swaps_trans [OF 1(2) swaps_trans [OF 2(2) swaps_trans [OF 3(2) 4(2)]]] by simp
  moreover have "ram s4 = put_bytes st8 (ram s) p data" using 1(4) 2(4) 3(3) 4(3) by simp
  moreover have "length data = 512" using 2(3) by simp
  ultimately show ?thesis using 1(3) by blast
qed

text \<open>How a read of \<open>n\<close> blocks to \<open>p\<close> ends: all blocks are in place, or one arrived with a wrong checksum.\<close>

definition blocks_read :: "nat \<Rightarrow> u64 \<Rightarrow> ram \<Rightarrow> u8 list \<Rightarrow> u32 \<Rightarrow> ram \<Rightarrow> bool" where
  "blocks_read n p m rs rc m' \<longleftrightarrow>
     rc = 0 \<and> (\<exists>ds. card_sends ds rs \<and> length ds = n \<and> m' = put_bytes st8 m p (concat ds)) \<or>
     rc = SD_COPY_ERROR_CMD18_CRC \<and>
       (\<exists>ds rs' fill data h l. card_sends ds rs' \<and> rs = rs' @ fill @ SD_DATA_TOKEN # data @ [h, l] \<and> length ds < n \<and>
          length data = 512 \<and> be16 h l \<noteq> block_sum data)"

lemma blocks_read_Suc:
  assumes "blocks_read n (p + 512) (put_bytes st8 m p data) rs rc m'"
    and "SD_DATA_TOKEN \<notin> set fill" "length data = 512" "be16 h l = block_sum data"
  shows "blocks_read (Suc n) p m (fill @ SD_DATA_TOKEN # data @ h # l # rs) rc m'"
proof -
  have more: "card_sends (data # ds) (fill @ SD_DATA_TOKEN # data @ h # l # rs')" if "card_sends ds rs'" for ds rs'
    by (rule card_sends.block [OF assms(2-4) that])
  consider ds where "rc = 0" "card_sends ds rs" "length ds = n" "m' = put_bytes st8 (put_bytes st8 m p data) (p + 512) (concat ds)"
    | ds rs' fill' data' h' l' where "rc = SD_COPY_ERROR_CMD18_CRC" "card_sends ds rs'"
        "rs = rs' @ fill' @ SD_DATA_TOKEN # data' @ [h', l']" "length ds < n" "length data' = 512" "be16 h' l' \<noteq> block_sum data'"
    using assms(1) unfolding blocks_read_def by blast
  then show ?thesis
  proof cases
    case 1
    then show ?thesis unfolding blocks_read_def
      by (intro disjI1 conjI exI [of _ "data # ds"] more) (simp_all add: put_bytes_append assms(3))
  next
    case 2
    then show ?thesis unfolding blocks_read_def
      using more [OF 2(2)]
      by (intro disjI2 conjI exI [of _ "data # ds"] exI [of _ "fill @ SD_DATA_TOKEN # data @ h # l # rs'"] exI [of _ fill']
          exI [of _ data'] exI [of _ h'] exI [of _ l']) simp_all
  qed
qed

definition tokens_come :: "'d bus \<Rightarrow> ('d \<Rightarrow> nat) \<Rightarrow> bool" where
  "tokens_come B pend \<longleftrightarrow> (\<forall>s. pend (dev s) = 0 \<longrightarrow> token_comes B s)"

lemma sd_blocks_swaps:
  assumes L: "spi_fifo B pend" and T: "tokens_come B pend"
  shows "pend (dev s) = 0 \<Longrightarrow> unat i < 2 ^ 32 \<Longrightarrow> \<exists>rc bs rs s'. sd_blocks B ff i p s = Some (rc, s') \<and>
    swaps pend s bs rs s' \<and> blocks_read (max 1 (unat i)) p (ram s) rs rc (ram s')"
proof (induction "unat i" arbitrary: i p s rule: less_induct)
  case less
  obtain bs fill data h l s1 where 1: "sd_block B ff p s = Some (block_sum data, be16 h l, p + 512, s1)"
      "swaps pend s bs (fill @ SD_DATA_TOKEN # data @ [h, l]) s1" "SD_DATA_TOKEN \<notin> set fill" "length data = 512"
      "ram s1 = put_bytes st8 (ram s) p data"
    using sd_block_swaps [OF L] T less.prems(1) unfolding tokens_come_def by blast
  show ?case
  proof (cases "block_sum data = be16 h l")
    case False
    have "blocks_read (max 1 (unat i)) p (ram s) (fill @ SD_DATA_TOKEN # data @ [h, l]) SD_COPY_ERROR_CMD18_CRC (ram s1)"
      unfolding blocks_read_def using False 1(4)
      by (intro disjI2 conjI exI [of _ "[]"] exI [of _ fill] exI [of _ data] exI [of _ h] exI [of _ l])
        (auto intro: card_sends.none)
    then show ?thesis using False 1(1,2) by (subst sd_blocks.simps) auto
  next
    case True
    obtain s2 where 2: "(if sint i mod 1000 = 0 then print_uart B ''.'' s1 else Some s1) = Some s2" "quiet pend s1 s2"
      using print_uart_quiet [OF L, of s1 "''.''"] by (cases "sint i mod 1000 = 0") (auto simp: quiet_run_def)
    have s2: "swaps pend s bs (fill @ SD_DATA_TOKEN # data @ [h, l]) s2" "ram s2 = put_bytes st8 (ram s) p data"
      using swaps_quiet [OF 1(2) 2(2)] 2(2) 1(5) by (simp_all add: quiet_def)
    have run: "sd_blocks B ff i p s = (if sint (i - 1) > 0 then sd_blocks B ff (i - 1) (p + 512) s2 else Some (0, s2))"
      using 1(1) 2(1) True by (subst sd_blocks.simps) simp
    have one: "blocks_read (Suc n) p (ram s) (fill @ SD_DATA_TOKEN # data @ h # l # rs) rc m'"
      if "blocks_read n (p + 512) (ram s2) rs rc m'" for n rs rc m'
      using that True by (intro blocks_read_Suc 1(3,4)) (simp_all add: s2(2))
    show ?thesis
    proof (cases "unat i \<le> 1")
      case True
      then have "i = 0 \<or> i = 1" by (simp add: le_Suc_eq word_unat_eq_iff)
      then have "sd_blocks B ff i p s = Some (0, s2)" "max 1 (unat i) = Suc 0" using run by auto
      moreover have "blocks_read 0 (p + 512) (ram s2) [] 0 (ram s2)"
        by (simp add: blocks_read_def card_sends.none)
      ultimately show ?thesis using one s2(1) by fastforce
    next
      case False
      then have i: "unat (i - 1) = unat i - 1" by (simp add: unat_sub word_le_nat_alt)
      then have "sint (i - 1) = int (unat i - 1)"
        using less.prems(2) unfolding sint_uint by (simp add: uint_nat signed_take_bit_int_eq_self)
      then have "0 < sint (i - 1)" using False by linarith
      moreover have smaller: "unat (i - 1) < unat i" "unat (i - 1) < 2 ^ 32" using i False less.prems(2) by linarith+
      moreover obtain rc bs' rs s' where "sd_blocks B ff (i - 1) (p + 512) s2 = Some (rc, s')" "swaps pend s2 bs' rs s'"
          "blocks_read (max 1 (unat (i - 1))) (p + 512) (ram s2) rs rc (ram s')"
        using less.hyps [OF smaller(1) swaps_idle [OF s2(1)] smaller(2)] by blast
      moreover have "Suc (max 1 (unat (i - 1))) = max 1 (unat i)" using False i by simp
      ultimately show ?thesis using run one swaps_trans [OF s2(1)] by fastforce
    qed
  qed
qed

text \<open>The checksum of a command masks its start value, zero, with the data instead of adding them: it is always zero.\<close>

lemma crc7_0 [simp]: "crc7 0 d = 0"
  by (simp add: crc7_def)

lemma read_crc_constant: "read_crc lba = 1"
  by (simp add: read_crc_def)

lemma sd_copy_runs:
  assumes L: "spi_fifo B pend" and T: "tokens_come B pend" and idle: "pend (dev s) = 0"
  shows "\<exists>rc s' bs resp body tail. sd_copy B F dst lba n s = Some (rc, s') \<and>
    swaps pend s (sd_frame 18 lba 1 @ bs) (resp @ body @ tail) s' \<and> resp \<noteq> [] \<and>
    (if last resp = 0 then blocks_read (max 1 (unat n)) dst (put_bytes st8 (ram s) (ff_buf F) (replicate 128 0xff)) body rc (ram s')
     else rc = - 1 \<and> ram s' = put_bytes st8 (ram s) (ff_buf F) (replicate 128 0xff))"
proof -
  let ?s = "s\<lparr>ram := put_bytes st8 (ram s) (ff_buf F) (replicate 128 0xff)\<rparr>"
  have quiet: "swaps pend s bs rs x" if "swaps pend ?s bs rs x" for bs rs x
    using that by (simp add: swaps_def tx_def rx_def)
  obtain r s1 k resp where 1: "sd_cmd B 18 lba 1 ?s = Some (r, s1)" "swaps pend ?s (sd_frame 18 lba 1 @ replicate k 0xff) resp s1"
      "resp \<noteq> []" "last resp = r" "ram s1 = ram ?s"
    using sd_cmd_swaps [OF L, of ?s 18 lba 1] idle by auto
  show ?thesis
  proof (cases "r = 0")
    case False
    obtain rs s2 where 2: "sd_dummies 8 B s1 = Some s2" "swaps pend s1 (replicate 8 0xff) rs s2" "ram s2 = ram s1"
      using sd_dummies_swaps [OF L swaps_idle [OF 1(2)]] by blast
    obtain s3 where 3: "print_uart B (''could not read SD block'' @ CRLF) s2 = Some s3" "quiet pend s2 s3"
      using print_uart_quiet [OF L] unfolding quiet_run_def by blast
    have "sd_copy B F dst lba n s = Some (- 1, s3)"
      using 1(1) 2(1) 3(1) False by (simp add: sd_copy_def read_crc_constant del: append.simps sd_dummies.simps)
    moreover have "swaps pend s (sd_frame 18 lba 1 @ (replicate k 0xff @ replicate 8 0xff)) (resp @ [] @ rs) s3"
      using quiet [OF swaps_quiet [OF swaps_trans [OF 1(2) 2(2)] 3(2)]] by simp
    moreover have "ram s3 = ram ?s" using 1(5) 2(3) 3(2) by (simp add: quiet_def)
    ultimately show ?thesis using 1(3,4) False by (metis world.select_convs(1) world.surjective world.update_convs(1))
  next
    case True
    have "unat (ucast n :: u64) = unat n" by simp
    then obtain rc bs body s2 where 2: "sd_blocks B (ff_buf F) (ucast n) dst s1 = Some (rc, s2)" "swaps pend s1 bs body s2"
        "blocks_read (max 1 (unat n)) dst (ram s1) body rc (ram s2)"
      using sd_blocks_swaps [OF L T swaps_idle [OF 1(2)], of "ucast n" "ff_buf F" dst] unsigned_less [of n, where 'a = nat] by auto
    obtain q s3 k' rs where 3: "sd_cmd B SD_CMD_STOP_TRANSMISSION 0 1 s2 = Some (q, s3)"
        "swaps pend s2 (sd_frame SD_CMD_STOP_TRANSMISSION 0 1 @ replicate k' 0xff) rs s3" "ram s3 = ram s2"
      using sd_cmd_swaps [OF L swaps_idle [OF 2(2)], of SD_CMD_STOP_TRANSMISSION 0 1] by blast
    obtain q' s4 where 4: "sd_dummy B s3 = Some (q', s4)" "swaps pend s3 [0xff] [q'] s4" "ram s4 = ram s3"
      using sd_dummy_swaps [OF L swaps_idle [OF 3(2)]] .
    have "sd_copy B F dst lba n s = Some (rc, s4)"
      using 1(1) 2(1) 3(1) 4(1) True by (simp add: sd_copy_def read_crc_constant)
    moreover have "swaps pend s (sd_frame 18 lba 1 @ replicate k 0xff @ bs @ sd_frame SD_CMD_STOP_TRANSMISSION 0 1 @
        replicate k' 0xff @ [0xff]) (resp @ body @ rs @ [q']) s4"
      using quiet [OF swaps_trans [OF 1(2) swaps_trans [OF 2(2) swaps_trans [OF 3(2) 4(2)]]]] by simp
    moreover have "ram s4 = ram s2" using 3(3) 4(3) by simp
    ultimately show ?thesis using 1(3-5) 2(3) True
      by (intro exI conjI) (assumption, assumption, assumption, simp)
  qed
qed

section \<open>Initialisation\<close>

definition talks :: "('d \<Rightarrow> nat) \<Rightarrow> 'd world \<Rightarrow> 'd world \<Rightarrow> bool" where
  "talks pend s s' \<longleftrightarrow> (pend (dev s) = 0 \<longrightarrow> (\<exists>bs rs. swaps pend s bs rs s'))"

lemma talks_refl [simp]: "talks pend s s"
  by (auto simp: talks_def swaps_def)

lemma talks_trans: "talks pend s s' \<Longrightarrow> talks pend s' s'' \<Longrightarrow> talks pend s s''"
  unfolding talks_def by (metis swaps_trans swaps_idle)

lemma quiet_talks: "quiet pend s s' \<Longrightarrow> talks pend s s'"
  by (auto simp: talks_def quiet_def swaps_def)

lemma talks_step:
  assumes L: "spi_fifo B pend"
  shows "print_uart B cs s = Some s' \<Longrightarrow> talks pend s s'" "print_status B c r s = Some s' \<Longrightarrow> talks pend s s'"
    "sd_dummy B s = Some (q, s') \<Longrightarrow> talks pend s s'" "sd_dummies n B s = Some s' \<Longrightarrow> talks pend s s'"
    "sd_cmd B cmd arg crc s = Some (q, s') \<Longrightarrow> talks pend s s'"
proof -
  show "talks pend s s'" if "print_uart B cs s = Some s'"
    using print_uart_quiet [OF L, of s cs] that by (auto simp: quiet_run_def intro: quiet_talks)
  show "talks pend s s'" if "print_status B c r s = Some s'"
    using print_fields_quiet(4) [OF L, of s c r] that by (auto simp: quiet_run_def intro: quiet_talks)
  show "talks pend s s'" if "sd_dummy B s = Some (q, s')"
    unfolding talks_def using spi_txrx_swaps [OF L, of s "0xff"] that by (auto simp: sd_dummy_def)
  show "talks pend s s'" if "sd_dummies n B s = Some s'"
    unfolding talks_def using sd_dummies_swaps [OF L, of s n] that by auto
  show "talks pend s s'" if "sd_cmd B cmd arg crc s = Some (q, s')"
    unfolding talks_def using sd_cmd_swaps [OF L, of s cmd arg crc] that by auto
qed

text \<open>A run that comes back has talked to the card only.\<close>

definition talk_run :: "('d \<Rightarrow> nat) \<Rightarrow> 'd world \<Rightarrow> ('x \<times> 'd world) option \<Rightarrow> bool" where
  "talk_run pend s m \<longleftrightarrow> (\<forall>y. m = Some y \<longrightarrow> talks pend s (snd y))"

lemma talk_run_Some: "talk_run pend s (Some (x, s))"
  by (simp add: talk_run_def)

lemma talk_run_bind:
  "talk_run pend s m \<Longrightarrow> (\<And>x s'. talk_run pend s' (f x s')) \<Longrightarrow> talk_run pend s (m \<bind> (\<lambda>(x, s). f x s))"
  unfolding talk_run_def by (cases m) (auto intro: talks_trans)

lemma talk_run_bind1:
  "(\<And>s'. m = Some s' \<Longrightarrow> talks pend s s') \<Longrightarrow> (\<And>s'. talk_run pend s' (f s')) \<Longrightarrow> talk_run pend s (m \<bind> f)"
  unfolding talk_run_def by (cases m) (auto intro: talks_trans)

lemma talk_run_step:
  assumes L: "spi_fifo B pend"
  shows "talk_run pend s (sd_dummy B s)" "talk_run pend s (sd_cmd B cmd arg crc s)"
  unfolding talk_run_def using talks_step(3,5) [OF L] by (metis prod.collapse)+

lemmas talk_runs = talk_run_Some talk_run_bind talk_run_bind1 talk_run_step talks_step

lemma sd_cmd0_loop_talks: "spi_fifo B pend \<Longrightarrow> talk_run pend s (sd_cmd0_loop n r B s)"
  by (induction n arbitrary: r s) (auto intro!: talk_run_Some talk_run_bind talk_run_bind1 intro: talk_run_step talks_step)

lemma sd_cmd8_talks: "spi_fifo B pend \<Longrightarrow> talk_run pend s (sd_cmd8 B s)"
  unfolding sd_cmd8_def by (intro talk_run_Some talk_run_bind talk_run_step)

lemma sd_cmd55_talks: "spi_fifo B pend \<Longrightarrow> talk_run pend s (sd_cmd55 B s)"
  unfolding sd_cmd55_def by (intro talk_run_Some talk_run_bind talk_run_bind1 talk_run_step) (auto intro: talks_step)

lemma sd_acmd41_result: "sd_acmd41 B s = Some y \<Longrightarrow> spi_fifo B pend \<longrightarrow> talks pend s (snd y)"
proof (rule sd_acmd41.raw_induct [where P = "\<lambda>B s y. spi_fifo B pend \<longrightarrow> talks pend s (snd y)", rotated])
  fix f and B :: "'a bus" and s and y :: "bool \<times> 'a world"
  assume IH: "\<And>B s y. f B s = Some y \<Longrightarrow> spi_fifo B pend \<longrightarrow> talks pend s (snd y)"
    and eq: "(sd_cmd55 B s \<bind> (\<lambda>(q, s). sd_cmd B 41 0x40000000 0x77 s \<bind>
       (\<lambda>(r, s). print_status B ''cmd41'' r s \<bind> (\<lambda>s. sd_dummy B s \<bind>
       (\<lambda>(q, s). if r = 1 then f B s else Some (r = 0, s)))))) = Some y"
  show "spi_fifo B pend \<longrightarrow> talks pend s (snd y)"
  proof
    assume L: "spi_fifo B pend"
    have f: "talk_run pend s (if r = 1 then f B s else Some (r = 0, s))" for s and r :: u8
      using IH L by (auto simp: talk_run_def)
    have "talk_run pend s (sd_cmd55 B s \<bind> (\<lambda>(q, s). sd_cmd B 41 0x40000000 0x77 s \<bind>
       (\<lambda>(r, s). print_status B ''cmd41'' r s \<bind> (\<lambda>s. sd_dummy B s \<bind>
       (\<lambda>(q, s). if r = 1 then f B s else Some (r = 0, s))))))"
      by (intro talk_run_bind talk_run_bind1 talk_run_step L sd_cmd55_talks f) (auto intro: talks_step L)
    then show "talks pend s (snd y)" using eq by (simp add: talk_run_def)
  qed
qed

lemma sd_acmd41_talks: "spi_fifo B pend \<Longrightarrow> talk_run pend s (sd_acmd41 B s)"
  unfolding talk_run_def using sd_acmd41_result by blast

lemma print_status_reg_quiet:
  assumes L: "spi_fifo B pend"
  shows "quiet_run pend s (print_status_reg B s)"
proof -
  let ?s = "snd (read_reg B SPI_STATUS_REG s)"
  have "quiet_run pend ?s (print_uart B ''status: 0x'' ?s \<bind>
      (\<lambda>x. print_uart_addr B (ucast (fst (read_reg B SPI_STATUS_REG s))) x \<bind> print_uart B CRLF))"
    by (intro quiet_run_bind prints [OF L] print_fields_quiet [OF L])
  moreover have "quiet pend s ?s" by (simp add: quiet_def read_reg_log read_reg_pend [OF L])
  ultimately show ?thesis
    unfolding print_status_reg_def quiet_run_def Let_def split_beta using quiet_trans by blast
qed

text \<open>The initialisation of the controller empties its queue; it does not transfer anything.\<close>

lemma spi_init_idle:
  assumes L: "spi_fifo B pend"
  shows "\<exists>s'. spi_init B s = Some s' \<and> swaps pend s [] [] s'"
proof -
  note prints = print_uart_quiet [OF L, unfolded quiet_run_def] print_status_reg_quiet [OF L, unfolded quiet_run_def]
  obtain s1 where 1: "print_uart B (''init SPI'' @ CRLF) s = Some s1" "quiet pend s s1" using prints(1) by blast
  let ?s1 = "write_reg B SPI_CONTROL_REG 0x104 (do_delay 10 (write_reg B SPI_RESET_REG 0x0a s1))"
  obtain s2 where 2: "print_status_reg B ?s1 = Some s2" "quiet pend ?s1 s2" using prints(2) by blast
  let ?s2 = "write_reg B SPI_CONTROL_REG 0x166 s2"
  obtain s3 where 3: "print_status_reg B ?s2 = Some s3" "quiet pend ?s2 s3" using prints(2) by blast
  let ?s3 = "write_reg B SPI_CONTROL_REG 0x06 s3"
  obtain s4 where 4: "print_uart B (''SPI initialized!'' @ CRLF) ?s3 = Some s4" "quiet pend ?s3 s4" using prints(1) by blast
  have "pend (dev ?s2) = 0" using L by (simp add: spi_fifo_def write_reg_def mmio_wr_def)
  moreover have "SPI_RESET_REG \<noteq> SPI_TRANSMIT_REG" by (simp add: spi_regs)
  ultimately have "swaps pend s [] [] s4"
    using 1(2) 2(2) 3(2) 4(2) by (simp add: quiet_def swaps_def write_reg_pend [OF L] write_reg_log)
  then show ?thesis using 1(1) 2(1) 3(1) 4(1) by (simp add: spi_init_def del: append.simps)
qed

lemma init_sd_idle:
  assumes L: "spi_fifo B pend" and "init_sd B s = Some (rc, s')"
  shows "\<exists>bs rs. swaps pend s bs rs s'"
proof -
  obtain s1 where 1: "spi_init B s = Some s1" "swaps pend s [] [] s1" using spi_init_idle [OF L] by blast
  have "talk_run pend s1 (print_uart B (''initializing SD... '' @ CRLF) s1 \<bind> (\<lambda>s. sd_dummies 10 B s \<bind> (\<lambda>s. sd_cmd0 B s \<bind>
      (\<lambda>(ok, s). if \<not> ok then Some (SD_INIT_ERROR_CMD0, s) else sd_cmd8 B s \<bind>
      (\<lambda>(ok, s). if \<not> ok then Some (SD_INIT_ERROR_CMD8, s) else sd_acmd41 B s \<bind>
      (\<lambda>(ok, s). Some (if \<not> ok then SD_INIT_ERROR_ACMD41 else 0, s)))))))"
    unfolding sd_cmd0_def
    by (intro talk_run_bind talk_run_bind1 talk_run_Some sd_cmd0_loop_talks [OF L] sd_cmd8_talks [OF L] sd_acmd41_talks [OF L]
        if_split [where P = "talk_run pend _", THEN iffD2] conjI impI) (auto intro: talks_step [OF L])
  then have "talks pend s1 s'"
    using assms(2) 1(1) by (simp add: init_sd_def talk_run_def del: append.simps sd_dummies.simps)
  then obtain bs rs where "swaps pend s1 bs rs s'" using swaps_idle [OF 1(2)] by (auto simp: talks_def)
  then show ?thesis using swaps_trans [OF 1(2)] by fastforce
qed

section \<open>Booting\<close>

text \<open>The blocks \<open>ds\<close> were fetched from \<open>lba\<close> to \<open>dst\<close>.\<close>

definition fetched :: "('d \<Rightarrow> nat) \<Rightarrow> 'd world \<Rightarrow> u32 \<Rightarrow> nat \<Rightarrow> u64 \<Rightarrow> u8 list list \<Rightarrow> 'd world \<Rightarrow> bool" where
  "fetched pend s lba n dst ds s' \<longleftrightarrow>
     (\<exists>bs resp body tail. swaps pend s (sd_frame 18 lba 1 @ bs) (resp @ body @ tail) s' \<and> card_sends ds body) \<and>
     length ds = n \<and> get_bytes ld8 (ram s') dst (length (concat ds)) = concat ds"

lemma card_sends_size: "card_sends ds rs \<Longrightarrow> d \<in> set ds \<Longrightarrow> length d = 512"
  by (induction rule: card_sends.induct) auto

lemma card_sends_total: "card_sends ds rs \<Longrightarrow> length (concat ds) = 512 * length ds"
  by (induction rule: card_sends.induct) simp_all

lemma sd_copy_success:
  assumes "spi_fifo B pend" "tokens_come B pend" "pend (dev s) = 0" "sd_copy B F dst lba n s = Some (0, s')"
  obtains ds where "fetched pend s lba (max 1 (unat n)) dst ds s'"
proof -
  obtain rc s0 bs resp body tail where run: "sd_copy B F dst lba n s = Some (rc, s0)"
    "swaps pend s (sd_frame 18 lba 1 @ bs) (resp @ body @ tail) s0"
    "if last resp = 0 then blocks_read (max 1 (unat n)) dst (put_bytes st8 (ram s) (ff_buf F) (replicate 128 0xff)) body rc (ram s0)
     else rc = - 1 \<and> ram s0 = put_bytes st8 (ram s) (ff_buf F) (replicate 128 0xff)"
    using sd_copy_runs [OF assms(1-3), of F dst lba n] by blast
  have "rc = 0" "s0 = s'" using run(1) assms(4) by simp_all
  then have "blocks_read (max 1 (unat n)) dst (put_bytes st8 (ram s) (ff_buf F) (replicate 128 0xff)) body 0 (ram s')"
    using run(3) by (simp split: if_splits)
  then obtain ds where ds: "card_sends ds body" "length ds = max 1 (unat n)"
      "ram s' = put_bytes st8 (put_bytes st8 (ram s) (ff_buf F) (replicate 128 0xff)) dst (concat ds)"
    by (auto simp: blocks_read_def SD_COPY_ERROR_CMD18_CRC_def)
  have "max 1 (unat n) \<le> 2 ^ 32" using unsigned_less [of n, where 'a = nat] by simp
  then have "length (concat ds) \<le> 2 ^ 64" using card_sends_total [OF ds(1)] ds(2) by simp
  then have "get_bytes ld8 (ram s') dst (length (concat ds)) = concat ds"
    unfolding ds(3) by (rule ram_store.get_put_same) simp
  then show ?thesis using that ds(1,2) run(2) \<open>s0 = s'\<close> unfolding fetched_def by blast
qed

definition le_at :: "u8 list \<Rightarrow> nat \<Rightarrow> u64" where
  "le_at bs k = le_word (take 8 (drop k bs))"

lemma ld64_at:
  assumes "get_bytes ld8 m a (length bs) = bs" "k + 8 \<le> length bs"
  shows "ld64 m (a + of_nat k) = le_at bs k"
proof -
  have "get_bytes ld8 m (a + of_nat k) 8 = take 8 (drop k bs)"
    using assms(2) by (subst assms(1) [symmetric], intro nth_equalityI) (auto simp: nth_get_bytes add.assoc)
  then show ?thesis by (simp add: ld64_def le_at_def)
qed

lemma fetched_field:
  assumes "fetched pend s lba 1 a ds s'" "ram s'' = ram s'" "k + 8 \<le> 512"
  shows "\<exists>d. ds = [d] \<and> ld64 (ram s'') (a + of_nat k) = le_at d k"
proof -
  obtain d where d: "ds = [d]" using assms(1) by (auto simp: fetched_def length_Suc_conv)
  have "length d = 512" "get_bytes ld8 (ram s') a (length d) = d"
    using assms(1) card_sends_size by (force simp: fetched_def d)+
  then show ?thesis using ld64_at [of "ram s''" a d k] assms(2,3) by (simp add: d)
qed

text \<open>
  The card was asked for the header \<open>hdr\<close> in block 1, for the entries \<open>ent\<close> in the block that the header names, and for
  the image in the blocks from the one that the first entry names; it sent them with their checksums, and the image is at
  \<open>dest\<close>.
\<close>

definition booted :: "('d \<Rightarrow> nat) \<Rightarrow> 'd world \<Rightarrow> u64 \<Rightarrow> nat \<Rightarrow> 'd world \<Rightarrow> bool" where
  "booted pend s dest n s' \<longleftrightarrow> (\<exists>hdr ent img s1 s2 s3 a b. (\<exists>bs rs. swaps pend s bs rs s1) \<and>
     fetched pend s1 1 1 a [hdr] s2 \<and> fetched pend s2 (ucast (le_at hdr 72)) 1 b [ent] s3 \<and>
     fetched pend s3 (ucast (le_at ent 32)) n dest img s')"

lemma sd_failed_nonzero: "sd_failed B rc s \<noteq> Some (0, s')"
  by (auto simp: sd_failed_def bind_eq_Some_conv)

lemma fetched_quiet: "fetched pend s lba n dst ds s' \<Longrightarrow> quiet pend s' s'' \<Longrightarrow> fetched pend s lba n dst ds s''"
  unfolding fetched_def using swaps_quiet by (fastforce simp: quiet_def)

lemma fetched_idle: "fetched pend s lba n dst ds s' \<Longrightarrow> pend (dev s') = 0"
  by (auto simp: fetched_def swaps_def)

lemma gpt_booted:
  assumes L: "spi_fifo B pend" and T: "tokens_come B pend"
    and run: "gpt_find_boot_partition B F dest n s = Some (0, s')"
  shows "booted pend s dest (max 1 (unat n)) s'"
proof -
  have print: "quiet pend s s'" if "print_uart B cs s = Some s'" for cs s s'
    using print_uart_quiet [OF L, of s cs] that by (auto simp: quiet_run_def)
  let ?lba1 = "\<lambda>s. ucast (ld64 (ram s) (lba1_buf F + 72)) :: u32" let ?lba2 = "\<lambda>s. ucast (ld64 (ram s) (lba2_buf F + 32)) :: u32"
  obtain s1 s2 s3 s4 s5 s6 s7 s8 where init: "init_sd B s = Some (0, s1)" "print_uart B (''sd initialized!'' @ CRLF) s1 = Some s2" and
    header: "sd_copy B F (lba1_buf F) 1 1 s2 = Some (0, s3)" "print_header B (lba1_buf F) s3 = Some s4" and
    entries: "sd_copy B F (lba2_buf F) (?lba1 s4) 1 s4 = Some (0, s5)" "print_entries [0, 1, 2, 3] B (lba2_buf F) s5 = Some s6"
      "print_uart B ''copying boot image '' s6 = Some s7" and
    image: "sd_copy B F dest (?lba2 s7) n s7 = Some (0, s8)" "print_uart B ('' done!'' @ CRLF) s8 = Some s'"
    using run
    by (auto simp: gpt_find_boot_partition_def bind_eq_Some_conv sd_failed_nonzero simp del: append.simps print_entries.simps
        split: if_splits)
  obtain bs rs where "swaps pend s bs rs s1" using init_sd_idle [OF L init(1)] by blast
  then have sw: "swaps pend s bs rs s2" by (rule swaps_quiet) (rule print [OF init(2)])
  have q4: "quiet pend s3 s4" and q7: "quiet pend s5 s7"
    using print_header_quiet [OF L, of s3 "lba1_buf F"] header(2) print_entries_quiet [OF L, of s5 "[0, 1, 2, 3]" "lba2_buf F"]
      entries(2) print [OF entries(3)] quiet_trans
    by (auto simp: quiet_run_def simp del: print_entries.simps)
  obtain hs where "fetched pend s2 1 1 (lba1_buf F) hs s3"
    using sd_copy_success [OF L T swaps_idle [OF sw] header(1)] by auto
  note f3 = fetched_quiet [OF this q4]
  obtain hdr where hdr: "hs = [hdr]" "ld64 (ram s4) (lba1_buf F + 72) = le_at hdr 72"
    using fetched_field [OF f3 refl, of 72] by auto
  obtain es where "fetched pend s4 (?lba1 s4) 1 (lba2_buf F) es s5"
    using sd_copy_success [OF L T fetched_idle [OF f3] entries(1)] by auto
  note f5 = fetched_quiet [OF this q7]
  obtain ent where ent: "es = [ent]" "ld64 (ram s7) (lba2_buf F + 32) = le_at ent 32"
    using fetched_field [OF f5 refl, of 32] by auto
  obtain img where "fetched pend s7 (?lba2 s7) (max 1 (unat n)) dest img s8"
    using sd_copy_success [OF L T fetched_idle [OF f5] image(1)] .
  note f8 = fetched_quiet [OF this print [OF image(2)]]
  show ?thesis unfolding booted_def
    using sw f3 [unfolded hdr(1)] f5 [unfolded hdr(2) ent(1)] f8 [unfolded ent(2)] by blast
qed

lemma init_uart_log: "tx (init_uart B f b s) = tx s" "rx (init_uart B f b s) = rx s"
  by (simp_all add: init_uart_def write_reg_u8_def mmio_wr_def tx_def rx_def Let_def uart_regs spi_regs)

section \<open>The theorems\<close>

text \<open>
  \<^bold>\<open>C33\<close>: The byte-wise checksum of the SD driver is, over a message of any
  length, the bit-serial CRC with the polynomial x^16 + x^12 + x^5 + 1.
\<close>

theorem crc16_is_crc_ccitt:
  "foldl crc16 crc data = foldl crc_bit crc (concat (map byte_bits data))"
  by (rule crc16_message)

text \<open>
  \<^bold>\<open>C6\<close>: A read of blocks from the SD card returns whenever the controller
  transfers and the card keeps sending data tokens: it has sent the read command with the block
  number and the checksum byte 1, and either all blocks are in place with correct checksums, or a
  checksum was wrong, or the card refused the command.
\<close>

theorem sd_copy_reads:
  assumes "spi_fifo B pend" "tokens_come B pend" "pend (dev s) = 0"
  shows "\<exists>rc s' bs resp body tail. sd_copy B F dst lba n s = Some (rc, s') \<and>
    swaps pend s (sd_frame 18 lba 1 @ bs) (resp @ body @ tail) s' \<and> resp \<noteq> [] \<and>
    (if last resp = 0 then blocks_read (max 1 (unat n)) dst (put_bytes st8 (ram s) (ff_buf F) (replicate 128 0xff)) body rc (ram s')
     else rc = - 1 \<and> ram s' = put_bytes st8 (ram s) (ff_buf F) (replicate 128 0xff))"
  using assms by (rule sd_copy_runs)


end
