(* ===== verification/UserExamples.thy ===== *)
theory UserExamples
  imports Examples UserProps UserCalls BootRomProps
begin

text \<open>The properties of the boot ROM and of the user library at concrete inputs.\<close>

section \<open>A card\<close>

text \<open>
  The card sends blocks of zeros: a token every 515 bytes, then 512 zeros and their checksum, also zero. The state is the
  number of bytes that are queued and the number that were taken.
\<close>

definition card_byte :: "nat \<Rightarrow> u8" where
  "card_byte k = (if k mod 515 = 0 then SD_DATA_TOKEN else 0)"

definition card_bus :: "(nat \<times> nat) bus" where
  "card_bus = \<lparr>bus_rd = \<lambda>w a (n, k).
       if a = SPI_RECEIVE_REG then (ucast (card_byte k), (n - 1, k + 1))
       else if a = SPI_STATUS_REG then (if n = 0 then 1 else 0, (n, k)) else (0x20, (n, k)),
     bus_wr = \<lambda>w a v (n, k).
       if a = SPI_TRANSMIT_REG then (n + 1, k) else if a = SPI_CONTROL_REG \<and> v AND 0x60 = 0x60 then (0, k) else (n, k)\<rparr>"

lemma card_fifo: "spi_fifo card_bus fst"
  by (auto simp: spi_fifo_def card_bus_def spi_regs uart_regs split: if_splits)

lemma card_accesses:
  "bus_rd card_bus 4 SPI_RECEIVE_REG (n, k) = (ucast (card_byte k), (n - 1, k + 1))"
  "bus_rd card_bus 4 SPI_STATUS_REG (n, k) = (if n = 0 then 1 else 0, (n, k))"
  "bus_wr card_bus 4 SPI_TRANSMIT_REG v (n, k) = (n + 1, k)"
  "bus_wr card_bus 4 SPI_SLAVE_SELECT_REG v (n, k) = (n, k)"
  "bus_wr card_bus 4 SPI_CONTROL_REG v (n, k) = (if v AND 0x60 = 0x60 then (0, k) else (n, k))"
  by (simp_all add: card_bus_def spi_regs)

lemma card_dummy:
  assumes "dev s = (0, k)"
  shows "\<exists>s'. sd_dummy card_bus s = Some (card_byte k, s') \<and> dev s' = (0, k + 1)"
  using assms
  by (simp add: sd_dummy_def spi_txrx_def Let_def split_beta receive_wait_now [OF card_fifo] write_reg_def read_reg_def mmio_wr_def
      mmio_rd_def card_accesses do_delay_def card_byte_def SD_DATA_TOKEN_def)

lemma card_token: "dev s = (0, k) \<Longrightarrow> (k + j) mod 515 = 0 \<Longrightarrow> token_comes card_bus s"
proof (induction j arbitrary: k s)
  case 0
  then show ?case using card_dummy [OF 0(1)] by (auto simp: card_byte_def intro: token_comes.now)
next
  case (Suc j)
  obtain s' where "sd_dummy card_bus s = Some (card_byte k, s')" "dev s' = (0, k + 1)" using card_dummy [OF Suc.prems(1)] by blast
  then show ?case using Suc.IH [of s' "k + 1"] Suc.prems(2) by (auto intro: token_comes.later)
qed

lemma card_tokens: "tokens_come card_bus fst"
proof -
  have "(k + 514 * k) mod 515 = (0 :: nat)" for k by simp
  then show ?thesis unfolding tokens_come_def using card_token by (metis prod.collapse)
qed

definition demo_rom :: rom_frame where
  "demo_rom = \<lparr>ff_buf = 0x10000, lba1_buf = 0x11000, lba2_buf = 0x12000, rom_dtb = 0x13000\<rparr>"

theorem sd_copy_reads_witness:
  "\<exists>rc s' bs. sd_copy card_bus demo_rom 0x80000000 5 2 (resting (0, 1)) = Some (rc, s') \<and> tx s' = sd_frame 18 5 1 @ bs"
  using sd_copy_reads [OF card_fifo card_tokens, of "resting (0, 1)" demo_rom "0x80000000" 5 2]
  by (auto simp: resting_def swaps_def tx_def)


section \<open>The user library\<close>

definition demo_client :: "unit client" where
  "demo_client = \<lparr>kernel = demo 1, kernel_frame = demo_frame, other_regs = \<lambda>_. 0, user_pc = 0x10000, put_buf = 0x20000,
     put_len = 0x20100, user_local = \<lambda>i. 0x21000\<rparr>"

lemma demo_may_decrypt: "may_decrypt demo_client 0x1000 0x2000 0x3000 at_rest"
proof -
  have "apart 0x80031000 16 0x80030000 16" by (rule apart_sym [OF apartI]) simp_all
  then show ?thesis
    by (simp add: may_decrypt_def demo_client_def valid_user_range_iff_runs kernel_local_def demo_frame_def resting_def)
qed

theorem api_aes0_decrypt_runs_witness:
  "\<exists>s'. api_aes0_decrypt demo_client 0x1000 0x2000 0x3000 2 at_rest = Some s' \<and>
     sent s' = aes0_cmds (aes0 at_rest) (ld_words (\<lambda>_. 0) 0x1000 4) (ld_words (\<lambda>_. 0) 0x2000 4) 2"
  using api_aes0_decrypt_runs [OF _ _ demo_may_decrypt, of 2]
  by (auto simp: demo_client_def)

text \<open>The format \<^verbatim>\<open>x=%04x %d\<close> at address 0.\<close>

definition demo_fmt :: "ram" where
  "demo_fmt a = (if a < 10 then [120, 61, 37, 48, 52, 120, 32, 37, 100, 0] ! unat a else 0)"

theorem sprintf_renders_witness:
  "sprintf 0x500 0x1000 0 [0xBEEF, - 5] (at_rest\<lparr>ram := demo_fmt\<rparr>) = Some (9,
     at_rest\<lparr>ram := put_bytes st8 demo_fmt 0x1000 [120, 61, 98, 101, 101, 102, 32, 45, 53, 0]\<rparr>)"
proof -
  let ?items = "[Lit 120, Lit 61, Number Hex True 4, Lit 32, Number Dec False 0]"
  have rendered: "render ?items [0xBEEF, - 5] = [120, 61, 98, 101, 101, 102, 32, 45, 53]"
    by (simp add: kind_text_def number_text_def digits_of.simps digit_char_def)
  have "0x1000 + of_nat i \<notin> {0, 1, 2, 3, 4, 5, 6, 7, 8, 9 :: u64}" if "i < length (render ?items [0xBEEF, - 5])" for i
  proof -
    have "i = 8 \<or> i = 3 \<or> i = 0 \<or> i = 5 \<or> i = 2 \<or> i = 7 \<or> i = 4 \<or> i = 1 \<or> i = 6" using that unfolding rendered by auto
    then show ?thesis by (elim disjE) simp_all
  qed
  then have room: "\<forall>i<length (render ?items [0xBEEF, - 5]). 0x1000 + of_nat i \<notin> {0, 1, 2, 3, 4, 5, 6, 7, 8, 9 :: u64}" by blast
  have format: "placed (ram (at_rest\<lparr>ram := demo_fmt\<rparr>)) {0, 1, 2, 3, 4, 5, 6, 7, 8, 9} 0 (concat (map item_fmt ?items) @ [0])"
    by (simp add: demo_fmt_def ld8_def)
  show ?thesis
    using sprintf_renders [OF format _ _ room, of "0x500"] unfolding rendered by simp
qed

end
