(* ===== verification/SoftFloat.thy ===== *)
theory SoftFloat
  imports Prelude
begin

text \<open>
  Floating point in integer registers: the part of \<^verbatim>\<open>src/pk/softfloat\<close> that the instruction emulation
  is linked against (\<^verbatim>\<open>softfloat.mk.in\<close>), built without any of the package's options. A number is its bit pattern.
  Every function takes the rounding mode, which the C code finds in \<open>tp\<close>, where it uses it, and returns its result
  with the exceptions it raises. The "fast" integer types are 32 bits wide where they may be, as newlib has them;
  exponents and shift distances, which stay far below the limits of their types, are integers.
  An array of words is a list with its least significant word first.
\<close>

type_synonym flags = u8

definition softfloat_round_near_even :: u32 where "softfloat_round_near_even = 0"
definition softfloat_round_minMag :: u32 where "softfloat_round_minMag = 1"
definition softfloat_round_min :: u32 where "softfloat_round_min = 2"
definition softfloat_round_max :: u32 where "softfloat_round_max = 3"
definition softfloat_round_near_maxMag :: u32 where "softfloat_round_near_maxMag = 4"

definition softfloat_flag_inexact :: flags where "softfloat_flag_inexact = 1"
definition softfloat_flag_underflow :: flags where "softfloat_flag_underflow = 2"
definition softfloat_flag_overflow :: flags where "softfloat_flag_overflow = 4"
definition softfloat_flag_infinite :: flags where "softfloat_flag_infinite = 8"
definition softfloat_flag_invalid :: flags where "softfloat_flag_invalid = 16"

text \<open>\<^verbatim>\<open>softfloat_detectTininess\<close>: a result is tiny if it is so after rounding.\<close>

definition softfloat_tininess_beforeRounding :: u32 where "softfloat_tininess_beforeRounding = 0"
definition softfloat_tininess_afterRounding :: u32 where "softfloat_tininess_afterRounding = 1"
definition softfloat_detectTininess :: u32 where "softfloat_detectTininess = softfloat_tininess_afterRounding"

section \<open>Formats\<close>

definition signF32UI :: "u32 \<Rightarrow> bool" where "signF32UI a = (drop_bit 31 a \<noteq> 0)"
definition expF32UI :: "u32 \<Rightarrow> int" where "expF32UI a = uint (drop_bit 23 a AND 0xFF)"
definition fracF32UI :: "u32 \<Rightarrow> u32" where "fracF32UI a = a AND 0x007FFFFF"

definition packToF32UI :: "bool \<Rightarrow> int \<Rightarrow> u32 \<Rightarrow> u32" where
  "packToF32UI sign exp sig = push_bit 31 (of_bool sign) + push_bit 23 (word_of_int exp) + sig"

definition isNaNF32UI :: "u32 \<Rightarrow> bool" where
  "isNaNF32UI a = (NOT a AND 0x7F800000 = 0 \<and> a AND 0x007FFFFF \<noteq> 0)"

definition signF64UI :: "u64 \<Rightarrow> bool" where "signF64UI a = (drop_bit 63 a \<noteq> 0)"
definition expF64UI :: "u64 \<Rightarrow> int" where "expF64UI a = uint (drop_bit 52 a AND 0x7FF)"
definition fracF64UI :: "u64 \<Rightarrow> u64" where "fracF64UI a = a AND 0x000FFFFFFFFFFFFF"

definition packToF64UI :: "bool \<Rightarrow> int \<Rightarrow> u64 \<Rightarrow> u64" where
  "packToF64UI sign exp sig = push_bit 63 (of_bool sign) + push_bit 52 (word_of_int exp) + sig"

definition isNaNF64UI :: "u64 \<Rightarrow> bool" where
  "isNaNF64UI a = (NOT a AND 0x7FF0000000000000 = 0 \<and> a AND 0x000FFFFFFFFFFFFF \<noteq> 0)"

definition defaultNaNF32UI :: u32 where "defaultNaNF32UI = 0x7FC00000"
definition defaultNaNF64UI :: u64 where "defaultNaNF64UI = 0x7FF8000000000000"

definition softfloat_isSigNaNF32UI :: "u32 \<Rightarrow> bool" where
  "softfloat_isSigNaNF32UI uiA = (uiA AND 0x7FC00000 = 0x7F800000 \<and> uiA AND 0x003FFFFF \<noteq> 0)"

definition softfloat_isSigNaNF64UI :: "u64 \<Rightarrow> bool" where
  "softfloat_isSigNaNF64UI uiA = (uiA AND 0x7FF8000000000000 = 0x7FF0000000000000 \<and> uiA AND 0x0007FFFFFFFFFFFF \<noteq> 0)"

text \<open>What the conversion of a NaN into the common form raises; the common form itself holds nothing.\<close>

definition softfloat_f32UIToCommonNaN :: "u32 \<Rightarrow> flags" where
  "softfloat_f32UIToCommonNaN uiA = (if uiA AND 0x00400000 = 0 then softfloat_flag_invalid else 0)"

definition softfloat_f64UIToCommonNaN :: "u64 \<Rightarrow> flags" where
  "softfloat_f64UIToCommonNaN uiA = (if uiA AND 0x0008000000000000 = 0 then softfloat_flag_invalid else 0)"

definition softfloat_propagateNaNF32UI :: "u32 \<Rightarrow> u32 \<Rightarrow> u32 \<times> flags" where
  "softfloat_propagateNaNF32UI uiA uiB =
     (defaultNaNF32UI,
      if softfloat_isSigNaNF32UI uiA \<or> softfloat_isSigNaNF32UI uiB then softfloat_flag_invalid else 0)"

definition softfloat_propagateNaNF64UI :: "u64 \<Rightarrow> u64 \<Rightarrow> u64 \<times> flags" where
  "softfloat_propagateNaNF64UI uiA uiB =
     (defaultNaNF64UI,
      if softfloat_isSigNaNF64UI uiA \<or> softfloat_isSigNaNF64UI uiB then softfloat_flag_invalid else 0)"

definition f32_classify :: "u32 \<Rightarrow> u32" where
  "f32_classify uiA =
     (let infOrNaN = (expF32UI uiA = 0xFF); subnormalOrZero = (expF32UI uiA = 0); sign = signF32UI uiA
      in push_bit 0 (of_bool (sign \<and> infOrNaN \<and> fracF32UI uiA = 0))
         OR push_bit 1 (of_bool (sign \<and> \<not> infOrNaN \<and> \<not> subnormalOrZero))
         OR push_bit 2 (of_bool (sign \<and> subnormalOrZero \<and> fracF32UI uiA \<noteq> 0))
         OR push_bit 3 (of_bool (sign \<and> subnormalOrZero \<and> fracF32UI uiA = 0))
         OR push_bit 7 (of_bool (\<not> sign \<and> infOrNaN \<and> fracF32UI uiA = 0))
         OR push_bit 6 (of_bool (\<not> sign \<and> \<not> infOrNaN \<and> \<not> subnormalOrZero))
         OR push_bit 5 (of_bool (\<not> sign \<and> subnormalOrZero \<and> fracF32UI uiA \<noteq> 0))
         OR push_bit 4 (of_bool (\<not> sign \<and> subnormalOrZero \<and> fracF32UI uiA = 0))
         OR push_bit 8 (of_bool (isNaNF32UI uiA \<and> softfloat_isSigNaNF32UI uiA))
         OR push_bit 9 (of_bool (isNaNF32UI uiA \<and> \<not> softfloat_isSigNaNF32UI uiA)))"

definition f64_classify :: "u64 \<Rightarrow> u32" where
  "f64_classify uiA =
     (let infOrNaN = (expF64UI uiA = 0x7FF); subnormalOrZero = (expF64UI uiA = 0); sign = signF64UI uiA
      in push_bit 0 (of_bool (sign \<and> infOrNaN \<and> fracF64UI uiA = 0))
         OR push_bit 1 (of_bool (sign \<and> \<not> infOrNaN \<and> \<not> subnormalOrZero))
         OR push_bit 2 (of_bool (sign \<and> subnormalOrZero \<and> fracF64UI uiA \<noteq> 0))
         OR push_bit 3 (of_bool (sign \<and> subnormalOrZero \<and> fracF64UI uiA = 0))
         OR push_bit 7 (of_bool (\<not> sign \<and> infOrNaN \<and> fracF64UI uiA = 0))
         OR push_bit 6 (of_bool (\<not> sign \<and> \<not> infOrNaN \<and> \<not> subnormalOrZero))
         OR push_bit 5 (of_bool (\<not> sign \<and> subnormalOrZero \<and> fracF64UI uiA \<noteq> 0))
         OR push_bit 4 (of_bool (\<not> sign \<and> subnormalOrZero \<and> fracF64UI uiA = 0))
         OR push_bit 8 (of_bool (isNaNF64UI uiA \<and> softfloat_isSigNaNF64UI uiA))
         OR push_bit 9 (of_bool (isNaNF64UI uiA \<and> \<not> softfloat_isSigNaNF64UI uiA)))"

section \<open>Comparisons\<close>

definition f32_eq :: "u32 \<Rightarrow> u32 \<Rightarrow> bool \<times> flags" where
  "f32_eq uiA uiB =
     (if isNaNF32UI uiA \<or> isNaNF32UI uiB then
        (False, if softfloat_isSigNaNF32UI uiA \<or> softfloat_isSigNaNF32UI uiB then softfloat_flag_invalid else 0)
      else (uiA = uiB \<or> push_bit 1 (uiA OR uiB) = 0, 0))"

definition f32_lt :: "u32 \<Rightarrow> u32 \<Rightarrow> bool \<times> flags" where
  "f32_lt uiA uiB =
     (if isNaNF32UI uiA \<or> isNaNF32UI uiB then (False, softfloat_flag_invalid)
      else let signA = signF32UI uiA; signB = signF32UI uiB
           in (if signA \<noteq> signB then signA \<and> push_bit 1 (uiA OR uiB) \<noteq> 0
               else uiA \<noteq> uiB \<and> signA \<noteq> (uiA < uiB), 0))"

definition f32_lt_quiet :: "u32 \<Rightarrow> u32 \<Rightarrow> bool \<times> flags" where
  "f32_lt_quiet uiA uiB =
     (if isNaNF32UI uiA \<or> isNaNF32UI uiB then
        (False, if softfloat_isSigNaNF32UI uiA \<or> softfloat_isSigNaNF32UI uiB then softfloat_flag_invalid else 0)
      else let signA = signF32UI uiA; signB = signF32UI uiB
           in (if signA \<noteq> signB then signA \<and> push_bit 1 (uiA OR uiB) \<noteq> 0
               else uiA \<noteq> uiB \<and> signA \<noteq> (uiA < uiB), 0))"

definition f64_eq :: "u64 \<Rightarrow> u64 \<Rightarrow> bool \<times> flags" where
  "f64_eq uiA uiB =
     (if isNaNF64UI uiA \<or> isNaNF64UI uiB then
        (False, if softfloat_isSigNaNF64UI uiA \<or> softfloat_isSigNaNF64UI uiB then softfloat_flag_invalid else 0)
      else (uiA = uiB \<or> (uiA OR uiB) AND 0x7FFFFFFFFFFFFFFF = 0, 0))"

definition f64_lt :: "u64 \<Rightarrow> u64 \<Rightarrow> bool \<times> flags" where
  "f64_lt uiA uiB =
     (if isNaNF64UI uiA \<or> isNaNF64UI uiB then (False, softfloat_flag_invalid)
      else let signA = signF64UI uiA; signB = signF64UI uiB
           in (if signA \<noteq> signB then signA \<and> (uiA OR uiB) AND 0x7FFFFFFFFFFFFFFF \<noteq> 0
               else uiA \<noteq> uiB \<and> signA \<noteq> (uiA < uiB), 0))"

definition f64_lt_quiet :: "u64 \<Rightarrow> u64 \<Rightarrow> bool \<times> flags" where
  "f64_lt_quiet uiA uiB =
     (if isNaNF64UI uiA \<or> isNaNF64UI uiB then
        (False, if softfloat_isSigNaNF64UI uiA \<or> softfloat_isSigNaNF64UI uiB then softfloat_flag_invalid else 0)
      else let signA = signF64UI uiA; signB = signF64UI uiB
           in (if signA \<noteq> signB then signA \<and> (uiA OR uiB) AND 0x7FFFFFFFFFFFFFFF \<noteq> 0
               else uiA \<noteq> uiB \<and> signA \<noteq> (uiA < uiB), 0))"

section \<open>Shifts and leading zeros\<close>

definition softfloat_countLeadingZeros8 :: "int list" where
  "softfloat_countLeadingZeros8 =
     [8, 7] @ replicate 2 6 @ replicate 4 5 @ replicate 8 4 @ replicate 16 3 @ replicate 32 2 @ replicate 64 1 @ replicate 128 0"

definition softfloat_countLeadingZeros32 :: "u32 \<Rightarrow> int" where
  "softfloat_countLeadingZeros32 a =
     (let (count, a) = (if a < 0x10000 then (16, push_bit 16 a) else (0, a));
          (count, a) = (if a < 0x1000000 then (count + 8, push_bit 8 a) else (count, a))
      in count + softfloat_countLeadingZeros8 ! unat (drop_bit 24 a))"

definition softfloat_countLeadingZeros64 :: "u64 \<Rightarrow> int" where
  "softfloat_countLeadingZeros64 a =
     (let a32 = ucast (drop_bit 32 a) :: u32;
          (count, a32) = (if a32 = 0 then (32, ucast a) else (0, a32));
          (count, a32) = (if a32 < 0x10000 then (count + 16, push_bit 16 a32) else (count, a32));
          (count, a32) = (if a32 < 0x1000000 then (count + 8, push_bit 8 a32) else (count, a32))
      in count + softfloat_countLeadingZeros8 ! unat (drop_bit 24 a32))"

definition softfloat_shiftRightJam32 :: "u32 \<Rightarrow> u32 \<Rightarrow> u32" where
  "softfloat_shiftRightJam32 a dist =
     (if dist < 31 then drop_bit (unat dist) a OR of_bool (push_bit (unat (- dist AND 31)) a \<noteq> 0) else of_bool (a \<noteq> 0))"

definition softfloat_shiftRightJam64 :: "u64 \<Rightarrow> u32 \<Rightarrow> u64" where
  "softfloat_shiftRightJam64 a dist =
     (if dist < 63 then drop_bit (unat dist) a OR of_bool (push_bit (unat (- dist AND 63)) a \<noteq> 0) else of_bool (a \<noteq> 0))"

definition softfloat_shortShiftRightJam64 :: "u64 \<Rightarrow> nat \<Rightarrow> u64" where
  "softfloat_shortShiftRightJam64 a dist = drop_bit dist a OR of_bool (a AND (push_bit dist 1 - 1) \<noteq> 0)"

definition softfloat_normSubnormalF32Sig :: "u32 \<Rightarrow> int \<times> u32" where
  "softfloat_normSubnormalF32Sig sig =
     (let shiftDist = softfloat_countLeadingZeros32 sig - 8 in (1 - shiftDist, push_bit (nat shiftDist) sig))"

definition softfloat_normSubnormalF64Sig :: "u64 \<Rightarrow> int \<times> u64" where
  "softfloat_normSubnormalF64Sig sig =
     (let shiftDist = softfloat_countLeadingZeros64 sig - 11 in (1 - shiftDist, push_bit (nat shiftDist) sig))"

section \<open>Numbers of several words\<close>

text \<open>The rest of a word that a shift by \<open>dist\<close>, from 1 to 31, hands to its neighbour: \<^verbatim>\<open>uNegDist & 31\<close>.\<close>

definition uNegDist :: "nat \<Rightarrow> nat" where "uNegDist dist = nat (- int dist mod 32)"

primrec short_right_words :: "nat \<Rightarrow> u32 \<Rightarrow> u32 list \<Rightarrow> u32 list" where
  "short_right_words dist partWordZ [] = [partWordZ]"
| "short_right_words dist partWordZ (wordA # ws) =
     (push_bit (uNegDist dist) wordA OR partWordZ) # short_right_words dist (drop_bit dist wordA) ws"

definition softfloat_shortShiftRightM :: "u32 list \<Rightarrow> nat \<Rightarrow> u32 list" where
  "softfloat_shortShiftRightM a dist = short_right_words dist (drop_bit dist (hd a)) (tl a)"

definition softfloat_shortShiftRightJamM :: "u32 list \<Rightarrow> nat \<Rightarrow> u32 list" where
  "softfloat_shortShiftRightJamM a dist =
     (let wordA = hd a; partWordZ = drop_bit dist wordA;
          partWordZ = (if push_bit dist partWordZ \<noteq> wordA then partWordZ OR 1 else partWordZ)
      in short_right_words dist partWordZ (tl a))"

text \<open>A distance of zero is not one of its arguments.\<close>

definition softfloat_shiftRightJamM :: "u32 list \<Rightarrow> nat \<Rightarrow> u32 list" where
  "softfloat_shiftRightJamM a dist =
     (let size = length a; wordDist = min size (dist div 32); innerDist = dist mod 32;
          wordJam = (\<exists>w\<in>set (take wordDist a). w \<noteq> 0);
          shifted = (if wordDist < size
                     then if innerDist \<noteq> 0 then softfloat_shortShiftRightJamM (drop wordDist a) innerDist else drop wordDist a
                     else []);
          z = shifted @ replicate wordDist 0
      in if wordJam then z[0 := z ! 0 OR 1] else z)"

text \<open>The C code goes from the most significant word down, which gives the same words.\<close>

primrec short_left_words :: "nat \<Rightarrow> u32 \<Rightarrow> u32 list \<Rightarrow> u32 list" where
  "short_left_words dist low [] = []"
| "short_left_words dist low (wordA # ws) =
     (push_bit dist wordA OR low) # short_left_words dist (drop_bit (uNegDist dist) wordA) ws"

definition softfloat_shortShiftLeftM :: "u32 list \<Rightarrow> nat \<Rightarrow> u32 list" where
  "softfloat_shortShiftLeftM a dist = short_left_words dist 0 a"

definition softfloat_shiftLeftM :: "u32 list \<Rightarrow> nat \<Rightarrow> u32 list" where
  "softfloat_shiftLeftM a dist =
     (let size = length a; wordDist = min size (dist div 32); innerDist = dist mod 32;
          low = take (size - wordDist) a
      in replicate wordDist 0 @ (if wordDist < size \<and> innerDist \<noteq> 0 then softfloat_shortShiftLeftM low innerDist else low))"

fun add_words :: "u32 \<Rightarrow> u32 list \<Rightarrow> u32 list \<Rightarrow> u32 list" where
  "add_words carry (wordA # as) (wordB # bs) =
     (let wordZ = wordA + wordB + carry
      in wordZ # add_words (if wordZ \<noteq> wordA then of_bool (wordZ < wordA) else carry) as bs)"
| "add_words carry _ _ = []"

definition softfloat_addM :: "u32 list \<Rightarrow> u32 list \<Rightarrow> u32 list" where
  "softfloat_addM a b = add_words 0 a b"

fun sub_words :: "u32 \<Rightarrow> u32 list \<Rightarrow> u32 list \<Rightarrow> u32 list" where
  "sub_words borrow (wordA # as) (wordB # bs) =
     (wordA - wordB - borrow) # sub_words (of_bool (if borrow \<noteq> 0 then wordA \<le> wordB else wordA < wordB)) as bs"
| "sub_words borrow _ _ = []"

definition softfloat_subM :: "u32 list \<Rightarrow> u32 list \<Rightarrow> u32 list" where
  "softfloat_subM a b = sub_words 0 a b"

primrec neg_words :: "u32 \<Rightarrow> u32 list \<Rightarrow> u32 list" where
  "neg_words carry [] = []"
| "neg_words carry (w # ws) =
     (let word = NOT w + carry in word # neg_words (if word \<noteq> 0 then 0 else carry) ws)"

definition softfloat_negXM :: "u32 list \<Rightarrow> u32 list" where
  "softfloat_negXM z = neg_words 1 z"

definition softfloat_mul64To128M :: "u64 \<Rightarrow> u64 \<Rightarrow> u32 list" where
  "softfloat_mul64To128M a b =
     (let a32 = ucast (drop_bit 32 a) :: u32; a0 = ucast a :: u32;
          b32 = ucast (drop_bit 32 b) :: u32; b0 = ucast b :: u32;
          z0 = ucast a0 * ucast b0 :: u64;
          mid1 = ucast a32 * ucast b0 :: u64;
          mid = mid1 + ucast a0 * ucast b32;
          z64 = ucast a32 * ucast b32 :: u64;
          z64 = z64 + (push_bit 32 (of_bool (mid < mid1)) OR drop_bit 32 mid);
          mid = push_bit 32 mid;
          z0 = z0 + mid;
          z64 = z64 + of_bool (z0 < mid)
      in [ucast z0, ucast (drop_bit 32 z0), ucast z64, ucast (drop_bit 32 z64)])"

definition upper_words :: "u32 list \<Rightarrow> u64" where
  "upper_words z = push_bit 32 (ucast (z ! 3)) OR ucast (z ! 2)"

section \<open>Rounding\<close>

definition round_increment :: "u32 \<Rightarrow> bool \<Rightarrow> 'a::len word \<Rightarrow> 'a word \<Rightarrow> 'a word" where
  "round_increment roundingMode sign half all =
     (if roundingMode \<noteq> softfloat_round_near_even \<and> roundingMode \<noteq> softfloat_round_near_maxMag
      then if roundingMode = (if sign then softfloat_round_min else softfloat_round_max) then all else 0
      else half)"

text \<open>The end of the two functions: the rounded significand, packed.\<close>

definition packF32 :: "u32 \<Rightarrow> bool \<Rightarrow> int \<Rightarrow> u32 \<Rightarrow> u32 \<Rightarrow> flags \<Rightarrow> u32 \<times> flags" where
  "packF32 roundingMode sign exp sig roundBits raised =
     (let roundNearEven = (roundingMode = softfloat_round_near_even);
          sig = drop_bit 7 (sig + round_increment roundingMode sign 0x40 0x7F);
          raised = (if roundBits \<noteq> 0 then raised OR softfloat_flag_inexact else raised);
          sig = sig AND NOT (of_bool (roundBits XOR 0x40 = 0 \<and> roundNearEven));
          exp = (if sig = 0 then 0 else exp)
      in (packToF32UI sign exp sig, raised))"

definition softfloat_roundPackToF32 :: "u32 \<Rightarrow> bool \<Rightarrow> int \<Rightarrow> u32 \<Rightarrow> u32 \<times> flags" where
  "softfloat_roundPackToF32 roundingMode sign exp sig =
     (let roundIncrement = round_increment roundingMode sign 0x40 0x7F;
          roundBits = sig AND 0x7F;
          packed = packF32 roundingMode sign
      in if 0xFD \<le> (word_of_int exp :: u32) then
           if exp < 0 then
             let isTiny = (softfloat_detectTininess = softfloat_tininess_beforeRounding \<or> exp < -1
                           \<or> sig + roundIncrement < 0x80000000);
                 sig = softfloat_shiftRightJam32 sig (word_of_int (- exp));
                 roundBits = sig AND 0x7F
             in packed 0 sig roundBits (if isTiny \<and> roundBits \<noteq> 0 then softfloat_flag_underflow else 0)
           else if 0xFD < exp \<or> 0x80000000 \<le> sig + roundIncrement then
             (packToF32UI sign 0xFF 0 - of_bool (roundIncrement = 0), softfloat_flag_overflow OR softfloat_flag_inexact)
           else packed exp sig roundBits 0
         else packed exp sig roundBits 0)"

definition packF64 :: "u32 \<Rightarrow> bool \<Rightarrow> int \<Rightarrow> u64 \<Rightarrow> u64 \<Rightarrow> flags \<Rightarrow> u64 \<times> flags" where
  "packF64 roundingMode sign exp sig roundBits raised =
     (let roundNearEven = (roundingMode = softfloat_round_near_even);
          sig = drop_bit 10 (sig + round_increment roundingMode sign 0x200 0x3FF);
          raised = (if roundBits \<noteq> 0 then raised OR softfloat_flag_inexact else raised);
          sig = sig AND NOT (of_bool (roundBits XOR 0x200 = 0 \<and> roundNearEven));
          exp = (if sig = 0 then 0 else exp)
      in (packToF64UI sign exp sig, raised))"

definition softfloat_roundPackToF64 :: "u32 \<Rightarrow> bool \<Rightarrow> int \<Rightarrow> u64 \<Rightarrow> u64 \<times> flags" where
  "softfloat_roundPackToF64 roundingMode sign exp sig =
     (let roundIncrement = round_increment roundingMode sign 0x200 0x3FF;
          roundBits = sig AND 0x3FF;
          packed = packF64 roundingMode sign
      in if 0x7FD \<le> (word_of_int exp :: u16) then
           if exp < 0 then
             let isTiny = (softfloat_detectTininess = softfloat_tininess_beforeRounding \<or> exp < -1
                           \<or> sig + roundIncrement < 0x8000000000000000);
                 sig = softfloat_shiftRightJam64 sig (word_of_int (- exp));
                 roundBits = sig AND 0x3FF
             in packed 0 sig roundBits (if isTiny \<and> roundBits \<noteq> 0 then softfloat_flag_underflow else 0)
           else if 0x7FD < exp \<or> 0x8000000000000000 \<le> sig + roundIncrement then
             (packToF64UI sign 0x7FF 0 - of_bool (roundIncrement = 0), softfloat_flag_overflow OR softfloat_flag_inexact)
           else packed exp sig roundBits 0
         else packed exp sig roundBits 0)"

definition softfloat_normRoundPackToF32 :: "u32 \<Rightarrow> bool \<Rightarrow> int \<Rightarrow> u32 \<Rightarrow> u32 \<times> flags" where
  "softfloat_normRoundPackToF32 roundingMode sign exp sig =
     (let shiftDist = softfloat_countLeadingZeros32 sig - 1; exp = exp - shiftDist
      in if 7 \<le> shiftDist \<and> (word_of_int exp :: u32) < 0xFD
         then (packToF32UI sign (if sig \<noteq> 0 then exp else 0) (push_bit (nat (shiftDist - 7)) sig), 0)
         else softfloat_roundPackToF32 roundingMode sign exp (push_bit (nat shiftDist) sig))"

definition softfloat_normRoundPackToF64 :: "u32 \<Rightarrow> bool \<Rightarrow> int \<Rightarrow> u64 \<Rightarrow> u64 \<times> flags" where
  "softfloat_normRoundPackToF64 roundingMode sign exp sig =
     (let shiftDist = softfloat_countLeadingZeros64 sig - 1; exp = exp - shiftDist
      in if 10 \<le> shiftDist \<and> (word_of_int exp :: u32) < 0x7FD
         then (packToF64UI sign (if sig \<noteq> 0 then exp else 0) (push_bit (nat (shiftDist - 10)) sig), 0)
         else softfloat_roundPackToF64 roundingMode sign exp (push_bit (nat shiftDist) sig))"

section \<open>Conversions\<close>

definition f32_to_f64 :: "u32 \<Rightarrow> u64 \<times> flags" where
  "f32_to_f64 uiA =
     (let sign = signF32UI uiA; exp = expF32UI uiA; frac = fracF32UI uiA
      in if exp = 0xFF then
           if frac \<noteq> 0 then (defaultNaNF64UI, softfloat_f32UIToCommonNaN uiA) else (packToF64UI sign 0x7FF 0, 0)
         else if exp = 0 \<and> frac = 0 then (packToF64UI sign 0 0, 0)
         else let (exp, frac) = (if exp = 0 then let (e, f) = softfloat_normSubnormalF32Sig frac in (e - 1, f) else (exp, frac))
              in (packToF64UI sign (exp + 0x380) (push_bit 29 (ucast frac)), 0))"

definition f64_to_f32 :: "u32 \<Rightarrow> u64 \<Rightarrow> u32 \<times> flags" where
  "f64_to_f32 roundingMode uiA =
     (let sign = signF64UI uiA; exp = expF64UI uiA; frac = fracF64UI uiA
      in if exp = 0x7FF then
           if frac \<noteq> 0 then (defaultNaNF32UI, softfloat_f64UIToCommonNaN uiA) else (packToF32UI sign 0xFF 0, 0)
         else let frac32 = ucast (softfloat_shortShiftRightJam64 frac 22) :: u32
              in if exp = 0 \<and> frac32 = 0 then (packToF32UI sign 0 0, 0)
                 else softfloat_roundPackToF32 roundingMode sign (exp - 0x381) (frac32 OR 0x40000000))"

definition ui64_to_f64 :: "u32 \<Rightarrow> u64 \<Rightarrow> u64 \<times> flags" where
  "ui64_to_f64 roundingMode a =
     (if a = 0 then (0, 0)
      else if a AND 0x8000000000000000 \<noteq> 0 then
        softfloat_roundPackToF64 roundingMode False 0x43D (softfloat_shortShiftRightJam64 a 1)
      else softfloat_normRoundPackToF64 roundingMode False 0x43C a)"

definition ui64_fromPosOverflow :: u64 where "ui64_fromPosOverflow = 0xFFFFFFFFFFFFFFFF"
definition ui64_fromNegOverflow :: u64 where "ui64_fromNegOverflow = 0"
definition ui64_fromNaN :: u64 where "ui64_fromNaN = 0xFFFFFFFFFFFFFFFF"

definition softfloat_roundMToUI64 :: "bool \<Rightarrow> u32 list \<Rightarrow> u32 \<Rightarrow> bool \<Rightarrow> u64 \<times> flags" where
  "softfloat_roundMToUI64 sign extSig roundingMode exact =
     (let sig = push_bit 32 (ucast (extSig ! 2)) OR ucast (extSig ! 1) :: u64;
          sigExtra = extSig ! 0;
          invalid = (if sign then ui64_fromNegOverflow else ui64_fromPosOverflow, softfloat_flag_invalid);
          rounded = (\<lambda>sig.
            if sign \<and> sig \<noteq> 0 then invalid
            else (sig, if sigExtra \<noteq> 0 \<and> exact then softfloat_flag_inexact else 0));
          increment = (let sig = sig + 1
            in if sig = 0 then invalid
               else rounded (if sigExtra = 0x80000000 \<and> roundingMode = softfloat_round_near_even then sig AND NOT 1 else sig))
      in if roundingMode = softfloat_round_near_maxMag \<or> roundingMode = softfloat_round_near_even then
           if 0x80000000 \<le> sigExtra then increment else rounded sig
         else if sign then
           if sig OR ucast sigExtra = 0 then (0, 0)
           else if roundingMode = softfloat_round_min then invalid
           else rounded sig
         else if roundingMode = softfloat_round_max \<and> sigExtra \<noteq> 0 then increment
         else rounded sig)"

definition f64_to_ui64 :: "u64 \<Rightarrow> u32 \<Rightarrow> bool \<Rightarrow> u64 \<times> flags" where
  "f64_to_ui64 uiA roundingMode exact =
     (let sign = signF64UI uiA; exp = expF64UI uiA; sig = fracF64UI uiA;
          sig = (if exp \<noteq> 0 then sig OR 0x0010000000000000 else sig);
          shiftDist = 0x433 - exp
      in if shiftDist \<le> 0 then
           if shiftDist < -11 then
             (if exp = 0x7FF \<and> fracF64UI uiA \<noteq> 0 then ui64_fromNaN
              else if sign then ui64_fromNegOverflow else ui64_fromPosOverflow, softfloat_flag_invalid)
           else let sig = push_bit (nat (- shiftDist)) sig
                in softfloat_roundMToUI64 sign [0, ucast sig, ucast (drop_bit 32 sig)] roundingMode exact
         else softfloat_roundMToUI64 sign
                (softfloat_shiftRightJamM [0, ucast sig, ucast (drop_bit 32 sig)] (nat shiftDist)) roundingMode exact)"

section \<open>Addition and subtraction\<close>

definition softfloat_addMagsF32 :: "u32 \<Rightarrow> u32 \<Rightarrow> u32 \<Rightarrow> u32 \<times> flags" where
  "softfloat_addMagsF32 roundingMode uiA uiB =
     (let expA = expF32UI uiA; sigA = fracF32UI uiA; expB = expF32UI uiB; sigB = fracF32UI uiB;
          expDiff = expA - expB; signZ = signF32UI uiA;
          aligned = (\<lambda>expZ sigA sigB.
            let sigZ = 0x20000000 + sigA + sigB;
                (expZ, sigZ) = (if sigZ < 0x40000000 then (expZ - 1, push_bit 1 sigZ) else (expZ, sigZ))
            in softfloat_roundPackToF32 roundingMode signZ expZ sigZ)
      in if expDiff = 0 then
           if expA = 0 then (uiA + sigB, 0)
           else if expA = 0xFF then (if sigA OR sigB \<noteq> 0 then softfloat_propagateNaNF32UI uiA uiB else (uiA, 0))
           else let expZ = expA; sigZ = 0x01000000 + sigA + sigB
                in if sigZ AND 1 = 0 \<and> expZ < 0xFE then (packToF32UI signZ expZ (drop_bit 1 sigZ), 0)
                   else softfloat_roundPackToF32 roundingMode signZ expZ (push_bit 6 sigZ)
         else let sigA = push_bit 6 sigA; sigB = push_bit 6 sigB
              in if expDiff < 0 then
                   if expB = 0xFF then (if sigB \<noteq> 0 then softfloat_propagateNaNF32UI uiA uiB else (packToF32UI signZ 0xFF 0, 0))
                   else let sigA = sigA + (if expA \<noteq> 0 then 0x20000000 else sigA)
                        in aligned expB (softfloat_shiftRightJam32 sigA (word_of_int (- expDiff))) sigB
                 else
                   if expA = 0xFF then (if sigA \<noteq> 0 then softfloat_propagateNaNF32UI uiA uiB else (uiA, 0))
                   else let sigB = sigB + (if expB \<noteq> 0 then 0x20000000 else sigB)
                        in aligned expA sigA (softfloat_shiftRightJam32 sigB (word_of_int expDiff)))"

definition softfloat_subMagsF32 :: "u32 \<Rightarrow> u32 \<Rightarrow> u32 \<Rightarrow> u32 \<times> flags" where
  "softfloat_subMagsF32 roundingMode uiA uiB =
     (let expA = expF32UI uiA; sigA = fracF32UI uiA; expB = expF32UI uiB; sigB = fracF32UI uiB;
          expDiff = expA - expB; signZ = signF32UI uiA
      in if expDiff = 0 then
           if expA = 0xFF then
             (if sigA OR sigB \<noteq> 0 then softfloat_propagateNaNF32UI uiA uiB else (defaultNaNF32UI, softfloat_flag_invalid))
           else let sigDiff = sigA - sigB
                in if sigDiff = 0 then (packToF32UI (roundingMode = softfloat_round_min) 0 0, 0)
                   else let expA = (if expA \<noteq> 0 then expA - 1 else expA);
                            (signZ, sigDiff) = (if sint sigDiff < 0 then (\<not> signZ, - sigDiff) else (signZ, sigDiff));
                            shiftDist = softfloat_countLeadingZeros32 sigDiff - 8;
                            expZ = expA - shiftDist;
                            (shiftDist, expZ) = (if expZ < 0 then (expA, 0) else (shiftDist, expZ))
                        in (packToF32UI signZ expZ (push_bit (nat shiftDist) sigDiff), 0)
         else let sigA = push_bit 7 sigA; sigB = push_bit 7 sigB
              in if expDiff < 0 then
                   let signZ = (\<not> signZ)
                   in if expB = 0xFF then (if sigB \<noteq> 0 then softfloat_propagateNaNF32UI uiA uiB else (packToF32UI signZ 0xFF 0, 0))
                      else let sigX = sigB OR 0x40000000; sigY = sigA + (if expA \<noteq> 0 then 0x40000000 else sigA)
                           in softfloat_normRoundPackToF32 roundingMode signZ (expB - 1)
                                (sigX - softfloat_shiftRightJam32 sigY (word_of_int (- expDiff)))
                 else
                   if expA = 0xFF then (if sigA \<noteq> 0 then softfloat_propagateNaNF32UI uiA uiB else (uiA, 0))
                   else let sigX = sigA OR 0x40000000; sigY = sigB + (if expB \<noteq> 0 then 0x40000000 else sigB)
                        in softfloat_normRoundPackToF32 roundingMode signZ (expA - 1)
                             (sigX - softfloat_shiftRightJam32 sigY (word_of_int expDiff)))"

definition f32_add :: "u32 \<Rightarrow> u32 \<Rightarrow> u32 \<Rightarrow> u32 \<times> flags" where
  "f32_add roundingMode uiA uiB =
     (if signF32UI (uiA XOR uiB) then softfloat_subMagsF32 roundingMode uiA uiB
      else softfloat_addMagsF32 roundingMode uiA uiB)"

definition softfloat_addMagsF64 :: "u32 \<Rightarrow> u64 \<Rightarrow> u64 \<Rightarrow> bool \<Rightarrow> u64 \<times> flags" where
  "softfloat_addMagsF64 roundingMode uiA uiB signZ =
     (let expA = expF64UI uiA; sigA = fracF64UI uiA; expB = expF64UI uiB; sigB = fracF64UI uiB;
          expDiff = expA - expB;
          aligned = (\<lambda>expZ sigA sigB.
            let sigZ = 0x2000000000000000 + sigA + sigB;
                (expZ, sigZ) = (if sigZ < 0x4000000000000000 then (expZ - 1, push_bit 1 sigZ) else (expZ, sigZ))
            in softfloat_roundPackToF64 roundingMode signZ expZ sigZ)
      in if expDiff = 0 then
           if expA = 0 then (uiA + sigB, 0)
           else if expA = 0x7FF then (if sigA OR sigB \<noteq> 0 then softfloat_propagateNaNF64UI uiA uiB else (uiA, 0))
           else softfloat_roundPackToF64 roundingMode signZ expA (push_bit 9 (0x0020000000000000 + sigA + sigB))
         else let sigA = push_bit 9 sigA; sigB = push_bit 9 sigB
              in if expDiff < 0 then
                   if expB = 0x7FF then (if sigB \<noteq> 0 then softfloat_propagateNaNF64UI uiA uiB else (packToF64UI signZ 0x7FF 0, 0))
                   else let sigA = (if expA \<noteq> 0 then sigA + 0x2000000000000000 else push_bit 1 sigA)
                        in aligned expB (softfloat_shiftRightJam64 sigA (word_of_int (- expDiff))) sigB
                 else
                   if expA = 0x7FF then (if sigA \<noteq> 0 then softfloat_propagateNaNF64UI uiA uiB else (uiA, 0))
                   else let sigB = (if expB \<noteq> 0 then sigB + 0x2000000000000000 else push_bit 1 sigB)
                        in aligned expA sigA (softfloat_shiftRightJam64 sigB (word_of_int expDiff)))"

definition softfloat_subMagsF64 :: "u32 \<Rightarrow> u64 \<Rightarrow> u64 \<Rightarrow> bool \<Rightarrow> u64 \<times> flags" where
  "softfloat_subMagsF64 roundingMode uiA uiB signZ =
     (let expA = expF64UI uiA; sigA = fracF64UI uiA; expB = expF64UI uiB; sigB = fracF64UI uiB;
          expDiff = expA - expB
      in if expDiff = 0 then
           if expA = 0x7FF then
             (if sigA OR sigB \<noteq> 0 then softfloat_propagateNaNF64UI uiA uiB else (defaultNaNF64UI, softfloat_flag_invalid))
           else let sigDiff = sigA - sigB
                in if sigDiff = 0 then (packToF64UI (roundingMode = softfloat_round_min) 0 0, 0)
                   else let expA = (if expA \<noteq> 0 then expA - 1 else expA);
                            (signZ, sigDiff) = (if sint sigDiff < 0 then (\<not> signZ, - sigDiff) else (signZ, sigDiff));
                            shiftDist = softfloat_countLeadingZeros64 sigDiff - 11;
                            expZ = expA - shiftDist;
                            (shiftDist, expZ) = (if expZ < 0 then (expA, 0) else (shiftDist, expZ))
                        in (packToF64UI signZ expZ (push_bit (nat shiftDist) sigDiff), 0)
         else let sigA = push_bit 10 sigA; sigB = push_bit 10 sigB
              in if expDiff < 0 then
                   let signZ = (\<not> signZ)
                   in if expB = 0x7FF then (if sigB \<noteq> 0 then softfloat_propagateNaNF64UI uiA uiB else (packToF64UI signZ 0x7FF 0, 0))
                      else let sigA = sigA + (if expA \<noteq> 0 then 0x4000000000000000 else sigA);
                               sigA = softfloat_shiftRightJam64 sigA (word_of_int (- expDiff));
                               sigB = sigB OR 0x4000000000000000
                           in softfloat_normRoundPackToF64 roundingMode signZ (expB - 1) (sigB - sigA)
                 else
                   if expA = 0x7FF then (if sigA \<noteq> 0 then softfloat_propagateNaNF64UI uiA uiB else (uiA, 0))
                   else let sigB = sigB + (if expB \<noteq> 0 then 0x4000000000000000 else sigB);
                            sigB = softfloat_shiftRightJam64 sigB (word_of_int expDiff);
                            sigA = sigA OR 0x4000000000000000
                        in softfloat_normRoundPackToF64 roundingMode signZ (expA - 1) (sigA - sigB))"

definition f64_add :: "u32 \<Rightarrow> u64 \<Rightarrow> u64 \<Rightarrow> u64 \<times> flags" where
  "f64_add roundingMode uiA uiB =
     (let signA = signF64UI uiA; signB = signF64UI uiB
      in if signA = signB then softfloat_addMagsF64 roundingMode uiA uiB signA
         else softfloat_subMagsF64 roundingMode uiA uiB signA)"

section \<open>Multiplication\<close>

definition f32_mul :: "u32 \<Rightarrow> u32 \<Rightarrow> u32 \<Rightarrow> u32 \<times> flags" where
  "f32_mul roundingMode uiA uiB =
     (let signA = signF32UI uiA; expA = expF32UI uiA; sigA = fracF32UI uiA;
          signB = signF32UI uiB; expB = expF32UI uiB; sigB = fracF32UI uiB;
          signZ = (signA \<noteq> signB);
          infArg = (\<lambda>zero. if zero then (defaultNaNF32UI, softfloat_flag_invalid) else (packToF32UI signZ 0xFF 0, 0));
          zero = (packToF32UI signZ 0 0, 0)
      in if expA = 0xFF then
           if sigA \<noteq> 0 \<or> expB = 0xFF \<and> sigB \<noteq> 0 then softfloat_propagateNaNF32UI uiA uiB
           else infArg (expB = 0 \<and> sigB = 0)
         else if expB = 0xFF then
           if sigB \<noteq> 0 then softfloat_propagateNaNF32UI uiA uiB else infArg (expA = 0 \<and> sigA = 0)
         else if expA = 0 \<and> sigA = 0 then zero
         else if expB = 0 \<and> sigB = 0 then zero
         else let (expA, sigA) = (if expA = 0 then softfloat_normSubnormalF32Sig sigA else (expA, sigA));
                  (expB, sigB) = (if expB = 0 then softfloat_normSubnormalF32Sig sigB else (expB, sigB));
                  expZ = expA + expB - 0x7F;
                  sigA = push_bit 7 (sigA OR 0x00800000);
                  sigB = push_bit 8 (sigB OR 0x00800000);
                  sigZ = ucast (softfloat_shortShiftRightJam64 (ucast sigA * ucast sigB) 32) :: u32;
                  (expZ, sigZ) = (if sigZ < 0x40000000 then (expZ - 1, push_bit 1 sigZ) else (expZ, sigZ))
              in softfloat_roundPackToF32 roundingMode signZ expZ sigZ)"

definition f64_mul :: "u32 \<Rightarrow> u64 \<Rightarrow> u64 \<Rightarrow> u64 \<times> flags" where
  "f64_mul roundingMode uiA uiB =
     (let signA = signF64UI uiA; expA = expF64UI uiA; sigA = fracF64UI uiA;
          signB = signF64UI uiB; expB = expF64UI uiB; sigB = fracF64UI uiB;
          signZ = (signA \<noteq> signB);
          infArg = (\<lambda>zero. if zero then (defaultNaNF64UI, softfloat_flag_invalid) else (packToF64UI signZ 0x7FF 0, 0));
          zero = (packToF64UI signZ 0 0, 0)
      in if expA = 0x7FF then
           if sigA \<noteq> 0 \<or> expB = 0x7FF \<and> sigB \<noteq> 0 then softfloat_propagateNaNF64UI uiA uiB
           else infArg (expB = 0 \<and> sigB = 0)
         else if expB = 0x7FF then
           if sigB \<noteq> 0 then softfloat_propagateNaNF64UI uiA uiB else infArg (expA = 0 \<and> sigA = 0)
         else if expA = 0 \<and> sigA = 0 then zero
         else if expB = 0 \<and> sigB = 0 then zero
         else let (expA, sigA) = (if expA = 0 then softfloat_normSubnormalF64Sig sigA else (expA, sigA));
                  (expB, sigB) = (if expB = 0 then softfloat_normSubnormalF64Sig sigB else (expB, sigB));
                  expZ = expA + expB - 0x3FF;
                  sigA = push_bit 10 (sigA OR 0x0010000000000000);
                  sigB = push_bit 11 (sigB OR 0x0010000000000000);
                  sig128Z = softfloat_mul64To128M sigA sigB;
                  sigZ = upper_words sig128Z;
                  sigZ = (if sig128Z ! 1 \<noteq> 0 \<or> sig128Z ! 0 \<noteq> 0 then sigZ OR 1 else sigZ);
                  (expZ, sigZ) = (if sigZ < 0x4000000000000000 then (expZ - 1, push_bit 1 sigZ) else (expZ, sigZ))
              in softfloat_roundPackToF64 roundingMode signZ expZ sigZ)"

section \<open>Division\<close>

definition softfloat_approxRecip_1k0s :: "u16 list" where
  "softfloat_approxRecip_1k0s =
     [0xFFC4, 0xF0BE, 0xE363, 0xD76F, 0xCCAD, 0xC2F0, 0xBA16, 0xB201,
      0xAA97, 0xA3C6, 0x9D7A, 0x97A6, 0x923C, 0x8D32, 0x887E, 0x8417]"

definition softfloat_approxRecip_1k1s :: "u16 list" where
  "softfloat_approxRecip_1k1s =
     [0xF0F1, 0xD62C, 0xBFA1, 0xAC77, 0x9C0A, 0x8DDB, 0x8185, 0x76BA,
      0x6D3B, 0x64D4, 0x5D5C, 0x56B1, 0x50B6, 0x4B55, 0x4679, 0x4211]"

definition softfloat_approxRecip32_1 :: "u32 \<Rightarrow> u32" where
  "softfloat_approxRecip32_1 a =
     (let index = unat (drop_bit 27 a AND 0xF);
          eps = ucast (drop_bit 11 a) :: u16;
          r0 = softfloat_approxRecip_1k0s ! index
                 - ucast (drop_bit 20 (ucast (softfloat_approxRecip_1k1s ! index) * ucast eps :: u32));
          sigma0 = NOT (ucast (drop_bit 7 (ucast r0 * ucast a :: u64))) :: u32;
          r = push_bit 16 (ucast r0) + ucast (drop_bit 24 (ucast r0 * ucast sigma0 :: u64)) :: u32;
          sqrSigma0 = ucast (drop_bit 32 (ucast sigma0 * ucast sigma0 :: u64)) :: u32
      in r + ucast (drop_bit 48 (ucast r * ucast sqrSigma0 :: u64)))"

definition f32_div :: "u32 \<Rightarrow> u32 \<Rightarrow> u32 \<Rightarrow> u32 \<times> flags" where
  "f32_div roundingMode uiA uiB =
     (let signA = signF32UI uiA; expA = expF32UI uiA; sigA = fracF32UI uiA;
          signB = signF32UI uiB; expB = expF32UI uiB; sigB = fracF32UI uiB;
          signZ = (signA \<noteq> signB);
          propagateNaN = softfloat_propagateNaNF32UI uiA uiB;
          invalid = (defaultNaNF32UI, softfloat_flag_invalid);
          infinity = packToF32UI signZ 0xFF 0;
          zero = (packToF32UI signZ 0 0, 0)
      in if expA = 0xFF then
           if sigA \<noteq> 0 then propagateNaN
           else if expB = 0xFF then (if sigB \<noteq> 0 then propagateNaN else invalid)
           else (infinity, 0)
         else if expB = 0xFF then (if sigB \<noteq> 0 then propagateNaN else zero)
         else if expB = 0 \<and> sigB = 0 then
           if expA = 0 \<and> sigA = 0 then invalid else (infinity, softfloat_flag_infinite)
         else if expA = 0 \<and> sigA = 0 then zero
         else let (expB, sigB) = (if expB = 0 then softfloat_normSubnormalF32Sig sigB else (expB, sigB));
                  (expA, sigA) = (if expA = 0 then softfloat_normSubnormalF32Sig sigA else (expA, sigA));
                  expZ = expA - expB + 0x7E;
                  sigA = sigA OR 0x00800000;
                  sigB = sigB OR 0x00800000;
                  (expZ, sigA) = (if sigA < sigB then (expZ - 1, push_bit 8 sigA) else (expZ, push_bit 7 sigA));
                  sigB = push_bit 8 sigB;
                  sigZ = ucast (drop_bit 32 (ucast sigA * ucast (softfloat_approxRecip32_1 sigB) :: u64)) :: u32;
                  sigZ = sigZ + 2;
                  sigZ = (if sigZ AND 0x3F < 2 then
                            let sigZ = sigZ AND NOT 3;
                                rem = push_bit 32 (ucast sigA) - ucast (push_bit 1 sigZ) * ucast sigB :: u64
                            in if rem AND 0x8000000000000000 \<noteq> 0 then sigZ - 4
                               else if rem \<noteq> 0 then sigZ OR 1 else sigZ
                          else sigZ)
              in softfloat_roundPackToF32 roundingMode signZ expZ sigZ)"

definition f64_div :: "u32 \<Rightarrow> u64 \<Rightarrow> u64 \<Rightarrow> u64 \<times> flags" where
  "f64_div roundingMode uiA uiB =
     (let signA = signF64UI uiA; expA = expF64UI uiA; sigA = fracF64UI uiA;
          signB = signF64UI uiB; expB = expF64UI uiB; sigB = fracF64UI uiB;
          signZ = (signA \<noteq> signB);
          propagateNaN = softfloat_propagateNaNF64UI uiA uiB;
          invalid = (defaultNaNF64UI, softfloat_flag_invalid);
          infinity = packToF64UI signZ 0x7FF 0;
          zero = (packToF64UI signZ 0 0, 0)
      in if expA = 0x7FF then
           if sigA \<noteq> 0 then propagateNaN
           else if expB = 0x7FF then (if sigB \<noteq> 0 then propagateNaN else invalid)
           else (infinity, 0)
         else if expB = 0x7FF then (if sigB \<noteq> 0 then propagateNaN else zero)
         else if expB = 0 \<and> sigB = 0 then
           if expA = 0 \<and> sigA = 0 then invalid else (infinity, softfloat_flag_infinite)
         else if expA = 0 \<and> sigA = 0 then zero
         else let (expB, sigB) = (if expB = 0 then softfloat_normSubnormalF64Sig sigB else (expB, sigB));
                  (expA, sigA) = (if expA = 0 then softfloat_normSubnormalF64Sig sigA else (expA, sigA));
                  expZ = expA - expB + 0x3FE;
                  sigA = sigA OR 0x0010000000000000;
                  sigB = sigB OR 0x0010000000000000;
                  (expZ, sigA) = (if sigA < sigB then (expZ - 1, push_bit 11 sigA) else (expZ, push_bit 10 sigA));
                  sigB = push_bit 11 sigB;
                  upperB = ucast (drop_bit 32 sigB) :: u32; lowerB = drop_bit 4 (ucast sigB :: u32);
                  recip32 = softfloat_approxRecip32_1 upperB - 2;
                  sig32Z = ucast (drop_bit 32 (ucast (ucast (drop_bit 32 sigA) :: u32) * ucast recip32 :: u64)) :: u32;
                  doubleTerm = push_bit 1 sig32Z;
                  rem = push_bit 28 (sigA - ucast doubleTerm * ucast upperB) - ucast doubleTerm * ucast lowerB;
                  q = ucast (drop_bit 32 (ucast (ucast (drop_bit 32 rem) :: u32) * ucast recip32 :: u64)) + 4 :: u32;
                  sigZ = push_bit 32 (ucast sig32Z) + push_bit 4 (ucast q) :: u64;
                  sigZ = (if sigZ AND 0x1FF < push_bit 4 4 then
                            let q = q AND NOT 7;
                                sigZ = sigZ AND NOT 0x7F;
                                doubleTerm = push_bit 1 q;
                                rem = push_bit 28 (rem - ucast doubleTerm * ucast upperB) - ucast doubleTerm * ucast lowerB
                            in if rem AND 0x8000000000000000 \<noteq> 0 then sigZ - push_bit 7 1
                               else if rem \<noteq> 0 then sigZ OR 1 else sigZ
                          else sigZ)
              in softfloat_roundPackToF64 roundingMode signZ expZ sigZ)"

section \<open>Square root\<close>

definition softfloat_approxRecipSqrt_1k0s :: "u16 list" where
  "softfloat_approxRecipSqrt_1k0s =
     [0xB4C9, 0xFFAB, 0xAA7D, 0xF11C, 0xA1C5, 0xE4C7, 0x9A43, 0xDA29,
      0x93B5, 0xD0E5, 0x8DED, 0xC8B7, 0x88C6, 0xC16D, 0x8424, 0xBAE1]"

definition softfloat_approxRecipSqrt_1k1s :: "u16 list" where
  "softfloat_approxRecipSqrt_1k1s =
     [0xA5A5, 0xEA42, 0x8C21, 0xC62D, 0x788F, 0xAA7F, 0x6928, 0x94B6,
      0x5CC7, 0x8335, 0x52A6, 0x74E2, 0x4A3E, 0x68FE, 0x432B, 0x5EFD]"

definition softfloat_approxRecipSqrt32_1 :: "u32 \<Rightarrow> u32 \<Rightarrow> u32" where
  "softfloat_approxRecipSqrt32_1 oddExpA a =
     (let index = unat ((drop_bit 27 a AND 0xE) + oddExpA);
          eps = ucast (drop_bit 12 a) :: u16;
          r0 = softfloat_approxRecipSqrt_1k0s ! index
                 - ucast (drop_bit 20 (ucast (softfloat_approxRecipSqrt_1k1s ! index) * ucast eps :: u32));
          ESqrR0 = ucast r0 * ucast r0 :: u32;
          ESqrR0 = (if oddExpA = 0 then push_bit 1 ESqrR0 else ESqrR0);
          sigma0 = NOT (ucast (drop_bit 23 (ucast ESqrR0 * ucast a :: u64))) :: u32;
          r = push_bit 16 (ucast r0) + ucast (drop_bit 25 (ucast r0 * ucast sigma0 :: u64)) :: u32;
          sqrSigma0 = ucast (drop_bit 32 (ucast sigma0 * ucast sigma0 :: u64)) :: u32;
          r = r + ucast (drop_bit 48 (ucast (drop_bit 1 r + drop_bit 3 r - push_bit 14 (ucast r0)) * ucast sqrSigma0 :: u64))
      in if r AND 0x80000000 = 0 then 0x80000000 else r)"

definition f32_sqrt :: "u32 \<Rightarrow> u32 \<Rightarrow> u32 \<times> flags" where
  "f32_sqrt roundingMode uiA =
     (let signA = signF32UI uiA; expA = expF32UI uiA; sigA = fracF32UI uiA;
          invalid = (defaultNaNF32UI, softfloat_flag_invalid)
      in if expA = 0xFF then
           if sigA \<noteq> 0 then softfloat_propagateNaNF32UI uiA 0
           else if \<not> signA then (uiA, 0) else invalid
         else if signA then (if expA = 0 \<and> sigA = 0 then (uiA, 0) else invalid)
         else if expA = 0 \<and> sigA = 0 then (uiA, 0)
         else let (expA, sigA) = (if expA = 0 then softfloat_normSubnormalF32Sig sigA else (expA, sigA));
                  expZ = (expA - 0x7F) div 2 + 0x7E;
                  expA = expA mod 2;
                  sigA = push_bit 8 (sigA OR 0x00800000);
                  sigZ = ucast (drop_bit 32 (ucast sigA * ucast (softfloat_approxRecipSqrt32_1 (word_of_int expA) sigA) :: u64)) :: u32;
                  sigZ = (if expA \<noteq> 0 then drop_bit 1 sigZ else sigZ);
                  sigZ = sigZ + 2;
                  sigZ = (if sigZ AND 0x3F < 2 then
                            let shiftedSigZ = drop_bit 2 sigZ;
                                negRem = shiftedSigZ * shiftedSigZ;
                                sigZ = sigZ AND NOT 3
                            in if negRem AND 0x80000000 \<noteq> 0 then sigZ OR 1
                               else if negRem \<noteq> 0 then sigZ - 1 else sigZ
                          else sigZ)
              in softfloat_roundPackToF32 roundingMode False expZ sigZ)"

definition f64_sqrt :: "u32 \<Rightarrow> u64 \<Rightarrow> u64 \<times> flags" where
  "f64_sqrt roundingMode uiA =
     (let signA = signF64UI uiA; expA = expF64UI uiA; sigA = fracF64UI uiA;
          invalid = (defaultNaNF64UI, softfloat_flag_invalid)
      in if expA = 0x7FF then
           if sigA \<noteq> 0 then softfloat_propagateNaNF64UI uiA 0
           else if \<not> signA then (uiA, 0) else invalid
         else if signA then (if expA = 0 \<and> sigA = 0 then (uiA, 0) else invalid)
         else if expA = 0 \<and> sigA = 0 then (uiA, 0)
         else let (expA, sigA) = (if expA = 0 then softfloat_normSubnormalF64Sig sigA else (expA, sigA));
                  expZ = (expA - 0x3FF) div 2 + 0x3FE;
                  expA = expA mod 2;
                  sigA = sigA OR 0x0010000000000000;
                  sig32A = ucast (drop_bit 21 sigA) :: u32;
                  recipSqrt32 = softfloat_approxRecipSqrt32_1 (word_of_int expA) sig32A;
                  sig32Z = ucast (drop_bit 32 (ucast sig32A * ucast recipSqrt32 :: u64)) :: u32;
                  (sigA, sig32Z) = (if expA \<noteq> 0 then (push_bit 8 sigA, drop_bit 1 sig32Z) else (push_bit 9 sigA, sig32Z));
                  rem = sigA - ucast sig32Z * ucast sig32Z;
                  q = ucast (drop_bit 32 (ucast (ucast (drop_bit 2 rem) :: u32) * ucast recipSqrt32 :: u64)) :: u32;
                  sigZ = (push_bit 32 (ucast sig32Z) OR push_bit 5 1) + push_bit 3 (ucast q) :: u64;
                  sigZ = (if sigZ AND 0x1FF < 0x22 then
                            let sigZ = sigZ AND NOT 0x3F;
                                shiftedSigZ = drop_bit 6 sigZ;
                                rem = push_bit 52 sigA - shiftedSigZ * shiftedSigZ
                            in if rem AND 0x8000000000000000 \<noteq> 0 then sigZ - 1
                               else if rem \<noteq> 0 then sigZ OR 1 else sigZ
                          else sigZ)
              in softfloat_roundPackToF64 roundingMode False expZ sigZ)"

section \<open>Fused multiplication and addition\<close>

definition softfloat_mulAdd_subC :: u32 where "softfloat_mulAdd_subC = 1"
definition softfloat_mulAdd_subProd :: u32 where "softfloat_mulAdd_subProd = 2"

text \<open>The label \<^verbatim>\<open>propagateNaN_ZC\<close>, with what has been raised before.\<close>

definition propagateNaN_ZC32 :: "u32 \<Rightarrow> u32 \<times> flags \<Rightarrow> u32 \<times> flags" where
  "propagateNaN_ZC32 uiC z = (let (uiZ, raised) = softfloat_propagateNaNF32UI (fst z) uiC in (uiZ, snd z OR raised))"

definition propagateNaN_ZC64 :: "u64 \<Rightarrow> u64 \<times> flags \<Rightarrow> u64 \<times> flags" where
  "propagateNaN_ZC64 uiC z = (let (uiZ, raised) = softfloat_propagateNaNF64UI (fst z) uiC in (uiZ, snd z OR raised))"

definition softfloat_mulAddF32 :: "u32 \<Rightarrow> u32 \<Rightarrow> u32 \<Rightarrow> u32 \<Rightarrow> u32 \<Rightarrow> u32 \<times> flags" where
  "softfloat_mulAddF32 roundingMode uiA uiB uiC op =
     (let signA = signF32UI uiA; expA = expF32UI uiA; sigA = fracF32UI uiA;
          signB = signF32UI uiB; expB = expF32UI uiB; sigB = fracF32UI uiB;
          signC = (signF32UI uiC \<noteq> (op = softfloat_mulAdd_subC)); expC = expF32UI uiC; sigC = fracF32UI uiC;
          signProd = ((signA \<noteq> signB) \<noteq> (op = softfloat_mulAdd_subProd));
          propagateNaN_ABC = propagateNaN_ZC32 uiC (softfloat_propagateNaNF32UI uiA uiB);
          invalid = propagateNaN_ZC32 uiC (defaultNaNF32UI, softfloat_flag_invalid);
          infProdArg = (\<lambda>zero.
            if zero then invalid
            else let uiZ = packToF32UI signProd 0xFF 0
                 in if expC \<noteq> 0xFF then (uiZ, 0)
                    else if sigC \<noteq> 0 then propagateNaN_ZC32 uiC (uiZ, 0)
                    else if signProd = signC then (uiZ, 0) else invalid);
          completeCancellation = (packToF32UI (roundingMode = softfloat_round_min) 0 0, 0);
          zeroProd = (if expC = 0 \<and> sigC = 0 \<and> signProd \<noteq> signC then completeCancellation else (uiC, 0))
      in if expA = 0xFF then
           if sigA \<noteq> 0 \<or> expB = 0xFF \<and> sigB \<noteq> 0 then propagateNaN_ABC else infProdArg (expB = 0 \<and> sigB = 0)
         else if expB = 0xFF then (if sigB \<noteq> 0 then propagateNaN_ABC else infProdArg (expA = 0 \<and> sigA = 0))
         else if expC = 0xFF then (if sigC \<noteq> 0 then propagateNaN_ZC32 uiC (0, 0) else (uiC, 0))
         else if expA = 0 \<and> sigA = 0 then zeroProd
         else if expB = 0 \<and> sigB = 0 then zeroProd
         else let (expA, sigA) = (if expA = 0 then softfloat_normSubnormalF32Sig sigA else (expA, sigA));
                  (expB, sigB) = (if expB = 0 then softfloat_normSubnormalF32Sig sigB else (expB, sigB));
                  expProd = expA + expB - 0x7E;
                  sigA = push_bit 7 (sigA OR 0x00800000);
                  sigB = push_bit 7 (sigB OR 0x00800000);
                  sigProd = ucast sigA * ucast sigB :: u64;
                  (expProd, sigProd) = (if sigProd < 0x2000000000000000 then (expProd - 1, push_bit 1 sigProd)
                                        else (expProd, sigProd));
                  signZ = signProd
              in if expC = 0 \<and> sigC = 0 then
                   softfloat_roundPackToF32 roundingMode signZ (expProd - 1)
                     (ucast (softfloat_shortShiftRightJam64 sigProd 31))
                 else let (expC, sigC) = (if expC = 0 then softfloat_normSubnormalF32Sig sigC else (expC, sigC));
                          sigC = push_bit 6 (sigC OR 0x00800000);
                          expDiff = expProd - expC
                      in if signProd = signC then
                           let (expZ, sigZ) =
                                 (if expDiff \<le> 0
                                  then (expC, sigC + ucast (softfloat_shiftRightJam64 sigProd (word_of_int (32 - expDiff))))
                                  else (expProd,
                                        ucast (softfloat_shortShiftRightJam64
                                          (sigProd + softfloat_shiftRightJam64 (push_bit 32 (ucast sigC)) (word_of_int expDiff)) 32)));
                               (expZ, sigZ) = (if sigZ < 0x40000000 then (expZ - 1, push_bit 1 sigZ) else (expZ, sigZ))
                           in softfloat_roundPackToF32 roundingMode signZ expZ sigZ
                         else
                           let sig64C = push_bit 32 (ucast sigC) :: u64;
                               (signZ, expZ, sig64Z) =
                                 (if expDiff < 0
                                  then (signC, expC, sig64C - softfloat_shiftRightJam64 sigProd (word_of_int (- expDiff)))
                                  else if expDiff = 0
                                  then let sig64Z = sigProd - sig64C
                                       in if sig64Z AND 0x8000000000000000 \<noteq> 0 then (\<not> signZ, expProd, - sig64Z)
                                          else (signZ, expProd, sig64Z)
                                  else (signZ, expProd, sigProd - softfloat_shiftRightJam64 sig64C (word_of_int expDiff)))
                           in if expDiff = 0 \<and> sig64Z = 0 then completeCancellation
                              else let shiftDist = softfloat_countLeadingZeros64 sig64Z - 1;
                                       expZ = expZ - shiftDist;
                                       shiftDist = shiftDist - 32
                                   in softfloat_roundPackToF32 roundingMode signZ expZ
                                        (if shiftDist < 0 then ucast (softfloat_shortShiftRightJam64 sig64Z (nat (- shiftDist)))
                                         else push_bit (nat shiftDist) (ucast sig64Z)))"

text \<open>The words of a significand in the upper half of four; the labels \<^verbatim>\<open>sigZ\<close> and \<^verbatim>\<open>roundPack\<close> of the 64-bit function.\<close>

definition words_of_sig :: "u64 \<Rightarrow> u32 list" where
  "words_of_sig sig = [0, 0, ucast sig, ucast (drop_bit 32 sig)]"

definition jam_low_words :: "u32 list \<Rightarrow> u64 \<Rightarrow> u64" where
  "jam_low_words z sigZ = (if z ! 1 \<noteq> 0 \<or> z ! 0 \<noteq> 0 then sigZ OR 1 else sigZ)"

text \<open>The end of the different-signs branch: the difference is shifted up until its leading bit is in place.\<close>

definition normalise_words :: "u32 \<Rightarrow> bool \<Rightarrow> int \<Rightarrow> u32 list \<Rightarrow> u64 \<times> flags" where
  "normalise_words roundingMode signZ expZ sig128Z =
     (let sigZ = upper_words sig128Z;
          (shiftDist, sigZ) = (if sigZ = 0 then (64, push_bit 32 (ucast (sig128Z ! 1)) OR ucast (sig128Z ! 0)) else (0, sigZ));
          shiftDist = shiftDist + softfloat_countLeadingZeros64 sigZ - 1;
          (expZ, sig128Z, sigZ) =
            (if shiftDist \<noteq> 0
             then let z = softfloat_shiftLeftM sig128Z (nat shiftDist) in (expZ - shiftDist, z, upper_words z)
             else (expZ, sig128Z, sigZ))
      in softfloat_roundPackToF64 roundingMode signZ (expZ - 1) (jam_low_words sig128Z sigZ))"

definition softfloat_mulAddF64 :: "u32 \<Rightarrow> u64 \<Rightarrow> u64 \<Rightarrow> u64 \<Rightarrow> u32 \<Rightarrow> u64 \<times> flags" where
  "softfloat_mulAddF64 roundingMode uiA uiB uiC op =
     (let signA = signF64UI uiA; expA = expF64UI uiA; sigA = fracF64UI uiA;
          signB = signF64UI uiB; expB = expF64UI uiB; sigB = fracF64UI uiB;
          signC = (signF64UI uiC \<noteq> (op = softfloat_mulAdd_subC)); expC = expF64UI uiC; sigC = fracF64UI uiC;
          signZ = ((signA \<noteq> signB) \<noteq> (op = softfloat_mulAdd_subProd));
          propagateNaN_ABC = propagateNaN_ZC64 uiC (softfloat_propagateNaNF64UI uiA uiB);
          invalid = propagateNaN_ZC64 uiC (defaultNaNF64UI, softfloat_flag_invalid);
          infProdArg = (\<lambda>zero.
            if zero then invalid
            else let uiZ = packToF64UI signZ 0x7FF 0
                 in if expC \<noteq> 0x7FF then (uiZ, 0)
                    else if sigC \<noteq> 0 then propagateNaN_ZC64 uiC (uiZ, 0)
                    else if signZ = signC then (uiZ, 0) else invalid);
          completeCancellation = (packToF64UI (roundingMode = softfloat_round_min) 0 0, 0);
          zeroProd = (if expC = 0 \<and> sigC = 0 \<and> signZ \<noteq> signC then completeCancellation else (uiC, 0))
      in if expA = 0x7FF then
           if sigA \<noteq> 0 \<or> expB = 0x7FF \<and> sigB \<noteq> 0 then propagateNaN_ABC else infProdArg (expB = 0 \<and> sigB = 0)
         else if expB = 0x7FF then (if sigB \<noteq> 0 then propagateNaN_ABC else infProdArg (expA = 0 \<and> sigA = 0))
         else if expC = 0x7FF then (if sigC \<noteq> 0 then propagateNaN_ZC64 uiC (0, 0) else (uiC, 0))
         else if expA = 0 \<and> sigA = 0 then zeroProd
         else if expB = 0 \<and> sigB = 0 then zeroProd
         else let (expA, sigA) = (if expA = 0 then softfloat_normSubnormalF64Sig sigA else (expA, sigA));
                  (expB, sigB) = (if expB = 0 then softfloat_normSubnormalF64Sig sigB else (expB, sigB));
                  expZ = expA + expB - 0x3FE;
                  sigA = push_bit 10 (sigA OR 0x0010000000000000);
                  sigB = push_bit 11 (sigB OR 0x0010000000000000);
                  sig128Z = softfloat_mul64To128M sigA sigB;
                  sigZ = upper_words sig128Z;
                  (expZ, shiftDist) = (if sigZ AND 0x4000000000000000 = 0 then (expZ - 1, - 1) else (expZ, 0))
              in if expC = 0 \<and> sigC = 0 then
                   softfloat_roundPackToF64 roundingMode signZ (expZ - 1)
                     (jam_low_words sig128Z (if shiftDist \<noteq> 0 then push_bit 1 sigZ else sigZ))
                 else let (expC, sigC) = (if expC = 0 then softfloat_normSubnormalF64Sig sigC else (expC, sigC));
                          sigC = push_bit 10 (sigC OR 0x0010000000000000);
                          expDiff = expZ - expC;
                          (expZ, sig128Z, sigZ, sig128C) =
                            (if expDiff < 0 then
                               if signZ = signC \<or> expDiff < -1 then
                                 let shiftDist = shiftDist - expDiff
                                 in (expC, sig128Z,
                                     if shiftDist \<noteq> 0 then softfloat_shiftRightJam64 sigZ (word_of_int shiftDist) else sigZ, [])
                               else (expC, if shiftDist = 0 then softfloat_shortShiftRightM sig128Z 1 else sig128Z, sigZ, [])
                             else
                               let sig128Z = (if shiftDist \<noteq> 0 then softfloat_addM sig128Z sig128Z else sig128Z)
                               in if expDiff = 0 then (expZ, sig128Z, upper_words sig128Z, [])
                                  else (expZ, sig128Z, sigZ, softfloat_shiftRightJamM (words_of_sig sigC) (nat expDiff)))
                      in if signZ = signC then
                           let (sig128Z, sigZ) =
                                 (if expDiff \<le> 0 then (sig128Z, sigZ + sigC)
                                  else let z = softfloat_addM sig128Z sig128C in (z, upper_words z));
                               (expZ, sigZ) = (if sigZ AND 0x8000000000000000 \<noteq> 0
                                               then (expZ + 1, softfloat_shortShiftRightJam64 sigZ 1) else (expZ, sigZ))
                           in softfloat_roundPackToF64 roundingMode signZ (expZ - 1) (jam_low_words sig128Z sigZ)
                         else if expDiff < -1 then
                           let sigZ = sigC - sigZ;
                               sigZ = (if sig128Z ! 1 \<noteq> 0 \<or> sig128Z ! 0 \<noteq> 0 then (sigZ - 1) OR 1 else sigZ);
                               (expZ, sigZ) = (if sigZ AND 0x4000000000000000 = 0 then (expZ - 1, push_bit 1 sigZ) else (expZ, sigZ))
                           in softfloat_roundPackToF64 roundingMode signC (expZ - 1) sigZ
                         else if expDiff < 0 then
                           normalise_words roundingMode signC expZ (softfloat_subM (words_of_sig sigC) sig128Z)
                         else if expDiff = 0 then
                           let sigZ = sigZ - sigC
                           in if sigZ = 0 \<and> sig128Z ! 1 = 0 \<and> sig128Z ! 0 = 0 then completeCancellation
                              else let z = [sig128Z ! 0, sig128Z ! 1, ucast sigZ, ucast (drop_bit 32 sigZ)]
                                   in if sigZ AND 0x8000000000000000 \<noteq> 0
                                      then normalise_words roundingMode (\<not> signZ) expZ (softfloat_negXM z)
                                      else normalise_words roundingMode signZ expZ z
                         else let sig128Z = softfloat_subM sig128Z sig128C
                              in if 1 < expDiff then
                                   let sigZ = upper_words sig128Z;
                                       (expZ, sigZ) = (if sigZ AND 0x4000000000000000 = 0 then (expZ - 1, push_bit 1 sigZ) else (expZ, sigZ))
                                   in softfloat_roundPackToF64 roundingMode signZ (expZ - 1) (jam_low_words sig128Z sigZ)
                                 else normalise_words roundingMode signZ expZ sig128Z)"

end
