(* ===== verification/FpEmulation.thy ===== *)
theory FpEmulation
  imports Emulation SoftFloat
begin

text \<open>
  Floating-point instructions that the hart does not have (\<^verbatim>\<open>src/pk/machine/fp_emulation.c\<close>, for a 64-bit hart),
  and the handler of illegal instructions that dispatches to all emulation (\<^verbatim>\<open>emulation.c\<close>). A build for a hart with
  floating-point registers (\<open>riscv_flen\<close>) keeps rounding mode and exceptions in \<^verbatim>\<open>fcsr\<close>; a build for one without
  keeps them in \<open>tp\<close>, the exceptions in its low five bits, the mode of the program above them and the mode of the
  instruction from bit 13 on. What a function of SoftFloat raises is added to the exceptions when it returns.
\<close>

section \<open>Rounding mode and exceptions\<close>

definition PRECISION_S :: u64 where "PRECISION_S = 0"
definition PRECISION_D :: u64 where "PRECISION_D = 1"

definition GET_F32_RS1 :: "u64 \<Rightarrow> 'd world \<Rightarrow> u32" where "GET_F32_RS1 insn = GET_F32_REG insn 15"
definition GET_F32_RS3 :: "u64 \<Rightarrow> 'd world \<Rightarrow> u32" where "GET_F32_RS3 insn = GET_F32_REG insn 27"
definition GET_F64_RS1 :: "u64 \<Rightarrow> 'd world \<Rightarrow> u64" where "GET_F64_RS1 insn = GET_F64_REG insn 15"
definition GET_F64_RS3 :: "u64 \<Rightarrow> 'd world \<Rightarrow> u64" where "GET_F64_RS3 insn = GET_F64_REG insn 27"

definition softfloat_raiseFlags :: "'d emulator \<Rightarrow> flags \<Rightarrow> 'd world \<Rightarrow> 'd world" where
  "softfloat_raiseFlags E which s =
     (if riscv_flen E then write_csr FCSR (read_csr FCSR s OR ucast which AND 0x1F) s else s\<lparr>tp := tp s OR ucast which\<rparr>)"

definition softfloat_roundingMode :: "'d emulator \<Rightarrow> 'd world \<Rightarrow> u32" where
  "softfloat_roundingMode E s = (if riscv_flen E then tp s else signed_drop_bit 13 (tp s))"

text \<open>Sets the mode of an instruction; the flag is False for a mode that does not exist.\<close>

definition SETUP_STATIC_ROUNDING :: "'d emulator \<Rightarrow> u64 \<Rightarrow> 'd world \<Rightarrow> bool \<times> 'd world" where
  "SETUP_STATIC_ROUNDING E insn s =
     (if riscv_flen E then
        if insn AND MASK_FUNCT3 = MASK_FUNCT3 then (True, s\<lparr>tp := ucast (drop_bit 5 (read_csr FCSR s) AND 7)\<rparr>)
        else if GET_RM insn > 4 then (False, s\<lparr>tp := ucast (drop_bit 5 (read_csr FCSR s) AND 7)\<rparr>)
        else (True, s\<lparr>tp := ucast (GET_RM insn)\<rparr>)
      else
        let s = s\<lparr>tp := tp s AND 0xFF\<rparr>
        in if insn AND MASK_FUNCT3 = MASK_FUNCT3 then (True, s\<lparr>tp := tp s OR push_bit 8 (tp s)\<rparr>)
           else if GET_RM insn > 4 then (False, s)
           else (True, s\<lparr>tp := tp s OR push_bit 13 (ucast (GET_RM insn))\<rparr>))"

definition SET_F32_RESULT :: "'d emulator \<Rightarrow> u64 \<Rightarrow> u32 \<times> flags \<Rightarrow> 'd world \<Rightarrow> 'd world" where
  "SET_F32_RESULT E insn r s = (let (v, raised) = r in SET_F32_RD E insn v (softfloat_raiseFlags E raised s))"

definition SET_F64_RESULT :: "'d emulator \<Rightarrow> u64 \<Rightarrow> u64 \<times> flags \<Rightarrow> 'd world \<Rightarrow> 'd world" where
  "SET_F64_RESULT E insn r s = (let (v, raised) = r in SET_F64_RD E insn v (softfloat_raiseFlags E raised s))"

section \<open>Arithmetic\<close>

definition emulate_any_fadd :: "'d emulator \<Rightarrow> u32 \<Rightarrow> 'd emulation_func" where
  "emulate_any_fadd E neg_b regs mcause mepc mstatus insn s =
     (if GET_PRECISION insn = PRECISION_S then
        let rs1 = GET_F32_RS1 insn s; rs2 = GET_F32_RS2 insn s XOR neg_b
        in Value regs (SET_F32_RESULT E insn (f32_add (softfloat_roundingMode E s) rs1 rs2) s)
      else if GET_PRECISION insn = PRECISION_D then
        let rs1 = GET_F64_RS1 insn s; rs2 = GET_F64_RS2 insn s XOR push_bit 32 (scast neg_b)
        in Value regs (SET_F64_RESULT E insn (f64_add (softfloat_roundingMode E s) rs1 rs2) s)
      else truly_illegal_insn regs mcause mepc mstatus insn s)"

definition emulate_fadd :: "'d emulator \<Rightarrow> 'd emulation_func" where
  "emulate_fadd E = emulate_any_fadd E 0"

definition emulate_fsub :: "'d emulator \<Rightarrow> 'd emulation_func" where
  "emulate_fsub E = emulate_any_fadd E 0x80000000"

definition emulate_fmul :: "'d emulator \<Rightarrow> 'd emulation_func" where
  "emulate_fmul E regs mcause mepc mstatus insn s =
     (if GET_PRECISION insn = PRECISION_S then
        Value regs (SET_F32_RESULT E insn (f32_mul (softfloat_roundingMode E s) (GET_F32_RS1 insn s) (GET_F32_RS2 insn s)) s)
      else if GET_PRECISION insn = PRECISION_D then
        Value regs (SET_F64_RESULT E insn (f64_mul (softfloat_roundingMode E s) (GET_F64_RS1 insn s) (GET_F64_RS2 insn s)) s)
      else truly_illegal_insn regs mcause mepc mstatus insn s)"

definition emulate_fdiv :: "'d emulator \<Rightarrow> 'd emulation_func" where
  "emulate_fdiv E regs mcause mepc mstatus insn s =
     (if GET_PRECISION insn = PRECISION_S then
        Value regs (SET_F32_RESULT E insn (f32_div (softfloat_roundingMode E s) (GET_F32_RS1 insn s) (GET_F32_RS2 insn s)) s)
      else if GET_PRECISION insn = PRECISION_D then
        Value regs (SET_F64_RESULT E insn (f64_div (softfloat_roundingMode E s) (GET_F64_RS1 insn s) (GET_F64_RS2 insn s)) s)
      else truly_illegal_insn regs mcause mepc mstatus insn s)"

definition emulate_fsqrt :: "'d emulator \<Rightarrow> 'd emulation_func" where
  "emulate_fsqrt E regs mcause mepc mstatus insn s =
     (if drop_bit 20 insn AND 0x1f \<noteq> 0 then truly_illegal_insn regs mcause mepc mstatus insn s
      else if GET_PRECISION insn = PRECISION_S then
        Value regs (SET_F32_RESULT E insn (f32_sqrt (softfloat_roundingMode E s) (GET_F32_RS1 insn s)) s)
      else if GET_PRECISION insn = PRECISION_D then
        Value regs (SET_F64_RESULT E insn (f64_sqrt (softfloat_roundingMode E s) (GET_F64_RS1 insn s)) s)
      else truly_illegal_insn regs mcause mepc mstatus insn s)"

definition emulate_fmadd :: "'d emulator \<Rightarrow> 'd emulation_func" where
  "emulate_fmadd E regs mcause mepc mstatus insn s =
     (if mstatus AND MSTATUS_FS = 0 then truly_illegal_insn regs mcause mepc mstatus insn s
      else
        let negA = (drop_bit 3 insn AND 1 \<noteq> 0); negC = (drop_bit 2 insn AND 1 \<noteq> 0);
            (exists, s) = SETUP_STATIC_ROUNDING E insn s
        in if \<not> exists then truly_illegal_insn regs mcause mepc mstatus insn s
           else if GET_PRECISION insn = PRECISION_S then
             let rs1 = GET_F32_RS1 insn s XOR (if negA then 0x80000000 else 0);
                 rs2 = GET_F32_RS2 insn s;
                 rs3 = GET_F32_RS3 insn s XOR (if negC then 0x80000000 else 0)
             in Value regs (SET_F32_RESULT E insn (softfloat_mulAddF32 (softfloat_roundingMode E s) rs1 rs2 rs3 0) s)
           else if GET_PRECISION insn = PRECISION_D then
             let rs1 = GET_F64_RS1 insn s XOR (if negA then 0x8000000000000000 else 0);
                 rs2 = GET_F64_RS2 insn s;
                 rs3 = GET_F64_RS3 insn s XOR (if negC then 0x8000000000000000 else 0)
             in Value regs (SET_F64_RESULT E insn (softfloat_mulAddF64 (softfloat_roundingMode E s) rs1 rs2 rs3 0) s)
           else truly_illegal_insn regs mcause mepc mstatus insn s)"

section \<open>Signs, minimum and maximum\<close>

definition DO_FSGNJ :: "'a::len word \<Rightarrow> 'a word \<Rightarrow> 'a word \<Rightarrow> 'a word" where
  "DO_FSGNJ rs1 rs2 rm =
     (let rs1_sign = drop_bit (LENGTH('a) - 1) rs1;
          rs2_sign = drop_bit (LENGTH('a) - 1) rs2;
          rs1_sign = rs1_sign AND drop_bit 1 rm;
          rs1_sign = rs1_sign XOR (rm XOR rs2_sign)
      in drop_bit 1 (push_bit 1 rs1) OR push_bit (LENGTH('a) - 1) rs1_sign)"

definition emulate_fsgnj :: "'d emulator \<Rightarrow> 'd emulation_func" where
  "emulate_fsgnj E regs mcause mepc mstatus insn s =
     (let rm = GET_RM insn in
      if rm \<ge> 3 then truly_illegal_insn regs mcause mepc mstatus insn s
      else if GET_PRECISION insn = PRECISION_S then
        Value regs (SET_F32_RD E insn (DO_FSGNJ (GET_F32_RS1 insn s) (GET_F32_RS2 insn s) (ucast rm)) s)
      else if GET_PRECISION insn = PRECISION_D then
        Value regs (SET_F64_RD E insn (DO_FSGNJ (GET_F64_RS1 insn s) (GET_F64_RS2 insn s) rm) s)
      else truly_illegal_insn regs mcause mepc mstatus insn s)"

definition emulate_fmin :: "'d emulator \<Rightarrow> 'd emulation_func" where
  "emulate_fmin E regs mcause mepc mstatus insn s =
     (let rm = GET_RM insn in
      if rm \<ge> 2 then truly_illegal_insn regs mcause mepc mstatus insn s
      else if GET_PRECISION insn = PRECISION_S then
        let rs1 = GET_F32_RS1 insn s; rs2 = GET_F32_RS2 insn s;
            arg1 = (if rm \<noteq> 0 then rs2 else rs1);
            arg2 = (if rm \<noteq> 0 then rs1 else rs2);
            (is_less, raised) = f32_lt_quiet arg1 arg2;
            use_rs1 = (is_less \<or> isNaNF32UI rs2)
        in Value regs (SET_F32_RESULT E insn (if use_rs1 then rs1 else rs2, raised) s)
      else if GET_PRECISION insn = PRECISION_D then
        let rs1 = GET_F64_RS1 insn s; rs2 = GET_F64_RS2 insn s;
            arg1 = (if rm \<noteq> 0 then rs2 else rs1);
            arg2 = (if rm \<noteq> 0 then rs1 else rs2);
            (is_less, raised) = f64_lt_quiet arg1 arg2;
            use_rs1 = (is_less \<or> isNaNF64UI rs2)
        in Value regs (SET_F64_RESULT E insn (if use_rs1 then rs1 else rs2, raised) s)
      else truly_illegal_insn regs mcause mepc mstatus insn s)"

section \<open>Conversions\<close>

definition emulate_fcvt_ff :: "'d emulator \<Rightarrow> 'd emulation_func" where
  "emulate_fcvt_ff E regs mcause mepc mstatus insn s =
     (let rs2_num = drop_bit 20 insn AND 0x1f in
      if GET_PRECISION insn = PRECISION_S then
        if rs2_num \<noteq> 1 then truly_illegal_insn regs mcause mepc mstatus insn s
        else Value regs (SET_F32_RESULT E insn (f64_to_f32 (softfloat_roundingMode E s) (GET_F64_RS1 insn s)) s)
      else if GET_PRECISION insn = PRECISION_D then
        if rs2_num \<noteq> 0 then truly_illegal_insn regs mcause mepc mstatus insn s
        else Value regs (SET_F64_RESULT E insn (f32_to_f64 (GET_F32_RS1 insn s)) s)
      else truly_illegal_insn regs mcause mepc mstatus insn s)"

text \<open>The operand of an integer conversion: whether it is negative, and its magnitude.\<close>

definition fcvt_operand :: "u64 \<Rightarrow> u64 \<Rightarrow> (bool \<times> u64) option" where
  "fcvt_operand rs2_num uint_val =
     (if rs2_num = 0 then
        let negative = (sint (ucast uint_val :: u32) < 0)
        in Some (negative, ucast (ucast (if negative then - uint_val else uint_val) :: u32))
      else if rs2_num = 1 then Some (False, ucast (ucast uint_val :: u32))
      else if rs2_num = 2 then
        let negative = (sint uint_val < 0) in Some (negative, if negative then - uint_val else uint_val)
      else if rs2_num = 3 then Some (False, uint_val)
      else None)"

definition emulate_fcvt_fi :: "'d emulator \<Rightarrow> 'd emulation_func" where
  "emulate_fcvt_fi E regs mcause mepc mstatus insn s =
     (if GET_PRECISION insn \<noteq> PRECISION_S \<and> GET_PRECISION insn \<noteq> PRECISION_D
      then truly_illegal_insn regs mcause mepc mstatus insn s
      else case fcvt_operand (drop_bit 20 insn AND 0x1f) (GET_RS1 insn regs) of
             None \<Rightarrow> truly_illegal_insn regs mcause mepc mstatus insn s
           | Some (negative, uint_val) \<Rightarrow>
               let (float64, raised) = ui64_to_f64 (softfloat_roundingMode E s) uint_val;
                   s = softfloat_raiseFlags E raised s;
                   float64 = (if negative then float64 XOR 0x8000000000000000 else float64)
               in if GET_PRECISION insn = PRECISION_S
                  then Value regs (SET_F32_RESULT E insn (f64_to_f32 (softfloat_roundingMode E s) float64) s)
                  else Value regs (SET_F64_RD E insn float64 s))"

text \<open>The result of a conversion to an integer, the largest magnitude it may have, and what stands for the others.\<close>

definition fcvt_limits :: "u64 \<Rightarrow> bool \<Rightarrow> u64 \<Rightarrow> u64 \<times> u64 \<times> u64" where
  "fcvt_limits rs2_num negative uint_val =
     (if rs2_num = 0 then
        if negative then (scast (ucast (- uint_val) :: u32), 0x80000000, 0x80000000)
        else (scast (ucast uint_val :: u32), 0x7FFFFFFF, 0x7FFFFFFF)
      else if rs2_num = 1 then
        if negative then (0, 0, 0xFFFFFFFF) else (ucast (ucast uint_val :: u32), 0xFFFFFFFF, 0xFFFFFFFF)
      else if rs2_num = 2 then
        if negative then (- uint_val, 0x8000000000000000, 0x8000000000000000)
        else (uint_val, 0x7FFFFFFFFFFFFFFF, 0x7FFFFFFFFFFFFFFF)
      else
        if negative then (0, 0, 0xFFFFFFFFFFFFFFFF) else (uint_val, 0xFFFFFFFFFFFFFFFF, 0xFFFFFFFFFFFFFFFF))"

text \<open>The conversion proper, from a double with the rounding mode; with it what it raises.\<close>

definition fcvt_integer :: "u32 \<Rightarrow> u64 \<Rightarrow> u64 \<Rightarrow> u64 \<times> flags" where
  "fcvt_integer roundingMode rs2_num float64 =
     (let (negative, float64) = (if sint float64 < 0 then (True, float64 XOR 0x8000000000000000) else (False, float64));
          (uint_val, raised) = f64_to_ui64 float64 roundingMode True;
          (result, limit, limit_result) = fcvt_limits rs2_num negative uint_val
      in if uint_val > limit then (limit_result, raised OR softfloat_flag_invalid) else (result, raised))"

definition emulate_fcvt_if :: "'d emulator \<Rightarrow> 'd emulation_func" where
  "emulate_fcvt_if E regs mcause mepc mstatus insn s =
     (let rs2_num = drop_bit 20 insn AND 0x1f;
          convert = (\<lambda>float64 s.
            let (result, raised) = fcvt_integer (softfloat_roundingMode E s) rs2_num float64
            in Value (SET_RD insn regs result) (SET_FS_DIRTY E (softfloat_raiseFlags E raised s)))
      in if rs2_num \<ge> 4 then truly_illegal_insn regs mcause mepc mstatus insn s
         else if GET_PRECISION insn = PRECISION_S then
           let (float64, raised) = f32_to_f64 (GET_F32_RS1 insn s) in convert float64 (softfloat_raiseFlags E raised s)
         else if GET_PRECISION insn = PRECISION_D then convert (GET_F64_RS1 insn s) s
         else truly_illegal_insn regs mcause mepc mstatus insn s)"

section \<open>Comparison, classification and moves\<close>

text \<open>One or both of the comparisons, by the operation.\<close>

definition fcmp_result :: "u64 \<Rightarrow> bool \<times> flags \<Rightarrow> bool \<times> flags \<Rightarrow> bool \<times> flags" where
  "fcmp_result rm is_eq is_less =
     (let (result, raised) = (if rm \<noteq> 1 then is_eq else (False, 0))
      in if rm = 1 \<or> rm = 0 \<and> \<not> result then (fst is_less, raised OR snd is_less) else (result, raised))"

definition emulate_fcmp :: "'d emulator \<Rightarrow> 'd emulation_func" where
  "emulate_fcmp E regs mcause mepc mstatus insn s =
     (let rm = GET_RM insn;
          success = (\<lambda>(result, raised).
            Value (SET_RD insn regs (of_bool result)) (SET_FS_DIRTY E (softfloat_raiseFlags E raised s)))
      in if rm \<ge> 3 then truly_illegal_insn regs mcause mepc mstatus insn s
         else if GET_PRECISION insn = PRECISION_S then
           let rs1 = GET_F32_RS1 insn s; rs2 = GET_F32_RS2 insn s
           in success (fcmp_result rm (f32_eq rs1 rs2) (f32_lt rs1 rs2))
         else if GET_PRECISION insn = PRECISION_D then
           let rs1 = GET_F64_RS1 insn s; rs2 = GET_F64_RS2 insn s
           in success (fcmp_result rm (f64_eq rs1 rs2) (f64_lt rs1 rs2))
         else truly_illegal_insn regs mcause mepc mstatus insn s)"

definition MATCH_FMV_X_W :: u64 where "MATCH_FMV_X_W = 0xe0000053"
definition MATCH_FCLASS_S :: u64 where "MATCH_FCLASS_S = 0xe0001053"
definition MATCH_FMV_X_D :: u64 where "MATCH_FMV_X_D = 0xe2000053"
definition MATCH_FCLASS_D :: u64 where "MATCH_FCLASS_D = 0xe2001053"
definition MATCH_FMV_W_X :: u64 where "MATCH_FMV_W_X = 0xf0000053"
definition MASK_FMV_W_X :: u64 where "MASK_FMV_W_X = 0xfff0707f"
definition MATCH_FMV_D_X :: u64 where "MATCH_FMV_D_X = 0xf2000053"
definition MASK_FMV_D_X :: u64 where "MASK_FMV_D_X = 0xfff0707f"

definition emulate_fmv_if :: "'d emulator \<Rightarrow> 'd emulation_func" where
  "emulate_fmv_if E regs mcause mepc mstatus insn s =
     (let illegal = truly_illegal_insn regs mcause mepc mstatus insn s;
          done = (\<lambda>result. Value (SET_RD insn regs result) (SET_FS_DIRTY E s))
      in if drop_bit 20 insn AND 0x1f \<noteq> 0 then illegal
         else if GET_PRECISION insn = PRECISION_S then
           if GET_RM insn = GET_RM MATCH_FMV_X_W then done (scast (GET_F32_RS1 insn s))
           else if GET_RM insn = GET_RM MATCH_FCLASS_S then done (ucast (f32_classify (GET_F32_RS1 insn s)))
           else illegal
         else if GET_PRECISION insn = PRECISION_D then
           if GET_RM insn = GET_RM MATCH_FMV_X_D then done (GET_F64_RS1 insn s)
           else if GET_RM insn = GET_RM MATCH_FCLASS_D then done (ucast (f64_classify (GET_F64_RS1 insn s)))
           else illegal
         else illegal)"

definition emulate_fmv_fi :: "'d emulator \<Rightarrow> 'd emulation_func" where
  "emulate_fmv_fi E regs mcause mepc mstatus insn s =
     (let rs1 = GET_RS1 insn regs in
      if insn AND MASK_FMV_W_X = MATCH_FMV_W_X then Value regs (SET_F32_RD E insn (ucast rs1) s)
      else if insn AND MASK_FMV_D_X = MATCH_FMV_D_X then Value regs (SET_F64_RD E insn rs1 s)
      else truly_illegal_insn regs mcause mepc mstatus insn s)"

section \<open>Dispatch\<close>

definition fp_emulation_table :: "'d emulator \<Rightarrow> 'd emulation_func list" where
  "fp_emulation_table E =
     [emulate_fadd E, emulate_fsub E, emulate_fmul E, emulate_fdiv E,
      emulate_fsgnj E, emulate_fmin E, truly_illegal_insn, truly_illegal_insn,
      emulate_fcvt_ff E, truly_illegal_insn, truly_illegal_insn, emulate_fsqrt E,
      truly_illegal_insn, truly_illegal_insn, truly_illegal_insn, truly_illegal_insn,
      truly_illegal_insn, truly_illegal_insn, truly_illegal_insn, truly_illegal_insn,
      emulate_fcmp E, truly_illegal_insn, truly_illegal_insn, truly_illegal_insn,
      emulate_fcvt_if E, truly_illegal_insn, emulate_fcvt_fi E, truly_illegal_insn,
      emulate_fmv_if E, truly_illegal_insn, emulate_fmv_fi E, truly_illegal_insn]"

definition emulate_fp :: "'d emulator \<Rightarrow> 'd emulation_func" where
  "emulate_fp E regs mcause mepc mstatus insn s =
     (if mstatus AND MSTATUS_FS = 0 then truly_illegal_insn regs mcause mepc mstatus insn s
      else
        let f = fp_emulation_table E ! (unat (drop_bit 25 insn AND 0x7c) div 4);
            (exists, s) = SETUP_STATIC_ROUNDING E insn s
        in if \<not> exists then truly_illegal_insn regs mcause mepc mstatus insn s
           else f regs mcause mepc mstatus insn s)"

definition illegal_insn_trap_table :: "'d emulator \<Rightarrow> 'd emulation_func list" where
  "illegal_insn_trap_table E =
     (let fp_ldst = (\<lambda>f. if \<not> riscv_flen E \<and> fp_emulation E then f else truly_illegal_insn);
          muldiv = (\<lambda>f. if \<not> riscv_muldiv E then f else truly_illegal_insn);
          fp = (\<lambda>f. if fp_emulation E then f else truly_illegal_insn)
      in [truly_illegal_insn, fp_ldst (emulate_float_load E), truly_illegal_insn, truly_illegal_insn,
          truly_illegal_insn, truly_illegal_insn, truly_illegal_insn, truly_illegal_insn,
          truly_illegal_insn, fp_ldst (emulate_float_store E), truly_illegal_insn, truly_illegal_insn,
          muldiv (emulate_mul_div E), truly_illegal_insn, muldiv (emulate_mul_div32 E), truly_illegal_insn,
          fp (emulate_fmadd E), fp (emulate_fmadd E), fp (emulate_fmadd E), fp (emulate_fmadd E),
          fp (emulate_fp E), truly_illegal_insn, truly_illegal_insn, truly_illegal_insn,
          truly_illegal_insn, truly_illegal_insn, truly_illegal_insn, truly_illegal_insn,
          emulate_system_opcode E, truly_illegal_insn, truly_illegal_insn, truly_illegal_insn])"

definition illegal_insn_trap :: "'d emulator \<Rightarrow> u64 list \<Rightarrow> u64 \<Rightarrow> u64 \<Rightarrow> 'd world \<Rightarrow> (u64 list, 'd) outcome" where
  "illegal_insn_trap E regs mcause mepc s =
     (let mstatus = read_csr MSTATUS s; insn = read_csr MBADADDR s;
          emulate = (\<lambda>insn mstatus s.
            (illegal_insn_trap_table E ! (unat (insn AND 0x7c) div 4)) regs mcause mepc mstatus insn
              (write_csr MEPC (mepc + 4) s))
      in if insn AND 3 \<noteq> 3 then
           and_then (if insn = 0 then get_insn E mepc s else Value (insn, mstatus) s)
             (\<lambda>(insn, mstatus) s.
               if insn AND 3 \<noteq> 3 then emulate_rvc E regs mcause mepc mstatus insn s else emulate insn mstatus s)
         else emulate insn mstatus s)"

end
