(* ===== verification/Rounding.thy ===== *)
theory Rounding
  imports SoftFloat Complex_Main
begin

text \<open>
  What rounding means, and when rounding off the last bits of a significand does it. Below its sign a floating-point
  number is a natural number, its magnitude; \<open>fp_units\<close> gives the value of a magnitude in units of the least
  positive number, with infinity, the first magnitude whose exponent field is all ones, in the place of the
  power of two that follows the largest finite number. A magnitude is the correctly rounded one of a value
  if its neighbours are no better in the mode.
\<close>

section \<open>Values\<close>

definition fp_units :: "nat \<Rightarrow> nat \<Rightarrow> nat" where
  "fp_units fb m = (if m div 2 ^ fb = 0 then m else (2 ^ fb + m mod 2 ^ fb) * 2 ^ (m div 2 ^ fb - 1))"

lemma fp_units_at:
  assumes "n \<le> 2 * 2 ^ fb" and "2 ^ fb \<le> n \<or> e = 0"
  shows "fp_units fb (e * 2 ^ fb + n) = n * 2 ^ e"
proof -
  consider "n < 2 ^ fb" | d where "n = 2 ^ fb + d" "d < 2 ^ fb" | "n = 2 * 2 ^ fb"
    using assms(1) by (metis le_add_diff_inverse le_neq_implies_less linorder_not_less mult_2 nat_add_left_cancel_less)
  then show ?thesis
  proof cases
    case 1
    then show ?thesis using assms by (simp add: fp_units_def)
  next
    case (2 d)
    then have "e * 2 ^ fb + n = (e + 1) * 2 ^ fb + d" by simp
    then have "(e * 2 ^ fb + n) div 2 ^ fb = e + 1" "(e * 2 ^ fb + n) mod 2 ^ fb = d" using 2 by simp_all
    then show ?thesis using 2 by (simp add: fp_units_def)
  next
    case 3
    then have "e * 2 ^ fb + n = (e + 2) * 2 ^ fb" by simp
    then have "(e * 2 ^ fb + n) div 2 ^ fb = e + 2" "(e * 2 ^ fb + n) mod 2 ^ fb = 0" by simp_all
    then show ?thesis using 3 by (simp add: fp_units_def)
  qed
qed

lemma magnitude_split:
  fixes m :: nat
  obtains e n where "m = e * 2 ^ fb + n" "n < 2 * 2 ^ fb" "2 ^ fb \<le> n \<or> e = 0"
proof (cases "m < 2 ^ fb")
  case True
  then show ?thesis using that[of 0 m] by simp
next
  case False
  then have "m = (m div 2 ^ fb - 1) * 2 ^ fb + (2 ^ fb + m mod 2 ^ fb)"
    by (metis (no_types) add.assoc add_mult_distrib div_mult_mod_eq le_add_diff_inverse2 linorder_not_less mult_1 One_nat_def
        Suc_leI div_greater_zero_iff zero_less_numeral zero_less_power)
  then show ?thesis by (rule that) (simp_all add: mod_less_divisor)
qed

lemma fp_units_Suc: "fp_units fb m < fp_units fb (Suc m)"
proof -
  obtain e n where m: "m = e * 2 ^ fb + n" "n < 2 * 2 ^ fb" "2 ^ fb \<le> n \<or> e = 0" by (rule magnitude_split)
  then have "Suc m = e * 2 ^ fb + Suc n" by simp
  moreover have "fp_units fb (e * 2 ^ fb + n) = n * 2 ^ e" "fp_units fb (e * 2 ^ fb + Suc n) = Suc n * 2 ^ e"
    by (rule fp_units_at; use m in auto)+
  ultimately show ?thesis using m(1) by simp
qed

lemma fp_units_mono: "strict_mono (fp_units fb)"
  by (simp add: strict_mono_Suc_iff fp_units_Suc)

lemmas fp_units_less = strict_mono_less [OF fp_units_mono]
lemmas fp_units_le = strict_mono_less_eq [OF fp_units_mono]
lemmas fp_units_eq = strict_mono_eq [OF fp_units_mono]

lemma fp_units_0 [simp]: "fp_units fb 0 = 0"
  by (simp add: fp_units_def)

section \<open>Correct rounding\<close>

text \<open>
  The modes: to the nearest, ties to the even magnitude or away from zero; away from zero or towards it,
  as the mode and the sign have it. Every other mode rounds towards zero.
\<close>

lemma rounding_modes [simp]:
  "softfloat_round_near_even \<noteq> softfloat_round_near_maxMag" "softfloat_round_near_maxMag \<noteq> softfloat_round_near_even"
  "softfloat_round_near_even \<noteq> softfloat_round_min" "softfloat_round_near_even \<noteq> softfloat_round_max"
  "softfloat_round_near_maxMag \<noteq> softfloat_round_min" "softfloat_round_near_maxMag \<noteq> softfloat_round_max"
  "softfloat_round_min \<noteq> softfloat_round_max"
  by (simp_all add: softfloat_round_near_even_def softfloat_round_near_maxMag_def softfloat_round_min_def
      softfloat_round_max_def)

definition rounds_away :: "u32 \<Rightarrow> bool \<Rightarrow> bool" where
  "rounds_away rm neg = (rm = (if neg then softfloat_round_min else softfloat_round_max))"

definition nearest :: "nat \<Rightarrow> nat \<Rightarrow> bool \<Rightarrow> rat \<Rightarrow> nat \<Rightarrow> bool" where
  "nearest fb oo ties_even x m =
     (let U = (\<lambda>m. of_nat (fp_units fb m)) in
      m \<le> oo
      \<and> (0 < m \<longrightarrow> (if ties_even \<and> odd m then U (m - 1) + U m < 2 * x else U (m - 1) + U m \<le> 2 * x))
      \<and> (m < oo \<longrightarrow> (if ties_even \<and> even m then 2 * x \<le> U m + U (m + 1) else 2 * x < U m + U (m + 1))))"

definition least_above :: "nat \<Rightarrow> nat \<Rightarrow> rat \<Rightarrow> nat \<Rightarrow> bool" where
  "least_above fb oo x m =
     (let U = (\<lambda>m. of_nat (fp_units fb m)) in m \<le> oo \<and> (0 < m \<longrightarrow> U (m - 1) < x) \<and> (m < oo \<longrightarrow> x \<le> U m))"

definition greatest_below :: "nat \<Rightarrow> nat \<Rightarrow> rat \<Rightarrow> nat \<Rightarrow> bool" where
  "greatest_below fb oo x m =
     (let U = (\<lambda>m. of_nat (fp_units fb m)) in m < oo \<and> U m \<le> x \<and> (m + 1 < oo \<longrightarrow> x < U (m + 1)))"

definition correctly_rounded :: "nat \<Rightarrow> nat \<Rightarrow> u32 \<Rightarrow> bool \<Rightarrow> rat \<Rightarrow> nat \<Rightarrow> bool" where
  "correctly_rounded fb oo rm neg x m =
     (if rm = softfloat_round_near_even then nearest fb oo True x m
      else if rm = softfloat_round_near_maxMag then nearest fb oo False x m
      else if rounds_away rm neg then least_above fb oo x m
      else greatest_below fb oo x m)"

text \<open>The result of rounding is determined.\<close>

lemma nearest_unique:
  assumes "nearest fb oo t x m" and "nearest fb oo t x m'"
  shows "m = m'"
proof -
  have "\<not> m < m'" if "nearest fb oo t x m" "nearest fb oo t x m'" for m m'
  proof
    assume "m < m'"
    let ?U = "\<lambda>m. of_nat (fp_units fb m) :: rat"
    have le: "?U m \<le> ?U (m' - 1)" "?U (m + 1) \<le> ?U m'"
      using \<open>m < m'\<close> by (simp_all add: fp_units_le flip: of_nat_Suc)
    have "m < oo" "0 < m'" using that \<open>m < m'\<close> by (auto simp: nearest_def Let_def)
    then have up: "if t \<and> even m then 2 * x \<le> ?U m + ?U (m + 1) else 2 * x < ?U m + ?U (m + 1)"
      and low: "if t \<and> odd m' then ?U (m' - 1) + ?U m' < 2 * x else ?U (m' - 1) + ?U m' \<le> 2 * x"
      using that unfolding nearest_def Let_def by metis+
    then have "t" "even m" "even m'" "\<not> 2 * x < ?U m + ?U (m + 1)" using le by (auto split: if_splits)
    moreover from this have "m + 1 < m'" using \<open>m < m'\<close> by (metis Suc_eq_plus1 Suc_lessI even_Suc)
    then have "?U m < ?U (m' - 1)" by (simp add: fp_units_less less_diff_conv)
    ultimately show False using up low le by (simp split: if_splits)
  qed
  then show ?thesis using assms by (meson linorder_neqE_nat)
qed

lemma correctly_rounded_unique:
  assumes "correctly_rounded fb oo rm neg x m" and "correctly_rounded fb oo rm neg x m'"
  shows "m = m'"
proof -
  let ?U = "\<lambda>m. of_nat (fp_units fb m) :: rat"
  have above: "\<not> m < m'" if "least_above fb oo x m" "least_above fb oo x m'" for m m'
  proof
    assume "m < m'"
    then have "?U m \<le> ?U (m' - 1)" by (simp add: fp_units_le)
    then show False using that \<open>m < m'\<close> by (auto simp: least_above_def Let_def)
  qed
  have below: "\<not> m < m'" if "greatest_below fb oo x m" "greatest_below fb oo x m'" for m m'
  proof
    assume "m < m'"
    then have "?U (m + 1) \<le> ?U m'" by (simp add: fp_units_le Suc_le_eq)
    then show False using that \<open>m < m'\<close> by (auto simp: greatest_below_def Let_def)
  qed
  show ?thesis
    using assms above below nearest_unique unfolding correctly_rounded_def by (meson linorder_neqE_nat)
qed

section \<open>Sticky bits\<close>

text \<open>A significand stands for a value: exactly, or with its last bit set for all the values around it up to the even ones.\<close>

definition jams :: "nat \<Rightarrow> rat \<Rightarrow> bool" where
  "jams n y \<longleftrightarrow> y = of_nat n \<or> odd n \<and> of_nat n - 1 < y \<and> y < of_nat n + 1"

lemma jams_exact [simp]: "jams n (of_nat n)"
  by (simp add: jams_def)

lemma jams_compare:
  assumes "jams n y" and "even c"
  shows "y < of_nat c \<longleftrightarrow> n < c" and "y \<le> of_nat c \<longleftrightarrow> n \<le> c" and "of_nat c < y \<longleftrightarrow> c < n" and "of_nat c \<le> y \<longleftrightarrow> c \<le> n"
    and "y = of_nat c \<longleftrightarrow> n = c"
proof -
  have "(y < of_nat c \<longleftrightarrow> n < c) \<and> (of_nat c < y \<longleftrightarrow> c < n)"
  proof (cases "y = of_nat n")
    case False
    then have n: "odd n" "of_nat n - 1 < y" "y < of_nat n + 1" using assms(1) by (auto simp: jams_def)
    then have "n \<noteq> c" using assms(2) by auto
    then consider "n < c" | "c < n" by linarith
    then show ?thesis
    proof cases
      case 1
      then have "of_nat n + 1 \<le> (of_nat c :: rat)" by (metis Suc_leI of_nat_Suc of_nat_le_iff add.commute)
      then show ?thesis using n 1 by linarith
    next
      case 2
      then have "of_nat c + 1 \<le> (of_nat n :: rat)" by (metis Suc_leI of_nat_Suc of_nat_le_iff add.commute)
      then show ?thesis using n 2 by linarith
    qed
  qed simp
  then have l: "y < of_nat c \<longleftrightarrow> n < c" and g: "of_nat c < y \<longleftrightarrow> c < n" by simp_all
  show "y < of_nat c \<longleftrightarrow> n < c" "of_nat c < y \<longleftrightarrow> c < n" by (rule l, rule g)
  show "y \<le> of_nat c \<longleftrightarrow> n \<le> c" "of_nat c \<le> y \<longleftrightarrow> c \<le> n"
    using l g by (simp_all only: not_less [symmetric])
  show "y = of_nat c \<longleftrightarrow> n = c"
    using l g by (metis less_irrefl linorder_neqE)
qed

definition jam :: "nat \<Rightarrow> nat \<Rightarrow> nat" where
  "jam k n = n div 2 ^ k OR of_bool (n mod 2 ^ k \<noteq> 0)"

lemma or_1_nat: "n OR 1 = (if even n then n + 1 else n)" for n :: nat
  using or_one_eq [of n] by simp

lemma jams_jam:
  assumes "jams n y"
  shows "jams (jam k n) (y / 2 ^ k)"
proof (cases "n mod 2 ^ k = 0")
  case True
  show ?thesis
  proof (cases "k = 0")
    case False
    then have "even n" using True by (metis dvd_power dvd_trans gr0I mod_0_imp_dvd)
    then have y: "y = of_nat n" using assms by (auto simp: jams_def)
    have "n = n div 2 ^ k * 2 ^ k" using True by (simp add: mod_0_imp_dvd)
    then have "of_nat n = (of_nat (n div 2 ^ k) * 2 ^ k :: rat)" by (metis of_nat_mult of_nat_numeral of_nat_power)
    then show ?thesis using True y by (simp add: jam_def)
  qed (use assms in \<open>simp add: jam_def\<close>)
next
  case False
  define q where "q = n div 2 ^ k"
  have n: "q * 2 ^ k < n" "n + 1 \<le> (q + 1) * 2 ^ k"
    using False unfolding q_def
    by (metis add.right_neutral div_mult_mod_eq less_add_same_cancel1 neq0_conv)
       (metis Suc_eq_plus1 Suc_leI div_mult_mod_eq add_mult_distrib mod_less_divisor mult_1 nat_add_left_cancel_less pos2 zero_less_power)
  have lower: "of_nat (q * 2 ^ k) < y" and upper: "y < of_nat ((q + 1) * 2 ^ k)"
  proof -
    have "of_nat (q * 2 ^ k) + 1 \<le> (of_nat n :: rat)" "of_nat n + 1 \<le> (of_nat ((q + 1) * 2 ^ k) :: rat)"
      using n by (metis Suc_leI of_nat_Suc of_nat_le_iff add.commute)
                 (metis n(2) of_nat_1 of_nat_add of_nat_le_iff)
    then show "of_nat (q * 2 ^ k) < y" "y < of_nat ((q + 1) * 2 ^ k)" using assms by (auto simp: jams_def)
  qed
  then have y: "of_nat q < y / 2 ^ k" "y / 2 ^ k < of_nat q + 1" by (simp_all add: field_simps)
  have "jam k n = (if even q then q + 1 else q)"
    using False or_1_nat [of q] by (simp add: jam_def flip: q_def)
  then show ?thesis using y by (auto simp: jams_def)
qed

text \<open>All that rounding needs of a significand with a sticky bit is how it compares with the multiples of four.\<close>

definition stands :: "nat \<Rightarrow> rat \<Rightarrow> bool" where
  "stands n y \<longleftrightarrow> (\<forall>c. 4 dvd c \<longrightarrow> (of_nat c < y \<longleftrightarrow> c < n) \<and> (y < of_nat c \<longleftrightarrow> n < c))"

lemma jams_stands: "jams n y \<Longrightarrow> stands n y"
  by (simp add: stands_def jams_compare dvd_trans [of 2 4])

lemma stands_double: "jams n y \<Longrightarrow> stands (2 * n) (2 * y)"
  unfolding stands_def
proof (intro allI impI)
  fix c :: nat assume "jams n y" "4 dvd c"
  then obtain d where "c = 4 * d" by (auto elim: dvdE)
  then show "(of_nat c < 2 * y \<longleftrightarrow> c < 2 * n) \<and> (2 * y < of_nat c \<longleftrightarrow> 2 * n < c)"
    using jams_compare(1,3) [OF \<open>jams n y\<close>, of "2 * d"] by simp
qed

lemma stands_jam:
  assumes "stands n y"
  shows "stands (jam k n) (y / 2 ^ k)"
  unfolding stands_def
proof (intro allI impI)
  fix c :: nat assume c: "4 dvd c"
  then have "even c" "4 dvd c * 2 ^ k" by (auto intro: dvd_trans [of 2 4])
  then have "of_nat (c * 2 ^ k) < y \<longleftrightarrow> c * 2 ^ k < n" "y < of_nat (c * 2 ^ k) \<longleftrightarrow> n < c * 2 ^ k"
    using assms unfolding stands_def by blast+
  moreover have "of_nat (c * 2 ^ k) < (of_nat n :: rat) \<longleftrightarrow> of_nat c < (of_nat n / 2 ^ k :: rat)"
    "(of_nat n :: rat) < of_nat (c * 2 ^ k) \<longleftrightarrow> of_nat n / 2 ^ k < (of_nat c :: rat)"
    by (simp_all add: field_simps)
  then have "c * 2 ^ k < n \<longleftrightarrow> of_nat c < (of_nat n / 2 ^ k :: rat)" "n < c * 2 ^ k \<longleftrightarrow> of_nat n / 2 ^ k < (of_nat c :: rat)"
    by (simp_all only: of_nat_less_iff)
  ultimately show "(of_nat c < y / 2 ^ k \<longleftrightarrow> c < jam k n) \<and> (y / 2 ^ k < of_nat c \<longleftrightarrow> jam k n < c)"
    using jams_compare(1,3) [OF jams_jam [OF jams_exact] \<open>even c\<close>, of n k] by (simp add: field_simps)
qed

section \<open>Rounding off bits\<close>

definition rounds_up :: "nat \<Rightarrow> u32 \<Rightarrow> bool \<Rightarrow> nat \<Rightarrow> bool" where
  "rounds_up w rm neg v =
     (let q = v div 2 ^ w; r = v mod 2 ^ w in
      if rm = softfloat_round_near_even then 2 ^ w < 2 * r \<or> 2 * r = 2 ^ w \<and> odd q
      else if rm = softfloat_round_near_maxMag then 2 ^ w \<le> 2 * r
      else rounds_away rm neg \<and> 0 < r)"

definition rounded :: "nat \<Rightarrow> u32 \<Rightarrow> bool \<Rightarrow> nat \<Rightarrow> nat" where
  "rounded w rm neg v = v div 2 ^ w + of_bool (rounds_up w rm neg v)"

text \<open>The values next to a rounded one, seen from the value.\<close>

lemma scaled_compare:
  fixes y :: rat
  assumes "x = y * 2 ^ e / 2 ^ (k + 2)"
  shows "of_nat a * 2 ^ e \<le> x \<longleftrightarrow> of_nat (a * 2 ^ (k + 2)) \<le> y"
    and "x \<le> of_nat a * 2 ^ e \<longleftrightarrow> y \<le> of_nat (a * 2 ^ (k + 2))"
    and "of_nat a * 2 ^ e \<le> 2 * x \<longleftrightarrow> of_nat (a * 2 ^ (k + 1)) \<le> y"
    and "2 * x \<le> of_nat a * 2 ^ e \<longleftrightarrow> y \<le> of_nat (a * 2 ^ (k + 1))"
proof -
  have x: "x * 2 ^ (k + 2) = y * 2 ^ e" "2 * x * 2 ^ (k + 1) = y * 2 ^ e"
    using assms by simp_all
  have p: "0 < (2 :: rat) ^ e" "0 < (2 :: rat) ^ (k + 2)" "0 < (2 :: rat) ^ (k + 1)" by simp_all
  have s: "of_nat a * 2 ^ e * (2 :: rat) ^ j = of_nat (a * 2 ^ j) * 2 ^ e" for j by simp
  show "of_nat a * 2 ^ e \<le> x \<longleftrightarrow> of_nat (a * 2 ^ (k + 2)) \<le> y"
    by (metis (no_types) x(1) p s mult_le_cancel_right_pos)
  show "x \<le> of_nat a * 2 ^ e \<longleftrightarrow> y \<le> of_nat (a * 2 ^ (k + 2))"
    by (metis (no_types) x(1) p s mult_le_cancel_right_pos)
  show "of_nat a * 2 ^ e \<le> 2 * x \<longleftrightarrow> of_nat (a * 2 ^ (k + 1)) \<le> y"
    by (metis (no_types) x(2) p s mult_le_cancel_right_pos)
  show "2 * x \<le> of_nat a * 2 ^ e \<longleftrightarrow> y \<le> of_nat (a * 2 ^ (k + 1))"
    by (metis (no_types) x(2) p s mult_le_cancel_right_pos)
qed

lemma scaled_stands:
  fixes y :: rat
  assumes x: "x = y * 2 ^ e / 2 ^ (k + 2)" and y: "stands v y" and k: "0 < k"
  shows "of_nat a * 2 ^ e \<le> x \<longleftrightarrow> a * 2 ^ (k + 2) \<le> v"
    and "x \<le> of_nat a * 2 ^ e \<longleftrightarrow> v \<le> a * 2 ^ (k + 2)"
    and "of_nat a * 2 ^ e \<le> 2 * x \<longleftrightarrow> a * 2 ^ (k + 1) \<le> v"
    and "2 * x \<le> of_nat a * 2 ^ e \<longleftrightarrow> v \<le> a * 2 ^ (k + 1)"
    and "of_nat a * 2 ^ e < x \<longleftrightarrow> a * 2 ^ (k + 2) < v"
    and "x < of_nat a * 2 ^ e \<longleftrightarrow> v < a * 2 ^ (k + 2)"
    and "of_nat a * 2 ^ e < 2 * x \<longleftrightarrow> a * 2 ^ (k + 1) < v"
    and "2 * x < of_nat a * 2 ^ e \<longleftrightarrow> v < a * 2 ^ (k + 1)"
proof -
  obtain j where j: "k = Suc j" using k by (cases k) auto
  have four: "4 dvd a * 2 ^ (k + 2)" "4 dvd a * 2 ^ (k + 1)" unfolding j by simp_all
  have cmp: "of_nat c \<le> y \<longleftrightarrow> c \<le> v" "y \<le> of_nat c \<longleftrightarrow> v \<le> c" if "4 dvd c" for c
    using y that unfolding stands_def by (simp_all only: not_less [symmetric])
  show "of_nat a * 2 ^ e \<le> x \<longleftrightarrow> a * 2 ^ (k + 2) \<le> v" "x \<le> of_nat a * 2 ^ e \<longleftrightarrow> v \<le> a * 2 ^ (k + 2)"
    "of_nat a * 2 ^ e \<le> 2 * x \<longleftrightarrow> a * 2 ^ (k + 1) \<le> v" "2 * x \<le> of_nat a * 2 ^ e \<longleftrightarrow> v \<le> a * 2 ^ (k + 1)"
    by (simp_all only: scaled_compare [OF x] cmp [OF four(1)] cmp [OF four(2)])
  then show "of_nat a * 2 ^ e < x \<longleftrightarrow> a * 2 ^ (k + 2) < v" "x < of_nat a * 2 ^ e \<longleftrightarrow> v < a * 2 ^ (k + 2)"
    "of_nat a * 2 ^ e < 2 * x \<longleftrightarrow> a * 2 ^ (k + 1) < v" "2 * x < of_nat a * 2 ^ e \<longleftrightarrow> v < a * 2 ^ (k + 1)"
    by (simp_all only: not_le [symmetric])
qed

lemma halves:
  fixes v w :: nat
  obtains q r h where "v = 2 * (h * q) + r" "r < 2 * h" "0 < h" "2 ^ Suc w = 2 * h" "2 ^ w = h"
    "v div (2 * h) = q" "v mod (2 * h) = r"
proof
  show "v = 2 * (2 ^ w * (v div (2 * 2 ^ w))) + v mod (2 * 2 ^ w)"
    using div_mult_mod_eq [of v "2 * 2 ^ w"] by (simp add: mult_ac)
  show "v mod (2 * 2 ^ w) < 2 * 2 ^ w" by (rule mod_less_divisor) simp
qed simp_all

lemma rounded_neighbours:
  assumes "n = rounded (Suc w) rm neg v"
  shows "rm = softfloat_round_near_even \<Longrightarrow> 0 < n \<Longrightarrow>
           if odd n then (2 * n - 1) * 2 ^ w < v else (2 * n - 1) * 2 ^ w \<le> v"
    and "rm = softfloat_round_near_even \<Longrightarrow> if even n then v \<le> (2 * n + 1) * 2 ^ w else v < (2 * n + 1) * 2 ^ w"
    and "rm = softfloat_round_near_maxMag \<Longrightarrow> 0 < n \<Longrightarrow> (2 * n - 1) * 2 ^ w \<le> v"
    and "rm = softfloat_round_near_maxMag \<Longrightarrow> v < (2 * n + 1) * 2 ^ w"
    and "rm \<noteq> softfloat_round_near_even \<Longrightarrow> rm \<noteq> softfloat_round_near_maxMag \<Longrightarrow>
           if rounds_away rm neg then (0 < n \<longrightarrow> (n - 1) * 2 ^ Suc w < v) \<and> v \<le> n * 2 ^ Suc w
           else n * 2 ^ Suc w \<le> v \<and> v < (n + 1) * 2 ^ Suc w"
proof -
  obtain q r h where v: "v = 2 * (h * q) + r" "r < 2 * h" "0 < h" "2 ^ Suc w = 2 * h" "2 ^ w = h"
    "v div (2 * h) = q" "v mod (2 * h) = r"
    by (rule halves [of v w])
  have up: "rounds_up (Suc w) rm neg v \<longleftrightarrow>
      (if rm = softfloat_round_near_even then h < r \<or> r = h \<and> odd q
       else if rm = softfloat_round_near_maxMag then h \<le> r else rounds_away rm neg \<and> 0 < r)"
    unfolding rounds_up_def v(4) v(6) v(7) Let_def by simp
  have n: "n = q + of_bool (rounds_up (Suc w) rm neg v)" using assms by (simp only: rounded_def v(4) v(6))
  have [simp]: "(2 * q - 1) * h \<le> 2 * (h * q)" for q :: nat by (cases q) simp_all
  have [simp]: "(2 * q - 1) * h < 2 * (h * q)" if "0 < q" for q :: nat using that v(3) by (cases q) simp_all
  have [simp]: "(q - 1) * (2 * h) < 2 * (h * q)" if "0 < q" for q :: nat using that v(3) by (cases q) simp_all
  have [simp]: "h * (q * 2) - h < r + h * (q * 2)" if "0 < q" for q r :: nat using that v(3) by (simp add: trans_less_add2)
  show "if odd n then (2 * n - 1) * 2 ^ w < v else (2 * n - 1) * 2 ^ w \<le> v"
    if "rm = softfloat_round_near_even" "0 < n"
    using that v(1-3) unfolding n up v(5) by (auto simp: algebra_simps trans_less_add1 trans_le_add1)
  show "if even n then v \<le> (2 * n + 1) * 2 ^ w else v < (2 * n + 1) * 2 ^ w" if "rm = softfloat_round_near_even"
    using that v(1-3) unfolding n up v(5) by (auto simp: algebra_simps)
  show "(2 * n - 1) * 2 ^ w \<le> v" if "rm = softfloat_round_near_maxMag" "0 < n"
    using that v(1-3) unfolding n up v(5) by (auto simp: algebra_simps trans_le_add1)
  show "v < (2 * n + 1) * 2 ^ w" if "rm = softfloat_round_near_maxMag"
    using that v(1-3) unfolding n up v(5) by (auto simp: algebra_simps)
  show "if rounds_away rm neg then (0 < n \<longrightarrow> (n - 1) * 2 ^ Suc w < v) \<and> v \<le> n * 2 ^ Suc w
        else n * 2 ^ Suc w \<le> v \<and> v < (n + 1) * 2 ^ Suc w"
    if "rm \<noteq> softfloat_round_near_even" "rm \<noteq> softfloat_round_near_maxMag"
    using that v(1-3) unfolding n up v(4) by (auto simp: algebra_simps trans_less_add1)
qed

lemma rounded_bounds: "v div 2 ^ w \<le> rounded w rm neg v" "rounded w rm neg v \<le> v div 2 ^ w + 1"
  by (simp_all add: rounded_def)

lemma rounded_towards_zero:
  assumes "rm \<noteq> softfloat_round_near_even" "rm \<noteq> softfloat_round_near_maxMag" "\<not> rounds_away rm neg"
  shows "rounded w rm neg v = v div 2 ^ w"
  using assms by (simp add: rounded_def rounds_up_def Let_def)

theorem rounded_correct:
  fixes y :: rat
  assumes y: "stands v y" and k: "0 < k" and v: "v < 2 * 2 ^ fb * 2 ^ (k + 2)" "2 ^ fb * 2 ^ (k + 2) \<le> v \<or> e = 0"
    and fb: "0 < fb" and e: "e + 2 \<le> emax"
    and x: "x = y * 2 ^ e / 2 ^ (k + 2)" and n: "n = rounded (k + 2) rm neg v"
  shows "correctly_rounded fb (emax * 2 ^ fb) rm neg x (e * 2 ^ fb + n)" (is "correctly_rounded _ ?oo _ _ _ ?m")
proof -
  let ?U = "\<lambda>m. of_nat (fp_units fb m) :: rat"
  have q: "v div 2 ^ (k + 2) < 2 * 2 ^ fb" using v(1) by (simp add: div_less_iff_less_mult mult_ac)
  then have n2: "n \<le> 2 * 2 ^ fb" using n rounded_bounds(2) [of "k + 2" rm neg v] by simp
  have n1: "2 ^ fb \<le> n \<or> e = 0"
  proof (cases "e = 0")
    case False
    then have "2 ^ fb \<le> v div 2 ^ (k + 2)"
      using v(2) by (subst less_eq_div_iff_mult_less_eq) (simp_all only: zero_less_power pos2 simp_thms)
    then show ?thesis using n rounded_bounds(1) [of v "k + 2" rm neg] by simp
  qed simp
  have m: "?m \<le> ?oo" using n2 e mult_le_mono1 [OF e, of "2 ^ fb"] by (simp add: add_mult_distrib)
  have U: "?U ?m = of_nat n * 2 ^ e" using fp_units_at [OF n2 n1] by simp
  have Us: "?U (?m + 1) = of_nat (n + 1) * 2 ^ e" if "n < 2 * 2 ^ fb"
  proof -
    have "fp_units fb (e * 2 ^ fb + (n + 1)) = (n + 1) * 2 ^ e" by (rule fp_units_at; use that n1 in auto)
    then have "?U (?m + 1) = of_nat ((n + 1) * 2 ^ e)" by (simp only: add.assoc)
    then show ?thesis by (simp only: of_nat_mult of_nat_power of_nat_numeral)
  qed
  have Up: "of_nat (n + 1) * 2 ^ e \<le> ?U (?m + 1)"
  proof (cases "n < 2 * 2 ^ fb")
    case False
    then have "?m + 1 = (e + 1) * 2 ^ fb + (2 ^ fb + 1)" using n2 by simp
    moreover have "fp_units fb ((e + 1) * 2 ^ fb + (2 ^ fb + 1)) = (2 ^ fb + 1) * 2 ^ (e + 1)" by (rule fp_units_at) auto
    ultimately have "fp_units fb (?m + 1) = (2 ^ fb + 1) * 2 ^ (e + 1)" by (simp only:)
    also have "\<dots> = (n + 2) * 2 ^ e" using False n2 by (simp add: algebra_simps)
    finally have "(n + 1) * 2 ^ e \<le> fp_units fb (?m + 1)" by simp
    then have "of_nat ((n + 1) * 2 ^ e) \<le> ?U (?m + 1)" by (simp only: of_nat_le_iff)
    then show ?thesis by (simp only: of_nat_mult of_nat_power of_nat_numeral)
  qed (simp only: Us order_refl)
  have Down: "0 < n \<and> (?U (?m - 1) = of_nat (n - 1) * 2 ^ e \<or> ?U (?m - 1) < ?U ?m \<and> ?U ?m \<le> x)" if "0 < ?m"
  proof -
    have "0 < n" using that n1 by (metis add_cancel_right_left gr0I le_zero_eq mult_is_0 power_not_zero zero_neq_numeral)
    show ?thesis
    proof (cases "2 ^ fb \<le> n - 1 \<or> e = 0")
      case True
      then have "fp_units fb (e * 2 ^ fb + (n - 1)) = (n - 1) * 2 ^ e" using n2 by (intro fp_units_at) auto
      then show ?thesis using \<open>0 < n\<close> by simp
    next
      case False
      then have "n = 2 ^ fb" "0 < e" using n1 by auto
      then have "n * 2 ^ (k + 2) \<le> v" using v(2) by simp
      then have "?U ?m \<le> x" using scaled_stands(1) [OF x y k] U by simp
      then show ?thesis using \<open>0 < n\<close> that by (simp add: fp_units_less)
    qed
  qed
  have "n = rounded (Suc (k + 1)) rm neg v" using n by simp
  note near = rounded_neighbours [OF this] and cmp = scaled_stands [OF x y k]
  have sum: "of_nat (n - 1) * 2 ^ e + of_nat n * 2 ^ e = of_nat (2 * n - 1) * (2 :: rat) ^ e" if "0 < n"
    using that by (cases n) (simp_all add: algebra_simps)
  have sum': "of_nat n * 2 ^ e + of_nat (n + 1) * 2 ^ e = of_nat (2 * n + 1) * (2 :: rat) ^ e"
    by (simp add: algebra_simps)
  have parity: "even ?m \<longleftrightarrow> even n" using fb by simp
  show ?thesis
  proof (cases "rm = softfloat_round_near_even \<or> rm = softfloat_round_near_maxMag")
    case True
    define t where "t = (rm = softfloat_round_near_even)"
    have low: "if t \<and> odd n then of_nat (2 * n - 1) * 2 ^ e < 2 * x else of_nat (2 * n - 1) * 2 ^ e \<le> 2 * x" if "0 < n"
      unfolding cmp t_def using near(1,3) True that by (metis rounding_modes(2))
    have up: "if t \<and> even n then 2 * x \<le> of_nat (2 * n + 1) * 2 ^ e else 2 * x < of_nat (2 * n + 1) * 2 ^ e"
      unfolding cmp t_def using near(2,4) True by (metis rounding_modes(2))
    have "if t \<and> odd n then ?U (?m - 1) + ?U ?m < 2 * x else ?U (?m - 1) + ?U ?m \<le> 2 * x" if "0 < ?m"
    proof (cases "?U (?m - 1) = of_nat (n - 1) * 2 ^ e")
      case True
      have "0 < n" using Down [OF that] by simp
      from low [OF this] show ?thesis by (simp only: True U sum [OF \<open>0 < n\<close>])
    next
      case False
      then have "?U (?m - 1) < ?U ?m" "?U ?m \<le> x" using Down [OF that] by blast+
      then have "?U (?m - 1) + ?U ?m < 2 * x" by linarith
      then show ?thesis by (simp only: less_imp_le if_cancel split: if_split)
    qed
    moreover have "of_nat (2 * n + 1) * 2 ^ e \<le> ?U ?m + ?U (?m + 1)" using Up U sum' by linarith
    then have "if t \<and> even n then 2 * x \<le> ?U ?m + ?U (?m + 1) else 2 * x < ?U ?m + ?U (?m + 1)"
      using up by (meson order.strict_trans2 order.trans)
    ultimately have "nearest fb ?oo t x ?m"
      unfolding nearest_def Let_def parity using m by blast
    then show ?thesis using True by (auto simp: correctly_rounded_def t_def)
  next
    case False
    show ?thesis
    proof (cases "rounds_away rm neg")
      case True
      then have low: "0 < n \<Longrightarrow> of_nat (n - 1) * 2 ^ e < x" and up: "x \<le> of_nat n * 2 ^ e"
        using near(5) False unfolding cmp by simp_all
      have "least_above fb ?oo x ?m"
        unfolding least_above_def Let_def using m Down low up U by auto
      then show ?thesis using False True by (auto simp: correctly_rounded_def)
    next
      case down: False
      then have low: "of_nat n * 2 ^ e \<le> x" and up: "x < of_nat (n + 1) * 2 ^ e"
        using near(5) False unfolding cmp by simp_all
      have "n < 2 * 2 ^ fb" using rounded_towards_zero [of rm neg "k + 2" v] False down n q by simp
      then have "?m < ?oo" using mult_le_mono1 [OF e, of "2 ^ fb"] by (simp add: add_mult_distrib)
      then have "greatest_below fb ?oo x ?m"
        unfolding greatest_below_def Let_def using low up U Us [OF \<open>n < 2 * 2 ^ fb\<close>] by simp
      then show ?thesis using False down by (simp add: correctly_rounded_def)
    qed
  qed
qed

lemma rounded_exact:
  fixes y :: rat
  assumes "stands v y" and "x = y * 2 ^ e / 2 ^ (k + 2)" and "0 < k"
  shows "v mod 2 ^ (k + 2) = 0 \<longleftrightarrow> of_nat (rounded (k + 2) rm neg v) * 2 ^ e = x"
proof
  assume z: "v mod 2 ^ (k + 2) = 0"
  have "\<not> rounds_up (k + 2) rm neg v" unfolding rounds_up_def Let_def z by simp
  then have "rounded (k + 2) rm neg v * 2 ^ (k + 2) = v" using z by (simp add: rounded_def mod_0_imp_dvd)
  then show "of_nat (rounded (k + 2) rm neg v) * 2 ^ e = x"
    using scaled_stands(1,2) [OF assms(2,1,3)] by (intro antisym) simp_all
next
  assume "of_nat (rounded (k + 2) rm neg v) * 2 ^ e = x"
  then have "rounded (k + 2) rm neg v * 2 ^ (k + 2) = v"
    using scaled_stands(1,2) [OF assms(2,1,3), of "rounded (k + 2) rm neg v"] by (intro antisym) simp_all
  then show "v mod 2 ^ (k + 2) = 0" by (metis mod_mult_self2_is_0)
qed

lemma unat_drop_bit: "unat (drop_bit n a) = unat a div 2 ^ n" for a :: "'a::len word"
  by (subst unsigned_drop_bit_eq) (simp add: drop_bit_eq_div take_bit_nat_eq_self)

text \<open>The increment, the shift and the correction of a tie.\<close>

lemma unat_increment:
  assumes "w < LENGTH('a::len)"
  shows "unat (round_increment rm neg (push_bit w 1) (mask (Suc w)) :: 'a word) =
    (if rm = softfloat_round_near_even \<or> rm = softfloat_round_near_maxMag then 2 ^ w
     else if rounds_away rm neg then 2 ^ Suc w - 1 else 0)"
proof -
  have "unat (push_bit w 1 :: 'a word) = 2 ^ w" 
    using assms by (subst unsigned_push_bit_eq) (simp add: take_bit_eq_mod push_bit_eq_mult)
  moreover have "int (unat (mask (Suc w) :: 'a word)) = int (2 ^ Suc w - 1)"
    using assms uint_mask_eq [where 'a = 'a, of "Suc w"] by (simp add: mask_eq_exp_minus_1 of_nat_diff)
  then have "unat (mask (Suc w) :: 'a word) = 2 ^ Suc w - 1" by (simp only: of_nat_eq_iff)
  ultimately show ?thesis by (auto simp: round_increment_def rounds_away_def)
qed

lemma add_half_div:
  fixes h q r :: nat
  assumes "r < 2 * h"
  shows "(2 * (h * q) + r + h) div (2 * h) = q + of_bool (h \<le> r)"
    and "(2 * (h * q) + r + (2 * h - 1)) div (2 * h) = q + of_bool (0 < r)"
    and "(2 * (h * q) + r) div (2 * h) = q"
  using assms by (auto intro!: div_nat_eqI simp: algebra_simps)

lemma and_not_1_nat: "n - n mod 2 = (if even n then n else n - 1)" for n :: nat
  by (auto simp: odd_iff_mod_2_eq_one)

lemma unat_and_not_1:
  fixes a :: "'a::len word"
  shows "unat (a AND NOT 1) = unat a - unat a mod 2"
proof -
  have "a AND NOT 1 = a - (a AND 1)" by (subst disjunctive_diff) (auto intro!: bit_word_eqI simp: bit_simps)
  moreover have "unat (a AND 1) = unat a mod 2" by (subst unsigned_and_eq) (simp add: and_one_eq)
  ultimately show ?thesis by (simp add: unat_sub_if')
qed

lemma rounded_word:
  fixes sig :: "'a::len word" and w :: nat and rm :: u32 and neg :: bool
  assumes len: "w < LENGTH('a)" and v: "unat sig + 2 ^ Suc w \<le> 2 ^ LENGTH('a)"
  defines "inc \<equiv> round_increment rm neg (push_bit w 1) (mask (Suc w))"
  shows "unat (sig + inc) = unat sig + unat inc"
    and "unat (drop_bit (Suc w) (sig + inc) AND NOT (of_bool (unat sig mod 2 ^ Suc w = 2 ^ w \<and> rm = softfloat_round_near_even)))
          = rounded (Suc w) rm neg (unat sig)"
    and "(unat sig + unat inc) div 2 ^ Suc w = rounded (Suc w) rm neg (unat sig) + of_bool
          (unat sig mod 2 ^ Suc w = 2 ^ w \<and> rm = softfloat_round_near_even \<and> even (unat sig div 2 ^ Suc w))"
proof -
  let ?v = "unat sig" and ?i = "unat inc"
  have i: "?i = (if rm = softfloat_round_near_even \<or> rm = softfloat_round_near_maxMag then 2 ^ w
                 else if rounds_away rm neg then 2 ^ Suc w - 1 else 0)"
    unfolding inc_def by (rule unat_increment [OF len])
  then have "?i < 2 ^ Suc w" by (auto simp: less_le_trans [OF _ power_increasing [of w "Suc w" 2]])
  then show sum: "unat (sig + inc) = ?v + ?i" using v by (simp add: unat_add_lem [symmetric])
  let ?q = "?v div 2 ^ Suc w" and ?r = "?v mod 2 ^ Suc w"
  show three: "(?v + ?i) div 2 ^ Suc w = rounded (Suc w) rm neg ?v + of_bool
          (?r = 2 ^ w \<and> rm = softfloat_round_near_even \<and> even ?q)"
  proof -
    obtain q r h where h: "?v = 2 * (h * q) + r" "r < 2 * h" "0 < h" "2 ^ Suc w = 2 * h" "2 ^ w = h"
      "?v div (2 * h) = q" "?v mod (2 * h) = r"
      by (rule halves [of ?v w])
    show ?thesis
      unfolding i rounded_def rounds_up_def Let_def h(4,5) h(6,7) unfolding h(1)
      using add_half_div [OF h(2), of q] by auto
  qed
  show "unat (drop_bit (Suc w) (sig + inc) AND NOT (of_bool (?r = 2 ^ w \<and> rm = softfloat_round_near_even)))
          = rounded (Suc w) rm neg ?v"
  proof -
    have d: "unat (drop_bit (Suc w) (sig + inc)) = (?v + ?i) div 2 ^ Suc w"
      by (simp only: unat_drop_bit sum)
    show ?thesis
    proof (cases "?r = 2 ^ w \<and> rm = softfloat_round_near_even")
      case True
      then have "rounded (Suc w) rm neg ?v = ?q + of_bool (odd ?q)" by (simp add: rounded_def rounds_up_def Let_def)
      moreover have "unat (drop_bit (Suc w) (sig + inc) AND NOT 1) = ?q + of_bool (odd ?q)"
        unfolding unat_and_not_1 d three and_not_1_nat using True calculation by auto
      ultimately show ?thesis using True by (simp only: simp_thms of_bool_eq)
    next
      case False
      then have "(?v + ?i) div 2 ^ Suc w = rounded (Suc w) rm neg ?v" using three by (auto simp del: power_Suc)
      then show ?thesis using False d by (simp only: simp_thms of_bool_eq bit.compl_zero bit.conj_one_right)
    qed
  qed
qed

end
