(* ===== verification/FloatProps.thy ===== *)
theory FloatProps
  imports Rounding
begin

text \<open>
  Numbers of single precision: sign, magnitude and fields, the value in units of the least positive number, and that the
  comparisons order the values; then the last steps of rounding, from a significand to a packed result.
\<close>

section \<open>Fields\<close>

definition f32_mag :: "u32 \<Rightarrow> nat" where "f32_mag a = unat a mod 2 ^ 31"

definition f32_of :: "bool \<Rightarrow> nat \<Rightarrow> u32" where "f32_of neg m = push_bit 31 (of_bool neg) + of_nat m"

abbreviation f32_inf :: nat where "f32_inf \<equiv> 255 * 2 ^ 23"

definition f32_finite :: "u32 \<Rightarrow> bool" where "f32_finite a \<longleftrightarrow> f32_mag a < f32_inf"

text \<open>The magnitude of the value in units of \<open>2 ^ -149\<close>, and the value itself with its sign.\<close>

abbreviation f32_units :: "u32 \<Rightarrow> nat" where "f32_units a \<equiv> fp_units 23 (f32_mag a)"

lemma unat_and_mask: "unat (a AND mask n) = unat a mod 2 ^ n" for a :: "'a::len word"
  by (simp flip: take_bit_eq_mask take_bit_eq_mod add: unsigned_take_bit_eq)

lemma sign32: "signF32UI a \<longleftrightarrow> 2 ^ 31 \<le> unat a"
proof -
  have "drop_bit 31 a = 0 \<longleftrightarrow> unat a div 2 ^ 31 = 0" by (simp only: unat_drop_bit flip: unat_eq_0)
  then show ?thesis by (auto simp: signF32UI_def div_eq_0_iff)
qed

lemma frac32: "unat (fracF32UI a) = f32_mag a mod 2 ^ 23"
proof -
  have "fracF32UI a = a AND mask 23" by (simp add: fracF32UI_def mask_eq_exp_minus_1)
  then show ?thesis by (simp only: unat_and_mask f32_mag_def) (simp add: mod_mod_cancel)
qed

lemma exp32: "expF32UI a = int (f32_mag a div 2 ^ 23)"
proof -
  have "drop_bit 23 a AND 0xFF = drop_bit 23 a AND mask 8" by (simp add: mask_eq_exp_minus_1)
  then have "unat (drop_bit 23 a AND 0xFF) = unat a div 2 ^ 23 mod 2 ^ 8" by (simp only: unat_and_mask unat_drop_bit)
  also have "\<dots> = f32_mag a div 2 ^ 23" by (simp add: f32_mag_def mod_mult2_eq [of _ "2 ^ 23" "2 ^ 8", simplified])
  finally show ?thesis unfolding expF32UI_def by (metis uint_nat)
qed

lemma f32_mag_less: "f32_mag a < 2 ^ 31" "f32_mag a div 2 ^ 23 < 256"
  by (simp_all add: f32_mag_def less_mult_imp_div_less)

lemma f32_mag_fields: "f32_mag a = f32_mag a div 2 ^ 23 * 2 ^ 23 + f32_mag a mod 2 ^ 23"
  by simp

lemma f32_of_mag: "f32_of (signF32UI a) (f32_mag a) = a"
proof -
  have "unat a = 2 ^ 31 * of_bool (signF32UI a) + f32_mag a"
    using unat_u32_less [of a] by (auto simp: sign32 f32_mag_def mod_if)
  then have "of_nat (unat a) = (of_nat (2 ^ 31 * of_bool (signF32UI a) + f32_mag a) :: u32)" by (rule arg_cong)
  then show ?thesis by (cases "signF32UI a") (simp_all add: f32_of_def push_bit_eq_mult)
qed

lemma f32_of_fields:
  assumes "m < 2 ^ 31"
  shows "f32_mag (f32_of neg m) = m" and "signF32UI (f32_of neg m) = neg"
proof -
  have "f32_of neg m = of_nat (2 ^ 31 * of_bool neg + m)" by (simp add: f32_of_def push_bit_eq_mult)
  then have "unat (f32_of neg m) = 2 ^ 31 * of_bool neg + m"
    using assms by (simp only: unat_of_nat) (simp add: take_bit_nat_eq_self)
  then show "f32_mag (f32_of neg m) = m" "signF32UI (f32_of neg m) = neg"
    using assms by (auto simp: f32_mag_def sign32)
qed

lemma pack32: "packToF32UI neg (int e) sig = f32_of neg (e * 2 ^ 23 + unat sig)"
  by (simp add: packToF32UI_def f32_of_def push_bit_eq_mult)

lemma not_and_field:
  fixes a :: "'a::len word"
  assumes "k + n \<le> LENGTH('a)"
  shows "NOT a AND push_bit k (mask n) = 0 \<longleftrightarrow> drop_bit k a AND mask n = mask n"
proof -
  have "NOT a AND push_bit k (mask n) = 0 \<longleftrightarrow> (\<forall>i<n. bit a (k + i))"
  proof
    assume z: "NOT a AND push_bit k (mask n) = 0"
    show "\<forall>i<n. bit a (k + i)"
    proof (intro allI impI)
      fix i assume "i < n"
      have "\<not> bit (NOT a AND push_bit k (mask n)) (k + i)" using z by simp
      then show "bit a (k + i)" using \<open>i < n\<close> assms by (simp add: bit_simps)
    qed
  next
    assume "\<forall>i<n. bit a (k + i)"
    then show "NOT a AND push_bit k (mask n) = 0"
      by (intro bit_word_eqI) (auto simp: bit_simps dest: spec [of _ "_ - k"])
  qed
  also have "\<dots> \<longleftrightarrow> drop_bit k a AND mask n = mask n"
    using assms by (auto simp: bit_eq_iff bit_simps) (metis add_leD2 order.strict_trans2)
  finally show ?thesis .
qed

lemma top_field:
  fixes m k b :: nat
  assumes "m div k \<le> b" and "0 < k"
  shows "m div k = b \<and> m mod k \<noteq> 0 \<longleftrightarrow> b * k < m"
proof -
  have m: "m = m div k * k + m mod k" "m mod k < k" using assms by simp_all
  show ?thesis
  proof (cases "m div k = b")
    case False
    then have "(m div k + 1) * k \<le> b * k" using assms by (intro mult_le_mono1) simp
    then have "\<not> b * k < m" using m by (simp only: add_mult_distrib mult_1)
    then show ?thesis using False by simp
  next
    case True
    then have "m = b * k + m mod k" using m(1) by simp
    then show ?thesis using True by linarith
  qed
qed

lemma nan32: "isNaNF32UI a \<longleftrightarrow> f32_inf < f32_mag a"
proof -
  have m: "push_bit 23 (mask 8) = (0x7F800000 :: u32)" "mask 8 = (0xFF :: u32)"
    by (simp_all add: mask_eq_exp_minus_1)
  have "NOT a AND 0x7F800000 = 0 \<longleftrightarrow> drop_bit 23 a AND 0xFF = 0xFF"
    using not_and_field [of 23 8 a] unfolding m by simp
  also have "\<dots> \<longleftrightarrow> unat (drop_bit 23 a AND 0xFF) = unat (0xFF :: u32)" by (simp only: word_unat_eq_iff)
  finally have "NOT a AND 0x7F800000 = 0 \<longleftrightarrow> unat (drop_bit 23 a AND 0xFF) = 255" by simp
  moreover have "expF32UI a = 255 \<longleftrightarrow> unat (drop_bit 23 a AND 0xFF) = 255"
    unfolding expF32UI_def using uint_nat [of "drop_bit 23 a AND 0xFF"] by linarith
  moreover have "a AND 0x007FFFFF \<noteq> 0 \<longleftrightarrow> unat (fracF32UI a) \<noteq> 0"
    by (simp only: fracF32UI_def unat_eq_0)
  ultimately have "isNaNF32UI a \<longleftrightarrow> expF32UI a = 255 \<and> unat (fracF32UI a) \<noteq> 0"
    unfolding isNaNF32UI_def by simp
  then show ?thesis using f32_mag_less(2) [of a] top_field [of "f32_mag a" "2 ^ 23" 255] unfolding exp32 frac32 by simp
qed

section \<open>Order\<close>

text \<open>The value of a number that is not a NaN, in units of \<open>2 ^ -149\<close>; the infinities are beyond all others.\<close>

definition f32_val :: "u32 \<Rightarrow> int" where
  "f32_val a = (if signF32UI a then - int (f32_units a) else int (f32_units a))"

lemma units_eq_0 [simp]: "fp_units fb m = 0 \<longleftrightarrow> m = 0"
  using fp_units_eq [of fb m 0] by simp

lemma unat_take_bit: "unat (take_bit n a) = unat a mod 2 ^ n" for a :: "'a::len word"
  by (subst unsigned_take_bit_eq) (simp only: take_bit_eq_mod)

lemma push_bit_zero:
  fixes a :: "'a::len word"
  assumes "k \<le> LENGTH('a)"
  shows "push_bit (LENGTH('a) - k) a = 0 \<longleftrightarrow> unat a mod 2 ^ k = 0"
proof -
  have "push_bit (LENGTH('a) - k) a = 0 \<longleftrightarrow> take_bit k a = 0"
  proof
    assume z: "push_bit (LENGTH('a) - k) a = 0"
    show "take_bit k a = 0"
    proof (rule bit_word_eqI)
      fix n assume "n < LENGTH('a)"
      have "\<not> bit (push_bit (LENGTH('a) - k) a) (LENGTH('a) - k + n)" using z by simp
      then show "bit (take_bit k a) n = bit 0 n" using assms by (auto simp: bit_simps)
    qed
  next
    assume z: "take_bit k a = 0"
    show "push_bit (LENGTH('a) - k) a = 0"
    proof (rule bit_word_eqI)
      fix n assume "n < LENGTH('a)"
      have "\<not> bit (take_bit k a) (n - (LENGTH('a) - k))" using z by simp
      then show "bit (push_bit (LENGTH('a) - k) a) n = bit 0 n" using assms \<open>n < LENGTH('a)\<close> by (auto simp: bit_simps)
    qed
  qed
  also have "\<dots> \<longleftrightarrow> unat a mod 2 ^ k = 0" by (simp only: unat_take_bit flip: unat_eq_0)
  finally show ?thesis .
qed

lemma mag_or_zero: "push_bit 1 (a OR b) = 0 \<longleftrightarrow> f32_mag a = 0 \<and> f32_mag b = 0" for a b :: u32
proof -
  have "push_bit 1 c = 0 \<longleftrightarrow> f32_mag c = 0" for c :: u32
    using push_bit_zero [of 31 c] by (simp only: f32_mag_def) simp
  then show ?thesis by (simp only: push_bit_or or_eq_0_iff)
qed

lemma unat_sign_mag: "unat a = of_bool (signF32UI a) * 2 ^ 31 + f32_mag a"
  using unat_u32_less [of a] by (auto simp: sign32 f32_mag_def mod_if)

lemma mag_units:
  "f32_mag a = 0 \<longleftrightarrow> f32_units a = 0" "f32_mag a = f32_mag b \<longleftrightarrow> f32_units a = f32_units b"
  "f32_mag a < f32_mag b \<longleftrightarrow> f32_units a < f32_units b"
  by (simp_all only: units_eq_0 fp_units_eq fp_units_less)

lemma f32_eq_val:
  assumes "\<not> isNaNF32UI a" and "\<not> isNaNF32UI b"
  shows "f32_eq a b = (f32_val a = f32_val b, 0)"
proof -
  have "a = b \<longleftrightarrow> unat a = unat b" by (simp add: word_unat_eq_iff)
  then have "a = b \<longleftrightarrow> signF32UI a = signF32UI b \<and> f32_mag a = f32_mag b"
    using unat_sign_mag [of a] unat_sign_mag [of b] f32_mag_less(1) [of a] f32_mag_less(1) [of b] by auto
  then show ?thesis
    unfolding f32_eq_def mag_or_zero f32_val_def mag_units using assms
    by (auto simp del: units_eq_0)
qed

lemma f32_lt_val:
  assumes "\<not> isNaNF32UI a" and "\<not> isNaNF32UI b"
  shows "f32_lt a b = (f32_val a < f32_val b, 0)" and "f32_lt_quiet a b = (f32_val a < f32_val b, 0)"
proof -
  have "a < b \<longleftrightarrow> unat a < unat b" "a = b \<longleftrightarrow> unat a = unat b" by (simp_all add: word_less_nat_alt word_unat_eq_iff)
  then have "a < b \<longleftrightarrow> f32_mag a < f32_mag b" "a = b \<longleftrightarrow> f32_mag a = f32_mag b" if "signF32UI a = signF32UI b"
    using unat_sign_mag [of a] unat_sign_mag [of b] that by auto
  then show "f32_lt a b = (f32_val a < f32_val b, 0)" "f32_lt_quiet a b = (f32_val a < f32_val b, 0)"
    unfolding f32_lt_def f32_lt_quiet_def Let_def mag_or_zero f32_val_def mag_units
    using assms by (auto simp del: units_eq_0)
qed

section \<open>Rounding to single precision\<close>

lemma jam_word:
  fixes a :: "'a::len word"
  assumes "0 < k" "k < LENGTH('a)"
  shows "unat (drop_bit k a OR of_bool (push_bit (LENGTH('a) - k) a \<noteq> 0)) = jam k (unat a)"
proof -
  have "unat (of_bool (push_bit (LENGTH('a) - k) a \<noteq> 0) :: 'a word) = of_bool (unat a mod 2 ^ k \<noteq> 0)"
    using push_bit_zero [of k a] assms by simp
  then show ?thesis by (simp only: unsigned_or_eq unat_drop_bit jam_def)
qed

lemma jam_all: "a < 2 ^ k \<Longrightarrow> jam k a = of_bool (a \<noteq> 0)"
  by (simp add: jam_def)

lemma shift_jam32:
  assumes "0 < k" "k < 2 ^ 32"
  shows "unat (softfloat_shiftRightJam32 a (of_nat k)) = jam k (unat a)"
proof -
  have dist: "unat (of_nat k :: u32) = k" using assms by (simp add: unat_of_nat take_bit_nat_eq_self)
  show ?thesis
  proof (cases "k < 31")
    case True
    have "unat (- of_nat k AND 31 :: u32) = unat (- of_nat k :: u32) mod 2 ^ 5"
      using unat_and_mask [of "- of_nat k :: u32" 5] by (simp add: mask_eq_exp_minus_1)
    also have "unat (- of_nat k :: u32) = 2 ^ 32 - k" 
      using assms(1) dist unat_sub_if' [of 0 "of_nat k :: u32"] by simp
    also have "(2 ^ 32 - k) mod 2 ^ 5 = 32 - k"
    proof -
      have "2 ^ 32 - k = (32 - k) + (2 ^ 27 - 1) * 2 ^ 5" using True by simp
      then show ?thesis using assms True by (simp only: mod_mult_self1) simp
    qed
    finally have "unat (- of_nat k AND 31 :: u32) = 32 - k" .
    then show ?thesis using jam_word [of k a] True assms dist
      by (simp add: softfloat_shiftRightJam32_def word_less_nat_alt)
  next
    case False
    then have "unat a < 2 ^ k \<or> k = 31"
      using unat_u32_less [of a] power_increasing [of 32 k "2 :: nat"] by linarith
    then have "jam k (unat a) = of_bool (unat a \<noteq> 0)"
    proof
      assume "k = 31"
      moreover have "unat a div 2 ^ 31 = 0 \<or> unat a div 2 ^ 31 = 1"
        using unat_u32_less [of a] by (simp add: div_eq_0_iff) linarith
      ultimately show ?thesis by (auto simp: jam_def)
    qed (rule jam_all)
    then show ?thesis using False dist by (simp add: softfloat_shiftRightJam32_def word_less_nat_alt unat_eq_0)
  qed
qed

lemma round_constants32:
  "push_bit 6 1 = (0x40 :: u32)" "mask (Suc 6) = (0x7F :: u32)"
  by (simp_all add: mask_eq_exp_minus_1)

lemma round_bits32: "unat (sig AND 0x7F) = unat sig mod 2 ^ 7" for sig :: u32
  using unat_and_mask [of sig 7] by (simp add: mask_eq_exp_minus_1)

lemma xor_zero: "a XOR b = 0 \<longleftrightarrow> a = b" for a b :: "'a::len word"
  by (auto simp: bit_eq_iff bit_simps)

lemma packF32_rounded:
  assumes sig: "unat sig < 2 ^ 31" "2 ^ 30 \<le> unat sig \<or> e = 0"
  shows "packF32 rm neg (int e) sig (sig AND 0x7F) raised =
    (f32_of neg (e * 2 ^ 23 + rounded 7 rm neg (unat sig)),
     if unat sig mod 2 ^ 7 \<noteq> 0 then raised OR softfloat_flag_inexact else raised)"
proof -
  let ?inc = "round_increment rm neg 0x40 0x7F :: u32"
  have tie: "(sig AND 0x7F) XOR 0x40 = 0 \<longleftrightarrow> unat sig mod 2 ^ 7 = 2 ^ 6"
  proof -
    have "(sig AND 0x7F) XOR 0x40 = 0 \<longleftrightarrow> sig AND 0x7F = 0x40" by (rule xor_zero)
    also have "\<dots> \<longleftrightarrow> unat (sig AND 0x7F) = unat (0x40 :: u32)" by (simp only: word_unat_eq_iff)
    finally show ?thesis unfolding round_bits32 by simp
  qed
  have n: "unat (drop_bit 7 (sig + ?inc) AND NOT (of_bool (unat sig mod 2 ^ 7 = 2 ^ 6 \<and> rm = softfloat_round_near_even)))
      = rounded 7 rm neg (unat sig)"
    using rounded_word(2) [of 6 sig rm neg] sig(1) unfolding round_constants32 by simp
  have z: "e = 0" if "rounded 7 rm neg (unat sig) = 0"
    using that rounded_bounds(1) [of "unat sig" 7 rm neg] sig(2) by (auto simp: div_eq_0_iff)
  have bits: "sig AND 0x7F \<noteq> 0 \<longleftrightarrow> unat sig mod 2 ^ 7 \<noteq> 0" by (simp only: round_bits32 flip: unat_eq_0)
  show ?thesis
    unfolding packF32_def Let_def tie bits using n z pack32 [of neg e] pack32 [of neg 0]
    by (auto simp flip: unat_eq_0)
qed

end
