(* ===== verification/FloatRound.thy ===== *)
theory FloatRound
  imports FloatProps
begin

text \<open>
  What \<^verbatim>\<open>softfloat_roundPackToF32\<close> gives: the correctly rounded result, from the subnormal numbers to overflow,
  with the inexact exception exactly when the result is finite and not the value.
\<close>

section \<open>Rounding to single precision\<close>

text \<open>A result that is the correctly rounded one, with the inexact exception exactly when it is not the value itself.\<close>

definition f32_rounds :: "u32 \<Rightarrow> bool \<Rightarrow> rat \<Rightarrow> u32 \<times> flags \<Rightarrow> bool" where
  "f32_rounds rm neg x z \<longleftrightarrow>
     signF32UI (fst z) = neg \<and> correctly_rounded 23 f32_inf rm neg x (f32_mag (fst z))
     \<and> (f32_finite (fst z) \<longrightarrow> (snd z AND softfloat_flag_inexact \<noteq> 0 \<longleftrightarrow> of_nat (f32_units (fst z)) \<noteq> x))"

lemma f32_roundsI:
  assumes "fst z = f32_of neg m" and "correctly_rounded 23 f32_inf rm neg x m" and "m \<le> f32_inf"
    and "m < f32_inf \<Longrightarrow> snd z AND softfloat_flag_inexact \<noteq> 0 \<longleftrightarrow> of_nat (fp_units 23 m) \<noteq> x"
  shows "f32_rounds rm neg x z"
  using assms by (simp add: f32_rounds_def f32_of_fields f32_finite_def)

lemma correctly_rounded_le: "correctly_rounded fb oo rm neg x m \<Longrightarrow> m \<le> oo"
  by (auto simp: correctly_rounded_def nearest_def least_above_def greatest_below_def Let_def split: if_splits)

lemma raised_inexact:
  "(r OR softfloat_flag_inexact) AND softfloat_flag_inexact \<noteq> 0"
  "(if b then softfloat_flag_underflow else 0) AND softfloat_flag_inexact = 0"
  "0 AND softfloat_flag_inexact = 0" "softfloat_flag_inexact \<noteq> 0"
  by (simp_all add: softfloat_flag_inexact_def softfloat_flag_underflow_def bit.conj_disj_distrib2)

text \<open>Within the range of the format, and at its end.\<close>

lemma packF32_correct:
  assumes sig: "unat sig < 2 ^ 31" "2 ^ 30 \<le> unat sig \<or> e = 0" and y: "stands (unat sig) y" and e: "e \<le> 253"
    and raised: "raised AND softfloat_flag_inexact = 0"
  shows "f32_rounds rm neg (y * 2 ^ e / 2 ^ 7) (packF32 rm neg (int e) sig (sig AND 0x7F) raised)"
proof -
  let ?n = "rounded 7 rm neg (unat sig)" and ?x = "y * 2 ^ e / 2 ^ 7"
  have c: "correctly_rounded 23 f32_inf rm neg ?x (e * 2 ^ 23 + ?n)"
    using rounded_correct [where v = "unat sig" and y = y and fb = 23 and k = 5 and e = e and emax = 255 and x = ?x and n = ?n and rm = rm and neg = neg]
    assms by simp
  have n: "?n \<le> 2 * 2 ^ 23" "2 ^ 23 \<le> ?n \<or> e = 0"
    using rounded_bounds(1) [of "unat sig" 7 rm neg] rounded_bounds(2) [of 7 rm neg "unat sig"] sig by auto
  have "unat sig mod 2 ^ 7 = 0 \<longleftrightarrow> of_nat ?n * 2 ^ e = ?x"
    using rounded_exact [where v = "unat sig" and y = y and x = ?x and e = e and k = 5 and rm = rm and neg = neg] y by simp
  moreover have "of_nat (fp_units 23 (e * 2 ^ 23 + ?n)) = (of_nat ?n * 2 ^ e :: rat)"
    by (subst fp_units_at [OF n]) simp
  ultimately show ?thesis
    unfolding packF32_rounded [OF sig]
    by (intro f32_roundsI [where m = "e * 2 ^ 23 + ?n"] c correctly_rounded_le [OF c])
       (use raised in \<open>simp_all add: raised_inexact\<close>)
qed

lemma units_inf: "fp_units 23 f32_inf = 2 ^ 277"
  using fp_units_at [of "2 ^ 23" 23 254] by simp

text \<open>Beyond the largest finite number.\<close>

lemma overflow_correct:
  fixes rm :: u32 and neg :: bool
  assumes "2 ^ 277 \<le> x"
  defines "inc \<equiv> round_increment rm neg 0x40 0x7F :: u32"
  shows "f32_rounds rm neg x (packToF32UI neg 0xFF 0 - of_bool (inc = 0), softfloat_flag_overflow OR softfloat_flag_inexact)"
proof -
  let ?U = "\<lambda>m. of_nat (fp_units 23 m) :: rat"
  have top: "?U f32_inf \<le> x" using assms(1) unfolding units_inf by simp
  have less: "?U (f32_inf - 1) < ?U f32_inf" by (simp only: of_nat_less_iff fp_units_less) simp
  have pack: "packToF32UI neg 0xFF 0 = f32_of neg f32_inf" using pack32 [of neg 255 0] by simp
  have inc: "inc = 0 \<longleftrightarrow> rm \<noteq> softfloat_round_near_even \<and> rm \<noteq> softfloat_round_near_maxMag \<and> \<not> rounds_away rm neg"
    by (auto simp: inc_def round_increment_def rounds_away_def)
  show ?thesis
  proof (cases "inc = 0")
    case True
    have "packToF32UI neg 0xFF 0 - of_bool (inc = 0) = f32_of neg (f32_inf - 1)"
      unfolding pack using True by (simp add: f32_of_def)
    moreover have "greatest_below 23 f32_inf x (f32_inf - 1)"
      unfolding greatest_below_def Let_def using top less by auto
    ultimately show ?thesis
      using True inc top less
      by (intro f32_roundsI [where m = "f32_inf - 1"]) (auto simp: correctly_rounded_def raised_inexact)
  next
    case False
    have "nearest 23 f32_inf t x f32_inf" for t
      unfolding nearest_def Let_def using top less by auto
    moreover have "least_above 23 f32_inf x f32_inf"
      unfolding least_above_def Let_def using top less by auto
    ultimately show ?thesis
      using False inc pack by (intro f32_roundsI [where m = f32_inf]) (auto simp: correctly_rounded_def)
  qed
qed

lemma word_of_exp:
  assumes "\<bar>ee\<bar> < 2 ^ 20"
  shows "0xFD \<le> (word_of_int ee :: u32) \<longleftrightarrow> ee < 0 \<or> 253 \<le> ee"
proof -
  have "uint (word_of_int ee :: u32) = ee mod 2 ^ 32" by (simp add: uint_word_of_int)
  also have "\<dots> = (if ee < 0 then ee + 2 ^ 32 else ee)"
    using assms by (auto simp: mod_pos_pos_trivial intro!: int_mod_pos_eq [where q = "-1"])
  finally show ?thesis using assms by (auto simp: word_le_def)
qed

lemma jam_less:
  assumes "0 < k" "v < 2 * 2 ^ n"
  shows "jam k v < 2 * 2 ^ n"
proof -
  have "v div 2 ^ k \<le> v div 2 ^ 1" using assms(1) by (intro div_le_mono2 power_increasing) auto
  moreover have "v div 2 < 2 ^ n" using assms(2) by (simp add: less_mult_imp_div_less mult.commute)
  moreover have "q OR of_bool b \<le> q + 1" for q :: nat and b using or_1_nat [of q] by (cases b) auto
  then have "jam k v \<le> v div 2 ^ k + 1" by (simp only: jam_def)
  ultimately show ?thesis by (simp only: power_one_right)
qed

lemma roundPackToF32_subnormal:
  assumes sig: "unat sig < 2 ^ 31" and y: "stands (unat sig) y" and ee: "\<bar>ee\<bar> < 2 ^ 20"
    and x: "x = y * 2 powi ee / 2 ^ 7" and neg_exp: "ee < 0"
  shows "f32_rounds rm neg x (softfloat_roundPackToF32 rm neg ee sig)"
proof -
  define k where "k = nat (- ee)"
  have k: "ee = - int k" "0 < k" "k < 2 ^ 32" using neg_exp ee by (auto simp: k_def)
  let ?sig = "softfloat_shiftRightJam32 sig (of_nat k)"
  have j: "unat ?sig = jam k (unat sig)" by (rule shift_jam32) (use k in auto)
  have "jam k (unat sig) < 2 ^ 31" using jam_less [of k "unat sig" 30] k sig by simp
  then have "f32_rounds rm neg (y / 2 ^ k * 2 ^ 0 / 2 ^ 7) (packF32 rm neg (int 0) ?sig (?sig AND 0x7F)
      (if b then softfloat_flag_underflow else 0))" for b
    using stands_jam [OF y, of k] by (intro packF32_correct) (simp_all only: j raised_inexact, simp_all)
  moreover have "x = y / 2 ^ k * 2 ^ 0 / 2 ^ 7" using x k by (simp add: power_int_minus field_simps)
  ultimately show ?thesis
    using neg_exp word_of_exp [OF ee] k(1) unfolding softfloat_roundPackToF32_def Let_def by simp
qed

text \<open>A significand that rounds up to the next power of two at the greatest exponent.\<close>

lemma carry_to_inf:
  fixes sig rm :: u32 and neg :: bool
  assumes sig: "unat sig < 2 ^ 31" "2 ^ 31 \<le> unat sig + unat (round_increment rm neg 0x40 0x7F :: u32)"
    and y: "stands (unat sig) y" and x: "x = y * 2 ^ 253 / 2 ^ 7"
  shows "correctly_rounded 23 f32_inf rm neg x f32_inf"
proof -
  let ?n = "rounded 7 rm neg (unat sig)" and ?inc = "round_increment rm neg 0x40 0x7F :: u32"
  have inc: "(unat sig + unat ?inc) div 2 ^ 7 = ?n
      + of_bool (unat sig mod 2 ^ 7 = 2 ^ 6 \<and> rm = softfloat_round_near_even \<and> even (unat sig div 2 ^ 7))"
    using rounded_word(3) [of 6 sig rm neg] sig(1) unfolding round_constants32 by simp
  have "unat ?inc \<le> 0x7F" by (simp add: round_increment_def)
  then have big: "2 ^ 30 \<le> unat sig" using sig(2) by simp
  have "2 ^ 24 \<le> (unat sig + unat ?inc) div 2 ^ 7" using sig(2) by (subst less_eq_div_iff_mult_less_eq) simp_all
  moreover have "unat sig div 2 ^ 7 < 2 ^ 24" using sig(1) by (simp add: less_mult_imp_div_less)
  moreover have "?n = unat sig div 2 ^ 7"
    if "unat sig mod 2 ^ 7 = 2 ^ 6" "rm = softfloat_round_near_even" "even (unat sig div 2 ^ 7)"
    using that by (simp add: rounded_def rounds_up_def)
  moreover have "unat sig div 2 ^ 7 \<noteq> 2 ^ 24 - 1" if "even (unat sig div 2 ^ 7)" using that by auto
  ultimately have "?n = 2 ^ 24"
    using inc rounded_bounds(2) [of 7 rm neg "unat sig"] by (simp split: split_of_bool_asm)
  then show ?thesis
    using rounded_correct [where v = "unat sig" and y = y and fb = 23 and k = 5 and e = 253 and emax = 255 and x = x and n = ?n and rm = rm and neg = neg]
      sig(1) big y x by simp
qed

theorem roundPackToF32_correct:
  assumes sig: "unat sig < 2 ^ 31" "2 ^ 30 \<le> unat sig \<or> ee \<le> 0" and y: "stands (unat sig) y"
    and ee: "\<bar>ee\<bar> < 2 ^ 20" and x: "x = y * 2 powi ee / 2 ^ 7"
  shows "f32_rounds rm neg x (softfloat_roundPackToF32 rm neg ee sig)"
proof -
  let ?inc = "round_increment rm neg 0x40 0x7F :: u32"
  have inc: "unat (sig + ?inc) = unat sig + unat ?inc"
    using rounded_word(1) [of 6 sig rm neg] sig(1) unfolding round_constants32 by simp_all
  consider "ee < 0" | e where "ee = int e" by (metis linorder_not_less nonneg_int_cases)
  then show ?thesis
  proof cases
    case 1
    then show ?thesis by (rule roundPackToF32_subnormal [OF sig(1) y ee x])
  next
    case (2 e)
    have x: "x = y * 2 ^ e / 2 ^ 7" and e: "2 ^ 30 \<le> unat sig \<or> e = 0" using x 2 sig(2) by auto
    have packed: "f32_rounds rm neg x (packF32 rm neg (int e) sig (sig AND 0x7F) 0)" if "e \<le> 253"
      unfolding x by (rule packF32_correct) (use sig(1) e y that raised_inexact in auto)
    have beyond: "f32_rounds rm neg x
        (packToF32UI neg 0xFF 0 - of_bool (?inc = 0), softfloat_flag_overflow OR softfloat_flag_inexact)"
      if "2 ^ 277 \<le> x" using that by (rule overflow_correct)
    consider "e < 253" | "e = 253" "unat sig + unat ?inc < 2 ^ 31" | "e = 253" "2 ^ 31 \<le> unat sig + unat ?inc" | "253 < e"
      by linarith
    then show ?thesis
    proof cases
      case 1
      then show ?thesis
        using packed 2 word_of_exp [OF ee] unfolding softfloat_roundPackToF32_def Let_def by simp
    next
      case near: 2
      then have "\<not> 0x80000000 \<le> sig + ?inc" by (simp add: word_le_nat_alt inc(1))
      then show ?thesis
        using packed near 2 unfolding softfloat_roundPackToF32_def Let_def by simp
    next
      case 3
      then have "0x80000000 \<le> sig + ?inc" by (simp add: word_le_nat_alt inc(1))
      then have r: "softfloat_roundPackToF32 rm neg ee sig =
          (packToF32UI neg 0xFF 0 - of_bool (?inc = 0), softfloat_flag_overflow OR softfloat_flag_inexact)"
        using 3 2 unfolding softfloat_roundPackToF32_def Let_def by simp
      have "correctly_rounded 23 f32_inf rm neg x f32_inf"
        by (rule carry_to_inf [OF sig(1) _ y]) (use 3 x in simp_all)
      moreover have "?inc \<noteq> 0" using 3 sig(1) by auto
      ultimately show ?thesis
        unfolding r using pack32 [of neg 255 0] by (intro f32_roundsI [where m = f32_inf]) simp_all
    next
      case 4
      then have "\<not> e = 0" "2 ^ 30 \<le> unat sig" using e by auto
      have "y < of_nat (2 ^ 30) \<longleftrightarrow> unat sig < 2 ^ 30" using y [unfolded stands_def, rule_format, of "2 ^ 30"] by simp
      then have "(2 :: rat) ^ 30 \<le> y" using \<open>2 ^ 30 \<le> unat sig\<close> by (simp add: not_less [symmetric])
      moreover have "(2 :: rat) ^ 254 \<le> 2 ^ e" using 4 by (intro power_increasing) auto
      ultimately have "2 ^ 30 * 2 ^ 254 \<le> y * 2 ^ e" by (intro mult_mono) auto
      then have "2 ^ 277 \<le> x" unfolding x by simp
      then show ?thesis
        using beyond 4 2 word_of_exp [OF ee] unfolding softfloat_roundPackToF32_def Let_def by simp
    qed
  qed
qed

end
