(* ===== verification/FloatMul.thy ===== *)
theory FloatMul
  imports FloatRound
begin

text \<open>
  The products of \<^verbatim>\<open>f32_mul\<close>: leading zeros and the normalisation of subnormal operands, and the upper half of the
  product of the significands with the lower half gathered in its last bit.
\<close>

section \<open>Normalisation\<close>

lemma countLeadingZeros8_normalises:
  assumes "0 < d" and "d < 256"
  obtains c where "softfloat_countLeadingZeros8 ! d = int c" "c < 8" "2 ^ 7 \<le> d * 2 ^ c" "(d + 1) * 2 ^ c \<le> 2 ^ 8"
proof -
  have "\<forall>d\<in>set [1..<256]. let c = nat (softfloat_countLeadingZeros8 ! d) in
          softfloat_countLeadingZeros8 ! d = int c \<and> c < 8 \<and> 2 ^ 7 \<le> d * 2 ^ c \<and> (d + 1) * 2 ^ c \<le> 2 ^ 8"
    by code_simp
  then have "let c = nat (softfloat_countLeadingZeros8 ! d) in
          softfloat_countLeadingZeros8 ! d = int c \<and> c < 8 \<and> 2 ^ 7 \<le> d * 2 ^ c \<and> (d + 1) * 2 ^ c \<le> 2 ^ 8"
    by (rule bspec) (use assms in simp)
  then show ?thesis unfolding Let_def using that by blast
qed

lemma countLeadingZeros8_top:
  assumes "2 ^ 24 \<le> v" and "v < 2 ^ 32"
  obtains c where "softfloat_countLeadingZeros8 ! (v div 2 ^ 24) = int c" "c < 8" "2 ^ 31 \<le> v * 2 ^ c" "v * 2 ^ c < 2 ^ 32"
proof -
  define q where "q = v div 2 ^ 24"
  have "0 < q" "q < 256" using assms by (simp_all add: q_def div_greater_zero_iff less_mult_imp_div_less)
  then obtain c where c: "softfloat_countLeadingZeros8 ! q = int c" "c < 8" "2 ^ 7 \<le> q * 2 ^ c" "(q + 1) * 2 ^ c \<le> 2 ^ 8"
    by (rule countLeadingZeros8_normalises)
  have "v = q * 2 ^ 24 + v mod 2 ^ 24" "v mod 2 ^ 24 < 2 ^ 24" by (simp_all add: q_def)
  then have v: "q * 2 ^ 24 \<le> v" "v < (q + 1) * 2 ^ 24" unfolding add_mult_distrib by linarith+
  have "2 ^ 31 = (2 :: nat) ^ 7 * 2 ^ 24" by simp
  also have "\<dots> \<le> (q * 2 ^ c) * 2 ^ 24" by (rule mult_le_mono1) (rule c)
  also have "\<dots> \<le> v * 2 ^ c" using v by (simp add: mult_ac)
  finally have lower: "2 ^ 31 \<le> v * 2 ^ c" .
  have "v * 2 ^ c < ((q + 1) * 2 ^ 24) * 2 ^ c" using v(2) by (rule mult_less_mono1) simp
  also have "\<dots> = ((q + 1) * 2 ^ c) * 2 ^ 24" by (simp only: mult_ac)
  also have "\<dots> \<le> 2 ^ 8 * 2 ^ 24" by (rule mult_le_mono1) (rule c)
  finally have "v * 2 ^ c < 2 ^ 32" by simp
  then show ?thesis using c lower that by (simp add: q_def)
qed

lemma unat_push_bit:
  fixes a :: "'a::len word"
  assumes "unat a * 2 ^ k < 2 ^ LENGTH('a)"
  shows "unat (push_bit k a) = unat a * 2 ^ k"
  using assms by (subst unsigned_push_bit_eq) (simp add: push_bit_eq_mult take_bit_nat_eq_self)

lemma countLeadingZeros32_normalises:
  assumes "a \<noteq> 0"
  obtains c where "softfloat_countLeadingZeros32 a = int c" "c < 32" "2 ^ 31 \<le> unat a * 2 ^ c" "unat a * 2 ^ c < 2 ^ 32"
proof -
  have "0 < unat a" using assms by (simp add: unat_gt_0)
  define c1 a1 where "c1 = (if unat a < 2 ^ 16 then 16 else 0 :: nat)" and "a1 = unat a * 2 ^ c1"
  define c2 a2 where "c2 = (if a1 < 2 ^ 24 then 8 else 0 :: nat)" and "a2 = a1 * 2 ^ c2"
  have a1: "2 ^ 16 \<le> a1" "a1 < 2 ^ 32" using \<open>0 < unat a\<close> unat_u32_less [of a] by (auto simp: c1_def a1_def)
  then have a2: "2 ^ 24 \<le> a2" "a2 < 2 ^ 32" by (auto simp: c2_def a2_def)
  have w1: "(if a < 0x10000 then (16, push_bit 16 a) else (0, a)) = (int c1, of_nat a1)"
    by (simp add: c1_def a1_def word_less_nat_alt push_bit_eq_mult mult.commute)
  have w2: "(if of_nat a1 < (0x1000000 :: u32) then (int c1 + 8, push_bit 8 (of_nat a1)) else (int c1, of_nat a1))
      = (int (c1 + c2), of_nat a2 :: u32)"
    using a1 by (simp add: c2_def a2_def word_less_nat_alt push_bit_eq_mult mult.commute unat_of_nat take_bit_nat_eq_self)
  have "unat (drop_bit 24 (of_nat a2 :: u32)) = a2 div 2 ^ 24"
    using a2 by (simp only: unat_drop_bit unat_of_nat) (simp add: take_bit_nat_eq_self)
  then have clz: "softfloat_countLeadingZeros32 a = int (c1 + c2) + softfloat_countLeadingZeros8 ! (a2 div 2 ^ 24)"
    unfolding softfloat_countLeadingZeros32_def Let_def w1 prod.case w2 by simp
  obtain c where c: "softfloat_countLeadingZeros8 ! (a2 div 2 ^ 24) = int c" "c < 8" "2 ^ 31 \<le> a2 * 2 ^ c" "a2 * 2 ^ c < 2 ^ 32"
    using a2 by (rule countLeadingZeros8_top)
  have "a2 * 2 ^ c = unat a * 2 ^ (c1 + c2 + c)" by (simp add: a1_def a2_def power_add)
  then show ?thesis using c clz by (intro that [of "c1 + c2 + c"]) (auto simp: c1_def c2_def)
qed

lemma mod_once: "n \<le> v \<Longrightarrow> v < 2 * n \<Longrightarrow> v mod n = v - n" for v n :: nat
  by (simp add: le_mod_geq)

lemma or_top_bit:
  fixes s :: u32
  assumes "unat s < 2 ^ 24"
  shows "unat (s OR 0x00800000) = unat s mod 2 ^ 23 + 2 ^ 23"
proof -
  have "unat (s OR 0x00800000) = set_bit 23 (unat s)"
    by (simp add: unsigned_or_eq set_bit_eq_or push_bit_eq_mult)
  also have "\<dots> = unat s + of_bool (even (unat s div 2 ^ 23)) * 2 ^ 23"
    by (simp add: set_bit_eq bit_iff_odd)
  also have "\<dots> = unat s mod 2 ^ 23 + 2 ^ 23"
  proof -
    define q where "q = unat s div 2 ^ 23"
    have "q < 2" "unat s = q * 2 ^ 23 + unat s mod 2 ^ 23" using assms by (simp_all add: q_def less_mult_imp_div_less)
    moreover from this have "q = 0 \<or> q = 1" by linarith
    ultimately show ?thesis unfolding q_def [symmetric] by auto
  qed
  finally show ?thesis .
qed

text \<open>The significand of a number other than zero and its exponent, as the arithmetic sees them.\<close>

definition normal_operand :: "u32 \<Rightarrow> int \<times> u32" where
  "normal_operand a = (if expF32UI a = 0 then softfloat_normSubnormalF32Sig (fracF32UI a) else (expF32UI a, fracF32UI a))"

lemma normal_operand_units:
  assumes "f32_finite a" and "f32_mag a \<noteq> 0"
  obtains e s where "normal_operand a = (e, s)" "\<bar>e\<bar> < 256" "2 ^ 23 \<le> unat (s OR 0x00800000)" "unat (s OR 0x00800000) < 2 ^ 24"
    "of_nat (f32_units a) = (of_nat (unat (s OR 0x00800000)) * 2 powi (e - 1) :: rat)"
proof (cases "f32_mag a div 2 ^ 23 = 0")
  case False
  let ?e = "f32_mag a div 2 ^ 23"
  have "unat (fracF32UI a) < 2 ^ 23" by (simp only: frac32) simp
  then have s: "unat (fracF32UI a OR 0x00800000) = f32_mag a mod 2 ^ 23 + 2 ^ 23"
    by (subst or_top_bit) (simp_all add: frac32)
  have "f32_units a = (2 ^ 23 + f32_mag a mod 2 ^ 23) * 2 ^ (?e - 1)" using False by (simp add: fp_units_def)
  moreover have "(2 :: rat) powi (int ?e - 1) = 2 ^ (?e - 1)"
    using False by (simp add: power_int_def nat_diff_distrib)
  ultimately have "of_nat (f32_units a) = (of_nat (unat (fracF32UI a OR 0x00800000)) * 2 powi (int ?e - 1) :: rat)"
    unfolding s by simp
  then show ?thesis
    using False f32_mag_less(2) [of a] s
    by (intro that [of "int ?e" "fracF32UI a"]) (simp_all add: normal_operand_def exp32)
next
  case True
  let ?f = "fracF32UI a"
  have f: "unat ?f = f32_mag a" using True by (simp add: frac32 mod_if div_eq_0_iff)
  then have "?f \<noteq> 0" "unat ?f < 2 ^ 23" using assms True by (auto simp: unat_eq_0 div_eq_0_iff)
  then obtain c where c: "softfloat_countLeadingZeros32 ?f = int c" "c < 32" "2 ^ 31 \<le> unat ?f * 2 ^ c" "unat ?f * 2 ^ c < 2 ^ 32"
    by (auto elim: countLeadingZeros32_normalises)
  have "8 \<le> c"
  proof (rule ccontr)
    assume "\<not> 8 \<le> c"
    then have "(2 :: nat) ^ c \<le> 2 ^ 8" by (intro power_increasing) auto
    then have "unat ?f * 2 ^ c < 2 ^ 23 * 2 ^ 8" using \<open>unat ?f < 2 ^ 23\<close> by (intro mult_less_le_imp_less) auto
    then show False using c(3) by simp
  qed
  then obtain d where d: "c = d + 8" using le_Suc_ex by (metis add.commute)
  let ?s = "push_bit d ?f"
  have s: "unat ?s = unat ?f * 2 ^ d" "2 ^ 23 \<le> unat ?s" "unat ?s < 2 ^ 24"
    using c(3,4) unfolding d power_add by (simp_all add: unat_push_bit)
  have "unat ?s mod 2 ^ 23 = unat ?s - 2 ^ 23" by (rule mod_once) (use s(2,3) in simp_all)
  then have "unat (?s OR 0x00800000) = unat ?s" using s(2) unfolding or_top_bit [OF s(3)] by linarith
  moreover have "(of_nat (f32_units a) :: rat) = of_nat (unat ?s) * 2 powi (- int d)"
    using True f unfolding s(1) by (simp add: fp_units_def power_int_minus field_simps)
  ultimately show ?thesis
    using True s c d
    by (intro that [of "1 - int d" ?s]) (simp_all add: normal_operand_def exp32 softfloat_normSubnormalF32Sig_def Let_def)
qed


section \<open>Multiplication\<close>

lemma short_jam64:
  assumes "k < 64"
  shows "unat (softfloat_shortShiftRightJam64 a k) = jam k (unat a)"
proof -
  have "a AND (push_bit k 1 - 1) = take_bit k a"
    by (simp add: take_bit_eq_mask mask_eq_exp_minus_1 push_bit_eq_mult)
  moreover have "take_bit k a = 0 \<longleftrightarrow> unat a mod 2 ^ k = 0"
    by (simp only: unat_take_bit flip: unat_eq_0)
  ultimately show ?thesis
    by (simp only: softfloat_shortShiftRightJam64_def unsigned_or_eq unat_drop_bit jam_def) simp
qed

lemma jam_bounds: "v div 2 ^ k \<le> jam k v" "jam k v \<le> v div 2 ^ k + 1"
proof -
  have "q \<le> q OR of_bool b \<and> q OR of_bool b \<le> q + 1" for q :: nat and b
    using or_1_nat [of q] by (cases b) auto
  then show "v div 2 ^ k \<le> jam k v" "jam k v \<le> v div 2 ^ k + 1" unfolding jam_def by blast+
qed

lemma wide32: "unat (ucast a :: u64) = unat a" for a :: u32
  using unat_u32_less [of a] by (simp add: unsigned_ucast_eq take_bit_nat_eq_self)

definition mul_significands :: "u32 \<Rightarrow> u32 \<Rightarrow> u32" where
  "mul_significands sigA sigB =
     ucast (softfloat_shortShiftRightJam64 (ucast (push_bit 7 (sigA OR 0x00800000)) * ucast (push_bit 8 (sigB OR 0x00800000))) 32)"

lemma mul_significands_jam:
  assumes A: "2 ^ 23 \<le> unat (sigA OR 0x00800000)" "unat (sigA OR 0x00800000) < 2 ^ 24"
    and B: "2 ^ 23 \<le> unat (sigB OR 0x00800000)" "unat (sigB OR 0x00800000) < 2 ^ 24"
  defines "p \<equiv> unat (sigA OR 0x00800000) * unat (sigB OR 0x00800000) * 2 ^ 15"
  shows "unat (mul_significands sigA sigB) = jam 32 p" "2 ^ 29 \<le> jam 32 p" "jam 32 p < 2 ^ 31"
proof -
  let ?A = "sigA OR 0x00800000" and ?B = "sigB OR 0x00800000"
  have "2 ^ 23 * 2 ^ 23 \<le> unat ?A * unat ?B" using A(1) B(1) by (rule mult_le_mono)
  moreover have "unat ?A * unat ?B \<le> (2 ^ 24 - 1) * (2 ^ 24 - 1)" using A(2) B(2) by (intro mult_le_mono) simp_all
  ultimately have p: "2 ^ 61 \<le> p" "p < 2 ^ 63 - 2 ^ 33" by (simp_all add: p_def)
  have a: "unat (push_bit 7 ?A) = unat ?A * 2 ^ 7" "unat (push_bit 8 ?B) = unat ?B * 2 ^ 8"
    using A B by (intro unat_push_bit; simp)+
  have "unat (ucast (push_bit 7 ?A) * ucast (push_bit 8 ?B) :: u64) = unat (push_bit 7 ?A) * unat (push_bit 8 ?B)"
    by (subst unat_mult_lem [THEN iffD1]) (simp_all only: wide32 a, use p(2) in \<open>simp add: p_def\<close>)
  also have "\<dots> = p" unfolding a by (simp add: p_def)
  finally have prod: "unat (ucast (push_bit 7 ?A) * ucast (push_bit 8 ?B) :: u64) = p" .
  have "2 ^ 29 \<le> p div 2 ^ 32" using p(1) by (subst less_eq_div_iff_mult_less_eq) simp_all
  then show lower: "2 ^ 29 \<le> jam 32 p" using jam_bounds(1) [of p 32] by linarith
  have "p div 2 ^ 32 < 2 ^ 31 - 1" using p(2) by (intro less_mult_imp_div_less) simp
  then show "jam 32 p < 2 ^ 31" using jam_bounds(2) [of 32 p] by linarith
  then show "unat (mul_significands sigA sigB) = jam 32 p"
    unfolding mul_significands_def unsigned_ucast_eq by (simp only: short_jam64 prod) (simp add: short_jam64 prod take_bit_nat_eq_self)
qed

lemma f32_mul_normal:
  assumes "f32_finite a" "f32_finite b" "f32_mag a \<noteq> 0" "f32_mag b \<noteq> 0"
  shows "f32_mul rm a b =
    (let (expA, sigA) = normal_operand a; (expB, sigB) = normal_operand b;
         expZ = expA + expB - 0x7F; sigZ = mul_significands sigA sigB;
         (expZ, sigZ) = (if sigZ < 0x40000000 then (expZ - 1, push_bit 1 sigZ) else (expZ, sigZ))
     in softfloat_roundPackToF32 rm (signF32UI a \<noteq> signF32UI b) expZ sigZ)"
proof -
  have top: "expF32UI c \<noteq> 0xFF" "\<not> (expF32UI c = 0 \<and> fracF32UI c = 0)" if "f32_finite c" "f32_mag c \<noteq> 0" for c
  proof -
    have "f32_mag c div 2 ^ 23 < 255" using that by (simp add: f32_finite_def less_mult_imp_div_less)
    then show "expF32UI c \<noteq> 0xFF" by (simp add: exp32)
    have "fracF32UI c = 0 \<longleftrightarrow> f32_mag c mod 2 ^ 23 = 0" by (simp only: frac32 flip: unat_eq_0)
    then show "\<not> (expF32UI c = 0 \<and> fracF32UI c = 0)"
      using that(2) f32_mag_fields [of c] by (auto simp: exp32)
  qed
  show ?thesis
    using top [OF assms(1,3)] top [OF assms(2,4)]
    unfolding f32_mul_def mul_significands_def normal_operand_def Let_def by (simp only: if_False simp_thms)
qed

lemma f32_mul_nonzero:
  assumes "f32_finite a" "f32_finite b" "f32_mag a \<noteq> 0" "f32_mag b \<noteq> 0"
  shows "f32_rounds rm (signF32UI a \<noteq> signF32UI b) (of_nat (f32_units a * f32_units b) / 2 ^ 149) (f32_mul rm a b)"
proof -
  obtain eA sA where A: "normal_operand a = (eA, sA)" "\<bar>eA\<bar> < 256" "2 ^ 23 \<le> unat (sA OR 0x00800000)" "unat (sA OR 0x00800000) < 2 ^ 24"
    "of_nat (f32_units a) = (of_nat (unat (sA OR 0x00800000)) * 2 powi (eA - 1) :: rat)"
    using assms by (auto elim: normal_operand_units)
  obtain eB sB where B: "normal_operand b = (eB, sB)" "\<bar>eB\<bar> < 256" "2 ^ 23 \<le> unat (sB OR 0x00800000)" "unat (sB OR 0x00800000) < 2 ^ 24"
    "of_nat (f32_units b) = (of_nat (unat (sB OR 0x00800000)) * 2 powi (eB - 1) :: rat)"
    using assms by (auto elim: normal_operand_units)
  define p where "p = unat (sA OR 0x00800000) * unat (sB OR 0x00800000) * 2 ^ 15"
  let ?sig = "mul_significands sA sB" and ?e = "eA + eB - 0x7F" and ?x = "of_nat (f32_units a * f32_units b) / 2 ^ 149 :: rat"
  have sig: "unat ?sig = jam 32 p" "2 ^ 29 \<le> jam 32 p" "jam 32 p < 2 ^ 31"
    unfolding p_def by (rule mul_significands_jam [OF A(3,4) B(3,4)])+
  have jams: "jams (unat ?sig) (of_nat p / 2 ^ 32)" unfolding sig(1) by (rule jams_jam) simp
  have "(2 :: rat) powi ?e = 2 powi ((eA - 1) + (eB - 1) - 125)" by simp
  also have "\<dots> = 2 powi (eA - 1) * 2 powi (eB - 1) / 2 ^ 125" by (subst power_int_diff, simp, subst power_int_add) simp_all
  finally have x: "?x = of_nat p / 2 ^ 32 * 2 powi ?e / 2 ^ 7"
    unfolding of_nat_mult A(5) B(5) by (simp add: p_def)
  show ?thesis
  proof (cases "?sig < 0x40000000")
    case False
    then have "f32_rounds rm (signF32UI a \<noteq> signF32UI b) ?x (softfloat_roundPackToF32 rm (signF32UI a \<noteq> signF32UI b) ?e ?sig)"
      by (intro roundPackToF32_correct [OF _ _ jams_stands [OF jams] _ x])
         (use sig A(2) B(2) in \<open>simp_all add: word_less_nat_alt\<close>)
    then show ?thesis using False by (simp add: f32_mul_normal [OF assms] A(1) B(1))
  next
    case True
    then have s: "unat ?sig < 2 ^ 30" by (simp add: word_less_nat_alt)
    then have d: "unat (push_bit 1 ?sig) = 2 * unat ?sig" by (subst unat_push_bit) simp_all
    have "?x = 2 * (of_nat p / 2 ^ 32) * 2 powi (?e - 1) / 2 ^ 7"
      unfolding x by (subst power_int_diff) simp_all
    then have "f32_rounds rm (signF32UI a \<noteq> signF32UI b) ?x
        (softfloat_roundPackToF32 rm (signF32UI a \<noteq> signF32UI b) (?e - 1) (push_bit 1 ?sig))"
      by (intro roundPackToF32_correct) (use stands_double [OF jams] sig s A(2) B(2) in \<open>simp_all only: d, simp_all\<close>)
    then show ?thesis using True by (simp only: f32_mul_normal [OF assms] A(1) B(1) Let_def prod.case if_True)
  qed
qed

lemma correctly_rounded_0: "0 < oo \<Longrightarrow> correctly_rounded fb oo rm neg 0 0"
  using fp_units_less [of fb 0 1]
  by (auto simp: correctly_rounded_def nearest_def least_above_def greatest_below_def Let_def)

lemma f32_zero_rounds: "f32_rounds rm neg 0 (packToF32UI neg 0 0, 0)"
  using pack32 [of neg 0 0] by (intro f32_roundsI [where m = 0]) (simp_all add: correctly_rounded_0)

theorem f32_mul_correct:
  assumes "f32_finite a" and "f32_finite b"
  shows "f32_rounds rm (signF32UI a \<noteq> signF32UI b) (of_nat (f32_units a * f32_units b) / 2 ^ 149) (f32_mul rm a b)"
proof (cases "f32_mag a = 0 \<or> f32_mag b = 0")
  case True
  have fields: "expF32UI c = 0 \<and> fracF32UI c = 0 \<longleftrightarrow> f32_mag c = 0" for c
  proof -
    have "fracF32UI c = 0 \<longleftrightarrow> f32_mag c mod 2 ^ 23 = 0" by (simp only: frac32 flip: unat_eq_0)
    then show ?thesis using f32_mag_fields [of c] by (auto simp: exp32)
  qed
  have "expF32UI c \<noteq> 0xFF" if "f32_finite c" for c
    using that by (auto simp: f32_finite_def exp32 dest: less_mult_imp_div_less)
  then have "f32_mul rm a b = (packToF32UI (signF32UI a \<noteq> signF32UI b) 0 0, 0)"
    using assms True unfolding f32_mul_def Let_def fields
    by (cases "f32_mag a = 0"; simp only: if_True if_False simp_thms)
  then show ?thesis using True f32_zero_rounds by auto
qed (use assms f32_mul_nonzero in blast)

end
