(* ===== verification/FloatAdd.thy ===== *)
theory FloatAdd
  imports FloatMul
begin

text \<open>
  The sums of \<^verbatim>\<open>f32_add\<close>, which adds or subtracts magnitudes by the signs: the smaller operand is shifted right
  to the exponent of the larger one, with its lost bits in the last; the difference of operands far apart has lost
  at most one leading bit, that of operands close together is exact.
\<close>

section \<open>Operands\<close>

text \<open>The significand of a number in its field: a subnormal one has the exponent of the least normal ones.\<close>

definition f32_sig :: "u32 \<Rightarrow> nat" where
  "f32_sig a = f32_mag a mod 2 ^ 23 + (if f32_mag a div 2 ^ 23 \<noteq> 0 then 2 ^ 23 else f32_mag a mod 2 ^ 23)"

lemma f32_sig_units: "2 * f32_units a = f32_sig a * 2 ^ (f32_mag a div 2 ^ 23)"
proof (cases "f32_mag a div 2 ^ 23")
  case 0
  then show ?thesis by (simp add: f32_sig_def fp_units_def mod_if div_eq_0_iff)
next
  case (Suc e)
  then show ?thesis by (simp add: f32_sig_def fp_units_def)
qed

lemma f32_sig_less: "f32_sig a < 2 ^ 24"
proof -
  obtain n where "f32_mag a mod 2 ^ 23 = n" "n < 2 ^ 23" by simp
  then show ?thesis unfolding f32_sig_def by auto
qed

lemma plus32: "unat a + unat b < 2 ^ 32 \<Longrightarrow> unat (a + b) = unat a + unat b" for a b :: u32
  using unat_add_lem [of a b] by simp

lemma frac32_less: "unat (fracF32UI a) < 2 ^ 23"
  by (simp only: frac32) simp

lemma f32_sig_word:
  assumes "k \<le> 7"
  shows "unat (push_bit k (fracF32UI a) + (if expF32UI a \<noteq> 0 then push_bit k 0x00800000 else push_bit k (fracF32UI a)))
      = f32_sig a * 2 ^ k"
proof -
  have k: "(2 :: nat) ^ k \<le> 2 ^ 7" using assms by (intro power_increasing) auto
  have small: "n * 2 ^ k \<le> n * 2 ^ 7" for n :: nat using k by simp
  have "f32_mag a mod 2 ^ 23 * 2 ^ k \<le> 2 ^ 23 * 2 ^ 7" using k by (intro mult_le_mono) (simp_all add: less_imp_le)
  then have l: "f32_mag a mod 2 ^ 23 * 2 ^ k < 2 ^ 31" by (rule le_less_trans) simp
  have f: "unat (push_bit k (fracF32UI a)) = f32_mag a mod 2 ^ 23 * 2 ^ k"
    using l by (subst unat_push_bit) (simp_all add: frac32)
  have c: "unat (push_bit k 0x00800000 :: u32) = 2 ^ 23 * 2 ^ k"
    using small [of "2 ^ 23"] by (subst unat_push_bit) simp_all
  then show ?thesis
    using small [of "2 ^ 23"] l by (subst plus32) (auto simp: f c exp32 f32_sig_def add_mult_distrib)
qed

lemma finite32:
  assumes "f32_finite a"
  shows "f32_mag a div 2 ^ 23 < 255" and "expF32UI a \<noteq> 0xFF"
  using assms by (auto simp: f32_finite_def exp32 less_mult_imp_div_less dest: less_mult_imp_div_less)

section \<open>Exact results and differences\<close>

lemma correctly_rounded_exact:
  assumes "m < oo"
  shows "correctly_rounded fb oo rm neg (of_nat (fp_units fb m)) m"
proof -
  have "fp_units fb (m - 1) < fp_units fb m" if "0 < m" using that by (simp add: fp_units_less)
  then have low: "of_nat (fp_units fb (m - 1)) < (of_nat (fp_units fb m) :: rat)" if "0 < m"
    using that by (simp only: of_nat_less_iff)
  have high: "of_nat (fp_units fb m) < (of_nat (fp_units fb (m + 1)) :: rat)"
    by (simp only: of_nat_less_iff fp_units_less less_add_same_cancel1 zero_less_one)
  show ?thesis
    unfolding correctly_rounded_def nearest_def least_above_def greatest_below_def Let_def
    using assms low high by auto
qed

lemma exact_rounds:
  assumes "e \<le> 253" and "n \<le> 2 * 2 ^ 23" and "2 ^ 23 \<le> n \<or> e = 0" and "e * 2 ^ 23 + n < f32_inf"
    and "x = of_nat (n * 2 ^ e)"
  shows "f32_rounds rm neg x (f32_of neg (e * 2 ^ 23 + n), 0)"
proof -
  have x: "x = of_nat (fp_units 23 (e * 2 ^ 23 + n))" using assms by (simp only: fp_units_at)
  show ?thesis
    using assms(4) unfolding x
    by (intro f32_roundsI [where m = "e * 2 ^ 23 + n"] correctly_rounded_exact) simp_all
qed

lemma jams_add: "even c \<Longrightarrow> jams n y \<Longrightarrow> jams (c + n) (of_nat c + y)"
  by (auto simp: jams_def)

lemma jams_diff: "even c \<Longrightarrow> n \<le> c \<Longrightarrow> jams n y \<Longrightarrow> jams (c - n) (of_nat c - y)"
  by (auto simp: jams_def of_nat_diff)

lemma normRoundPackToF32_correct:
  assumes sig: "0 < unat sig" "unat sig < 2 ^ 31" and y: "y = of_nat (unat sig) \<or> 2 ^ 29 \<le> unat sig \<and> jams (unat sig) y"
    and ee: "\<bar>ee\<bar> < 2 ^ 19" and x: "x = y * 2 powi ee / 2 ^ 7"
  shows "f32_rounds rm neg x (softfloat_normRoundPackToF32 rm neg ee sig)"
proof -
  have "sig \<noteq> 0" using sig(1) by auto
  then obtain c where c: "softfloat_countLeadingZeros32 sig = int c" "c < 32" "2 ^ 31 \<le> unat sig * 2 ^ c" "unat sig * 2 ^ c < 2 ^ 32"
    by (rule countLeadingZeros32_normalises)
  then have "c \<noteq> 0" using sig(2) by (auto intro: ccontr)
  then obtain d where d: "c = Suc d" by (cases c) auto
  have clz: "softfloat_countLeadingZeros32 sig - 1 = int d" using c(1) d by simp
  have n: "2 ^ 30 \<le> unat sig * 2 ^ d" "unat sig * 2 ^ d < 2 ^ 31" using c(3,4) unfolding d by simp_all
  have p: "unat (push_bit d sig) = unat sig * 2 ^ d" using n by (subst unat_push_bit) simp_all
  have far: "d \<le> 1" if "2 ^ 29 \<le> unat sig"
  proof (rule ccontr)
    assume "\<not> d \<le> 1"
    then have "(2 :: nat) ^ 2 \<le> 2 ^ d" by (intro power_increasing) auto
    then have "2 ^ 29 * 2 ^ 2 \<le> unat sig * 2 ^ d" using that by (intro mult_le_mono)
    then show False using n(2) by simp
  qed
  have powi: "(2 :: rat) powi (ee - int d) = 2 powi ee / 2 ^ d" by (subst power_int_diff) simp_all
  have ed: "\<bar>ee - int d\<bar> < 2 ^ 20" using ee c(2) d by simp
  show ?thesis
  proof (cases "7 \<le> d \<and> (word_of_int (ee - int d) :: u32) < 0xFD")
    case True
    then obtain e where e: "ee - int d = int e" "e < 253"
      using word_of_exp [OF ed] by (metis linorder_not_less nonneg_int_cases of_nat_less_iff of_nat_numeral)
    obtain k where k: "d = k + 7" using True le_Suc_ex by (metis add.commute)
    have m: "2 ^ 23 \<le> unat sig * 2 ^ k" "unat sig * 2 ^ k < 2 ^ 24" using n unfolding k power_add by simp_all
    have pk: "unat (push_bit k sig) = unat sig * 2 ^ k" using m by (subst unat_push_bit) simp_all
    have yx: "y = of_nat (unat sig)" using y far True by auto
    have "x * 2 ^ 7 = of_nat (unat sig) * 2 powi ee" unfolding x yx by simp
    also have "2 powi ee = (2 :: rat) powi int e * 2 ^ d" using powi e(1) by simp
    finally have "x = of_nat (unat sig * 2 ^ k * 2 ^ e)" unfolding k power_add by simp
    then have "f32_rounds rm neg x (f32_of neg (e * 2 ^ 23 + unat sig * 2 ^ k), 0)"
      using e(2) m by (intro exact_rounds) simp_all
    moreover have "packToF32UI neg (ee - int d) (push_bit k sig) = f32_of neg (e * 2 ^ 23 + unat sig * 2 ^ k)"
      unfolding e(1) by (simp only: pack32 pk)
    moreover have "(7 \<le> int d \<and> (word_of_int (ee - int d) :: u32) < 0xFD) = True" "nat (int d - 7) = k"
      using True k by simp_all
    ultimately show ?thesis
      using \<open>sig \<noteq> 0\<close> unfolding softfloat_normRoundPackToF32_def Let_def clz by simp
  next
    case False
    have "stands (unat sig * 2 ^ d) (y * 2 ^ d)"
    proof (cases "y = of_nat (unat sig)")
      case True
      then have "y * 2 ^ d = of_nat (unat sig * 2 ^ d)" by simp
      then show ?thesis by (simp only: jams_stands jams_exact)
    next
      case False
      then have "d = 0 \<or> d = 1" "jams (unat sig) y" using y far by auto
      then show ?thesis using jams_stands stands_double [of "unat sig" y] by (auto simp: mult.commute)
    qed
    moreover have "x = y * 2 ^ d * 2 powi (ee - int d) / 2 ^ 7" unfolding powi x by simp
    ultimately have "f32_rounds rm neg x (softfloat_roundPackToF32 rm neg (ee - int d) (push_bit d sig))"
      using n ed by (intro roundPackToF32_correct [where y = "y * 2 ^ d"]) (simp_all only: p, simp_all)
    then show ?thesis
      using False unfolding softfloat_normRoundPackToF32_def Let_def clz by auto
  qed
qed


section \<open>Sums of magnitudes\<close>

text \<open>Operands of different exponents: the smaller one, shifted by the difference, under the larger one.\<close>

lemma f32_sig_normal: "f32_mag a div 2 ^ 23 \<noteq> 0 \<Longrightarrow> f32_sig a = unat (fracF32UI a) + 2 ^ 23"
  by (simp add: f32_sig_def frac32)

lemma shifted_units:
  assumes "f32_mag b div 2 ^ 23 + d = f32_mag a div 2 ^ 23"
  shows "(of_nat (f32_sig b * 2 ^ k) / 2 ^ d * 2 ^ (f32_mag a div 2 ^ 23) :: rat) = of_nat (2 * f32_units b) * 2 ^ k"
    and "(of_nat (f32_sig a * 2 ^ k) * 2 ^ (f32_mag a div 2 ^ 23) :: rat) = of_nat (2 * f32_units a) * 2 ^ k"
  unfolding f32_sig_units assms [symmetric] power_add by simp_all

definition aligned_sum :: "u32 \<Rightarrow> bool \<Rightarrow> int \<Rightarrow> u32 \<Rightarrow> u32 \<times> flags" where
  "aligned_sum rm neg expZ sigZ =
     (let (expZ, sigZ) = (if sigZ < 0x40000000 then (expZ - 1, push_bit 1 sigZ) else (expZ, sigZ))
      in softfloat_roundPackToF32 rm neg expZ sigZ)"

lemma aligned_sum_rounds:
  assumes d: "f32_mag b div 2 ^ 23 + d = f32_mag a div 2 ^ 23" "0 < d" and fin: "f32_finite a"
    and J: "unat J = jam d (f32_sig b * 2 ^ 6)"
  shows "f32_rounds rm neg (of_nat (f32_units a + f32_units b))
           (aligned_sum rm neg (expF32UI a) (0x20000000 + push_bit 6 (fracF32UI a) + J))"
proof -
  let ?e = "f32_mag a div 2 ^ 23" and ?n = "f32_sig a * 2 ^ 6" and ?sig = "0x20000000 + push_bit 6 (fracF32UI a) + J"
  let ?y = "of_nat ?n + of_nat (f32_sig b * 2 ^ 6) / 2 ^ d :: rat"
  have e: "?e \<noteq> 0" "?e < 255" using d finite32(1) [OF fin] by auto
  have a: "f32_sig a = unat (fracF32UI a) + 2 ^ 23" using e(1) by (rule f32_sig_normal)
  have jam: "jam d (f32_sig b * 2 ^ 6) < 2 ^ 30"
    using jam_less [of d "f32_sig b * 2 ^ 6" 29] d(2) f32_sig_less [of b] by simp
  have p: "unat (push_bit 6 (fracF32UI a)) = unat (fracF32UI a) * 2 ^ 6"
    using frac32_less [of a] by (subst unat_push_bit) simp_all
  have p': "unat (0x20000000 + push_bit 6 (fracF32UI a)) = ?n"
    using frac32_less [of a] by (subst plus32) (simp_all add: p a)
  have sig: "unat ?sig = ?n + jam d (f32_sig b * 2 ^ 6)"
    using frac32_less [of a] jam by (subst plus32) (simp_all only: p' J, simp add: a)
  have n: "2 ^ 29 \<le> ?n" "?n < 2 ^ 30" using a f32_sig_less [of a] by simp_all
  have jams: "jams (unat ?sig) ?y" unfolding sig by (intro jams_add jams_jam jams_exact) simp
  have x: "of_nat (f32_units a + f32_units b) = ?y * 2 ^ ?e / 2 ^ 7"
    unfolding distrib_right shifted_units [OF d(1)] by simp
  have ex: "expF32UI a = int ?e" by (rule exp32)
  show ?thesis
  proof (cases "?sig < 0x40000000")
    case False
    then have "f32_rounds rm neg (of_nat (f32_units a + f32_units b)) (softfloat_roundPackToF32 rm neg (int ?e) ?sig)"
      using n jam e(2) x sig
      by (intro roundPackToF32_correct [OF _ _ jams_stands [OF jams]]) (simp_all add: word_less_nat_alt)
    then show ?thesis using False ex by (simp add: aligned_sum_def)
  next
    case True
    then have s: "unat ?sig < 2 ^ 30" by (simp add: word_less_nat_alt)
    then have dbl: "unat (push_bit 1 ?sig) = 2 * unat ?sig" by (subst unat_push_bit) simp_all
    have "(2 :: rat) ^ ?e = 2 * 2 powi (int ?e - 1)" by (subst power_int_diff) simp_all
    then have "of_nat (f32_units a + f32_units b) = 2 * ?y * 2 powi (int ?e - 1) / 2 ^ 7"
      unfolding x by (simp only: mult_ac)
    then have "f32_rounds rm neg (of_nat (f32_units a + f32_units b))
        (softfloat_roundPackToF32 rm neg (int ?e - 1) (push_bit 1 ?sig))"
      using stands_double [OF jams] n s e(2) sig
      by (intro roundPackToF32_correct [where y = "2 * ?y"]) (simp_all only: dbl, simp_all)
    then show ?thesis using True ex by (simp only: aligned_sum_def if_True Let_def prod.case)
  qed
qed

lemma shift_operand:
  assumes "0 < d" "d < 256" "k \<le> 7"
  shows "unat (softfloat_shiftRightJam32
      (push_bit k (fracF32UI b) + (if expF32UI b \<noteq> 0 then push_bit k 0x00800000 else push_bit k (fracF32UI b))) (of_nat d))
    = jam d (f32_sig b * 2 ^ k)"
  using assms by (subst shift_jam32) (simp_all only: f32_sig_word, simp_all)

lemma addMagsF32_subnormal:
  assumes "f32_mag a div 2 ^ 23 = 0" and "f32_mag b div 2 ^ 23 = 0"
  shows "f32_rounds rm (signF32UI a) (of_nat (f32_units a + f32_units b)) (softfloat_addMagsF32 rm a b)"
proof -
  have s: "f32_mag a < 2 ^ 23" "f32_mag b < 2 ^ 23" using assms by (simp_all add: div_eq_0_iff)
  have "a + fracF32UI b = f32_of (signF32UI a) (0 * 2 ^ 23 + (f32_mag a + f32_mag b))"
  proof -
    have "fracF32UI b = of_nat (f32_mag b)" using s by (simp add: word_unat_eq_iff frac32 unat_of_nat take_bit_nat_eq_self)
    moreover have "a = f32_of (signF32UI a) (f32_mag a)" by (simp only: f32_of_mag)
    ultimately show ?thesis unfolding f32_of_def by simp
  qed
  moreover have "f32_units a = f32_mag a" "f32_units b = f32_mag b" using assms by (simp_all add: fp_units_def)
  ultimately have "f32_rounds rm (signF32UI a) (of_nat (f32_units a + f32_units b)) (a + fracF32UI b, 0)"
    using s by (simp only:) (intro exact_rounds, simp_all)
  then show ?thesis using assms by (simp add: softfloat_addMagsF32_def exp32)
qed

lemma addMagsF32_equal_exponents:
  assumes "f32_finite a" and e: "f32_mag a div 2 ^ 23 \<noteq> 0" "f32_mag a div 2 ^ 23 = f32_mag b div 2 ^ 23"
  shows "f32_rounds rm (signF32UI a) (of_nat (f32_units a + f32_units b)) (softfloat_addMagsF32 rm a b)"
proof -
  let ?ea = "f32_mag a div 2 ^ 23"
  have ea: "?ea < 255" by (rule finite32(1) [OF assms(1)])
  let ?n = "f32_sig a + f32_sig b" and ?sig = "0x01000000 + fracF32UI a + fracF32UI b"
  have sig: "unat ?sig = ?n"
    using frac32_less [of a] frac32_less [of b] f32_sig_normal [of a] f32_sig_normal [of b] e
    by (subst plus32; subst plus32; simp)
  have n: "2 ^ 24 \<le> ?n" "?n < 2 ^ 25"
    using f32_sig_less [of a] f32_sig_less [of b] f32_sig_normal [of a] f32_sig_normal [of b] e by simp_all
  have x: "2 * (f32_units a + f32_units b) = ?n * 2 ^ ?ea"
    using f32_sig_units [of a] f32_sig_units [of b] e(2) by (simp add: add_mult_distrib)
  show ?thesis
  proof (cases "?sig AND 1 = 0 \<and> ?ea < 254")
    case True
    have "unat (?sig AND 1) = unat ?sig mod 2" using unat_and_mask [of ?sig 1] by simp
    then have even: "even ?n" using True sig by (simp add: even_iff_mod_2_eq_zero)
    then obtain m where m: "?n = 2 * m" by (rule evenE)
    have m': "?n div 2 = m" "2 ^ 23 \<le> m" "m < 2 ^ 24" using n unfolding m by simp_all
    have "f32_units a + f32_units b = ?n div 2 * 2 ^ ?ea" using x unfolding m by simp
    then have "f32_rounds rm (signF32UI a) (of_nat (f32_units a + f32_units b)) (f32_of (signF32UI a) (?ea * 2 ^ 23 + ?n div 2), 0)"
      using True m'(2,3) unfolding m'(1) by (intro exact_rounds) simp_all
    moreover have "packToF32UI (signF32UI a) (int ?ea) (drop_bit 1 ?sig) = f32_of (signF32UI a) (?ea * 2 ^ 23 + ?n div 2)"
      by (simp only: pack32 unat_drop_bit sig power_one_right)
    ultimately show ?thesis
      using e True unfolding softfloat_addMagsF32_def Let_def exp32 by simp
  next
    case False
    have p: "unat (push_bit 6 ?sig) = ?n * 2 ^ 6" using n by (subst unat_push_bit) (simp_all only: sig, simp_all)
    have "f32_rounds rm (signF32UI a) (of_nat (f32_units a + f32_units b))
        (softfloat_roundPackToF32 rm (signF32UI a) (int ?ea) (push_bit 6 ?sig))"
    proof (rule roundPackToF32_correct)
      show "stands (unat (push_bit 6 ?sig)) (of_nat (?n * 2 ^ 6))" unfolding p by (intro jams_stands jams_exact)
      show "of_nat (f32_units a + f32_units b) = of_nat (?n * 2 ^ 6) * 2 powi int ?ea / (2 :: rat) ^ 7"
        using arg_cong [OF x, of "of_nat :: nat \<Rightarrow> rat"] by (simp add: algebra_simps)
    qed (use n ea p in simp_all)
    then show ?thesis
      using e False ea unfolding softfloat_addMagsF32_def Let_def exp32 by auto
  qed
qed

lemma addMagsF32_correct:
  assumes "f32_finite a" and "f32_finite b"
  shows "f32_rounds rm (signF32UI a) (of_nat (f32_units a + f32_units b)) (softfloat_addMagsF32 rm a b)"
proof -
  let ?ea = "f32_mag a div 2 ^ 23" and ?eb = "f32_mag b div 2 ^ 23"
  have ea: "?ea < 255" "?eb < 255" using finite32(1) assms by auto
  consider "?ea = 0" "?eb = 0" | "?ea \<noteq> 0" "?ea = ?eb" | d where "?ea + d = ?eb" "0 < d" | d where "?eb + d = ?ea" "0 < d"
    by (metis add.right_neutral le_Suc_ex nat_le_linear neq0_conv)
  then show ?thesis
  proof cases
    case 1
    then show ?thesis by (rule addMagsF32_subnormal)
  next
    case 2
    then show ?thesis by (rule addMagsF32_equal_exponents [OF assms(1)])
  next
    case (3 d)
    have J: "unat (softfloat_shiftRightJam32 (push_bit 6 (fracF32UI a) + (if expF32UI a \<noteq> 0 then push_bit 6 0x00800000 else push_bit 6 (fracF32UI a)))
        (of_nat d)) = jam d (f32_sig a * 2 ^ 6)" (is "unat ?J = _")
      using 3 ea by (intro shift_operand) simp_all
    have "expF32UI a - expF32UI b = - int d" using 3(1) by (simp add: exp32)
    then have "softfloat_addMagsF32 rm a b
        = aligned_sum rm (signF32UI a) (expF32UI b) (0x20000000 + ?J + push_bit 6 (fracF32UI b))"
      using 3(2) finite32(2) [OF assms(2)] unfolding softfloat_addMagsF32_def Let_def aligned_sum_def by simp
    then show ?thesis
      using aligned_sum_rounds [OF 3 assms(2) J, of rm "signF32UI a"] by (simp only: add_ac)
  next
    case (4 d)
    have J: "unat (softfloat_shiftRightJam32 (push_bit 6 (fracF32UI b) + (if expF32UI b \<noteq> 0 then push_bit 6 0x00800000 else push_bit 6 (fracF32UI b)))
        (of_nat d)) = jam d (f32_sig b * 2 ^ 6)" (is "unat ?J = _")
      using 4 ea by (intro shift_operand) simp_all
    have "expF32UI a - expF32UI b = int d" using 4(1) by (simp add: exp32)
    then have "softfloat_addMagsF32 rm a b
        = aligned_sum rm (signF32UI a) (expF32UI a) (0x20000000 + push_bit 6 (fracF32UI a) + ?J)"
      using 4(2) finite32(2) [OF assms(1)] unfolding softfloat_addMagsF32_def Let_def aligned_sum_def by simp
    then show ?thesis
      using aligned_sum_rounds [OF 4 assms(1) J, of rm "signF32UI a"] by simp
  qed
qed

end
