(* ===== verification/FloatSub.thy ===== *)
theory FloatSub
  imports FloatAdd
begin

text \<open>
  The second half of \<^verbatim>\<open>f32_add\<close>: operands of different signs, and from both halves the sum of any two finite numbers.
\<close>

section \<open>Differences of magnitudes\<close>

lemma or_hidden:
  "unat (push_bit 7 (fracF32UI a) OR 0x40000000) = (unat (fracF32UI a) + 2 ^ 23) * 2 ^ 7"
proof -
  have s: "unat (fracF32UI a OR 0x00800000) = unat (fracF32UI a) + 2 ^ 23"
    using or_top_bit [of "fracF32UI a"] frac32_less [of a] by simp
  have "push_bit 7 (fracF32UI a) OR 0x40000000 = push_bit 7 (fracF32UI a OR 0x00800000)" by (simp add: push_bit_or)
  then show ?thesis
    using s frac32_less [of a] by (simp only:) (subst unat_push_bit; simp)
qed

lemma jam_exact: "v mod 2 ^ k = 0 \<Longrightarrow> jam k v = v div 2 ^ k"
  by (simp add: jam_def)

lemma half_scaled: "y * (2 * p) = (2 * a - 2 * b) * 2 ^ 7 \<Longrightarrow> a - b = y * p / 2 ^ 7" for a b p y :: rat
  by (simp add: field_simps)

lemma difference_rounds:
  assumes d: "f32_mag b div 2 ^ 23 + d = f32_mag a div 2 ^ 23" "0 < d" and fin: "f32_finite a"
    and J: "unat J = jam d (f32_sig b * 2 ^ 7)"
  shows "f32_rounds rm neg (of_nat (f32_units a) - of_nat (f32_units b))
           (softfloat_normRoundPackToF32 rm neg (expF32UI a - 1) ((push_bit 7 (fracF32UI a) OR 0x40000000) - J))"
    and "f32_units b < f32_units a"
proof -
  let ?e = "f32_mag a div 2 ^ 23" and ?X = "f32_sig a * 2 ^ 7" and ?v = "f32_sig b * 2 ^ 7"
  let ?sig = "(push_bit 7 (fracF32UI a) OR 0x40000000) - J" and ?y = "of_nat ?X - of_nat ?v / 2 ^ d :: rat"
  have e: "?e \<noteq> 0" "?e < 255" using d finite32(1) [OF fin] by auto
  have X: "unat (push_bit 7 (fracF32UI a) OR 0x40000000) = ?X" "2 ^ 30 \<le> ?X" "?X < 2 ^ 31"
    using f32_sig_normal [OF e(1)] f32_sig_less [of a] unfolding or_hidden by simp_all
  have v: "?v \<le> 2 ^ 31 - 128" using f32_sig_less [of b] by simp
  have J': "jam d ?v < 2 ^ 30" "d \<noteq> 1 \<Longrightarrow> jam d ?v \<le> 2 ^ 29"
  proof -
    have "?v div 2 ^ d \<le> ?v div 2 ^ 1" using d(2) by (intro div_le_mono2 power_increasing) auto
    also have "\<dots> \<le> (2 ^ 31 - 128) div 2 ^ 1" using v by (rule div_le_mono)
    finally show "jam d ?v < 2 ^ 30" using jam_bounds(2) [of d ?v] by simp
    assume "d \<noteq> 1"
    then have "?v div 2 ^ d \<le> ?v div 2 ^ 2" using d(2) by (intro div_le_mono2 power_increasing) auto
    also have "\<dots> \<le> (2 ^ 31 - 128) div 2 ^ 2" using v by (rule div_le_mono)
    finally show "jam d ?v \<le> 2 ^ 29" using jam_bounds(2) [of d ?v] by simp
  qed
  have sig: "unat ?sig = ?X - jam d ?v"
    using X J' by (subst unat_sub) (simp_all add: word_le_nat_alt J)
  have jams: "jams (unat ?sig) ?y"
    unfolding sig using X(2) J'(1) by (intro jams_diff jams_jam jams_exact) simp_all
  have exact: "?y = of_nat (unat ?sig)" if "d = 1"
  proof -
    have "jam d ?v = f32_sig b * 2 ^ 6" using that by (subst jam_exact) simp_all
    moreover have "of_nat ?v / 2 ^ d = (of_nat (f32_sig b * 2 ^ 6) :: rat)" using that by simp
    ultimately show ?thesis unfolding sig using X(2) J'(1) by (simp only: of_nat_diff less_imp_le order.strict_trans2)
  qed
  have p: "(2 :: rat) ^ ?e = 2 * 2 powi (expF32UI a - 1)" by (subst power_int_diff) (simp_all add: exp32)
  have "?y * 2 ^ ?e = (of_nat (2 * f32_units a) - of_nat (2 * f32_units b)) * 2 ^ 7"
    unfolding left_diff_distrib shifted_units [OF d(1)] by simp
  then have x: "of_nat (f32_units a) - of_nat (f32_units b) = ?y * 2 powi (expF32UI a - 1) / 2 ^ 7"
    unfolding p by (intro half_scaled) simp
  show "f32_rounds rm neg (of_nat (f32_units a) - of_nat (f32_units b))
      (softfloat_normRoundPackToF32 rm neg (expF32UI a - 1) ?sig)"
  proof (rule normRoundPackToF32_correct [OF _ _ _ _ x])
    show "?y = of_nat (unat ?sig) \<or> 2 ^ 29 \<le> unat ?sig \<and> jams (unat ?sig) ?y"
      using exact jams J'(2) X(2) unfolding sig by (cases "d = 1") auto
  qed (use sig X J'(1) e in \<open>simp_all add: exp32\<close>)
  have "0 < ?y"
  proof -
    have "of_nat (unat ?sig) - 1 < ?y \<or> ?y = of_nat (unat ?sig)" using jams by (auto simp: jams_def)
    moreover have "1 \<le> unat ?sig" using sig X J' by simp
    then have "1 \<le> (of_nat (unat ?sig) :: rat)" by (metis of_nat_1 of_nat_le_iff)
    ultimately show ?thesis by linarith
  qed
  then have "0 < (of_nat (f32_units a) - of_nat (f32_units b) :: rat)" unfolding x by simp
  then show "f32_units b < f32_units a" by simp
qed

definition exact_difference :: "bool \<Rightarrow> nat \<Rightarrow> u32 \<Rightarrow> u32 \<times> flags" where
  "exact_difference neg E D =
    (let shiftDist = softfloat_countLeadingZeros32 D - 8; expZ = int E - shiftDist;
         (shiftDist, expZ) = (if expZ < 0 then (int E, 0) else (shiftDist, expZ))
     in (packToF32UI neg expZ (push_bit (nat shiftDist) D), 0))"

lemma exact_difference_rounds:
  assumes D: "0 < unat D" "unat D < 2 ^ 23" and E: "E \<le> 253"
  shows "f32_rounds rm neg (of_nat (unat D * 2 ^ E)) (exact_difference neg E D)"
proof -
  have "D \<noteq> 0" using D by auto
  then obtain c where c: "softfloat_countLeadingZeros32 D = int c" "c < 32" "2 ^ 31 \<le> unat D * 2 ^ c" "unat D * 2 ^ c < 2 ^ 32"
    by (rule countLeadingZeros32_normalises)
  have "8 \<le> c"
  proof (rule ccontr)
    assume "\<not> 8 \<le> c"
    then have "(2 :: nat) ^ c \<le> 2 ^ 8" by (intro power_increasing) auto
    then have "unat D * 2 ^ c < 2 ^ 23 * 2 ^ 8" using D by (intro mult_less_le_imp_less) auto
    then show False using c(3) by simp
  qed
  then obtain s where s: "c = s + 8" using le_Suc_ex by (metis add.commute)
  have n: "2 ^ 23 \<le> unat D * 2 ^ s" "unat D * 2 ^ s < 2 ^ 24" using c(3,4) unfolding s power_add by simp_all
  have clz: "softfloat_countLeadingZeros32 D - 8 = int s" using c(1) s by simp
  show ?thesis
  proof (cases "E < s")
    case True
    then have "unat D * 2 ^ E \<le> unat D * 2 ^ s" by (intro mult_le_mono power_increasing) auto
    then have small: "unat D * 2 ^ E < 2 ^ 24" using n(2) by (rule le_less_trans)
    have "unat (push_bit E D) = unat D * 2 ^ E" using small by (subst unat_push_bit) simp_all
    then have "packToF32UI neg 0 (push_bit E D) = f32_of neg (0 * 2 ^ 23 + unat D * 2 ^ E)"
      using pack32 [of neg 0 "push_bit E D"] by simp
    moreover have "f32_rounds rm neg (of_nat (unat D * 2 ^ E)) (f32_of neg (0 * 2 ^ 23 + unat D * 2 ^ E), 0)"
      using small by (intro exact_rounds) simp_all
    ultimately show ?thesis using True unfolding exact_difference_def clz Let_def by simp
  next
    case False
    then obtain e where e: "E = e + s" using le_Suc_ex by (metis add.commute linorder_not_less)
    have "unat (push_bit s D) = unat D * 2 ^ s" using n by (subst unat_push_bit) simp_all
    then have "packToF32UI neg (int e) (push_bit s D) = f32_of neg (e * 2 ^ 23 + unat D * 2 ^ s)"
      by (simp only: pack32)
    moreover have "f32_rounds rm neg (of_nat (unat D * 2 ^ E)) (f32_of neg (e * 2 ^ 23 + unat D * 2 ^ s), 0)"
      using n E e by (intro exact_rounds) (simp_all add: power_add)
    ultimately show ?thesis using e unfolding exact_difference_def clz Let_def by simp
  qed
qed


text \<open>The sign of a difference, and that of a sum: an exact zero is positive except when rounding down.\<close>

definition difference_sign :: "u32 \<Rightarrow> u32 \<Rightarrow> u32 \<Rightarrow> bool" where
  "difference_sign rm a b =
     (if f32_units a = f32_units b then rm = softfloat_round_min
      else if f32_units b < f32_units a then signF32UI a else \<not> signF32UI a)"

lemma top_bit32: "drop_bit 31 c = 0 \<or> drop_bit 31 c = 1" for c :: u32
proof -
  have "unat (drop_bit 31 c) < 2" using unat_u32_less [of c] by (simp only: unat_drop_bit) (simp add: less_mult_imp_div_less)
  then have "unat (drop_bit 31 c) = 0 \<or> unat (drop_bit 31 c) = 1" by linarith
  then show ?thesis by (simp only: word_unat_eq_iff unsigned_0 unsigned_1)
qed

lemma sint_difference:
  fixes a b :: u32
  assumes "unat a < 2 ^ 23" "unat b < 2 ^ 23"
  shows "sint (a - b) < 0 \<longleftrightarrow> unat a < unat b" and "unat b \<le> unat a \<Longrightarrow> unat (a - b) = unat a - unat b"
proof -
  have sub: "unat (a - b) = (if unat b \<le> unat a then unat a - unat b else unat a + 2 ^ 32 - unat b)"
    by (simp add: unat_sub_if')
  then show "unat b \<le> unat a \<Longrightarrow> unat (a - b) = unat a - unat b" by simp
  have "sint (a - b) < 0 \<longleftrightarrow> bit (a - b) 31" using bit_last_iff [of "a - b"] by simp
  also have "\<dots> \<longleftrightarrow> signF32UI (a - b)"
    using top_bit32 [of "a - b"] by (auto simp: signF32UI_def bit_iff_odd_drop_bit)
  also have "\<dots> \<longleftrightarrow> unat a < unat b" unfolding sign32 sub using assms by auto
  finally show "sint (a - b) < 0 \<longleftrightarrow> unat a < unat b" .
qed

lemma scaled_difference:
  assumes "a \<le> b"
  shows "nat \<bar>int (a * k + c) - int (b * k + c)\<bar> = (b - a) * k" and "nat \<bar>int (b * k + c) - int (a * k + c)\<bar> = (b - a) * k"
proof -
  obtain d where "b = a + d" using assms le_Suc_ex by blast
  then show "nat \<bar>int (a * k + c) - int (b * k + c)\<bar> = (b - a) * k" "nat \<bar>int (b * k + c) - int (a * k + c)\<bar> = (b - a) * k"
    by (simp_all add: add_mult_distrib nat_mult_distrib)
qed

lemma subMagsF32_equal_exponents:
  assumes "f32_finite a" "f32_mag a div 2 ^ 23 = f32_mag b div 2 ^ 23"
  shows "f32_rounds rm (difference_sign rm a b) (of_nat (nat \<bar>int (f32_units a) - int (f32_units b)\<bar>)) (softfloat_subMagsF32 rm a b)"
proof -
  let ?e = "f32_mag a div 2 ^ 23" and ?fa = "fracF32UI a" and ?fb = "fracF32UI b"
  define E where "E = ?e - 1"
  have E: "E \<le> 253" using finite32(1) [OF assms(1)] by (simp add: E_def)
  have exp: "expF32UI a = expF32UI b" "expF32UI a \<noteq> 0xFF" "(if expF32UI a \<noteq> 0 then expF32UI a - 1 else expF32UI a) = int E"
    using assms(2) finite32(2) [OF assms(1)] by (auto simp: exp32 E_def of_nat_diff)
  have u: "f32_units c = unat (fracF32UI c) * 2 ^ E + of_bool (?e \<noteq> 0) * 2 ^ 23 * 2 ^ E" if "f32_mag c div 2 ^ 23 = ?e" for c
    using that by (cases "?e = 0") (simp_all add: fp_units_def E_def frac32 mod_if div_eq_0_iff add_mult_distrib)
  have ua: "f32_units a = unat ?fa * 2 ^ E + of_bool (?e \<noteq> 0) * 2 ^ 23 * 2 ^ E"
    and ub: "f32_units b = unat ?fb * 2 ^ E + of_bool (?e \<noteq> 0) * 2 ^ 23 * 2 ^ E"
    using u assms(2) by auto
  then have order: "f32_units a = f32_units b \<longleftrightarrow> unat ?fa = unat ?fb" "f32_units b < f32_units a \<longleftrightarrow> unat ?fb < unat ?fa"
    by simp_all
  note less = frac32_less [of a] frac32_less [of b]
  have zero: "?fa - ?fb = 0 \<longleftrightarrow> unat ?fa = unat ?fb" by (simp add: word_unat_eq_iff [of ?fa])
  consider "unat ?fa = unat ?fb" | "unat ?fa < unat ?fb" | "unat ?fb < unat ?fa" by linarith
  then show ?thesis
  proof cases
    case 1
    then have "?fa = ?fb" by (simp only: word_unat_eq_iff)
    then show ?thesis
      using order 1 exp f32_zero_rounds unfolding softfloat_subMagsF32_def Let_def by (simp add: difference_sign_def)
  next
    case 2
    have D: "unat (- (?fa - ?fb)) = unat ?fb - unat ?fa"
      using sint_difference(2) [OF less(2,1)] 2 by simp
    have "nat \<bar>int (f32_units a) - int (f32_units b)\<bar> = (unat ?fb - unat ?fa) * 2 ^ E"
      unfolding ua ub by (rule scaled_difference) (use 2 in simp)
    moreover have "softfloat_subMagsF32 rm a b = exact_difference (\<not> signF32UI a) E (- (?fa - ?fb))"
      unfolding softfloat_subMagsF32_def exact_difference_def Let_def
      using 2 sint_difference(1) [OF less] zero
      by (simp only: exp(1) [symmetric] exp(2,3) diff_self if_True if_False prod.case simp_thms split: if_split) simp
    ultimately show ?thesis
      using exact_difference_rounds [of "- (?fa - ?fb)" E rm "\<not> signF32UI a"] 2 order less E
      unfolding D by (simp add: difference_sign_def)
  next
    case 3
    have D: "unat (?fa - ?fb) = unat ?fa - unat ?fb"
      using sint_difference(2) [OF less] 3 by simp
    have "nat \<bar>int (f32_units a) - int (f32_units b)\<bar> = (unat ?fa - unat ?fb) * 2 ^ E"
      unfolding ua ub by (rule scaled_difference) (use 3 in simp)
    moreover have "softfloat_subMagsF32 rm a b = exact_difference (signF32UI a) E (?fa - ?fb)"
      unfolding softfloat_subMagsF32_def exact_difference_def Let_def
      using 3 sint_difference(1) [OF less] zero
      by (simp only: exp(1) [symmetric] exp(2,3) diff_self if_True if_False prod.case simp_thms split: if_split) simp
    ultimately show ?thesis
      using exact_difference_rounds [of "?fa - ?fb" E rm "signF32UI a"] 3 order less E
      unfolding D by (simp add: difference_sign_def)
  qed
qed

lemma subMagsF32_correct:
  assumes "f32_finite a" and "f32_finite b"
  shows "f32_rounds rm (difference_sign rm a b) (of_nat (nat \<bar>int (f32_units a) - int (f32_units b)\<bar>)) (softfloat_subMagsF32 rm a b)"
proof -
  let ?ea = "f32_mag a div 2 ^ 23" and ?eb = "f32_mag b div 2 ^ 23"
  have ea: "?ea < 255" "?eb < 255" using finite32(1) assms by auto
  have k7: "push_bit 7 0x00800000 = (0x40000000 :: u32)" by simp
  consider "?ea = ?eb" | d where "?ea + d = ?eb" "0 < d" | d where "?eb + d = ?ea" "0 < d"
    by (metis add.right_neutral le_Suc_ex nat_le_linear neq0_conv)
  then show ?thesis
  proof cases
    case 1
    then show ?thesis by (rule subMagsF32_equal_exponents [OF assms(1)])
  next
    case (2 d)
    have J: "unat (softfloat_shiftRightJam32 (push_bit 7 (fracF32UI a) + (if expF32UI a \<noteq> 0 then push_bit 7 0x00800000 else push_bit 7 (fracF32UI a)))
        (of_nat d)) = jam d (f32_sig a * 2 ^ 7)" (is "unat ?J = _")
      using 2 ea by (intro shift_operand) simp_all
    note r = difference_rounds (1) [OF 2 assms(2) J, where rm = rm and neg = "\<not> signF32UI a"] difference_rounds(2) [OF 2 assms(2) J]
    have "expF32UI a - expF32UI b = - int d" using 2(1) by (simp add: exp32)
    then have "softfloat_subMagsF32 rm a b = softfloat_normRoundPackToF32 rm (\<not> signF32UI a) (expF32UI b - 1)
        ((push_bit 7 (fracF32UI b) OR 0x40000000) - ?J)"
      using 2(2) finite32(2) [OF assms(2)] unfolding softfloat_subMagsF32_def Let_def k7 by simp
    moreover have "of_nat (nat \<bar>int (f32_units a) - int (f32_units b)\<bar>) = (of_nat (f32_units b) - of_nat (f32_units a) :: rat)"
      using r(2) by (simp add: of_nat_diff flip: of_nat_diff)
    ultimately show ?thesis using r by (simp only: difference_sign_def) auto
  next
    case (3 d)
    have J: "unat (softfloat_shiftRightJam32 (push_bit 7 (fracF32UI b) + (if expF32UI b \<noteq> 0 then push_bit 7 0x00800000 else push_bit 7 (fracF32UI b)))
        (of_nat d)) = jam d (f32_sig b * 2 ^ 7)" (is "unat ?J = _")
      using 3 ea by (intro shift_operand) simp_all
    note r = difference_rounds (1) [OF 3 assms(1) J, where rm = rm and neg = "signF32UI a"] difference_rounds(2) [OF 3 assms(1) J]
    have "expF32UI a - expF32UI b = int d" using 3(1) by (simp add: exp32)
    then have "softfloat_subMagsF32 rm a b = softfloat_normRoundPackToF32 rm (signF32UI a) (expF32UI a - 1)
        ((push_bit 7 (fracF32UI a) OR 0x40000000) - ?J)"
      using 3(2) finite32(2) [OF assms(1)] unfolding softfloat_subMagsF32_def Let_def k7 by simp
    moreover have "of_nat (nat \<bar>int (f32_units a) - int (f32_units b)\<bar>) = (of_nat (f32_units a) - of_nat (f32_units b) :: rat)"
      using r(2) by (simp add: of_nat_diff flip: of_nat_diff)
    ultimately show ?thesis using r by (simp only: difference_sign_def) auto
  qed
qed

text \<open>The sum of two values; its sign is that of the operands when they agree.\<close>

definition sum_sign :: "u32 \<Rightarrow> u32 \<Rightarrow> u32 \<Rightarrow> bool" where
  "sum_sign rm a b =
     (if signF32UI a = signF32UI b then signF32UI a
      else if f32_val a + f32_val b = 0 then rm = softfloat_round_min
      else f32_val a + f32_val b < 0)"

theorem f32_add_correct:
  assumes "f32_finite a" and "f32_finite b"
  shows "f32_rounds rm (sum_sign rm a b) (of_int \<bar>f32_val a + f32_val b\<bar>) (f32_add rm a b)"
proof -
  from top_bit32 [of a] top_bit32 [of b] have xor: "signF32UI (a XOR b) \<longleftrightarrow> signF32UI a \<noteq> signF32UI b"
    by (auto simp: signF32UI_def drop_bit_xor)
  show ?thesis
  proof (cases "signF32UI a = signF32UI b")
    case True
    then have "of_int \<bar>f32_val a + f32_val b\<bar> = (of_nat (f32_units a + f32_units b) :: rat)" by (simp add: f32_val_def)
    then show ?thesis using True addMagsF32_correct [OF assms] xor by (simp add: f32_add_def sum_sign_def)
  next
    case False
    then have "difference_sign rm a b = sum_sign rm a b" by (auto simp: difference_sign_def sum_sign_def f32_val_def)
    moreover have "of_int \<bar>f32_val a + f32_val b\<bar> = (of_nat (nat \<bar>int (f32_units a) - int (f32_units b)\<bar>) :: rat)"
    proof -
      have "\<bar>f32_val a + f32_val b\<bar> = \<bar>int (f32_units a) - int (f32_units b)\<bar>" using False by (auto simp: f32_val_def)
      then show ?thesis by simp
    qed
    ultimately show ?thesis using False subMagsF32_correct [OF assms, of rm] xor by (simp add: f32_add_def)
  qed
qed

end
