(* ===== verification/FpEmulationProps.thy ===== *)
theory FpEmulationProps
  imports FpEmulation FloatSub EmulationProps
begin

text \<open>
  What a trap of a floating-point instruction does for the code that took it: the sum, difference and product of single
  precision are the correctly rounded ones in the mode of the instruction, comparisons order the values, and the
  exceptions join those of the status.
\<close>

section \<open>Rounding mode and exceptions\<close>

text \<open>The mode that an instruction names: its own, or that of the status.\<close>

definition status_mode :: "'d emulator \<Rightarrow> 'd world \<Rightarrow> u32" where
  "status_mode E s = (if riscv_flen E then ucast (drop_bit 5 (read_csr FCSR s) AND 7) else drop_bit 5 (tp s AND 0xFF))"

definition instruction_mode :: "'d emulator \<Rightarrow> u64 \<Rightarrow> 'd world \<Rightarrow> u32 option" where
  "instruction_mode E insn s =
     (if GET_RM insn = 7 then Some (status_mode E s) else if GET_RM insn \<le> 4 then Some (ucast (GET_RM insn)) else None)"

definition fp_flags :: "'d emulator \<Rightarrow> 'd world \<Rightarrow> flags" where
  "fp_flags E s = (if riscv_flen E then ucast (read_csr FCSR s) else ucast (tp s)) AND 0x1F"

text \<open>Nothing but the working copy of the mode in \<open>tp\<close> has changed.\<close>

definition mode_set :: "'d emulator \<Rightarrow> 'd world \<Rightarrow> 'd world \<Rightarrow> bool" where
  "mode_set E s s' \<longleftrightarrow> (\<exists>t. s' = s\<lparr>tp := t\<rparr>) \<and> fp_flags E s' = fp_flags E s"

lemma mode_setI: "fp_flags E (s\<lparr>tp := t\<rparr>) = fp_flags E s \<Longrightarrow> mode_set E s (s\<lparr>tp := t\<rparr>)"
  by (auto simp: mode_set_def)

lemma funct3_all: "insn AND MASK_FUNCT3 = MASK_FUNCT3 \<longleftrightarrow> GET_RM insn = 7"
proof -
  have mask: "MASK_FUNCT3 = push_bit 12 (7 :: u64)" by (simp add: MASK_FUNCT3_def)
  have rm: "GET_RM insn < 8" by (rule op_bits(2) [OF refl])
  have "unat (push_bit 12 (GET_RM insn)) = unat (GET_RM insn) * 2 ^ 12" "unat (push_bit 12 (7 :: u64)) = 7 * 2 ^ 12"
    using rm by (subst unat_push_bit; simp add: word_less_nat_alt)+
  then have "push_bit 12 (GET_RM insn) = push_bit 12 7 \<longleftrightarrow> GET_RM insn = 7"
    by (simp add: word_unat_eq_iff)
  then show ?thesis using funct3_bits [of insn] mask MASK_FUNCT3_def by metis
qed

lemma static_mode:
  "signed_drop_bit 13 (take_bit 8 t OR push_bit 13 (take_bit 3 g)) = (take_bit 3 g :: u32)"
  by (rule bit_word_eqI) (auto simp: bit_simps)

lemma dynamic_mode:
  "signed_drop_bit 13 (take_bit 8 t OR push_bit 8 (take_bit 8 t)) = drop_bit 5 (take_bit 8 t :: u32)"
  by (rule bit_word_eqI) (auto simp: bit_simps)

lemma mask_flags: "a AND 0x1F = take_bit 5 a" for a :: "'a::len word"
  by (simp add: take_bit_eq_mask mask_eq_exp_minus_1)

lemma mask_byte: "a AND 0xFF = take_bit 8 a" for a :: "'a::len word"
  by (simp add: take_bit_eq_mask mask_eq_exp_minus_1)

lemma flags_kept: "take_bit 5 (ucast (take_bit 8 t OR push_bit (8 + k) g) :: u8) = take_bit 5 (ucast (t :: u32))"
  by (rule bit_word_eqI) (auto simp: bit_simps)

lemma GET_RM_take: "GET_RM insn = take_bit 3 (drop_bit 12 insn)"
  by (simp add: GET_RM_def take_bit_eq_mask mask_eq_exp_minus_1)

lemma setup_rounding:
  assumes "instruction_mode E insn s = Some rm"
  obtains s' where "SETUP_STATIC_ROUNDING E insn s = (True, s')" "softfloat_roundingMode E s' = rm" "mode_set E s s'"
proof (cases "riscv_flen E")
  case True
  then have keep: "mode_set E s (s\<lparr>tp := t\<rparr>)" for t by (intro mode_setI) (simp add: fp_flags_def read_csr_def)
  have "GET_RM insn = 7 \<and> rm = ucast (drop_bit 5 (read_csr FCSR s) AND 7)
      \<or> GET_RM insn \<noteq> 7 \<and> (4 < GET_RM insn) = False \<and> rm = ucast (GET_RM insn)"
    using assms True by (auto simp: instruction_mode_def status_mode_def not_less split: if_splits)
  then have "SETUP_STATIC_ROUNDING E insn s = (True, s\<lparr>tp := rm\<rparr>)"
    using True by (auto simp only: SETUP_STATIC_ROUNDING_def funct3_all if_True if_False simp_thms)
  then show ?thesis using that True keep by (simp add: softfloat_roundingMode_def)
next
  case False
  have g: "ucast (GET_RM insn) = (take_bit 3 (ucast (drop_bit 12 insn)) :: u32)"
    unfolding GET_RM_take by (rule bit_word_eqI) (auto simp: bit_simps)
  note defs = SETUP_STATIC_ROUNDING_def funct3_all Let_def mask_byte g softfloat_roundingMode_def
  have keep: "mode_set E s (s\<lparr>tp := t\<rparr>)" if "take_bit 5 (ucast t :: u8) = take_bit 5 (ucast (tp s))" for t
    using that False by (intro mode_setI) (simp add: fp_flags_def mask_flags)
  have mode: "GET_RM insn = 7 \<and> rm = drop_bit 5 (take_bit 8 (tp s))
      \<or> GET_RM insn \<noteq> 7 \<and> (4 < GET_RM insn) = False \<and> rm = take_bit 3 (ucast (drop_bit 12 insn))"
    using assms False by (auto simp: instruction_mode_def status_mode_def mask_byte g not_less split: if_splits)
  then show ?thesis
  proof (elim disjE conjE)
    assume "GET_RM insn = 7" "rm = drop_bit 5 (take_bit 8 (tp s))"
    then show ?thesis
      using False flags_kept [of "tp s" 0 "take_bit 8 (tp s)"] dynamic_mode [of "tp s"]
      by (intro that [of "s\<lparr>tp := take_bit 8 (tp s) OR push_bit 8 (take_bit 8 (tp s))\<rparr>"]) (simp_all add: defs keep)
  next
    assume "GET_RM insn \<noteq> 7" "(4 < GET_RM insn) = False" "rm = take_bit 3 (ucast (drop_bit 12 insn))"
    then show ?thesis
      using False flags_kept [of "tp s" 5] static_mode [of "tp s"]
      by (intro that [of "s\<lparr>tp := take_bit 8 (tp s) OR push_bit 13 (take_bit 3 (ucast (drop_bit 12 insn)))\<rparr>"])
         (simp_all only: defs if_False, simp_all add: keep)
  qed
qed

section \<open>Results\<close>

text \<open>
  All that an instruction may change besides integer registers: the floating-point ones, the status, which gets
  the exceptions, the marks of a dirty state in \<^verbatim>\<open>mstatus\<close>, and the address to return to.
\<close>

definition fp_step :: "'d emulator \<Rightarrow> flags \<Rightarrow> 'd world \<Rightarrow> 'd world \<Rightarrow> bool" where
  "fp_step E raised s s' \<longleftrightarrow>
     (\<exists>c f t. s' = s\<lparr>csrs := c, fregs := f, tp := t\<rparr>)
     \<and> (\<forall>c. c \<notin> {FCSR, MSTATUS, MEPC} \<longrightarrow> csrs s' c = csrs s c) \<and> fp_flags E s' = fp_flags E s OR (raised AND 0x1F)"

text \<open>A result goes to the destination register and its exceptions to the status.\<close>

definition f32_stored :: "'d emulator \<Rightarrow> u64 \<Rightarrow> u32 \<times> flags \<Rightarrow> 'd world \<Rightarrow> 'd world \<Rightarrow> bool" where
  "f32_stored E insn z s s' \<longleftrightarrow>
     GET_F32_REG insn 7 s' = fst z \<and> fp_step E (snd z) s s'
     \<and> (\<forall>r. r \<noteq> unat (drop_bit 4 insn AND 0xF8) div 8 \<longrightarrow> fregs s' r = fregs s r)"

lemma raised_flags: "fp_flags E (softfloat_raiseFlags E which s) = fp_flags E s OR (which AND 0x1F)"
  unfolding fp_flags_def softfloat_raiseFlags_def mask_flags
  by (cases "riscv_flen E") (simp_all add: read_csr_def write_csr_def, (rule bit_word_eqI, auto simp: bit_simps)+)

lemma fp_step_raised:
  "fp_step E raised s (SET_FS_DIRTY E ((softfloat_raiseFlags E raised s)\<lparr>fregs := f\<rparr>))"
  "fp_step E raised s (SET_FS_DIRTY E (softfloat_raiseFlags E raised s))"
proof -
  have f: "fp_flags E (SET_FS_DIRTY E s) = fp_flags E s" "fp_flags E (s\<lparr>fregs := g\<rparr>) = fp_flags E s" for g s
    by (simp_all add: fp_flags_def SET_FS_DIRTY_def set_csr_def read_csr_def write_csr_def)
  let ?r = "\<lambda>f. SET_FS_DIRTY E ((softfloat_raiseFlags E raised s)\<lparr>fregs := f\<rparr>)"
  have eq: "?r f = s\<lparr>csrs := csrs (?r f), fregs := f, tp := tp (?r f)\<rparr>" for f
    by (simp add: softfloat_raiseFlags_def SET_FS_DIRTY_def set_csr_def write_csr_def)
  have csrs: "\<forall>c. c \<notin> {FCSR, MSTATUS, MEPC} \<longrightarrow> csrs (?r f) c = csrs s c" for f
    by (simp add: softfloat_raiseFlags_def SET_FS_DIRTY_def set_csr_def write_csr_def)
  have flags: "fp_flags E (?r f) = fp_flags E s OR (raised AND 0x1F)" for f by (simp only: f raised_flags)
  have "fp_step E raised s (?r f)" for f unfolding fp_step_def using eq csrs flags by blast
  then show "fp_step E raised s (?r f)" for f .
  moreover have "(softfloat_raiseFlags E raised s)\<lparr>fregs := fregs s\<rparr> = softfloat_raiseFlags E raised s"
    by (cases s) (simp add: softfloat_raiseFlags_def write_csr_def)
  ultimately show "fp_step E raised s (SET_FS_DIRTY E (softfloat_raiseFlags E raised s))"
    by metis
qed

lemma SET_F32_RESULT_stored: "f32_stored E insn z s (SET_F32_RESULT E insn z s)"
proof -
  obtain v raised where z: "z = (v, raised)" by (cases z)
  have low: "ucast (NOT (mask 32) OR ucast v :: u64) = v" "ucast (w AND NOT (mask 32) OR ucast v :: u64) = v" for w
    by (rule bit_word_eqI, auto simp: bit_simps)+
  have r: "fregs (softfloat_raiseFlags E raised s) = fregs s" "fregs (SET_FS_DIRTY E s) = fregs s" for s
    by (simp_all add: softfloat_raiseFlags_def write_csr_def SET_FS_DIRTY_def set_csr_def)
  show ?thesis
    unfolding f32_stored_def SET_F32_RESULT_def z prod.case Let_def SET_F32_RD_def SET_F32_REG_def
    by (simp add: fp_step_raised r low GET_F32_REG_def GET_F64_REG_def SET_F64_REG_def SHIFT_RIGHT_def)
qed

section \<open>Dispatch\<close>

lemma fp_fields:
  assumes "insn AND 0xFE00007F = k"
  shows "insn AND 3 = k AND 3" "insn AND 0x7c = k AND 0x7c" "GET_PRECISION insn = drop_bit 25 k AND 3"
    "drop_bit 25 insn AND 0x7c = drop_bit 25 k AND 0x7c"
proof -
  have k: "drop_bit 25 k = drop_bit 25 insn AND 0x7F" unfolding assms [symmetric] drop_bit_and by simp
  show "insn AND 3 = k AND 3" "insn AND 0x7c = k AND 0x7c" unfolding assms [symmetric] by (simp_all add: and.assoc)
  show "GET_PRECISION insn = drop_bit 25 k AND 3" "drop_bit 25 insn AND 0x7c = drop_bit 25 k AND 0x7c"
    unfolding k GET_PRECISION_def by (simp_all add: and.assoc)
qed

text \<open>An instruction on single-precision registers whose handler stores what \<open>op\<close> computes in the mode.\<close>

definition trapped_fp :: "'d emulator \<Rightarrow> u64 \<Rightarrow> u64 \<Rightarrow> 'd world \<Rightarrow> bool" where
  "trapped_fp E code insn s \<longleftrightarrow>
     fp_emulation E \<and> read_csr MSTATUS s AND MSTATUS_FS \<noteq> 0 \<and> read_csr MBADADDR s = insn \<and> insn AND 0xFE00007F = code"

lemma illegal_insn_trap_fp:
  assumes "trapped_fp E code insn s" "code AND 3 = 3" "code AND 0x7c = 0x50" "instruction_mode E insn s = Some rm"
  obtains s' where "softfloat_roundingMode E s' = rm" "mode_set E (write_csr MEPC (mepc + 4) s) s'"
    "illegal_insn_trap E regs mcause mepc s =
       (fp_emulation_table E ! (unat (drop_bit 25 code AND 0x7c) div 4)) regs mcause mepc (read_csr MSTATUS s) insn s'"
proof -
  have code: "insn AND 0xFE00007F = code" and insn: "read_csr MBADADDR s = insn" and on: "fp_emulation E"
    and FS: "read_csr MSTATUS s AND MSTATUS_FS \<noteq> 0"
    using assms(1) by (simp_all add: trapped_fp_def)
  have "instruction_mode E insn (write_csr MEPC (mepc + 4) s) = Some rm"
    using assms(4) by (simp add: instruction_mode_def status_mode_def read_csr_def write_csr_def split: if_splits)
  then obtain s' where s': "SETUP_STATIC_ROUNDING E insn (write_csr MEPC (mepc + 4) s) = (True, s')"
    "softfloat_roundingMode E s' = rm" "mode_set E (write_csr MEPC (mepc + 4) s) s'"
    by (rule setup_rounding)
  have "illegal_insn_trap E regs mcause mepc s = emulate_fp E regs mcause mepc (read_csr MSTATUS s) insn (write_csr MEPC (mepc + 4) s)"
    using assms(2,3) fp_fields(1,2) [OF code] on
    by (simp add: illegal_insn_trap_def Let_def insn illegal_insn_trap_table_def)
  also have "\<dots> = (fp_emulation_table E ! (unat (drop_bit 25 code AND 0x7c) div 4)) regs mcause mepc (read_csr MSTATUS s) insn s'"
    using FS by (simp only: emulate_fp_def s'(1) fp_fields(4) [OF code] Let_def prod.case if_False simp_thms)
  finally show ?thesis using that s'(2,3) by blast
qed

lemma fp_step_after_mode:
  assumes "mode_set E (write_csr MEPC m s) s'" and "fp_step E raised s' s''"
  shows "fp_step E raised s s''"
proof -
  obtain t where s': "s' = (write_csr MEPC m s)\<lparr>tp := t\<rparr>" using assms(1) by (auto simp: mode_set_def)
  moreover have "fp_flags E s' = fp_flags E s"
    using assms(1) by (simp add: mode_set_def fp_flags_def read_csr_def write_csr_def)
  ultimately show ?thesis using assms(2) by (auto simp: fp_step_def write_csr_def)
qed

lemma trapped_fp_stores:
  assumes "mode_set E (write_csr MEPC (mepc + 4) s) s'"
  shows "f32_stored E insn z s (SET_F32_RESULT E insn z s')" "read_csr MEPC (SET_F32_RESULT E insn z s') = mepc + 4"
    "GET_F32_REG insn pos s' = GET_F32_REG insn pos s"
proof -
  have s': "fregs s' = fregs s" "csrs s' = (csrs s)(MEPC := mepc + 4)"
    using assms by (auto simp: mode_set_def write_csr_def)
  show "f32_stored E insn z s (SET_F32_RESULT E insn z s')"
    using SET_F32_RESULT_stored [of E insn z s'] fp_step_after_mode [OF assms] by (simp add: f32_stored_def s')
  show "GET_F32_REG insn pos s' = GET_F32_REG insn pos s" by (simp add: GET_F32_REG_def GET_F64_REG_def s'(1))
  show "read_csr MEPC (SET_F32_RESULT E insn z s') = mepc + 4"
    by (cases z) (simp add: SET_F32_RESULT_def SET_F32_RD_def SET_F32_REG_def SET_F64_REG_def SET_FS_DIRTY_def
        softfloat_raiseFlags_def set_csr_def read_csr_def write_csr_def s'(2))
qed

section \<open>Addition, subtraction and multiplication\<close>

lemma f32_negate: "f32_mag (a XOR 0x80000000) = f32_mag a" "signF32UI (a XOR 0x80000000) = (\<not> signF32UI a)"
proof -
  have "(0x80000000 :: u32) = push_bit 31 1" by simp
  then have "take_bit 31 (a XOR 0x80000000) = take_bit 31 a" by (intro bit_word_eqI) (auto simp: bit_simps)
  then have "unat (take_bit 31 (a XOR 0x80000000)) = unat (take_bit 31 a)" by (rule arg_cong)
  then show "f32_mag (a XOR 0x80000000) = f32_mag a" by (simp only: f32_mag_def unat_take_bit)
  show "signF32UI (a XOR 0x80000000) = (\<not> signF32UI a)"
    using top_bit32 [of a] by (auto simp: signF32UI_def drop_bit_xor)
qed

text \<open>The second operand of a sum: negated for a subtraction.\<close>

definition addend :: "u64 \<Rightarrow> 'd world \<Rightarrow> u32" where
  "addend insn s = GET_F32_RS2 insn s XOR (if insn AND 0xFE00007F = 0x08000053 then 0x80000000 else 0)"

text \<open>
  \<^bold>\<open>C18\<close>: A trap of a single-precision addition or subtraction on a hart without
  the instruction resumes behind it with the correctly rounded sum of the operands in the
  destination register, in each of the five rounding modes, static or from the status, on and off
  the hart with floating-point registers: normal, subnormal, cancelling and overflowing sums
  included; the inexact exception is raised exactly when a finite result differs from the sum, the
  exceptions join those of the status, and apart from the two status registers and the return
  address nothing else changes.
\<close>

theorem illegal_insn_trap_adds:
  assumes "trapped_fp E code insn s" "code = 0x00000053 \<or> code = 0x08000053"
    and "instruction_mode E insn s = Some rm"
    and "a = GET_F32_RS1 insn s" "f32_finite a" "b = addend insn s" "f32_finite b"
  shows "\<exists>s' z. illegal_insn_trap E regs mcause mepc s = Value regs s'
    \<and> f32_stored E insn z s s' \<and> read_csr MEPC s' = mepc + 4
    \<and> f32_rounds rm (sum_sign rm a b) (of_int \<bar>f32_val a + f32_val b\<bar>) z"
proof -
  have code: "code AND 3 = 3" "code AND 0x7c = 0x50" "drop_bit 25 code AND 3 = 0" "insn AND 0xFE00007F = code"
    using assms(1,2) by (auto simp: trapped_fp_def)
  obtain s' where s': "softfloat_roundingMode E s' = rm" "mode_set E (write_csr MEPC (mepc + 4) s) s'"
    "illegal_insn_trap E regs mcause mepc s =
       (fp_emulation_table E ! (unat (drop_bit 25 code AND 0x7c) div 4)) regs mcause mepc (read_csr MSTATUS s) insn s'"
    by (rule illegal_insn_trap_fp [OF assms(1) code(1,2) assms(3)])
  note regs = trapped_fp_stores(3) [OF s'(2)]
  have "GET_PRECISION insn = PRECISION_S" using fp_fields(3) [OF code(4)] code(3) by (simp add: PRECISION_S_def)
  then have "illegal_insn_trap E regs mcause mepc s = Value regs (SET_F32_RESULT E insn (f32_add rm a b) s')"
    using assms(2,4,6) code(4) unfolding s'(3)
    by (auto simp: fp_emulation_table_def emulate_fadd_def emulate_fsub_def emulate_any_fadd_def s'(1) regs addend_def
        GET_F32_RS1_def GET_F32_RS2_def)
  then show ?thesis
    using trapped_fp_stores(1,2) [OF s'(2)] f32_add_correct [OF assms(5,7)] by blast
qed

text \<open>
  \<^bold>\<open>C19\<close>: A trap of a single-precision multiplication of finite numbers resumes
  behind it with the correctly rounded product in the destination register, in each rounding mode,
  with the inexact exception exactly when a finite result differs from the product.
\<close>

theorem illegal_insn_trap_multiplies:
  assumes "trapped_fp E 0x10000053 insn s" and "instruction_mode E insn s = Some rm"
    and "a = GET_F32_RS1 insn s" "f32_finite a" "b = GET_F32_RS2 insn s" "f32_finite b"
  shows "\<exists>s' z. illegal_insn_trap E regs mcause mepc s = Value regs s'
    \<and> f32_stored E insn z s s' \<and> read_csr MEPC s' = mepc + 4
    \<and> f32_rounds rm (signF32UI a \<noteq> signF32UI b) (of_nat (f32_units a * f32_units b) / 2 ^ 149) z"
proof -
  have code: "insn AND 0xFE00007F = 0x10000053" using assms(1) by (simp add: trapped_fp_def)
  obtain s' where s': "softfloat_roundingMode E s' = rm" "mode_set E (write_csr MEPC (mepc + 4) s) s'"
    "illegal_insn_trap E regs mcause mepc s =
       (fp_emulation_table E ! (unat (drop_bit 25 0x10000053 AND 0x7c :: u64) div 4)) regs mcause mepc (read_csr MSTATUS s) insn s'"
    by (rule illegal_insn_trap_fp [OF assms(1) _ _ assms(2)]) simp_all
  note regs = trapped_fp_stores(3) [OF s'(2)]
  have "GET_PRECISION insn = PRECISION_S" using fp_fields(3) [OF code] by (simp add: PRECISION_S_def)
  then have "illegal_insn_trap E regs mcause mepc s = Value regs (SET_F32_RESULT E insn (f32_mul rm a b) s')"
    using assms(3,5) unfolding s'(3)
    by (simp add: fp_emulation_table_def emulate_fmul_def s'(1) regs GET_F32_RS1_def GET_F32_RS2_def)
  then show ?thesis
    using trapped_fp_stores(1,2) [OF s'(2)] f32_mul_correct [OF assms(4,6)] by blast
qed

section \<open>Comparison\<close>

lemma and_field: "a AND push_bit k (mask n) = push_bit k (take_bit n (drop_bit k a))" for a :: "'a::len word"
  by (rule bit_word_eqI) (auto simp: bit_simps)

lemma inside_field:
  fixes m k b :: nat
  assumes "0 < k"
  shows "m div k = b \<and> m mod k \<noteq> 0 \<longleftrightarrow> b * k < m \<and> m < (b + 1) * k"
proof
  assume f: "m div k = b \<and> m mod k \<noteq> 0"
  have "m = m div k * k + m mod k" "m mod k < k" using assms by simp_all
  then show "b * k < m \<and> m < (b + 1) * k" using f unfolding add_mult_distrib by auto
next
  assume l: "b * k < m \<and> m < (b + 1) * k"
  then have "m div k = b" by (intro div_nat_eqI) (simp_all add: mult.commute)
  moreover have "m mod k \<noteq> 0" using l calculation div_mult_mod_eq [of m k] by (metis add.right_neutral less_irrefl)
  ultimately show "m div k = b \<and> m mod k \<noteq> 0" by simp
qed

lemma signalling32: "softfloat_isSigNaNF32UI a \<longleftrightarrow> f32_inf < f32_mag a \<and> f32_mag a < f32_inf + 2 ^ 22"
proof -
  have c: "(0x7FC00000 :: u32) = push_bit 22 (mask 9)" "(0x7F800000 :: u32) = push_bit 22 510"
    "(0x003FFFFF :: u32) = mask 22" by (simp_all add: mask_eq_exp_minus_1)
  let ?f = "take_bit 9 (drop_bit 22 a)" and ?q = "f32_mag a div 2 ^ 22" and ?r = "f32_mag a mod 2 ^ 22"
  have q: "unat ?f = ?q"
    unfolding unat_take_bit unat_drop_bit f32_mag_def using mod_mult2_eq [of "unat a" "2 ^ 22" "2 ^ 9"] by simp
  have "?q < 2 ^ 9" using f32_mag_less(1) [of a] by (simp add: less_mult_imp_div_less)
  then have p: "unat (push_bit 22 ?f) = ?q * 2 ^ 22" "unat (push_bit 22 (510 :: u32)) = 510 * 2 ^ 22"
    by (subst unat_push_bit; simp add: q)+
  have "a AND 0x7FC00000 = 0x7F800000 \<longleftrightarrow> ?q = 510"
    unfolding c and_field word_unat_eq_iff p by simp
  moreover have "a AND 0x003FFFFF \<noteq> 0 \<longleftrightarrow> ?r \<noteq> 0"
    unfolding c(3) unat_eq_0 [symmetric] unat_and_mask f32_mag_def by (simp add: mod_mod_cancel)
  moreover have "?q = 510 \<and> ?r \<noteq> 0 \<longleftrightarrow> 510 * 2 ^ 22 < f32_mag a \<and> f32_mag a < 511 * 2 ^ 22"
    using inside_field [of "2 ^ 22" "f32_mag a" 510] by simp
  ultimately show ?thesis unfolding softfloat_isSigNaNF32UI_def by simp
qed

text \<open>What the three comparisons say, and when they raise the invalid exception: for every NaN, or for a signalling one.\<close>

definition f32_nan :: "u32 \<Rightarrow> bool" where "f32_nan a \<longleftrightarrow> f32_inf < f32_mag a"
definition f32_signalling :: "u32 \<Rightarrow> bool" where "f32_signalling a \<longleftrightarrow> f32_nan a \<and> f32_mag a < f32_inf + 2 ^ 22"

definition compared :: "u64 \<Rightarrow> u32 \<Rightarrow> u32 \<Rightarrow> bool" where
  "compared op a b \<longleftrightarrow> \<not> f32_nan a \<and> \<not> f32_nan b
     \<and> (if op = 0 then f32_val a \<le> f32_val b else if op = 1 then f32_val a < f32_val b else f32_val a = f32_val b)"

definition compare_invalid :: "u64 \<Rightarrow> u32 \<Rightarrow> u32 \<Rightarrow> bool" where
  "compare_invalid op a b \<longleftrightarrow> (if op = 2 then f32_signalling a \<or> f32_signalling b else f32_nan a \<or> f32_nan b)"

lemma fcmp_result_compared:
  assumes "op \<in> {0, 1, 2}"
  shows "fcmp_result op (f32_eq a b) (f32_lt a b) =
    (compared op a b, if compare_invalid op a b then softfloat_flag_invalid else 0)"
proof (cases "f32_nan a \<or> f32_nan b")
  case True
  then have "isNaNF32UI a \<or> isNaNF32UI b" by (simp add: nan32 f32_nan_def)
  moreover have "softfloat_isSigNaNF32UI c = f32_signalling c" for c
    by (simp add: signalling32 f32_signalling_def f32_nan_def)
  moreover have "\<not> compared op a b" using True by (auto simp: compared_def)
  moreover have "softfloat_flag_invalid OR softfloat_flag_invalid = softfloat_flag_invalid" by simp
  ultimately show ?thesis
    using assms True by (auto simp: fcmp_result_def f32_eq_def f32_lt_def compare_invalid_def)
next
  case False
  then have n: "\<not> isNaNF32UI a" "\<not> isNaNF32UI b" by (simp_all add: nan32 f32_nan_def)
  have "\<not> compare_invalid op a b" using False by (auto simp: compare_invalid_def f32_signalling_def)
  then show ?thesis
    using assms False unfolding fcmp_result_def f32_eq_val [OF n] f32_lt_val [OF n] compared_def by auto
qed

lemma SET_FS_DIRTY_step:
  assumes "mode_set E (write_csr MEPC m s) s'"
  shows "fp_step E raised s (SET_FS_DIRTY E (softfloat_raiseFlags E raised s'))"
    "fregs (SET_FS_DIRTY E (softfloat_raiseFlags E raised s')) = fregs s"
    "read_csr MEPC (SET_FS_DIRTY E (softfloat_raiseFlags E raised s')) = m"
  using fp_step_after_mode [OF assms fp_step_raised(2)] assms
  by (auto simp: mode_set_def write_csr_def softfloat_raiseFlags_def SET_FS_DIRTY_def set_csr_def read_csr_def)

text \<open>
  \<^bold>\<open>C20\<close>: The emulated single-precision comparisons order the values of the
  operands, equal zeros and infinities included; a comparison with a NaN is false, and raises the
  invalid exception for a signalling one or when it orders.
\<close>

theorem illegal_insn_trap_compares:
  assumes "trapped_fp E 0xA0000053 insn s" and "op = GET_RM insn" "op \<in> {0, 1, 2}"
    and "a = GET_F32_RS1 insn s" "b = GET_F32_RS2 insn s"
  shows "\<exists>s'. illegal_insn_trap E regs mcause mepc s = Value (SET_RD insn regs (of_bool (compared op a b))) s'
    \<and> fp_step E (if compare_invalid op a b then softfloat_flag_invalid else 0) s s'
    \<and> fregs s' = fregs s \<and> read_csr MEPC s' = mepc + 4"
proof -
  have code: "insn AND 0xFE00007F = 0xA0000053" using assms(1) by (simp add: trapped_fp_def)
  have "instruction_mode E insn s = Some (ucast op)" using assms(2,3) by (auto simp: instruction_mode_def)
  then obtain s' where s': "mode_set E (write_csr MEPC (mepc + 4) s) s'"
    "illegal_insn_trap E regs mcause mepc s =
       (fp_emulation_table E ! (unat (drop_bit 25 0xA0000053 AND 0x7c :: u64) div 4)) regs mcause mepc (read_csr MSTATUS s) insn s'"
    by (rule illegal_insn_trap_fp [OF assms(1), rotated 2]) simp_all
  note regs = trapped_fp_stores(3) [OF s'(1)]
  have "GET_PRECISION insn = PRECISION_S" using fp_fields(3) [OF code] by (simp add: PRECISION_S_def)
  moreover have "\<not> 3 \<le> op" using assms(3) by (auto simp: word_le_nat_alt)
  ultimately have "illegal_insn_trap E regs mcause mepc s = (case fcmp_result op (f32_eq a b) (f32_lt a b) of
      (result, raised) \<Rightarrow> Value (SET_RD insn regs (of_bool result)) (SET_FS_DIRTY E (softfloat_raiseFlags E raised s')))"
    using assms(2,4,5) unfolding s'(2)
    by (simp add: fp_emulation_table_def emulate_fcmp_def regs GET_F32_RS1_def GET_F32_RS2_def Let_def)
  then show ?thesis
    unfolding fcmp_result_compared [OF assms(3)] prod.case using SET_FS_DIRTY_step [OF s'(1)] by blast
qed

section \<open>Conversion to unsigned integers\<close>

text \<open>
  \<^bold>\<open>C21\<close>: The emulated conversion of a negative double to an unsigned integer,
  when its magnitude does not round to zero, puts the largest unsigned integer into the destination
  register, the one of 32 bits zero-extended, where the instruction set defines 0.
\<close>

theorem illegal_insn_trap_fcvt_unsigned:
  assumes "trapped_fp E 0xC2000053 insn s" and "instruction_mode E insn s = Some rm"
    and "rs2 = drop_bit 20 insn AND 0x1F" "rs2 \<in> {1, 3}"
    and "x = GET_F64_RS1 insn s" "sint x < 0" "f64_to_ui64 (x XOR 0x8000000000000000) rm True = (n, raised)" "n \<noteq> 0"
  shows "\<exists>s'. illegal_insn_trap E regs mcause mepc s = Value (SET_RD insn regs (if rs2 = 1 then mask 32 else mask 64)) s'
    \<and> fp_step E (raised OR softfloat_flag_invalid) s s' \<and> fregs s' = fregs s \<and> read_csr MEPC s' = mepc + 4"
proof -
  have code: "insn AND 0xFE00007F = 0xC2000053" using assms(1) by (simp add: trapped_fp_def)
  obtain s' where s': "softfloat_roundingMode E s' = rm" "mode_set E (write_csr MEPC (mepc + 4) s) s'"
    "illegal_insn_trap E regs mcause mepc s =
       (fp_emulation_table E ! (unat (drop_bit 25 0xC2000053 AND 0x7c :: u64) div 4)) regs mcause mepc (read_csr MSTATUS s) insn s'"
    by (rule illegal_insn_trap_fp [OF assms(1) _ _ assms(2)]) simp_all
  have regs: "GET_F64_RS1 insn s' = x"
    using s'(2) assms(5) by (auto simp: mode_set_def write_csr_def GET_F64_RS1_def GET_F64_REG_def)
  have "GET_PRECISION insn = PRECISION_D" "PRECISION_D \<noteq> PRECISION_S"
    using fp_fields(3) [OF code] by (simp_all add: PRECISION_D_def PRECISION_S_def)
  moreover have "fcvt_integer rm rs2 x = (if rs2 = 1 then mask 32 else mask 64, raised OR softfloat_flag_invalid)"
    using assms(4,6-8) by (auto simp: fcvt_integer_def fcvt_limits_def word_gt_0 mask_eq_exp_minus_1)
  moreover have "\<not> 4 \<le> rs2" using assms(4) by (auto simp: word_le_nat_alt)
  ultimately have "illegal_insn_trap E regs mcause mepc s = Value (SET_RD insn regs (if rs2 = 1 then mask 32 else mask 64))
      (SET_FS_DIRTY E (softfloat_raiseFlags E (raised OR softfloat_flag_invalid) s'))"
    using assms(3) regs unfolding s'(3)
    by (simp add: fp_emulation_table_def emulate_fcvt_if_def s'(1) Let_def)
  then show ?thesis using SET_FS_DIRTY_step [OF s'(2)] by blast
qed

end
