(* ===== verification/FpExamples.thy ===== *)
theory FpExamples
  imports MachineExamples FpEmulationProps
begin

text \<open>The properties of floating-point emulation at concrete instructions and operands.\<close>

definition fp_world :: "u64 \<Rightarrow> u64 \<Rightarrow> u64 \<Rightarrow> unit world" where
  "fp_world w a b = at_rest\<lparr>csrs := (\<lambda>_. 0)(MBADADDR := w, MSTATUS := 0x6000), fregs := (\<lambda>_. 0)(1 := a, 2 := b)\<rparr>"

lemma fp_world_trapped:
  "w AND 0xFE00007F = code \<Longrightarrow> trapped_fp (demo_emulator True) code w (fp_world w a b)"
  by (simp add: trapped_fp_def demo_emulator_def fp_world_def read_csr_def MSTATUS_FS_def)

lemma fp_world_operands:
  assumes "drop_bit 12 w AND 0xF8 = 8" and "drop_bit 17 w AND 0xF8 = 16"
  shows "GET_F32_RS1 w (fp_world w a b) = ucast a" "GET_F32_RS2 w (fp_world w a b) = ucast b"
  using assms by (simp_all add: GET_F32_RS1_def GET_F32_RS2_def GET_F32_REG_def GET_F64_REG_def SHIFT_RIGHT_def fp_world_def)

lemmas small_floats = f32_finite_def f32_mag_def

text \<open>The sum of 1 and 2 to the -24, to the nearest: exactly half-way between two neighbours.\<close>

theorem illegal_insn_trap_adds_witness:
  "\<exists>s' z. illegal_insn_trap (demo_emulator True) guest_regs 2 0x1000 (fp_world 0x002081D3 0x3F800000 0x33800000) = Value guest_regs s'
    \<and> f32_stored (demo_emulator True) 0x002081D3 z (fp_world 0x002081D3 0x3F800000 0x33800000) s' \<and> read_csr MEPC s' = 0x1004
    \<and> f32_rounds 0 False (2 ^ 149 + 2 ^ 125) z"
proof -
  let ?s = "fp_world 0x002081D3 0x3F800000 0x33800000"
  have trapped: "trapped_fp (demo_emulator True) 0x53 0x002081D3 ?s" by (rule fp_world_trapped) simp
  have ops: "0x3F800000 = GET_F32_RS1 0x002081D3 ?s" "0x33800000 = addend 0x002081D3 ?s"
    by (simp_all add: fp_world_operands addend_def)
  have mode: "instruction_mode (demo_emulator True) 0x002081D3 ?s = Some 0"
    by (simp add: instruction_mode_def GET_RM_def)
  have "f32_val 0x3F800000 = 2 ^ 149" "f32_val 0x33800000 = 2 ^ 125" "\<not> signF32UI 0x3F800000" "\<not> signF32UI 0x33800000"
    by (simp_all add: f32_val_def f32_mag_def fp_units_def signF32UI_def drop_bit_eq_div)
  then have r: "sum_sign 0 0x3F800000 0x33800000 = False"
    "of_int \<bar>f32_val 0x3F800000 + f32_val 0x33800000\<bar> = (2 ^ 149 + 2 ^ 125 :: rat)"
    by (simp_all add: sum_sign_def)
  have finite: "f32_finite 0x3F800000" "f32_finite 0x33800000" by (simp_all add: small_floats)
  show ?thesis
    using illegal_insn_trap_adds [OF trapped disjI1 [OF refl] mode ops(1) finite(1) ops(2) finite(2), of guest_regs 2 "0x1000"]
    unfolding r by simp
qed

text \<open>The square of the number after 1, rounded up.\<close>

theorem illegal_insn_trap_multiplies_witness:
  "\<exists>s' z. illegal_insn_trap (demo_emulator True) guest_regs 2 0x1000 (fp_world 0x1020B1D3 0x3F800001 0x3F800001) = Value guest_regs s'
    \<and> f32_stored (demo_emulator True) 0x1020B1D3 z (fp_world 0x1020B1D3 0x3F800001 0x3F800001) s' \<and> read_csr MEPC s' = 0x1004
    \<and> f32_rounds 3 False ((2 ^ 149 + 2 ^ 126) ^ 2 / 2 ^ 149) z"
proof -
  let ?s = "fp_world 0x1020B1D3 0x3F800001 0x3F800001"
  have trapped: "trapped_fp (demo_emulator True) 0x10000053 0x1020B1D3 ?s" by (rule fp_world_trapped) simp
  have ops: "0x3F800001 = GET_F32_RS1 0x1020B1D3 ?s" "0x3F800001 = GET_F32_RS2 0x1020B1D3 ?s"
    by (simp_all add: fp_world_operands)
  have mode: "instruction_mode (demo_emulator True) 0x1020B1D3 ?s = Some 3"
    by (simp add: instruction_mode_def GET_RM_def)
  have "f32_units 0x3F800001 = 2 ^ 149 + 2 ^ 126" by (simp add: f32_mag_def fp_units_def)
  then have r: "of_nat (f32_units 0x3F800001 * f32_units 0x3F800001) / 2 ^ 149 = ((2 ^ 149 + 2 ^ 126) ^ 2 / 2 ^ 149 :: rat)"
    by (simp only: of_nat_mult of_nat_add of_nat_power of_nat_numeral power2_eq_square)
  have finite: "f32_finite 0x3F800001" by (simp add: small_floats)
  show ?thesis
    using illegal_insn_trap_multiplies [OF trapped mode ops(1) finite ops(2) finite, of guest_regs 2 "0x1000"]
    unfolding r by simp
qed

text \<open>A comparison with a quiet NaN is false and, for less than, invalid.\<close>

theorem illegal_insn_trap_compares_witness:
  "\<exists>s'. illegal_insn_trap (demo_emulator True) guest_regs 2 0x1000 (fp_world 0xA02091D3 0x3F800000 0x7FC00000) = Value (SET_RD 0xA02091D3 guest_regs 0) s'
    \<and> fp_step (demo_emulator True) softfloat_flag_invalid (fp_world 0xA02091D3 0x3F800000 0x7FC00000) s'
    \<and> fregs s' = fregs (fp_world 0xA02091D3 0x3F800000 0x7FC00000) \<and> read_csr MEPC s' = 0x1004"
proof -
  let ?s = "fp_world 0xA02091D3 0x3F800000 0x7FC00000"
  have trapped: "trapped_fp (demo_emulator True) 0xA0000053 0xA02091D3 ?s" by (rule fp_world_trapped) simp
  have ops: "0x3F800000 = GET_F32_RS1 0xA02091D3 ?s" "0x7FC00000 = GET_F32_RS2 0xA02091D3 ?s"
    by (simp_all add: fp_world_operands)
  have op: "1 = GET_RM 0xA02091D3" by (simp add: GET_RM_def)
  have "f32_nan 0x7FC00000" by (simp add: f32_nan_def f32_mag_def)
  then have r: "compared 1 0x3F800000 0x7FC00000 = False" "compare_invalid 1 0x3F800000 0x7FC00000 = True"
    by (simp_all add: compared_def compare_invalid_def)
  show ?thesis
    using illegal_insn_trap_compares [OF trapped op _ ops, of guest_regs 2 "0x1000"] unfolding r by simp
qed

text \<open>The conversion of -1 to an unsigned integer of 32 bits.\<close>

theorem illegal_insn_trap_fcvt_unsigned_witness:
  "\<exists>s'. illegal_insn_trap (demo_emulator True) guest_regs 2 0x1000 (fp_world 0xC21091D3 0xBFF0000000000000 0)
      = Value (SET_RD 0xC21091D3 guest_regs (mask 32)) s'
    \<and> fp_step (demo_emulator True) softfloat_flag_invalid (fp_world 0xC21091D3 0xBFF0000000000000 0) s'
    \<and> fregs s' = fregs (fp_world 0xC21091D3 0xBFF0000000000000 0) \<and> read_csr MEPC s' = 0x1004"
proof -
  let ?s = "fp_world 0xC21091D3 0xBFF0000000000000 0"
  have trapped: "trapped_fp (demo_emulator True) 0xC2000053 0xC21091D3 ?s" by (rule fp_world_trapped) simp
  have ops: "0xBFF0000000000000 = GET_F64_RS1 0xC21091D3 ?s" "1 = drop_bit 20 0xC21091D3 AND (0x1F :: u64)"
    by (simp_all add: GET_F64_RS1_def GET_F64_REG_def SHIFT_RIGHT_def fp_world_def)
  have mode: "instruction_mode (demo_emulator True) 0xC21091D3 ?s = Some 1"
    by (simp add: instruction_mode_def GET_RM_def)
  have one: "f64_to_ui64 (0xBFF0000000000000 XOR 0x8000000000000000) 1 True = (1, 0)" by code_simp
  have neg: "sint (0xBFF0000000000000 :: u64) < 0" by simp
  show ?thesis
    using illegal_insn_trap_fcvt_unsigned [OF trapped mode ops(2) _ ops(1) neg one, of guest_regs 2 "0x1000"] by simp
qed

end
