(* ===== verification/Spec2Isabelle.thy ===== *)
theory Spec2Isabelle
  imports VmExamples MachineExamples UserExamples FpExamples
begin

text \<open>
  \<^bold>\<open>The firmware of the security-hardened RISC-V system: boot ROM, machine mode, proxy kernel and user library.\<close>

  The program is the software that the chip boots. The boot ROM (\<^verbatim>\<open>fpga/src/bootrom/src\<close> of the Ariane tile)
  copies an image from an SD card and jumps to it. The image is \<^verbatim>\<open>src/pk\<close>. In machine mode it sets up the harts and the
  protection of memory (\<^verbatim>\<open>minit.c\<close>), finds the peripherals in the device tree (\<^verbatim>\<open>fdt.c\<close>), distributes keys and lock bits from the fuses
  (\<^verbatim>\<open>pkt.c\<close>, \<^verbatim>\<open>reglk.c\<close>), drives the AES, SHA-256, HMAC, DMA, random number, RSA and reset
  engines, answers the environment calls of the supervisor (\<^verbatim>\<open>mtrap.c\<close>) and completes instructions that the
  hart does not (\<^verbatim>\<open>emulation.c\<close>). It starts a payload (\<^verbatim>\<open>bbl\<close>) or the proxy kernel. In supervisor
  mode the proxy kernel (\<^verbatim>\<open>src/pk/pk\<close>) gives a user program its address space and its system
  calls; a call that needs an engine checks the user pointers, copies the data into kernel
  locals and enters machine mode. User programs make these calls through the library of \<^verbatim>\<open>src/software\<close>.

  \<^bold>\<open>Theories and sources.\<close>

  \<^item> \<^verbatim>\<open>Prelude\<close>, \<^verbatim>\<open>Memory\<close>: machine integers, little-endian bytes and the byte memory \<open>ram\<close>, with the
    locale \<open>byte_store\<close>. \<^verbatim>\<open>Machine\<close>: the state \<open>world\<close> (memory, the device pointers and other
    globals of the C files, the control registers of the hart, the globals \<open>pkv\<close> of the kernel,
    the trace of device accesses), and the \<open>bus\<close>, the parameter that says what devices answer.
  \<^item> \<^verbatim>\<open>CString\<close> (\<^verbatim>\<open>util/string.c\<close>) and \<^verbatim>\<open>Snprintf\<close> (\<^verbatim>\<open>util/snprintf.c\<close>): each routine meets its
    specification on memory: copies, lengths, numbers, formatted text.
  \<^item> \<^verbatim>\<open>DriverCommon\<close> (\<^verbatim>\<open>machine/common_driver_fn.c\<close>): register accesses, blocks of registers, and the
    polling loop; \<open>io_step\<close> is the frame of every access, \<open>sent\<close> what reached the devices.
  \<^item> \<^verbatim>\<open>Fdt\<close> (\<^verbatim>\<open>machine/fdt.c\<close>): the scanner over the flattened tree and the walk it amounts to;
    \<^verbatim>\<open>Devices\<close>: its queries for memory, harts and interrupt controllers, the filters and the printer.
  \<^item> \<^verbatim>\<open>Console\<close> (\<^verbatim>\<open>uart.c\<close>, \<^verbatim>\<open>uart16550.c\<close>, \<^verbatim>\<open>htif.c\<close>, \<^verbatim>\<open>finisher.c\<close>, printing in \<^verbatim>\<open>mtrap.c\<close>);
    \<^verbatim>\<open>Aes\<close>, \<^verbatim>\<open>Dma\<close>, \<^verbatim>\<open>Hash\<close>, \<^verbatim>\<open>RngRsa\<close>, \<^verbatim>\<open>Pkt\<close>: one theory for each group of drivers; the lemmas
    say which register writes an operation makes, in order, and what it leaves in memory.
  \<^item> \<^verbatim>\<open>Pmp\<close> (the protection registers, \<^verbatim>\<open>setup_pk_pmp\<close>, \<^verbatim>\<open>protect_memory\<close>), \<^verbatim>\<open>Start\<close> (\<^verbatim>\<open>machine/minit.c\<close>,
    \<^verbatim>\<open>bbl/bbl.c\<close>, \<^verbatim>\<open>bbl/logo.c\<close>): start-up. \<^verbatim>\<open>PmpProps\<close>, \<^verbatim>\<open>StartProps\<close>: which accesses the entries allow in
    which mode, the state that start-up leaves, and what becomes of the protection on the way to a payload.
  \<^item> \<^verbatim>\<open>Insn\<close> (\<^verbatim>\<open>emulation.h\<close>, \<^verbatim>\<open>encoding.h\<close>), \<^verbatim>\<open>Emulation\<close> (\<^verbatim>\<open>emulation.c\<close>, \<^verbatim>\<open>muldiv_emulation.c\<close>,
    \<^verbatim>\<open>misaligned_ldst.c\<close>, \<^verbatim>\<open>fp_ldst.c\<close>, \<^verbatim>\<open>unprivileged_memory.h\<close>): the emulated instructions. \<^verbatim>\<open>EmulationProps\<close>:
    they compute what the instruction set says, and their faults reach the supervisor.
  \<^item> \<^verbatim>\<open>SoftFloat\<close> (the part of \<^verbatim>\<open>src/pk/softfloat\<close> that is linked): arithmetic, comparison and conversion of both
    precisions on bit patterns; every function takes the rounding mode and returns the exceptions it raises.
    \<^verbatim>\<open>FpEmulation\<close> (\<^verbatim>\<open>fp_emulation.c\<close>, \<^verbatim>\<open>fp_emulation.h\<close>, the handler of illegal instructions in \<^verbatim>\<open>emulation.c\<close>): the
    instructions over it and the tables that lead to them.
  \<^item> \<^verbatim>\<open>Rounding\<close>: values of floating-point numbers as multiples of the least one (\<open>fp_units\<close>), what correct rounding is
    in each mode (\<open>correctly_rounded\<close>, determined by \<open>correctly_rounded_unique\<close>), and why one last bit that gathers all lost ones is
    enough for it (\<open>stands\<close>). \<^verbatim>\<open>FloatProps\<close> (fields, order of values), \<^verbatim>\<open>FloatRound\<close> (\<open>roundPackToF32_correct\<close>), \<^verbatim>\<open>FloatMul\<close>,
    \<^verbatim>\<open>FloatAdd\<close>, \<^verbatim>\<open>FloatSub\<close>: the products and sums of single precision are the correctly rounded ones.
    \<^verbatim>\<open>FpEmulationProps\<close> carries this to the trap.
  \<^item> \<^verbatim>\<open>Loader\<close> (\<^verbatim>\<open>pk/pk.c\<close>, \<^verbatim>\<open>pk/elf.c\<close>), \<^verbatim>\<open>LoaderProps\<close>: the start of the kernel and of the program.
  \<^item> \<^verbatim>\<open>Sbi\<close> (\<^verbatim>\<open>mtrap.c\<close>): the environment calls and traps of machine mode; \<open>call_step\<close> is their frame.
  \<^item> \<^verbatim>\<open>Syscalls\<close> (the engine calls of \<^verbatim>\<open>pk/syscall.c\<close>), \<^verbatim>\<open>Files\<close> (\<^verbatim>\<open>pk/file.c\<close>, \<^verbatim>\<open>pk/frontend.c\<close>),
    \<^verbatim>\<open>FileCalls\<close> (the file calls of \<^verbatim>\<open>pk/syscall.c\<close>, \<^verbatim>\<open>populate_mapping\<close>), \<^verbatim>\<open>Vm\<close> (\<^verbatim>\<open>pk/mmap.c\<close>) and
    \<^verbatim>\<open>Traps\<close> (\<^verbatim>\<open>pk/console.c\<close>, \<^verbatim>\<open>pk/handlers.c\<close>, the dispatch in \<^verbatim>\<open>pk/syscall.c\<close>): the kernel.
  \<^item> \<^verbatim>\<open>SyscallProps\<close>, \<^verbatim>\<open>Liveness\<close>: what an engine call delivers, sends and wipes, through the
    contracts \<open>engine_read\<close>, \<open>engine_write\<close> and \<open>engine_load\<close> of machine mode, and that it returns
    whenever the engines keep answering (\<open>responsive\<close>).
  \<^item> \<^verbatim>\<open>PageTables\<close>, \<^verbatim>\<open>VmProps\<close>, \<^verbatim>\<open>Regions\<close>, \<^verbatim>\<open>VmCalls\<close>, \<^verbatim>\<open>Faults\<close>: the page tables in memory are
    a tree of distinct pages and so a map from addresses to entries; the invariant \<open>vm_inv\<close> adds
    that region descriptors count the entries that name them; \<open>view\<close> abstracts a state to one
    \<open>page_state\<close> for each page, and each call is an update of the view. All these statements are
    total: the call returns.
  \<^item> \<^verbatim>\<open>BootRom\<close> (\<^verbatim>\<open>main.c\<close>, \<^verbatim>\<open>gpt.c\<close>, \<^verbatim>\<open>sd.c\<close>, \<^verbatim>\<open>spi.c\<close>, \<^verbatim>\<open>uart.c\<close> of the boot ROM). \<^verbatim>\<open>BootRomProps\<close>: the bytes
    exchanged with the card are read off the trace (\<open>tx\<close>, \<open>rx\<close>); \<open>spi_fifo\<close> is what the code relies on of the controller,
    \<open>token_comes\<close> that the card sends a data token, \<open>card_sends\<close> the form of correct blocks.
  \<^item> \<^verbatim>\<open>UserApi\<close> (\<^verbatim>\<open>software/ariane_api.c\<close>), \<^verbatim>\<open>UserLib\<close> (\<^verbatim>\<open>software/syscalls.c\<close>): the library of the user programs; an
    \<^verbatim>\<open>ecall\<close> is a run of \<open>handle_trap\<close>. \<^verbatim>\<open>UserCalls\<close>: which system call a function reaches, and a decryption from the
    program to the engine; \<^verbatim>\<open>UserProps\<close>: formatted output, over the contract \<open>writer\<close> of the routine that takes characters.
  \<^item> \<^verbatim>\<open>FileProps\<close>: reference counts of files; \<^verbatim>\<open>TrapProps\<close>: from the trap through the tables to the
    effect of the call. \<^verbatim>\<open>Examples\<close>, \<^verbatim>\<open>VmExamples\<close>, \<^verbatim>\<open>MachineExamples\<close>, \<^verbatim>\<open>UserExamples\<close>, \<^verbatim>\<open>FpExamples\<close>: the properties at concrete inputs.

  \<^bold>\<open>Conventions.\<close> An operation takes the state and returns it, with its result; \<open>None\<close> is a run
  that does not come back: a device that is polled for ever, a failed \<^verbatim>\<open>assert\<close> or \<^verbatim>\<open>kassert\<close> (the
  machine is shut down), a lock taken twice, a panic. Loops that need not end are partial
  functions into \<open>option\<close>, so no fuel bounds them, and that an operation returns is proved as
  the existence of its result. Integers have their width; every \<^verbatim>\<open>int\<close> result of a call is
  sign-extended by the dispatcher. Error codes are those of the code; \<open>ENOSYS\<close> and the addresses
  that the linker or the host chooses (string literals, locals: \<open>frame\<close>) are parameters.

  \<^bold>\<open>Addresses.\<close> The kernel maps its own memory to itself, so machine mode and kernel share one
  \<open>ram\<close>. User memory is addressed as the program sees it, in the same \<open>ram\<close>; the translation of
  user addresses to frames is not part of an access, and user buffers that an engine call
  copies are taken to be present. Descriptors of regions and files are lists beside the memory
  that the code keeps them in. The kernel runs on one hart, with interrupts off.

  \<^bold>\<open>Emulated instructions.\<close> They run with the flags of a build (\<open>emulator\<close>) and a translation of addresses, which
  stands for the hart: an access on behalf of the interrupted code gets a physical address or faults, and a fault
  goes through \<^verbatim>\<open>trap_from_machine_mode\<close>. Where C leaves a division undefined the compiler's routine is a parameter.

  \<^bold>\<open>User programs.\<close> They are built without optimisation, so a register variable is set where it is declared, whether or
  not the \<^verbatim>\<open>asm\<close> statement names it as an input; \<open>client\<close> holds the addresses of their static data and locals.

  \<^bold>\<open>Floating point.\<close> SoftFloat is built without its options, so on 32-bit words where it has the choice, and with
  the fast integer types of the C library, 32 bits wide at least. Exponents and shift distances are integers: they stay far
  below the limits of their types. The registers of the hart are \<open>fregs\<close>, whether it has them or the emulation keeps them
  behind the saved integer registers. Division, square root, the fused operations, conversions and double precision are
  modelled in full; the theorems on rounding are about sums and products of single precision.

  \<^bold>\<open>Not modelled:\<close> the assembly of the trap entries (\<^verbatim>\<open>mentry.S\<close>) and of the register access (\<^verbatim>\<open>fp_asm.S\<close>), the functions of
  SoftFloat that are not linked, and the hardware, tools and tests of the repository.
\<close>

end
